(* ===== verification/H11_Prelude.thy ===== *)
theory H11_Prelude
  imports Main "HOL-Library.List_Lexorder" "HOL-Library.Char_ord"
begin

text \<open>
  The prelude shared by every component of the H-11 automatic execution model.

  It holds the exceptions the modelled Python raises, the error-and-state monad in which the
  stores and the engines are written (a raise keeps the state reached so far, a SQLite
  transaction rolls it back), the two-postcondition triples with which the engines are
  verified, and the list lemmas the tables of the stores need.
\<close>

section \<open>Exceptions\<close>

text \<open>
  One constructor per exception class of the modelled code, carrying the message where the code
  gives one.  \<open>SqliteIntegrityError\<close> is \<open>sqlite3.IntegrityError\<close>; \<open>KeyboardInterrupt\<close>
  stands for the process being stopped between two of its calls; \<open>FuelExhausted\<close>
  is not a Python exception: it marks a recursion of the model cut off by its fuel, and the
  engine theories prove that it never occurs.
\<close>

datatype py_exn =
    H11AutoContractError string
  | H11AutoStateError string
  | H11AutoPersistenceError string
  | H11AutoRiskError string
  | H11AutoBoundaryError string
  | H11AutoPaperError string
  | H11AutoExitError string
  | V4GmoContractError string
  | V4GmoPersistenceError string
  | V4GmoBoundaryError string
  | V4GmoProtectionError string
  | H11AutoRuntimeSafetyError string
  | V4GmoRuntimeError string
  | V4GmoActualCoordinatorError string
  | V4PersistedAuthorizationError string
  | H11AutoPaperRunnerError string
  | DecimalInvalidOperation
  | DecimalOverflow
  | SqliteIntegrityError
  | PyTypeError
  | PyValueError string
  | PyKeyError
  | PyAttributeError
  | PyIndexError
  | PyZeroDivision
  | PyOverflowError
  | KeyboardInterrupt
  | FuelExhausted

section \<open>Pure computations that may raise\<close>

type_synonym 'a result = "py_exn + 'a"

fun bindR :: "'a result \<Rightarrow> ('a \<Rightarrow> 'b result) \<Rightarrow> 'b result" where
  "bindR (Inl e) f = Inl e"
| "bindR (Inr x) f = f x"

definition guardR :: "bool \<Rightarrow> py_exn \<Rightarrow> unit result" where
  "guardR b e = (if b then Inr () else Inl e)"

lemma bindR_Inr_iff: "bindR m f = Inr y \<longleftrightarrow> (\<exists>x. m = Inr x \<and> f x = Inr y)"
  by (cases m) auto

lemma guardR_Inr_iff [simp]: "guardR b e = Inr u \<longleftrightarrow> b"
  by (simp add: guardR_def)

section \<open>Stateful computations that may raise\<close>

type_synonym ('s, 'a) prog = "'s \<Rightarrow> 'a result \<times> 's"

definition returnE :: "'a \<Rightarrow> ('s, 'a) prog" where
  "returnE x = (\<lambda>s. (Inr x, s))"

definition raiseE :: "py_exn \<Rightarrow> ('s, 'a) prog" where
  "raiseE e = (\<lambda>s. (Inl e, s))"

definition bindE :: "('s, 'a) prog \<Rightarrow> ('a \<Rightarrow> ('s, 'b) prog) \<Rightarrow> ('s, 'b) prog" where
  "bindE m f = (\<lambda>s. case m s of (Inl e, s') \<Rightarrow> (Inl e, s') | (Inr x, s') \<Rightarrow> f x s')"

definition thenE :: "('s, 'a) prog \<Rightarrow> ('s, 'b) prog \<Rightarrow> ('s, 'b) prog" where
  "thenE m k = bindE m (\<lambda>_. k)"

definition liftE :: "'a result \<Rightarrow> ('s, 'a) prog" where
  "liftE r = (\<lambda>s. (r, s))"

definition getE :: "('s \<Rightarrow> 'a) \<Rightarrow> ('s, 'a) prog" where
  "getE f = (\<lambda>s. (Inr (f s), s))"

definition modifyE :: "('s \<Rightarrow> 's) \<Rightarrow> ('s, unit) prog" where
  "modifyE f = (\<lambda>s. (Inr (), f s))"

definition guardE :: "bool \<Rightarrow> py_exn \<Rightarrow> ('s, unit) prog" where
  "guardE b e = (if b then returnE () else raiseE e)"

text \<open>\<open>try: m except ...: h\<close>, where \<open>h\<close> receives every exception and re-raises the others.\<close>

definition catchE :: "('s, 'a) prog \<Rightarrow> (py_exn \<Rightarrow> ('s, 'a) prog) \<Rightarrow> ('s, 'a) prog" where
  "catchE m h = (\<lambda>s. case m s of (Inl e, s') \<Rightarrow> h e s' | (Inr x, s') \<Rightarrow> (Inr x, s'))"

text \<open>
  \<open>try: x = m except C: return h\<close> followed by \<open>k x\<close>: only the exceptions of \<open>m\<close> itself
  that \<open>caught\<close> selects go to the handler.
\<close>

definition try_exceptE :: "('s, 'a) prog \<Rightarrow> (py_exn \<Rightarrow> bool) \<Rightarrow> ('s, 'b) prog \<Rightarrow> ('a \<Rightarrow> ('s, 'b) prog)
    \<Rightarrow> ('s, 'b) prog" where
  "try_exceptE m caught h k = (\<lambda>s. case m s of
     (Inl e, s') \<Rightarrow> if caught e then h s' else (Inl e, s')
   | (Inr x, s') \<Rightarrow> k x s')"

text \<open>
  \<open>with connection: m\<close> of \<open>sqlite3\<close>: commit when the body returns, roll back when it raises.
\<close>

definition transactionE :: "('s, 'a) prog \<Rightarrow> ('s, 'a) prog" where
  "transactionE m = (\<lambda>s. case m s of (Inl e, s') \<Rightarrow> (Inl e, s) | (Inr x, s') \<Rightarrow> (Inr x, s'))"

text \<open>Running a program of one component inside a bigger state.\<close>

definition zoomE :: "('w \<Rightarrow> 's) \<Rightarrow> ('s \<Rightarrow> 'w \<Rightarrow> 'w) \<Rightarrow> ('s, 'a) prog \<Rightarrow> ('w, 'a) prog" where
  "zoomE get put m = (\<lambda>w. case m (get w) of (r, s') \<Rightarrow> (r, put s' w))"

lemmas prog_defs = returnE_def raiseE_def bindE_def thenE_def liftE_def getE_def modifyE_def
  guardE_def catchE_def try_exceptE_def transactionE_def zoomE_def

subsection \<open>Evaluating programs\<close>

lemma run_simps [simp]:
  "returnE x s = (Inr x, s)"
  "raiseE e s = (Inl e, s)"
  "liftE r s = (r, s)"
  "getE f s = (Inr (f s), s)"
  "modifyE g s = (Inr (), g s)"
  "guardE b e s = (if b then (Inr (), s) else (Inl e, s))"
  by (simp_all add: prog_defs)

lemma run_bind: "bindE m f s = (case m s of (Inl e, s') \<Rightarrow> (Inl e, s') | (Inr x, s') \<Rightarrow> f x s')"
  by (simp add: bindE_def)

lemma run_then: "thenE m k s = (case m s of (Inl e, s') \<Rightarrow> (Inl e, s') | (Inr x, s') \<Rightarrow> k s')"
  by (simp add: thenE_def bindE_def)

lemma run_catch: "catchE m h s = (case m s of (Inl e, s') \<Rightarrow> h e s' | (Inr x, s') \<Rightarrow> (Inr x, s'))"
  by (simp add: catchE_def)

lemma run_transaction:
  "transactionE m s = (case m s of (Inl e, s') \<Rightarrow> (Inl e, s) | (Inr x, s') \<Rightarrow> (Inr x, s'))"
  by (simp add: transactionE_def)

lemma run_zoom: "zoomE get put m w = (case m (get w) of (r, s') \<Rightarrow> (r, put s' w))"
  by (simp add: zoomE_def)

lemmas run_progs = run_bind run_then run_catch run_transaction run_zoom

section \<open>Triples\<close>

text \<open>
  \<open>triple P m Q E\<close>: from a state satisfying \<open>P\<close> the program either returns \<open>x\<close> in a state
  satisfying \<open>Q x\<close> or raises \<open>e\<close> in a state satisfying \<open>E e\<close>.  Both postconditions are
  about the state that is left behind, since an exception does not undo committed writes.
\<close>

definition triple ::
    "('s \<Rightarrow> bool) \<Rightarrow> ('s, 'a) prog \<Rightarrow> ('a \<Rightarrow> 's \<Rightarrow> bool) \<Rightarrow> (py_exn \<Rightarrow> 's \<Rightarrow> bool) \<Rightarrow> bool" where
  "triple P m Q E \<longleftrightarrow>
     (\<forall>s. P s \<longrightarrow> (case m s of (Inr x, s') \<Rightarrow> Q x s' | (Inl e, s') \<Rightarrow> E e s'))"

named_theorems wp \<open>introduction rules for triples, one per program construct\<close>

lemma tripleI:
  assumes "\<And>s x s'. P s \<Longrightarrow> m s = (Inr x, s') \<Longrightarrow> Q x s'"
    and "\<And>s e s'. P s \<Longrightarrow> m s = (Inl e, s') \<Longrightarrow> E e s'"
  shows "triple P m Q E"
  unfolding triple_def
proof (intro allI impI)
  fix s assume "P s"
  obtain r s' where "m s = (r, s')" by (cases "m s")
  with \<open>P s\<close> show "case m s of (Inr x, s') \<Rightarrow> Q x s' | (Inl e, s') \<Rightarrow> E e s'"
    by (cases r) (auto intro: assms)
qed

lemma tripleD_return: "triple P m Q E \<Longrightarrow> P s \<Longrightarrow> m s = (Inr x, s') \<Longrightarrow> Q x s'"
  by (auto simp: triple_def)

lemma tripleD_raise: "triple P m Q E \<Longrightarrow> P s \<Longrightarrow> m s = (Inl e, s') \<Longrightarrow> E e s'"
  by (auto simp: triple_def)

lemma triple_pre: "triple P m Q E \<Longrightarrow> (\<And>s. P' s \<Longrightarrow> P s) \<Longrightarrow> triple P' m Q E"
  by (auto simp: triple_def)

lemma triple_weaken:
  assumes "triple P m Q E" and "\<And>s. P' s \<Longrightarrow> P s"
    and "\<And>x s. Q x s \<Longrightarrow> Q' x s" and "\<And>e s. E e s \<Longrightarrow> E' e s"
  shows "triple P' m Q' E'"
  by (rule tripleI) (auto intro: assms tripleD_return tripleD_raise)

lemma triple_return [wp]: "(\<And>s. P s \<Longrightarrow> Q x s) \<Longrightarrow> triple P (returnE x) Q E"
  by (auto simp: triple_def)

lemma triple_raise [wp]: "(\<And>s. P s \<Longrightarrow> E e s) \<Longrightarrow> triple P (raiseE e) Q E"
  by (auto simp: triple_def)

lemma triple_bind:
  assumes "triple P m R E" and "\<And>x. triple (R x) (f x) Q E"
  shows "triple P (bindE m f) Q E"
  using assms by (fastforce simp: triple_def run_bind split: prod.splits sum.splits)

lemma triple_then:
  assumes "triple P m (\<lambda>_. R) E" and "triple R k Q E"
  shows "triple P (thenE m k) Q E"
  using assms by (fastforce simp: triple_def run_then split: prod.splits sum.splits)

lemma triple_catch:
  assumes "triple P m Q R" and "\<And>e. triple (R e) (h e) Q E"
  shows "triple P (catchE m h) Q E"
  using assms by (fastforce simp: triple_def run_catch split: prod.splits sum.splits)

lemma triple_try_except:
  assumes "triple P m R (\<lambda>e s. if caught e then H s else E e s)"
    and "triple H h Q E" and "\<And>x. triple (R x) (k x) Q E"
  shows "triple P (try_exceptE m caught h k) Q E"
  unfolding triple_def
proof (intro allI impI)
  fix s assume P: "P s"
  obtain r s' where m: "m s = (r, s')" by (cases "m s")
  show "case try_exceptE m caught h k s of (Inr x, s') \<Rightarrow> Q x s' | (Inl e, s') \<Rightarrow> E e s'"
  proof (cases r)
    case (Inl e)
    with m have "if caught e then H s' else E e s'" using tripleD_raise [OF assms(1) P] by simp
    with assms(2) m Inl show ?thesis by (auto simp: try_exceptE_def triple_def split: if_splits)
  next
    case (Inr x)
    with m have "R x s'" using tripleD_return [OF assms(1) P] by simp
    with assms(3) m Inr show ?thesis by (auto simp: try_exceptE_def triple_def)
  qed
qed

text \<open>Steps whose returned value the precondition determines, and pure facts.\<close>

lemma triple_bind_eq:
  assumes "triple P m (\<lambda>x s. x = a \<and> R s) E" and "triple R (f a) Q E"
  shows "triple P (bindE m f) Q E"
  using assms(1) by (rule triple_bind) (use assms(2) in \<open>auto simp: triple_def\<close>)

lemma triple_pure: "(p \<Longrightarrow> triple P m Q E) \<Longrightarrow> triple (\<lambda>s. p \<and> P s) m Q E"
  by (auto simp: triple_def)

lemma triple_bind_lift: "(\<And>x. r = Inr x \<Longrightarrow> triple P (f x) Q E) \<Longrightarrow> (\<And>e s. r = Inl e \<Longrightarrow> P s \<Longrightarrow> E e s)
    \<Longrightarrow> triple P (bindE (liftE r) f) Q E"
  by (cases r) (auto simp: triple_def run_bind)

lemma triple_get: "(\<And>s. P s \<Longrightarrow> Q (f s) s) \<Longrightarrow> triple P (getE f) Q E"
  by (auto simp: triple_def)

lemma triple_bind_get: "(\<And>x. triple (\<lambda>s. P s \<and> x = f s) (k x) Q E) \<Longrightarrow> triple P (bindE (getE f) k) Q E"
  by (rule triple_bind [where R = "\<lambda>x s. P s \<and> x = f s"]) (auto intro: triple_get)

lemma triple_if [wp]:
  "(b \<Longrightarrow> triple P m Q E) \<Longrightarrow> (\<not> b \<Longrightarrow> triple P k Q E) \<Longrightarrow> triple P (if b then m else k) Q E"
  by simp

lemma triple_option [wp]:
  assumes "x = None \<Longrightarrow> triple P m Q E" and "\<And>y. x = Some y \<Longrightarrow> triple P (f y) Q E"
  shows "triple P (case x of None \<Rightarrow> m | Some y \<Rightarrow> f y) Q E"
  using assms by (cases x) auto

lemma triple_case_sum [wp]:
  assumes "\<And>e. x = Inl e \<Longrightarrow> triple P (m e) Q E" and "\<And>y. x = Inr y \<Longrightarrow> triple P (f y) Q E"
  shows "triple P (case x of Inl e \<Rightarrow> m e | Inr y \<Rightarrow> f y) Q E"
  using assms by (cases x) auto

section \<open>Frames\<close>

text \<open>\<open>keeps f m\<close>: whatever \<open>m\<close> does, the part \<open>f\<close> of the state stays as it is.\<close>

definition keeps :: "('s \<Rightarrow> 'b) \<Rightarrow> ('s, 'a) prog \<Rightarrow> bool" where
  "keeps f m \<longleftrightarrow> (\<forall>s. f (snd (m s)) = f s)"

named_theorems frame \<open>introduction rules for \<open>keeps\<close>, one per program construct\<close>

lemma keepsD: "keeps f m \<Longrightarrow> m s = (r, s') \<Longrightarrow> f s' = f s"
  by (auto simp: keeps_def dest: spec [of _ s])

lemma keepsI: "(\<And>s r s'. m s = (r, s') \<Longrightarrow> f s' = f s) \<Longrightarrow> keeps f m"
  by (auto simp: keeps_def prod_eq_iff)

lemma keeps_simple [frame]:
  "keeps f (returnE x)" "keeps f (raiseE e)" "keeps f (liftE r)" "keeps f (getE g)" "keeps f (guardE b e)"
  by (simp_all add: keeps_def)

lemma keeps_modify [frame]: "(\<And>s. f (g s) = f s) \<Longrightarrow> keeps f (modifyE g)"
  by (simp add: keeps_def)

lemma keeps_bind [frame]: "keeps f m \<Longrightarrow> (\<And>x. keeps f (k x)) \<Longrightarrow> keeps f (bindE m k)"
  by (rule keepsI) (simp add: run_bind split: prod.splits sum.splits if_splits; metis keepsD)

lemma keeps_then [frame]: "keeps f m \<Longrightarrow> keeps f k \<Longrightarrow> keeps f (thenE m k)"
  by (simp add: thenE_def keeps_bind)

lemma keeps_catch [frame]: "keeps f m \<Longrightarrow> (\<And>e. keeps f (h e)) \<Longrightarrow> keeps f (catchE m h)"
  by (rule keepsI) (simp add: run_catch split: prod.splits sum.splits if_splits; metis keepsD)

lemma keeps_try_except [frame]:
  "keeps f m \<Longrightarrow> keeps f h \<Longrightarrow> (\<And>x. keeps f (k x)) \<Longrightarrow> keeps f (try_exceptE m caught h k)"
  by (rule keepsI) (simp add: try_exceptE_def split: prod.splits sum.splits if_splits; metis keepsD)

lemma keeps_transaction [frame]: "keeps f m \<Longrightarrow> keeps f (transactionE m)"
  by (rule keepsI) (auto simp: run_transaction dest: keepsD split: prod.splits sum.splits)

lemma keeps_zoom: "keeps g m \<Longrightarrow> (\<And>s w. f (put s w) = g s) \<Longrightarrow> (\<And>w. g (get w) = f w) \<Longrightarrow> keeps f (zoomE get put m)"
  by (rule keepsI) (auto simp: run_zoom dest: keepsD split: prod.splits)

lemma keeps_zoom_other: "(\<And>s w. f (put s w) = f w) \<Longrightarrow> keeps f (zoomE get put m)"
  by (rule keepsI) (auto simp: run_zoom split: prod.splits)

lemma keeps_if [frame]: "keeps f m \<Longrightarrow> keeps f k \<Longrightarrow> keeps f (if b then m else k)"
  by simp

lemma keeps_option [frame]:
  "keeps f m \<Longrightarrow> (\<And>y. keeps f (k y)) \<Longrightarrow> keeps f (case x of None \<Rightarrow> m | Some y \<Rightarrow> k y)"
  by (cases x) auto

lemma keeps_sum [frame]:
  "(\<And>e. keeps f (m e)) \<Longrightarrow> (\<And>y. keeps f (k y)) \<Longrightarrow> keeps f (case x of Inl e \<Rightarrow> m e | Inr y \<Rightarrow> k y)"
  by (cases x) auto

section \<open>Invariants of programs\<close>

text \<open>\<open>stays P m\<close>: from a state with \<open>P\<close> the program ends in one, whether it returns or raises.\<close>

definition stays :: "('s \<Rightarrow> bool) \<Rightarrow> ('s, 'a) prog \<Rightarrow> bool" where
  "stays P m \<longleftrightarrow> (\<forall>s. P s \<longrightarrow> P (snd (m s)))"

named_theorems stay \<open>introduction rules for \<open>stays\<close>, one per program construct\<close>

lemma staysD: "stays P m \<Longrightarrow> m s = (r, s') \<Longrightarrow> P s \<Longrightarrow> P s'"
  by (auto simp: stays_def dest: spec [of _ s])

lemma staysI: "(\<And>s r s'. P s \<Longrightarrow> m s = (r, s') \<Longrightarrow> P s') \<Longrightarrow> stays P m"
  unfolding stays_def by (metis surjective_pairing)

lemma stays_keeps: "keeps f m \<Longrightarrow> stays (\<lambda>s. P (f s)) m"
  by (simp add: stays_def keeps_def)

lemma stays_triple: "stays P m \<longleftrightarrow> triple P m (\<lambda>_. P) (\<lambda>_. P)"
proof
  assume "stays P m"
  then show "triple P m (\<lambda>_. P) (\<lambda>_. P)" by (intro tripleI) (auto dest: staysD)
next
  assume t: "triple P m (\<lambda>_. P) (\<lambda>_. P)"
  show "stays P m"
  proof (rule staysI)
    fix s r s' assume "P s" "m s = (r, s')"
    with t show "P s'" by (cases r) (auto dest: tripleD_return tripleD_raise)
  qed
qed

lemma stays_simple [stay]:
  "stays P (returnE x)" "stays P (raiseE e)" "stays P (liftE r)" "stays P (getE g)" "stays P (guardE b e)"
  by (simp_all add: stays_def)

lemma stays_bind [stay]: "stays P m \<Longrightarrow> (\<And>x. stays P (k x)) \<Longrightarrow> stays P (bindE m k)"
  by (rule staysI) (auto simp: run_bind dest: staysD split: prod.splits sum.splits)

lemma stays_then [stay]: "stays P m \<Longrightarrow> stays P k \<Longrightarrow> stays P (thenE m k)"
  by (simp add: thenE_def stays_bind)

lemma stays_catch [stay]: "stays P m \<Longrightarrow> (\<And>e. stays P (h e)) \<Longrightarrow> stays P (catchE m h)"
  by (rule staysI) (auto simp: run_catch dest: staysD split: prod.splits sum.splits)

lemma stays_try_except [stay]:
  "stays P m \<Longrightarrow> stays P h \<Longrightarrow> (\<And>x. stays P (k x)) \<Longrightarrow> stays P (try_exceptE m caught h k)"
  by (rule staysI) (auto simp: try_exceptE_def dest: staysD split: prod.splits sum.splits if_splits)

lemma stays_if [stay]: "stays P m \<Longrightarrow> stays P k \<Longrightarrow> stays P (if b then m else k)"
  by simp

lemma stays_option [stay]:
  "stays P m \<Longrightarrow> (\<And>y. stays P (k y)) \<Longrightarrow> stays P (case x of None \<Rightarrow> m | Some y \<Rightarrow> k y)"
  by (cases x) auto

lemma stays_prod [stay]: "(\<And>a b. stays P (k a b)) \<Longrightarrow> stays P (case x of (a, b) \<Rightarrow> k a b)"
  by (cases x) auto

lemma keeps_prod [frame]: "(\<And>a b. keeps P (k a b)) \<Longrightarrow> keeps P (case x of (a, b) \<Rightarrow> k a b)"
  by (cases x) auto

lemma stays_zoom: "(\<And>w r s'. P w \<Longrightarrow> m (get w) = (r, s') \<Longrightarrow> P (put s' w)) \<Longrightarrow> stays P (zoomE get put m)"
  by (rule staysI) (auto simp: run_zoom split: prod.splits)

section \<open>Lists as tables\<close>

text \<open>
  A table is the list of its rows in insertion order.  \<open>select_one\<close> is
  \<open>SELECT ... WHERE\<close> with \<open>fetchone()\<close>, \<open>count_rows\<close> is \<open>SELECT COUNT(*)\<close> and
  \<open>update_rows\<close> is \<open>UPDATE ... SET ... WHERE\<close>.
\<close>

definition select_one :: "('r \<Rightarrow> bool) \<Rightarrow> 'r list \<Rightarrow> 'r option" where
  "select_one p rows = find p rows"

definition count_rows :: "('r \<Rightarrow> bool) \<Rightarrow> 'r list \<Rightarrow> nat" where
  "count_rows p rows = length (filter p rows)"

definition update_rows :: "('r \<Rightarrow> bool) \<Rightarrow> ('r \<Rightarrow> 'r) \<Rightarrow> 'r list \<Rightarrow> 'r list" where
  "update_rows p f rows = map (\<lambda>r. if p r then f r else r) rows"

lemma select_one_Some: "select_one p rows = Some r \<Longrightarrow> r \<in> set rows \<and> p r"
  unfolding select_one_def by (induction rows) (auto split: if_splits)

lemma select_one_None: "select_one p rows = None \<longleftrightarrow> (\<forall>r \<in> set rows. \<not> p r)"
  unfolding select_one_def by (auto simp: find_None_iff)

lemma select_one_append:
  "select_one p (xs @ ys) = (case select_one p xs of None \<Rightarrow> select_one p ys | Some r \<Rightarrow> Some r)"
  unfolding select_one_def by (induction xs) auto

lemma select_one_key:
  assumes "distinct (map k rows)" and "r \<in> set rows"
  shows "select_one (\<lambda>x. k x = k r) rows = Some r"
  using assms unfolding select_one_def by (induction rows) (auto simp: rev_image_eqI)

lemma map_update_rows_key:
  assumes "\<And>r. k (f r) = k r"
  shows "map k (update_rows p f rows) = map k rows"
  by (simp add: update_rows_def assms)

lemma set_update_rows:
  "set (update_rows p f rows) = (\<lambda>r. if p r then f r else r) ` set rows"
  by (simp add: update_rows_def)

lemma length_update_rows [simp]: "length (update_rows p f rows) = length rows"
  by (simp add: update_rows_def)

lemma select_one_update_rows:
  assumes "\<And>r. k (f r) = k r"
  shows "select_one (\<lambda>x. k x = a) (update_rows (\<lambda>x. k x = b) f rows) =
    (case select_one (\<lambda>x. k x = a) rows of None \<Rightarrow> None
     | Some r \<Rightarrow> Some (if a = b then f r else r))"
  unfolding select_one_def update_rows_def by (induction rows) (auto simp: assms)

lemma select_one_update_any:
  assumes "\<And>r. k (f r) = k r"
  shows "select_one (\<lambda>x. k x = a) (update_rows p f rows) =
    map_option (\<lambda>r. if p r then f r else r) (select_one (\<lambda>x. k x = a) rows)"
  unfolding select_one_def update_rows_def by (induction rows) (auto simp: assms)

lemma update_rows_id: "(\<And>r. r \<in> set rows \<Longrightarrow> p r \<Longrightarrow> f r = r) \<Longrightarrow> update_rows p f rows = rows"
  by (auto simp: update_rows_def intro: map_idI)

lemma update_rows_none: "\<forall>r \<in> set rows. \<not> p r \<Longrightarrow> update_rows p f rows = rows"
  by (simp add: update_rows_def map_idI)

lemma count_rows_zero: "count_rows p rows = 0 \<longleftrightarrow> (\<forall>r \<in> set rows. \<not> p r)"
  by (simp add: count_rows_def filter_empty_conv)

lemma count_rows_append [simp]: "count_rows p (xs @ ys) = count_rows p xs + count_rows p ys"
  by (simp add: count_rows_def)

lemma count_rows_Cons: "count_rows p (x # xs) = (if p x then 1 else 0) + count_rows p xs"
  by (simp add: count_rows_def)

lemma count_rows_Nil [simp]: "count_rows p [] = 0"
  by (simp add: count_rows_def)

lemma count_rows_mono:
  "(\<And>r. r \<in> set rows \<Longrightarrow> p r \<Longrightarrow> q r) \<Longrightarrow> count_rows p rows \<le> count_rows q rows"
  by (induction rows) (auto simp: count_rows_Cons)

lemma count_rows_update_mono:
  assumes "\<And>r. r \<in> set rows \<Longrightarrow> q r \<Longrightarrow> p (f r) \<Longrightarrow> p r"
  shows "count_rows p (update_rows q f rows) \<le> count_rows p rows"
  using assms unfolding count_rows_def update_rows_def by (induction rows) auto

text \<open>Rows that agree on a key column are one row.\<close>

lemma count_rows_le_one:
  assumes "distinct (map k rows)" and "\<And>r r'. r \<in> set rows \<Longrightarrow> r' \<in> set rows \<Longrightarrow> p r \<Longrightarrow> p r' \<Longrightarrow> k r = k r'"
  shows "count_rows p rows \<le> 1"
  using assms
proof (induction rows)
  case Nil
  then show ?case by simp
next
  case (Cons x xs)
  have "count_rows p xs \<le> 1" by (rule Cons.IH) (use Cons.prems in auto)
  moreover have "count_rows p xs = 0" if "p x"
    unfolding count_rows_zero
  proof
    fix r assume r: "r \<in> set xs"
    show "\<not> p r"
    proof
      assume "p r"
      then have "k r = k x" using Cons.prems(2) [of r x] r that by simp
      with r Cons.prems(1) show False by (metis distinct.simps(2) image_eqI list.simps(9) set_map)
    qed
  qed
  ultimately show ?case by (auto simp: count_rows_Cons)
qed

lemma count_list_as_count: "count_list xs y = count_rows (\<lambda>x. x = y) xs"
  by (induction xs) (auto simp: count_rows_Cons)

text \<open>The rows of a key-value table with some of its keys.\<close>

lemma map_of_filter_key: "P k \<Longrightarrow> map_of (filter (\<lambda>(k, v). P k) m) k = map_of m k"
  by (induction m) auto

lemma fst_set_filter_key: "fst ` set (filter (\<lambda>(k, v). P k) m) = {k. P k \<and> map_of m k \<noteq> None}"
  by (force simp: map_of_eq_None_iff)

end
