(* ===== verification/Py_Runtime.thy ===== *)
theory Py_Runtime
  imports H11_Prelude
begin

text \<open>
  The part of Python's standard library the modelled modules use: string predicates, decimal
  rendering of integers, \<open>json.dumps\<close> with sorted keys and compact separators, and the
  \<open>datetime\<close> arithmetic.

  A Python string is a HOL string (a list of bytes); every label, hash and JSON document the
  modelled modules build is ASCII, on which \<open>str.encode()\<close> is the identity.
\<close>

section \<open>Strings\<close>

text \<open>\<open>str.isspace\<close> on Latin-1 and the two methods built on it.\<close>

definition py_isspace :: "char \<Rightarrow> bool" where
  "py_isspace c = (let n = (of_char c :: nat) in
     (9 \<le> n \<and> n \<le> 13) \<or> (28 \<le> n \<and> n \<le> 32) \<or> n = 133 \<or> n = 160)"

definition py_strip :: "string \<Rightarrow> string" where
  "py_strip s = rev (dropWhile py_isspace (rev (dropWhile py_isspace s)))"

definition py_startswith :: "string \<Rightarrow> string \<Rightarrow> bool" where
  "py_startswith s pre = (take (length pre) s = pre)"

definition py_endswith :: "string \<Rightarrow> string \<Rightarrow> bool" where
  "py_endswith s suf = (length suf \<le> length s \<and> drop (length s - length suf) s = suf)"

text \<open>\<open>sep.join(parts)\<close>\<close>

fun py_join :: "string \<Rightarrow> string list \<Rightarrow> string" where
  "py_join sep [] = []"
| "py_join sep [x] = x"
| "py_join sep (x # y # xs) = x @ sep @ py_join sep (y # xs)"

definition upper_letters :: string where
  "upper_letters = ''ABCDEFGHIJKLMNOPQRSTUVWXYZ''"

definition lower_letters :: string where
  "lower_letters = ''abcdefghijklmnopqrstuvwxyz''"

definition digit_chars :: string where
  "digit_chars = ''0123456789''"

definition hex_chars :: string where
  "hex_chars = ''0123456789abcdef''"

text \<open>\<open>str(n)\<close> of an integer.\<close>

definition digit_char :: "nat \<Rightarrow> char" where
  "digit_char d = digit_chars ! d"

fun nat_digits :: "nat \<Rightarrow> string" where
  "nat_digits n = (if n < 10 then [digit_char n] else nat_digits (n div 10) @ [digit_char (n mod 10)])"

declare nat_digits.simps [simp del]

definition py_str_int :: "int \<Rightarrow> string" where
  "py_str_int i = (if i < 0 then CHR ''-'' # nat_digits (nat (- i)) else nat_digits (nat i))"

text \<open>\<open>format(n, "0wd")\<close>: zero padding on the left.\<close>

definition zero_pad :: "nat \<Rightarrow> nat \<Rightarrow> string" where
  "zero_pad w n = (let d = nat_digits n in replicate (w - length d) CHR ''0'' @ d)"

lemma nat_digits_nonempty [simp]: "nat_digits n \<noteq> []"
  by (subst nat_digits.simps) simp

lemma digit_char_in: "d < 10 \<Longrightarrow> digit_char d \<in> set digit_chars"
  unfolding digit_char_def by (rule nth_mem) (simp add: digit_chars_def)

lemma set_nat_digits: "set (nat_digits n) \<subseteq> set digit_chars"
proof (induction n rule: nat_digits.induct)
  case (1 n)
  show ?case
  proof (cases "n < 10")
    case True
    then show ?thesis by (subst nat_digits.simps) (simp add: digit_char_in)
  next
    case False
    with "1.IH" have "set (nat_digits (n div 10)) \<subseteq> set digit_chars" by simp
    then show ?thesis using False by (subst nat_digits.simps) (auto simp: digit_char_in)
  qed
qed

lemma digit_char_inj: "a < 10 \<Longrightarrow> b < 10 \<Longrightarrow> digit_char a = digit_char b \<longleftrightarrow> a = b"
  unfolding digit_char_def by (subst nth_eq_iff_index_eq) (simp_all add: digit_chars_def)

text \<open>The rendering of natural numbers is injective.\<close>

lemma nat_digits_inj: "nat_digits m = nat_digits n \<Longrightarrow> m = n"
proof (induction m arbitrary: n rule: nat_digits.induct)
  case (1 m)
  have two: "length (nat_digits k @ [c]) \<noteq> 1" for k c by (simp add: Suc_le_eq)
  show ?case
  proof (cases "m < 10")
    case True
    then have m: "nat_digits m = [digit_char m]" by (subst nat_digits.simps) simp
    with "1.prems" have l: "length (nat_digits n) = 1" by (metis length_Cons list.size(3) One_nat_def)
    then have "n < 10"
      using two by (metis nat_digits.simps)
    then have "nat_digits n = [digit_char n]" by (subst nat_digits.simps) simp
    with m "1.prems" True \<open>n < 10\<close> show ?thesis by (simp add: digit_char_inj)
  next
    case False
    then have m: "nat_digits m = nat_digits (m div 10) @ [digit_char (m mod 10)]"
      by (subst nat_digits.simps) simp
    have "\<not> n < 10"
      using m "1.prems" by (metis append_is_Nil_conv butlast_snoc nat_digits.simps
          nat_digits_nonempty append_Nil)
    then have n: "nat_digits n = nat_digits (n div 10) @ [digit_char (n mod 10)]"
      by (subst nat_digits.simps) simp
    from m n "1.prems" have "nat_digits (m div 10) = nat_digits (n div 10)"
      and d: "digit_char (m mod 10) = digit_char (n mod 10)" by simp_all
    with "1.IH" False have "m div 10 = n div 10" by blast
    moreover from d have "m mod 10 = n mod 10" by (simp add: digit_char_inj)
    ultimately show ?thesis by (metis div_mult_mod_eq)
  qed
qed

lemma minus_not_digit: "CHR ''-'' \<notin> set (nat_digits n)"
  using set_nat_digits [of n] by (auto simp: digit_chars_def)

lemma set_py_str_int: "set (py_str_int i) \<subseteq> insert (CHR ''-'') (set digit_chars)"
  using set_nat_digits by (auto simp: py_str_int_def)

lemma py_str_int_inj: "py_str_int i = py_str_int j \<Longrightarrow> i = j"
proof -
  have m: "nat_digits n \<noteq> CHR ''-'' # xs" for n xs
    using minus_not_digit [of n] by (metis list.set_intros(1))
  assume "py_str_int i = py_str_int j"
  with m m [symmetric] show "i = j"
    by (auto simp: py_str_int_def dest: nat_digits_inj split: if_splits)
qed

text \<open>Joining with a separator character that no part contains is injective.\<close>

lemma append_sep_eq:
  assumes "c \<notin> set x" and "c \<notin> set x'" and "x @ c # r = x' @ c # r'"
  shows "x = x' \<and> r = r'"
  using assms
proof (induction x arbitrary: x')
  case Nil
  then show ?case by (cases x') auto
next
  case (Cons a x)
  then show ?case by (cases x') auto
qed

lemma py_join_inj:
  assumes "length xs = length ys"
    and "\<forall>x \<in> set xs. c \<notin> set x" and "\<forall>y \<in> set ys. c \<notin> set y"
    and "py_join [c] xs = py_join [c] ys"
  shows "xs = ys"
  using assms
proof (induction "[c]" xs arbitrary: ys rule: py_join.induct)
  case 1
  then show ?case by simp
next
  case (2 x)
  then obtain y where "ys = [y]" by (cases ys) auto
  with 2 show ?case by simp
next
  case (3 x x2 xs)
  then obtain y y2 ys' where ys: "ys = y # y2 # ys'"
    by (metis length_0_conv length_Suc_conv list.distinct(1) list.size(4))
  with 3 have "x @ c # py_join [c] (x2 # xs) = y @ c # py_join [c] (y2 # ys')" by simp
  moreover have "c \<notin> set x" and "c \<notin> set y" using 3 ys by simp_all
  ultimately have "x = y" and "py_join [c] (x2 # xs) = py_join [c] (y2 # ys')"
    by (auto dest: append_sep_eq)
  moreover have "x2 # xs = y2 # ys'"
    using calculation 3 ys by (intro "3.hyps") auto
  ultimately show ?case using ys by simp
qed

section \<open>JSON\<close>

text \<open>
  \<open>json.dumps(payload, sort_keys=True, separators=(",", ":"))\<close> on the payloads of the code:
  objects, lists, strings, integers and booleans; a float, which only the reader of \<open>Py_Json\<close>
  produces, is held by its literal.  Keys are sorted by their code points; the
  string escapes are those of \<open>json.encoder\<close> for ASCII.
\<close>

datatype json =
    JStr string
  | JInt int
  | JFloat string
  | JBool bool
  | JNull
  | JList "json list"
  | JObj "(string \<times> json) list"

definition hex_digit :: "nat \<Rightarrow> char" where
  "hex_digit d = hex_chars ! d"

definition json_escape_char :: "char \<Rightarrow> string" where
  "json_escape_char c = (let n = (of_char c :: nat) in
     if n = 34 then [CHR 92, CHR 34]
     else if n = 92 then [CHR 92, CHR 92]
     else if n = 10 then [CHR 92, CHR ''n'']
     else if n = 13 then [CHR 92, CHR ''r'']
     else if n = 9 then [CHR 92, CHR ''t'']
     else if n = 12 then [CHR 92, CHR ''f'']
     else if n = 8 then [CHR 92, CHR ''b'']
     else if n < 32 \<or> 126 < n then
       [CHR 92, CHR ''u'', CHR ''0'', CHR ''0'', hex_digit (n div 16), hex_digit (n mod 16)]
     else [c])"

definition json_string :: "string \<Rightarrow> string" where
  "json_string s = [CHR 34] @ concat (map json_escape_char s) @ [CHR 34]"

fun json_dumps :: "json \<Rightarrow> string" where
  "json_dumps (JStr s) = json_string s"
| "json_dumps (JInt i) = py_str_int i"
| "json_dumps (JFloat literal) = literal"
| "json_dumps (JBool b) = (if b then ''true'' else ''false'')"
| "json_dumps JNull = ''null''"
| "json_dumps (JList xs) = ''['' @ py_join '','' (map json_dumps xs) @ '']''"
| "json_dumps (JObj kvs) =
     ''{'' @ py_join '','' (map snd (sort_key fst
        (map (\<lambda>(k, v). (k, json_string k @ '':'' @ json_dumps v)) kvs))) @ ''}''"

section \<open>Datetimes\<close>

text \<open>
  A \<open>datetime\<close> is its wall-clock reading in microseconds since 0001-01-01T00:00:00 and its UTC
  offset in microseconds, \<open>None\<close> for a naive one (\<open>tzinfo is None\<close>).  The range check of
  years 1 to 9999 is left out.  \<open>total_seconds()\<close> is a binary floating point number in Python;
  it is only compared with integers that a double represents exactly, so the comparisons are
  stated on microseconds.
\<close>

record datetime =
  dt_local :: int
  dt_offset :: "int option"

definition us_per_second :: int where
  "us_per_second = 1000000"

definition us_per_minute :: int where
  "us_per_minute = 60000000"

definition us_per_hour :: int where
  "us_per_hour = 3600000000"

definition us_per_day :: int where
  "us_per_day = 86400000000"

lemmas us_defs = us_per_second_def us_per_minute_def us_per_hour_def us_per_day_def

definition dt_aware :: "datetime \<Rightarrow> bool" where
  "dt_aware d \<longleftrightarrow> dt_offset d \<noteq> None"

text \<open>The instant of an aware datetime, on the UTC time line.\<close>

definition dt_utc :: "datetime \<Rightarrow> int" where
  "dt_utc d = dt_local d - (case dt_offset d of None \<Rightarrow> 0 | Some z \<Rightarrow> z)"

text \<open>\<open>d.astimezone(tz)\<close> for a fixed offset; the callers have checked that \<open>d\<close> is aware.\<close>

definition dt_astimezone :: "int \<Rightarrow> datetime \<Rightarrow> datetime" where
  "dt_astimezone z d = \<lparr>dt_local = dt_utc d + z, dt_offset = Some z\<rparr>"

text \<open>\<open>ZoneInfo("Asia/Tokyo")\<close>, a fixed nine hours since 1951; \<open>UTC\<close>.\<close>

definition jst_offset :: int where
  "jst_offset = 9 * us_per_hour"

definition to_jst :: "datetime \<Rightarrow> datetime" where
  "to_jst d = dt_astimezone jst_offset d"

definition to_utc :: "datetime \<Rightarrow> datetime" where
  "to_utc d = dt_astimezone 0 d"

text \<open>
  \<open>a < b\<close> and \<open>a - b\<close>: mixing naive and aware operands raises \<open>TypeError\<close>.
\<close>

definition dt_comparable :: "datetime \<Rightarrow> datetime \<Rightarrow> bool" where
  "dt_comparable a b \<longleftrightarrow> (dt_aware a \<longleftrightarrow> dt_aware b)"

definition dt_less :: "datetime \<Rightarrow> datetime \<Rightarrow> bool" where
  "dt_less a b \<longleftrightarrow> dt_utc a < dt_utc b"

definition dt_leq :: "datetime \<Rightarrow> datetime \<Rightarrow> bool" where
  "dt_leq a b \<longleftrightarrow> dt_utc a \<le> dt_utc b"

definition dt_sub :: "datetime \<Rightarrow> datetime \<Rightarrow> int result" where
  "dt_sub a b = (if dt_comparable a b then Inr (dt_utc a - dt_utc b) else Inl PyTypeError)"

text \<open>\<open>d + timedelta(microseconds=us)\<close>\<close>

definition dt_add :: "datetime \<Rightarrow> int \<Rightarrow> datetime" where
  "dt_add d us = d\<lparr>dt_local := dt_local d + us\<rparr>"

text \<open>Fields of the wall clock: proleptic ordinal (day 1 is 0001-01-01), weekday, hour.\<close>

definition dt_ordinal :: "datetime \<Rightarrow> int" where
  "dt_ordinal d = dt_local d div us_per_day + 1"

definition dt_weekday :: "datetime \<Rightarrow> int" where
  "dt_weekday d = (dt_ordinal d + 6) mod 7"

definition dt_hour :: "datetime \<Rightarrow> int" where
  "dt_hour d = (dt_local d mod us_per_day) div us_per_hour"

definition dt_minute :: "datetime \<Rightarrow> int" where
  "dt_minute d = (dt_local d mod us_per_hour) div us_per_minute"

definition dt_second :: "datetime \<Rightarrow> int" where
  "dt_second d = (dt_local d mod us_per_minute) div us_per_second"

definition dt_microsecond :: "datetime \<Rightarrow> int" where
  "dt_microsecond d = dt_local d mod us_per_second"

text \<open>\<open>d.replace(hour=h, minute=m, second=0, microsecond=0)\<close>\<close>

definition dt_at_clock :: "datetime \<Rightarrow> int \<Rightarrow> int \<Rightarrow> datetime" where
  "dt_at_clock d h m =
     d\<lparr>dt_local := (dt_ordinal d - 1) * us_per_day + h * us_per_hour + m * us_per_minute\<rparr>"

text \<open>The calendar date of an ordinal, as \<open>_ord2ymd\<close> of CPython's \<open>datetime\<close> computes it.\<close>

definition days_before_month :: "int \<Rightarrow> int" where
  "days_before_month m = [0, 0, 31, 59, 90, 120, 151, 181, 212, 243, 273, 304, 334] ! nat m"

definition days_in_month :: "int \<Rightarrow> int" where
  "days_in_month m = [0, 31, 28, 31, 30, 31, 30, 31, 31, 30, 31, 30, 31] ! nat m"

definition ord2ymd :: "int \<Rightarrow> int \<times> int \<times> int" where
  "ord2ymd ord =
    (let n = ord - 1;
         n400 = n div 146097; n = n mod 146097;
         n100 = n div 36524; n = n mod 36524;
         n4 = n div 1461; n = n mod 1461;
         n1 = n div 365; n = n mod 365;
         year = n400 * 400 + 1 + n100 * 100 + n4 * 4 + n1
     in if n1 = 4 \<or> n100 = 4 then (year - 1, 12, 31)
        else
          let leap = (n1 = 3 \<and> (n4 \<noteq> 24 \<or> n100 = 3));
              month = (n + 50) div 32;
              preceding = days_before_month month + (if 2 < month \<and> leap then 1 else 0)
          in if n < preceding then
               let month' = month - 1;
                   preceding' = preceding - (days_in_month month' + (if month' = 2 \<and> leap then 1 else 0))
               in (year, month', n - preceding' + 1)
             else (year, month, n - preceding + 1))"

text \<open>\<open>d.date().isoformat()\<close> and \<open>d.isoformat()\<close>\<close>

definition date_isoformat :: "datetime \<Rightarrow> string" where
  "date_isoformat d = (case ord2ymd (dt_ordinal d) of (y, m, dd) \<Rightarrow>
     zero_pad 4 (nat y) @ ''-'' @ zero_pad 2 (nat m) @ ''-'' @ zero_pad 2 (nat dd))"

definition offset_isoformat :: "int \<Rightarrow> string" where
  "offset_isoformat z =
    (let a = \<bar>z\<bar>;
         hh = a div us_per_hour; mm = (a mod us_per_hour) div us_per_minute;
         ss = (a mod us_per_minute) div us_per_second; us = a mod us_per_second
     in (if z < 0 then ''-'' else ''+'') @ zero_pad 2 (nat hh) @ '':'' @ zero_pad 2 (nat mm)
        @ (if ss \<noteq> 0 \<or> us \<noteq> 0 then '':'' @ zero_pad 2 (nat ss) else [])
        @ (if us \<noteq> 0 then ''.'' @ zero_pad 6 (nat us) else []))"

definition dt_isoformat :: "datetime \<Rightarrow> string" where
  "dt_isoformat d =
     date_isoformat d @ ''T'' @ zero_pad 2 (nat (dt_hour d)) @ '':'' @ zero_pad 2 (nat (dt_minute d))
     @ '':'' @ zero_pad 2 (nat (dt_second d))
     @ (if dt_microsecond d \<noteq> 0 then ''.'' @ zero_pad 6 (nat (dt_microsecond d)) else [])
     @ (case dt_offset d of None \<Rightarrow> [] | Some z \<Rightarrow> offset_isoformat z)"

text \<open>The trading day of an instant: the JST calendar date as a string.\<close>

definition jst_day :: "datetime \<Rightarrow> string" where
  "jst_day d = date_isoformat (to_jst d)"

lemma dt_utc_astimezone [simp]: "dt_utc (dt_astimezone z d) = dt_utc d"
  by (simp add: dt_utc_def dt_astimezone_def)

lemma dt_aware_astimezone [simp]: "dt_aware (dt_astimezone z d)"
  by (simp add: dt_aware_def dt_astimezone_def)

lemma dt_sub_aware: "dt_aware a \<Longrightarrow> dt_aware b \<Longrightarrow> dt_sub a b = Inr (dt_utc a - dt_utc b)"
  by (simp add: dt_sub_def dt_comparable_def)

lemma jst_day_utc: "dt_utc a = dt_utc b \<Longrightarrow> jst_day a = jst_day b"
  by (simp add: jst_day_def to_jst_def dt_astimezone_def)

end
