(* ===== verification/Py_Decimal.thy ===== *)
theory Py_Decimal
  imports Py_Runtime Complex_Main
begin

text \<open>
  Python's \<open>decimal.Decimal\<close> in the default context: 28 significant digits, rounding half to
  even.  A finite number is a sign, a coefficient and an exponent, as in the General Decimal
  Arithmetic specification; the exponent range is not bounded.  Operations on signalling NaNs
  are not modelled: the code never creates one.
\<close>

datatype decimal =
    DFin (d_neg: bool) (d_coeff: nat) (d_exp: int)
  | DInf (d_neg: bool)
  | DNaN

definition dec_is_finite :: "decimal \<Rightarrow> bool" where
  "dec_is_finite x = (case x of DFin s c e \<Rightarrow> True | _ \<Rightarrow> False)"

definition dec_precision :: nat where
  "dec_precision = 28"

text \<open>\<open>Decimal(n)\<close> and decimal literals such as \<open>Decimal("0.01")\<close>.\<close>

definition dec_of_int :: "int \<Rightarrow> decimal" where
  "dec_of_int n = DFin (n < 0) (nat \<bar>n\<bar>) 0"

definition dec_lit :: "nat \<Rightarrow> int \<Rightarrow> decimal" where
  "dec_lit c e = DFin False c e"

text \<open>The coefficient with its sign, and the exact value of a finite number.\<close>

definition signed_coeff :: "bool \<Rightarrow> nat \<Rightarrow> int" where
  "signed_coeff s c = (if s then - int c else int c)"

definition pow10 :: "int \<Rightarrow> rat" where
  "pow10 e = (if 0 \<le> e then 10 ^ nat e else 1 / 10 ^ nat (- e))"

definition dval :: "decimal \<Rightarrow> rat" where
  "dval x = (case x of DFin s c e \<Rightarrow> of_int (signed_coeff s c) * pow10 e | _ \<Rightarrow> 0)"

text \<open>
  Ordering.  Finite numbers are compared exactly by scaling both to the smaller exponent;
  an ordering comparison with a NaN raises \<open>InvalidOperation\<close>, which \<open>dec_cmp\<close> renders as
  \<open>None\<close>.  \<open>dec_le\<close> and \<open>dec_lt\<close> are for operands the code has checked to be numbers.
\<close>

definition scaled :: "bool \<Rightarrow> nat \<Rightarrow> int \<Rightarrow> int \<Rightarrow> int" where
  "scaled s c e e0 = signed_coeff s c * 10 ^ nat (e - e0)"

fun dec_cmp :: "decimal \<Rightarrow> decimal \<Rightarrow> int option" where
  "dec_cmp (DFin s c e) (DFin s' c' e') =
     Some (sgn (scaled s c e (min e e') - scaled s' c' e' (min e e')))"
| "dec_cmp (DInf s) (DInf s') = Some (if s = s' then 0 else if s then -1 else 1)"
| "dec_cmp (DInf s) (DFin s' c' e') = Some (if s then -1 else 1)"
| "dec_cmp (DFin s c e) (DInf s') = Some (if s' then 1 else -1)"
| "dec_cmp _ _ = None"

definition dec_le :: "decimal \<Rightarrow> decimal \<Rightarrow> bool" where
  "dec_le x y = (case dec_cmp x y of None \<Rightarrow> False | Some c \<Rightarrow> c \<le> 0)"

definition dec_lt :: "decimal \<Rightarrow> decimal \<Rightarrow> bool" where
  "dec_lt x y = (case dec_cmp x y of None \<Rightarrow> False | Some c \<Rightarrow> c < 0)"

definition dec_zero :: decimal where
  "dec_zero = DFin False 0 0"

definition dec_one :: decimal where
  "dec_one = DFin False 1 0"

text \<open>\<open>format(x, "f")\<close>: positional notation, keeping trailing zeros of the coefficient.\<close>

fun dec_format_f :: "decimal \<Rightarrow> string" where
  "dec_format_f (DFin s c e) =
     (let ds = nat_digits c;
          body = (if 0 \<le> e then (if c = 0 then ds else ds @ replicate (nat e) CHR ''0'')
                  else let k = nat (- e); ps = replicate (k + 1 - length ds) CHR ''0'' @ ds
                       in take (length ps - k) ps @ ''.'' @ drop (length ps - k) ps)
      in (if s then ''-'' else []) @ body)"
| "dec_format_f (DInf s) = (if s then ''-Infinity'' else ''Infinity'')"
| "dec_format_f DNaN = ''NaN''"

section \<open>Exact values\<close>

lemma pow10_pos [simp]: "0 < pow10 e"
  by (simp add: pow10_def)

lemma pow10_nonneg [simp]: "0 \<le> pow10 e" "\<not> pow10 e < 0" "\<not> pow10 e \<le> 0"
  using pow10_pos [of e] by linarith+

lemma pow10_0 [simp]: "pow10 0 = 1"
  by (simp add: pow10_def)

lemma pow10_add_nat: "pow10 (e + int k) = pow10 e * 10 ^ k"
proof (cases "0 \<le> e")
  case True
  then show ?thesis by (simp add: pow10_def nat_add_distrib power_add)
next
  case False
  show ?thesis
  proof (cases "0 \<le> e + int k")
    case True
    then have "k = nat (e + int k) + nat (- e)" using False by simp
    then have "(10::rat) ^ k = 10 ^ nat (e + int k) * 10 ^ nat (- e)"
      by (metis power_add)
    then show ?thesis using True False by (simp add: pow10_def)
  next
    case F: False
    then have "nat (- e) = nat (- (e + int k)) + k" using False by simp
    then have "(10::rat) ^ nat (- e) = 10 ^ nat (- (e + int k)) * 10 ^ k"
      by (metis power_add)
    then show ?thesis using False F by (simp add: pow10_def)
  qed
qed

lemma pow10_mult: "pow10 (a + b) = pow10 a * pow10 b"
proof (cases "0 \<le> b")
  case True
  then show ?thesis using pow10_add_nat [of a "nat b"] by (simp add: pow10_def)
next
  case False
  have "pow10 a = pow10 (a + b) * 10 ^ nat (- b)"
    using pow10_add_nat [of "a + b" "nat (- b)"] False by simp
  then show ?thesis using False by (simp add: pow10_def)
qed

lemma dval_scaled:
  assumes "e0 \<le> e"
  shows "dval (DFin s c e) = of_int (scaled s c e e0) * pow10 e0"
proof -
  have "pow10 e = pow10 e0 * 10 ^ nat (e - e0)"
    using pow10_add_nat [of e0 "nat (e - e0)"] assms by simp
  then show ?thesis by (simp add: dval_def scaled_def)
qed

lemma dec_le_dval:
  assumes "dec_is_finite x" and "dec_is_finite y"
  shows "dec_le x y \<longleftrightarrow> dval x \<le> dval y"
proof -
  obtain s c e where x: "x = DFin s c e"
    using assms(1) by (cases x) (auto simp: dec_is_finite_def)
  obtain s' c' e' where y: "y = DFin s' c' e'"
    using assms(2) by (cases y) (auto simp: dec_is_finite_def)
  let ?m = "min e e'"
  have "dval x = of_int (scaled s c e ?m) * pow10 ?m"
    unfolding x by (rule dval_scaled) simp
  moreover have "dval y = of_int (scaled s' c' e' ?m) * pow10 ?m"
    unfolding y by (rule dval_scaled) simp
  ultimately show ?thesis
    by (simp add: dec_le_def x y sgn_if mult_le_cancel_right)
qed

lemma dec_lt_dval:
  assumes "dec_is_finite x" and "dec_is_finite y"
  shows "dec_lt x y \<longleftrightarrow> dval x < dval y"
proof -
  obtain s c e where x: "x = DFin s c e"
    using assms(1) by (cases x) (auto simp: dec_is_finite_def)
  obtain s' c' e' where y: "y = DFin s' c' e'"
    using assms(2) by (cases y) (auto simp: dec_is_finite_def)
  let ?m = "min e e'"
  have "dval x = of_int (scaled s c e ?m) * pow10 ?m"
    unfolding x by (rule dval_scaled) simp
  moreover have "dval y = of_int (scaled s' c' e' ?m) * pow10 ?m"
    unfolding y by (rule dval_scaled) simp
  ultimately show ?thesis
    by (simp add: dec_lt_def x y sgn_if mult_less_cancel_right)
qed

end
