(* ===== verification/Auto_Contracts.thy ===== *)
theory Auto_Contracts
  imports Py_Decimal Py_Sha256
begin

text \<open>
  \<open>backend/app/h11_auto/contracts.py\<close>: the frozen signal and policy of Phase A, their
  constructors with every check of \<open>__post_init__\<close>, and the intent identifier.

  A constructor receives Python values of any type where the code checks the type
  (\<open>isinstance\<close>, \<open>type(x) is bool\<close>): those arguments are \<open>pyval\<close>s, and the record that a
  successful call returns has typed fields.
\<close>

section \<open>Enumerations\<close>

datatype signal_decision = BUY | SELL | STAY

fun decision_value :: "signal_decision \<Rightarrow> string" where
  "decision_value BUY = ''BUY''"
| "decision_value SELL = ''SELL''"
| "decision_value STAY = ''STAY''"

datatype formal_horizon = MINUTES_10 | MINUTES_30

fun horizon_value :: "formal_horizon \<Rightarrow> string" where
  "horizon_value MINUTES_10 = ''10m''"
| "horizon_value MINUTES_30 = ''30m''"

section \<open>Python values\<close>

text \<open>
  The values a caller can pass where the code checks types.  \<open>SignalDecision\<close> and
  \<open>FormalHorizon\<close> derive from \<open>str\<close>, so their members pass \<open>isinstance(x, str)\<close>; \<open>bool\<close>
  values are not \<open>type(x) is int\<close>.
\<close>

datatype pyval =
    PyNone
  | PyBool bool
  | PyInt int
  | PyFloat
  | PyStr string
  | PyDecimal decimal
  | PyDatetime datetime
  | PyDecision signal_decision
  | PyHorizon formal_horizon
  | PyTuple "pyval list"
  | PyOther

fun as_str :: "pyval \<Rightarrow> string option" where
  "as_str (PyStr s) = Some s"
| "as_str (PyDecision d) = Some (decision_value d)"
| "as_str (PyHorizon h) = Some (horizon_value h)"
| "as_str _ = None"

fun as_bool :: "pyval \<Rightarrow> bool option" where
  "as_bool (PyBool b) = Some b"
| "as_bool _ = None"

fun as_int :: "pyval \<Rightarrow> int option" where
  "as_int (PyInt i) = Some i"
| "as_int _ = None"

fun as_decimal :: "pyval \<Rightarrow> decimal option" where
  "as_decimal (PyDecimal d) = Some d"
| "as_decimal _ = None"

fun as_datetime :: "pyval \<Rightarrow> datetime option" where
  "as_datetime (PyDatetime d) = Some d"
| "as_datetime _ = None"

fun as_decision :: "pyval \<Rightarrow> signal_decision option" where
  "as_decision (PyDecision d) = Some d"
| "as_decision _ = None"

fun as_horizon :: "pyval \<Rightarrow> formal_horizon option" where
  "as_horizon (PyHorizon h) = Some h"
| "as_horizon _ = None"

text \<open>\<open>isinstance(x, str) and x.strip()\<close>\<close>

definition nonblank_str :: "pyval \<Rightarrow> bool" where
  "nonblank_str v = (case as_str v of None \<Rightarrow> False | Some s \<Rightarrow> py_strip s \<noteq> [])"

text \<open>\<open>type(x) is bool and x\<close>, \<open>type(x) is bool and not x\<close>, \<open>type(x) is int and x == n\<close>\<close>

definition is_true :: "pyval \<Rightarrow> bool" where
  "is_true v \<longleftrightarrow> as_bool v = Some True"

definition is_false :: "pyval \<Rightarrow> bool" where
  "is_false v \<longleftrightarrow> as_bool v = Some False"

definition is_int_eq :: "int \<Rightarrow> pyval \<Rightarrow> bool" where
  "is_int_eq n v \<longleftrightarrow> as_int v = Some n"

text \<open>\<open>type(x) is int and x >= 0\<close>\<close>

definition is_count :: "pyval \<Rightarrow> bool" where
  "is_count v = (case as_int v of None \<Rightarrow> False | Some i \<Rightarrow> 0 \<le> i)"

section \<open>FormalSignal\<close>

record formal_signal =
  s_strategy_version :: string
  s_config_hash :: string
  s_horizon :: formal_horizon
  s_observed_at :: datetime
  s_valid_until :: datetime
  s_decision :: signal_decision
  s_probability_up :: decimal

record formal_signal_args =
  a_strategy_version :: pyval
  a_config_hash :: pyval
  a_horizon :: pyval
  a_observed_at :: pyval
  a_valid_until :: pyval
  a_decision :: pyval
  a_probability_up :: pyval
  a_finalized_bar :: pyval
  a_rolling_estimate :: pyval

text \<open>
  \<open>FormalSignal(...)\<close>: the checks of \<open>__post_init__\<close> in their order.  The two flags
  \<open>finalized_bar\<close> and \<open>rolling_estimate\<close> are constant in every signal that exists, so the record
  does not repeat them.
\<close>

definition FormalSignal :: "formal_signal_args \<Rightarrow> formal_signal result" where
  "FormalSignal a =
    (if \<not> nonblank_str (a_strategy_version a) \<or> \<not> nonblank_str (a_config_hash a)
     then Inl (H11AutoContractError ''signal version and config hash are required'')
     else case (as_horizon (a_horizon a), as_decision (a_decision a)) of
       (Some horizon, Some decision) \<Rightarrow>
        (case (as_datetime (a_observed_at a), as_datetime (a_valid_until a)) of
          (Some observed, Some until) \<Rightarrow>
            if \<not> dt_aware observed \<or> \<not> dt_aware until
            then Inl (H11AutoContractError ''signal timestamps must be timezone-aware'')
            else if dt_leq until observed
            then Inl (H11AutoContractError ''signal validity must end after observation'')
            else (case as_decimal (a_probability_up a) of
              Some p \<Rightarrow>
                if \<not> dec_is_finite p \<or> \<not> (dec_le dec_zero p \<and> dec_le p dec_one)
                then Inl (H11AutoContractError ''probability_up must be between zero and one'')
                else if \<not> is_true (a_finalized_bar a) \<or> \<not> is_false (a_rolling_estimate a)
                then Inl (H11AutoContractError ''only finalized formal signals are accepted'')
                else Inr \<lparr>s_strategy_version = the (as_str (a_strategy_version a)),
                          s_config_hash = the (as_str (a_config_hash a)),
                          s_horizon = horizon, s_observed_at = observed, s_valid_until = until,
                          s_decision = decision, s_probability_up = p\<rparr>
            | None \<Rightarrow> Inl (H11AutoContractError ''probability_up must be between zero and one''))
        | _ \<Rightarrow> Inl (H11AutoContractError ''signal timestamps are invalid''))
     | _ \<Rightarrow> Inl (H11AutoContractError ''signal horizon and decision are invalid''))"

text \<open>The property \<open>fingerprint\<close>.\<close>

definition signal_fingerprint :: "formal_signal \<Rightarrow> string" where
  "signal_fingerprint s = sha256_hex (json_dumps (JObj [
     (''decision'', JStr (decision_value (s_decision s))),
     (''horizon'', JStr (horizon_value (s_horizon s))),
     (''observed_at_utc'', JStr (dt_isoformat (s_observed_at s))),
     (''probability_up'', JStr (dec_format_f (s_probability_up s))),
     (''signal_config_hash'', JStr (s_config_hash s)),
     (''strategy_version'', JStr (s_strategy_version s)),
     (''valid_until_utc'', JStr (dt_isoformat (s_valid_until s)))]))"

text \<open>What every constructed signal satisfies.\<close>

definition signal_ok :: "formal_signal \<Rightarrow> bool" where
  "signal_ok s \<longleftrightarrow>
     py_strip (s_strategy_version s) \<noteq> [] \<and> py_strip (s_config_hash s) \<noteq> []
     \<and> dt_aware (s_observed_at s) \<and> dt_aware (s_valid_until s)
     \<and> dt_less (s_observed_at s) (s_valid_until s)
     \<and> dec_is_finite (s_probability_up s)
     \<and> dec_le dec_zero (s_probability_up s) \<and> dec_le (s_probability_up s) dec_one"

section \<open>PhaseAExecutionPolicy\<close>

record phase_a_policy =
  p_strategy_version :: string
  p_config_hash :: string
  p_horizon :: formal_horizon
  p_max_positions :: int
  p_max_entries_per_day :: int
  p_scale_in_allowed :: bool
  p_hedging_allowed :: bool
  p_opposite_signal_as_exit_allowed :: bool
  p_retry_allowed :: bool
  p_repost_allowed :: bool
  p_max_entry_attempts_per_intent :: int
  p_broker_native_protected_entry_required :: bool

record phase_a_policy_args =
  pa_strategy_version :: pyval
  pa_config_hash :: pyval
  pa_horizon :: pyval
  pa_max_positions :: pyval
  pa_max_entries_per_day :: pyval
  pa_scale_in_allowed :: pyval
  pa_hedging_allowed :: pyval
  pa_opposite_signal_as_exit_allowed :: pyval
  pa_retry_allowed :: pyval
  pa_repost_allowed :: pyval
  pa_max_entry_attempts_per_intent :: pyval
  pa_broker_native_protected_entry_required :: pyval

definition phase_a_immutable_requirements :: "phase_a_policy_args \<Rightarrow> bool list" where
  "phase_a_immutable_requirements a = [
     is_int_eq 1 (pa_max_positions a),
     is_int_eq 1 (pa_max_entries_per_day a),
     is_false (pa_scale_in_allowed a),
     is_false (pa_hedging_allowed a),
     is_false (pa_opposite_signal_as_exit_allowed a),
     is_false (pa_retry_allowed a),
     is_false (pa_repost_allowed a),
     is_int_eq 1 (pa_max_entry_attempts_per_intent a),
     is_true (pa_broker_native_protected_entry_required a)]"

definition PhaseAExecutionPolicy :: "phase_a_policy_args \<Rightarrow> phase_a_policy result" where
  "PhaseAExecutionPolicy a =
    (if \<not> nonblank_str (pa_strategy_version a) \<or> \<not> nonblank_str (pa_config_hash a)
     then Inl (H11AutoContractError ''policy version and config hash are required'')
     else case as_horizon (pa_horizon a) of
       None \<Rightarrow> Inl (H11AutoContractError ''policy horizon is invalid'')
     | Some horizon \<Rightarrow>
         if \<not> list_all (\<lambda>b. b) (phase_a_immutable_requirements a)
         then Inl (H11AutoContractError ''Phase A safety invariants cannot be weakened'')
         else Inr \<lparr>p_strategy_version = the (as_str (pa_strategy_version a)),
                   p_config_hash = the (as_str (pa_config_hash a)),
                   p_horizon = horizon,
                   p_max_positions = the (as_int (pa_max_positions a)),
                   p_max_entries_per_day = the (as_int (pa_max_entries_per_day a)),
                   p_scale_in_allowed = the (as_bool (pa_scale_in_allowed a)),
                   p_hedging_allowed = the (as_bool (pa_hedging_allowed a)),
                   p_opposite_signal_as_exit_allowed =
                     the (as_bool (pa_opposite_signal_as_exit_allowed a)),
                   p_retry_allowed = the (as_bool (pa_retry_allowed a)),
                   p_repost_allowed = the (as_bool (pa_repost_allowed a)),
                   p_max_entry_attempts_per_intent =
                     the (as_int (pa_max_entry_attempts_per_intent a)),
                   p_broker_native_protected_entry_required =
                     the (as_bool (pa_broker_native_protected_entry_required a))\<rparr>)"

text \<open>The method \<open>accepts\<close>.\<close>

definition phase_a_accepts :: "phase_a_policy \<Rightarrow> formal_signal \<Rightarrow> bool" where
  "phase_a_accepts p s \<longleftrightarrow>
     s_strategy_version s = p_strategy_version p
     \<and> s_config_hash s = p_config_hash p
     \<and> s_horizon s = p_horizon p"

definition build_intent_id :: "formal_signal \<Rightarrow> phase_a_policy \<Rightarrow> string result" where
  "build_intent_id s p =
    (if \<not> phase_a_accepts p s
     then Inl (H11AutoContractError ''signal does not match the frozen execution policy'')
     else Inr (sha256_hex (py_join ''|'' [
       ''H11_AUTO_PARALLEL_V1'',
       signal_fingerprint s,
       p_strategy_version p,
       p_config_hash p,
       horizon_value (p_horizon p),
       decision_value (s_decision s)])))"

section \<open>Lemmas\<close>

lemma decision_value_inj: "decision_value a = decision_value b \<longleftrightarrow> a = b"
  by (cases a; cases b) simp_all

lemma nonblank_str_the: "nonblank_str v \<Longrightarrow> py_strip (the (as_str v)) \<noteq> []"
  by (auto simp: nonblank_str_def split: option.splits)

lemma FormalSignal_signal_ok: "FormalSignal a = Inr s \<Longrightarrow> signal_ok s"
  by (auto simp: FormalSignal_def signal_ok_def dt_leq_def dt_less_def
      dest: nonblank_str_the split: if_splits option.splits)

lemma PhaseAExecutionPolicy_frozen:
  "PhaseAExecutionPolicy a = Inr p \<Longrightarrow>
    p_max_positions p = 1 \<and> p_max_entries_per_day p = 1 \<and> p_max_entry_attempts_per_intent p = 1
    \<and> \<not> p_scale_in_allowed p \<and> \<not> p_hedging_allowed p \<and> \<not> p_opposite_signal_as_exit_allowed p
    \<and> \<not> p_retry_allowed p \<and> \<not> p_repost_allowed p \<and> p_broker_native_protected_entry_required p"
  by (auto simp: PhaseAExecutionPolicy_def phase_a_immutable_requirements_def is_int_eq_def
      is_false_def is_true_def split: if_splits option.splits)

lemma build_intent_id_hex: "build_intent_id s p = Inr i \<Longrightarrow> is_hex64 i"
  by (auto simp: build_intent_id_def split: if_splits)

end
