(* ===== verification/V4_Contracts.thy ===== *)
theory V4_Contracts
  imports Auto_Contracts
begin

text \<open>
  \<open>backend/app/h11_auto/v4_gmo_contracts.py\<close> with the two constants it imports from
  \<open>v4_gmo_evidence.py\<close> and \<open>v4_gmo_protection.py\<close>: the enumerations, the frozen execution
  policy and its configuration hash, the JST entry window and exit deadlines, the preflight and
  broker snapshots, the action plan and the transition table of the v4 cycle.
\<close>

section \<open>Capability evidence and protection contract hashes\<close>

record v4_capability_evidence =
  ev_schema :: string
  ev_source_label :: string
  ev_per_order_expiry_or_tif :: string
  ev_all_or_none_or_fok :: string
  ev_atomic_actual_fill_sized_protection :: string
  ev_second_oco_size_auto_adjust :: string
  ev_partial_fill_detection :: string
  ev_protection_size_change :: string
  ev_mismatch_remediation :: string
  ev_excess_protection_behavior :: string
  ev_client_order_linkage :: string
  ev_open_positions_linkage :: string

definition V4GmoCapabilityEvidence :: v4_capability_evidence where
  "V4GmoCapabilityEvidence = \<lparr>
     ev_schema = ''H11_V4_GMO_CAPABILITY_EVIDENCE_V1'',
     ev_source_label = ''GMO_SUPPORT_OPERATOR_RELAY_2026_07_15'',
     ev_per_order_expiry_or_tif = ''NO_REQUEST_FIELD'',
     ev_all_or_none_or_fok = ''NOT_SUPPORTED'',
     ev_atomic_actual_fill_sized_protection = ''NOT_SUPPORTED'',
     ev_second_oco_size_auto_adjust = ''NOT_SUPPORTED'',
     ev_partial_fill_detection = ''ORDER_EXECUTED_SIZE_PLUS_OPEN_POSITIONS'',
     ev_protection_size_change = ''NOT_SUPPORTED'',
     ev_mismatch_remediation = ''CANCEL_RECONCILE_REPLACE_EXACT_SIZE'',
     ev_excess_protection_behavior = ''NOT_GUARANTEED_UNEXPECTED_OPERATION'',
     ev_client_order_linkage = ''ORDER_AND_EXECUTION_RECORDS_WHEN_SET'',
     ev_open_positions_linkage = ''POSITION_ID_ONLY''\<rparr>"

definition evidence_to_safe_dict :: "v4_capability_evidence \<Rightarrow> (string \<times> json) list" where
  "evidence_to_safe_dict e = [
     (''all_or_none_or_fok'', JStr (ev_all_or_none_or_fok e)),
     (''atomic_actual_fill_sized_protection'', JStr (ev_atomic_actual_fill_sized_protection e)),
     (''client_order_linkage'', JStr (ev_client_order_linkage e)),
     (''excess_protection_behavior'', JStr (ev_excess_protection_behavior e)),
     (''mismatch_remediation'', JStr (ev_mismatch_remediation e)),
     (''open_positions_linkage'', JStr (ev_open_positions_linkage e)),
     (''partial_fill_detection'', JStr (ev_partial_fill_detection e)),
     (''per_order_expiry_or_tif'', JStr (ev_per_order_expiry_or_tif e)),
     (''protection_size_change'', JStr (ev_protection_size_change e)),
     (''schema'', JStr (ev_schema e)),
     (''second_oco_size_auto_adjust'', JStr (ev_second_oco_size_auto_adjust e)),
     (''source_label'', JStr (ev_source_label e))]"

definition evidence_digest :: "v4_capability_evidence \<Rightarrow> string" where
  "evidence_digest e = ''sha256:'' @ sha256_hex (json_dumps (JObj (evidence_to_safe_dict e)))"

definition H11_V4_GMO_CAPABILITY_EVIDENCE_HASH :: string where
  "H11_V4_GMO_CAPABILITY_EVIDENCE_HASH = evidence_digest V4GmoCapabilityEvidence"

definition H11_V4_GMO_PROTECTION_CONTRACT_HASH :: string where
  "H11_V4_GMO_PROTECTION_CONTRACT_HASH =
     ''sha256:2b2a5d8669737177050260e46904723d69bd956b9893447efdcced2e6aae1518''"

section \<open>Constants and enumerations\<close>

definition V4_GMO_PROFILE_VERSION :: string where
  "V4_GMO_PROFILE_VERSION = ''H11_V4_GMO_MARKET_THEN_EXACT_OCO_FRIDAY_LIMITED_NO_POST_V2''"

definition V4_GMO_EXIT_PROFILE :: string where
  "V4_GMO_EXIT_PROFILE = ''H11_V4_EXACT_OCO_POSITION_SPECIFIC_30M_FRIDAY_04JST_EXIT_V2''"

definition MAXIMUM_ENTRIES_PER_DAY_CEILING :: int where
  "MAXIMUM_ENTRIES_PER_DAY_CEILING = 30"

definition V4_GMO_BLOCKED_HOURS_JST :: "int list" where
  "V4_GMO_BLOCKED_HOURS_JST = [5, 6, 7, 8]"

definition V4_GMO_FRIDAY_ENTRY_START_HOUR_JST :: int where
  "V4_GMO_FRIDAY_ENTRY_START_HOUR_JST = 9"

definition V4_GMO_FRIDAY_ENTRY_CUTOFF_HOUR_JST :: int where
  "V4_GMO_FRIDAY_ENTRY_CUTOFF_HOUR_JST = 21"

definition V4_GMO_WEEKEND_DAYS_JST :: "int list" where
  "V4_GMO_WEEKEND_DAYS_JST = [5, 6]"

definition V4_GMO_WEEKEND_FLAT_WEEKDAY_JST :: int where
  "V4_GMO_WEEKEND_FLAT_WEEKDAY_JST = 5"

definition V4_GMO_WEEKEND_FLAT_HOUR_JST :: int where
  "V4_GMO_WEEKEND_FLAT_HOUR_JST = 4"

definition V4_GMO_WEEKEND_EXIT_SEQUENCE_START_HOUR_JST :: int where
  "V4_GMO_WEEKEND_EXIT_SEQUENCE_START_HOUR_JST = 3"

definition V4_GMO_WEEKEND_EXIT_SEQUENCE_START_MINUTE_JST :: int where
  "V4_GMO_WEEKEND_EXIT_SEQUENCE_START_MINUTE_JST = 45"

definition V4_GMO_MAXIMUM_HOLD_SECONDS :: int where
  "V4_GMO_MAXIMUM_HOLD_SECONDS = 1800"

lemmas v4_constants =
  V4_GMO_BLOCKED_HOURS_JST_def V4_GMO_FRIDAY_ENTRY_START_HOUR_JST_def
  V4_GMO_FRIDAY_ENTRY_CUTOFF_HOUR_JST_def V4_GMO_WEEKEND_DAYS_JST_def
  V4_GMO_WEEKEND_FLAT_WEEKDAY_JST_def V4_GMO_WEEKEND_FLAT_HOUR_JST_def
  V4_GMO_WEEKEND_EXIT_SEQUENCE_START_HOUR_JST_def
  V4_GMO_WEEKEND_EXIT_SEQUENCE_START_MINUTE_JST_def V4_GMO_MAXIMUM_HOLD_SECONDS_def

text \<open>\<open>v4_gmo_trading_day_jst\<close>, the shared day key.\<close>

definition v4_gmo_trading_day_jst :: "datetime \<Rightarrow> string result" where
  "v4_gmo_trading_day_jst now =
    (if \<not> dt_aware now
     then Inl (V4GmoContractError ''v4 trading day requires a timezone-aware instant'')
     else Inr (jst_day now))"

datatype v4_action =
    MARKET_ENTRY
  | CANCEL_ENTRY_REMAINDER
  | EXACT_SIZE_OCO_PROTECTION
  | CANCEL_MISMATCHED_PROTECTION
  | CANCEL_EXACT_PROTECTION_FOR_TIME_EXIT
  | POSITION_SPECIFIC_EMERGENCY_EXIT
  | POSITION_SPECIFIC_TIME_EXIT

fun action_value :: "v4_action \<Rightarrow> string" where
  "action_value MARKET_ENTRY = ''MARKET_ENTRY''"
| "action_value CANCEL_ENTRY_REMAINDER = ''CANCEL_ENTRY_REMAINDER''"
| "action_value EXACT_SIZE_OCO_PROTECTION = ''EXACT_SIZE_OCO_PROTECTION''"
| "action_value CANCEL_MISMATCHED_PROTECTION = ''CANCEL_MISMATCHED_PROTECTION''"
| "action_value CANCEL_EXACT_PROTECTION_FOR_TIME_EXIT = ''CANCEL_EXACT_PROTECTION_FOR_TIME_EXIT''"
| "action_value POSITION_SPECIFIC_EMERGENCY_EXIT = ''POSITION_SPECIFIC_EMERGENCY_EXIT''"
| "action_value POSITION_SPECIFIC_TIME_EXIT = ''POSITION_SPECIFIC_TIME_EXIT''"

definition v4_all_actions :: "v4_action list" where
  "v4_all_actions = [MARKET_ENTRY, CANCEL_ENTRY_REMAINDER, EXACT_SIZE_OCO_PROTECTION,
     CANCEL_MISMATCHED_PROTECTION, CANCEL_EXACT_PROTECTION_FOR_TIME_EXIT,
     POSITION_SPECIFIC_EMERGENCY_EXIT, POSITION_SPECIFIC_TIME_EXIT]"

datatype v4_state =
    ENTRY_INTENT_PERSISTED
  | MARKET_ENTRY_ATTEMPTED
  | ENTRY_RECONCILING
  | REMAINDER_CANCEL_ATTEMPTED
  | ENTRY_FILLED_UNPROTECTED
  | PROTECTION_INTENT_PERSISTED
  | PROTECTION_ATTEMPTED
  | PROTECTION_RECONCILING
  | POSITION_PROTECTED
  | PROTECTION_CANCEL_INTENT_PERSISTED
  | PROTECTION_CANCEL_ATTEMPTED
  | PROTECTION_CANCEL_RECONCILING
  | EMERGENCY_EXIT_INTENT_PERSISTED
  | EMERGENCY_EXIT_ATTEMPTED
  | FLAT_RECONCILED
  | HALTED_OPERATOR_REVIEW_REQUIRED
  | OPERATOR_RELOAD_CLEARED

fun v4_state_value :: "v4_state \<Rightarrow> string" where
  "v4_state_value ENTRY_INTENT_PERSISTED = ''ENTRY_INTENT_PERSISTED''"
| "v4_state_value MARKET_ENTRY_ATTEMPTED = ''MARKET_ENTRY_ATTEMPTED''"
| "v4_state_value ENTRY_RECONCILING = ''ENTRY_RECONCILING''"
| "v4_state_value REMAINDER_CANCEL_ATTEMPTED = ''REMAINDER_CANCEL_ATTEMPTED''"
| "v4_state_value ENTRY_FILLED_UNPROTECTED = ''ENTRY_FILLED_UNPROTECTED''"
| "v4_state_value PROTECTION_INTENT_PERSISTED = ''PROTECTION_INTENT_PERSISTED''"
| "v4_state_value PROTECTION_ATTEMPTED = ''PROTECTION_ATTEMPTED''"
| "v4_state_value PROTECTION_RECONCILING = ''PROTECTION_RECONCILING''"
| "v4_state_value POSITION_PROTECTED = ''POSITION_PROTECTED''"
| "v4_state_value PROTECTION_CANCEL_INTENT_PERSISTED = ''PROTECTION_CANCEL_INTENT_PERSISTED''"
| "v4_state_value PROTECTION_CANCEL_ATTEMPTED = ''PROTECTION_CANCEL_ATTEMPTED''"
| "v4_state_value PROTECTION_CANCEL_RECONCILING = ''PROTECTION_CANCEL_RECONCILING''"
| "v4_state_value EMERGENCY_EXIT_INTENT_PERSISTED = ''EMERGENCY_EXIT_INTENT_PERSISTED''"
| "v4_state_value EMERGENCY_EXIT_ATTEMPTED = ''EMERGENCY_EXIT_ATTEMPTED''"
| "v4_state_value FLAT_RECONCILED = ''FLAT_RECONCILED''"
| "v4_state_value HALTED_OPERATOR_REVIEW_REQUIRED = ''HALTED_OPERATOR_REVIEW_REQUIRED''"
| "v4_state_value OPERATOR_RELOAD_CLEARED = ''OPERATOR_RELOAD_CLEARED''"

datatype v4_entry_status =
    ENTRY_NONE | ENTRY_PENDING | ENTRY_PARTIAL | ENTRY_FILLED | ENTRY_REJECTED | ENTRY_UNKNOWN

datatype v4_protection_status =
    PROT_NONE | PROT_EXACT_MATCH | PROT_UNDERSIZED | PROT_OVERSIZED | PROT_UNKNOWN

datatype v4_outcome = OUT_ACCEPTED | OUT_REJECTED | OUT_UNKNOWN | OUT_TIMEOUT

fun outcome_value :: "v4_outcome \<Rightarrow> string" where
  "outcome_value OUT_ACCEPTED = ''ACCEPTED''"
| "outcome_value OUT_REJECTED = ''REJECTED''"
| "outcome_value OUT_UNKNOWN = ''UNKNOWN''"
| "outcome_value OUT_TIMEOUT = ''TIMEOUT''"

definition v4_all_outcomes :: "v4_outcome list" where
  "v4_all_outcomes = [OUT_ACCEPTED, OUT_REJECTED, OUT_UNKNOWN, OUT_TIMEOUT]"

section \<open>The execution policy\<close>

record v4_policy =
  v_strategy_version :: string
  v_signal_config_hash :: string
  v_horizon :: formal_horizon
  v_protection_contract_hash :: string
  v_evidence_hash :: string
  v_requested_size :: int
  v_max_unprotected_seconds :: int
  v_max_positions :: int
  v_max_entries_per_day :: int
  v_max_loss_per_trade_yen :: int
  v_max_loss_per_day_yen :: int
  v_max_loss_per_month_yen :: int
  v_max_consecutive_losses :: int
  v_blocked_hours :: "int list"
  v_friday_start_hour :: int
  v_friday_cutoff_hour :: int
  v_weekend_days :: "int list"
  v_weekend_flat_weekday :: int
  v_weekend_flat_hour :: int
  v_weekend_exit_start_hour :: int
  v_weekend_exit_start_minute :: int
  v_maximum_hold_seconds :: int
  v_exit_profile_label :: string
  v_scale_in_allowed :: bool
  v_hedging_allowed :: bool
  v_generic_opposite_close_allowed :: bool
  v_same_action_retry_allowed :: bool
  v_same_action_repost_allowed :: bool
  v_temporary_unprotected_gap_accepted :: bool
  v_broker_native_atomic_protection_required :: bool

record v4_policy_args =
  va_strategy_version :: pyval
  va_signal_config_hash :: pyval
  va_horizon :: pyval
  va_protection_contract_hash :: pyval
  va_evidence_hash :: pyval
  va_requested_size :: pyval
  va_max_unprotected_seconds :: pyval
  va_max_positions :: pyval
  va_max_entries_per_day :: pyval
  va_max_loss_per_trade_yen :: pyval
  va_max_loss_per_day_yen :: pyval
  va_max_loss_per_month_yen :: pyval
  va_max_consecutive_losses :: pyval
  va_blocked_hours :: pyval
  va_friday_start_hour :: pyval
  va_friday_cutoff_hour :: pyval
  va_weekend_days :: pyval
  va_weekend_flat_weekday :: pyval
  va_weekend_flat_hour :: pyval
  va_weekend_exit_start_hour :: pyval
  va_weekend_exit_start_minute :: pyval
  va_maximum_hold_seconds :: pyval
  va_exit_profile_label :: pyval
  va_scale_in_allowed :: pyval
  va_hedging_allowed :: pyval
  va_generic_opposite_close_allowed :: pyval
  va_same_action_retry_allowed :: pyval
  va_same_action_repost_allowed :: pyval
  va_temporary_unprotected_gap_accepted :: pyval
  va_broker_native_atomic_protection_required :: pyval

text \<open>A call that passes the four required arguments and leaves the rest at their defaults.\<close>

definition v4_policy_defaults :: "string \<Rightarrow> string \<Rightarrow> formal_horizon \<Rightarrow> string \<Rightarrow> v4_policy_args" where
  "v4_policy_defaults version config horizon protection = \<lparr>
     va_strategy_version = PyStr version,
     va_signal_config_hash = PyStr config,
     va_horizon = PyHorizon horizon,
     va_protection_contract_hash = PyStr protection,
     va_evidence_hash = PyStr H11_V4_GMO_CAPABILITY_EVIDENCE_HASH,
     va_requested_size = PyInt 1000,
     va_max_unprotected_seconds = PyInt 15,
     va_max_positions = PyInt 1,
     va_max_entries_per_day = PyInt 1,
     va_max_loss_per_trade_yen = PyInt 5000,
     va_max_loss_per_day_yen = PyInt 10000,
     va_max_loss_per_month_yen = PyInt 50000,
     va_max_consecutive_losses = PyInt 5,
     va_blocked_hours = PyTuple (map PyInt V4_GMO_BLOCKED_HOURS_JST),
     va_friday_start_hour = PyInt V4_GMO_FRIDAY_ENTRY_START_HOUR_JST,
     va_friday_cutoff_hour = PyInt V4_GMO_FRIDAY_ENTRY_CUTOFF_HOUR_JST,
     va_weekend_days = PyTuple (map PyInt V4_GMO_WEEKEND_DAYS_JST),
     va_weekend_flat_weekday = PyInt V4_GMO_WEEKEND_FLAT_WEEKDAY_JST,
     va_weekend_flat_hour = PyInt V4_GMO_WEEKEND_FLAT_HOUR_JST,
     va_weekend_exit_start_hour = PyInt V4_GMO_WEEKEND_EXIT_SEQUENCE_START_HOUR_JST,
     va_weekend_exit_start_minute = PyInt V4_GMO_WEEKEND_EXIT_SEQUENCE_START_MINUTE_JST,
     va_maximum_hold_seconds = PyInt V4_GMO_MAXIMUM_HOLD_SECONDS,
     va_exit_profile_label = PyStr V4_GMO_EXIT_PROFILE,
     va_scale_in_allowed = PyBool False,
     va_hedging_allowed = PyBool False,
     va_generic_opposite_close_allowed = PyBool False,
     va_same_action_retry_allowed = PyBool False,
     va_same_action_repost_allowed = PyBool False,
     va_temporary_unprotected_gap_accepted = PyBool True,
     va_broker_native_atomic_protection_required = PyBool False\<rparr>"

text \<open>\<open>type(x) is int and 1 <= x <= ceiling\<close>, and equality with a tuple of integers.\<close>

definition is_int_between :: "int \<Rightarrow> int \<Rightarrow> pyval \<Rightarrow> bool" where
  "is_int_between lo hi v = (case as_int v of None \<Rightarrow> False | Some i \<Rightarrow> lo \<le> i \<and> i \<le> hi)"

definition is_int_tuple :: "int list \<Rightarrow> pyval \<Rightarrow> bool" where
  "is_int_tuple xs v \<longleftrightarrow> v = PyTuple (map PyInt xs)"

definition v4_immutable_requirements :: "v4_policy_args \<Rightarrow> bool list" where
  "v4_immutable_requirements a = [
     is_int_eq 1000 (va_requested_size a),
     is_int_eq 15 (va_max_unprotected_seconds a),
     is_int_eq 1 (va_max_positions a),
     is_int_between 1 MAXIMUM_ENTRIES_PER_DAY_CEILING (va_max_entries_per_day a),
     is_int_eq 5000 (va_max_loss_per_trade_yen a),
     is_int_eq 10000 (va_max_loss_per_day_yen a),
     is_int_eq 50000 (va_max_loss_per_month_yen a),
     is_int_eq 5 (va_max_consecutive_losses a),
     is_int_tuple V4_GMO_BLOCKED_HOURS_JST (va_blocked_hours a),
     is_int_eq V4_GMO_FRIDAY_ENTRY_START_HOUR_JST (va_friday_start_hour a),
     is_int_eq V4_GMO_FRIDAY_ENTRY_CUTOFF_HOUR_JST (va_friday_cutoff_hour a),
     is_int_tuple V4_GMO_WEEKEND_DAYS_JST (va_weekend_days a),
     is_int_eq V4_GMO_WEEKEND_FLAT_WEEKDAY_JST (va_weekend_flat_weekday a),
     is_int_eq V4_GMO_WEEKEND_FLAT_HOUR_JST (va_weekend_flat_hour a),
     is_int_eq V4_GMO_WEEKEND_EXIT_SEQUENCE_START_HOUR_JST (va_weekend_exit_start_hour a),
     is_int_eq V4_GMO_WEEKEND_EXIT_SEQUENCE_START_MINUTE_JST (va_weekend_exit_start_minute a),
     is_int_eq V4_GMO_MAXIMUM_HOLD_SECONDS (va_maximum_hold_seconds a),
     as_str (va_exit_profile_label a) = Some V4_GMO_EXIT_PROFILE,
     is_false (va_scale_in_allowed a),
     is_false (va_hedging_allowed a),
     is_false (va_generic_opposite_close_allowed a),
     is_false (va_same_action_retry_allowed a),
     is_false (va_same_action_repost_allowed a),
     is_true (va_temporary_unprotected_gap_accepted a),
     is_false (va_broker_native_atomic_protection_required a)]"

definition V4GmoExecutionPolicy :: "v4_policy_args \<Rightarrow> v4_policy result" where
  "V4GmoExecutionPolicy a =
    (if \<not> nonblank_str (va_strategy_version a) \<or> \<not> nonblank_str (va_signal_config_hash a)
        \<or> \<not> nonblank_str (va_protection_contract_hash a)
     then Inl (V4GmoContractError ''v4 policy labels and hashes are required'')
     else if as_str (va_protection_contract_hash a) \<noteq> Some H11_V4_GMO_PROTECTION_CONTRACT_HASH
     then Inl (V4GmoContractError ''v4 protection contract hash is not frozen'')
     else if as_str (va_evidence_hash a) \<noteq> Some H11_V4_GMO_CAPABILITY_EVIDENCE_HASH
     then Inl (V4GmoContractError ''v4 broker capability evidence hash is not frozen'')
     else case as_horizon (va_horizon a) of
       None \<Rightarrow> Inl (V4GmoContractError ''v4 policy horizon is invalid'')
     | Some horizon \<Rightarrow>
         if \<not> list_all (\<lambda>b. b) (v4_immutable_requirements a)
         then Inl (V4GmoContractError ''frozen v4 GMO invariants cannot be changed'')
         else Inr \<lparr>
           v_strategy_version = the (as_str (va_strategy_version a)),
           v_signal_config_hash = the (as_str (va_signal_config_hash a)),
           v_horizon = horizon,
           v_protection_contract_hash = the (as_str (va_protection_contract_hash a)),
           v_evidence_hash = the (as_str (va_evidence_hash a)),
           v_requested_size = the (as_int (va_requested_size a)),
           v_max_unprotected_seconds = the (as_int (va_max_unprotected_seconds a)),
           v_max_positions = the (as_int (va_max_positions a)),
           v_max_entries_per_day = the (as_int (va_max_entries_per_day a)),
           v_max_loss_per_trade_yen = the (as_int (va_max_loss_per_trade_yen a)),
           v_max_loss_per_day_yen = the (as_int (va_max_loss_per_day_yen a)),
           v_max_loss_per_month_yen = the (as_int (va_max_loss_per_month_yen a)),
           v_max_consecutive_losses = the (as_int (va_max_consecutive_losses a)),
           v_blocked_hours = V4_GMO_BLOCKED_HOURS_JST,
           v_friday_start_hour = the (as_int (va_friday_start_hour a)),
           v_friday_cutoff_hour = the (as_int (va_friday_cutoff_hour a)),
           v_weekend_days = V4_GMO_WEEKEND_DAYS_JST,
           v_weekend_flat_weekday = the (as_int (va_weekend_flat_weekday a)),
           v_weekend_flat_hour = the (as_int (va_weekend_flat_hour a)),
           v_weekend_exit_start_hour = the (as_int (va_weekend_exit_start_hour a)),
           v_weekend_exit_start_minute = the (as_int (va_weekend_exit_start_minute a)),
           v_maximum_hold_seconds = the (as_int (va_maximum_hold_seconds a)),
           v_exit_profile_label = the (as_str (va_exit_profile_label a)),
           v_scale_in_allowed = the (as_bool (va_scale_in_allowed a)),
           v_hedging_allowed = the (as_bool (va_hedging_allowed a)),
           v_generic_opposite_close_allowed = the (as_bool (va_generic_opposite_close_allowed a)),
           v_same_action_retry_allowed = the (as_bool (va_same_action_retry_allowed a)),
           v_same_action_repost_allowed = the (as_bool (va_same_action_repost_allowed a)),
           v_temporary_unprotected_gap_accepted =
             the (as_bool (va_temporary_unprotected_gap_accepted a)),
           v_broker_native_atomic_protection_required =
             the (as_bool (va_broker_native_atomic_protection_required a))\<rparr>)"

text \<open>The property \<open>config_hash\<close>.\<close>

definition v4_config_hash :: "v4_policy \<Rightarrow> string" where
  "v4_config_hash p = ''sha256:'' @ sha256_hex (json_dumps (JObj [
     (''broker_native_atomic_protection_required'', JBool False),
     (''broker_capability_evidence_hash'', JStr (v_evidence_hash p)),
     (''blocked_hours_jst'', JList (map JInt (v_blocked_hours p))),
     (''exit_profile_label'', JStr (v_exit_profile_label p)),
     (''friday_entry_start_hour_jst'', JInt (v_friday_start_hour p)),
     (''friday_entry_cutoff_hour_jst'', JInt (v_friday_cutoff_hour p)),
     (''generic_opposite_close_allowed'', JBool False),
     (''hedging_allowed'', JBool False),
     (''max_consecutive_losses'', JInt 5),
     (''max_entries_per_day'', JInt (v_max_entries_per_day p)),
     (''max_loss_per_day_yen'', JInt 10000),
     (''max_loss_per_month_yen'', JInt 50000),
     (''max_loss_per_trade_yen'', JInt 5000),
     (''max_positions'', JInt 1),
     (''max_unprotected_seconds'', JInt 15),
     (''maximum_hold_seconds'', JInt (v_maximum_hold_seconds p)),
     (''profile_version'', JStr V4_GMO_PROFILE_VERSION),
     (''protection_contract_hash'', JStr (v_protection_contract_hash p)),
     (''requested_size'', JInt 1000),
     (''same_action_repost_allowed'', JBool False),
     (''same_action_retry_allowed'', JBool False),
     (''scale_in_allowed'', JBool False),
     (''selected_horizon'', JStr (horizon_value (v_horizon p))),
     (''signal_config_hash'', JStr (v_signal_config_hash p)),
     (''strategy_version'', JStr (v_strategy_version p)),
     (''temporary_unprotected_gap_accepted'', JBool True),
     (''weekend_flat_hour_jst'', JInt (v_weekend_flat_hour p)),
     (''weekend_flat_weekday_jst'', JInt (v_weekend_flat_weekday p)),
     (''weekend_exit_sequence_start_hour_jst'', JInt (v_weekend_exit_start_hour p)),
     (''weekend_exit_sequence_start_minute_jst'', JInt (v_weekend_exit_start_minute p)),
     (''weekend_days_jst'', JList (map JInt (v_weekend_days p)))]))"

definition v4_accepts :: "v4_policy \<Rightarrow> formal_signal \<Rightarrow> bool" where
  "v4_accepts p s \<longleftrightarrow>
     s_strategy_version s = v_strategy_version p
     \<and> s_config_hash s = v_signal_config_hash p
     \<and> s_horizon s = v_horizon p
     \<and> s_decision s \<in> {BUY, SELL}"

definition v4_entry_time_allowed :: "v4_policy \<Rightarrow> datetime \<Rightarrow> bool" where
  "v4_entry_time_allowed p now =
    (if \<not> dt_aware now then False
     else let j = to_jst now in
       if dt_weekday j \<in> set (v_weekend_days p) then False
       else if dt_weekday j = 4
       then v_friday_start_hour p \<le> dt_hour j \<and> dt_hour j < v_friday_cutoff_hour p
       else dt_hour j \<notin> set (v_blocked_hours p))"

text \<open>\<open>min\<close> of two datetimes returns the first unless the second is smaller.\<close>

definition dt_min :: "datetime \<Rightarrow> datetime \<Rightarrow> datetime" where
  "dt_min a b = (if dt_less b a then b else a)"

definition v4_gmo_scheduled_time_exit_at :: "datetime \<Rightarrow> datetime option" where
  "v4_gmo_scheduled_time_exit_at entry =
    (if \<not> dt_aware entry then None
     else let entry_utc = to_utc entry;
              normal_deadline = dt_add entry_utc (V4_GMO_MAXIMUM_HOLD_SECONDS * us_per_second);
              entry_jst = to_jst entry_utc
       in if dt_weekday entry_jst \<noteq> 4 then Some normal_deadline
          else let start = dt_at_clock (dt_add entry_jst us_per_day)
                      V4_GMO_WEEKEND_EXIT_SEQUENCE_START_HOUR_JST
                      V4_GMO_WEEKEND_EXIT_SEQUENCE_START_MINUTE_JST
            in if dt_weekday start \<noteq> V4_GMO_WEEKEND_FLAT_WEEKDAY_JST then None
               else Some (dt_min normal_deadline (to_utc start)))"

definition v4_gmo_weekend_flat_target_at :: "datetime \<Rightarrow> datetime option" where
  "v4_gmo_weekend_flat_target_at entry =
    (if \<not> dt_aware entry then None
     else let entry_jst = to_jst entry
       in if dt_weekday entry_jst \<noteq> 4 then None
          else let target = dt_at_clock (dt_add entry_jst us_per_day) V4_GMO_WEEKEND_FLAT_HOUR_JST 0
            in if dt_weekday target \<noteq> V4_GMO_WEEKEND_FLAT_WEEKDAY_JST then None
               else Some (to_utc target))"

end
