(* ===== verification/V4_Cycle.thy ===== *)
theory V4_Cycle
  imports V4_Contracts
begin

text \<open>
  The second half of \<open>backend/app/h11_auto/v4_gmo_contracts.py\<close>: the preflight and broker
  snapshots, the sanitized action plan, the cycle reference and the transition table.
\<close>

section \<open>V4GmoPreflightSnapshot\<close>

record v4_preflight =
  pf_boot_reconciled :: bool
  pf_process_lock_held :: bool
  pf_data_fresh :: bool
  pf_clock_synchronized :: bool
  pf_notification_path_ready :: bool
  pf_broker_snapshot_fresh :: bool
  pf_position_count :: int
  pf_active_order_count :: int
  pf_entries_today :: int
  pf_daily_stop_clear :: bool
  pf_monthly_stop_clear :: bool
  pf_consecutive_loss_stop_clear :: bool
  pf_operator_halt_clear :: bool

record v4_preflight_args =
  pfa_boot_reconciled :: pyval
  pfa_process_lock_held :: pyval
  pfa_data_fresh :: pyval
  pfa_clock_synchronized :: pyval
  pfa_notification_path_ready :: pyval
  pfa_broker_snapshot_fresh :: pyval
  pfa_position_count :: pyval
  pfa_active_order_count :: pyval
  pfa_entries_today :: pyval
  pfa_daily_stop_clear :: pyval
  pfa_monthly_stop_clear :: pyval
  pfa_consecutive_loss_stop_clear :: pyval
  pfa_operator_halt_clear :: pyval

definition V4GmoPreflightSnapshot :: "v4_preflight_args \<Rightarrow> v4_preflight result" where
  "V4GmoPreflightSnapshot a =
    (let boolean_values = [pfa_boot_reconciled a, pfa_process_lock_held a, pfa_data_fresh a,
           pfa_clock_synchronized a, pfa_notification_path_ready a, pfa_broker_snapshot_fresh a,
           pfa_daily_stop_clear a, pfa_monthly_stop_clear a, pfa_consecutive_loss_stop_clear a,
           pfa_operator_halt_clear a];
         count_values = [pfa_position_count a, pfa_active_order_count a, pfa_entries_today a]
     in if \<not> list_all (\<lambda>v. as_bool v \<noteq> None) boolean_values
        then Inl (V4GmoContractError ''v4 preflight flags must be strict booleans'')
        else if \<not> list_all is_count count_values
        then Inl (V4GmoContractError ''v4 preflight counts must be non-negative integers'')
        else Inr \<lparr>pf_boot_reconciled = the (as_bool (pfa_boot_reconciled a)),
                  pf_process_lock_held = the (as_bool (pfa_process_lock_held a)),
                  pf_data_fresh = the (as_bool (pfa_data_fresh a)),
                  pf_clock_synchronized = the (as_bool (pfa_clock_synchronized a)),
                  pf_notification_path_ready = the (as_bool (pfa_notification_path_ready a)),
                  pf_broker_snapshot_fresh = the (as_bool (pfa_broker_snapshot_fresh a)),
                  pf_position_count = the (as_int (pfa_position_count a)),
                  pf_active_order_count = the (as_int (pfa_active_order_count a)),
                  pf_entries_today = the (as_int (pfa_entries_today a)),
                  pf_daily_stop_clear = the (as_bool (pfa_daily_stop_clear a)),
                  pf_monthly_stop_clear = the (as_bool (pfa_monthly_stop_clear a)),
                  pf_consecutive_loss_stop_clear = the (as_bool (pfa_consecutive_loss_stop_clear a)),
                  pf_operator_halt_clear = the (as_bool (pfa_operator_halt_clear a))\<rparr>)"

text \<open>\<open>tuple(reason for passed, reason in checks if not passed)\<close>\<close>

definition failed_reasons :: "(bool \<times> string) list \<Rightarrow> string list" where
  "failed_reasons checks = map snd (filter (\<lambda>c. \<not> fst c) checks)"

definition preflight_blocked_reasons :: "v4_preflight \<Rightarrow> string list" where
  "preflight_blocked_reasons p = failed_reasons [
     (pf_boot_reconciled p, ''BOOT_RECONCILIATION_REQUIRED''),
     (pf_process_lock_held p, ''PROCESS_LOCK_REQUIRED''),
     (pf_data_fresh p, ''DATA_STALE''),
     (pf_clock_synchronized p, ''CLOCK_NOT_SYNCHRONIZED''),
     (pf_notification_path_ready p, ''NOTIFICATION_PATH_NOT_READY''),
     (pf_broker_snapshot_fresh p, ''BROKER_SNAPSHOT_STALE''),
     (pf_position_count p = 0, ''POSITION_NOT_FLAT''),
     (pf_active_order_count p = 0, ''ACTIVE_ORDER_EXISTS''),
     (pf_entries_today p = 0, ''DAILY_ENTRY_LIMIT_REACHED''),
     (pf_daily_stop_clear p, ''DAILY_STOP_LATCHED''),
     (pf_monthly_stop_clear p, ''MONTHLY_STOP_LATCHED''),
     (pf_consecutive_loss_stop_clear p, ''CONSECUTIVE_LOSS_STOP_LATCHED''),
     (pf_operator_halt_clear p, ''OPERATOR_HALT_LATCHED'')]"

lemma failed_reasons_Nil [simp]: "failed_reasons [] = []"
  by (simp add: failed_reasons_def)

lemma failed_reasons_Cons [simp]:
  "failed_reasons ((b, r) # cs) = (if b then failed_reasons cs else r # failed_reasons cs)"
  by (simp add: failed_reasons_def)

lemma failed_reasons_empty_iff: "failed_reasons cs = [] \<longleftrightarrow> (\<forall>c \<in> set cs. fst c)"
  by (auto simp: failed_reasons_def filter_empty_conv)

section \<open>V4GmoBrokerSnapshot\<close>

record v4_snapshot =
  sn_fresh :: bool
  sn_result_known :: bool
  sn_position_count :: int
  sn_position_side :: "signal_decision option"
  sn_filled_size :: int
  sn_pending_entry_size :: int
  sn_protection_size :: int
  sn_entry_status :: v4_entry_status
  sn_protection_status :: v4_protection_status

record v4_snapshot_args =
  sna_fresh :: pyval
  sna_result_known :: pyval
  sna_position_count :: pyval
  sna_position_side :: "signal_decision option"
  sna_filled_size :: pyval
  sna_pending_entry_size :: pyval
  sna_protection_size :: pyval
  sna_entry_status :: v4_entry_status
  sna_protection_status :: v4_protection_status

definition V4GmoBrokerSnapshot :: "v4_snapshot_args \<Rightarrow> v4_snapshot result" where
  "V4GmoBrokerSnapshot a =
    (if as_bool (sna_fresh a) = None \<or> as_bool (sna_result_known a) = None
     then Inl (V4GmoContractError ''sanitized broker flags must be strict booleans'')
     else if sna_position_side a \<notin> {None, Some BUY, Some SELL}
     then Inl (V4GmoContractError ''sanitized position side is invalid'')
     else if \<not> list_all is_count [sna_position_count a, sna_filled_size a,
            sna_pending_entry_size a, sna_protection_size a]
     then Inl (V4GmoContractError ''sanitized broker counts must be non-negative integers'')
     else Inr \<lparr>sn_fresh = the (as_bool (sna_fresh a)),
               sn_result_known = the (as_bool (sna_result_known a)),
               sn_position_count = the (as_int (sna_position_count a)),
               sn_position_side = sna_position_side a,
               sn_filled_size = the (as_int (sna_filled_size a)),
               sn_pending_entry_size = the (as_int (sna_pending_entry_size a)),
               sn_protection_size = the (as_int (sna_protection_size a)),
               sn_entry_status = sna_entry_status a,
               sn_protection_status = sna_protection_status a\<rparr>)"

definition snapshot_flat :: v4_snapshot where
  "snapshot_flat = \<lparr>sn_fresh = True, sn_result_known = True, sn_position_count = 0,
     sn_position_side = None, sn_filled_size = 0, sn_pending_entry_size = 0,
     sn_protection_size = 0, sn_entry_status = ENTRY_NONE, sn_protection_status = PROT_NONE\<rparr>"

text \<open>What every constructed snapshot satisfies.\<close>

definition snapshot_ok :: "v4_snapshot \<Rightarrow> bool" where
  "snapshot_ok s \<longleftrightarrow> 0 \<le> sn_position_count s \<and> 0 \<le> sn_filled_size s
     \<and> 0 \<le> sn_pending_entry_size s \<and> 0 \<le> sn_protection_size s
     \<and> sn_position_side s \<noteq> Some STAY"

lemma V4GmoBrokerSnapshot_ok: "V4GmoBrokerSnapshot a = Inr s \<Longrightarrow> snapshot_ok s"
  by (auto simp: V4GmoBrokerSnapshot_def snapshot_ok_def is_count_def
      split: if_splits option.splits)

section \<open>V4GmoActionPlan\<close>

record v4_plan =
  pl_cycle_ref :: string
  pl_action :: v4_action
  pl_side :: signal_decision
  pl_requested_size :: int
  pl_protection_hash :: "string option"
  pl_route :: string
  pl_actual_post_allowed :: bool
  pl_credential_read_allowed :: bool
  pl_network_access_allowed :: bool

text \<open>
  \<open>V4GmoActionPlan.__post_init__\<close> on a plan whose fields have the annotated types.
\<close>

definition V4GmoActionPlan :: "v4_plan \<Rightarrow> v4_plan result" where
  "V4GmoActionPlan p =
    (if length (pl_cycle_ref p) \<noteq> 64 \<or> \<not> list_all (\<lambda>c. c \<in> set hex_chars) (pl_cycle_ref p)
     then Inl (V4GmoContractError ''cycle_ref must be a sanitized SHA-256 value'')
     else if pl_side p \<notin> {BUY, SELL}
     then Inl (V4GmoContractError ''v4 action side must be BUY or SELL'')
     else if pl_requested_size p \<le> 0
     then Inl (V4GmoContractError ''v4 action size must be positive'')
     else if pl_route p = [] \<or> \<not> list_all (\<lambda>c. c \<in> set (upper_letters @ ''_'')) (pl_route p)
     then Inl (V4GmoContractError ''route_safe_label is invalid'')
     else if pl_actual_post_allowed p \<or> pl_credential_read_allowed p \<or> pl_network_access_allowed p
     then Inl (V4GmoContractError ''v4 no-POST action plan cannot enable transport'')
     else if pl_action p = EXACT_SIZE_OCO_PROTECTION then
       (if pl_protection_hash p \<in> {None, Some []}
        then Inl (V4GmoContractError ''protection action requires a frozen contract hash'')
        else Inr p)
     else if pl_protection_hash p \<noteq> None
     then Inl (V4GmoContractError ''only protection actions may carry a protection hash'')
     else Inr p)"

definition build_v4_cycle_ref :: "formal_signal \<Rightarrow> v4_policy \<Rightarrow> string result" where
  "build_v4_cycle_ref s p =
    (if \<not> v4_accepts p s
     then Inl (V4GmoContractError ''signal does not match the frozen v4 GMO policy'')
     else Inr (sha256_hex (py_join ''|'' [
       V4_GMO_PROFILE_VERSION, v4_config_hash p, signal_fingerprint s,
       decision_value (s_decision s)])))"

fun v4_route_label :: "v4_action \<Rightarrow> string" where
  "v4_route_label MARKET_ENTRY = ''GMO_MARKET_ENTRY''"
| "v4_route_label CANCEL_ENTRY_REMAINDER = ''GMO_CANCEL_ENTRY_REMAINDER''"
| "v4_route_label EXACT_SIZE_OCO_PROTECTION = ''GMO_EXACT_SIZE_OCO_PROTECTION''"
| "v4_route_label CANCEL_MISMATCHED_PROTECTION = ''GMO_CANCEL_MISMATCHED_PROTECTION''"
| "v4_route_label CANCEL_EXACT_PROTECTION_FOR_TIME_EXIT = ''GMO_CANCEL_PROTECTION_FOR_TIME_EXIT''"
| "v4_route_label POSITION_SPECIFIC_EMERGENCY_EXIT = ''GMO_POSITION_SPECIFIC_EXIT''"
| "v4_route_label POSITION_SPECIFIC_TIME_EXIT = ''GMO_POSITION_SPECIFIC_TIME_EXIT''"

definition build_v4_action_plan ::
    "string \<Rightarrow> v4_action \<Rightarrow> signal_decision \<Rightarrow> int \<Rightarrow> string \<Rightarrow> v4_plan result" where
  "build_v4_action_plan ref action side sz protection_hash = V4GmoActionPlan \<lparr>
     pl_cycle_ref = ref, pl_action = action, pl_side = side, pl_requested_size = sz,
     pl_protection_hash =
       (if action = EXACT_SIZE_OCO_PROTECTION then Some protection_hash else None),
     pl_route = v4_route_label action,
     pl_actual_post_allowed = False, pl_credential_read_allowed = False,
     pl_network_access_allowed = False\<rparr>"

section \<open>The transition table\<close>

fun v4_allowed :: "v4_state \<Rightarrow> v4_state list" where
  "v4_allowed ENTRY_INTENT_PERSISTED =
     [MARKET_ENTRY_ATTEMPTED, HALTED_OPERATOR_REVIEW_REQUIRED]"
| "v4_allowed MARKET_ENTRY_ATTEMPTED =
     [ENTRY_RECONCILING, HALTED_OPERATOR_REVIEW_REQUIRED]"
| "v4_allowed ENTRY_RECONCILING =
     [REMAINDER_CANCEL_ATTEMPTED, ENTRY_FILLED_UNPROTECTED, FLAT_RECONCILED,
      HALTED_OPERATOR_REVIEW_REQUIRED]"
| "v4_allowed REMAINDER_CANCEL_ATTEMPTED =
     [ENTRY_RECONCILING, HALTED_OPERATOR_REVIEW_REQUIRED]"
| "v4_allowed ENTRY_FILLED_UNPROTECTED =
     [PROTECTION_INTENT_PERSISTED, EMERGENCY_EXIT_INTENT_PERSISTED,
      HALTED_OPERATOR_REVIEW_REQUIRED]"
| "v4_allowed PROTECTION_INTENT_PERSISTED =
     [PROTECTION_ATTEMPTED, HALTED_OPERATOR_REVIEW_REQUIRED]"
| "v4_allowed PROTECTION_ATTEMPTED =
     [PROTECTION_RECONCILING, HALTED_OPERATOR_REVIEW_REQUIRED]"
| "v4_allowed PROTECTION_RECONCILING =
     [POSITION_PROTECTED, FLAT_RECONCILED, PROTECTION_CANCEL_INTENT_PERSISTED,
      EMERGENCY_EXIT_INTENT_PERSISTED, HALTED_OPERATOR_REVIEW_REQUIRED]"
| "v4_allowed PROTECTION_CANCEL_INTENT_PERSISTED =
     [PROTECTION_CANCEL_ATTEMPTED, HALTED_OPERATOR_REVIEW_REQUIRED]"
| "v4_allowed PROTECTION_CANCEL_ATTEMPTED =
     [PROTECTION_CANCEL_RECONCILING, HALTED_OPERATOR_REVIEW_REQUIRED]"
| "v4_allowed PROTECTION_CANCEL_RECONCILING =
     [EMERGENCY_EXIT_INTENT_PERSISTED, FLAT_RECONCILED, HALTED_OPERATOR_REVIEW_REQUIRED]"
| "v4_allowed EMERGENCY_EXIT_INTENT_PERSISTED =
     [EMERGENCY_EXIT_ATTEMPTED, HALTED_OPERATOR_REVIEW_REQUIRED]"
| "v4_allowed EMERGENCY_EXIT_ATTEMPTED =
     [FLAT_RECONCILED, HALTED_OPERATOR_REVIEW_REQUIRED]"
| "v4_allowed POSITION_PROTECTED =
     [PROTECTION_CANCEL_INTENT_PERSISTED, EMERGENCY_EXIT_INTENT_PERSISTED, FLAT_RECONCILED,
      HALTED_OPERATOR_REVIEW_REQUIRED]"
| "v4_allowed FLAT_RECONCILED = []"
| "v4_allowed HALTED_OPERATOR_REVIEW_REQUIRED = [OPERATOR_RELOAD_CLEARED]"
| "v4_allowed OPERATOR_RELOAD_CLEARED = []"

definition require_v4_transition :: "v4_state \<Rightarrow> v4_state \<Rightarrow> unit result" where
  "require_v4_transition current target =
    (if target \<notin> set (v4_allowed current)
     then Inl (V4GmoContractError (''invalid v4 GMO state transition: '' @ v4_state_value current
            @ '' -> '' @ v4_state_value target))
     else Inr ())"

section \<open>Facts about the table and the plans\<close>

definition v4_terminal :: "v4_state \<Rightarrow> bool" where
  "v4_terminal s \<longleftrightarrow>
     s \<in> {FLAT_RECONCILED, HALTED_OPERATOR_REVIEW_REQUIRED, OPERATOR_RELOAD_CLEARED}"

text \<open>Once a cycle has left the active states it never comes back.\<close>

lemma v4_allowed_terminal:
  "v4_terminal c \<Longrightarrow> t \<in> set (v4_allowed c) \<Longrightarrow> v4_terminal t"
  by (cases c) (auto simp: v4_terminal_def)

lemma v4_allowed_to_protected:
  "POSITION_PROTECTED \<in> set (v4_allowed c) \<longleftrightarrow> c = PROTECTION_RECONCILING"
  by (cases c) simp_all

lemma v4_allowed_to_halted:
  "HALTED_OPERATOR_REVIEW_REQUIRED \<in> set (v4_allowed c) \<longleftrightarrow> \<not> v4_terminal c"
  by (cases c) (simp_all add: v4_terminal_def)

lemma require_v4_transition_Inr:
  "require_v4_transition c t = Inr u \<longleftrightarrow> t \<in> set (v4_allowed c)"
  by (simp add: require_v4_transition_def)

text \<open>The entry intent is the initial state only: no transition leads back to it.\<close>

lemma v4_allowed_not_intent: "ENTRY_INTENT_PERSISTED \<notin> set (v4_allowed c)"
  by (cases c) simp_all

lemma v4_route_label_ok:
  "v4_route_label a \<noteq> [] \<and> list_all (\<lambda>c. c \<in> set (upper_letters @ ''_'')) (v4_route_label a)"
  by (cases a) (simp_all add: upper_letters_def)

text \<open>When the plan of an action can be built, and that a built plan enables no transport.\<close>

lemma build_v4_action_plan_Inr:
  assumes "is_hex64 ref" and "side \<in> {BUY, SELL}" and "0 < sz" and "ph \<noteq> []"
  shows "\<exists>plan. build_v4_action_plan ref action side sz ph = Inr plan
    \<and> pl_cycle_ref plan = ref \<and> pl_action plan = action \<and> pl_side plan = side
    \<and> pl_requested_size plan = sz \<and> \<not> pl_actual_post_allowed plan
    \<and> \<not> pl_credential_read_allowed plan \<and> \<not> pl_network_access_allowed plan"
  using assms v4_route_label_ok [of action]
  by (auto simp: build_v4_action_plan_def V4GmoActionPlan_def is_hex64_def)

end
