(* ===== verification/Hash_Journal.thy ===== *)
theory Hash_Journal
  imports H11_Prelude
begin

text \<open>
  The hash-linked journal shared by the two SQLite stores (\<open>safe_events\<close> of \<open>persistence.py\<close>
  and \<open>v4_gmo_persistence.py\<close>).  Each row carries a sequence number, the digest of its
  predecessor and its own digest over its fields.  \<open>chain_ok\<close> is what both \<open>verify_journal\<close>
  loops check; the locale \<open>hash_journal\<close> is the interface a store's event rows have to satisfy,
  and holds the facts about appending, prefixes and tampering once for both.
\<close>

fun chain_ok :: "('e \<Rightarrow> int) \<Rightarrow> ('e \<Rightarrow> string) \<Rightarrow> ('e \<Rightarrow> string) \<Rightarrow> ('e \<Rightarrow> string)
    \<Rightarrow> int \<Rightarrow> string \<Rightarrow> 'e list \<Rightarrow> bool" where
  "chain_ok sq pv dg ex n p [] \<longleftrightarrow> True"
| "chain_ok sq pv dg ex n p (e # es) \<longleftrightarrow>
     sq e = n \<and> pv e = p \<and> dg e = ex e \<and> chain_ok sq pv dg ex (n + 1) (dg e) es"

definition genesis :: string where
  "genesis = ''GENESIS''"

text \<open>Sequence number and digest a new row has to link to.\<close>

definition next_sequence :: "('e \<Rightarrow> int) \<Rightarrow> 'e list \<Rightarrow> int" where
  "next_sequence sq es = (if es = [] then 1 else sq (last es) + 1)"

definition last_digest :: "('e \<Rightarrow> string) \<Rightarrow> 'e list \<Rightarrow> string" where
  "last_digest dg es = (if es = [] then genesis else dg (last es))"

text \<open>
  No two rows of the two journals collide: the same recomputed digest only for the same sequence
  number, predecessor and body.
\<close>

definition collision_free :: "('e \<Rightarrow> int) \<Rightarrow> ('e \<Rightarrow> string) \<Rightarrow> ('e \<Rightarrow> string) \<Rightarrow> ('e \<Rightarrow> 'b)
    \<Rightarrow> 'e list \<Rightarrow> 'e list \<Rightarrow> bool" where
  "collision_free sq pv ex body es es' \<longleftrightarrow>
     (\<forall>e \<in> set es. \<forall>e' \<in> set es'. ex e = ex e' \<longrightarrow> sq e = sq e' \<and> pv e = pv e' \<and> body e = body e')"

locale hash_journal =
  fixes sq :: "'e \<Rightarrow> int"
    and pv :: "'e \<Rightarrow> string"
    and dg :: "'e \<Rightarrow> string"
    and ex :: "'e \<Rightarrow> string"
    and mk :: "int \<Rightarrow> string \<Rightarrow> 'b \<Rightarrow> 'e"
    and body :: "'e \<Rightarrow> 'b"
  assumes sq_mk [simp]: "sq (mk n p b) = n"
    and pv_mk [simp]: "pv (mk n p b) = p"
    and dg_mk [simp]: "dg (mk n p b) = ex (mk n p b)"
    and body_mk [simp]: "body (mk n p b) = b"
    and row_eqI: "sq e = sq e' \<Longrightarrow> pv e = pv e' \<Longrightarrow> dg e = dg e' \<Longrightarrow> body e = body e' \<Longrightarrow> e = e'"
begin

lemma chain_append:
  "chain_ok sq pv dg ex n p (xs @ ys) \<longleftrightarrow>
     chain_ok sq pv dg ex n p xs
     \<and> chain_ok sq pv dg ex (n + int (length xs)) (if xs = [] then p else dg (last xs)) ys"
  by (induction xs arbitrary: n p) (auto simp: algebra_simps)

lemma chain_sequence:
  "chain_ok sq pv dg ex n p es \<Longrightarrow> map sq es = map (\<lambda>i. n + int i) [0..<length es]"
proof (induction es arbitrary: n p)
  case Nil
  then show ?case by simp
next
  case (Cons e es)
  then have "chain_ok sq pv dg ex (n + 1) (dg e) es" and "sq e = n" by auto
  then have "map sq es = map (\<lambda>i. (n + 1) + int i) [0..<length es]" by (intro Cons.IH)
  moreover have "[0..<length (e # es)] = 0 # map Suc [0..<length es]"
    by (simp add: map_Suc_upt upt_conv_Cons del: upt_Suc)
  ultimately show ?case using \<open>sq e = n\<close> by (simp add: comp_def algebra_simps del: upt_Suc)
qed

lemma chain_sorted:
  assumes "chain_ok sq pv dg ex n p es"
  shows "sort_key sq es = es" and "distinct (map sq es)"
proof -
  have s: "map sq es = map (\<lambda>i. n + int i) [0..<length es]"
    using assms by (rule chain_sequence)
  have "sorted (map (\<lambda>i. n + int i) [0..<length es])"
    by (simp add: sorted_iff_nth_mono)
  with s show "sort_key sq es = es" by (simp add: sorted_sort_id sort_key_id_if_sorted)
  show "distinct (map sq es)" unfolding s by (simp add: distinct_map inj_on_def)
qed

lemma chain_next_sequence:
  "chain_ok sq pv dg ex 1 genesis es \<Longrightarrow> next_sequence sq es = int (length es) + 1"
proof (cases es rule: rev_cases)
  case Nil
  then show ?thesis by (simp add: next_sequence_def)
next
  case (snoc xs e)
  assume "chain_ok sq pv dg ex 1 genesis es"
  then show ?thesis unfolding snoc by (simp add: chain_append next_sequence_def)
qed

lemma chain_fresh_sequence:
  assumes "chain_ok sq pv dg ex 1 genesis es"
  shows "next_sequence sq es \<notin> sq ` set es"
proof -
  have "set (map sq es) = set (map (\<lambda>i. 1 + int i) [0..<length es])"
    using chain_sequence [OF assms] by simp
  then show ?thesis using chain_next_sequence [OF assms] by auto
qed

text \<open>Appending the next row keeps the chain valid.\<close>

lemma chain_extend:
  assumes "chain_ok sq pv dg ex 1 genesis es"
  shows "chain_ok sq pv dg ex 1 genesis (es @ [mk (next_sequence sq es) (last_digest dg es) b])"
  using assms chain_next_sequence [OF assms] by (simp add: chain_append last_digest_def)

text \<open>
  Tamper evidence: two valid journals without a collision that end in the same digest are equal.
\<close>

lemma chain_determined:
  assumes "chain_ok sq pv dg ex n p (xs @ [x])" and "chain_ok sq pv dg ex n p (ys @ [y])"
    and "dg x = dg y" and "collision_free sq pv ex body (xs @ [x]) (ys @ [y])"
  shows "xs @ [x] = ys @ [y]"
  using assms
proof (induction xs arbitrary: ys x y rule: rev_induct)
  case Nil
  then have "ex x = ex y" by (simp add: chain_append)
  with Nil have b: "sq x = sq y \<and> pv x = pv y \<and> body x = body y"
    by (simp add: collision_free_def)
  with Nil have "sq x = sq y" and "x = y" by (auto intro: row_eqI)
  with Nil have "length ys = 0" by (simp add: chain_append)
  with \<open>x = y\<close> show ?case by simp
next
  case (snoc z zs)
  from snoc.prems(1-3) have "ex x = ex y" by (simp add: chain_append)
  with snoc.prems(4) have b: "sq x = sq y \<and> pv x = pv y \<and> body x = body y"
    by (simp add: collision_free_def)
  then have sqe: "sq x = sq y" and pve: "pv x = pv y" by simp_all
  have xy: "x = y" using b snoc.prems(3) by (intro row_eqI) simp_all
  from sqe snoc.prems(1,2) have len: "length ys = Suc (length zs)" by (simp add: chain_append)
  then obtain us u where ys: "ys = us @ [u]" by (cases ys rule: rev_cases) auto
  have "dg z = dg u" using pve snoc.prems(1,2) ys by (simp add: chain_append)
  moreover have "chain_ok sq pv dg ex n p (zs @ [z])" and "chain_ok sq pv dg ex n p (us @ [u])"
    using snoc.prems(1,2) ys by (simp_all add: chain_append)
  moreover have "collision_free sq pv ex body (zs @ [z]) (us @ [u])"
    using snoc.prems(4) ys by (auto simp: collision_free_def)
  ultimately have "zs @ [z] = us @ [u]" by (intro snoc.IH)
  with xy ys show ?case by simp
qed

lemma tamper_evident:
  assumes "chain_ok sq pv dg ex 1 genesis es" and "chain_ok sq pv dg ex 1 genesis es'"
    and "es \<noteq> []" and "es' \<noteq> []" and "last_digest dg es = last_digest dg es'"
    and "collision_free sq pv ex body es es'"
  shows "es = es'"
proof -
  obtain xs x where "es = xs @ [x]" using assms(3) by (cases es rule: rev_cases) auto
  moreover obtain ys y where "es' = ys @ [y]" using assms(4) by (cases es' rule: rev_cases) auto
  ultimately show ?thesis
    using chain_determined [of 1 genesis xs x ys y] assms by (simp add: last_digest_def)
qed

end

end
