(* ===== verification/V4_Store.thy ===== *)
theory V4_Store
  imports V4_Cycle Hash_Journal "HOL-Library.AList"
begin

text \<open>
  \<open>backend/app/h11_auto/v4_gmo_persistence.py\<close>: the SQLite store of the v4 cycles.

  The four tables are lists of rows in insertion order; their primary keys, UNIQUE, CHECK and
  FOREIGN KEY constraints raise \<open>SqliteIntegrityError\<close> as SQLite does.  Every method runs its
  body in a transaction that rolls back on an exception.  Columns that hold the \<open>value\<close> of an
  enumeration member are typed by the enumeration, and columns that hold \<open>isoformat()\<close> of an
  aware datetime by the datetime (\<open>fromisoformat\<close> reads it back).  Symbolic links, locking and
  disk errors of the database file are not modelled.
\<close>

section \<open>Rows and tables\<close>

record v4_event =
  e_sequence :: int
  e_cycle_ref :: string
  e_category :: string
  e_state_label :: string
  e_previous :: string
  e_digest :: string

record v4_cycle =
  c_ref :: string
  c_fingerprint :: string
  c_config_hash :: string
  c_state :: v4_state
  c_side :: signal_decision
  c_requested_size :: int
  c_filled_size :: int
  c_protected_size :: int
  c_unprotected_since :: "datetime option"
  c_entry_day :: string
  c_created_at :: datetime
  c_updated_at :: datetime
  c_halt_reason :: "string option"

record v4_attempt =
  t_cycle_ref :: string
  t_action :: v4_action
  t_attempted_at :: datetime
  t_outcome :: string

record v4_db =
  db_metadata :: "(string \<times> string) list"
  db_cycles :: "v4_cycle list"
  db_attempts :: "v4_attempt list"
  db_events :: "v4_event list"

definition v4_empty_db :: v4_db where
  "v4_empty_db = \<lparr>db_metadata = [], db_cycles = [], db_attempts = [], db_events = []\<rparr>"

text \<open>\<open>_ACTIVE_STATES\<close>: every state but the three terminal ones.\<close>

definition v4_active :: "v4_state \<Rightarrow> bool" where
  "v4_active s \<longleftrightarrow> s \<notin> {FLAT_RECONCILED, HALTED_OPERATOR_REVIEW_REQUIRED, OPERATOR_RELOAD_CLEARED}"

definition V4_GMO_SCHEMA_VERSION :: string where
  "V4_GMO_SCHEMA_VERSION = ''H11_V4_GMO_RELAXED_STATE_V1''"

section \<open>Labels, timestamps and digests\<close>

definition v4_timestamp :: "datetime \<Rightarrow> datetime result" where
  "v4_timestamp d = (if \<not> dt_aware d
     then Inl (V4GmoPersistenceError ''v4 timestamp must be timezone-aware'') else Inr d)"

definition v4_safe_label :: "string \<Rightarrow> bool" where
  "v4_safe_label s \<longleftrightarrow> s \<noteq> [] \<and> length s \<le> 120
     \<and> list_all (\<lambda>c. c \<in> set (upper_letters @ digit_chars @ ''_'')) s"

definition v4_validate_safe_label :: "string \<Rightarrow> unit result" where
  "v4_validate_safe_label s = (if \<not> v4_safe_label s
     then Inl (V4GmoPersistenceError ''v4 safe label is invalid'') else Inr ())"

definition v4_validate_generation_label :: "string \<Rightarrow> unit result" where
  "v4_validate_generation_label s =
    (if py_strip s = [] \<or> 128 < length s \<or> CHR 10 \<in> set s \<or> CHR 13 \<in> set s
     then Inl (V4GmoPersistenceError ''v4 generation label is invalid'')
     else if \<not> list_all (\<lambda>c. c \<in> set (upper_letters @ lower_letters @ digit_chars @ ''_.-'')) s
     then Inl (V4GmoPersistenceError ''v4 generation label is invalid'')
     else Inr ())"

definition v4_event_digest :: "int \<Rightarrow> string \<Rightarrow> string \<Rightarrow> string \<Rightarrow> string \<Rightarrow> string" where
  "v4_event_digest sequence ref category label previous =
     sha256_hex (py_join ''|'' [py_str_int sequence, ref, category, label, previous])"

section \<open>SQL statements\<close>

definition v4_find :: "string \<Rightarrow> v4_db \<Rightarrow> v4_cycle option" where
  "v4_find ref db = select_one (\<lambda>c. c_ref c = ref) (db_cycles db)"

definition insert_metadata :: "(string \<times> string) list \<Rightarrow> (v4_db, unit) prog" where
  "insert_metadata kvs = (\<lambda>db.
     if distinct (map fst kvs) \<and> (\<forall>kv \<in> set kvs. map_of (db_metadata db) (fst kv) = None)
     then (Inr (), db\<lparr>db_metadata := db_metadata db @ kvs\<rparr>)
     else (Inl SqliteIntegrityError, db))"

definition upsert_metadata :: "(string \<times> string) list \<Rightarrow> (v4_db, unit) prog" where
  "upsert_metadata kvs = modifyE (\<lambda>db.
     db\<lparr>db_metadata := fold (\<lambda>(k, v). AList.update k v) kvs (db_metadata db)\<rparr>)"

definition insert_cycle :: "v4_cycle \<Rightarrow> (v4_db, unit) prog" where
  "insert_cycle c = (\<lambda>db.
     if list_ex (\<lambda>r. c_ref r = c_ref c \<or> c_fingerprint r = c_fingerprint c) (db_cycles db)
        \<or> c_side c \<notin> {BUY, SELL} \<or> c_requested_size c \<le> 0
        \<or> c_filled_size c < 0 \<or> c_protected_size c < 0
     then (Inl SqliteIntegrityError, db)
     else (Inr (), db\<lparr>db_cycles := db_cycles db @ [c]\<rparr>))"

definition insert_attempt :: "v4_attempt \<Rightarrow> (v4_db, unit) prog" where
  "insert_attempt t = (\<lambda>db.
     if list_ex (\<lambda>r. t_cycle_ref r = t_cycle_ref t \<and> t_action r = t_action t) (db_attempts db)
        \<or> v4_find (t_cycle_ref t) db = None
     then (Inl SqliteIntegrityError, db)
     else (Inr (), db\<lparr>db_attempts := db_attempts db @ [t]\<rparr>))"

definition insert_event :: "v4_event \<Rightarrow> (v4_db, unit) prog" where
  "insert_event e = (\<lambda>db.
     if list_ex (\<lambda>r. e_sequence r = e_sequence e) (db_events db)
        \<or> v4_find (e_cycle_ref e) db = None
     then (Inl SqliteIntegrityError, db)
     else (Inr (), db\<lparr>db_events := db_events db @ [e]\<rparr>))"

definition update_cycle :: "string \<Rightarrow> (v4_cycle \<Rightarrow> v4_cycle) \<Rightarrow> (v4_db, unit) prog" where
  "update_cycle ref f = modifyE (\<lambda>db.
     db\<lparr>db_cycles := update_rows (\<lambda>c. c_ref c = ref) f (db_cycles db)\<rparr>)"

text \<open>\<open>SELECT ... FROM safe_events ORDER BY sequence\<close>\<close>

definition events_in_order :: "v4_db \<Rightarrow> v4_event list" where
  "events_in_order db = sort_key e_sequence (db_events db)"

definition v4_mk_event :: "int \<Rightarrow> string \<Rightarrow> string \<times> string \<times> string \<Rightarrow> v4_event" where
  "v4_mk_event sequence previous b = (case b of (ref, category, label) \<Rightarrow>
     \<lparr>e_sequence = sequence, e_cycle_ref = ref, e_category = category, e_state_label = label,
      e_previous = previous, e_digest = v4_event_digest sequence ref category label previous\<rparr>)"

text \<open>\<open>_append_event\<close>\<close>

definition v4_append_event :: "string \<Rightarrow> string \<Rightarrow> v4_state \<Rightarrow> (v4_db, unit) prog" where
  "v4_append_event ref category state =
     thenE (liftE (v4_validate_safe_label category))
     (bindE (getE events_in_order) (\<lambda>rows.
      insert_event (v4_mk_event (next_sequence e_sequence rows) (last_digest e_digest rows)
        (ref, category, v4_state_value state))))"

section \<open>Opening the store\<close>

definition v4_initialize :: "(v4_db, unit) prog" where
  "v4_initialize = catchE
     (transactionE (bindE (getE (\<lambda>db. map_of (db_metadata db) ''schema_version'')) (\<lambda>row.
        case row of
          None \<Rightarrow> insert_metadata [
            (''schema_version'', V4_GMO_SCHEMA_VERSION),
            (''profile_version'', V4_GMO_PROFILE_VERSION),
            (''actual_post_allowed'', ''false'')]
        | Some v \<Rightarrow> guardE (v = V4_GMO_SCHEMA_VERSION)
            (V4GmoPersistenceError ''v4 state schema version mismatch''))))
     (\<lambda>e. raiseE (if e = SqliteIntegrityError
        then V4GmoPersistenceError ''v4 state initialization failed'' else e))"

section \<open>Reading\<close>

definition v4_load_cycle :: "string \<Rightarrow> (v4_db, v4_cycle) prog" where
  "v4_load_cycle ref = bindE (getE (v4_find ref)) (\<lambda>row. case row of
       None \<Rightarrow> raiseE (V4GmoPersistenceError ''v4 GMO cycle not found'')
     | Some c \<Rightarrow> returnE c)"

definition v4_active_cycle_count :: "v4_db \<Rightarrow> nat" where
  "v4_active_cycle_count db = count_rows (\<lambda>c. v4_active (c_state c)) (db_cycles db)"

definition v4_halt_latched :: "v4_db \<Rightarrow> bool" where
  "v4_halt_latched db \<longleftrightarrow>
     map_of (db_metadata db) ''global_halt_latched'' = Some ''true''
     \<or> select_one (\<lambda>c. c_state c = HALTED_OPERATOR_REVIEW_REQUIRED) (db_cycles db) \<noteq> None"

definition v4_action_attempted :: "string \<Rightarrow> v4_action \<Rightarrow> v4_db \<Rightarrow> bool" where
  "v4_action_attempted ref action db \<longleftrightarrow>
     select_one (\<lambda>t. t_cycle_ref t = ref \<and> t_action t = action) (db_attempts db) \<noteq> None"

definition v4_action_attempt_count :: "string \<Rightarrow> v4_db \<Rightarrow> nat" where
  "v4_action_attempt_count ref db = count_rows (\<lambda>t. t_cycle_ref t = ref) (db_attempts db)"

definition v4_load_single_active_cycle :: "(v4_db, v4_cycle option) prog" where
  "v4_load_single_active_cycle =
     bindE (getE (\<lambda>db. filter (\<lambda>c. v4_active (c_state c)) (db_cycles db))) (\<lambda>rows.
       if 1 < length rows
       then raiseE (V4GmoPersistenceError ''multiple active v4 GMO cycles detected'')
       else returnE (case rows of [] \<Rightarrow> None | c # _ \<Rightarrow> Some c))"

definition v4_load_single_halted_cycle :: "(v4_db, v4_cycle option) prog" where
  "v4_load_single_halted_cycle =
     bindE (getE (\<lambda>db. filter (\<lambda>c. c_state c = HALTED_OPERATOR_REVIEW_REQUIRED) (db_cycles db)))
     (\<lambda>rows.
       if 1 < length rows
       then raiseE (V4GmoPersistenceError ''multiple halted v4 GMO cycles detected'')
       else returnE (case rows of [] \<Rightarrow> None | c # _ \<Rightarrow> Some c))"

definition v4_global_halt_reason :: "v4_db \<Rightarrow> string option" where
  "v4_global_halt_reason db = map_of (db_metadata db) ''global_halt_reason''"

section \<open>Writing\<close>

text \<open>
  \<open>SELECT 1 FROM action_attempts JOIN cycles ... WHERE action_kind = MARKET_ENTRY AND
  entry_day_jst = ?\<close>
\<close>

definition v4_market_attempt_on_day :: "string \<Rightarrow> v4_db \<Rightarrow> bool" where
  "v4_market_attempt_on_day day db \<longleftrightarrow>
     list_ex (\<lambda>t. t_action t = MARKET_ENTRY
       \<and> list_ex (\<lambda>c. c_ref c = t_cycle_ref t \<and> c_entry_day c = day) (db_cycles db))
     (db_attempts db)"

text \<open>The row of \<open>INSERT INTO cycles\<close>; the columns it does not name take their defaults.\<close>

definition v4_new_cycle :: "formal_signal \<Rightarrow> v4_policy \<Rightarrow> string \<Rightarrow> datetime \<Rightarrow> v4_cycle" where
  "v4_new_cycle signal policy ref timestamp = \<lparr>
     c_ref = ref,
     c_fingerprint = signal_fingerprint signal,
     c_config_hash = v4_config_hash policy,
     c_state = ENTRY_INTENT_PERSISTED,
     c_side = s_decision signal,
     c_requested_size = v_requested_size policy,
     c_filled_size = 0,
     c_protected_size = 0,
     c_unprotected_since = None,
     c_entry_day = jst_day timestamp,
     c_created_at = timestamp,
     c_updated_at = timestamp,
     c_halt_reason = None\<rparr>"

definition v4_create_cycle ::
    "formal_signal \<Rightarrow> v4_policy \<Rightarrow> datetime \<Rightarrow> (v4_db, v4_cycle) prog" where
  "v4_create_cycle signal policy now =
     bindE (liftE (build_v4_cycle_ref signal policy)) (\<lambda>ref.
     bindE (liftE (v4_timestamp now)) (\<lambda>timestamp.
     thenE (catchE (transactionE (
         bindE (getE (\<lambda>db. select_one (\<lambda>c. v4_active (c_state c)) (db_cycles db))) (\<lambda>active.
         thenE (guardE (active = None)
            (V4GmoPersistenceError ''an active v4 GMO cycle already exists''))
         (bindE (getE v4_halt_latched) (\<lambda>halted.
         thenE (guardE (\<not> halted) (V4GmoPersistenceError ''v4 GMO operator halt is latched''))
         (bindE (getE (v4_market_attempt_on_day (jst_day now))) (\<lambda>market_attempt.
         thenE (guardE (\<not> market_attempt)
            (V4GmoPersistenceError ''v4 GMO daily entry attempt already exists''))
         (thenE (insert_cycle (v4_new_cycle signal policy ref timestamp))
         (v4_append_event ref ''ENTRY_INTENT_PERSISTED'' ENTRY_INTENT_PERSISTED)))))))))
       (\<lambda>e. raiseE (if e = SqliteIntegrityError
          then V4GmoPersistenceError ''duplicate v4 GMO cycle refused'' else e)))
     (v4_load_cycle ref)))"

text \<open>The dictionary \<open>expected_target\<close>; the two time-exit actions are not among its keys.\<close>

fun v4_attempt_state :: "v4_action \<Rightarrow> v4_state option" where
  "v4_attempt_state MARKET_ENTRY = Some MARKET_ENTRY_ATTEMPTED"
| "v4_attempt_state CANCEL_ENTRY_REMAINDER = Some REMAINDER_CANCEL_ATTEMPTED"
| "v4_attempt_state EXACT_SIZE_OCO_PROTECTION = Some PROTECTION_ATTEMPTED"
| "v4_attempt_state CANCEL_MISMATCHED_PROTECTION = Some PROTECTION_CANCEL_ATTEMPTED"
| "v4_attempt_state POSITION_SPECIFIC_EMERGENCY_EXIT = Some EMERGENCY_EXIT_ATTEMPTED"
| "v4_attempt_state _ = None"

text \<open>\<open>COALESCE(column, value)\<close>\<close>

definition coalesce :: "'a option \<Rightarrow> 'a \<Rightarrow> 'a option" where
  "coalesce x v = (case x of None \<Rightarrow> Some v | Some y \<Rightarrow> Some y)"

text \<open>The row of \<open>cycle_ref\<close> inside a transaction, or the error both writers raise.\<close>

definition v4_require_row :: "string \<Rightarrow> (v4_db, v4_cycle) prog" where
  "v4_require_row ref = bindE (getE (v4_find ref)) (\<lambda>row. case row of
       None \<Rightarrow> raiseE (V4GmoPersistenceError ''v4 GMO cycle not found'')
     | Some c \<Rightarrow> returnE c)"

text \<open>The assignments of the two \<open>UPDATE cycles SET ...\<close> statements.\<close>

definition v4_attempt_row :: "v4_action \<Rightarrow> v4_state \<Rightarrow> datetime \<Rightarrow> v4_cycle \<Rightarrow> v4_cycle" where
  "v4_attempt_row action target timestamp c = c\<lparr>c_state := target, c_updated_at := timestamp,
     c_unprotected_since :=
       (if action = MARKET_ENTRY then coalesce (c_unprotected_since c) timestamp
        else c_unprotected_since c)\<rparr>"

definition v4_transition_row ::
    "v4_state \<Rightarrow> datetime \<Rightarrow> int option \<Rightarrow> int option \<Rightarrow> datetime option \<Rightarrow> string option
     \<Rightarrow> v4_cycle \<Rightarrow> v4_cycle" where
  "v4_transition_row target timestamp filled protected unprotected_since halt_reason c = c\<lparr>
     c_state := target,
     c_updated_at := timestamp,
     c_filled_size := (case filled of None \<Rightarrow> c_filled_size c | Some n \<Rightarrow> n),
     c_protected_size := (case protected of None \<Rightarrow> c_protected_size c | Some n \<Rightarrow> n),
     c_unprotected_since := (case unprotected_since of None \<Rightarrow> c_unprotected_since c
        | Some d \<Rightarrow> coalesce (c_unprotected_since c) d),
     c_halt_reason := (case halt_reason of None \<Rightarrow> c_halt_reason c | Some r \<Rightarrow> Some r)\<rparr>"

definition v4_record_action_attempt ::
    "string \<Rightarrow> v4_action \<Rightarrow> v4_state \<Rightarrow> datetime \<Rightarrow> (v4_db, v4_cycle) prog" where
  "v4_record_action_attempt ref action target now =
     bindE (liftE (v4_timestamp now)) (\<lambda>timestamp.
     bindE (liftE (case v4_attempt_state action of None \<Rightarrow> Inl PyKeyError | Some s \<Rightarrow> Inr s))
     (\<lambda>expected_target.
     thenE (guardE (target = expected_target)
       (V4GmoPersistenceError ''v4 action and attempt state do not match''))
     (thenE (catchE (transactionE (
         bindE (v4_require_row ref) (\<lambda>row.
         thenE (liftE (require_v4_transition (c_state row) target))
         (thenE (insert_attempt \<lparr>t_cycle_ref = ref, t_action = action,
             t_attempted_at = timestamp, t_outcome = ''ATTEMPT_STARTED''\<rparr>)
         (thenE (update_cycle ref (v4_attempt_row action target timestamp))
         (v4_append_event ref (action_value action @ ''_ATTEMPT_STARTED'') target))))))
       (\<lambda>e. raiseE (if e = SqliteIntegrityError
          then V4GmoPersistenceError ''second v4 GMO action attempt refused'' else e)))
     (v4_load_cycle ref))))"

definition v4_record_action_outcome :: "string \<Rightarrow> v4_action \<Rightarrow> string \<Rightarrow> (v4_db, unit) prog" where
  "v4_record_action_outcome ref action label =
     thenE (liftE (v4_validate_safe_label label))
     (thenE (guardE (label \<in> set (map outcome_value v4_all_outcomes))
        (V4GmoPersistenceError ''v4 action outcome label is invalid''))
     (transactionE (
        let pending = (\<lambda>t. t_cycle_ref t = ref \<and> t_action t = action
              \<and> t_outcome t = ''ATTEMPT_STARTED'')
        in bindE (getE (\<lambda>db. count_rows pending (db_attempts db))) (\<lambda>rowcount.
           thenE (modifyE (\<lambda>db. db\<lparr>db_attempts :=
              update_rows pending (\<lambda>t. t\<lparr>t_outcome := label\<rparr>) (db_attempts db)\<rparr>))
           (thenE (guardE (rowcount = 1) (V4GmoPersistenceError ''v4 GMO action attempt not found''))
           (bindE (v4_require_row ref) (\<lambda>row.
            v4_append_event ref (action_value action @ ''_'' @ label) (c_state row))))))))"

definition v4_transition ::
    "string \<Rightarrow> v4_state \<Rightarrow> string \<Rightarrow> datetime \<Rightarrow> int option \<Rightarrow> int option \<Rightarrow> datetime option
     \<Rightarrow> string option \<Rightarrow> (v4_db, v4_cycle) prog" where
  "v4_transition ref target category now filled protected unprotected_since halt_reason =
     thenE (liftE (v4_validate_safe_label category))
     (thenE (liftE (case halt_reason of None \<Rightarrow> Inr () | Some r \<Rightarrow> v4_validate_safe_label r))
     (bindE (liftE (v4_timestamp now)) (\<lambda>timestamp.
     thenE (guardE (case filled of None \<Rightarrow> True | Some n \<Rightarrow> 0 \<le> n)
        (V4GmoPersistenceError ''v4 reconciled fill size is invalid''))
     (thenE (guardE (case protected of None \<Rightarrow> True | Some n \<Rightarrow> 0 \<le> n)
        (V4GmoPersistenceError ''v4 reconciled protection size is invalid''))
     (thenE (liftE (case unprotected_since of None \<Rightarrow> Inr ()
          | Some d \<Rightarrow> bindR (v4_timestamp d) (\<lambda>_. Inr ())))
     (thenE (transactionE (
         bindE (v4_require_row ref) (\<lambda>row.
         thenE (liftE (require_v4_transition (c_state row) target))
         (thenE (update_cycle ref (v4_transition_row target timestamp filled protected
             unprotected_since halt_reason))
         (v4_append_event ref category target)))))
     (v4_load_cycle ref)))))))"

definition v4_engage_global_halt :: "string \<Rightarrow> datetime \<Rightarrow> (v4_db, unit) prog" where
  "v4_engage_global_halt reason now =
     thenE (liftE (v4_validate_safe_label reason))
     (bindE (liftE (v4_timestamp now)) (\<lambda>timestamp.
      transactionE (upsert_metadata [
        (''global_halt_latched'', ''true''),
        (''global_halt_reason'', reason),
        (''global_halt_at_utc'', dt_isoformat timestamp)])))"

definition operator_reload_phrase :: string where
  "operator_reload_phrase = ''H11_V4_GMO_OPERATOR_RELOAD_NO_POST''"

definition v4_clear_global_halt_no_post :: "string \<Rightarrow> pyval \<Rightarrow> (v4_db, unit) prog" where
  "v4_clear_global_halt_no_post confirmation fresh_flat_confirmed =
     thenE (guardE (confirmation = operator_reload_phrase)
       (V4GmoPersistenceError ''v4 operator reload confirmation mismatch''))
     (thenE (guardE (is_true fresh_flat_confirmed)
       (V4GmoPersistenceError ''v4 operator reload requires fresh flat state''))
     (bindE (getE v4_active_cycle_count) (\<lambda>active.
      thenE (guardE (active = 0)
        (V4GmoPersistenceError ''v4 operator reload refused while cycle is active''))
      (transactionE (modifyE (\<lambda>db. db\<lparr>db_metadata :=
         filter (\<lambda>kv. fst kv \<notin> {''global_halt_latched'', ''global_halt_reason'', ''global_halt_at_utc''})
           (db_metadata db)\<rparr>))))))"

definition v4_clear_halted_cycle_no_post ::
    "string \<Rightarrow> string \<Rightarrow> pyval \<Rightarrow> datetime \<Rightarrow> (v4_db, v4_cycle) prog" where
  "v4_clear_halted_cycle_no_post ref confirmation fresh_flat_confirmed now =
     thenE (guardE (confirmation = operator_reload_phrase)
       (V4GmoPersistenceError ''v4 operator reload confirmation mismatch''))
     (thenE (guardE (is_true fresh_flat_confirmed)
       (V4GmoPersistenceError ''v4 operator reload requires fresh flat state''))
     (bindE (v4_load_cycle ref) (\<lambda>cycle.
      thenE (guardE (c_state cycle = HALTED_OPERATOR_REVIEW_REQUIRED)
        (V4GmoPersistenceError ''v4 cycle is not halted for operator review''))
      (v4_transition ref OPERATOR_RELOAD_CLEARED ''OPERATOR_RELOAD_CLEARED_NO_POST'' now
         (Some 0) (Some 0) None None))))"

section \<open>Generations\<close>

text \<open>\<open>V4GmoGenerationBinding\<close>; the dictionary \<open>labels\<close> of \<open>bind_generation\<close> has its fields as keys.\<close>

record v4_binding =
  gb_generation_label :: string
  gb_profile_version :: string
  gb_policy_config_hash :: string
  gb_strategy_version :: string
  gb_selected_horizon :: string
  gb_risk_policy_label :: string
  gb_dead_man_policy_label :: string
  gb_protection_contract_hash :: string
  gb_evidence_hash :: string

definition v4_generation_labels :: "v4_binding \<Rightarrow> (string \<times> string) list" where
  "v4_generation_labels b = [
     (''generation_label'', gb_generation_label b),
     (''profile_version'', gb_profile_version b),
     (''policy_config_hash'', gb_policy_config_hash b),
     (''strategy_version'', gb_strategy_version b),
     (''selected_horizon'', gb_selected_horizon b),
     (''risk_policy_label'', gb_risk_policy_label b),
     (''dead_man_policy_label'', gb_dead_man_policy_label b),
     (''protection_contract_hash'', gb_protection_contract_hash b),
     (''broker_capability_evidence_hash'', gb_evidence_hash b)]"

text \<open>The loop over \<open>labels.items()\<close>; a value that is not a string fails either check.\<close>

fun v4_check_labels :: "(string \<times> pyval) list \<Rightarrow> unit result" where
  "v4_check_labels [] = Inr ()"
| "v4_check_labels ((key, v) # rest) =
     bindR (if py_endswith key ''hash''
        then guardR (case as_str v of None \<Rightarrow> False | Some s \<Rightarrow> py_startswith s ''sha256:'')
          (V4GmoPersistenceError ''v4 generation hash is invalid'')
        else case as_str v of
          None \<Rightarrow> Inl (V4GmoPersistenceError ''v4 generation label is invalid'')
        | Some s \<Rightarrow> v4_validate_generation_label s)
      (\<lambda>_. v4_check_labels rest)"

definition v4_generation_digest_ok :: "pyval \<Rightarrow> bool" where
  "v4_generation_digest_ok v = (case as_str v of None \<Rightarrow> False | Some s \<Rightarrow> is_hex64 s)"

definition v4_generation_manifest :: "v4_binding \<Rightarrow> string \<Rightarrow> string \<Rightarrow> string" where
  "v4_generation_manifest b risk_digest dead_man_digest =
     json_dumps (JObj (map (\<lambda>(k, v). (k, JStr v)) (v4_generation_labels b) @ [
       (''risk_policy_digest'', JStr risk_digest),
       (''dead_man_policy_digest'', JStr dead_man_digest)]))"

text \<open>
  The transaction.  \<open>profile_version\<close> is in the table since \<open>_initialize\<close> and is not inserted
  again; \<open>persisted\<close> holds at most the keys of \<open>labels\<close>, so it equals \<open>labels\<close> when every label
  has its value in the table.
\<close>

definition v4_bind_rows :: "v4_binding \<Rightarrow> string \<Rightarrow> string \<Rightarrow> (v4_db, unit) prog" where
  "v4_bind_rows binding manifest digest = catchE (transactionE (
     bindE (getE (\<lambda>db. map_of (db_metadata db) ''generation_digest'')) (\<lambda>existing.
     case existing of
       None \<Rightarrow> insert_metadata (
         filter (\<lambda>(k, v). k \<noteq> ''profile_version'') (v4_generation_labels binding) @ [
         (''generation_manifest'', manifest), (''generation_digest'', digest)])
     | Some d \<Rightarrow>
         if d \<noteq> digest then raiseE (V4GmoPersistenceError ''v4 generation policy mismatch'')
         else bindE (getE db_metadata) (\<lambda>persisted.
           thenE (guardE (map_of persisted ''generation_manifest'' = Some manifest)
             (V4GmoPersistenceError ''v4 generation manifest mismatch''))
           (guardE (list_all (\<lambda>(k, v). map_of persisted k = Some v) (v4_generation_labels binding))
             (V4GmoPersistenceError ''v4 generation metadata mismatch''))))))
   (\<lambda>e. raiseE (if e = SqliteIntegrityError
      then V4GmoPersistenceError ''v4 generation metadata conflict'' else e))"

definition v4_binding_for :: "pyval \<Rightarrow> v4_policy \<Rightarrow> pyval \<Rightarrow> pyval \<Rightarrow> v4_binding" where
  "v4_binding_for generation_label policy risk_label dead_man_label = \<lparr>
     gb_generation_label = the (as_str generation_label),
     gb_profile_version = V4_GMO_PROFILE_VERSION,
     gb_policy_config_hash = v4_config_hash policy,
     gb_strategy_version = v_strategy_version policy,
     gb_selected_horizon = horizon_value (v_horizon policy),
     gb_risk_policy_label = the (as_str risk_label),
     gb_dead_man_policy_label = the (as_str dead_man_label),
     gb_protection_contract_hash = v_protection_contract_hash policy,
     gb_evidence_hash = v_evidence_hash policy\<rparr>"

definition v4_bind_generation ::
    "pyval \<Rightarrow> v4_policy \<Rightarrow> pyval \<Rightarrow> pyval \<Rightarrow> pyval \<Rightarrow> pyval \<Rightarrow> (v4_db, v4_binding) prog" where
  "v4_bind_generation generation_label policy risk_label risk_digest dead_man_label dead_man_digest =
    (let binding = v4_binding_for generation_label policy risk_label dead_man_label;
         manifest = v4_generation_manifest binding (the (as_str risk_digest)) (the (as_str dead_man_digest))
     in thenE (liftE (v4_check_labels [
            (''generation_label'', generation_label),
            (''profile_version'', PyStr V4_GMO_PROFILE_VERSION),
            (''policy_config_hash'', PyStr (v4_config_hash policy)),
            (''strategy_version'', PyStr (v_strategy_version policy)),
            (''selected_horizon'', PyStr (horizon_value (v_horizon policy))),
            (''risk_policy_label'', risk_label),
            (''dead_man_policy_label'', dead_man_label),
            (''protection_contract_hash'', PyStr (v_protection_contract_hash policy)),
            (''broker_capability_evidence_hash'', PyStr (v_evidence_hash policy))]))
       (thenE (guardE (list_all v4_generation_digest_ok [risk_digest, dead_man_digest])
          (V4GmoPersistenceError ''v4 generation digest is invalid''))
       (thenE (v4_bind_rows binding manifest (sha256_hex manifest))
       (returnE binding))))"

section \<open>Journal verification\<close>

record v4_journal_summary =
  js_valid :: bool
  js_event_count :: nat
  js_action_attempt_count :: nat
  js_final_state :: string

definition v4_expected_digest :: "v4_event \<Rightarrow> string" where
  "v4_expected_digest e =
     v4_event_digest (e_sequence e) (e_cycle_ref e) (e_category e) (e_state_label e) (e_previous e)"

text \<open>
  The loop over the events: each row is recomputed with the previous row's digest and compared;
  the dictionary keeps the last state label of every cycle.
\<close>

fun v4_verify_events ::
    "int \<Rightarrow> string \<Rightarrow> (string \<times> string) list \<Rightarrow> string \<Rightarrow> v4_event list
     \<Rightarrow> (string \<times> (string \<times> string) list) result" where
  "v4_verify_events expected_sequence previous labels final [] = Inr (final, labels)"
| "v4_verify_events expected_sequence previous labels final (row # rows) =
    (let expected = v4_event_digest (e_sequence row) (e_cycle_ref row) (e_category row)
           (e_state_label row) previous
     in if e_sequence row \<noteq> expected_sequence \<or> e_previous row \<noteq> previous \<or> e_digest row \<noteq> expected
        then Inl (V4GmoPersistenceError ''v4 safe journal verification failed'')
        else v4_verify_events (expected_sequence + 1) (e_digest row)
          (AList.update (e_cycle_ref row) (e_state_label row) labels) (e_state_label row) rows)"

text \<open>The check of one action attempt against the categories of its cycle's events.\<close>

definition v4_attempt_journal_ok :: "(string \<times> string) list \<Rightarrow> v4_attempt \<Rightarrow> bool" where
  "v4_attempt_journal_ok categories t =
    (let kind = action_value (t_action t);
         expected_start = kind @ ''_ATTEMPT_STARTED'';
         expected_outcome = kind @ ''_'' @ t_outcome t;
         start_matches = count_list categories (t_cycle_ref t, expected_start);
         outcome_categories = map snd (filter (\<lambda>(ref, category). ref = t_cycle_ref t
            \<and> py_startswith category (kind @ ''_'') \<and> category \<noteq> expected_start) categories);
         outcome_matches = count_list outcome_categories expected_outcome;
         outcome_pending = (t_outcome t = ''ATTEMPT_STARTED'')
     in \<not> (start_matches \<noteq> 1 \<or> (outcome_pending \<and> outcome_categories \<noteq> [])
          \<or> (\<not> outcome_pending \<and> (outcome_matches \<noteq> 1 \<or> length outcome_categories \<noteq> 1))))"

definition v4_verify_journal :: "v4_db \<Rightarrow> v4_journal_summary result" where
  "v4_verify_journal db =
     bindR (v4_verify_events 1 genesis [] ''EMPTY'' (events_in_order db)) (\<lambda>(final_state, labels).
     bindR (guardR (set (map fst labels) = set (map c_ref (db_cycles db)))
        (V4GmoPersistenceError ''v4 cycle journal coverage failed'')) (\<lambda>_.
     bindR (guardR (list_all (\<lambda>c. map_of labels (c_ref c) = Some (v4_state_value (c_state c)))
          (db_cycles db))
        (V4GmoPersistenceError ''v4 cycle state journal mismatch'')) (\<lambda>_.
     let categories = map (\<lambda>e. (e_cycle_ref e, e_category e)) (events_in_order db) in
     bindR (guardR (list_all (v4_attempt_journal_ok categories) (db_attempts db))
        (V4GmoPersistenceError ''v4 action journal verification failed'')) (\<lambda>_.
     bindR (guardR (count_rows (\<lambda>(_, category). py_endswith category ''_ATTEMPT_STARTED'') categories
          = length (db_attempts db))
        (V4GmoPersistenceError ''v4 action journal verification failed'')) (\<lambda>_.
     Inr \<lparr>js_valid = True, js_event_count = length (db_events db),
          js_action_attempt_count = length (db_attempts db), js_final_state = final_state\<rparr>)))))"

end
