(* ===== verification/V4_Store_Inv.thy ===== *)
theory V4_Store_Inv
  imports V4_Store
begin

text \<open>
  The invariant of the v4 store and its preservation by every method.

  \<open>v4_store_inv\<close> collects the key constraints of the tables, the uniqueness of the active
  cycle, the validity of the hash chain, and the agreement of the journal with the cycles and
  with the action attempts.  A store that satisfies it always passes \<open>verify_journal\<close>.
\<close>

section \<open>The journal interface\<close>

definition v4_event_body :: "v4_event \<Rightarrow> string \<times> string \<times> string" where
  "v4_event_body e = (e_cycle_ref e, e_category e, e_state_label e)"

interpretation v4j: hash_journal e_sequence e_previous e_digest v4_expected_digest v4_mk_event
  v4_event_body
  by unfold_locales (auto simp: v4_mk_event_def v4_expected_digest_def v4_event_body_def
      split: prod.splits)

abbreviation v4_chain :: "v4_event list \<Rightarrow> bool" where
  "v4_chain \<equiv> chain_ok e_sequence e_previous e_digest v4_expected_digest 1 genesis"

section \<open>The invariant\<close>

definition inv_cycles :: "v4_db \<Rightarrow> bool" where
  "inv_cycles db \<longleftrightarrow>
     distinct (map c_ref (db_cycles db)) \<and> distinct (map c_fingerprint (db_cycles db))
     \<and> (\<forall>c \<in> set (db_cycles db). is_hex64 (c_ref c) \<and> c_side c \<in> {BUY, SELL}
          \<and> 0 < c_requested_size c \<and> 0 \<le> c_filled_size c \<and> 0 \<le> c_protected_size c
          \<and> (\<forall>d. c_unprotected_since c = Some d \<longrightarrow> dt_aware d))"

definition inv_references :: "v4_db \<Rightarrow> bool" where
  "inv_references db \<longleftrightarrow>
     distinct (map (\<lambda>t. (t_cycle_ref t, t_action t)) (db_attempts db))
     \<and> (\<forall>t \<in> set (db_attempts db). t_cycle_ref t \<in> c_ref ` set (db_cycles db))
     \<and> (\<forall>e \<in> set (db_events db). e_cycle_ref e \<in> c_ref ` set (db_cycles db))"

definition inv_one_active :: "v4_db \<Rightarrow> bool" where
  "inv_one_active db \<longleftrightarrow> v4_active_cycle_count db \<le> 1"

text \<open>The last state label the journal holds for a cycle.\<close>

definition journal_label :: "string \<Rightarrow> v4_event list \<Rightarrow> string option" where
  "journal_label ref es = map_of (rev (map (\<lambda>e. (e_cycle_ref e, e_state_label e)) es)) ref"

definition inv_labels :: "v4_db \<Rightarrow> bool" where
  "inv_labels db \<longleftrightarrow>
     (\<forall>c \<in> set (db_cycles db). journal_label (c_ref c) (db_events db) = Some (v4_state_value (c_state c)))"

text \<open>
  The journal entries of one action of one cycle are exactly what its row in
  \<open>action_attempts\<close> says: nothing, a start, or a start and one outcome.
\<close>

definition action_log :: "string \<Rightarrow> v4_action \<Rightarrow> v4_event list \<Rightarrow> string list" where
  "action_log ref a es = map e_category (filter (\<lambda>e. e_cycle_ref e = ref
     \<and> py_startswith (e_category e) (action_value a @ ''_'')) es)"

definition find_attempt :: "string \<Rightarrow> v4_action \<Rightarrow> v4_db \<Rightarrow> v4_attempt option" where
  "find_attempt ref a db = select_one (\<lambda>t. (t_cycle_ref t, t_action t) = (ref, a)) (db_attempts db)"

definition attempt_log :: "v4_action \<Rightarrow> v4_attempt option \<Rightarrow> string list" where
  "attempt_log a x = (case x of None \<Rightarrow> []
     | Some t \<Rightarrow> (action_value a @ ''_ATTEMPT_STARTED'') #
        (if t_outcome t = ''ATTEMPT_STARTED'' then [] else [action_value a @ ''_'' @ t_outcome t]))"

definition inv_actions :: "v4_db \<Rightarrow> bool" where
  "inv_actions db \<longleftrightarrow>
     (\<forall>ref a. action_log ref a (db_events db) = attempt_log a (find_attempt ref a db))
     \<and> count_rows (\<lambda>e. py_endswith (e_category e) ''_ATTEMPT_STARTED'') (db_events db)
       = length (db_attempts db)
     \<and> (\<forall>t \<in> set (db_attempts db). t_outcome t \<in> {''ATTEMPT_STARTED''} \<union> outcome_value ` UNIV)"

text \<open>Every journal entry carries a safe category and the label of a state.\<close>

definition inv_safe :: "v4_db \<Rightarrow> bool" where
  "inv_safe db \<longleftrightarrow> (\<forall>e \<in> set (db_events db).
     v4_safe_label (e_category e) \<and> e_state_label e \<in> range v4_state_value)"

definition v4_store_inv :: "v4_db \<Rightarrow> bool" where
  "v4_store_inv db \<longleftrightarrow> inv_cycles db \<and> inv_references db \<and> inv_one_active db
     \<and> v4_chain (db_events db) \<and> inv_labels db \<and> inv_safe db \<and> inv_actions db"

lemmas v4_inv_defs = v4_store_inv_def inv_cycles_def inv_references_def inv_one_active_def
  inv_labels_def inv_safe_def inv_actions_def

section \<open>Categories\<close>

text \<open>A category that says nothing about an action attempt.\<close>

definition neutral_category :: "string \<Rightarrow> bool" where
  "neutral_category s \<longleftrightarrow> \<not> py_endswith s ''_ATTEMPT_STARTED''
     \<and> list_all (\<lambda>a. \<not> py_startswith s (action_value a @ ''_'')) v4_all_actions"

lemma v4_all_actions_complete: "a \<in> set v4_all_actions"
  by (cases a) (simp_all add: v4_all_actions_def)

lemma neutral_category_no_action: "neutral_category s \<Longrightarrow> \<not> py_startswith s (action_value a @ ''_'')"
  using v4_all_actions_complete [of a] by (auto simp: neutral_category_def list_all_iff)

lemma neutral_category_not_start: "neutral_category s \<Longrightarrow> \<not> py_endswith s ''_ATTEMPT_STARTED''"
  by (simp add: neutral_category_def)

text \<open>The action kinds are prefix free, even followed by the underscore of a category.\<close>

lemma action_value_prefix_free:
  "py_startswith (action_value a @ ''_'' @ s) (action_value b @ ''_'') \<longleftrightarrow> a = b"
  by (cases a; cases b) (simp_all add: py_startswith_def)

lemma py_endswith_append [simp]: "py_endswith (s @ suf) suf"
  by (simp add: py_endswith_def)

lemma start_category_safe: "v4_safe_label (action_value a @ ''_ATTEMPT_STARTED'')"
  by (cases a) (simp_all add: v4_safe_label_def upper_letters_def)

lemma outcome_category_safe: "v4_safe_label (action_value a @ ''_'' @ outcome_value out)"
  by (cases a; cases out) (simp_all add: v4_safe_label_def upper_letters_def)

lemma outcome_category_not_start:
  "\<not> py_endswith (action_value a @ ''_'' @ outcome_value out) ''_ATTEMPT_STARTED''"
  by (cases a; cases out) (simp_all add: py_endswith_def)

lemma outcome_value_not_started [simp]: "outcome_value out \<noteq> ''ATTEMPT_STARTED''"
  by (cases out) simp_all

section \<open>What the statements do\<close>

text \<open>
  The database after a successful writer: the row of the cycle updated and one event appended.
\<close>

definition v4_next_event :: "v4_db \<Rightarrow> string \<Rightarrow> string \<Rightarrow> v4_state \<Rightarrow> v4_event" where
  "v4_next_event db ref category state =
     v4_mk_event (next_sequence e_sequence (events_in_order db))
       (last_digest e_digest (events_in_order db)) (ref, category, v4_state_value state)"

definition v4_commit :: "string \<Rightarrow> (v4_cycle \<Rightarrow> v4_cycle) \<Rightarrow> string \<Rightarrow> v4_state \<Rightarrow> v4_db \<Rightarrow> v4_db" where
  "v4_commit ref f category state db = db\<lparr>
     db_cycles := update_rows (\<lambda>c. c_ref c = ref) f (db_cycles db),
     db_events := db_events db @ [v4_next_event db ref category state]\<rparr>"

lemma append_event_cases:
  "v4_append_event ref category state db = (r, db') \<Longrightarrow>
     (\<exists>e. r = Inl e) \<or>
     (r = Inr () \<and> v4_safe_label category \<and> v4_find ref db \<noteq> None
      \<and> db' = db\<lparr>db_events := db_events db @ [v4_next_event db ref category state]\<rparr>)"
  by (auto simp: v4_append_event_def run_progs insert_event_def v4_next_event_def v4_mk_event_def
      v4_validate_safe_label_def split: if_splits)

text \<open>On a valid journal the sequence number of the next event is always free.\<close>

lemma append_event_run:
  assumes "v4_chain (db_events db)" and "v4_find ref db \<noteq> None" and "v4_safe_label category"
  shows "v4_append_event ref category state db =
    (Inr (), db\<lparr>db_events := db_events db @ [v4_next_event db ref category state]\<rparr>)"
proof -
  have o: "events_in_order db = db_events db"
    unfolding events_in_order_def using v4j.chain_sorted(1) [OF assms(1)] .
  have "next_sequence e_sequence (db_events db) \<notin> e_sequence ` set (db_events db)"
    by (rule v4j.chain_fresh_sequence [OF assms(1)])
  then have "\<not> list_ex (\<lambda>r. e_sequence r = next_sequence e_sequence (db_events db)) (db_events db)"
    by (fastforce simp: list_ex_iff image_iff)
  with assms o show ?thesis
    by (simp add: v4_append_event_def run_progs insert_event_def v4_next_event_def v4_mk_event_def
        v4_validate_safe_label_def)
qed

lemma events_in_order_chain: "v4_chain (db_events db) \<Longrightarrow> events_in_order db = db_events db"
  unfolding events_in_order_def by (rule v4j.chain_sorted(1))

lemma transition_row_ref [simp]: "c_ref (v4_transition_row t n f p u h c) = c_ref c"
  by (simp add: v4_transition_row_def)

lemma attempt_row_ref [simp]: "c_ref (v4_attempt_row a t n c) = c_ref c"
  by (simp add: v4_attempt_row_def)

lemma v4_find_update:
  assumes "\<And>c. c_ref (f c) = c_ref c"
  shows "v4_find a (db\<lparr>db_cycles := update_rows (\<lambda>c. c_ref c = b) f (db_cycles db)\<rparr>) =
    (case v4_find a db of None \<Rightarrow> None | Some c \<Rightarrow> Some (if a = b then f c else c))"
  unfolding v4_find_def by (simp add: select_one_update_rows [of c_ref f, OF assms])

lemma v4_find_commit:
  assumes "\<And>c. c_ref (f c) = c_ref c"
  shows "v4_find a (v4_commit ref f cat st db) =
    (case v4_find a db of None \<Rightarrow> None | Some c \<Rightarrow> Some (if a = ref then f c else c))"
  using v4_find_update [where f = f and a = a and b = ref and db = db, OF assms] by (simp add: v4_commit_def v4_find_def)

lemma v4_find_ref: "v4_find ref db = Some c \<Longrightarrow> c_ref c = ref \<and> c \<in> set (db_cycles db)"
  unfolding v4_find_def by (auto dest: select_one_Some)

text \<open>A successful transition, and that a refused one changes nothing.\<close>

lemma transition_cases:
  assumes "v4_transition ref target category now filled protected since halt db = (r, db')"
  shows "(\<exists>e. r = Inl e \<and> db' = db) \<or>
    (\<exists>row. v4_find ref db = Some row \<and> target \<in> set (v4_allowed (c_state row))
      \<and> v4_safe_label category \<and> dt_aware now
      \<and> (case filled of None \<Rightarrow> True | Some n \<Rightarrow> 0 \<le> n)
      \<and> (case protected of None \<Rightarrow> True | Some n \<Rightarrow> 0 \<le> n)
      \<and> (case since of None \<Rightarrow> True | Some d \<Rightarrow> dt_aware d)
      \<and> r = Inr (v4_transition_row target now filled protected since halt row)
      \<and> db' = v4_commit ref (v4_transition_row target now filled protected since halt)
           category target db)"
proof -
  let ?f = "v4_transition_row target now filled protected since halt"
  let ?db1 = "db\<lparr>db_cycles := update_rows (\<lambda>c. c_ref c = ref) ?f (db_cycles db)\<rparr>"
  have ev: "v4_next_event ?db1 ref category target = v4_next_event db ref category target"
    by (simp add: v4_next_event_def events_in_order_def)
  obtain r1 db1 where app: "v4_append_event ref category target ?db1 = (r1, db1)"
    by (cases "v4_append_event ref category target ?db1")
  have "v4_find ref db = Some row \<Longrightarrow> r1 = Inr () \<Longrightarrow> db1 = v4_commit ref ?f category target db
      \<and> v4_find ref db1 = Some (?f row)" for row
    using append_event_cases [OF app] ev
      v4_find_commit [where f = ?f and a = ref and ref = ref and cat = category and st = target
        and db = db, OF transition_row_ref]
    by (auto simp: v4_commit_def)
  with assms app show ?thesis
    by (auto simp: v4_transition_def run_progs v4_timestamp_def v4_require_row_def
        v4_load_cycle_def require_v4_transition_def v4_validate_safe_label_def update_cycle_def
        split: if_splits option.splits sum.splits prod.splits)
qed

text \<open>Recording an attempt inserts its row, moves the cycle and journals the start.\<close>

definition v4_new_attempt :: "string \<Rightarrow> v4_action \<Rightarrow> datetime \<Rightarrow> v4_attempt" where
  "v4_new_attempt ref action now = \<lparr>t_cycle_ref = ref, t_action = action,
     t_attempted_at = now, t_outcome = ''ATTEMPT_STARTED''\<rparr>"

definition v4_add_attempt :: "v4_attempt \<Rightarrow> v4_db \<Rightarrow> v4_db" where
  "v4_add_attempt t db = db\<lparr>db_attempts := db_attempts db @ [t]\<rparr>"

lemma add_attempt_simps [simp]:
  "db_cycles (v4_add_attempt t db) = db_cycles db"
  "db_events (v4_add_attempt t db) = db_events db"
  "db_metadata (v4_add_attempt t db) = db_metadata db"
  "db_attempts (v4_add_attempt t db) = db_attempts db @ [t]"
  by (simp_all add: v4_add_attempt_def)

lemma v4_find_attempt_db [simp]: "v4_find ref (v4_add_attempt t db) = v4_find ref db"
  by (simp add: v4_find_def)

lemma attempt_cases:
  assumes "v4_record_action_attempt ref action target now db = (r, db')"
  shows "(\<exists>e. r = Inl e \<and> db' = db) \<or>
    (\<exists>row. v4_find ref db = Some row \<and> target \<in> set (v4_allowed (c_state row))
      \<and> v4_attempt_state action = Some target \<and> dt_aware now
      \<and> find_attempt ref action db = None
      \<and> r = Inr (v4_attempt_row action target now row)
      \<and> db' = v4_commit ref (v4_attempt_row action target now) (action_value action @ ''_ATTEMPT_STARTED'')
           target (v4_add_attempt (v4_new_attempt ref action now) db))"
proof -
  let ?f = "v4_attempt_row action target now"
  let ?cat = "action_value action @ ''_ATTEMPT_STARTED''"
  let ?db0 = "v4_add_attempt (v4_new_attempt ref action now) db"
  let ?db1 = "?db0\<lparr>db_cycles := update_rows (\<lambda>c. c_ref c = ref) ?f (db_cycles ?db0)\<rparr>"
  have ev: "v4_next_event ?db1 ref ?cat target = v4_next_event ?db0 ref ?cat target"
    by (simp add: v4_next_event_def events_in_order_def)
  obtain r1 db1 where app: "v4_append_event ref ?cat target ?db1 = (r1, db1)"
    by (cases "v4_append_event ref ?cat target ?db1")
  have none: "list_ex (\<lambda>r. t_cycle_ref r = ref \<and> t_action r = action) (db_attempts db)
      \<longleftrightarrow> find_attempt ref action db \<noteq> None"
    by (auto simp: find_attempt_def select_one_None list_ex_iff)
  have ok: "v4_find ref db = Some row \<Longrightarrow> r1 = Inr () \<Longrightarrow> db1 = v4_commit ref ?f ?cat target ?db0
      \<and> v4_find ref db1 = Some (?f row)" for row
    using append_event_cases [OF app] ev
      v4_find_commit [where f = ?f and a = ref and ref = ref and cat = ?cat and st = target
        and db = ?db0, OF attempt_row_ref]
    by (auto simp: v4_commit_def)
  show ?thesis
  proof (cases "v4_attempt_state action = Some target \<and> dt_aware now \<and> v4_find ref db \<noteq> None
      \<and> target \<in> set (v4_allowed (c_state (the (v4_find ref db)))) \<and> find_attempt ref action db = None")
    case True
    then obtain row where row: "v4_find ref db = Some row" by auto
    have ins: "insert_attempt (v4_new_attempt ref action now) db = (Inr (), ?db0)"
      using none True by (auto simp: insert_attempt_def v4_new_attempt_def v4_add_attempt_def)
    show ?thesis
      using assms app True row ok ins
      by (auto simp: v4_record_action_attempt_def run_progs v4_timestamp_def v4_require_row_def
          v4_load_cycle_def require_v4_transition_def update_cycle_def v4_new_attempt_def [symmetric]
          split: if_splits option.splits sum.splits prod.splits)
  next
    case False
    have ins: "find_attempt ref action db \<noteq> None \<Longrightarrow>
        insert_attempt (v4_new_attempt ref action now) db = (Inl SqliteIntegrityError, db)"
      using none by (auto simp: insert_attempt_def v4_new_attempt_def)
    show ?thesis
      using assms False ins
      by (auto simp: v4_record_action_attempt_def run_progs v4_timestamp_def v4_require_row_def
          v4_load_cycle_def require_v4_transition_def update_cycle_def v4_new_attempt_def [symmetric]
          split: if_splits option.splits sum.splits prod.splits)
  qed
qed

text \<open>Recording an outcome settles the pending attempt and journals it.\<close>

definition v4_settle :: "string \<Rightarrow> v4_action \<Rightarrow> string \<Rightarrow> v4_db \<Rightarrow> v4_db" where
  "v4_settle ref action label db = db\<lparr>db_attempts :=
     update_rows (\<lambda>t. t_cycle_ref t = ref \<and> t_action t = action \<and> t_outcome t = ''ATTEMPT_STARTED'')
       (\<lambda>t. t\<lparr>t_outcome := label\<rparr>) (db_attempts db)\<rparr>"

lemma settle_simps [simp]:
  "db_cycles (v4_settle ref a l db) = db_cycles db"
  "db_events (v4_settle ref a l db) = db_events db"
  "db_metadata (v4_settle ref a l db) = db_metadata db"
  by (simp_all add: v4_settle_def)

lemma v4_find_settle [simp]: "v4_find r (v4_settle ref a l db) = v4_find r db"
  by (simp add: v4_find_def)

definition v4_pending :: "string \<Rightarrow> v4_action \<Rightarrow> v4_attempt \<Rightarrow> bool" where
  "v4_pending ref action t \<longleftrightarrow>
     t_cycle_ref t = ref \<and> t_action t = action \<and> t_outcome t = ''ATTEMPT_STARTED''"

lemma outcome_cases:
  assumes "v4_record_action_outcome ref action label db = (r, db')"
  shows "(\<exists>e. r = Inl e \<and> db' = db) \<or>
    (\<exists>row. v4_find ref db = Some row \<and> label \<in> set (map outcome_value v4_all_outcomes)
      \<and> count_rows (v4_pending ref action) (db_attempts db) = 1
      \<and> r = Inr ()
      \<and> db' = v4_commit ref (\<lambda>c. c) (action_value action @ ''_'' @ label) (c_state row)
           (v4_settle ref action label db))"
proof -
  let ?cat = "action_value action @ ''_'' @ label"
  let ?db0 = "v4_settle ref action label db"
  have p: "(\<lambda>t. t_cycle_ref t = ref \<and> t_action t = action \<and> t_outcome t = ''ATTEMPT_STARTED'')
      = v4_pending ref action" by (rule ext) (simp add: v4_pending_def)
  have same: "update_rows (\<lambda>c. c_ref c = ref) (\<lambda>c. c) (db_cycles db) = db_cycles db"
    by (rule update_rows_id) simp
  have ev: "append = v4_append_event ref ?cat st ?db0 \<Longrightarrow> append = (r1, db1) \<Longrightarrow> r1 = Inr () \<Longrightarrow>
      db1 = v4_commit ref (\<lambda>c. c) ?cat st ?db0" for append r1 db1 st
    using append_event_cases [of ref ?cat st ?db0 r1 db1] same by (auto simp: v4_commit_def)
  show ?thesis
  proof (cases "v4_find ref db")
    case None
    with assms show ?thesis
      by (auto simp: v4_record_action_outcome_def run_progs v4_require_row_def v4_find_def Let_def
          v4_validate_safe_label_def split: if_splits option.splits sum.splits prod.splits)
  next
    case (Some row)
    obtain r1 db1 where app: "v4_append_event ref ?cat (c_state row) ?db0 = (r1, db1)"
      by (cases "v4_append_event ref ?cat (c_state row) ?db0")
    have find0: "v4_find ref (db\<lparr>db_attempts := x\<rparr>) = Some row" for x
      using Some by (simp add: v4_find_def)
    show ?thesis
      using assms app Some ev [OF refl app] find0
      by (auto simp: v4_record_action_outcome_def run_progs v4_require_row_def Let_def p
          v4_validate_safe_label_def v4_settle_def split: if_splits sum.splits prod.splits)
  qed
qed

text \<open>Creating a cycle: every guard of the transaction held, and the intent is journalled.\<close>

definition v4_add_cycle :: "v4_cycle \<Rightarrow> v4_db \<Rightarrow> v4_db" where
  "v4_add_cycle c db = db\<lparr>db_cycles := db_cycles db @ [c],
     db_events := db_events db @ [v4_next_event db (c_ref c) ''ENTRY_INTENT_PERSISTED'' ENTRY_INTENT_PERSISTED]\<rparr>"

lemma create_cases:
  assumes "v4_create_cycle signal policy now db = (r, db')"
  shows "(\<exists>e. r = Inl e \<and> db' = db) \<or>
    (\<exists>ref. build_v4_cycle_ref signal policy = Inr ref \<and> dt_aware now
      \<and> v4_active_cycle_count db = 0 \<and> \<not> v4_halt_latched db
      \<and> \<not> v4_market_attempt_on_day (jst_day now) db
      \<and> v4_find ref db = None
      \<and> signal_fingerprint signal \<notin> c_fingerprint ` set (db_cycles db)
      \<and> 0 < v_requested_size policy
      \<and> r = Inr (v4_new_cycle signal policy ref now)
      \<and> db' = v4_add_cycle (v4_new_cycle signal policy ref now) db)"
proof (cases "build_v4_cycle_ref signal policy")
  case (Inl e)
  with assms show ?thesis by (auto simp: v4_create_cycle_def run_progs)
next
  case (Inr ref)
  let ?c = "v4_new_cycle signal policy ref now"
  let ?db1 = "db\<lparr>db_cycles := db_cycles db @ [?c]\<rparr>"
  have ref: "c_ref ?c = ref" by (simp add: v4_new_cycle_def)
  have ev: "v4_next_event ?db1 ref cat st = v4_next_event db ref cat st" for cat st
    by (simp add: v4_next_event_def events_in_order_def)
  obtain r1 db1 where app:
    "v4_append_event ref ''ENTRY_INTENT_PERSISTED'' ENTRY_INTENT_PERSISTED ?db1 = (r1, db1)"
    by (cases "v4_append_event ref ''ENTRY_INTENT_PERSISTED'' ENTRY_INTENT_PERSISTED ?db1")
  have ok: "r1 = Inr () \<Longrightarrow> db1 = v4_add_cycle ?c db"
    using append_event_cases [OF app] ref ev by (simp add: v4_add_cycle_def)
  have active: "select_one (\<lambda>c. v4_active (c_state c)) (db_cycles db) = None \<longleftrightarrow> v4_active_cycle_count db = 0"
    by (simp add: select_one_None v4_active_cycle_count_def count_rows_zero)
  have found: "v4_find ref db = None \<Longrightarrow> v4_find ref (v4_add_cycle ?c db) = Some ?c"
    using ref by (simp add: v4_find_def v4_add_cycle_def select_one_append) (simp add: select_one_def)
  show ?thesis
  proof (cases "list_ex (\<lambda>r. c_ref r = ref \<or> c_fingerprint r = signal_fingerprint signal) (db_cycles db)
        \<or> s_decision signal \<notin> {BUY, SELL} \<or> v_requested_size policy \<le> 0")
    case True
    then have "insert_cycle ?c db = (Inl SqliteIntegrityError, db)"
      by (simp add: insert_cycle_def v4_new_cycle_def)
    with assms Inr show ?thesis
      by (auto simp: v4_create_cycle_def run_progs v4_timestamp_def split: if_splits)
  next
    case False
    then have ins: "insert_cycle ?c db = (Inr (), ?db1)"
      by (simp add: insert_cycle_def v4_new_cycle_def)
    from False have none: "v4_find ref db = None"
      and fp: "signal_fingerprint signal \<notin> c_fingerprint ` set (db_cycles db)"
      by (auto simp: v4_find_def select_one_None list_ex_iff)
    show ?thesis
      using assms Inr app ok ins none fp found False
      by (auto simp: v4_create_cycle_def run_progs v4_timestamp_def v4_load_cycle_def active
          split: if_splits option.splits sum.splits prod.splits)
  qed
qed

section \<open>Preservation\<close>

text \<open>What the two row updates keep: the key columns, and what the invariant says of one row.\<close>

definition row_ok :: "v4_cycle \<Rightarrow> bool" where
  "row_ok c \<longleftrightarrow> is_hex64 (c_ref c) \<and> c_side c \<in> {BUY, SELL}
     \<and> 0 < c_requested_size c \<and> 0 \<le> c_filled_size c \<and> 0 \<le> c_protected_size c
     \<and> (\<forall>d. c_unprotected_since c = Some d \<longrightarrow> dt_aware d)"

lemma inv_cycles_rows:
  "inv_cycles db \<longleftrightarrow> distinct (map c_ref (db_cycles db)) \<and> distinct (map c_fingerprint (db_cycles db))
     \<and> (\<forall>c \<in> set (db_cycles db). row_ok c)"
  by (simp add: inv_cycles_def row_ok_def)

lemma inv_cycles_find:
  assumes "inv_cycles db" and "v4_find ref db = Some row" and "c \<in> set (db_cycles db)" and "c_ref c = ref"
  shows "c = row"
proof -
  have "v4_find ref db = Some c"
    unfolding v4_find_def using assms(1,3,4) select_one_key [of c_ref "db_cycles db" c]
    by (simp add: inv_cycles_def)
  with assms(2) show ?thesis by simp
qed

lemma v4_find_member: "inv_cycles db \<Longrightarrow> c \<in> set (db_cycles db) \<Longrightarrow> v4_find (c_ref c) db = Some c"
  unfolding v4_find_def by (rule select_one_key) (simp_all add: inv_cycles_def)

lemma commit_simps [simp]:
  "db_metadata (v4_commit ref f cat st db) = db_metadata db"
  "db_attempts (v4_commit ref f cat st db) = db_attempts db"
  "db_cycles (v4_commit ref f cat st db) = update_rows (\<lambda>c. c_ref c = ref) f (db_cycles db)"
  "db_events (v4_commit ref f cat st db) = db_events db @ [v4_next_event db ref cat st]"
  by (simp_all add: v4_commit_def)

lemma next_event_simps [simp]:
  "e_cycle_ref (v4_next_event db ref cat st) = ref"
  "e_category (v4_next_event db ref cat st) = cat"
  "e_state_label (v4_next_event db ref cat st) = v4_state_value st"
  by (simp_all add: v4_next_event_def v4_mk_event_def)

lemma journal_label_snoc:
  "journal_label r (es @ [e]) = (if r = e_cycle_ref e then Some (e_state_label e) else journal_label r es)"
  by (simp add: journal_label_def)

lemma action_log_snoc:
  "action_log r a (es @ [e]) = action_log r a es
    @ (if e_cycle_ref e = r \<and> py_startswith (e_category e) (action_value a @ ''_'') then [e_category e] else [])"
  by (simp add: action_log_def)

lemma v4_active_terminal: "v4_active s \<longleftrightarrow> \<not> v4_terminal s"
  by (simp add: v4_active_def v4_terminal_def)

lemma refs_update_rows:
  assumes "\<And>c. c_ref (f c) = c_ref c"
  shows "c_ref ` set (update_rows p f rows) = c_ref ` set rows"
  by (metis assms list.set_map map_update_rows_key)

text \<open>
  One update of one cycle with its journal entry keeps the invariant, apart from the part about
  the action attempts.
\<close>

definition v4_base_inv :: "v4_db \<Rightarrow> bool" where
  "v4_base_inv db \<longleftrightarrow> inv_cycles db \<and> inv_references db \<and> inv_one_active db
     \<and> v4_chain (db_events db) \<and> inv_labels db \<and> inv_safe db"

lemma v4_store_inv_base: "v4_store_inv db \<longleftrightarrow> v4_base_inv db \<and> inv_actions db"
  by (auto simp: v4_store_inv_def v4_base_inv_def)

lemma commit_base_inv:
  assumes inv: "v4_base_inv db" and row: "v4_find ref db = Some row"
    and f_key: "\<And>c. c_ref (f c) = c_ref c" "\<And>c. c_fingerprint (f c) = c_fingerprint c"
    and f_row: "row_ok row \<Longrightarrow> row_ok (f row)" and f_state: "c_state (f row) = st"
    and act: "v4_active st \<Longrightarrow> v4_active (c_state row)" and safe: "v4_safe_label cat"
  shows "v4_base_inv (v4_commit ref f cat st db)"
proof -
  let ?db' = "v4_commit ref f cat st db"
  have cyc: "inv_cycles db" and chain: "v4_chain (db_events db)" and lab: "inv_labels db"
    using inv by (simp_all add: v4_base_inv_def)
  have one: "c = row" if "c \<in> set (db_cycles db)" "c_ref c = ref" for c
    using inv_cycles_find [OF cyc row that] .
  have mem: "row \<in> set (db_cycles db)" and rref: "c_ref row = ref"
    using v4_find_ref [OF row] by simp_all
  have "row_ok row" using cyc mem by (simp add: inv_cycles_rows)
  then have "inv_cycles ?db'"
    using cyc one f_row
    by (auto simp: inv_cycles_rows set_update_rows map_update_rows_key [where k = c_ref, OF f_key(1)]
        map_update_rows_key [where k = c_fingerprint, OF f_key(2)])
  moreover have "inv_references ?db'"
    using inv mem rref by (auto simp: v4_base_inv_def inv_references_def refs_update_rows [OF f_key(1)])
  moreover have "inv_one_active ?db'"
  proof -
    have "count_rows (\<lambda>c. v4_active (c_state c)) (update_rows (\<lambda>c. c_ref c = ref) f (db_cycles db))
        \<le> count_rows (\<lambda>c. v4_active (c_state c)) (db_cycles db)"
      by (rule count_rows_update_mono) (use one f_state act in blast)
    with inv show ?thesis by (simp add: v4_base_inv_def inv_one_active_def v4_active_cycle_count_def)
  qed
  moreover have "v4_chain (db_events ?db')"
    using v4j.chain_extend [OF chain] events_in_order_chain [OF chain]
    by (simp add: v4_next_event_def)
  moreover have "inv_labels ?db'"
    using lab one f_key(1) f_state
    by (auto simp: inv_labels_def set_update_rows journal_label_snoc)
  moreover have "inv_safe ?db'"
    using inv safe by (auto simp: v4_base_inv_def inv_safe_def)
  ultimately show ?thesis by (simp add: v4_base_inv_def)
qed

lemma transition_row_keeps:
  "c_fingerprint (v4_transition_row t n f p u h c) = c_fingerprint c"
  "c_state (v4_transition_row t n f p u h c) = t"
  "c_side (v4_transition_row t n f p u h c) = c_side c"
  "c_requested_size (v4_transition_row t n f p u h c) = c_requested_size c"
  "c_config_hash (v4_transition_row t n f p u h c) = c_config_hash c"
  "c_entry_day (v4_transition_row t n f p u h c) = c_entry_day c"
  "c_updated_at (v4_transition_row t n f p u h c) = n"
  by (simp_all add: v4_transition_row_def)

lemma attempt_row_keeps:
  "c_fingerprint (v4_attempt_row a t n c) = c_fingerprint c"
  "c_state (v4_attempt_row a t n c) = t"
  "c_side (v4_attempt_row a t n c) = c_side c"
  "c_requested_size (v4_attempt_row a t n c) = c_requested_size c"
  "c_filled_size (v4_attempt_row a t n c) = c_filled_size c"
  "c_protected_size (v4_attempt_row a t n c) = c_protected_size c"
  "c_config_hash (v4_attempt_row a t n c) = c_config_hash c"
  "c_entry_day (v4_attempt_row a t n c) = c_entry_day c"
  "c_updated_at (v4_attempt_row a t n c) = n"
  by (simp_all add: v4_attempt_row_def)

lemma transition_row_ok:
  assumes "row_ok c" and "case f of None \<Rightarrow> True | Some n \<Rightarrow> 0 \<le> n"
    and "case p of None \<Rightarrow> True | Some n \<Rightarrow> 0 \<le> n" and "case u of None \<Rightarrow> True | Some d \<Rightarrow> dt_aware d"
  shows "row_ok (v4_transition_row t n f p u h c)"
  using assms by (auto simp: row_ok_def v4_transition_row_def coalesce_def split: option.splits)

lemma attempt_row_ok: "row_ok c \<Longrightarrow> dt_aware n \<Longrightarrow> row_ok (v4_attempt_row a t n c)"
  by (auto simp: row_ok_def v4_attempt_row_def coalesce_def split: option.splits)

lemma allowed_active: "t \<in> set (v4_allowed c) \<Longrightarrow> v4_active t \<Longrightarrow> v4_active c"
  using v4_allowed_terminal by (auto simp: v4_active_terminal)

text \<open>A transition whose category is neutral keeps the whole invariant.\<close>

lemma transition_inv:
  assumes "v4_store_inv db" and "neutral_category category"
    and "v4_transition ref target category now filled protected since halt db = (r, db')"
  shows "v4_store_inv db'"
proof (cases "\<exists>e. r = Inl e \<and> db' = db")
  case True
  with assms(1) show ?thesis by auto
next
  case False
  then obtain row where row: "v4_find ref db = Some row"
    and allowed: "target \<in> set (v4_allowed (c_state row))" and now: "dt_aware now"
    and safe: "v4_safe_label category"
    and sizes: "case filled of None \<Rightarrow> True | Some n \<Rightarrow> 0 \<le> n"
      "case protected of None \<Rightarrow> True | Some n \<Rightarrow> 0 \<le> n" "case since of None \<Rightarrow> True | Some d \<Rightarrow> dt_aware d"
    and db': "db' = v4_commit ref (v4_transition_row target now filled protected since halt)
        category target db"
    using transition_cases [OF assms(3)] by auto
  have "v4_base_inv db'"
    unfolding db'
    by (rule commit_base_inv [OF _ row])
       (use assms(1) sizes allowed safe in \<open>auto simp: v4_store_inv_base transition_row_keeps
          intro: transition_row_ok allowed_active\<close>)
  moreover have "inv_actions db'"
    using assms(1,2) unfolding db'
    by (auto simp: v4_store_inv_def inv_actions_def action_log_snoc neutral_category_no_action
        neutral_category_not_start find_attempt_def count_rows_Cons)
  ultimately show ?thesis by (simp add: v4_store_inv_base)
qed

text \<open>Recording an attempt, an outcome, a new cycle and the global halt keep it too.\<close>

lemma find_attempt_snoc:
  "find_attempt r b (v4_add_attempt t db) = (case find_attempt r b db of
     None \<Rightarrow> (if (t_cycle_ref t, t_action t) = (r, b) then Some t else None) | Some x \<Rightarrow> Some x)"
  by (simp add: find_attempt_def select_one_append) (simp add: select_one_def split: option.splits)

lemma find_attempt_None_iff:
  "find_attempt r a db = None \<longleftrightarrow> (r, a) \<notin> (\<lambda>t. (t_cycle_ref t, t_action t)) ` set (db_attempts db)"
  by (auto simp: find_attempt_def select_one_None)

lemma find_attempt_commit [simp]: "find_attempt r a (v4_commit ref f cat st db) = find_attempt r a db"
  by (simp add: find_attempt_def)

lemma add_attempt_base_inv:
  assumes "v4_base_inv db" and "v4_find ref db = Some row" and "find_attempt ref a db = None"
  shows "v4_base_inv (v4_add_attempt (v4_new_attempt ref a now) db)"
  using assms v4_find_ref [OF assms(2)]
  by (auto simp: v4_base_inv_def inv_cycles_def inv_references_def inv_one_active_def
      v4_active_cycle_count_def inv_labels_def inv_safe_def find_attempt_None_iff v4_new_attempt_def)

lemma attempt_inv:
  assumes inv: "v4_store_inv db"
    and run: "v4_record_action_attempt ref action target now db = (r, db')"
  shows "v4_store_inv db'"
proof (cases "\<exists>e. r = Inl e \<and> db' = db")
  case True
  with inv show ?thesis by auto
next
  case False
  let ?t = "v4_new_attempt ref action now"
  let ?db0 = "v4_add_attempt ?t db"
  let ?cat = "action_value action @ ''_ATTEMPT_STARTED''"
  from False obtain row where row: "v4_find ref db = Some row"
    and allowed: "target \<in> set (v4_allowed (c_state row))" and now: "dt_aware now"
    and none: "find_attempt ref action db = None"
    and db': "db' = v4_commit ref (v4_attempt_row action target now) ?cat target ?db0"
    using attempt_cases [OF run] by auto
  have "v4_base_inv ?db0"
    using inv row none by (intro add_attempt_base_inv) (simp_all add: v4_store_inv_base)
  then have "v4_base_inv db'"
    unfolding db' by (rule commit_base_inv)
      (use row allowed now start_category_safe [of action]
        in \<open>auto simp: attempt_row_keeps intro: attempt_row_ok allowed_active\<close>)
  moreover have "inv_actions db'"
  proof -
    have log: "action_log r a (db_events db') = attempt_log a (find_attempt r a db')" for r a
    proof -
      have "action_log r a (db_events db) = attempt_log a (find_attempt r a db)"
        using inv by (simp add: v4_store_inv_def inv_actions_def)
      moreover have "py_startswith ?cat (action_value a @ ''_'') \<longleftrightarrow> action = a"
        using action_value_prefix_free [of action "''ATTEMPT_STARTED''" a] by simp
      ultimately show ?thesis
        using none unfolding db'
        by (auto simp: action_log_snoc find_attempt_snoc attempt_log_def v4_new_attempt_def
            split: option.splits)
    qed
    have "py_endswith ?cat ''_ATTEMPT_STARTED''" by simp
    then show ?thesis
      using inv log unfolding db'
      by (auto simp: v4_store_inv_def inv_actions_def count_rows_Cons v4_new_attempt_def)
  qed
  ultimately show ?thesis by (simp add: v4_store_inv_base)
qed

lemma settle_keys:
  "map (\<lambda>t. (t_cycle_ref t, t_action t)) (db_attempts (v4_settle ref a l db)) =
     map (\<lambda>t. (t_cycle_ref t, t_action t)) (db_attempts db)"
  by (simp add: v4_settle_def map_update_rows_key)

lemma find_attempt_settle:
  "find_attempt r b (v4_settle ref a l db) = map_option
     (\<lambda>t. if v4_pending ref a t then t\<lparr>t_outcome := l\<rparr> else t) (find_attempt r b db)"
  using select_one_update_any [where k = "\<lambda>t. (t_cycle_ref t, t_action t)" and a = "(r, b)"
      and p = "v4_pending ref a" and f = "\<lambda>t. t\<lparr>t_outcome := l\<rparr>" and rows = "db_attempts db"]
  unfolding find_attempt_def v4_settle_def v4_pending_def by simp

lemma pending_found:
  assumes "inv_references db" and "count_rows (v4_pending ref a) (db_attempts db) = 1"
  shows "\<exists>t. find_attempt ref a db = Some t \<and> t_outcome t = ''ATTEMPT_STARTED''"
proof -
  obtain t where t: "t \<in> set (db_attempts db)" "v4_pending ref a t"
    using assms(2) count_rows_zero [of "v4_pending ref a" "db_attempts db"] by auto
  then have "find_attempt ref a db = Some t"
    using select_one_key [of "\<lambda>t. (t_cycle_ref t, t_action t)" "db_attempts db" t] assms(1)
    by (simp add: find_attempt_def inv_references_def v4_pending_def)
  with t show ?thesis by (simp add: v4_pending_def)
qed

lemma settle_base_inv: "v4_base_inv db \<Longrightarrow> v4_base_inv (v4_settle ref a l db)"
  using settle_keys [of ref a l db]
  by (auto simp: v4_base_inv_def inv_cycles_def inv_references_def inv_one_active_def
      v4_active_cycle_count_def inv_labels_def inv_safe_def v4_settle_def set_update_rows)

lemma outcome_inv:
  assumes inv: "v4_store_inv db"
    and run: "v4_record_action_outcome ref action label db = (r, db')"
  shows "v4_store_inv db'"
proof (cases "\<exists>e. r = Inl e \<and> db' = db")
  case True
  with inv show ?thesis by auto
next
  case False
  let ?db0 = "v4_settle ref action label db"
  let ?cat = "action_value action @ ''_'' @ label"
  from False obtain row where row: "v4_find ref db = Some row"
    and "label \<in> set (map outcome_value v4_all_outcomes)"
    and one: "count_rows (v4_pending ref action) (db_attempts db) = 1"
    and db': "db' = v4_commit ref (\<lambda>c. c) ?cat (c_state row) ?db0"
    using outcome_cases [OF run] by auto
  then obtain out where label: "label = outcome_value out" by auto
  obtain t where t: "find_attempt ref action db = Some t" "t_outcome t = ''ATTEMPT_STARTED''"
    using pending_found [OF _ one] inv by (auto simp: v4_store_inv_def)
  have key: "t_cycle_ref x = r \<and> t_action x = a" if "find_attempt r a db = Some x" for x r a
    using that select_one_Some by (fastforce simp: find_attempt_def)
  have "v4_base_inv ?db0" using inv by (simp add: settle_base_inv v4_store_inv_base)
  then have "v4_base_inv db'"
    unfolding db' by (rule commit_base_inv) (use row label outcome_category_safe [of action out] in auto)
  moreover have "inv_actions db'"
  proof -
    have log: "action_log r a (db_events db') = attempt_log a (find_attempt r a db')" for r a
    proof -
      have old: "action_log r a (db_events db) = attempt_log a (find_attempt r a db)"
        using inv by (simp add: v4_store_inv_def inv_actions_def)
      show ?thesis
      proof (cases "r = ref \<and> a = action")
        case True
        have "find_attempt ref action db' = Some (t\<lparr>t_outcome := label\<rparr>)"
          using t key [OF t(1)] unfolding db' by (simp add: find_attempt_settle v4_pending_def)
        moreover have "py_startswith ?cat (action_value action @ ''_'')"
          using action_value_prefix_free [of action label action] by simp
        ultimately show ?thesis
          using True old t label unfolding db' by (simp add: action_log_snoc attempt_log_def)
      next
        case False
        have "find_attempt r a db' = find_attempt r a db"
          using False key [of r a] unfolding db'
          by (cases "find_attempt r a db") (auto simp: find_attempt_settle v4_pending_def)
        moreover have "\<not> (ref = r \<and> py_startswith ?cat (action_value a @ ''_''))"
          using False action_value_prefix_free [of action label a] by auto
        ultimately show ?thesis using old unfolding db' by (simp add: action_log_snoc)
      qed
    qed
    have "\<not> py_endswith ?cat ''_ATTEMPT_STARTED''"
      unfolding label by (rule outcome_category_not_start)
    then show ?thesis
      using inv log label unfolding db'
      by (auto simp: v4_store_inv_def inv_actions_def count_rows_Cons v4_settle_def set_update_rows)
  qed
  ultimately show ?thesis by (simp add: v4_store_inv_base)
qed

lemma add_cycle_simps [simp]:
  "db_metadata (v4_add_cycle c db) = db_metadata db"
  "db_attempts (v4_add_cycle c db) = db_attempts db"
  "db_cycles (v4_add_cycle c db) = db_cycles db @ [c]"
  "db_events (v4_add_cycle c db) = db_events db
     @ [v4_next_event db (c_ref c) ''ENTRY_INTENT_PERSISTED'' ENTRY_INTENT_PERSISTED]"
  by (simp_all add: v4_add_cycle_def)

lemma neutral_intent: "neutral_category ''ENTRY_INTENT_PERSISTED''"
  by (simp add: neutral_category_def v4_all_actions_def py_startswith_def py_endswith_def)

lemma intent_safe:
  "v4_safe_label ''ENTRY_INTENT_PERSISTED''" "''ENTRY_INTENT_PERSISTED'' \<in> range v4_state_value"
  using rangeI [of v4_state_value ENTRY_INTENT_PERSISTED]
  by (simp_all add: v4_safe_label_def upper_letters_def)

lemma build_v4_cycle_ref_hex: "build_v4_cycle_ref s p = Inr ref \<Longrightarrow> is_hex64 ref \<and> s_decision s \<in> {BUY, SELL}"
  by (auto simp: build_v4_cycle_ref_def v4_accepts_def split: if_splits)

lemma create_inv:
  assumes inv: "v4_store_inv db" and run: "v4_create_cycle signal policy now db = (r, db')"
  shows "v4_store_inv db'"
proof (cases "\<exists>e. r = Inl e \<and> db' = db")
  case True
  with inv show ?thesis by auto
next
  case False
  then obtain ref where ref: "build_v4_cycle_ref signal policy = Inr ref"
    and none: "v4_find ref db = None" and idle: "v4_active_cycle_count db = 0"
    and fp: "signal_fingerprint signal \<notin> c_fingerprint ` set (db_cycles db)"
    and sz: "0 < v_requested_size policy"
    and db': "db' = v4_add_cycle (v4_new_cycle signal policy ref now) db"
    using create_cases [OF run] by auto
  let ?c = "v4_new_cycle signal policy ref now"
  have c [simp]: "c_ref ?c = ref" "c_fingerprint ?c = signal_fingerprint signal"
    "c_state ?c = ENTRY_INTENT_PERSISTED" by (simp_all add: v4_new_cycle_def)
  have ok: "row_ok ?c"
    using build_v4_cycle_ref_hex [OF ref] sz by (simp add: row_ok_def v4_new_cycle_def)
  have fresh: "ref \<notin> c_ref ` set (db_cycles db)"
    using none by (auto simp: v4_find_def select_one_None)
  have chain: "v4_chain (db_events db)" using inv by (simp add: v4_store_inv_def)
  have "inv_cycles db'"
    using inv ok fp fresh unfolding db' by (auto simp: v4_store_inv_def inv_cycles_rows)
  moreover have "inv_references db'"
    using inv unfolding db' by (auto simp: v4_store_inv_def inv_references_def)
  moreover have "inv_one_active db'"
    using idle unfolding db'
    by (simp add: inv_one_active_def v4_active_cycle_count_def count_rows_Cons)
  moreover have "v4_chain (db_events db')"
    using v4j.chain_extend [OF chain] events_in_order_chain [OF chain] unfolding db'
    by (simp add: v4_next_event_def)
  moreover have "inv_labels db'"
    using inv fresh unfolding db' by (auto simp: v4_store_inv_def inv_labels_def journal_label_snoc)
  moreover have "inv_safe db'"
    using inv intent_safe unfolding db' by (auto simp: v4_store_inv_def inv_safe_def)
  moreover have "inv_actions db'"
    using inv neutral_category_no_action [OF neutral_intent] neutral_category_not_start [OF neutral_intent]
    unfolding db'
    by (auto simp: v4_store_inv_def inv_actions_def action_log_snoc find_attempt_def count_rows_Cons)
  ultimately show ?thesis by (simp add: v4_store_inv_def)
qed

lemma metadata_inv: "v4_store_inv (db\<lparr>db_metadata := m\<rparr>) \<longleftrightarrow> v4_store_inv db"
  by (simp add: v4_inv_defs v4_active_cycle_count_def find_attempt_def)

end
