(* ===== verification/V4_Journal.thy ===== *)
theory V4_Journal
  imports V4_Store_Inv
begin

text \<open>
  \<open>V4GmoStateStore.verify_journal\<close>: what it accepts.

  A store that satisfies the invariant always passes the verification, and a store that passes
  it is determined by the digest of its last event: a second store with the same last digest
  holds the same events, cycle states and action attempts, or two of the hashed strings of the
  two journals are a SHA-256 collision.
\<close>

section \<open>The loop over the events\<close>

definition final_label :: "string \<Rightarrow> v4_event list \<Rightarrow> string" where
  "final_label final es = (if es = [] then final else e_state_label (last es))"

definition fold_labels :: "(string \<times> string) list \<Rightarrow> v4_event list \<Rightarrow> (string \<times> string) list" where
  "fold_labels labels es = fold (\<lambda>e. AList.update (e_cycle_ref e) (e_state_label e)) es labels"

text \<open>The loop accepts exactly the valid chains.\<close>

lemma verify_events_eq:
  "v4_verify_events n p labels final es =
     (if chain_ok e_sequence e_previous e_digest v4_expected_digest n p es
      then Inr (final_label final es, fold_labels labels es)
      else Inl (V4GmoPersistenceError ''v4 safe journal verification failed''))"
proof (induction es arbitrary: n p labels final)
  case Nil
  then show ?case by (simp add: final_label_def fold_labels_def)
next
  case (Cons e es)
  then show ?case
    by (auto simp: Let_def v4_expected_digest_def final_label_def fold_labels_def)
qed

lemma fold_labels_snoc:
  "fold_labels labels (es @ [e]) = AList.update (e_cycle_ref e) (e_state_label e) (fold_labels labels es)"
  by (simp add: fold_labels_def)

lemma map_of_fold_labels: "map_of (fold_labels [] es) ref = journal_label ref es"
  by (induction es rule: rev_induct)
     (simp_all add: fold_labels_snoc update_conv' journal_label_snoc, simp_all add: fold_labels_def journal_label_def)

lemma keys_fold_labels: "fst ` set (fold_labels [] es) = e_cycle_ref ` set es"
proof (induction es rule: rev_induct)
  case Nil
  then show ?case by (simp add: fold_labels_def)
next
  case (snoc e es)
  have "fst ` set (AList.update (e_cycle_ref e) (e_state_label e) (fold_labels [] es)) =
      insert (e_cycle_ref e) (fst ` set (fold_labels [] es))"
    using dom_update [of "e_cycle_ref e" "e_state_label e" "fold_labels [] es"] by simp
  with snoc show ?case by (simp add: fold_labels_snoc)
qed

lemma journal_label_Some_ref: "journal_label ref es = Some l \<Longrightarrow> ref \<in> e_cycle_ref ` set es"
  by (auto simp: journal_label_def dest!: map_of_SomeD)

section \<open>The check of the action attempts\<close>

abbreviation journal_categories :: "v4_event list \<Rightarrow> (string \<times> string) list" where
  "journal_categories es \<equiv> map (\<lambda>e. (e_cycle_ref e, e_category e)) es"

lemma categories_action_log:
  "filter (\<lambda>(r, c). r = ref \<and> py_startswith c (action_value a @ ''_'') \<and> c \<noteq> x) (journal_categories es) =
     map (\<lambda>c. (ref, c)) (filter (\<lambda>c. c \<noteq> x) (action_log ref a es))"
  by (induction es) (auto simp: action_log_def)

lemma start_count_action_log:
  "count_list (journal_categories es) (ref, action_value a @ ''_'' @ s) =
     count_list (action_log ref a es) (action_value a @ ''_'' @ s)"
proof (induction es)
  case Nil
  then show ?case by (simp add: action_log_def)
next
  case (Cons e es)
  have "py_startswith (action_value a @ ''_'' @ s) (action_value a @ ''_'')"
    using action_value_prefix_free [of a s a] by simp
  with Cons show ?case by (auto simp: action_log_def)
qed

text \<open>The check in terms of the log of the action.\<close>

lemma attempt_journal_ok_log:
  "v4_attempt_journal_ok (journal_categories es) t \<longleftrightarrow>
    (let log = action_log (t_cycle_ref t) (t_action t) es;
         start = action_value (t_action t) @ ''_ATTEMPT_STARTED'';
         rest = filter (\<lambda>c. c \<noteq> start) log
     in count_list log start = 1
        \<and> (if t_outcome t = ''ATTEMPT_STARTED'' then rest = []
           else count_list rest (action_value (t_action t) @ ''_'' @ t_outcome t) = 1 \<and> length rest = 1))"
  using start_count_action_log [of es "t_cycle_ref t" "t_action t" "''ATTEMPT_STARTED''"]
  unfolding v4_attempt_journal_ok_def Let_def categories_action_log by (auto simp: comp_def)

lemma attempt_log_ok:
  assumes "inv_actions db" and "inv_references db" and "t \<in> set (db_attempts db)"
  shows "v4_attempt_journal_ok (journal_categories (db_events db)) t"
proof -
  have "find_attempt (t_cycle_ref t) (t_action t) db = Some t"
    using select_one_key [of "\<lambda>t. (t_cycle_ref t, t_action t)" "db_attempts db" t] assms(2,3)
    by (simp add: find_attempt_def inv_references_def)
  then have "action_log (t_cycle_ref t) (t_action t) (db_events db) = attempt_log (t_action t) (Some t)"
    using assms(1) by (simp add: inv_actions_def)
  then show ?thesis by (simp add: attempt_journal_ok_log attempt_log_def Let_def)
qed

section \<open>The invariant passes the verification\<close>

text \<open>The result of a successful verification.\<close>

definition v4_summary :: "v4_db \<Rightarrow> v4_journal_summary" where
  "v4_summary db = \<lparr>js_valid = True, js_event_count = length (db_events db),
     js_action_attempt_count = length (db_attempts db),
     js_final_state = final_label ''EMPTY'' (events_in_order db)\<rparr>"

lemma verify_journal_Inr:
  "v4_verify_journal db = Inr s \<longleftrightarrow>
     v4_chain (events_in_order db)
     \<and> e_cycle_ref ` set (db_events db) = c_ref ` set (db_cycles db)
     \<and> (\<forall>c \<in> set (db_cycles db).
          journal_label (c_ref c) (events_in_order db) = Some (v4_state_value (c_state c)))
     \<and> (\<forall>t \<in> set (db_attempts db). v4_attempt_journal_ok (journal_categories (events_in_order db)) t)
     \<and> count_rows (\<lambda>e. py_endswith (e_category e) ''_ATTEMPT_STARTED'') (events_in_order db)
          = length (db_attempts db)
     \<and> s = v4_summary db"
  by (auto simp: v4_verify_journal_def verify_events_eq bindR_Inr_iff map_of_fold_labels
      keys_fold_labels Let_def list_all_iff count_rows_def filter_map comp_def v4_summary_def
      events_in_order_def)

lemma store_inv_verifies:
  assumes "v4_store_inv db"
  shows "v4_verify_journal db = Inr (v4_summary db)"
proof -
  have chain: "v4_chain (db_events db)" using assms by (simp add: v4_store_inv_def)
  note order = events_in_order_chain [OF chain]
  have "c_ref ` set (db_cycles db) \<subseteq> e_cycle_ref ` set (db_events db)"
    using assms journal_label_Some_ref by (fastforce simp: v4_store_inv_def inv_labels_def)
  with assms chain attempt_log_ok show ?thesis
    unfolding verify_journal_Inr order
    by (auto simp: v4_store_inv_def inv_references_def inv_labels_def inv_actions_def)
qed

section \<open>Tamper evidence\<close>

text \<open>The string whose digest an event carries, and that it determines the event's fields.\<close>

definition v4_canonical :: "v4_event \<Rightarrow> string" where
  "v4_canonical e = py_join ''|'' [py_str_int (e_sequence e), e_cycle_ref e, e_category e,
     e_state_label e, e_previous e]"

lemma v4_expected_digest_canonical: "v4_expected_digest e = sha256_hex (v4_canonical e)"
  by (simp add: v4_expected_digest_def v4_event_digest_def v4_canonical_def)

definition separator_free :: "v4_event \<Rightarrow> bool" where
  "separator_free e \<longleftrightarrow> CHR ''|'' \<notin> set (e_cycle_ref e) \<and> CHR ''|'' \<notin> set (e_category e)
     \<and> CHR ''|'' \<notin> set (e_state_label e) \<and> CHR ''|'' \<notin> set (e_previous e)"

lemma str_int_no_bar: "CHR ''|'' \<notin> set (py_str_int i)"
proof -
  have "CHR ''|'' \<notin> insert (CHR ''-'') (set digit_chars)" by (simp add: digit_chars_def)
  then show ?thesis using set_py_str_int [of i] by blast
qed

lemma canonical_bars:
  "count_list (v4_canonical e) (CHR ''|'') = 4 + count_list (e_cycle_ref e) (CHR ''|'')
     + count_list (e_category e) (CHR ''|'') + count_list (e_state_label e) (CHR ''|'')
     + count_list (e_previous e) (CHR ''|'')"
  using str_int_no_bar [of "e_sequence e"] by (simp add: v4_canonical_def count_list_0_iff)

lemma separator_free_canonical: "separator_free e \<longleftrightarrow> count_list (v4_canonical e) (CHR ''|'') = 4"
  by (simp add: canonical_bars separator_free_def count_list_0_iff [symmetric])

lemma canonical_inj:
  assumes "separator_free e" and "v4_canonical e = v4_canonical e'"
  shows "e_sequence e = e_sequence e' \<and> e_previous e = e_previous e' \<and> v4_event_body e = v4_event_body e'"
proof -
  have "separator_free e'" using assms by (simp add: separator_free_canonical)
  then have "[py_str_int (e_sequence e), e_cycle_ref e, e_category e, e_state_label e, e_previous e] =
      [py_str_int (e_sequence e'), e_cycle_ref e', e_category e', e_state_label e', e_previous e']"
    using assms str_int_no_bar by (intro py_join_inj [of _ _ "CHR ''|''"])
      (auto simp: separator_free_def v4_canonical_def)
  then show ?thesis by (auto simp: v4_event_body_def dest: py_str_int_inj)
qed

text \<open>The events of a store that satisfies the invariant contain no separator.\<close>

lemma hex64_no_bar: "is_hex64 s \<Longrightarrow> CHR ''|'' \<notin> set s"
proof -
  have "CHR ''|'' \<notin> set hex_chars" by (simp add: hex_chars_def)
  then show "is_hex64 s \<Longrightarrow> CHR ''|'' \<notin> set s" by (auto simp only: is_hex64_def list_all_iff)
qed

lemma safe_label_no_bar: "v4_safe_label s \<Longrightarrow> CHR ''|'' \<notin> set s"
proof -
  have "CHR ''|'' \<notin> set (upper_letters @ digit_chars @ ''_'')"
    by (simp add: upper_letters_def digit_chars_def)
  then show "v4_safe_label s \<Longrightarrow> CHR ''|'' \<notin> set s" by (auto simp only: v4_safe_label_def list_all_iff)
qed

lemma state_value_no_bar: "CHR ''|'' \<notin> set (v4_state_value s)"
  by (cases s) simp_all

lemma chain_previous:
  assumes "chain_ok e_sequence e_previous e_digest v4_expected_digest n p es" and "e \<in> set es"
  shows "e_previous e = p \<or> is_hex64 (e_previous e)"
  using assms
proof (induction es arbitrary: n p)
  case Nil
  then show ?case by simp
next
  case (Cons x xs)
  then have "e = x \<or> e_previous e = e_digest x \<or> is_hex64 (e_previous e)" by auto
  with Cons.prems show ?case by (auto simp: v4_expected_digest_canonical)
qed

lemma store_inv_separator_free:
  assumes "v4_store_inv db" and "e \<in> set (db_events db)"
  shows "separator_free e"
proof -
  have "e_cycle_ref e \<in> c_ref ` set (db_cycles db)"
    using assms by (auto simp: v4_store_inv_def inv_references_def)
  then have "is_hex64 (e_cycle_ref e)" using assms(1) by (auto simp: v4_store_inv_def inv_cycles_def)
  moreover have "v4_safe_label (e_category e)" and "e_state_label e \<in> range v4_state_value"
    using assms by (auto simp: v4_store_inv_def inv_safe_def)
  moreover have "e_previous e = genesis \<or> is_hex64 (e_previous e)"
    using assms chain_previous by (auto simp: v4_store_inv_def)
  ultimately show ?thesis
    using state_value_no_bar
    by (auto simp: separator_free_def genesis_def hex64_no_bar safe_label_no_bar)
qed

text \<open>Two different strings hashed by the two journals that have the same SHA-256 digest.\<close>

definition sha256_collision :: "v4_event list \<Rightarrow> v4_event list \<Rightarrow> bool" where
  "sha256_collision es es' \<longleftrightarrow> (\<exists>e \<in> set es. \<exists>e' \<in> set es'.
     v4_canonical e \<noteq> v4_canonical e' \<and> sha256_hex (v4_canonical e) = sha256_hex (v4_canonical e'))"

lemma journal_determined:
  assumes inv: "v4_store_inv db" and chain': "v4_chain es'" 
    and last: "last_digest e_digest es' = last_digest e_digest (db_events db)"
    and no: "\<not> sha256_collision (db_events db) es'"
  shows "es' = db_events db"
proof -
  have chain: "v4_chain (db_events db)" using inv by (simp add: v4_store_inv_def)
  have dig: "e_digest (last es) \<noteq> genesis" if ch: "v4_chain es" and ne: "es \<noteq> []" for es
  proof -
    obtain xs x where es: "es = xs @ [x]" using ne by (cases es rule: rev_cases) auto
    with ch have "e_digest x = sha256_hex (v4_canonical x)"
      by (simp add: v4j.chain_append v4_expected_digest_canonical)
    then have "length (e_digest x) = 64" by simp
    then show ?thesis unfolding es by (auto simp: genesis_def)
  qed
  have "collision_free e_sequence e_previous v4_expected_digest v4_event_body (db_events db) es'"
    unfolding collision_free_def
  proof (intro ballI impI)
    fix e e' assume e: "e \<in> set (db_events db)" "e' \<in> set es'"
      and eq: "v4_expected_digest e = v4_expected_digest e'"
    then have "v4_canonical e = v4_canonical e'"
      using no by (auto simp: sha256_collision_def v4_expected_digest_canonical)
    then show "e_sequence e = e_sequence e' \<and> e_previous e = e_previous e' \<and> v4_event_body e = v4_event_body e'"
      by (rule canonical_inj [OF store_inv_separator_free [OF inv e(1)]])
  qed
  moreover have "es' = [] \<longleftrightarrow> db_events db = []"
    using last dig [OF chain] dig [OF chain'] by (auto simp: last_digest_def split: if_splits)
  ultimately show ?thesis
    using v4j.tamper_evident [OF chain chain'] last by (cases "db_events db = []") auto
qed

text \<open>What the verified journal says of the two other tables.\<close>

lemma v4_state_value_inj: "v4_state_value a = v4_state_value b \<longleftrightarrow> a = b"
  by (cases a; cases b; simp)

definition cycle_states :: "v4_db \<Rightarrow> (string \<times> v4_state) set" where
  "cycle_states db = (\<lambda>c. (c_ref c, c_state c)) ` set (db_cycles db)"

definition attempt_key :: "v4_attempt \<Rightarrow> string \<times> v4_action" where
  "attempt_key t = (t_cycle_ref t, t_action t)"

definition attempt_outcomes :: "v4_db \<Rightarrow> ((string \<times> v4_action) \<times> string) set" where
  "attempt_outcomes db = (\<lambda>t. (attempt_key t, t_outcome t)) ` set (db_attempts db)"

lemma verified_cycle_states:
  assumes "v4_verify_journal db = Inr s"
  shows "cycle_states db = {(ref, st). journal_label ref (events_in_order db) = Some (v4_state_value st)}"
proof -
  have cov: "e_cycle_ref ` set (db_events db) = c_ref ` set (db_cycles db)"
    and lab: "\<forall>c \<in> set (db_cycles db).
      journal_label (c_ref c) (events_in_order db) = Some (v4_state_value (c_state c))"
    using assms by (simp_all add: verify_journal_Inr)
  have "set (events_in_order db) = set (db_events db)" by (simp add: events_in_order_def)
  then have "journal_label ref (events_in_order db) = Some l \<Longrightarrow> ref \<in> c_ref ` set (db_cycles db)" for ref l
    using journal_label_Some_ref cov by metis
  with lab show ?thesis by (fastforce simp: cycle_states_def v4_state_value_inj)
qed

lemma verified_attempt_found:
  assumes "inv_actions db" and "v4_attempt_journal_ok (journal_categories (db_events db)) t'"
  shows "\<exists>t. find_attempt (t_cycle_ref t') (t_action t') db = Some t \<and> t_outcome t = t_outcome t'"
proof -
  let ?x = "find_attempt (t_cycle_ref t') (t_action t') db"
  have "action_log (t_cycle_ref t') (t_action t') (db_events db) = attempt_log (t_action t') ?x"
    using assms(1) by (simp add: inv_actions_def)
  moreover have "t_outcome t = ''ATTEMPT_STARTED'' \<or> t_outcome t \<in> range outcome_value" if "?x = Some t" for t
    using that assms(1) select_one_Some by (fastforce simp: inv_actions_def find_attempt_def)
  ultimately show ?thesis
    using assms(2) by (auto simp: attempt_journal_ok_log attempt_log_def Let_def split: option.splits if_splits)
qed

lemma outcomes_determined:
  assumes inv: "v4_store_inv db" and ok: "v4_verify_journal db' = Inr s"
    and keys: "distinct (map attempt_key (db_attempts db'))"
    and same: "events_in_order db' = db_events db"
  shows "attempt_outcomes db' = attempt_outcomes db"
proof -
  have refs: "distinct (map attempt_key (db_attempts db))" and act: "inv_actions db"
    using inv by (simp_all add: v4_store_inv_def inv_references_def attempt_key_def [abs_def])
  have sub: "attempt_outcomes db' \<subseteq> attempt_outcomes db"
  proof
    fix x assume "x \<in> attempt_outcomes db'"
    then obtain t' where t': "t' \<in> set (db_attempts db')" "x = (attempt_key t', t_outcome t')"
      by (auto simp: attempt_outcomes_def)
    then have "v4_attempt_journal_ok (journal_categories (db_events db)) t'"
      using ok same by (simp add: verify_journal_Inr)
    then obtain t where t: "find_attempt (t_cycle_ref t') (t_action t') db = Some t" "t_outcome t = t_outcome t'"
      using verified_attempt_found [OF act] by blast
    then have "t \<in> set (db_attempts db)" "attempt_key t = attempt_key t'"
      using select_one_Some by (fastforce simp: find_attempt_def attempt_key_def)+
    with t t' show "x \<in> attempt_outcomes db" by (auto simp: attempt_outcomes_def image_iff intro!: bexI [of _ t])
  qed
  have card: "card (attempt_outcomes d) = length (db_attempts d)"
    if "distinct (map attempt_key (db_attempts d))" for d
  proof -
    have "inj_on (\<lambda>t. (attempt_key t, t_outcome t)) (set (db_attempts d))"
      using that by (auto simp: distinct_map inj_on_def)
    then show ?thesis
      using that distinct_card by (fastforce simp: attempt_outcomes_def card_image distinct_map)
  qed
  have "length (db_attempts db') = length (db_attempts db)"
    using ok act same by (simp add: verify_journal_Inr inv_actions_def)
  then show ?thesis
    using card [OF keys] card [OF refs] sub
    by (intro card_subset_eq) (simp_all add: attempt_outcomes_def)
qed

section \<open>Reachable stores\<close>

text \<open>
  The stores that the methods of \<open>V4GmoStateStore\<close> can produce from an empty file, whatever
  they return or raise.  \<open>transition\<close> is called with categories that are not those of the action
  records; every category the engine passes is (\<open>neutral_category\<close>).
\<close>

inductive v4_reach :: "v4_db \<Rightarrow> bool" where
  reach_empty: "v4_reach v4_empty_db"
| reach_initialize: "v4_reach db \<Longrightarrow> v4_initialize db = (r, db') \<Longrightarrow> v4_reach db'"
| reach_create: "v4_reach db \<Longrightarrow> v4_create_cycle signal policy now db = (c, db') \<Longrightarrow> v4_reach db'"
| reach_attempt: "v4_reach db \<Longrightarrow> v4_record_action_attempt ref action target now db = (c, db') \<Longrightarrow> v4_reach db'"
| reach_outcome: "v4_reach db \<Longrightarrow> v4_record_action_outcome ref action label db = (r, db') \<Longrightarrow> v4_reach db'"
| reach_transition: "v4_reach db \<Longrightarrow> neutral_category category \<Longrightarrow>
    v4_transition ref target category now filled protected since halt db = (c, db') \<Longrightarrow> v4_reach db'"
| reach_engage: "v4_reach db \<Longrightarrow> v4_engage_global_halt reason now db = (r, db') \<Longrightarrow> v4_reach db'"
| reach_clear: "v4_reach db \<Longrightarrow> v4_clear_global_halt_no_post phrase flat db = (r, db') \<Longrightarrow> v4_reach db'"
| reach_clear_cycle: "v4_reach db \<Longrightarrow>
    v4_clear_halted_cycle_no_post ref phrase flat now db = (c, db') \<Longrightarrow> v4_reach db'"
| reach_bind: "v4_reach db \<Longrightarrow> v4_bind_generation label policy rl rd dl dd db = (b, db') \<Longrightarrow> v4_reach db'"

lemma empty_inv: "v4_store_inv v4_empty_db"
  by (simp add: v4_inv_defs v4_empty_db_def v4_active_cycle_count_def action_log_def attempt_log_def
      find_attempt_def select_one_def)

text \<open>The methods that only write the metadata table keep the invariant.\<close>

lemma metadata_only_inv:
  assumes "v4_store_inv db" and "db' = db\<lparr>db_metadata := m\<rparr>"
  shows "v4_store_inv db'"
  using assms metadata_inv by simp

abbreviation v4_tables :: "v4_db \<Rightarrow> v4_db" where
  "v4_tables db \<equiv> db\<lparr>db_metadata := []\<rparr>"

lemma keeps_metadata_statements [frame]:
  "keeps v4_tables (insert_metadata kvs)" "keeps v4_tables (upsert_metadata kvs)"
  by (simp_all add: keeps_def insert_metadata_def upsert_metadata_def)

lemma keeps_metadata_writers:
  "keeps v4_tables v4_initialize"
  "keeps v4_tables (v4_engage_global_halt reason now)"
  "keeps v4_tables (v4_clear_global_halt_no_post phrase flat)"
  "keeps v4_tables (v4_bind_generation label policy rl rd dl dd)"
  unfolding v4_initialize_def v4_engage_global_halt_def v4_clear_global_halt_no_post_def v4_bind_generation_def
    v4_bind_rows_def Let_def
  by (intro frame; simp)+

lemma metadata_writers:
  "v4_initialize db = (u, db') \<Longrightarrow> \<exists>m. db' = db\<lparr>db_metadata := m\<rparr>"
  "v4_engage_global_halt reason now db = (u, db') \<Longrightarrow> \<exists>m. db' = db\<lparr>db_metadata := m\<rparr>"
  "v4_clear_global_halt_no_post phrase flat db = (u, db') \<Longrightarrow> \<exists>m. db' = db\<lparr>db_metadata := m\<rparr>"
  "v4_bind_generation label policy rl rd dl dd db = (b, db') \<Longrightarrow> \<exists>m. db' = db\<lparr>db_metadata := m\<rparr>"
proof -
  have *: "\<exists>m. db' = db\<lparr>db_metadata := m\<rparr>" if "keeps v4_tables m" "m db = (x, db')" for m :: "(v4_db, 'a) prog" and x
    using keepsD [OF that] by (cases db; cases db') auto
  show "v4_initialize db = (u, db') \<Longrightarrow> \<exists>m. db' = db\<lparr>db_metadata := m\<rparr>"
    by (rule * [OF keeps_metadata_writers(1)])
  show "v4_engage_global_halt reason now db = (u, db') \<Longrightarrow> \<exists>m. db' = db\<lparr>db_metadata := m\<rparr>"
    by (rule * [OF keeps_metadata_writers(2)])
  show "v4_clear_global_halt_no_post phrase flat db = (u, db') \<Longrightarrow> \<exists>m. db' = db\<lparr>db_metadata := m\<rparr>"
    by (rule * [OF keeps_metadata_writers(3)])
  show "v4_bind_generation label policy rl rd dl dd db = (b, db') \<Longrightarrow> \<exists>m. db' = db\<lparr>db_metadata := m\<rparr>"
    by (rule * [OF keeps_metadata_writers(4)])
qed

lemma metadata_writers_inv:
  "v4_store_inv db \<Longrightarrow> v4_initialize db = (r, db') \<Longrightarrow> v4_store_inv db'"
  "v4_store_inv db \<Longrightarrow> v4_engage_global_halt reason now db = (r, db') \<Longrightarrow> v4_store_inv db'"
  "v4_store_inv db \<Longrightarrow> v4_clear_global_halt_no_post phrase flat db = (r, db') \<Longrightarrow> v4_store_inv db'"
  "v4_store_inv db \<Longrightarrow> v4_bind_generation label policy rl rd dl dd db = (b, db') \<Longrightarrow> v4_store_inv db'"
  by (blast dest: metadata_writers metadata_only_inv)+

lemma neutral_cleared: "neutral_category ''OPERATOR_RELOAD_CLEARED_NO_POST''"
  by (simp add: neutral_category_def v4_all_actions_def py_startswith_def py_endswith_def)

lemma clear_cycle_inv:
  "v4_store_inv db \<Longrightarrow> v4_clear_halted_cycle_no_post ref phrase flat now db = (r, db') \<Longrightarrow> v4_store_inv db'"
  by (auto simp: v4_clear_halted_cycle_no_post_def run_progs v4_load_cycle_def
      intro: transition_inv [OF _ neutral_cleared] split: if_splits option.splits prod.splits sum.splits)

lemma reach_inv: "v4_reach db \<Longrightarrow> v4_store_inv db"
  by (induction rule: v4_reach.induct)
     (auto intro: empty_inv metadata_writers_inv create_inv attempt_inv outcome_inv transition_inv
       clear_cycle_inv)

end
