(* ===== verification/V4_Broker.thy ===== *)
theory V4_Broker
  imports V4_Journal
begin

text \<open>
  \<open>backend/app/h11_auto/v4_gmo_boundary.py\<close>: the refusing and the fake broker, which are the
  only two the engine accepts, and the interface \<open>V4GmoSyntheticBroker\<close> as a locale.
\<close>

section \<open>The two brokers\<close>

record v4_broker =
  b_refusing :: bool
  b_outcomes :: "(v4_action \<times> v4_outcome list) list"
  b_snapshots :: "v4_snapshot list"
  b_calls :: "v4_plan list"
  b_reconciliation_count :: int
  b_fake_only :: bool
  b_actual_post_count :: int
  b_write_performed :: bool
  b_credential_read :: bool
  b_network_access :: bool

text \<open>\<open>RefusingV4GmoBroker()\<close> and \<open>FakeV4GmoBroker(outcomes, snapshots)\<close>\<close>

definition RefusingV4GmoBroker :: v4_broker where
  "RefusingV4GmoBroker = \<lparr>b_refusing = True, b_outcomes = [], b_snapshots = [], b_calls = [],
     b_reconciliation_count = 0, b_fake_only = True, b_actual_post_count = 0,
     b_write_performed = False, b_credential_read = False, b_network_access = False\<rparr>"

definition FakeV4GmoBroker :: "(v4_action \<times> v4_outcome list) list \<Rightarrow> v4_snapshot list \<Rightarrow> v4_broker" where
  "FakeV4GmoBroker outcomes snapshots = \<lparr>b_refusing = False, b_outcomes = outcomes,
     b_snapshots = snapshots, b_calls = [], b_reconciliation_count = 0, b_fake_only = True,
     b_actual_post_count = 0, b_write_performed = False, b_credential_read = False,
     b_network_access = False\<rparr>"

text \<open>\<open>queued.pop(0)\<close> on the list stored under the action.\<close>

definition fake_perform :: "v4_plan \<Rightarrow> (v4_broker, v4_outcome) prog" where
  "fake_perform plan =
     thenE (guardE (\<not> (pl_actual_post_allowed plan \<or> pl_credential_read_allowed plan
         \<or> pl_network_access_allowed plan)) (V4GmoBoundaryError ''V4_GMO_NON_FAKE_PLAN_REFUSED''))
     (bindE (getE (\<lambda>b. map_of (b_outcomes b) (pl_action plan))) (\<lambda>queued.
        case queued of
          Some (out # rest) \<Rightarrow>
            thenE (modifyE (\<lambda>b. b\<lparr>b_calls := b_calls b @ [plan]\<rparr>))
            (thenE (modifyE (\<lambda>b. b\<lparr>b_outcomes := AList.update (pl_action plan) rest (b_outcomes b)\<rparr>))
            (returnE out))
        | _ \<Rightarrow> raiseE (V4GmoBoundaryError ''V4_GMO_UNPLANNED_SYNTHETIC_ACTION_REFUSED'')))"

definition fake_reconcile :: "(v4_broker, v4_snapshot) prog" where
  "fake_reconcile = bindE (getE b_snapshots) (\<lambda>snapshots. case snapshots of
       [] \<Rightarrow> raiseE (V4GmoBoundaryError ''V4_GMO_SYNTHETIC_RECONCILIATION_MISSING'')
     | s # rest \<Rightarrow>
         thenE (modifyE (\<lambda>b. b\<lparr>b_reconciliation_count := b_reconciliation_count b + 1,
             b_snapshots := rest\<rparr>))
         (returnE s))"

definition refusing_perform :: "v4_plan \<Rightarrow> (v4_broker, v4_outcome) prog" where
  "refusing_perform plan = raiseE (V4GmoBoundaryError ''V4_GMO_ACTUAL_TRANSPORT_ABSENT_NO_POST'')"

definition refusing_reconcile :: "(v4_broker, v4_snapshot) prog" where
  "refusing_reconcile = raiseE (V4GmoBoundaryError ''V4_GMO_ACTUAL_READ_BOUNDARY_ABSENT_NO_POST'')"

text \<open>The method call on whichever of the two objects the engine holds.\<close>

definition perform_once_synthetic :: "v4_plan \<Rightarrow> (v4_broker, v4_outcome) prog" where
  "perform_once_synthetic plan = bindE (getE b_refusing) (\<lambda>refusing.
     if refusing then refusing_perform plan else fake_perform plan)"

definition reconcile_synthetic :: "(v4_broker, v4_snapshot) prog" where
  "reconcile_synthetic = bindE (getE b_refusing) (\<lambda>refusing.
     if refusing then refusing_reconcile else fake_reconcile)"

definition is_boundary_error :: "py_exn \<Rightarrow> bool" where
  "is_boundary_error e = (case e of V4GmoBoundaryError m \<Rightarrow> True | _ \<Rightarrow> False)"

section \<open>The interface\<close>

text \<open>
  What the engine relies on, for brokers in a good state: an accepted action is in the broker's call list exactly once, a
  refused one leaves no trace and raises \<open>V4GmoBoundaryError\<close>, a reconciliation sends
  nothing and returns a well-formed snapshot, and neither touches the counters of real activity (\<open>marks\<close>).
\<close>

locale synthetic_broker =
  fixes perform :: "'p \<Rightarrow> ('b, 'o) prog"
    and reconcile :: "('b, 'n) prog"
    and calls :: "'b \<Rightarrow> 'p list"
    and marks :: "'b \<Rightarrow> 'm"
    and good :: "'b \<Rightarrow> bool"
    and ok :: "'n \<Rightarrow> bool"
  assumes perform_returns: "perform plan b = (Inr out, b') \<Longrightarrow>
      calls b' = calls b @ [plan] \<and> marks b' = marks b \<and> (good b \<longrightarrow> good b')"
    and perform_raises: "perform plan b = (Inl e, b') \<Longrightarrow> is_boundary_error e \<and> b' = b"
    and reconcile_returns: "reconcile b = (Inr s, b') \<Longrightarrow>
      calls b' = calls b \<and> marks b' = marks b \<and> (good b \<longrightarrow> good b' \<and> ok s)"
    and reconcile_raises: "reconcile b = (Inl e, b') \<Longrightarrow> is_boundary_error e \<and> b' = b"
begin

lemma perform_triple:
  "triple (\<lambda>b. good b \<and> P (calls b) (marks b)) (perform plan)
     (\<lambda>out b. good b \<and> (\<exists>cs. calls b = cs @ [plan] \<and> P cs (marks b)))
     (\<lambda>e b. is_boundary_error e \<and> good b \<and> P (calls b) (marks b))"
  by (rule tripleI) (use perform_returns perform_raises in fastforce)+

lemma reconcile_triple:
  "triple (\<lambda>b. good b \<and> P (calls b) (marks b)) reconcile
     (\<lambda>s b. ok s \<and> good b \<and> P (calls b) (marks b))
     (\<lambda>e b. is_boundary_error e \<and> good b \<and> P (calls b) (marks b))"
  by (rule tripleI) (use reconcile_returns reconcile_raises in fastforce)+

end

text \<open>The counters and flags of real broker activity.\<close>

definition b_marks :: "v4_broker \<Rightarrow> bool \<times> int \<times> bool \<times> bool \<times> bool" where
  "b_marks b = (b_fake_only b, b_actual_post_count b, b_write_performed b, b_credential_read b,
     b_network_access b)"

definition b_good :: "v4_broker \<Rightarrow> bool" where
  "b_good b \<longleftrightarrow> (\<forall>s \<in> set (b_snapshots b). snapshot_ok s)"

interpretation v4b: synthetic_broker perform_once_synthetic reconcile_synthetic b_calls b_marks
  b_good snapshot_ok
  by unfold_locales
     (auto simp: b_good_def perform_once_synthetic_def reconcile_synthetic_def fake_perform_def
       fake_reconcile_def refusing_perform_def refusing_reconcile_def run_progs is_boundary_error_def
       b_marks_def split: if_splits option.splits list.splits)

text \<open>\<open>H11V4GmoNoPostEngine.__init__\<close>: the checks of the broker.\<close>

definition v4_broker_accepted :: "v4_broker \<Rightarrow> unit result" where
  "v4_broker_accepted b = (if \<not> b_fake_only b \<or> b_actual_post_count b \<noteq> 0 \<or> b_write_performed b
       \<or> b_credential_read b \<or> b_network_access b
     then Inl (V4GmoBoundaryError ''V4_GMO_NON_FAKE_BOUNDARY_REFUSED'') else Inr ())"

end
