(* ===== verification/V4_Engine.thy ===== *)
theory V4_Engine
  imports V4_Broker
begin

text \<open>
  \<open>backend/app/h11_auto/v4_gmo_engine.py\<close>: the coordinator \<open>H11V4GmoNoPostEngine\<close>.

  Every method is a program over the world of one engine object: the store's database, the
  broker, the clock and, as environment, the number of calls after which the process is stopped.
  A stop can hit before every call of the store that writes, every call of the broker and every
  reading of the clock, so the states a crash leaves behind are those of the theorems.
\<close>

section \<open>The world of an engine\<close>

text \<open>
  The clock is any object with \<open>now_utc\<close>: its answers are a stream of Python values.
  \<open>w_interrupt\<close> is the number of calls the process still makes, \<open>None\<close> for no stop.
\<close>

record v4_world =
  w_store :: v4_db
  w_broker :: v4_broker
  w_clock :: "(nat \<Rightarrow> pyval) option"
  w_ticks :: nat
  w_interrupt :: "nat option"

definition checkpoint :: "(v4_world, unit) prog" where
  "checkpoint = (\<lambda>w. case w_interrupt w of
       None \<Rightarrow> (Inr (), w)
     | Some 0 \<Rightarrow> (Inl KeyboardInterrupt, w)
     | Some (Suc n) \<Rightarrow> (Inr (), w\<lparr>w_interrupt := Some n\<rparr>))"

definition on_store :: "(v4_db, 'a) prog \<Rightarrow> (v4_world, 'a) prog" where
  "on_store m = thenE checkpoint (zoomE w_store (\<lambda>s w. w\<lparr>w_store := s\<rparr>) m)"

definition on_broker :: "(v4_broker, 'a) prog \<Rightarrow> (v4_world, 'a) prog" where
  "on_broker m = thenE checkpoint (zoomE w_broker (\<lambda>b w. w\<lparr>w_broker := b\<rparr>) m)"

section \<open>Results\<close>

datatype v4_cycle_status =
    NO_ACTION_STAY
  | BLOCKED_SAFE
  | POSITION_PROTECTED_SYNTHETIC
  | FLAT_RECONCILED_SYNTHETIC
  | STATUS_HALTED_OPERATOR_REVIEW_REQUIRED

record v4_cycle_result =
  r_status :: v4_cycle_status
  r_final_state :: "v4_state option"
  r_cycle_ref :: "string option"
  r_blocked_reasons :: "string list"
  r_action_attempt_count :: int
  r_market_entry_attempt_count :: int
  r_cancel_attempt_count :: int
  r_protection_attempt_count :: int
  r_protection_cancel_attempt_count :: int
  r_emergency_exit_attempt_count :: int
  r_filled_size :: int
  r_protected_size :: int
  r_actual_post_count :: int
  r_broker_write_performed :: bool
  r_credential_read_performed :: bool
  r_network_access_performed :: bool

definition v4_empty_result :: "v4_cycle_status \<Rightarrow> string list \<Rightarrow> v4_cycle_result" where
  "v4_empty_result status reasons = \<lparr>r_status = status, r_final_state = None, r_cycle_ref = None,
     r_blocked_reasons = reasons, r_action_attempt_count = 0, r_market_entry_attempt_count = 0,
     r_cancel_attempt_count = 0, r_protection_attempt_count = 0,
     r_protection_cancel_attempt_count = 0, r_emergency_exit_attempt_count = 0,
     r_filled_size = 0, r_protected_size = 0, r_actual_post_count = 0,
     r_broker_write_performed = False, r_credential_read_performed = False,
     r_network_access_performed = False\<rparr>"

definition v4_result ::
    "v4_cycle_status \<Rightarrow> v4_cycle \<Rightarrow> string list \<Rightarrow> (v4_world, v4_cycle_result) prog" where
  "v4_result status cycle reasons = getE (\<lambda>w.
     let attempted = (\<lambda>action. if v4_action_attempted (c_ref cycle) action (w_store w) then 1 else 0 :: int)
     in \<lparr>r_status = status, r_final_state = Some (c_state cycle), r_cycle_ref = Some (c_ref cycle),
         r_blocked_reasons = reasons,
         r_action_attempt_count = sum_list (map attempted v4_all_actions),
         r_market_entry_attempt_count = attempted MARKET_ENTRY,
         r_cancel_attempt_count = attempted CANCEL_ENTRY_REMAINDER,
         r_protection_attempt_count = attempted EXACT_SIZE_OCO_PROTECTION,
         r_protection_cancel_attempt_count = attempted CANCEL_MISMATCHED_PROTECTION,
         r_emergency_exit_attempt_count = attempted POSITION_SPECIFIC_EMERGENCY_EXIT,
         r_filled_size = c_filled_size cycle, r_protected_size = c_protected_size cycle,
         r_actual_post_count = b_actual_post_count (w_broker w),
         r_broker_write_performed = b_write_performed (w_broker w),
         r_credential_read_performed = b_credential_read (w_broker w),
         r_network_access_performed = b_network_access (w_broker w)\<rparr>)"

section \<open>Helpers\<close>

definition v4_move :: "string \<Rightarrow> v4_state \<Rightarrow> string \<Rightarrow> datetime \<Rightarrow> (v4_world, v4_cycle) prog" where
  "v4_move ref target category now = on_store (v4_transition ref target category now None None None None)"

definition v4_halt :: "v4_cycle \<Rightarrow> string \<Rightarrow> datetime \<Rightarrow> (v4_world, v4_cycle_result) prog" where
  "v4_halt cycle reason now =
     bindE (on_store (v4_transition (c_ref cycle) HALTED_OPERATOR_REVIEW_REQUIRED
        ''HALTED_OPERATOR_REVIEW_REQUIRED'' now None None None (Some reason))) (\<lambda>halted.
     v4_result STATUS_HALTED_OPERATOR_REVIEW_REQUIRED halted [reason])"

definition v4_now :: "datetime \<Rightarrow> (v4_world, datetime) prog" where
  "v4_now fallback =
     bindE (thenE checkpoint (\<lambda>w. case w_clock w of
         None \<Rightarrow> (Inr (PyDatetime fallback), w)
       | Some clock \<Rightarrow> (Inr (clock (w_ticks w)), w\<lparr>w_ticks := Suc (w_ticks w)\<rparr>))) (\<lambda>value.
     case as_datetime value of
       Some t \<Rightarrow> thenE (guardE (dt_aware t) (V4GmoBoundaryError ''V4_GMO_CLOCK_INVALID'')) (returnE t)
     | None \<Rightarrow> raiseE (V4GmoBoundaryError ''V4_GMO_CLOCK_INVALID''))"

definition v4_read_snapshot_or_none :: "(v4_world, v4_snapshot option) prog" where
  "v4_read_snapshot_or_none =
     try_exceptE (on_broker reconcile_synthetic) is_boundary_error (returnE None)
       (\<lambda>s. returnE (Some s))"

definition v4_flat_snapshot_blocked_reasons :: "v4_snapshot \<Rightarrow> string list" where
  "v4_flat_snapshot_blocked_reasons s = failed_reasons [
     (sn_fresh s, ''BROKER_SNAPSHOT_STALE''),
     (sn_result_known s, ''BROKER_RESULT_UNKNOWN''),
     (sn_position_count s = 0, ''POSITION_NOT_FLAT''),
     (sn_filled_size s = 0, ''FILL_STATE_NOT_FLAT''),
     (sn_pending_entry_size s = 0, ''PENDING_ENTRY_EXISTS''),
     (sn_protection_size s = 0, ''PROTECTION_ORDER_EXISTS''),
     (sn_protection_status s = PROT_NONE, ''PROTECTION_STATE_NOT_CLEAR'')]"

definition v4_entry_snapshot_invalid_reason :: "v4_snapshot \<Rightarrow> v4_cycle \<Rightarrow> string option" where
  "v4_entry_snapshot_invalid_reason s c =
    (if 1 < sn_position_count s then Some ''MULTIPLE_POSITIONS_DETECTED''
     else if 0 < sn_protection_size s \<or> sn_protection_status s \<noteq> PROT_NONE
     then Some ''UNEXPECTED_PROTECTION_DURING_ENTRY_RECONCILIATION''
     else if c_requested_size c < sn_filled_size s then Some ''FILLED_SIZE_EXCEEDS_INTENT''
     else if c_requested_size c < sn_pending_entry_size s then Some ''PENDING_SIZE_EXCEEDS_INTENT''
     else if c_requested_size c < sn_filled_size s + sn_pending_entry_size s
     then Some ''ENTRY_TOTAL_SIZE_EXCEEDS_INTENT''
     else if sn_position_count s = 1 then
       (if sn_position_side s \<noteq> Some (c_side c) then Some ''POSITION_SIDE_MISMATCH''
        else if sn_filled_size s \<le> 0 then Some ''POSITION_WITHOUT_RECONCILED_FILL''
        else None)
     else if 0 < sn_filled_size s then Some ''FILL_WITHOUT_POSITION''
     else None)"

text \<open>The conditions several methods write out.\<close>

definition v4_unusable :: "v4_snapshot option \<Rightarrow> bool" where
  "v4_unusable x = (case x of None \<Rightarrow> True | Some s \<Rightarrow> \<not> sn_fresh s \<or> \<not> sn_result_known s)"

definition v4_found_flat :: "v4_snapshot \<Rightarrow> bool" where
  "v4_found_flat s \<longleftrightarrow> sn_position_count s = 0 \<and> sn_pending_entry_size s = 0
     \<and> sn_protection_size s = 0 \<and> sn_protection_status s = PROT_NONE"

definition v4_exact :: "v4_snapshot \<Rightarrow> v4_cycle \<Rightarrow> bool" where
  "v4_exact s c \<longleftrightarrow> sn_position_count s = 1 \<and> sn_position_side s = Some (c_side c)
     \<and> sn_filled_size s = c_filled_size c \<and> sn_pending_entry_size s = 0
     \<and> sn_protection_status s = PROT_EXACT_MATCH \<and> sn_protection_size s = c_filled_size c"

section \<open>Emergency exit\<close>

definition v4_reconcile_emergency_exit ::
    "v4_cycle \<Rightarrow> datetime \<Rightarrow> (v4_world, v4_cycle_result) prog" where
  "v4_reconcile_emergency_exit cycle now =
     bindE v4_read_snapshot_or_none (\<lambda>snapshot.
     if \<not> v4_unusable snapshot \<and> v4_found_flat (the snapshot)
     then bindE (on_store (v4_transition (c_ref cycle) FLAT_RECONCILED ''EMERGENCY_EXIT_FLAT_CONFIRMED''
            now (Some 0) (Some 0) None None)) (\<lambda>flat.
          v4_result FLAT_RECONCILED_SYNTHETIC flat [])
     else v4_halt cycle ''EMERGENCY_EXIT_RESULT_UNKNOWN_OR_NOT_FLAT'' now)"

definition v4_attempt_emergency_exit ::
    "v4_cycle \<Rightarrow> v4_policy \<Rightarrow> datetime \<Rightarrow> (v4_world, v4_cycle_result) prog" where
  "v4_attempt_emergency_exit cycle policy now =
    (let sz = c_filled_size cycle in
     if sz \<le> 0 then v4_halt cycle ''EMERGENCY_EXIT_SIZE_UNKNOWN'' now
     else bindE (liftE (build_v4_action_plan (c_ref cycle) POSITION_SPECIFIC_EMERGENCY_EXIT
            (c_side cycle) sz (v_protection_contract_hash policy))) (\<lambda>plan.
          bindE (on_store (v4_record_action_attempt (c_ref cycle) POSITION_SPECIFIC_EMERGENCY_EXIT
            EMERGENCY_EXIT_ATTEMPTED now)) (\<lambda>cycle.
          try_exceptE (on_broker (perform_once_synthetic plan)) is_boundary_error
            (v4_halt cycle ''EMERGENCY_EXIT_BOUNDARY_REFUSED'' now) (\<lambda>outcome.
          thenE (on_store (v4_record_action_outcome (c_ref cycle) POSITION_SPECIFIC_EMERGENCY_EXIT
            (outcome_value outcome)))
          (v4_reconcile_emergency_exit cycle now)))))"

definition v4_start_emergency_exit ::
    "v4_cycle \<Rightarrow> v4_policy \<Rightarrow> string \<Rightarrow> datetime \<Rightarrow> (v4_world, v4_cycle_result) prog" where
  "v4_start_emergency_exit cycle policy reason now =
     bindE (v4_move (c_ref cycle) EMERGENCY_EXIT_INTENT_PERSISTED reason now) (\<lambda>cycle.
     v4_attempt_emergency_exit cycle policy now)"

section \<open>Protection cancel\<close>

definition v4_reconcile_cancelled_protection ::
    "v4_cycle \<Rightarrow> v4_policy \<Rightarrow> datetime \<Rightarrow> (v4_world, v4_cycle_result) prog" where
  "v4_reconcile_cancelled_protection cycle policy now =
     bindE v4_read_snapshot_or_none (\<lambda>x.
     if v4_unusable x then v4_halt cycle ''PROTECTION_CANCEL_RECONCILIATION_UNKNOWN'' now
     else let snapshot = the x in
     if v4_found_flat snapshot
     then bindE (on_store (v4_transition (c_ref cycle) FLAT_RECONCILED ''PROTECTION_CANCEL_FOUND_FLAT''
            now (Some 0) (Some 0) None None)) (\<lambda>flat.
          v4_result FLAT_RECONCILED_SYNTHETIC flat [])
     else if \<not> (sn_position_count snapshot = 1 \<and> sn_position_side snapshot = Some (c_side cycle)
          \<and> sn_filled_size snapshot = c_filled_size cycle \<and> sn_pending_entry_size snapshot = 0
          \<and> sn_protection_size snapshot = 0 \<and> sn_protection_status snapshot = PROT_NONE)
     then v4_halt cycle ''MISMATCHED_PROTECTION_PERSISTS_AFTER_CANCEL'' now
     else v4_start_emergency_exit cycle policy ''MISMATCHED_PROTECTION_REMOVED_EXIT_REQUIRED'' now)"

definition v4_attempt_cancel_protection ::
    "v4_cycle \<Rightarrow> v4_policy \<Rightarrow> int \<Rightarrow> datetime \<Rightarrow> (v4_world, v4_cycle_result) prog" where
  "v4_attempt_cancel_protection cycle policy protection_size now =
    (if protection_size \<le> 0 then v4_halt cycle ''MISMATCHED_PROTECTION_SIZE_UNKNOWN'' now
     else bindE (liftE (build_v4_action_plan (c_ref cycle) CANCEL_MISMATCHED_PROTECTION
            (c_side cycle) protection_size (v_protection_contract_hash policy))) (\<lambda>plan.
          bindE (on_store (v4_record_action_attempt (c_ref cycle) CANCEL_MISMATCHED_PROTECTION
            PROTECTION_CANCEL_ATTEMPTED now)) (\<lambda>cycle.
          try_exceptE (on_broker (perform_once_synthetic plan)) is_boundary_error
            (v4_halt cycle ''PROTECTION_CANCEL_BOUNDARY_REFUSED'' now) (\<lambda>outcome.
          thenE (on_store (v4_record_action_outcome (c_ref cycle) CANCEL_MISMATCHED_PROTECTION
            (outcome_value outcome)))
          (bindE (v4_move (c_ref cycle) PROTECTION_CANCEL_RECONCILING ''PROTECTION_CANCEL_RECONCILING''
            now) (\<lambda>cycle.
          v4_reconcile_cancelled_protection cycle policy now))))))"

section \<open>Protection\<close>

definition v4_reconcile_protection ::
    "v4_cycle \<Rightarrow> v4_policy \<Rightarrow> datetime \<Rightarrow> (v4_world, v4_cycle_result) prog" where
  "v4_reconcile_protection cycle policy now =
     bindE v4_read_snapshot_or_none (\<lambda>x.
     if v4_unusable x then v4_halt cycle ''PROTECTION_RECONCILIATION_UNKNOWN'' now
     else let snapshot = the x in
     if v4_found_flat snapshot
     then bindE (on_store (v4_transition (c_ref cycle) FLAT_RECONCILED ''POSITION_ALREADY_FLAT''
            now (Some 0) (Some 0) None None)) (\<lambda>flat.
          v4_result FLAT_RECONCILED_SYNTHETIC flat [])
     else if sn_position_count snapshot = 0 then
       (if 0 < sn_protection_size snapshot
        then bindE (on_store (v4_transition (c_ref cycle) PROTECTION_CANCEL_INTENT_PERSISTED
               ''ORPHAN_PROTECTION_CANCEL_INTENT_PERSISTED'' now None
               (Some (sn_protection_size snapshot)) None None)) (\<lambda>cycle.
             v4_attempt_cancel_protection cycle policy (sn_protection_size snapshot) now)
        else v4_halt cycle ''FLAT_WITH_UNKNOWN_PROTECTION_STATE'' now)
     else if 1 < sn_position_count snapshot
     then v4_halt cycle ''MULTIPLE_POSITIONS_DETECTED_DURING_PROTECTION'' now
     else if sn_position_side snapshot \<noteq> Some (c_side cycle)
     then v4_halt cycle ''POSITION_SIDE_MISMATCH_DURING_PROTECTION'' now
     else if v4_exact snapshot cycle then
       bindE (v4_now now) (\<lambda>confirmation_time.
       case c_unprotected_since cycle of
         None \<Rightarrow> v4_halt cycle ''UNPROTECTED_START_TIME_MISSING_AT_CONFIRMATION'' confirmation_time
       | Some unprotected_since \<Rightarrow>
           bindE (liftE (dt_sub confirmation_time unprotected_since)) (\<lambda>elapsed.
           if elapsed < 0
           then v4_halt cycle ''CLOCK_MOVED_BACKWARD_AT_PROTECTION_CONFIRMATION'' confirmation_time
           else if v_max_unprotected_seconds policy * us_per_second < elapsed
           then v4_halt cycle ''PROTECTION_CONFIRMED_AFTER_DEADLINE'' confirmation_time
           else bindE (on_store (v4_transition (c_ref cycle) POSITION_PROTECTED
                  ''EXACT_SIZE_PROTECTION_CONFIRMED'' confirmation_time
                  (Some (sn_filled_size snapshot)) (Some (sn_protection_size snapshot)) None None))
                (\<lambda>protected. v4_result POSITION_PROTECTED_SYNTHETIC protected [])))
     else if 0 < sn_protection_size snapshot \<or> sn_protection_status snapshot \<in>
            {PROT_UNDERSIZED, PROT_OVERSIZED, PROT_EXACT_MATCH}
     then bindE (on_store (v4_transition (c_ref cycle) PROTECTION_CANCEL_INTENT_PERSISTED
            ''MISMATCHED_PROTECTION_CANCEL_INTENT_PERSISTED'' now None
            (Some (sn_protection_size snapshot)) None None)) (\<lambda>cycle.
          v4_attempt_cancel_protection cycle policy (sn_protection_size snapshot) now)
     else v4_start_emergency_exit cycle policy ''PROTECTION_NOT_EXACT'' now)"

definition v4_attempt_protection ::
    "v4_cycle \<Rightarrow> v4_policy \<Rightarrow> datetime \<Rightarrow> (v4_world, v4_cycle_result) prog" where
  "v4_attempt_protection cycle policy now =
     bindE (liftE (build_v4_action_plan (c_ref cycle) EXACT_SIZE_OCO_PROTECTION (c_side cycle)
       (c_filled_size cycle) (v_protection_contract_hash policy))) (\<lambda>plan.
     bindE (on_store (v4_record_action_attempt (c_ref cycle) EXACT_SIZE_OCO_PROTECTION
       PROTECTION_ATTEMPTED now)) (\<lambda>cycle.
     try_exceptE (on_broker (perform_once_synthetic plan)) is_boundary_error
       (v4_halt cycle ''PROTECTION_BOUNDARY_REFUSED'' now) (\<lambda>outcome.
     thenE (on_store (v4_record_action_outcome (c_ref cycle) EXACT_SIZE_OCO_PROTECTION
       (outcome_value outcome)))
     (bindE (v4_move (c_ref cycle) PROTECTION_RECONCILING ''PROTECTION_RECONCILING'' now) (\<lambda>cycle.
      v4_reconcile_protection cycle policy now)))))"

definition v4_ensure_protection ::
    "v4_cycle \<Rightarrow> v4_policy \<Rightarrow> datetime \<Rightarrow> (v4_world, v4_cycle_result) prog" where
  "v4_ensure_protection cycle policy now =
     bindE (v4_now now) (\<lambda>current_time.
     case c_unprotected_since cycle of
       None \<Rightarrow> v4_halt cycle ''UNPROTECTED_START_TIME_MISSING'' current_time
     | Some unprotected_since \<Rightarrow>
         bindE (liftE (dt_sub current_time unprotected_since)) (\<lambda>elapsed.
         if elapsed < 0 then v4_halt cycle ''CLOCK_MOVED_BACKWARD'' current_time
         else if v_max_unprotected_seconds policy * us_per_second < elapsed
         then v4_start_emergency_exit cycle policy ''UNPROTECTED_WINDOW_EXCEEDED'' current_time
         else bindE (v4_move (c_ref cycle) PROTECTION_INTENT_PERSISTED ''PROTECTION_INTENT_PERSISTED''
                current_time) (\<lambda>cycle.
              v4_attempt_protection cycle policy current_time)))"

section \<open>Entry\<close>

text \<open>
  \<open>_reconcile_entry\<close> and \<open>_attempt_cancel_remainder\<close> call each other.  The fuel counts the
  calls of \<open>_reconcile_entry\<close>; two are enough, since the second one finds the cancel attempted.
\<close>

fun v4_reconcile_entry ::
    "nat \<Rightarrow> v4_cycle \<Rightarrow> v4_policy \<Rightarrow> datetime \<Rightarrow> (v4_world, v4_cycle_result) prog"
and v4_attempt_cancel_remainder ::
    "nat \<Rightarrow> v4_cycle \<Rightarrow> v4_policy \<Rightarrow> v4_snapshot \<Rightarrow> datetime \<Rightarrow> (v4_world, v4_cycle_result) prog" where
  "v4_reconcile_entry 0 cycle policy now = raiseE FuelExhausted"
| "v4_reconcile_entry (Suc fuel) cycle policy now =
     bindE v4_read_snapshot_or_none (\<lambda>x.
     if v4_unusable x then v4_halt cycle ''ENTRY_RECONCILIATION_UNKNOWN'' now
     else let snapshot = the x in
     case v4_entry_snapshot_invalid_reason snapshot cycle of
       Some reason \<Rightarrow> v4_halt cycle reason now
     | None \<Rightarrow>
         if 0 < sn_pending_entry_size snapshot then
           bindE (getE (\<lambda>w. v4_action_attempted (c_ref cycle) CANCEL_ENTRY_REMAINDER (w_store w)))
             (\<lambda>attempted.
             if attempted then v4_halt cycle ''ENTRY_REMAINDER_PERSISTS_AFTER_CANCEL'' now
             else v4_attempt_cancel_remainder fuel cycle policy snapshot now)
         else if sn_position_count snapshot = 0 \<and> sn_filled_size snapshot = 0 then
           bindE (v4_move (c_ref cycle) FLAT_RECONCILED ''ENTRY_REJECTED_OR_UNFILLED_FLAT'' now)
             (\<lambda>flat. v4_result FLAT_RECONCILED_SYNTHETIC flat [])
         else
           bindE (on_store (v4_transition (c_ref cycle) ENTRY_FILLED_UNPROTECTED
             ''ENTRY_FILLED_UNPROTECTED'' now (Some (sn_filled_size snapshot))
             (Some (sn_protection_size snapshot)) (Some now) None)) (\<lambda>filled.
           v4_ensure_protection filled policy now))"
| "v4_attempt_cancel_remainder fuel cycle policy snapshot now =
     bindE (liftE (build_v4_action_plan (c_ref cycle) CANCEL_ENTRY_REMAINDER (c_side cycle)
       (sn_pending_entry_size snapshot) (v_protection_contract_hash policy))) (\<lambda>plan.
     bindE (on_store (v4_record_action_attempt (c_ref cycle) CANCEL_ENTRY_REMAINDER
       REMAINDER_CANCEL_ATTEMPTED now)) (\<lambda>cycle.
     try_exceptE (on_broker (perform_once_synthetic plan)) is_boundary_error
       (v4_halt cycle ''CANCEL_REMAINDER_BOUNDARY_REFUSED'' now) (\<lambda>outcome.
     thenE (on_store (v4_record_action_outcome (c_ref cycle) CANCEL_ENTRY_REMAINDER
       (outcome_value outcome)))
     (bindE (v4_move (c_ref cycle) ENTRY_RECONCILING ''CANCEL_REMAINDER_RECONCILING'' now) (\<lambda>cycle.
      v4_reconcile_entry fuel cycle policy now)))))"

definition entry_fuel :: nat where
  "entry_fuel = 2"

definition v4_attempt_market_entry ::
    "v4_cycle \<Rightarrow> v4_policy \<Rightarrow> datetime \<Rightarrow> (v4_world, v4_cycle_result) prog" where
  "v4_attempt_market_entry cycle policy now =
     bindE (liftE (build_v4_action_plan (c_ref cycle) MARKET_ENTRY (c_side cycle)
       (c_requested_size cycle) (v_protection_contract_hash policy))) (\<lambda>plan.
     bindE (v4_now now) (\<lambda>action_time.
     bindE (on_store (v4_record_action_attempt (c_ref cycle) MARKET_ENTRY MARKET_ENTRY_ATTEMPTED
       action_time)) (\<lambda>cycle.
     try_exceptE (on_broker (perform_once_synthetic plan)) is_boundary_error
       (v4_halt cycle ''MARKET_ENTRY_BOUNDARY_REFUSED'' now) (\<lambda>outcome.
     thenE (on_store (v4_record_action_outcome (c_ref cycle) MARKET_ENTRY (outcome_value outcome)))
     (bindE (v4_now now) (\<lambda>reconcile_time.
      bindE (v4_move (c_ref cycle) ENTRY_RECONCILING ''ENTRY_RECONCILING'' reconcile_time) (\<lambda>cycle.
      v4_reconcile_entry entry_fuel cycle policy reconcile_time)))))))"

section \<open>The two entry points\<close>

definition v4_run_signal_once_synthetic ::
    "formal_signal \<Rightarrow> v4_policy \<Rightarrow> v4_preflight \<Rightarrow> datetime \<Rightarrow> (v4_world, v4_cycle_result) prog" where
  "v4_run_signal_once_synthetic signal policy preflight now =
     bindE (liftE (if \<not> dt_aware now then Inr True
        else if \<not> dt_comparable now (s_valid_until signal) then Inl PyTypeError
        else Inr (dt_leq (s_valid_until signal) now))) (\<lambda>expired.
     let reasons = preflight_blocked_reasons preflight
           @ (if expired then [''SIGNAL_EXPIRED_OR_CLOCK_INVALID''] else [])
     in if s_decision signal = STAY then
          let reasons = reasons
                @ (if s_strategy_version signal \<noteq> v_strategy_version policy
                      \<or> s_config_hash signal \<noteq> v_signal_config_hash policy
                      \<or> s_horizon signal \<noteq> v_horizon policy
                   then [''SIGNAL_POLICY_MISMATCH''] else [])
          in if reasons \<noteq> [] then returnE (v4_empty_result BLOCKED_SAFE reasons)
             else returnE (v4_empty_result NO_ACTION_STAY [])
        else
          let reasons = reasons
                @ (if \<not> v4_accepts policy signal then [''SIGNAL_POLICY_MISMATCH''] else [])
          in bindE (getE (\<lambda>w. v4_active_cycle_count (w_store w))) (\<lambda>active.
             bindE (getE (\<lambda>w. v4_halt_latched (w_store w))) (\<lambda>halted.
             let reasons = reasons @ (if active \<noteq> 0 then [''ACTIVE_V4_CYCLE_EXISTS''] else [])
                   @ (if halted then [''OPERATOR_HALT_LATCHED''] else [])
             in if reasons \<noteq> [] then returnE (v4_empty_result BLOCKED_SAFE reasons)
                else bindE (on_store (v4_create_cycle signal policy now)) (\<lambda>cycle.
                  v4_attempt_market_entry cycle policy now))))"

definition v4_reconcile_existing_protected_position ::
    "v4_cycle \<Rightarrow> v4_policy \<Rightarrow> datetime \<Rightarrow> (v4_world, v4_cycle_result) prog" where
  "v4_reconcile_existing_protected_position cycle policy now =
     bindE v4_read_snapshot_or_none (\<lambda>x.
     if v4_unusable x then v4_halt cycle ''PROTECTED_POSITION_RECONCILIATION_UNKNOWN'' now
     else let snapshot = the x in
     if v4_flat_snapshot_blocked_reasons snapshot = []
     then bindE (on_store (v4_transition (c_ref cycle) FLAT_RECONCILED ''PROTECTED_POSITION_FOUND_FLAT''
            now (Some 0) (Some 0) None None)) (\<lambda>flat.
          v4_result FLAT_RECONCILED_SYNTHETIC flat [])
     else if v4_exact snapshot cycle then v4_result POSITION_PROTECTED_SYNTHETIC cycle []
     else if sn_position_count snapshot \<noteq> 1
     then v4_halt cycle ''PROTECTED_POSITION_COUNT_MISMATCH'' now
     else if sn_position_side snapshot \<noteq> Some (c_side cycle)
     then v4_halt cycle ''PROTECTED_POSITION_SIDE_MISMATCH'' now
     else if sn_filled_size snapshot \<noteq> c_filled_size cycle \<or> sn_pending_entry_size snapshot \<noteq> 0
     then v4_halt cycle ''PROTECTED_POSITION_SIZE_MISMATCH'' now
     else if 0 < sn_protection_size snapshot
     then bindE (on_store (v4_transition (c_ref cycle) PROTECTION_CANCEL_INTENT_PERSISTED
            ''RESTART_MISMATCHED_PROTECTION_CANCEL_INTENT'' now None
            (Some (sn_protection_size snapshot)) None None)) (\<lambda>cancelling.
          v4_attempt_cancel_protection cancelling policy (sn_protection_size snapshot) now)
     else v4_start_emergency_exit cycle policy ''RESTART_PROTECTION_MISSING_EXIT_REQUIRED'' now)"

text \<open>The branches of \<open>resume_synthetic\<close> on the state of the loaded cycle.\<close>

definition v4_resume_cycle ::
    "string \<Rightarrow> v4_cycle \<Rightarrow> v4_policy \<Rightarrow> datetime \<Rightarrow> (v4_world, v4_cycle_result) prog" where
  "v4_resume_cycle ref cycle policy now =
    (case c_state cycle of
       ENTRY_INTENT_PERSISTED \<Rightarrow>
         bindE v4_read_snapshot_or_none (\<lambda>snapshot.
         if snapshot = None \<or> v4_flat_snapshot_blocked_reasons (the snapshot) \<noteq> []
         then v4_halt cycle ''RESTART_ENTRY_PREFLIGHT_NOT_FLAT_OR_UNKNOWN'' now
         else v4_attempt_market_entry cycle policy now)
     | MARKET_ENTRY_ATTEMPTED \<Rightarrow>
         bindE (v4_move ref ENTRY_RECONCILING ''RESTART_ENTRY_RECONCILING'' now) (\<lambda>cycle.
         v4_reconcile_entry entry_fuel cycle policy now)
     | REMAINDER_CANCEL_ATTEMPTED \<Rightarrow>
         bindE (v4_move ref ENTRY_RECONCILING ''RESTART_CANCEL_RECONCILING'' now) (\<lambda>cycle.
         v4_reconcile_entry entry_fuel cycle policy now)
     | ENTRY_RECONCILING \<Rightarrow> v4_reconcile_entry entry_fuel cycle policy now
     | ENTRY_FILLED_UNPROTECTED \<Rightarrow> v4_ensure_protection cycle policy now
     | PROTECTION_INTENT_PERSISTED \<Rightarrow> v4_attempt_protection cycle policy now
     | PROTECTION_ATTEMPTED \<Rightarrow>
         bindE (v4_move ref PROTECTION_RECONCILING ''RESTART_PROTECTION_RECONCILING'' now) (\<lambda>cycle.
         v4_reconcile_protection cycle policy now)
     | PROTECTION_RECONCILING \<Rightarrow> v4_reconcile_protection cycle policy now
     | PROTECTION_CANCEL_INTENT_PERSISTED \<Rightarrow>
         v4_attempt_cancel_protection cycle policy (c_protected_size cycle) now
     | PROTECTION_CANCEL_ATTEMPTED \<Rightarrow>
         bindE (v4_move ref PROTECTION_CANCEL_RECONCILING ''RESTART_PROTECTION_CANCEL_RECONCILING'' now)
           (\<lambda>cycle. v4_reconcile_cancelled_protection cycle policy now)
     | PROTECTION_CANCEL_RECONCILING \<Rightarrow> v4_reconcile_cancelled_protection cycle policy now
     | EMERGENCY_EXIT_INTENT_PERSISTED \<Rightarrow> v4_attempt_emergency_exit cycle policy now
     | EMERGENCY_EXIT_ATTEMPTED \<Rightarrow> v4_reconcile_emergency_exit cycle now
     | POSITION_PROTECTED \<Rightarrow> v4_reconcile_existing_protected_position cycle policy now
     | FLAT_RECONCILED \<Rightarrow> v4_result FLAT_RECONCILED_SYNTHETIC cycle []
     | _ \<Rightarrow> v4_result STATUS_HALTED_OPERATOR_REVIEW_REQUIRED cycle
            [case c_halt_reason cycle of None \<Rightarrow> ''OPERATOR_REVIEW_REQUIRED''
             | Some r \<Rightarrow> if r = [] then ''OPERATOR_REVIEW_REQUIRED'' else r])"

definition v4_resume_synthetic ::
    "string \<Rightarrow> v4_policy \<Rightarrow> datetime \<Rightarrow> (v4_world, v4_cycle_result) prog" where
  "v4_resume_synthetic ref policy now =
     bindE (on_store (v4_load_cycle ref)) (\<lambda>cycle.
     if c_config_hash cycle \<noteq> v4_config_hash policy
     then v4_halt cycle ''POLICY_CONFIG_HASH_MISMATCH'' now
     else v4_resume_cycle ref cycle policy now)"

text \<open>\<open>H11V4GmoNoPostEngine(store=..., broker=..., clock=...)\<close> on an existing store.\<close>

definition H11V4GmoNoPostEngine ::
    "v4_db \<Rightarrow> v4_broker option \<Rightarrow> (nat \<Rightarrow> pyval) option \<Rightarrow> nat option \<Rightarrow> v4_world result" where
  "H11V4GmoNoPostEngine store broker clock interrupt =
    (let b = (case broker of None \<Rightarrow> RefusingV4GmoBroker | Some b \<Rightarrow> b)
     in bindR (v4_broker_accepted b) (\<lambda>_.
        Inr \<lparr>w_store = store, w_broker = b, w_clock = clock, w_ticks = 0, w_interrupt = interrupt\<rparr>))"

end
