(* ===== verification/V4_Store_Run.thy ===== *)
theory V4_Store_Run
  imports V4_Journal
begin

text \<open>
  When the writers of the v4 store succeed, and what the rows of an action attempt say of the
  state of their cycle.
\<close>

section \<open>Success of the writers\<close>

lemma transition_run:
  assumes inv: "v4_store_inv db" and row: "v4_find ref db = Some row"
    and allowed: "target \<in> set (v4_allowed (c_state row))" and now: "dt_aware now"
    and cat: "v4_safe_label category" and halt: "case halt of None \<Rightarrow> True | Some r \<Rightarrow> v4_safe_label r"
    and filled: "case filled of None \<Rightarrow> True | Some n \<Rightarrow> 0 \<le> n"
    and prot: "case protected of None \<Rightarrow> True | Some n \<Rightarrow> 0 \<le> n"
    and since: "case since of None \<Rightarrow> True | Some d \<Rightarrow> dt_aware d"
  shows "v4_transition ref target category now filled protected since halt db =
    (Inr (v4_transition_row target now filled protected since halt row),
     v4_commit ref (v4_transition_row target now filled protected since halt) category target db)"
proof -
  let ?f = "v4_transition_row target now filled protected since halt"
  let ?db1 = "db\<lparr>db_cycles := update_rows (\<lambda>c. c_ref c = ref) ?f (db_cycles db)\<rparr>"
  have chain: "v4_chain (db_events ?db1)" using inv by (simp add: v4_store_inv_def)
  have found: "v4_find ref ?db1 = Some (?f row)"
    using v4_find_update [where f = ?f and a = ref and b = ref and db = db, OF transition_row_ref] row
    by simp
  have "v4_append_event ref category target ?db1 =
      (Inr (), ?db1\<lparr>db_events := db_events ?db1 @ [v4_next_event ?db1 ref category target]\<rparr>)"
    by (rule append_event_run [OF chain _ cat]) (use found in simp)
  moreover have "v4_next_event ?db1 ref category target = v4_next_event db ref category target"
    by (simp add: v4_next_event_def events_in_order_def)
  ultimately have app: "v4_append_event ref category target ?db1 = (Inr (), v4_commit ref ?f category target db)"
    by (simp add: v4_commit_def)
  have load: "v4_find ref (v4_commit ref ?f category target db) = Some (?f row)"
    using v4_find_commit [where f = ?f and a = ref and ref = ref and db = db, OF transition_row_ref] row
    by simp
  have g1: "(case halt of None \<Rightarrow> Inr () | Some r \<Rightarrow> v4_validate_safe_label r) = Inr ()"
    using halt by (cases halt) (simp_all add: v4_validate_safe_label_def)
  have g2: "(case since of None \<Rightarrow> Inr () | Some d \<Rightarrow> bindR (v4_timestamp d) (\<lambda>_. Inr ())) = Inr ()"
    using since by (cases since) (simp_all add: v4_timestamp_def)
  show ?thesis
    using app load row allowed now cat filled prot g1 g2
    by (simp add: v4_transition_def run_progs v4_validate_safe_label_def v4_timestamp_def
        v4_require_row_def v4_load_cycle_def require_v4_transition_def update_cycle_def)
qed

lemma attempt_run:
  assumes inv: "v4_store_inv db" and row: "v4_find ref db = Some row"
    and allowed: "target \<in> set (v4_allowed (c_state row))" and now: "dt_aware now"
    and target: "v4_attempt_state action = Some target" and none: "find_attempt ref action db = None"
  shows "v4_record_action_attempt ref action target now db =
    (Inr (v4_attempt_row action target now row),
     v4_commit ref (v4_attempt_row action target now) (action_value action @ ''_ATTEMPT_STARTED'') target
       (v4_add_attempt (v4_new_attempt ref action now) db))"
proof -
  let ?f = "v4_attempt_row action target now"
  let ?cat = "action_value action @ ''_ATTEMPT_STARTED''"
  let ?db0 = "v4_add_attempt (v4_new_attempt ref action now) db"
  let ?db1 = "?db0\<lparr>db_cycles := update_rows (\<lambda>c. c_ref c = ref) ?f (db_cycles ?db0)\<rparr>"
  have chain: "v4_chain (db_events ?db1)" using inv by (simp add: v4_store_inv_def)
  have found: "v4_find ref ?db1 = Some (?f row)"
    using v4_find_update [where f = ?f and a = ref and b = ref and db = ?db0, OF attempt_row_ref] row
    by simp
  have "v4_append_event ref ?cat target ?db1 =
      (Inr (), ?db1\<lparr>db_events := db_events ?db1 @ [v4_next_event ?db1 ref ?cat target]\<rparr>)"
    by (rule append_event_run [OF chain _ start_category_safe]) (use found in simp)
  moreover have "v4_next_event ?db1 ref ?cat target = v4_next_event ?db0 ref ?cat target"
    by (simp add: v4_next_event_def events_in_order_def)
  ultimately have app: "v4_append_event ref ?cat target ?db1 = (Inr (), v4_commit ref ?f ?cat target ?db0)"
    by (simp add: v4_commit_def)
  have load: "v4_find ref (v4_commit ref ?f ?cat target ?db0) = Some (?f row)"
    using v4_find_commit [where f = ?f and a = ref and ref = ref and db = ?db0, OF attempt_row_ref] row
    by simp
  have ins: "insert_attempt (v4_new_attempt ref action now) db = (Inr (), ?db0)"
    using none row by (auto simp: insert_attempt_def v4_new_attempt_def v4_add_attempt_def
        find_attempt_def select_one_None list_ex_iff)
  show ?thesis
    using app load ins row allowed now target
    by (simp add: v4_record_action_attempt_def run_progs v4_timestamp_def v4_require_row_def
        v4_load_cycle_def require_v4_transition_def update_cycle_def v4_new_attempt_def [symmetric])
qed

lemma count_rows_key:
  assumes "distinct (map k rows)"
  shows "count_rows (\<lambda>x. k x = a) rows \<le> 1"
proof -
  have "count_rows (\<lambda>x. k x = a) rows = count_list (map k rows) a"
    by (induction rows) (auto simp: count_rows_Cons)
  also have "\<dots> \<le> 1" using assms by (induction rows) (auto simp: count_list_0_iff)
  finally show ?thesis .
qed

lemma pending_count:
  assumes inv: "v4_store_inv db" and t: "find_attempt ref action db = Some t"
    and pending: "t_outcome t = ''ATTEMPT_STARTED''"
  shows "count_rows (v4_pending ref action) (db_attempts db) = 1"
proof -
  have keys: "distinct (map (\<lambda>t. (t_cycle_ref t, t_action t)) (db_attempts db))"
    using inv by (simp add: v4_store_inv_def inv_references_def)
  have tk: "t \<in> set (db_attempts db)" "t_cycle_ref t = ref" "t_action t = action"
    using t select_one_Some by (fastforce simp: find_attempt_def)+
  have "count_rows (\<lambda>x. (t_cycle_ref x, t_action x) = (ref, action)) (db_attempts db) \<le> 1"
    by (rule count_rows_key [OF keys])
  moreover have "count_rows (v4_pending ref action) (db_attempts db)
      \<le> count_rows (\<lambda>x. (t_cycle_ref x, t_action x) = (ref, action)) (db_attempts db)"
    by (rule count_rows_mono) (simp add: v4_pending_def)
  moreover have "count_rows (v4_pending ref action) (db_attempts db) \<noteq> 0"
    using tk pending by (auto simp: count_rows_zero v4_pending_def)
  ultimately show ?thesis by simp
qed

lemma outcome_run:
  assumes inv: "v4_store_inv db" and row: "v4_find ref db = Some row"
    and t: "find_attempt ref action db = Some t" "t_outcome t = ''ATTEMPT_STARTED''"
  shows "v4_record_action_outcome ref action (outcome_value out) db =
    (Inr (), v4_commit ref (\<lambda>c. c) (action_value action @ ''_'' @ outcome_value out) (c_state row)
       (v4_settle ref action (outcome_value out) db))"
proof -
  let ?cat = "action_value action @ ''_'' @ outcome_value out"
  let ?db0 = "v4_settle ref action (outcome_value out) db"
  have p: "(\<lambda>t. t_cycle_ref t = ref \<and> t_action t = action \<and> t_outcome t = ''ATTEMPT_STARTED'')
      = v4_pending ref action" by (rule ext) (simp add: v4_pending_def)
  have same: "update_rows (\<lambda>c. c_ref c = ref) (\<lambda>c. c) (db_cycles db) = db_cycles db"
    by (rule update_rows_id) simp
  have chain: "v4_chain (db_events ?db0)" using inv by (simp add: v4_store_inv_def)
  have find0: "v4_find ref ?db0 = Some row" using row by simp
  have app: "v4_append_event ref ?cat (c_state row) ?db0 = (Inr (), v4_commit ref (\<lambda>c. c) ?cat (c_state row) ?db0)"
    using append_event_run [OF chain _ outcome_category_safe] find0 same by (simp add: v4_commit_def)
  have safe: "v4_safe_label (outcome_value out)"
    by (cases out) (simp_all add: v4_safe_label_def upper_letters_def)
  have mem: "outcome_value out \<in> set (map outcome_value v4_all_outcomes)"
    by (cases out) (simp_all add: v4_all_outcomes_def)
  show ?thesis
    using app find0 pending_count [OF inv t] safe mem
    by (simp add: v4_record_action_outcome_def run_progs v4_require_row_def Let_def p
        v4_validate_safe_label_def v4_settle_def)
qed

section \<open>Attempts and states\<close>

text \<open>
  The states a cycle can be in once an action has been recorded: the state the record moves it
  to, and everything reachable from there.
\<close>

fun v4_after :: "v4_action \<Rightarrow> v4_state set" where
  "v4_after MARKET_ENTRY = - {ENTRY_INTENT_PERSISTED}"
| "v4_after CANCEL_ENTRY_REMAINDER = - {ENTRY_INTENT_PERSISTED, MARKET_ENTRY_ATTEMPTED}"
| "v4_after EXACT_SIZE_OCO_PROTECTION = {PROTECTION_ATTEMPTED, PROTECTION_RECONCILING,
     POSITION_PROTECTED, PROTECTION_CANCEL_INTENT_PERSISTED, PROTECTION_CANCEL_ATTEMPTED,
     PROTECTION_CANCEL_RECONCILING, EMERGENCY_EXIT_INTENT_PERSISTED, EMERGENCY_EXIT_ATTEMPTED,
     FLAT_RECONCILED, HALTED_OPERATOR_REVIEW_REQUIRED, OPERATOR_RELOAD_CLEARED}"
| "v4_after CANCEL_MISMATCHED_PROTECTION = {PROTECTION_CANCEL_ATTEMPTED,
     PROTECTION_CANCEL_RECONCILING, EMERGENCY_EXIT_INTENT_PERSISTED, EMERGENCY_EXIT_ATTEMPTED,
     FLAT_RECONCILED, HALTED_OPERATOR_REVIEW_REQUIRED, OPERATOR_RELOAD_CLEARED}"
| "v4_after POSITION_SPECIFIC_EMERGENCY_EXIT = {EMERGENCY_EXIT_ATTEMPTED,
     FLAT_RECONCILED, HALTED_OPERATOR_REVIEW_REQUIRED, OPERATOR_RELOAD_CLEARED}"
| "v4_after _ = {}"

lemma v4_after_closed: "s \<in> v4_after a \<Longrightarrow> t \<in> set (v4_allowed s) \<Longrightarrow> t \<in> v4_after a"
  by (cases a; cases s; auto)

lemma v4_after_start: "v4_attempt_state a = Some t \<Longrightarrow> t \<in> v4_after a"
  by (cases a) auto

definition after_inv :: "v4_db \<Rightarrow> bool" where
  "after_inv db \<longleftrightarrow> (\<forall>ref c a. v4_find ref db = Some c \<longrightarrow> find_attempt ref a db \<noteq> None
     \<longrightarrow> c_state c \<in> v4_after a)"

lemma after_invD:
  "after_inv db \<Longrightarrow> v4_find ref db = Some c \<Longrightarrow> c_state c \<notin> v4_after a \<Longrightarrow> find_attempt ref a db = None"
  unfolding after_inv_def by blast

lemma after_inv_commit:
  assumes "after_inv db" and "v4_find ref db = Some row" and "\<And>c. c_ref (f c) = c_ref c"
    and "\<And>a. c_state row \<in> v4_after a \<Longrightarrow> c_state (f row) \<in> v4_after a"
  shows "after_inv (v4_commit ref f cat st db)"
  using assms by (auto simp: after_inv_def v4_find_commit split: option.splits)

lemma after_transition:
  assumes "after_inv db" and "v4_transition ref target category now filled protected since halt db = (r, db')"
  shows "after_inv db'"
  using transition_cases [OF assms(2)] assms(1)
  by (auto intro!: after_inv_commit dest: v4_after_closed simp: transition_row_keeps)

lemma after_attempt:
  assumes inv: "after_inv db" and run: "v4_record_action_attempt ref action target now db = (r, db')"
  shows "after_inv db'"
proof (cases "\<exists>e. r = Inl e \<and> db' = db")
  case True
  with inv show ?thesis by auto
next
  case False
  then obtain row where row: "v4_find ref db = Some row" "target \<in> set (v4_allowed (c_state row))"
    and target: "v4_attempt_state action = Some target"
    and db': "db' = v4_commit ref (v4_attempt_row action target now) (action_value action @ ''_ATTEMPT_STARTED'')
           target (v4_add_attempt (v4_new_attempt ref action now) db)"
    using attempt_cases [OF run] by auto
  show ?thesis
    unfolding after_inv_def
  proof (intro allI impI)
    fix r c a assume c: "v4_find r db' = Some c" and a: "find_attempt r a db' \<noteq> None"
    have c': "v4_find r db' = (case v4_find r db of None \<Rightarrow> None
        | Some c \<Rightarrow> Some (if r = ref then v4_attempt_row action target now c else c))"
      unfolding db' by (subst v4_find_commit) (simp_all add: attempt_row_ref)
    show "c_state c \<in> v4_after a"
    proof (cases "r = ref")
      case True
      with c c' row have st: "c_state c = target" by (auto simp: attempt_row_keeps)
      show ?thesis
      proof (cases "find_attempt ref a db = None")
        case True
        with a \<open>r = ref\<close> have "a = action"
          unfolding db' by (auto simp: find_attempt_snoc v4_new_attempt_def split: if_splits)
        with st v4_after_start [OF target] show ?thesis by simp
      next
        case False
        with inv row(1) have "c_state row \<in> v4_after a" by (auto simp: after_inv_def)
        with st row(2) v4_after_closed show ?thesis by blast
      qed
    next
      case False
      then have "v4_find r db = Some c" using c c' by (auto split: option.splits)
      moreover have "find_attempt r a db \<noteq> None"
        using a False unfolding db' by (auto simp: find_attempt_snoc v4_new_attempt_def split: option.splits)
      ultimately show ?thesis using inv by (auto simp: after_inv_def)
    qed
  qed
qed

lemma after_outcome:
  assumes "after_inv db" and "v4_record_action_outcome ref action label db = (r, db')"
  shows "after_inv db'"
  using outcome_cases [OF assms(2)] assms(1)
  by (auto intro!: after_inv_commit) (auto simp: after_inv_def find_attempt_settle)

lemma after_metadata: "after_inv (db\<lparr>db_metadata := m\<rparr>) \<longleftrightarrow> after_inv db"
  by (simp add: after_inv_def v4_find_def find_attempt_def)

lemma create_find:
  "v4_find r (v4_add_cycle c db) = (case v4_find r db of None \<Rightarrow> if c_ref c = r then Some c else None
     | Some x \<Rightarrow> Some x)"
  by (simp add: v4_find_def v4_add_cycle_def select_one_append) (simp add: select_one_def split: option.splits)

lemma attempts_have_cycles:
  assumes "v4_store_inv db" and "find_attempt ref a db \<noteq> None"
  shows "v4_find ref db \<noteq> None"
proof -
  obtain t where "t \<in> set (db_attempts db)" "t_cycle_ref t = ref"
    using assms(2) select_one_Some by (fastforce simp: find_attempt_def)
  then have "ref \<in> c_ref ` set (db_cycles db)"
    using assms(1) by (auto simp: v4_store_inv_def inv_references_def)
  then show ?thesis by (auto simp: v4_find_def select_one_None)
qed

lemma find_attempt_add_cycle [simp]: "find_attempt ref a (v4_add_cycle c db) = find_attempt ref a db"
  by (simp add: find_attempt_def)

lemma after_create:
  assumes inv: "v4_store_inv db" "after_inv db" and run: "v4_create_cycle signal policy now db = (r, db')"
  shows "after_inv db'"
proof (cases "\<exists>e. r = Inl e \<and> db' = db")
  case True
  with inv show ?thesis by auto
next
  case False
  then obtain c where db': "db' = v4_add_cycle c db" using create_cases [OF run] by auto
  show ?thesis
    unfolding after_inv_def db' find_attempt_add_cycle
  proof (intro allI impI)
    fix ref x a assume x: "v4_find ref (v4_add_cycle c db) = Some x" and a: "find_attempt ref a db \<noteq> None"
    from attempts_have_cycles [OF inv(1) a] x have "v4_find ref db = Some x"
      by (auto simp: create_find)
    with a inv(2) show "c_state x \<in> v4_after a" by (auto simp: after_inv_def)
  qed
qed

end
