(* ===== verification/V4_Engine_Inv.thy ===== *)
theory V4_Engine_Inv
  imports V4_Engine V4_Store_Run
begin

text \<open>
  The invariant of the world of the v4 engine and, for every step of the engine, a triple that
  says which row the step leaves behind, that the invariant survives every exception, and which
  exceptions there are.
\<close>

section \<open>The invariant\<close>

definition v4_deadline_us :: int where
  "v4_deadline_us = 15 * us_per_second"

text \<open>What a row says in each state: sizes, the start of the unprotected window, the deadline.\<close>

definition v4_unfilled_states :: "v4_state set" where
  "v4_unfilled_states = {ENTRY_INTENT_PERSISTED, MARKET_ENTRY_ATTEMPTED, ENTRY_RECONCILING,
     REMAINDER_CANCEL_ATTEMPTED, FLAT_RECONCILED, OPERATOR_RELOAD_CLEARED}"

definition v4_row_inv :: "v4_cycle \<Rightarrow> bool" where
  "v4_row_inv c \<longleftrightarrow>
     (c_state c \<in> v4_unfilled_states \<longrightarrow> c_filled_size c = 0 \<and> c_protected_size c = 0)
     \<and> (c_state c \<notin> v4_unfilled_states \<longrightarrow> c_state c \<noteq> HALTED_OPERATOR_REVIEW_REQUIRED \<longrightarrow> 0 < c_filled_size c)
     \<and> c_filled_size c \<le> c_requested_size c
     \<and> (c_state c \<notin> {ENTRY_INTENT_PERSISTED, HALTED_OPERATOR_REVIEW_REQUIRED, OPERATOR_RELOAD_CLEARED}
         \<longrightarrow> c_unprotected_since c \<noteq> None)
     \<and> (c_state c = POSITION_PROTECTED \<longrightarrow> c_protected_size c = c_filled_size c
         \<and> (\<exists>d. c_unprotected_since c = Some d \<and> dt_utc d \<le> dt_utc (c_updated_at c)
             \<and> dt_utc (c_updated_at c) - dt_utc d \<le> v4_deadline_us))"

text \<open>
  What is known of the environment: whether the process is not stopped and the clock is sound,
  and the plans sent by earlier engines.
\<close>

type_synonym v4_env = "bool \<times> v4_plan list"

definition v4_sound_environment :: "v4_world \<Rightarrow> bool" where
  "v4_sound_environment w \<longleftrightarrow> w_interrupt w = None \<and> (case w_clock w of None \<Rightarrow> True
     | Some clock \<Rightarrow> \<forall>n. \<exists>t. clock n = PyDatetime t \<and> dt_aware t)"

text \<open>The plans handed to the brokers, those of earlier engines included.\<close>

definition plan_key :: "v4_plan \<Rightarrow> string \<times> v4_action" where
  "plan_key p = (pl_cycle_ref p, pl_action p)"

definition v4_plan_ok :: "v4_db \<Rightarrow> v4_plan \<Rightarrow> bool" where
  "v4_plan_ok db p \<longleftrightarrow> find_attempt (pl_cycle_ref p) (pl_action p) db \<noteq> None
     \<and> \<not> pl_actual_post_allowed p \<and> \<not> pl_credential_read_allowed p \<and> \<not> pl_network_access_allowed p
     \<and> (\<exists>c. v4_find (pl_cycle_ref p) db = Some c \<and> pl_side p = c_side c \<and> 0 < pl_requested_size p
         \<and> (pl_action p = MARKET_ENTRY \<longrightarrow> pl_requested_size p = c_requested_size c)
         \<and> (pl_action p \<noteq> CANCEL_MISMATCHED_PROTECTION \<longrightarrow> pl_requested_size p \<le> c_requested_size c))"

definition v4_calls_inv :: "v4_plan list \<Rightarrow> v4_db \<Rightarrow> bool" where
  "v4_calls_inv ps db \<longleftrightarrow> distinct (map plan_key ps) \<and> (\<forall>p \<in> set ps. v4_plan_ok db p)"

definition v4_world_inv :: "v4_env \<Rightarrow> v4_world \<Rightarrow> bool" where
  "v4_world_inv sent w \<longleftrightarrow> v4_reach (w_store w)
     \<and> (\<forall>c \<in> set (db_cycles (w_store w)). v4_row_inv c)
     \<and> v4_calls_inv (snd sent @ b_calls (w_broker w)) (w_store w)
     \<and> b_good (w_broker w) \<and> b_marks (w_broker w) = (True, 0, False, False, False)
     \<and> (fst sent \<longrightarrow> v4_sound_environment w)"

definition v4_holds :: "v4_env \<Rightarrow> v4_cycle \<Rightarrow> v4_world \<Rightarrow> bool" where
  "v4_holds sent c w \<longleftrightarrow> v4_world_inv sent w \<and> v4_find (c_ref c) (w_store w) = Some c"

text \<open>
  The exceptions an engine call can end with: none in a sound environment with an aware
  \<open>now_utc\<close>.
\<close>

definition v4_expected :: "bool \<Rightarrow> datetime \<Rightarrow> py_exn \<Rightarrow> bool" where
  "v4_expected sound now e \<longleftrightarrow>
     (\<not> sound \<and> (e = KeyboardInterrupt \<or> e = V4GmoBoundaryError ''V4_GMO_CLOCK_INVALID''))
     \<or> (\<not> dt_aware now \<and> (e = V4GmoPersistenceError ''v4 timestamp must be timezone-aware''
          \<or> e = V4GmoBoundaryError ''V4_GMO_CLOCK_INVALID''))"

abbreviation v4_exc :: "v4_env \<Rightarrow> datetime \<Rightarrow> py_exn \<Rightarrow> v4_world \<Rightarrow> bool" where
  "v4_exc sent now \<equiv> \<lambda>e w. v4_world_inv sent w \<and> v4_expected (fst sent) now e"

text \<open>Results and the row they report.\<close>

definition v4_result_ok :: "v4_cycle \<Rightarrow> v4_cycle_result \<Rightarrow> bool" where
  "v4_result_ok c r \<longleftrightarrow> r_cycle_ref r = Some (c_ref c) \<and> r_final_state r = Some (c_state c)
     \<and> r_filled_size r = c_filled_size c \<and> r_protected_size r = c_protected_size c
     \<and> r_actual_post_count r = 0 \<and> \<not> r_broker_write_performed r
     \<and> \<not> r_credential_read_performed r \<and> \<not> r_network_access_performed r
     \<and> (r_status r = POSITION_PROTECTED_SYNTHETIC \<and> c_state c = POSITION_PROTECTED
        \<or> r_status r = FLAT_RECONCILED_SYNTHETIC \<and> c_state c = FLAT_RECONCILED
        \<or> r_status r = STATUS_HALTED_OPERATOR_REVIEW_REQUIRED
          \<and> c_state c \<in> {HALTED_OPERATOR_REVIEW_REQUIRED, OPERATOR_RELOAD_CLEARED})"

definition v4_done :: "v4_env \<Rightarrow> string \<Rightarrow> v4_cycle_result \<Rightarrow> v4_world \<Rightarrow> bool" where
  "v4_done sent ref r w \<longleftrightarrow> (\<exists>c. c_ref c = ref \<and> v4_holds sent c w \<and> v4_result_ok c r)"

section \<open>The store part of the invariant\<close>

lemma reach_after: "v4_reach db \<Longrightarrow> after_inv db"
proof (induction rule: v4_reach.induct)
  case reach_empty
  then show ?case by (simp add: after_inv_def v4_find_def v4_empty_db_def select_one_def)
next
  case (reach_initialize db r db')
  then show ?case using metadata_writers(1) after_metadata by metis
next
  case (reach_engage db reason now r db')
  then show ?case using metadata_writers(2) after_metadata by metis
next
  case (reach_clear db phrase flat r db')
  then show ?case using metadata_writers(3) after_metadata by metis
next
  case (reach_bind db label policy rl rd dl dd b db')
  then show ?case using metadata_writers(4) after_metadata by metis
next
  case (reach_clear_cycle db ref phrase flat now c db')
  then show ?case
    by (auto simp: v4_clear_halted_cycle_no_post_def run_progs v4_load_cycle_def
        intro: after_transition split: if_splits option.splits prod.splits sum.splits)
qed (auto intro: after_create after_attempt after_outcome after_transition dest: reach_inv)

text \<open>A commit of one row keeps the rows, the plans and their attempts.\<close>

lemma commit_rows_inv:
  assumes "v4_store_inv db" and "\<forall>c \<in> set (db_cycles db). v4_row_inv c"
    and "v4_find ref db = Some row" and "v4_row_inv (f row)"
  shows "\<forall>c \<in> set (db_cycles (v4_commit ref f cat st db)). v4_row_inv c"
proof
  fix c assume "c \<in> set (db_cycles (v4_commit ref f cat st db))"
  then obtain c0 where c0: "c0 \<in> set (db_cycles db)" "c = (if c_ref c0 = ref then f c0 else c0)"
    by (auto simp: set_update_rows)
  have "c_ref c0 = ref \<Longrightarrow> c0 = row"
    using inv_cycles_find [OF _ assms(3) c0(1)] assms(1) by (simp add: v4_store_inv_def)
  with c0 assms show "v4_row_inv c" by auto
qed

lemma commit_plan_ok:
  assumes "v4_plan_ok db p" and "\<And>c. c_ref (f c) = c_ref c" and "\<And>c. c_side (f c) = c_side c"
    and "\<And>c. c_requested_size (f c) = c_requested_size c"
  shows "v4_plan_ok (v4_commit ref f cat st db) p"
  using assms by (auto simp: v4_plan_ok_def v4_find_commit)

lemma calls_inv_fresh:
  assumes "v4_calls_inv ps db" and "find_attempt ref a db = None"
  shows "(ref, a) \<notin> plan_key ` set ps"
proof
  assume "(ref, a) \<in> plan_key ` set ps"
  then obtain p where "p \<in> set ps" "pl_cycle_ref p = ref" "pl_action p = a"
    by (auto simp: plan_key_def)
  with assms show False by (auto simp: v4_calls_inv_def v4_plan_ok_def)
qed

lemma add_attempt_plan_ok: "v4_plan_ok db p \<Longrightarrow> v4_plan_ok (v4_add_attempt t db) p"
  by (auto simp: v4_plan_ok_def find_attempt_snoc split: option.splits)

lemma settle_plan_ok: "v4_plan_ok db p \<Longrightarrow> v4_plan_ok (v4_settle ref a l db) p"
  by (auto simp: v4_plan_ok_def find_attempt_settle)

section \<open>Primitive steps\<close>

lemma sound_environment_simps [simp]:
  "v4_sound_environment (w\<lparr>w_store := s\<rparr>) = v4_sound_environment w"
  "v4_sound_environment (w\<lparr>w_broker := b\<rparr>) = v4_sound_environment w"
  "v4_sound_environment (w\<lparr>w_ticks := n\<rparr>) = v4_sound_environment w"
  by (simp_all add: v4_sound_environment_def)

lemma world_inv_simps [simp]:
  "v4_world_inv sent (w\<lparr>w_ticks := n\<rparr>) = v4_world_inv sent w"
  "v4_holds sent c (w\<lparr>w_ticks := n\<rparr>) = v4_holds sent c w"
  by (simp_all add: v4_world_inv_def v4_holds_def v4_sound_environment_def)

lemma world_inv_count:
  "v4_world_inv sent w \<Longrightarrow> w_interrupt w = Some i \<Longrightarrow> v4_world_inv sent (w\<lparr>w_interrupt := Some j\<rparr>)"
  "v4_holds sent c w \<Longrightarrow> w_interrupt w = Some i \<Longrightarrow> v4_holds sent c (w\<lparr>w_interrupt := Some j\<rparr>)"
  by (auto simp: v4_world_inv_def v4_holds_def v4_sound_environment_def)

lemma world_inv_stopped:
  "v4_world_inv sent w \<Longrightarrow> w_interrupt w = Some i \<Longrightarrow> v4_expected (fst sent) now KeyboardInterrupt"
  by (auto simp: v4_world_inv_def v4_sound_environment_def v4_expected_def)

lemma holds_inv: "v4_holds sent c w \<Longrightarrow> v4_world_inv sent w"
  by (simp add: v4_holds_def)

lemma holds_facts:
  assumes "v4_holds sent c w"
  shows "v4_store_inv (w_store w)" and "v4_row_inv c" and "is_hex64 (c_ref c)"
    and "c_side c \<in> {BUY, SELL}" and "0 < c_requested_size c" and "0 \<le> c_filled_size c" and "0 \<le> c_protected_size c"
    and "\<And>d. c_unprotected_since c = Some d \<Longrightarrow> dt_aware d"
    and "\<And>a. c_state c \<notin> v4_after a \<Longrightarrow> find_attempt (c_ref c) a (w_store w) = None"
proof -
  have reach: "v4_reach (w_store w)" and find: "v4_find (c_ref c) (w_store w) = Some c"
    using assms by (simp_all add: v4_holds_def v4_world_inv_def)
  show inv: "v4_store_inv (w_store w)" by (rule reach_inv [OF reach])
  have mem: "c \<in> set (db_cycles (w_store w))" using v4_find_ref [OF find] by simp
  show "v4_row_inv c" using assms mem by (simp add: v4_holds_def v4_world_inv_def)
  have "inv_cycles (w_store w)" using inv by (simp add: v4_store_inv_def)
  with mem show "is_hex64 (c_ref c)" "c_side c \<in> {BUY, SELL}" "0 < c_requested_size c"
    "0 \<le> c_filled_size c" "0 \<le> c_protected_size c" "\<And>d. c_unprotected_since c = Some d \<Longrightarrow> dt_aware d"
    by (auto simp: inv_cycles_def)
  show "\<And>a. c_state c \<notin> v4_after a \<Longrightarrow> find_attempt (c_ref c) a (w_store w) = None"
    using after_invD [OF reach_after [OF reach] find] .
qed

text \<open>A step that runs a program of the store or of the broker after its checkpoint.\<close>

lemma on_store_triple:
  assumes "\<And>w i j. P w \<Longrightarrow> w_interrupt w = Some i \<Longrightarrow> P (w\<lparr>w_interrupt := Some j\<rparr>)"
    and "\<And>w i. P w \<Longrightarrow> w_interrupt w = Some i \<Longrightarrow> E KeyboardInterrupt w"
    and "\<And>w. P w \<Longrightarrow> case m (w_store w) of (Inr x, s) \<Rightarrow> Q x (w\<lparr>w_store := s\<rparr>) | (Inl e, s) \<Rightarrow> E e (w\<lparr>w_store := s\<rparr>)"
  shows "triple P (on_store m) Q E"
  unfolding triple_def
proof (intro allI impI)
  fix w assume P: "P w"
  show "case on_store m w of (Inr x, s) \<Rightarrow> Q x s | (Inl e, s) \<Rightarrow> E e s"
    using assms(2) [OF P] assms(3) [OF P] assms(3) [OF assms(1) [OF P]]
    by (cases "w_interrupt w") (auto simp: on_store_def checkpoint_def run_progs
      split: prod.splits sum.splits nat.splits)
qed

lemma on_broker_triple:
  assumes "\<And>w i j. P w \<Longrightarrow> w_interrupt w = Some i \<Longrightarrow> P (w\<lparr>w_interrupt := Some j\<rparr>)"
    and "\<And>w i. P w \<Longrightarrow> w_interrupt w = Some i \<Longrightarrow> E KeyboardInterrupt w"
    and "\<And>w. P w \<Longrightarrow> case m (w_broker w) of (Inr x, b) \<Rightarrow> Q x (w\<lparr>w_broker := b\<rparr>) | (Inl e, b) \<Rightarrow> E e (w\<lparr>w_broker := b\<rparr>)"
  shows "triple P (on_broker m) Q E"
  unfolding triple_def
proof (intro allI impI)
  fix w assume P: "P w"
  show "case on_broker m w of (Inr x, s) \<Rightarrow> Q x s | (Inl e, s) \<Rightarrow> E e s"
    using assms(2) [OF P] assms(3) [OF P] assms(3) [OF assms(1) [OF P]]
    by (cases "w_interrupt w") (auto simp: on_broker_def checkpoint_def run_progs
      split: prod.splits sum.splits nat.splits)
qed

text \<open>The instants a step may carry: an aware one, or the caller's \<open>now_utc\<close>.\<close>

abbreviation v4_instant :: "datetime \<Rightarrow> datetime \<Rightarrow> bool" where
  "v4_instant now t \<equiv> dt_aware t \<or> t = now"

lemma world_inv_reach: "v4_world_inv sent w \<Longrightarrow> v4_reach (w_store w)"
  by (simp add: v4_world_inv_def)

text \<open>A transition that goes through, or the naive timestamp it refuses.\<close>

lemma transition_naive:
  assumes "\<not> dt_aware t" and "v4_safe_label category" and "case halt of None \<Rightarrow> True | Some r \<Rightarrow> v4_safe_label r"
  shows "v4_transition ref target category t filled protected since halt db =
    (Inl (V4GmoPersistenceError ''v4 timestamp must be timezone-aware''), db)"
proof -
  have "(case halt of None \<Rightarrow> Inr () | Some r \<Rightarrow> v4_validate_safe_label r) = Inr ()"
    using assms(3) by (cases halt) (simp_all add: v4_validate_safe_label_def)
  then show ?thesis
    using assms(1,2) by (simp add: v4_transition_def run_progs v4_validate_safe_label_def v4_timestamp_def)
qed

lemma transition_step_and:
  assumes allowed: "target \<in> set (v4_allowed (c_state c))" and cat: "v4_safe_label category"
    and neutral: "neutral_category category" and halt: "case halt of None \<Rightarrow> True | Some r \<Rightarrow> v4_safe_label r"
    and filled: "case filled of None \<Rightarrow> True | Some n \<Rightarrow> 0 \<le> n"
    and prot: "case protected of None \<Rightarrow> True | Some n \<Rightarrow> 0 \<le> n"
    and since: "case since of None \<Rightarrow> True | Some d \<Rightarrow> d = t"
    and row: "dt_aware t \<Longrightarrow> v4_row_inv (v4_transition_row target t filled protected since halt c)"
    and t: "v4_instant now t"
  shows "triple (\<lambda>w. v4_holds sent c w \<and> R (db_attempts (w_store w)))
    (on_store (v4_transition (c_ref c) target category t filled protected since halt))
    (\<lambda>x w. (x = v4_transition_row target t filled protected since halt c \<and> dt_aware t)
       \<and> v4_holds sent (v4_transition_row target t filled protected since halt c) w
       \<and> R (db_attempts (w_store w)))
    (v4_exc sent now)"
proof (rule on_store_triple)
  fix w assume w: "v4_holds sent c w \<and> R (db_attempts (w_store w))"
  then have h: "v4_holds sent c w" by simp
  let ?f = "v4_transition_row target t filled protected since halt"
  let ?db = "v4_commit (c_ref c) ?f category target (w_store w)"
  note facts = holds_facts [OF h]
  have find: "v4_find (c_ref c) (w_store w) = Some c" using h by (simp add: v4_holds_def)
  show "case v4_transition (c_ref c) target category t filled protected since halt (w_store w) of
      (Inr x, s) \<Rightarrow> (x = ?f c \<and> dt_aware t) \<and> v4_holds sent (?f c) (w\<lparr>w_store := s\<rparr>)
        \<and> R (db_attempts (w_store (w\<lparr>w_store := s\<rparr>)))
    | (Inl e, s) \<Rightarrow> v4_exc sent now e (w\<lparr>w_store := s\<rparr>)"
  proof (cases "dt_aware t")
    case False
    with t have "t = now" and "\<not> dt_aware now" by auto
    with h show ?thesis
      by (simp add: transition_naive [OF _ cat halt] v4_holds_def v4_expected_def)
  next
    case True
    have since': "case since of None \<Rightarrow> True | Some d \<Rightarrow> dt_aware d"
      using since True by (auto split: option.splits)
    have run: "v4_transition (c_ref c) target category t filled protected since halt (w_store w) = (Inr (?f c), ?db)"
      by (rule transition_run [OF facts(1) find allowed True cat halt filled prot since'])
    have "v4_reach ?db"
      using h run neutral by (auto simp: v4_holds_def v4_world_inv_def intro: reach_transition)
    moreover have "\<forall>c \<in> set (db_cycles ?db). v4_row_inv c"
      using h row [OF True] by (intro commit_rows_inv [where row = c and f = ?f, OF facts(1) _ find])
        (simp_all add: v4_holds_def v4_world_inv_def)
    moreover have "v4_calls_inv (snd sent @ b_calls (w_broker w)) ?db"
      using h by (auto simp: v4_holds_def v4_world_inv_def v4_calls_inv_def transition_row_keeps
          intro!: commit_plan_ok)
    moreover have "v4_find (c_ref c) ?db = Some (?f c)"
      using find by (simp add: v4_find_commit)
    ultimately show ?thesis
      using w run True by (simp add: v4_holds_def v4_world_inv_def)
  qed
qed (auto dest: world_inv_count world_inv_stopped holds_inv)


lemma transition_step:
  assumes allowed: "target \<in> set (v4_allowed (c_state c))" and cat: "v4_safe_label category"
    and neutral: "neutral_category category" and halt: "case halt of None \<Rightarrow> True | Some r \<Rightarrow> v4_safe_label r"
    and filled: "case filled of None \<Rightarrow> True | Some n \<Rightarrow> 0 \<le> n"
    and prot: "case protected of None \<Rightarrow> True | Some n \<Rightarrow> 0 \<le> n"
    and since: "case since of None \<Rightarrow> True | Some d \<Rightarrow> d = t"
    and row: "dt_aware t \<Longrightarrow> v4_row_inv (v4_transition_row target t filled protected since halt c)"
    and t: "v4_instant now t"
  shows "triple (v4_holds sent c) (on_store (v4_transition (c_ref c) target category t filled protected since halt))
    (\<lambda>x w. (x = v4_transition_row target t filled protected since halt c \<and> dt_aware t)
       \<and> v4_holds sent (v4_transition_row target t filled protected since halt c) w)
    (v4_exc sent now)"
  using transition_step_and [where R = "\<lambda>_. True", OF assms] by simp

section \<open>Recording and sending an action\<close>

definition v4_attempted :: "v4_cycle \<Rightarrow> v4_action \<Rightarrow> v4_world \<Rightarrow> bool" where
  "v4_attempted c a w \<longleftrightarrow> find_attempt (c_ref c) a (w_store w) \<noteq> None"

lemma attempted_simps [simp]:
  "v4_attempted c a (w\<lparr>w_interrupt := i\<rparr>) = v4_attempted c a w"
  "v4_attempted c a (w\<lparr>w_ticks := n\<rparr>) = v4_attempted c a w"
  "v4_attempted c a (w\<lparr>w_broker := b\<rparr>) = v4_attempted c a w"
  by (simp_all add: v4_attempted_def)

text \<open>The same on the table of the attempts alone.\<close>

definition v4_tried :: "string \<Rightarrow> v4_action \<Rightarrow> v4_attempt list \<Rightarrow> bool" where
  "v4_tried ref a ts \<longleftrightarrow> select_one (\<lambda>t. (t_cycle_ref t, t_action t) = (ref, a)) ts \<noteq> None"

lemma attempted_tried: "v4_attempted c a w \<longleftrightarrow> v4_tried (c_ref c) a (db_attempts (w_store w))"
  by (simp add: v4_attempted_def v4_tried_def find_attempt_def)

lemma action_attempted_iff: "v4_action_attempted (c_ref c) a (w_store w) \<longleftrightarrow> v4_attempted c a w"
  by (simp add: v4_action_attempted_def v4_attempted_def find_attempt_def)

text \<open>The attempt is recorded and pending, and nothing has been sent for it.\<close>

definition v4_armed :: "v4_env \<Rightarrow> v4_cycle \<Rightarrow> v4_action \<Rightarrow> v4_world \<Rightarrow> bool" where
  "v4_armed sent c a w \<longleftrightarrow> v4_holds sent c w
     \<and> (\<exists>t. find_attempt (c_ref c) a (w_store w) = Some t \<and> t_outcome t = ''ATTEMPT_STARTED'')
     \<and> (c_ref c, a) \<notin> plan_key ` set (snd sent @ b_calls (w_broker w))"

definition v4_pending_at :: "v4_env \<Rightarrow> v4_cycle \<Rightarrow> v4_action \<Rightarrow> v4_world \<Rightarrow> bool" where
  "v4_pending_at sent c a w \<longleftrightarrow> v4_holds sent c w
     \<and> (\<exists>t. find_attempt (c_ref c) a (w_store w) = Some t \<and> t_outcome t = ''ATTEMPT_STARTED'')"

lemma attempt_naive:
  "\<not> dt_aware t \<Longrightarrow> v4_record_action_attempt ref a target t db =
    (Inl (V4GmoPersistenceError ''v4 timestamp must be timezone-aware''), db)"
  by (simp add: v4_record_action_attempt_def run_progs v4_timestamp_def)

lemma attempt_step:
  assumes allowed: "target \<in> set (v4_allowed (c_state c))" and target: "v4_attempt_state a = Some target"
    and row: "dt_aware t \<Longrightarrow> v4_row_inv (v4_attempt_row a target t c)" and t: "v4_instant now t"
  shows "triple (\<lambda>w. v4_holds sent c w \<and> \<not> v4_attempted c a w)
    (on_store (v4_record_action_attempt (c_ref c) a target t))
    (\<lambda>x w. (x = v4_attempt_row a target t c \<and> dt_aware t) \<and> v4_armed sent (v4_attempt_row a target t c) a w)
    (v4_exc sent now)"
proof (rule on_store_triple)
  fix w assume w: "v4_holds sent c w \<and> \<not> v4_attempted c a w"
  then have h: "v4_holds sent c w" and none: "find_attempt (c_ref c) a (w_store w) = None"
    by (simp_all add: v4_attempted_def)
  let ?f = "v4_attempt_row a target t"
  let ?db0 = "v4_add_attempt (v4_new_attempt (c_ref c) a t) (w_store w)"
  let ?db = "v4_commit (c_ref c) ?f (action_value a @ ''_ATTEMPT_STARTED'') target ?db0"
  note facts = holds_facts [OF h]
  have find: "v4_find (c_ref c) (w_store w) = Some c" using h by (simp add: v4_holds_def)
  show "case v4_record_action_attempt (c_ref c) a target t (w_store w) of
      (Inr x, s) \<Rightarrow> (x = ?f c \<and> dt_aware t) \<and> v4_armed sent (?f c) a (w\<lparr>w_store := s\<rparr>)
    | (Inl e, s) \<Rightarrow> v4_exc sent now e (w\<lparr>w_store := s\<rparr>)"
  proof (cases "dt_aware t")
    case False
    with t have "t = now" and "\<not> dt_aware now" by auto
    with h show ?thesis by (simp add: attempt_naive v4_holds_def v4_expected_def)
  next
    case True
    have run: "v4_record_action_attempt (c_ref c) a target t (w_store w) = (Inr (?f c), ?db)"
      by (rule attempt_run [OF facts(1) find allowed True target none])
    have "v4_reach ?db"
      using h run by (auto simp: v4_holds_def v4_world_inv_def intro: reach_attempt)
    moreover have "\<forall>c \<in> set (db_cycles ?db). v4_row_inv c"
    proof -
      have "\<forall>c \<in> set (db_cycles (v4_commit (c_ref c) ?f cat st (w_store w))). v4_row_inv c" for cat st
        using h row [OF True] by (intro commit_rows_inv [where row = c and f = ?f, OF facts(1) _ find])
          (simp_all add: v4_holds_def v4_world_inv_def)
      then show ?thesis by simp
    qed
    moreover have "v4_calls_inv (snd sent @ b_calls (w_broker w)) ?db"
      using h by (auto simp: v4_holds_def v4_world_inv_def v4_calls_inv_def attempt_row_keeps
          intro!: commit_plan_ok add_attempt_plan_ok)
    moreover have "v4_find (c_ref c) ?db = Some (?f c)"
      using find by (simp add: v4_find_commit)
    moreover have "find_attempt (c_ref c) a ?db = Some (v4_new_attempt (c_ref c) a t)"
      using none by (simp add: find_attempt_snoc) (simp add: v4_new_attempt_def)
    moreover have "(c_ref c, a) \<notin> plan_key ` set (snd sent @ b_calls (w_broker w))"
      using h none by (intro calls_inv_fresh) (simp_all add: v4_holds_def v4_world_inv_def)
    ultimately show ?thesis
      using h run True by (simp add: v4_armed_def v4_holds_def v4_world_inv_def v4_new_attempt_def)
  qed
qed (auto dest: world_inv_count world_inv_stopped holds_inv)

text \<open>What the engine puts into the plan of a cycle.\<close>

definition v4_plan_for :: "v4_cycle \<Rightarrow> v4_action \<Rightarrow> v4_plan \<Rightarrow> bool" where
  "v4_plan_for c a p \<longleftrightarrow> pl_cycle_ref p = c_ref c \<and> pl_action p = a \<and> pl_side p = c_side c
     \<and> 0 < pl_requested_size p
     \<and> \<not> pl_actual_post_allowed p \<and> \<not> pl_credential_read_allowed p \<and> \<not> pl_network_access_allowed p
     \<and> (a = MARKET_ENTRY \<longrightarrow> pl_requested_size p = c_requested_size c)
     \<and> (a \<noteq> CANCEL_MISMATCHED_PROTECTION \<longrightarrow> pl_requested_size p \<le> c_requested_size c)"

lemma perform_step:
  assumes plan: "v4_plan_for c a plan"
  shows "triple (v4_armed sent c a) (on_broker (perform_once_synthetic plan))
    (\<lambda>x. v4_pending_at sent c a)
    (\<lambda>e w. if is_boundary_error e then v4_holds sent c w else v4_exc sent now e w)"
proof (rule on_broker_triple)
  fix w assume w: "v4_armed sent c a w"
  then have h: "v4_holds sent c w" and good: "b_good (w_broker w)"
    by (simp_all add: v4_armed_def v4_holds_def v4_world_inv_def)
  let ?P = "\<lambda>cs m. cs = b_calls (w_broker w) \<and> m = b_marks (w_broker w)"
  have key: "plan_key plan = (c_ref c, a)" using plan by (simp add: plan_key_def v4_plan_for_def)
  have pok: "v4_plan_ok (w_store w) plan"
    using plan w by (auto simp: v4_plan_ok_def v4_plan_for_def v4_armed_def v4_holds_def)
  obtain r b where run: "perform_once_synthetic plan (w_broker w) = (r, b)"
    by (cases "perform_once_synthetic plan (w_broker w)")
  show "case perform_once_synthetic plan (w_broker w) of
      (Inr x, b) \<Rightarrow> v4_pending_at sent c a (w\<lparr>w_broker := b\<rparr>)
    | (Inl e, b) \<Rightarrow> if is_boundary_error e then v4_holds sent c (w\<lparr>w_broker := b\<rparr>)
        else v4_exc sent now e (w\<lparr>w_broker := b\<rparr>)"
  proof (cases r)
    case (Inl e)
    with run have "is_boundary_error e \<and> b = w_broker w"
      using v4b.perform_raises by auto
    with run Inl h show ?thesis by simp
  next
    case (Inr x)
    have "b_calls b = b_calls (w_broker w) @ [plan] \<and> b_marks b = b_marks (w_broker w) \<and> b_good b"
      using v4b.perform_returns [of plan "w_broker w" x b] run Inr good by simp
    with run Inr w pok key show ?thesis
      by (auto simp: v4_armed_def v4_pending_at_def v4_holds_def v4_world_inv_def v4_calls_inv_def)
  qed
qed (auto simp: v4_armed_def is_boundary_error_def dest: world_inv_count world_inv_stopped holds_inv)

lemma outcome_step:
  "triple (v4_pending_at sent c a) (on_store (v4_record_action_outcome (c_ref c) a (outcome_value out)))
    (\<lambda>_ w. v4_holds sent c w \<and> v4_attempted c a w) (v4_exc sent now)"
proof (rule on_store_triple)
  fix w assume "v4_pending_at sent c a w"
  then obtain t where h: "v4_holds sent c w"
    and t: "find_attempt (c_ref c) a (w_store w) = Some t" "t_outcome t = ''ATTEMPT_STARTED''"
    by (auto simp: v4_pending_at_def)
  let ?cat = "action_value a @ ''_'' @ outcome_value out"
  let ?db0 = "v4_settle (c_ref c) a (outcome_value out) (w_store w)"
  let ?db = "v4_commit (c_ref c) (\<lambda>c. c) ?cat (c_state c) ?db0"
  note facts = holds_facts [OF h]
  have find: "v4_find (c_ref c) (w_store w) = Some c" using h by (simp add: v4_holds_def)
  have run: "v4_record_action_outcome (c_ref c) a (outcome_value out) (w_store w) = (Inr (), ?db)"
    by (rule outcome_run [OF facts(1) find t])
  have "v4_reach ?db"
    using h run by (auto simp: v4_holds_def v4_world_inv_def intro: reach_outcome)
  moreover have "\<forall>c \<in> set (db_cycles ?db). v4_row_inv c"
    using h by (auto simp: set_update_rows v4_holds_def v4_world_inv_def)
  moreover have "v4_calls_inv (snd sent @ b_calls (w_broker w)) ?db"
    using h by (auto simp: v4_holds_def v4_world_inv_def v4_calls_inv_def intro!: commit_plan_ok settle_plan_ok)
  moreover have "v4_find (c_ref c) ?db = Some c"
    using find by (simp add: v4_find_commit)
  moreover have "find_attempt (c_ref c) a ?db \<noteq> None"
    using t by (simp add: find_attempt_settle)
  ultimately show "case v4_record_action_outcome (c_ref c) a (outcome_value out) (w_store w) of
      (Inr x, s) \<Rightarrow> v4_holds sent c (w\<lparr>w_store := s\<rparr>) \<and> v4_attempted c a (w\<lparr>w_store := s\<rparr>)
    | (Inl e, s) \<Rightarrow> v4_exc sent now e (w\<lparr>w_store := s\<rparr>)"
    using h run by (auto simp: v4_holds_def v4_world_inv_def v4_attempted_def)
qed (auto simp: v4_pending_at_def dest: world_inv_count world_inv_stopped holds_inv)

text \<open>The whole block: record, send, record the outcome, or halt when the broker refuses.\<close>

lemma send_step:
  assumes allowed: "target \<in> set (v4_allowed (c_state c))" and target: "v4_attempt_state a = Some target"
    and row: "dt_aware t \<Longrightarrow> v4_row_inv c'" and t: "v4_instant now t"
    and c': "c' = v4_attempt_row a target t c" and plan: "v4_plan_for c' a plan"
    and refused: "triple (v4_holds sent c') (H c') Q (v4_exc sent now)"
    and accepted: "dt_aware t \<Longrightarrow> triple (\<lambda>w. v4_holds sent c' w \<and> v4_attempted c' a w) (K c') Q (v4_exc sent now)"
  shows "triple (\<lambda>w. v4_holds sent c w \<and> \<not> v4_attempted c a w)
    (bindE (on_store (v4_record_action_attempt (c_ref c) a target t)) (\<lambda>cycle.
     try_exceptE (on_broker (perform_once_synthetic plan)) is_boundary_error (H cycle) (\<lambda>outcome.
     thenE (on_store (v4_record_action_outcome (c_ref cycle) a (outcome_value outcome))) (K cycle))))
    Q (v4_exc sent now)"
proof (rule triple_bind)
  show "triple (\<lambda>w. v4_holds sent c w \<and> \<not> v4_attempted c a w)
     (on_store (v4_record_action_attempt (c_ref c) a target t))
     (\<lambda>x w. (x = c' \<and> dt_aware t) \<and> v4_armed sent c' a w) (v4_exc sent now)"
    using attempt_step [OF allowed target row [unfolded c'] t] by (simp add: c')
  show "triple (\<lambda>w. (x = c' \<and> dt_aware t) \<and> v4_armed sent c' a w)
     (try_exceptE (on_broker (perform_once_synthetic plan)) is_boundary_error (H x) (\<lambda>outcome.
      thenE (on_store (v4_record_action_outcome (c_ref x) a (outcome_value outcome))) (K x)))
     Q (v4_exc sent now)" for x
  proof (rule triple_pure)
    assume x: "x = c' \<and> dt_aware t"
    then have "c_ref x = c_ref c'" by simp
    with x show "triple (v4_armed sent c' a)
       (try_exceptE (on_broker (perform_once_synthetic plan)) is_boundary_error (H x) (\<lambda>outcome.
        thenE (on_store (v4_record_action_outcome (c_ref x) a (outcome_value outcome))) (K x)))
       Q (v4_exc sent now)"
      using refused accepted
      by (auto intro!: triple_try_except [OF perform_step [OF plan]] triple_then [OF outcome_step])
  qed
qed

section \<open>Reading, the clock, halting, reporting\<close>

lemma read_step_and:
  "triple (\<lambda>w. v4_holds sent c w \<and> R (db_attempts (w_store w))) v4_read_snapshot_or_none
    (\<lambda>x w. (case x of None \<Rightarrow> True | Some s \<Rightarrow> snapshot_ok s)
      \<and> v4_holds sent c w \<and> R (db_attempts (w_store w))) (v4_exc sent now)"
proof -
  let ?P = "\<lambda>w. v4_holds sent c w \<and> R (db_attempts (w_store w))"
  have "triple ?P (on_broker reconcile_synthetic) (\<lambda>s w. snapshot_ok s \<and> ?P w)
     (\<lambda>e w. if is_boundary_error e then ?P w else v4_exc sent now e w)"
  proof (rule on_broker_triple)
    fix w assume h: "?P w"
    obtain r b where run: "reconcile_synthetic (w_broker w) = (r, b)"
      by (cases "reconcile_synthetic (w_broker w)")
    show "case reconcile_synthetic (w_broker w) of
        (Inr s, b) \<Rightarrow> snapshot_ok s \<and> ?P (w\<lparr>w_broker := b\<rparr>)
      | (Inl e, b) \<Rightarrow> if is_boundary_error e then ?P (w\<lparr>w_broker := b\<rparr>)
          else v4_exc sent now e (w\<lparr>w_broker := b\<rparr>)"
      using h run v4b.reconcile_raises [of "w_broker w"] v4b.reconcile_returns [of "w_broker w"]
      by (cases r) (auto simp: v4_holds_def v4_world_inv_def)
  qed (auto simp: is_boundary_error_def dest: world_inv_count world_inv_stopped holds_inv)
  then show ?thesis
    unfolding v4_read_snapshot_or_none_def
    by (rule triple_try_except) (auto intro!: triple_return)
qed

lemma read_step:
  "triple (v4_holds sent c) v4_read_snapshot_or_none
    (\<lambda>x w. (case x of None \<Rightarrow> True | Some s \<Rightarrow> snapshot_ok s) \<and> v4_holds sent c w) (v4_exc sent now)"
  using read_step_and [where R = "\<lambda>_. True"] by simp

lemma now_step:
  assumes count: "\<And>w i j. P w \<Longrightarrow> w_interrupt w = Some i \<Longrightarrow> P (w\<lparr>w_interrupt := Some j\<rparr>)"
    and ticks: "\<And>w n. P w \<Longrightarrow> P (w\<lparr>w_ticks := n\<rparr>)"
    and inv: "\<And>w. P w \<Longrightarrow> v4_world_inv sent w" and t: "v4_instant now fallback"
  shows "triple P (v4_now fallback) (\<lambda>t w. dt_aware t \<and> P w) (v4_exc sent now)"
proof -
  let ?read = "\<lambda>w. case w_clock w of None \<Rightarrow> (Inr (PyDatetime fallback), w)
     | Some clock \<Rightarrow> (Inr (clock (w_ticks w)), w\<lparr>w_ticks := Suc (w_ticks w)\<rparr>)"
  have c: "triple P checkpoint (\<lambda>_. P) (v4_exc sent now)"
    unfolding triple_def
    by (auto simp: checkpoint_def dest: count inv world_inv_stopped split: option.splits nat.splits)
  have r: "triple P ?read (\<lambda>x w. P w \<and> (fst sent \<and> dt_aware now \<longrightarrow> (\<exists>t. x = PyDatetime t \<and> dt_aware t)))
      (v4_exc sent now)"
    unfolding triple_def
  proof (intro allI impI)
    fix w assume w: "P w"
    then have "fst sent \<longrightarrow> v4_sound_environment w" using inv by (simp add: v4_world_inv_def)
    with w t ticks [OF w] show "case ?read w of
        (Inr x, s) \<Rightarrow> P s \<and> (fst sent \<and> dt_aware now \<longrightarrow> (\<exists>t. x = PyDatetime t \<and> dt_aware t))
      | (Inl e, s) \<Rightarrow> v4_exc sent now e s"
      by (auto simp: v4_sound_environment_def split: option.splits)
  qed
  have v: "triple (\<lambda>w. P w \<and> (fst sent \<and> dt_aware now \<longrightarrow> (\<exists>t. x = PyDatetime t \<and> dt_aware t)))
      (case as_datetime x of
         Some t \<Rightarrow> thenE (guardE (dt_aware t) (V4GmoBoundaryError ''V4_GMO_CLOCK_INVALID'')) (returnE t)
       | None \<Rightarrow> raiseE (V4GmoBoundaryError ''V4_GMO_CLOCK_INVALID''))
      (\<lambda>t w. dt_aware t \<and> P w) (v4_exc sent now)" for x
    unfolding triple_def
    by (auto simp: run_progs v4_expected_def dest: inv split: option.splits)
  show ?thesis
    unfolding v4_now_def by (rule triple_bind [OF triple_then [OF c r] v])
qed

lemma result_step:
  assumes "c_ref c = ref"
    and "status = POSITION_PROTECTED_SYNTHETIC \<and> c_state c = POSITION_PROTECTED
      \<or> status = FLAT_RECONCILED_SYNTHETIC \<and> c_state c = FLAT_RECONCILED
      \<or> status = STATUS_HALTED_OPERATOR_REVIEW_REQUIRED
        \<and> c_state c \<in> {HALTED_OPERATOR_REVIEW_REQUIRED, OPERATOR_RELOAD_CLEARED}"
  shows "triple (v4_holds sent c) (v4_result status c reasons) (v4_done sent ref) E"
  unfolding v4_result_def
  by (rule triple_get)
     (use assms in \<open>auto simp: v4_done_def v4_result_ok_def Let_def v4_holds_def v4_world_inv_def b_marks_def
        intro!: exI [of _ c]\<close>)

text \<open>A transition that ends the run with the status of its target.\<close>

lemma finish_step:
  assumes "triple (v4_holds sent c) m (\<lambda>x w. (x = c' \<and> p) \<and> v4_holds sent c' w) (v4_exc sent now)"
    and "c_ref c' = ref"
    and "status = POSITION_PROTECTED_SYNTHETIC \<and> c_state c' = POSITION_PROTECTED
      \<or> status = FLAT_RECONCILED_SYNTHETIC \<and> c_state c' = FLAT_RECONCILED
      \<or> status = STATUS_HALTED_OPERATOR_REVIEW_REQUIRED
        \<and> c_state c' \<in> {HALTED_OPERATOR_REVIEW_REQUIRED, OPERATOR_RELOAD_CLEARED}"
  shows "triple (v4_holds sent c) (bindE m (\<lambda>x. v4_result status x reasons)) (v4_done sent ref) (v4_exc sent now)"
  by (rule triple_bind [OF assms(1)]) (use assms(2,3) in \<open>auto intro!: triple_pure result_step\<close>)

lemma neutral_halted: "neutral_category ''HALTED_OPERATOR_REVIEW_REQUIRED''"
  by (simp add: neutral_category_def v4_all_actions_def py_startswith_def py_endswith_def)

lemma halted_safe: "v4_safe_label ''HALTED_OPERATOR_REVIEW_REQUIRED''"
  by (simp add: v4_safe_label_def upper_letters_def)

lemma halted_row_inv:
  "v4_row_inv c \<Longrightarrow> v4_row_inv (v4_transition_row HALTED_OPERATOR_REVIEW_REQUIRED t None None None h c)"
  by (auto simp: v4_row_inv_def v4_transition_row_def v4_unfilled_states_def)

lemma halt_step:
  assumes "\<not> v4_terminal (c_state c)" and "v4_safe_label reason" and "v4_row_inv c"
    and "v4_instant now t" and "c_ref c = ref"
  shows "triple (v4_holds sent c) (v4_halt c reason t) (v4_done sent ref) (v4_exc sent now)"
  unfolding v4_halt_def
  by (rule finish_step, rule transition_step)
     (use assms in \<open>auto simp: v4_allowed_to_halted halted_safe neutral_halted halted_row_inv transition_row_keeps\<close>)

end
