(* ===== verification/V4_Engine_Proof.thy ===== *)
theory V4_Engine_Proof
  imports V4_Engine_Inv
begin

text \<open>
  One triple per method of the v4 engine: from a world in the invariant that holds the row the
  method is called with, the method ends in a protected, flat or halted row of the same cycle and
  reports it, or raises one of the expected exceptions with the invariant intact.
\<close>

section \<open>What the steps share\<close>

text \<open>The frozen fields of a constructed policy the engine relies on.\<close>

definition v4_policy_ok :: "v4_policy \<Rightarrow> bool" where
  "v4_policy_ok p \<longleftrightarrow> v_protection_contract_hash p \<noteq> [] \<and> v_max_unprotected_seconds p = 15
     \<and> 0 < v_requested_size p"

lemma V4GmoExecutionPolicy_ok: "V4GmoExecutionPolicy a = Inr p \<Longrightarrow> v4_policy_ok p"
  by (auto simp: V4GmoExecutionPolicy_def v4_policy_ok_def v4_immutable_requirements_def is_int_eq_def
      H11_V4_GMO_PROTECTION_CONTRACT_HASH_def split: if_splits option.splits)

definition v4_row_good :: "v4_cycle \<Rightarrow> bool" where
  "v4_row_good c \<longleftrightarrow> v4_row_inv c \<and> is_hex64 (c_ref c) \<and> c_side c \<in> {BUY, SELL}
     \<and> 0 < c_requested_size c \<and> 0 \<le> c_filled_size c \<and> 0 \<le> c_protected_size c
     \<and> (\<forall>d. c_unprotected_since c = Some d \<longrightarrow> dt_aware d)"

lemma with_row:
  assumes "v4_row_good c \<Longrightarrow> triple (v4_holds sent c) m Q E"
  shows "triple (v4_holds sent c) m Q E"
proof (cases "\<exists>w. v4_holds sent c w")
  case True
  then obtain w where "v4_holds sent c w" ..
  from holds_facts [OF this] have "v4_row_good c" by (simp add: v4_row_good_def)
  then show ?thesis by (rule assms)
next
  case False
  then show ?thesis by (simp add: triple_def)
qed

lemma row_good_inv: "v4_row_good c \<Longrightarrow> v4_row_inv c"
  by (simp add: v4_row_good_def)

lemma with_row_and:
  assumes "v4_row_good c \<Longrightarrow> triple (\<lambda>w. v4_holds sent c w \<and> R w) m Q E"
  shows "triple (\<lambda>w. v4_holds sent c w \<and> R w) m Q E"
proof (cases "\<exists>w. v4_holds sent c w")
  case True
  then obtain w where "v4_holds sent c w" ..
  from holds_facts [OF this] have "v4_row_good c" by (simp add: v4_row_good_def)
  then show ?thesis by (rule assms)
next
  case False
  then show ?thesis by (simp add: triple_def)
qed

lemmas row_simps = v4_row_inv_def v4_transition_row_def v4_attempt_row_def v4_unfilled_states_def
  coalesce_def

lemmas label_simps = v4_safe_label_def upper_letters_def digit_chars_def neutral_category_def
  v4_all_actions_def py_startswith_def py_endswith_def

text \<open>The plan of an action of a good row is built.\<close>

lemma plan_step:
  assumes "v4_row_good c" and "0 < sz" and "ph \<noteq> []"
    and "a = MARKET_ENTRY \<Longrightarrow> sz = c_requested_size c"
    and "a \<noteq> CANCEL_MISMATCHED_PROTECTION \<Longrightarrow> sz \<le> c_requested_size c"
    and "\<And>plan. v4_plan_for c a plan \<Longrightarrow> triple P (f plan) Q E"
  shows "triple P (bindE (liftE (build_v4_action_plan (c_ref c) a (c_side c) sz ph)) f) Q E"
proof -
  obtain plan where plan: "build_v4_action_plan (c_ref c) a (c_side c) sz ph = Inr plan"
    and "v4_plan_for c a plan"
    using build_v4_action_plan_Inr [of "c_ref c" "c_side c" sz ph a] assms(1-5)
    by (auto simp: v4_row_good_def v4_plan_for_def)
  with assms(6) show ?thesis by (auto intro: triple_bind_lift)
qed

lemma plan_for_row [simp]:
  "v4_plan_for (v4_attempt_row a' t n c) a p = v4_plan_for c a p"
  "v4_plan_for (v4_transition_row t n f q u h c) a p = v4_plan_for c a p"
  by (simp_all add: v4_plan_for_def attempt_row_keeps transition_row_keeps)

text \<open>An action whose cycle state comes before it has not been attempted.\<close>

lemma not_attempted:
  assumes "c_state c \<notin> v4_after a" and "triple (\<lambda>w. v4_holds sent c w \<and> \<not> v4_attempted c a w) m Q E"
  shows "triple (v4_holds sent c) m Q E"
  using assms(2) by (rule triple_pre) (use assms(1) holds_facts(9) in \<open>auto simp: v4_attempted_def\<close>)

text \<open>Sending, for the four actions that need no look at the attempts.\<close>

lemma send_fresh_step:
  assumes "c_state c \<notin> v4_after a"
    and "target \<in> set (v4_allowed (c_state c))" and "v4_attempt_state a = Some target"
    and "dt_aware t \<Longrightarrow> v4_row_inv (v4_attempt_row a target t c)" and "v4_instant now t"
    and "v4_plan_for c a plan"
    and "triple (v4_holds sent (v4_attempt_row a target t c)) (H (v4_attempt_row a target t c)) Q (v4_exc sent now)"
    and "dt_aware t \<Longrightarrow>
      triple (v4_holds sent (v4_attempt_row a target t c)) (K (v4_attempt_row a target t c)) Q (v4_exc sent now)"
  shows "triple (v4_holds sent c)
    (bindE (on_store (v4_record_action_attempt (c_ref c) a target t)) (\<lambda>cycle.
     try_exceptE (on_broker (perform_once_synthetic plan)) is_boundary_error (H cycle) (\<lambda>outcome.
     thenE (on_store (v4_record_action_outcome (c_ref cycle) a (outcome_value outcome))) (K cycle))))
    Q (v4_exc sent now)"
  using assms(1)
  by (rule not_attempted)
     (rule send_step [OF assms(2-5) refl], use assms(6-8) in \<open>auto elim: triple_pre\<close>)

text \<open>A transition followed by the rest of a method.\<close>

lemma move_step:
  assumes "target \<in> set (v4_allowed (c_state c))" and "v4_safe_label category"
    and "neutral_category category"
    and "case filled of None \<Rightarrow> True | Some n \<Rightarrow> 0 \<le> n"
    and "case protected of None \<Rightarrow> True | Some n \<Rightarrow> 0 \<le> n"
    and "case since of None \<Rightarrow> True | Some d \<Rightarrow> d = t"
    and "dt_aware t \<Longrightarrow> v4_row_inv (v4_transition_row target t filled protected since None c)"
    and "v4_instant now t"
    and "dt_aware t \<Longrightarrow> triple (v4_holds sent (v4_transition_row target t filled protected since None c))
        (f (v4_transition_row target t filled protected since None c)) Q (v4_exc sent now)"
  shows "triple (v4_holds sent c)
    (bindE (on_store (v4_transition (c_ref c) target category t filled protected since None)) f) Q (v4_exc sent now)"
proof (rule triple_bind)
  let ?c' = "v4_transition_row target t filled protected since None c"
  show "triple (v4_holds sent c)
      (on_store (v4_transition (c_ref c) target category t filled protected since None))
      (\<lambda>x w. (x = ?c' \<and> dt_aware t) \<and> v4_holds sent ?c' w) (v4_exc sent now)"
    by (rule transition_step) (use assms(1-8) in simp_all)
  show "triple (\<lambda>w. (x = ?c' \<and> dt_aware t) \<and> v4_holds sent ?c' w) (f x) Q (v4_exc sent now)" for x
    by (rule triple_pure) (use assms(9) in auto)
qed

text \<open>A transition into a final row.\<close>

lemma flat_step:
  assumes "FLAT_RECONCILED \<in> set (v4_allowed (c_state c))" and "v4_safe_label category"
    and "neutral_category category" and "v4_row_inv c" and "v4_instant now t" and "c_ref c = ref"
    and z: "z = Some 0 \<or> z = None \<and> c_filled_size c = 0 \<and> c_protected_size c = 0"
    and "0 < c_requested_size c"
  shows "triple (v4_holds sent c)
    (bindE (on_store (v4_transition (c_ref c) FLAT_RECONCILED category t z z None None))
      (\<lambda>flat. v4_result FLAT_RECONCILED_SYNTHETIC flat []))
    (v4_done sent ref) (v4_exc sent now)"
proof -
  have st: "c_state c \<notin> {ENTRY_INTENT_PERSISTED, HALTED_OPERATOR_REVIEW_REQUIRED, OPERATOR_RELOAD_CLEARED}"
    using assms(1) by (cases "c_state c") simp_all
  have row: "v4_row_inv (v4_transition_row FLAT_RECONCILED t z z None None c)"
    using z assms(4,8) st by (elim disjE) (simp_all add: row_simps)
  have nn: "case z of None \<Rightarrow> True | Some n \<Rightarrow> (0::int) \<le> n" using z by auto
  have "triple (v4_holds sent c)
      (on_store (v4_transition (c_ref c) FLAT_RECONCILED category t z z None None))
      (\<lambda>x w. (x = v4_transition_row FLAT_RECONCILED t z z None None c \<and> dt_aware t)
        \<and> v4_holds sent (v4_transition_row FLAT_RECONCILED t z z None None c) w) (v4_exc sent now)"
    by (rule transition_step) (use row nn assms(1-5) in simp_all)
  then show ?thesis
    by (rule finish_step) (use assms(6) in \<open>simp_all add: transition_row_keeps\<close>)
qed

section \<open>Emergency exit\<close>

lemma reconcile_exit_triple:
  assumes "c_state c = EMERGENCY_EXIT_ATTEMPTED" and "v4_instant now t" and "c_ref c = ref"
  shows "triple (v4_holds sent c) (v4_reconcile_emergency_exit c t) (v4_done sent ref) (v4_exc sent now)"
  unfolding v4_reconcile_emergency_exit_def
proof (rule with_row, rule triple_bind [OF read_step], rule triple_pure, rule triple_if)
  assume good: "v4_row_good c"
  show "triple (v4_holds sent c) (bindE (on_store (v4_transition (c_ref c) FLAT_RECONCILED
      ''EMERGENCY_EXIT_FLAT_CONFIRMED'' t (Some 0) (Some 0) None None))
      (\<lambda>flat. v4_result FLAT_RECONCILED_SYNTHETIC flat [])) (v4_done sent ref) (v4_exc sent now)"
    by (rule flat_step) (use assms good in \<open>auto simp: label_simps v4_row_good_def v4_row_inv_def\<close>)
  show "triple (v4_holds sent c) (v4_halt c ''EMERGENCY_EXIT_RESULT_UNKNOWN_OR_NOT_FLAT'' t)
      (v4_done sent ref) (v4_exc sent now)"
    by (rule halt_step) (use assms good in \<open>auto simp: label_simps v4_terminal_def row_good_inv\<close>)
qed

lemma attempt_exit_triple:
  assumes "c_state c = EMERGENCY_EXIT_INTENT_PERSISTED" and "v4_instant now t" and "c_ref c = ref"
    and "v4_policy_ok policy"
  shows "triple (v4_holds sent c) (v4_attempt_emergency_exit c policy t) (v4_done sent ref) (v4_exc sent now)"
  unfolding v4_attempt_emergency_exit_def Let_def
proof (rule with_row, rule triple_if, goal_cases)
  case 1
  then show ?case
    by (intro halt_step) (use assms in \<open>auto simp: label_simps v4_terminal_def row_good_inv\<close>)
next
  case 2
  show ?case
  proof (rule plan_step [OF 2(1)], goal_cases)
    case (5 plan)
    show ?case
    proof (rule send_fresh_step [OF _ _ _ _ assms(2) 5], goal_cases)
      case 5
      show ?case
        by (rule halt_step) (use assms 2 in \<open>auto simp: label_simps v4_terminal_def row_simps v4_row_good_def\<close>)
    next
      case 6
      show ?case by (rule reconcile_exit_triple) (use assms in \<open>auto simp: attempt_row_keeps\<close>)
    qed (use assms 2 in \<open>auto simp: row_simps v4_row_good_def\<close>)
  qed (use assms 2 in \<open>auto simp: v4_policy_ok_def v4_row_good_def v4_row_inv_def\<close>)
qed

lemma start_exit_triple:
  assumes "EMERGENCY_EXIT_INTENT_PERSISTED \<in> set (v4_allowed (c_state c))" and "v4_instant now t"
    and "c_ref c = ref" and "v4_policy_ok policy" and "v4_safe_label reason" and "neutral_category reason"
  shows "triple (v4_holds sent c) (v4_start_emergency_exit c policy reason t) (v4_done sent ref) (v4_exc sent now)"
  unfolding v4_start_emergency_exit_def v4_move_def
proof (rule with_row, rule move_step, goal_cases)
  case (7)
  then have "c_state c \<notin> v4_unfilled_states \<union> {HALTED_OPERATOR_REVIEW_REQUIRED}"
    using assms(1) by (cases "c_state c") (auto simp: v4_unfilled_states_def)
  with 7 show ?case by (auto simp: row_simps v4_row_good_def)
next
  case 9
  show ?case by (rule attempt_exit_triple) (use assms in \<open>auto simp: transition_row_keeps\<close>)
qed (use assms in auto)

section \<open>Protection cancel\<close>

lemma reconcile_cancelled_triple:
  assumes "c_state c = PROTECTION_CANCEL_RECONCILING" and "v4_instant now t" and "c_ref c = ref"
    and "v4_policy_ok policy"
  shows "triple (v4_holds sent c) (v4_reconcile_cancelled_protection c policy t) (v4_done sent ref) (v4_exc sent now)"
  unfolding v4_reconcile_cancelled_protection_def Let_def
proof (rule with_row, rule triple_bind [OF read_step], rule triple_pure, intro triple_if, goal_cases)
  case (1 x)
  then show ?case by (intro halt_step) (use assms in \<open>auto simp: label_simps v4_terminal_def row_good_inv\<close>)
next
  case (2 x)
  then show ?case by (intro flat_step) (use assms in \<open>auto simp: label_simps v4_row_good_def\<close>)
next
  case (3 x)
  then show ?case by (intro halt_step) (use assms in \<open>auto simp: label_simps v4_terminal_def row_good_inv\<close>)
next
  case (4 x)
  show ?case by (rule start_exit_triple) (use assms in \<open>auto simp: label_simps\<close>)
qed

lemma attempt_cancel_protection_triple:
  assumes "c_state c = PROTECTION_CANCEL_INTENT_PERSISTED" and "v4_instant now t" and "c_ref c = ref"
    and "v4_policy_ok policy"
  shows "triple (v4_holds sent c) (v4_attempt_cancel_protection c policy sz t) (v4_done sent ref) (v4_exc sent now)"
  unfolding v4_attempt_cancel_protection_def
proof (rule with_row, rule triple_if, goal_cases)
  case 1
  then show ?case by (intro halt_step) (use assms in \<open>auto simp: label_simps v4_terminal_def row_good_inv\<close>)
next
  case 2
  show ?case
  proof (rule plan_step [OF 2(1)], goal_cases)
    case (5 plan)
    show ?case
    proof (rule send_fresh_step [OF _ _ _ _ assms(2) 5], goal_cases)
      case 5
      show ?case
        by (rule halt_step) (use assms 2 in \<open>auto simp: label_simps v4_terminal_def row_simps v4_row_good_def\<close>)
    next
      case 6
      show ?case
        unfolding v4_move_def
      proof (rule move_step, goal_cases)
        case 9
        show ?case
          by (rule reconcile_cancelled_triple) (use assms in \<open>auto simp: transition_row_keeps attempt_row_keeps\<close>)
      qed (use assms 2 in \<open>auto simp: attempt_row_keeps label_simps row_simps v4_row_good_def\<close>)
    qed (use assms 2 in \<open>auto simp: row_simps v4_row_good_def\<close>)
  qed (use assms 2 in \<open>auto simp: v4_policy_ok_def\<close>)
qed

text \<open>The transition that opens the cancel of a protection of the size the broker reports.\<close>

lemma open_cancel_step:
  assumes "PROTECTION_CANCEL_INTENT_PERSISTED \<in> set (v4_allowed (c_state c))" and "v4_row_good c"
    and "v4_safe_label category" and "neutral_category category" and "0 \<le> sz" and "v4_instant now t"
    and "c_ref c = ref" and "v4_policy_ok policy"
  shows "triple (v4_holds sent c)
    (bindE (on_store (v4_transition (c_ref c) PROTECTION_CANCEL_INTENT_PERSISTED category t None (Some sz) None None))
      (\<lambda>c. v4_attempt_cancel_protection c policy sz t)) (v4_done sent ref) (v4_exc sent now)"
proof (rule move_step, goal_cases)
  case 7
  have "c_state c = PROTECTION_RECONCILING \<or> c_state c = POSITION_PROTECTED"
    using assms(1) by (cases "c_state c") simp_all
  then show ?case
    using assms(2) by (elim disjE) (simp_all add: row_simps v4_row_good_def)
next
  case 9
  show ?case
    by (rule attempt_cancel_protection_triple) (use assms in \<open>auto simp: transition_row_keeps\<close>)
qed (use assms in auto)

section \<open>Protection\<close>

text \<open>An exact protection is confirmed only within the deadline.\<close>

lemma confirm_row_inv:
  assumes "v4_row_good c" and "c_state c = PROTECTION_RECONCILING" and "c_unprotected_since c = Some d"
    and "0 \<le> dt_utc t - dt_utc d" and "dt_utc t - dt_utc d \<le> v4_deadline_us"
  shows "v4_row_inv (v4_transition_row POSITION_PROTECTED t (Some (c_filled_size c)) (Some (c_filled_size c)) None None c)"
  using assms by (auto simp: row_simps v4_row_good_def)

lemma confirm_at:
  assumes st: "c_state c = PROTECTION_RECONCILING" and ref: "c_ref c = ref" and pol: "v4_policy_ok policy"
    and good: "v4_row_good c" and sizes: "fs = c_filled_size c" "ps = c_filled_size c" and t: "dt_aware t"
  shows "triple (v4_holds sent c)
    (case c_unprotected_since c of
       None \<Rightarrow> v4_halt c ''UNPROTECTED_START_TIME_MISSING_AT_CONFIRMATION'' t
     | Some d \<Rightarrow> bindE (liftE (dt_sub t d)) (\<lambda>elapsed.
         if elapsed < 0 then v4_halt c ''CLOCK_MOVED_BACKWARD_AT_PROTECTION_CONFIRMATION'' t
         else if v_max_unprotected_seconds policy * us_per_second < elapsed
         then v4_halt c ''PROTECTION_CONFIRMED_AFTER_DEADLINE'' t
         else bindE (on_store (v4_transition (c_ref c) POSITION_PROTECTED ''EXACT_SIZE_PROTECTION_CONFIRMED''
                t (Some fs) (Some ps) None None))
              (\<lambda>p. v4_result POSITION_PROTECTED_SYNTHETIC p [])))
    (v4_done sent ref) (v4_exc sent now)"
proof -
  obtain d where d: "c_unprotected_since c = Some d" "dt_aware d"
    using good st by (auto simp: v4_row_good_def v4_row_inv_def)
  let ?c' = "v4_transition_row POSITION_PROTECTED t (Some fs) (Some ps) None None c"
  have halt: "triple (v4_holds sent c) (v4_halt c r t) (v4_done sent ref) (v4_exc sent now)"
    if "v4_safe_label r" for r
    by (rule halt_step) (use that st t good ref in \<open>simp_all add: v4_terminal_def row_good_inv\<close>)
  have ok: "triple (v4_holds sent c)
      (bindE (on_store (v4_transition (c_ref c) POSITION_PROTECTED ''EXACT_SIZE_PROTECTION_CONFIRMED''
         t (Some fs) (Some ps) None None)) (\<lambda>p. v4_result POSITION_PROTECTED_SYNTHETIC p []))
      (v4_done sent ref) (v4_exc sent now)"
    if "0 \<le> dt_utc t - dt_utc d" "dt_utc t - dt_utc d \<le> v4_deadline_us"
  proof -
    have "v4_row_inv ?c'" using confirm_row_inv [OF good st d(1) that] sizes by simp
    then have "triple (v4_holds sent c) (on_store (v4_transition (c_ref c) POSITION_PROTECTED
        ''EXACT_SIZE_PROTECTION_CONFIRMED'' t (Some fs) (Some ps) None None))
        (\<lambda>x w. (x = ?c' \<and> dt_aware t) \<and> v4_holds sent ?c' w) (v4_exc sent now)"
      by (intro transition_step) (use t st good sizes in \<open>simp_all add: label_simps v4_row_good_def\<close>)
    then show ?thesis by (rule finish_step) (use ref in \<open>simp_all add: transition_row_keeps\<close>)
  qed
  have us: "v_max_unprotected_seconds policy * us_per_second = v4_deadline_us"
    using pol by (simp add: v4_policy_ok_def v4_deadline_us_def)
  show ?thesis
    unfolding d(1) option.case dt_sub_aware [OF t d(2)] us
    by (rule triple_bind_lift) (use ok in \<open>auto intro!: triple_if halt simp: label_simps\<close>)
qed

lemma reconcile_protection_triple:
  assumes "c_state c = PROTECTION_RECONCILING" and "v4_instant now t" and "c_ref c = ref"
    and "v4_policy_ok policy"
  shows "triple (v4_holds sent c) (v4_reconcile_protection c policy t) (v4_done sent ref) (v4_exc sent now)"
  unfolding v4_reconcile_protection_def Let_def
proof (rule with_row, rule triple_bind [OF read_step], rule triple_pure, intro triple_if, goal_cases)
  case (2 x)
  then show ?case by (intro flat_step) (use assms in \<open>auto simp: label_simps v4_row_good_def\<close>)
next
  case (3 x)
  then show ?case by (intro open_cancel_step) (use assms in \<open>auto simp: label_simps\<close>)
next
  case (7 x)
  show ?case
  proof (rule triple_bind [OF now_step], goal_cases)
    case (5 t')
    show ?case
      by (rule triple_pure, rule confirm_at) (use assms 7 in \<open>simp_all add: v4_exact_def\<close>)
  qed (use assms in \<open>auto intro: holds_inv world_inv_count\<close>)
next
  case (8 x)
  then have "snapshot_ok (the x)" by (auto simp: v4_unusable_def split: option.splits)
  with 8 show ?case
    by (intro open_cancel_step) (use assms in \<open>auto simp: label_simps snapshot_ok_def\<close>)
next
  case (9 x)
  show ?case by (rule start_exit_triple) (use assms in \<open>auto simp: label_simps\<close>)
qed (intro halt_step; use assms in \<open>auto simp: label_simps v4_terminal_def row_good_inv\<close>)+

lemma attempt_protection_triple:
  assumes "c_state c = PROTECTION_INTENT_PERSISTED" and "v4_instant now t" and "c_ref c = ref"
    and "v4_policy_ok policy"
  shows "triple (v4_holds sent c) (v4_attempt_protection c policy t) (v4_done sent ref) (v4_exc sent now)"
  unfolding v4_attempt_protection_def
proof (rule with_row, goal_cases)
  case 1
  show ?case
  proof (rule plan_step [OF 1], goal_cases)
    case (5 plan)
    show ?case
    proof (rule send_fresh_step [OF _ _ _ _ assms(2) 5], goal_cases)
      case 5
      show ?case
        by (rule halt_step) (use assms 1 in \<open>auto simp: label_simps v4_terminal_def row_simps v4_row_good_def\<close>)
    next
      case 6
      show ?case
        unfolding v4_move_def
      proof (rule move_step, goal_cases)
        case 9
        show ?case
          by (rule reconcile_protection_triple) (use assms in \<open>auto simp: transition_row_keeps attempt_row_keeps\<close>)
      qed (use assms 1 in \<open>auto simp: attempt_row_keeps label_simps row_simps v4_row_good_def\<close>)
    qed (use assms 1 in \<open>auto simp: row_simps v4_row_good_def\<close>)
  qed (use assms 1 in \<open>auto simp: v4_policy_ok_def row_simps v4_row_good_def\<close>)
qed

lemma ensure_protection_triple:
  assumes "c_state c = ENTRY_FILLED_UNPROTECTED" and "v4_instant now t" and "c_ref c = ref" and "v4_policy_ok policy"
  shows "triple (v4_holds sent c) (v4_ensure_protection c policy t) (v4_done sent ref) (v4_exc sent now)"
  unfolding v4_ensure_protection_def
proof (rule with_row, rule triple_bind [OF now_step], goal_cases)
  case (5 t')
  show ?case
  proof (rule triple_pure)
    assume t: "dt_aware t'"
    from 5 assms(1) obtain d where d: "c_unprotected_since c = Some d" "dt_aware d"
      by (auto simp: v4_row_good_def v4_row_inv_def)
    have "triple (v4_holds sent c) (v4_halt c ''CLOCK_MOVED_BACKWARD'' t') (v4_done sent ref) (v4_exc sent now)"
      by (rule halt_step) (use t assms 5 in \<open>auto simp: label_simps v4_terminal_def row_good_inv\<close>)
    moreover have "triple (v4_holds sent c) (v4_start_emergency_exit c policy ''UNPROTECTED_WINDOW_EXCEEDED'' t')
        (v4_done sent ref) (v4_exc sent now)"
      by (rule start_exit_triple) (use t assms in \<open>auto simp: label_simps\<close>)
    moreover have "triple (v4_holds sent c)
        (bindE (v4_move (c_ref c) PROTECTION_INTENT_PERSISTED ''PROTECTION_INTENT_PERSISTED'' t')
          (\<lambda>c. v4_attempt_protection c policy t')) (v4_done sent ref) (v4_exc sent now)"
      unfolding v4_move_def
    proof (rule move_step, goal_cases)
      case 9
      show ?case by (rule attempt_protection_triple) (use t assms in \<open>auto simp: transition_row_keeps\<close>)
    qed (use t assms 5 in \<open>auto simp: label_simps row_simps v4_row_good_def\<close>)
    ultimately show "triple (v4_holds sent c) (case c_unprotected_since c of
         None \<Rightarrow> v4_halt c ''UNPROTECTED_START_TIME_MISSING'' t'
       | Some d \<Rightarrow> bindE (liftE (dt_sub t' d)) (\<lambda>elapsed.
         if elapsed < 0 then v4_halt c ''CLOCK_MOVED_BACKWARD'' t'
         else if v_max_unprotected_seconds policy * us_per_second < elapsed
         then v4_start_emergency_exit c policy ''UNPROTECTED_WINDOW_EXCEEDED'' t'
         else bindE (v4_move (c_ref c) PROTECTION_INTENT_PERSISTED ''PROTECTION_INTENT_PERSISTED'' t')
              (\<lambda>c. v4_attempt_protection c policy t'))) (v4_done sent ref) (v4_exc sent now)"
      unfolding d(1) option.case dt_sub_aware [OF t d(2)]
      by (intro triple_bind_lift) auto
  qed
qed (use assms in \<open>auto intro: holds_inv world_inv_count\<close>)

section \<open>Entry\<close>

text \<open>
  One round of the entry reconciliation, given the cancel branch.  \<open>R\<close> is what is known of the
  attempts.
\<close>

lemma entry_snapshot_facts:
  assumes "v4_entry_snapshot_invalid_reason s c = None" and "snapshot_ok s" and "0 < c_requested_size c"
  shows "sn_filled_size s + sn_pending_entry_size s \<le> c_requested_size c" and "sn_protection_size s = 0"
    and "\<not> (sn_position_count s = 0 \<and> sn_filled_size s = 0) \<Longrightarrow> 0 < sn_filled_size s"
  using assms by (auto simp: v4_entry_snapshot_invalid_reason_def snapshot_ok_def split: if_splits)

lemma invalid_reason_safe: "v4_entry_snapshot_invalid_reason s c = Some r \<Longrightarrow> v4_safe_label r"
  by (auto simp: v4_entry_snapshot_invalid_reason_def label_simps split: if_splits)

lemma reconcile_entry_round:
  assumes st: "c_state c = ENTRY_RECONCILING" and t: "v4_instant now t" and ref: "c_ref c = ref"
    and pol: "v4_policy_ok policy"
    and cancel: "\<And>s. v4_row_good c \<Longrightarrow> 0 < sn_pending_entry_size s \<Longrightarrow> sn_pending_entry_size s \<le> c_requested_size c \<Longrightarrow>
      triple (\<lambda>w. (v4_holds sent c w \<and> R (db_attempts (w_store w))) \<and> \<not> v4_attempted c CANCEL_ENTRY_REMAINDER w)
        (v4_attempt_cancel_remainder fuel c policy s t) (v4_done sent ref) (v4_exc sent now)"
  shows "triple (\<lambda>w. v4_holds sent c w \<and> R (db_attempts (w_store w)))
    (v4_reconcile_entry (Suc fuel) c policy t) (v4_done sent ref) (v4_exc sent now)"
  unfolding v4_reconcile_entry.simps Let_def
proof (rule with_row_and, rule triple_bind [OF read_step_and], rule triple_pure, rule triple_if, goal_cases)
  case (1 x)
  have "triple (v4_holds sent c) (v4_halt c ''ENTRY_RECONCILIATION_UNKNOWN'' t) (v4_done sent ref) (v4_exc sent now)"
    by (rule halt_step) (use 1 st t ref in \<open>auto simp: label_simps v4_terminal_def row_good_inv\<close>)
  then show ?case by (rule triple_pre) simp
next
  case (2 x)
  let ?P = "\<lambda>w. v4_holds sent c w \<and> R (db_attempts (w_store w))"
  let ?s = "the x"
  have ok: "snapshot_ok ?s" using 2 by (auto simp: v4_unusable_def split: option.splits)
  have halt: "triple ?P (v4_halt c r t) (v4_done sent ref) (v4_exc sent now)" if "v4_safe_label r" for r
  proof -
    have "triple (v4_holds sent c) (v4_halt c r t) (v4_done sent ref) (v4_exc sent now)"
      by (rule halt_step) (use that 2 st t ref in \<open>auto simp: v4_terminal_def row_good_inv\<close>)
    then show ?thesis by (rule triple_pre) simp
  qed
  show ?case
  proof (rule triple_option, goal_cases)
    case 1
    have req: "0 < c_requested_size c" using 2 by (simp add: v4_row_good_def)
    note facts = entry_snapshot_facts [OF 1 ok req]
    show ?case
    proof (intro triple_if, goal_cases)
      case 1
      show ?case
      proof (rule triple_bind_get, rule triple_if, goal_cases)
        case (1 y)
        have "triple ?P (v4_halt c ''ENTRY_REMAINDER_PERSISTS_AFTER_CANCEL'' t) (v4_done sent ref) (v4_exc sent now)"
          by (rule halt) (simp add: label_simps)
        then show ?case by (rule triple_pre) simp
      next
        case (2 y)
        have "sn_pending_entry_size ?s \<le> c_requested_size c"
          using facts(1) ok by (simp add: snapshot_ok_def)
        from cancel [OF \<open>v4_row_good c\<close> 1 this] show ?case
          by (rule triple_pre) (use 2 in \<open>auto simp: action_attempted_iff\<close>)
      qed
    next
      case 2
      have "triple (v4_holds sent c) (bindE (v4_move (c_ref c) FLAT_RECONCILED ''ENTRY_REJECTED_OR_UNFILLED_FLAT'' t)
          (\<lambda>flat. v4_result FLAT_RECONCILED_SYNTHETIC flat [])) (v4_done sent ref) (v4_exc sent now)"
        unfolding v4_move_def
        by (rule flat_step) (use \<open>v4_row_good c\<close> st t ref
          in \<open>simp_all add: label_simps v4_row_good_def v4_row_inv_def v4_unfilled_states_def\<close>)
      then show ?case by (rule triple_pre) simp
    next
      case 3
      have filled: "0 < sn_filled_size ?s" using facts(3) 3 by simp
      have le: "sn_filled_size ?s \<le> c_requested_size c" using facts(1) ok by (simp add: snapshot_ok_def)
      have "triple (v4_holds sent c) (bindE (on_store (v4_transition (c_ref c) ENTRY_FILLED_UNPROTECTED
          ''ENTRY_FILLED_UNPROTECTED'' t (Some (sn_filled_size ?s)) (Some (sn_protection_size ?s)) (Some t) None))
          (\<lambda>filled. v4_ensure_protection filled policy t)) (v4_done sent ref) (v4_exc sent now)"
      proof (rule move_step, goal_cases)
        case 9
        show ?case
          by (rule ensure_protection_triple) (use ref pol t in \<open>auto simp: transition_row_keeps\<close>)
      qed (use \<open>v4_row_good c\<close> st t ref filled le facts(2)
          in \<open>simp_all add: label_simps row_simps v4_row_good_def split: option.splits\<close>)
      then show ?case by (rule triple_pre) simp
    qed
  next
    case (2 r)
    then show ?case by (intro halt) (rule invalid_reason_safe)
  qed
qed

text \<open>When the cancel has been attempted, one round is enough.\<close>

lemma reconcile_entry_again:
  assumes "c_state c = ENTRY_RECONCILING" and "v4_instant now t" and "c_ref c = ref" and "v4_policy_ok policy"
  shows "triple (\<lambda>w. v4_holds sent c w \<and> v4_tried ref CANCEL_ENTRY_REMAINDER (db_attempts (w_store w)))
    (v4_reconcile_entry (Suc fuel) c policy t) (v4_done sent ref) (v4_exc sent now)"
  by (rule reconcile_entry_round) (use assms in \<open>auto simp: triple_def attempted_tried\<close>)

lemma attempt_cancel_remainder_triple:
  assumes "c_state c = ENTRY_RECONCILING" and "v4_instant now t" and "c_ref c = ref" and "v4_policy_ok policy"
    and good: "v4_row_good c" and "0 < sn_pending_entry_size s" and "sn_pending_entry_size s \<le> c_requested_size c"
  shows "triple (\<lambda>w. v4_holds sent c w \<and> \<not> v4_attempted c CANCEL_ENTRY_REMAINDER w)
    (v4_attempt_cancel_remainder (Suc fuel) c policy s t) (v4_done sent ref) (v4_exc sent now)"
  unfolding v4_attempt_cancel_remainder.simps
proof (rule plan_step [OF good], goal_cases)
  case (5 plan)
  let ?c' = "v4_attempt_row CANCEL_ENTRY_REMAINDER REMAINDER_CANCEL_ATTEMPTED t c"
  let ?c'' = "v4_transition_row ENTRY_RECONCILING t None None None None ?c'"
  show ?case
  proof (rule send_step [OF _ _ _ assms(2) refl], goal_cases)
    case 5
    show ?case
      by (rule halt_step) (use assms in \<open>auto simp: label_simps v4_terminal_def row_simps v4_row_good_def\<close>)
  next
    case 6
    show ?case
    proof (rule triple_bind)
      show "triple (\<lambda>w. v4_holds sent ?c' w \<and> v4_attempted ?c' CANCEL_ENTRY_REMAINDER w)
          (v4_move (c_ref ?c') ENTRY_RECONCILING ''CANCEL_REMAINDER_RECONCILING'' t)
          (\<lambda>x w. (x = ?c'' \<and> dt_aware t) \<and> v4_holds sent ?c'' w
            \<and> v4_tried ref CANCEL_ENTRY_REMAINDER (db_attempts (w_store w))) (v4_exc sent now)"
        unfolding v4_move_def attempted_tried attempt_row_ref assms(3)
        by (rule transition_step_and [where c = ?c', unfolded attempt_row_ref assms(3)])
          (use assms in \<open>simp_all add: attempt_row_keeps label_simps row_simps v4_row_good_def\<close>)
      show "triple (\<lambda>w. (x = ?c'' \<and> dt_aware t) \<and> v4_holds sent ?c'' w
            \<and> v4_tried ref CANCEL_ENTRY_REMAINDER (db_attempts (w_store w)))
          (v4_reconcile_entry (Suc fuel) x policy t) (v4_done sent ref) (v4_exc sent now)" for x
        by (rule triple_pure, elim conjE, hypsubst, rule reconcile_entry_again)
          (use assms in \<open>simp_all add: transition_row_keeps\<close>)
    qed
  qed (use assms 5 in \<open>auto simp: row_simps v4_row_good_def v4_plan_for_def\<close>)
qed (use assms in \<open>auto simp: v4_policy_ok_def\<close>)

lemma reconcile_entry_triple:
  assumes "c_state c = ENTRY_RECONCILING" and "v4_instant now t" and "c_ref c = ref" and "v4_policy_ok policy"
  shows "triple (v4_holds sent c) (v4_reconcile_entry entry_fuel c policy t) (v4_done sent ref) (v4_exc sent now)"
proof -
  have "triple (\<lambda>w. v4_holds sent c w \<and> True) (v4_reconcile_entry (Suc (Suc 0)) c policy t)
      (v4_done sent ref) (v4_exc sent now)"
    by (rule reconcile_entry_round [where R = "\<lambda>_. True", OF assms])
       (use attempt_cancel_remainder_triple [OF assms] in simp)
  then show ?thesis by (simp add: entry_fuel_def numeral_2_eq_2)
qed

lemma attempt_market_entry_triple:
  assumes "c_state c = ENTRY_INTENT_PERSISTED" and "c_ref c = ref" and "v4_policy_ok policy"
  shows "triple (v4_holds sent c) (v4_attempt_market_entry c policy now) (v4_done sent ref) (v4_exc sent now)"
  unfolding v4_attempt_market_entry_def
proof (rule with_row, goal_cases)
  case good: 1
  show ?case
  proof (rule plan_step [OF good], goal_cases)
    case plan: (5 plan)
    show ?case
    proof (rule triple_bind [OF now_step], goal_cases)
      case (5 t)
      show ?case
      proof (rule triple_pure)
        assume t: "dt_aware t"
        let ?c' = "v4_attempt_row MARKET_ENTRY MARKET_ENTRY_ATTEMPTED t c"
        have halt: "triple (v4_holds sent ?c') (v4_halt ?c' ''MARKET_ENTRY_BOUNDARY_REFUSED'' now)
            (v4_done sent ref) (v4_exc sent now)"
          by (rule halt_step) (use assms good in \<open>auto simp: label_simps v4_terminal_def row_simps v4_row_good_def split: option.splits\<close>)
        have next_step: "triple (v4_holds sent ?c') (bindE (v4_now now) (\<lambda>t'.
            bindE (v4_move (c_ref ?c') ENTRY_RECONCILING ''ENTRY_RECONCILING'' t') (\<lambda>cycle.
            v4_reconcile_entry entry_fuel cycle policy t'))) (v4_done sent ref) (v4_exc sent now)"
        proof (rule triple_bind [OF now_step], goal_cases)
          case (5 t')
          show ?case
            unfolding v4_move_def
          proof (rule triple_pure, rule move_step, goal_cases)
            case 9
            show ?case
              by (rule reconcile_entry_triple) (use assms 9 in \<open>auto simp: transition_row_keeps\<close>)
          qed (use assms good in \<open>auto simp: attempt_row_keeps label_simps row_simps v4_row_good_def split: option.splits\<close>)
        qed (use assms in \<open>auto intro: holds_inv world_inv_count\<close>)
        show "triple (v4_holds sent c)
            (bindE (on_store (v4_record_action_attempt (c_ref c) MARKET_ENTRY MARKET_ENTRY_ATTEMPTED t)) (\<lambda>cycle.
             try_exceptE (on_broker (perform_once_synthetic plan)) is_boundary_error
               (v4_halt cycle ''MARKET_ENTRY_BOUNDARY_REFUSED'' now) (\<lambda>outcome.
             thenE (on_store (v4_record_action_outcome (c_ref cycle) MARKET_ENTRY (outcome_value outcome)))
             (bindE (v4_now now) (\<lambda>reconcile_time.
              bindE (v4_move (c_ref cycle) ENTRY_RECONCILING ''ENTRY_RECONCILING'' reconcile_time) (\<lambda>cycle.
              v4_reconcile_entry entry_fuel cycle policy reconcile_time))))))
            (v4_done sent ref) (v4_exc sent now)"
        proof (rule send_fresh_step [OF _ _ _ _ _ plan], goal_cases)
          case 6
          show ?case by (rule halt)
        next
          case 7
          show ?case by (rule next_step)
        qed (use assms good t in \<open>auto simp: row_simps v4_row_good_def split: option.splits\<close>)
      qed
    qed (use assms in \<open>auto intro: holds_inv world_inv_count\<close>)
  qed (use assms good in \<open>auto simp: v4_policy_ok_def v4_row_good_def\<close>)
qed

end
