(* ===== verification/V4_Engine_Safety.thy ===== *)
theory V4_Engine_Safety
  imports V4_Engine_Proof
begin

text \<open>
  The two public methods of the v4 engine, and every world they can reach: any number of engine
  objects one after the other on the same database, each with its own broker and clock, stopped
  at any call, with the operator's store methods in between.
\<close>

section \<open>resume_synthetic\<close>

lemma existing_protected_triple:
  assumes "c_state c = POSITION_PROTECTED" and "v4_instant now t" and "c_ref c = ref" and "v4_policy_ok policy"
  shows "triple (v4_holds sent c) (v4_reconcile_existing_protected_position c policy t) (v4_done sent ref) (v4_exc sent now)"
  unfolding v4_reconcile_existing_protected_position_def Let_def
proof (rule with_row, rule triple_bind [OF read_step], rule triple_pure, intro triple_if, goal_cases)
  case (2 x)
  then show ?case by (intro flat_step) (use assms in \<open>auto simp: label_simps v4_row_good_def\<close>)
next
  case (3 x)
  then show ?case by (intro result_step) (use assms in auto)
next
  case (7 x)
  then show ?case by (intro open_cancel_step) (use assms in \<open>auto simp: label_simps\<close>)
next
  case (8 x)
  show ?case by (rule start_exit_triple) (use assms in \<open>auto simp: label_simps\<close>)
qed (intro halt_step; use assms in \<open>auto simp: label_simps v4_terminal_def row_good_inv\<close>)+

text \<open>The rows a restart moves on before it reconciles.\<close>

lemma restart_move:
  assumes "target \<in> set (v4_allowed (c_state c))" and "v4_safe_label category" and "neutral_category category"
    and "v4_row_inv (v4_transition_row target now None None None None c)"
    and "triple (v4_holds sent (v4_transition_row target now None None None None c))
        (f (v4_transition_row target now None None None None c)) Q (v4_exc sent now)"
  shows "triple (v4_holds sent c) (bindE (v4_move (c_ref c) target category now) f) Q (v4_exc sent now)"
  unfolding v4_move_def by (rule move_step) (use assms in simp_all)

lemma resume_cycle_triple:
  assumes ref: "c_ref c = ref" and pol: "v4_policy_ok policy"
  shows "triple (v4_holds sent c) (v4_resume_cycle ref c policy now) (v4_done sent ref) (v4_exc sent now)"
proof (rule with_row)
  assume good: "v4_row_good c"
  let ?n = "\<lambda>s. v4_transition_row s now None None None None c"
  note rows = row_simps v4_row_good_def
  show "triple (v4_holds sent c) (v4_resume_cycle ref c policy now) (v4_done sent ref) (v4_exc sent now)"
    unfolding ref [symmetric]
  proof (cases "c_state c", goal_cases)
    case 1
    have "triple (v4_holds sent c) (v4_halt c ''RESTART_ENTRY_PREFLIGHT_NOT_FLAT_OR_UNKNOWN'' now)
        (v4_done sent (c_ref c)) (v4_exc sent now)"
      by (rule halt_step) (use 1 good in \<open>auto simp: label_simps v4_terminal_def row_good_inv\<close>)
    moreover have "triple (v4_holds sent c) (v4_attempt_market_entry c policy now) (v4_done sent (c_ref c)) (v4_exc sent now)"
      by (rule attempt_market_entry_triple) (use 1 pol in auto)
    ultimately show ?case
      by (simp add: v4_resume_cycle_def 1) (rule triple_bind [OF read_step], rule triple_pure, rule triple_if; simp)
  next
    case 2
    have "triple (v4_holds sent (?n ENTRY_RECONCILING)) (v4_reconcile_entry entry_fuel (?n ENTRY_RECONCILING) policy now)
        (v4_done sent (c_ref c)) (v4_exc sent now)"
      by (rule reconcile_entry_triple) (use pol in \<open>auto simp: transition_row_keeps\<close>)
    with 2 good show ?case
      by (simp add: v4_resume_cycle_def) (rule restart_move, simp_all add: label_simps rows)
  next
    case 3
    then show ?case using pol reconcile_entry_triple by (simp add: v4_resume_cycle_def)
  next
    case 4
    have "triple (v4_holds sent (?n ENTRY_RECONCILING)) (v4_reconcile_entry entry_fuel (?n ENTRY_RECONCILING) policy now)
        (v4_done sent (c_ref c)) (v4_exc sent now)"
      by (rule reconcile_entry_triple) (use pol in \<open>auto simp: transition_row_keeps\<close>)
    with 4 good show ?case
      by (simp add: v4_resume_cycle_def) (rule restart_move, simp_all add: label_simps rows)
  next
    case 5
    then show ?case using pol ensure_protection_triple by (simp add: v4_resume_cycle_def)
  next
    case 6
    then show ?case using pol attempt_protection_triple by (simp add: v4_resume_cycle_def)
  next
    case 7
    have "triple (v4_holds sent (?n PROTECTION_RECONCILING)) (v4_reconcile_protection (?n PROTECTION_RECONCILING) policy now)
        (v4_done sent (c_ref c)) (v4_exc sent now)"
      by (rule reconcile_protection_triple) (use pol in \<open>auto simp: transition_row_keeps\<close>)
    with 7 good show ?case
      by (simp add: v4_resume_cycle_def) (rule restart_move, simp_all add: label_simps rows)
  next
    case 8
    then show ?case using pol reconcile_protection_triple by (simp add: v4_resume_cycle_def)
  next
    case 9
    then show ?case using pol existing_protected_triple by (simp add: v4_resume_cycle_def)
  next
    case 10
    then show ?case using pol attempt_cancel_protection_triple by (simp add: v4_resume_cycle_def)
  next
    case 11
    have "triple (v4_holds sent (?n PROTECTION_CANCEL_RECONCILING))
        (v4_reconcile_cancelled_protection (?n PROTECTION_CANCEL_RECONCILING) policy now)
        (v4_done sent (c_ref c)) (v4_exc sent now)"
      by (rule reconcile_cancelled_triple) (use pol in \<open>auto simp: transition_row_keeps\<close>)
    with 11 good show ?case
      by (simp add: v4_resume_cycle_def) (rule restart_move, simp_all add: label_simps rows)
  next
    case 12
    then show ?case using pol reconcile_cancelled_triple by (simp add: v4_resume_cycle_def)
  next
    case 13
    then show ?case using pol attempt_exit_triple by (simp add: v4_resume_cycle_def)
  next
    case 14
    then show ?case using pol reconcile_exit_triple by (simp add: v4_resume_cycle_def)
  qed (auto simp: v4_resume_cycle_def intro!: result_step)
qed

text \<open>Loading the row, then resuming it; a policy that is not the cycle's halts an active cycle.\<close>

lemma load_step:
  "triple (v4_holds sent c) (on_store (v4_load_cycle (c_ref c))) (\<lambda>x w. x = c \<and> v4_holds sent c w) (v4_exc sent now)"
  by (rule on_store_triple)
     (auto simp: v4_load_cycle_def run_progs v4_holds_def dest: world_inv_count world_inv_stopped)

lemma resume_triple:
  assumes "c_config_hash c = v4_config_hash policy \<or> \<not> v4_terminal (c_state c)" and "v4_policy_ok policy"
  shows "triple (v4_holds sent c) (v4_resume_synthetic (c_ref c) policy now) (v4_done sent (c_ref c)) (v4_exc sent now)"
  unfolding v4_resume_synthetic_def
proof (rule with_row, rule triple_bind_eq [OF load_step], rule triple_if, goal_cases)
  case 1
  then show ?case
    by (intro halt_step) (use assms in \<open>auto simp: label_simps row_good_inv\<close>)
next
  case 2
  show ?case by (rule resume_cycle_triple) (use assms in auto)
qed

text \<open>Whatever the row, resuming keeps the invariant.\<close>

lemma halt_refused:
  assumes "v4_terminal (c_state c)"
  shows "triple (v4_holds sent c) (v4_halt c reason t) (\<lambda>_. v4_world_inv sent) (\<lambda>_. v4_world_inv sent)"
  unfolding v4_halt_def
proof (rule triple_bind [where R = "\<lambda>_ _. False"])
  show "triple (v4_holds sent c) (on_store (v4_transition (c_ref c) HALTED_OPERATOR_REVIEW_REQUIRED
      ''HALTED_OPERATOR_REVIEW_REQUIRED'' t None None None (Some reason))) (\<lambda>_ _. False) (\<lambda>_. v4_world_inv sent)"
  proof (rule on_store_triple)
    fix w assume h: "v4_holds sent c w"
    obtain r db where run: "v4_transition (c_ref c) HALTED_OPERATOR_REVIEW_REQUIRED
        ''HALTED_OPERATOR_REVIEW_REQUIRED'' t None None None (Some reason) (w_store w) = (r, db)"
      by (cases "v4_transition (c_ref c) HALTED_OPERATOR_REVIEW_REQUIRED
        ''HALTED_OPERATOR_REVIEW_REQUIRED'' t None None None (Some reason) (w_store w)")
    have "(\<exists>e. r = Inl e) \<and> db = w_store w"
      using transition_cases [OF run] h assms v4_allowed_to_halted by (auto simp: v4_holds_def)
    with run h show "case v4_transition (c_ref c) HALTED_OPERATOR_REVIEW_REQUIRED
        ''HALTED_OPERATOR_REVIEW_REQUIRED'' t None None None (Some reason) (w_store w) of
        (Inr x, s) \<Rightarrow> False | (Inl e, s) \<Rightarrow> v4_world_inv sent (w\<lparr>w_store := s\<rparr>)"
      by (auto simp: holds_inv)
  qed (auto intro: holds_inv world_inv_count)
qed (simp add: triple_def)

lemma resume_inv:
  assumes "v4_policy_ok policy"
  shows "triple (v4_world_inv sent) (v4_resume_synthetic ref policy now)
    (\<lambda>_. v4_world_inv sent) (\<lambda>_. v4_world_inv sent)"
  unfolding triple_def
proof (intro allI impI)
  fix w assume w: "v4_world_inv sent w"
  show "case v4_resume_synthetic ref policy now w of (Inr x, s) \<Rightarrow> v4_world_inv sent s | (Inl e, s) \<Rightarrow> v4_world_inv sent s"
  proof (cases "v4_find ref (w_store w)")
    case None
    with w show ?thesis
      by (auto simp: v4_resume_synthetic_def on_store_def checkpoint_def run_progs v4_load_cycle_def
          intro: world_inv_count split: option.splits nat.splits)
  next
    case (Some c)
    have ref: "c_ref c = ref" using v4_find_ref [OF Some] by simp
    with w Some have h: "v4_holds sent c w" by (simp add: v4_holds_def)
    have "triple (v4_holds sent c) (v4_resume_synthetic (c_ref c) policy now)
        (\<lambda>_. v4_world_inv sent) (\<lambda>_. v4_world_inv sent)"
    proof (cases "c_config_hash c = v4_config_hash policy \<or> \<not> v4_terminal (c_state c)")
      case True
      from resume_triple [OF this assms] show ?thesis
        by (rule triple_weaken) (auto simp: v4_done_def holds_inv)
    next
      case False
      show ?thesis
        unfolding v4_resume_synthetic_def
      proof (rule triple_bind_eq)
        show "triple (v4_holds sent c) (on_store (v4_load_cycle (c_ref c))) (\<lambda>x w. x = c \<and> v4_holds sent c w)
            (\<lambda>_. v4_world_inv sent)"
          by (rule triple_weaken [OF load_step]) auto
        show "triple (v4_holds sent c) (if c_config_hash c \<noteq> v4_config_hash policy
            then v4_halt c ''POLICY_CONFIG_HASH_MISMATCH'' now else v4_resume_cycle (c_ref c) c policy now)
            (\<lambda>_. v4_world_inv sent) (\<lambda>_. v4_world_inv sent)"
          using False halt_refused by simp
      qed
    qed
    with h ref show ?thesis by (auto simp: triple_def)
  qed
qed

section \<open>run_signal_once_synthetic\<close>

text \<open>
  The two refusals of \<open>create_cycle\<close> that the reasons of the method do not foresee: a market
  entry already attempted on the JST day, and a signal that has had a cycle before.
\<close>

definition v4_creation_refused :: "py_exn \<Rightarrow> bool" where
  "v4_creation_refused e \<longleftrightarrow>
     e \<in> {V4GmoPersistenceError ''v4 GMO daily entry attempt already exists'',
          V4GmoPersistenceError ''duplicate v4 GMO cycle refused''}"

lemma new_row_inv: "0 < v_requested_size policy \<Longrightarrow> v4_row_inv (v4_new_cycle signal policy ref now)"
  by (simp add: v4_row_inv_def v4_new_cycle_def v4_unfilled_states_def)

lemma add_cycle_plan_ok: "v4_plan_ok db p \<Longrightarrow> v4_plan_ok (v4_add_cycle c db) p"
  by (auto simp: v4_plan_ok_def create_find)

lemma create_raises:
  assumes inv: "v4_store_inv db" and ok: "v4_accepts policy signal" and aware: "dt_aware now"
    and active: "v4_active_cycle_count db = 0" and latch: "\<not> v4_halt_latched db"
    and run: "v4_create_cycle signal policy now db = (Inl e, db')"
  shows "v4_creation_refused e"
proof -
  obtain ref where ref: "build_v4_cycle_ref signal policy = Inr ref"
    using ok by (auto simp: build_v4_cycle_ref_def)
  let ?c = "v4_new_cycle signal policy ref now"
  let ?db1 = "db\<lparr>db_cycles := db_cycles db @ [?c]\<rparr>"
  have sel: "select_one (\<lambda>c. v4_active (c_state c)) (db_cycles db) = None"
    using active by (simp add: select_one_None v4_active_cycle_count_def count_rows_zero)
  have app: "v4_append_event ref ''ENTRY_INTENT_PERSISTED'' ENTRY_INTENT_PERSISTED ?db1 =
      (Inr (), ?db1\<lparr>db_events := db_events ?db1 @ [v4_next_event ?db1 ref ''ENTRY_INTENT_PERSISTED'' ENTRY_INTENT_PERSISTED]\<rparr>)"
    using inv intent_safe(1)
    by (intro append_event_run) (auto simp: v4_store_inv_def v4_find_def select_one_None v4_new_cycle_def)
  have found: "\<exists>c. v4_find ref (?db1\<lparr>db_events := x\<rparr>) = Some c" for x
    by (auto simp: v4_find_def select_one_None v4_new_cycle_def simp flip: not_None_eq)
  obtain x where app': "v4_append_event ref ''ENTRY_INTENT_PERSISTED'' ENTRY_INTENT_PERSISTED ?db1 =
      (Inr (), ?db1\<lparr>db_events := x\<rparr>)" using app by blast
  obtain y where load: "v4_load_cycle ref (?db1\<lparr>db_events := x\<rparr>) = (Inr y, ?db1\<lparr>db_events := x\<rparr>)"
    using found [of x] by (auto simp: v4_load_cycle_def run_progs)
  have ins: "insert_cycle ?c db = (Inl SqliteIntegrityError, db) \<or> insert_cycle ?c db = (Inr (), ?db1)"
    unfolding insert_cycle_def by (simp only: split: if_split) blast
  consider (daily) "v4_market_attempt_on_day (jst_day now) db"
    | (dup) "\<not> v4_market_attempt_on_day (jst_day now) db" "insert_cycle ?c db = (Inl SqliteIntegrityError, db)"
    | (new) "\<not> v4_market_attempt_on_day (jst_day now) db" "insert_cycle ?c db = (Inr (), ?db1)"
    using ins by blast
  then show ?thesis
  proof cases
    case daily
    with run ref sel aware latch show ?thesis
      by (simp add: v4_create_cycle_def run_progs v4_timestamp_def v4_creation_refused_def)
  next
    case dup
    with run ref sel aware latch show ?thesis
      by (simp add: v4_create_cycle_def run_progs v4_timestamp_def v4_creation_refused_def)
  next
    case new
    with run ref sel aware latch app' load show ?thesis
      by (simp add: v4_create_cycle_def run_progs v4_timestamp_def)
  qed
qed

lemma create_step:
  assumes "v4_policy_ok policy" and "v4_accepts policy signal" and "dt_aware now"
  shows "triple (\<lambda>w. v4_world_inv sent w \<and> v4_active_cycle_count (w_store w) = 0 \<and> \<not> v4_halt_latched (w_store w))
    (on_store (v4_create_cycle signal policy now))
    (\<lambda>c w. c_state c = ENTRY_INTENT_PERSISTED \<and> v4_holds sent c w)
    (\<lambda>e w. v4_world_inv sent w \<and> (v4_expected (fst sent) now e \<or> v4_creation_refused e))"
proof (rule on_store_triple)
  fix w assume w: "v4_world_inv sent w \<and> v4_active_cycle_count (w_store w) = 0 \<and> \<not> v4_halt_latched (w_store w)"
  then have inv: "v4_store_inv (w_store w)" using reach_inv world_inv_reach by blast
  obtain r db where run: "v4_create_cycle signal policy now (w_store w) = (r, db)"
    by (cases "v4_create_cycle signal policy now (w_store w)")
  show "case v4_create_cycle signal policy now (w_store w) of
      (Inr c, s) \<Rightarrow> c_state c = ENTRY_INTENT_PERSISTED \<and> v4_holds sent c (w\<lparr>w_store := s\<rparr>)
    | (Inl e, s) \<Rightarrow> v4_world_inv sent (w\<lparr>w_store := s\<rparr>) \<and> (v4_expected (fst sent) now e \<or> v4_creation_refused e)"
  proof (cases "\<exists>e. r = Inl e \<and> db = w_store w")
    case True
    with run w create_raises [OF inv assms(2,3)] show ?thesis by auto
  next
    case False
    then obtain ref where r: "r = Inr (v4_new_cycle signal policy ref now)"
      and db: "db = v4_add_cycle (v4_new_cycle signal policy ref now) (w_store w)"
      and none: "v4_find ref (w_store w) = None"
      using create_cases [OF run] by auto
    let ?c = "v4_new_cycle signal policy ref now"
    have c: "c_ref ?c = ref" "c_state ?c = ENTRY_INTENT_PERSISTED" by (simp_all add: v4_new_cycle_def)
    have "v4_reach db" using w run by (auto simp: v4_world_inv_def intro: reach_create)
    moreover have "\<forall>c \<in> set (db_cycles db). v4_row_inv c"
      using w assms(1) new_row_inv unfolding db by (auto simp: v4_world_inv_def v4_policy_ok_def)
    moreover have "v4_calls_inv (snd sent @ b_calls (w_broker w)) db"
      using w unfolding db by (auto simp: v4_world_inv_def v4_calls_inv_def intro: add_cycle_plan_ok)
    moreover have "v4_find ref db = Some ?c" unfolding db using none c by (simp add: create_find)
    ultimately show ?thesis using run r w c by (auto simp: v4_holds_def v4_world_inv_def)
  qed
qed (auto dest: world_inv_count world_inv_stopped)

text \<open>A result that reports no cycle, or the row of the new cycle.\<close>

definition v4_run_done :: "v4_env \<Rightarrow> v4_cycle_result \<Rightarrow> v4_world \<Rightarrow> bool" where
  "v4_run_done sent r w \<longleftrightarrow> v4_world_inv sent w
     \<and> (r_cycle_ref r = None \<and> r_status r \<in> {NO_ACTION_STAY, BLOCKED_SAFE} \<and> r_actual_post_count r = 0
        \<or> (\<exists>ref. v4_done sent ref r w))"

lemma blocked_step:
  "status \<in> {NO_ACTION_STAY, BLOCKED_SAFE} \<Longrightarrow> (\<And>w. P w \<Longrightarrow> v4_world_inv sent w) \<Longrightarrow>
    triple P (returnE (v4_empty_result status reasons)) (v4_run_done sent) E"
  by (auto simp: triple_def v4_run_done_def v4_empty_result_def)

lemma run_triple:
  assumes pol: "v4_policy_ok policy" and sig: "dt_aware (s_valid_until signal)"
  shows "triple (v4_world_inv sent) (v4_run_signal_once_synthetic signal policy preflight now)
    (v4_run_done sent)
    (\<lambda>e w. v4_world_inv sent w \<and> (v4_expected (fst sent) now e \<or> v4_creation_refused e))"
  unfolding v4_run_signal_once_synthetic_def Let_def
proof (rule triple_bind_lift, goal_cases)
  case (1 expired)
  show ?case
  proof (intro triple_if triple_bind_get blocked_step, simp_all, goal_cases)
    case (1 a h)
    then have aware: "dt_aware now" and ok: "v4_accepts policy signal" and a: "a = 0" and h: "\<not> h"
      using \<open>(if \<not> dt_aware now then Inr True else if \<not> dt_comparable now (s_valid_until signal)
        then Inl PyTypeError else Inr (dt_leq (s_valid_until signal) now)) = Inr expired\<close>
      by (auto split: if_splits)
    let ?E = "\<lambda>e w. v4_world_inv sent w \<and> (v4_expected (fst sent) now e \<or> v4_creation_refused e)"
    have entry: "triple (\<lambda>w. c_state c = ENTRY_INTENT_PERSISTED \<and> v4_holds sent c w)
        (v4_attempt_market_entry c policy now) (v4_run_done sent) ?E" for c
    proof (rule triple_pure)
      assume st: "c_state c = ENTRY_INTENT_PERSISTED"
      show "triple (v4_holds sent c) (v4_attempt_market_entry c policy now) (v4_run_done sent) ?E"
        by (rule triple_weaken [OF attempt_market_entry_triple [OF st refl pol]])
           (auto simp: v4_run_done_def v4_done_def holds_inv)
    qed
    show ?case
      by (rule triple_bind [OF triple_pre [OF create_step [OF pol ok aware]] entry])
         (use a h in auto)
  qed
next
  case (2 e s)
  with sig show ?case by (auto simp: dt_comparable_def split: if_splits)
qed

section \<open>Reachable worlds\<close>

text \<open>A broker argument of the constructor that has not been used yet.\<close>

definition v4_fresh_broker :: "v4_broker option \<Rightarrow> bool" where
  "v4_fresh_broker broker \<longleftrightarrow> (case broker of None \<Rightarrow> True | Some b \<Rightarrow> b_calls b = [] \<and> b_good b)"

text \<open>
  \<open>sent\<close> collects the calls of the brokers of earlier engines.  A new engine may be built on the
  database at any time, in particular after a call was stopped; the operator's methods act on the
  database directly, and a runtime reconciles the broker itself before it starts an engine.
\<close>

inductive v4_world_reach :: "v4_plan list \<Rightarrow> v4_world \<Rightarrow> bool" where
  world_start: "v4_fresh_broker broker \<Longrightarrow>
    H11V4GmoNoPostEngine v4_empty_db broker clock interrupt = Inr w \<Longrightarrow> v4_world_reach [] w"
| world_restart: "v4_world_reach sent w \<Longrightarrow> v4_fresh_broker broker \<Longrightarrow>
    H11V4GmoNoPostEngine (w_store w) broker clock interrupt = Inr w' \<Longrightarrow>
    v4_world_reach (sent @ b_calls (w_broker w)) w'"
| world_again: "v4_world_reach sent w \<Longrightarrow>
    H11V4GmoNoPostEngine (w_store w) (Some (w_broker w)) clock interrupt = Inr w' \<Longrightarrow> v4_world_reach sent w'"
| world_run: "v4_world_reach sent w \<Longrightarrow> V4GmoExecutionPolicy args = Inr policy \<Longrightarrow>
    FormalSignal sargs = Inr signal \<Longrightarrow>
    v4_run_signal_once_synthetic signal policy preflight now w = (r, w') \<Longrightarrow> v4_world_reach sent w'"
| world_resume: "v4_world_reach sent w \<Longrightarrow> V4GmoExecutionPolicy args = Inr policy \<Longrightarrow>
    v4_resume_synthetic ref policy now w = (r, w') \<Longrightarrow> v4_world_reach sent w'"
| world_initialize: "v4_world_reach sent w \<Longrightarrow> v4_initialize (w_store w) = (u, db) \<Longrightarrow>
    v4_world_reach sent (w\<lparr>w_store := db\<rparr>)"
| world_engage: "v4_world_reach sent w \<Longrightarrow> v4_engage_global_halt reason now (w_store w) = (u, db) \<Longrightarrow>
    v4_world_reach sent (w\<lparr>w_store := db\<rparr>)"
| world_clear: "v4_world_reach sent w \<Longrightarrow>
    v4_clear_global_halt_no_post phrase flat (w_store w) = (u, db) \<Longrightarrow>
    v4_world_reach sent (w\<lparr>w_store := db\<rparr>)"
| world_clear_cycle: "v4_world_reach sent w \<Longrightarrow>
    v4_clear_halted_cycle_no_post ref phrase flat now (w_store w) = (x, db) \<Longrightarrow>
    v4_world_reach sent (w\<lparr>w_store := db\<rparr>)"
| world_bind: "v4_world_reach sent w \<Longrightarrow>
    v4_bind_generation label policy rl rd dl dd (w_store w) = (b, db) \<Longrightarrow>
    v4_world_reach sent (w\<lparr>w_store := db\<rparr>)"
| world_stop: "v4_world_reach sent w \<Longrightarrow> v4_world_reach sent (w\<lparr>w_interrupt := i\<rparr>)"
| world_reconcile: "v4_world_reach sent w \<Longrightarrow> reconcile_synthetic (w_broker w) = (x, b) \<Longrightarrow>
    v4_world_reach sent (w\<lparr>w_broker := b\<rparr>)"

lemma engine_world:
  assumes "H11V4GmoNoPostEngine store broker clock interrupt = Inr w" and "v4_fresh_broker broker"
  shows "w_store w = store \<and> b_calls (w_broker w) = [] \<and> b_good (w_broker w)
    \<and> b_marks (w_broker w) = (True, 0, False, False, False)"
  using assms by (auto simp: H11V4GmoNoPostEngine_def v4_broker_accepted_def bindR_Inr_iff b_marks_def
      v4_fresh_broker_def RefusingV4GmoBroker_def b_good_def split: if_splits option.splits)

text \<open>A further engine on the same store and broker.\<close>

lemma engine_keeps:
  "H11V4GmoNoPostEngine store (Some broker) clock interrupt = Inr w \<Longrightarrow> w_store w = store \<and> w_broker w = broker"
  by (simp add: H11V4GmoNoPostEngine_def Let_def bindR_Inr_iff) auto

text \<open>A change of the metadata table alone.\<close>

lemma metadata_world_inv:
  assumes "v4_world_inv (False, sent) w" and "v4_reach db" and "db = (w_store w)\<lparr>db_metadata := m\<rparr>"
  shows "v4_world_inv (False, sent) (w\<lparr>w_store := db\<rparr>)"
proof -
  have "v4_plan_ok ((w_store w)\<lparr>db_metadata := m\<rparr>) p = v4_plan_ok (w_store w) p" for p
    by (simp add: v4_plan_ok_def find_attempt_def v4_find_def)
  then show ?thesis using assms by (simp add: v4_world_inv_def v4_calls_inv_def)
qed

lemma clear_cycle_world_inv:
  assumes inv: "v4_world_inv (False, sent) w"
    and run: "v4_clear_halted_cycle_no_post ref phrase flat now (w_store w) = (x, db)"
  shows "v4_world_inv (False, sent) (w\<lparr>w_store := db\<rparr>)"
proof -
  have reach: "v4_reach db" using inv run by (auto simp: v4_world_inv_def intro: reach_clear_cycle)
  have "db = w_store w \<or> (\<exists>x'. v4_transition ref OPERATOR_RELOAD_CLEARED ''OPERATOR_RELOAD_CLEARED_NO_POST'' now
      (Some 0) (Some 0) None None (w_store w) = (x', db))"
    using run by (auto simp: v4_clear_halted_cycle_no_post_def run_progs v4_load_cycle_def
        split: if_splits option.splits)
  then consider (same) "db = w_store w"
    | (moved) row f cat where "v4_find ref (w_store w) = Some row"
        "f = v4_transition_row OPERATOR_RELOAD_CLEARED now (Some 0) (Some 0) None None"
        "db = v4_commit ref f cat OPERATOR_RELOAD_CLEARED (w_store w)"
    using transition_cases by blast
  then show ?thesis
  proof cases
    case same
    with inv show ?thesis by simp
  next
    case moved
    note store = reach_inv [OF world_inv_reach [OF inv]]
    have "row \<in> set (db_cycles (w_store w))" using v4_find_ref [OF moved(1)] by simp
    then have "0 < c_requested_size row"
      using store by (auto simp: v4_store_inv_def inv_cycles_def)
    then have "v4_row_inv (f row)" by (simp add: moved(2) row_simps)
    then have "\<forall>c \<in> set (db_cycles db). v4_row_inv c"
      unfolding moved(3) using inv by (intro commit_rows_inv [OF store _ moved(1)]) (simp_all add: v4_world_inv_def)
    moreover have "v4_calls_inv (sent @ b_calls (w_broker w)) db"
      using inv unfolding moved(3)
      by (auto simp: v4_world_inv_def v4_calls_inv_def moved(2) transition_row_keeps intro!: commit_plan_ok)
    ultimately show ?thesis using inv reach by (simp add: v4_world_inv_def)
  qed
qed

lemma world_reach_inv: "v4_world_reach sent w \<Longrightarrow> v4_world_inv (False, sent) w"
proof (induction rule: v4_world_reach.induct)
  case (world_start broker clock interrupt w)
  then show ?case
    using engine_world [of v4_empty_db broker clock interrupt w]
    by (simp add: v4_world_inv_def reach_empty v4_calls_inv_def) (simp add: v4_empty_db_def)
next
  case (world_restart sent w broker clock interrupt w')
  then show ?case using engine_world [of "w_store w" broker clock interrupt w'] by (simp add: v4_world_inv_def)
next
  case (world_again sent w clock interrupt w')
  then have "w_store w' = w_store w \<and> w_broker w' = w_broker w" by (blast dest: engine_keeps)
  then show ?case using world_again(3) by (simp add: v4_world_inv_def)
next
  case (world_run sent w args policy sargs signal preflight now r w')
  have "dt_aware (s_valid_until signal)" using FormalSignal_signal_ok [OF world_run(3)] by (simp add: signal_ok_def)
  note T = run_triple [OF V4GmoExecutionPolicy_ok [OF world_run(2)] this, of "(False, sent)" preflight now]
  show ?case
    using tripleD_return [OF T world_run(5)] tripleD_raise [OF T world_run(5)] world_run(4)
    by (cases r) (auto simp: v4_run_done_def)
next
  case (world_resume sent w args policy ref now r w')
  note T = resume_inv [OF V4GmoExecutionPolicy_ok [OF world_resume(2)], of "(False, sent)" ref now]
  show ?case
    using tripleD_return [OF T world_resume(4)] tripleD_raise [OF T world_resume(4)] world_resume(3)
    by (cases r) auto
next
  case (world_initialize sent w u db)
  then show ?case
    using metadata_world_inv metadata_writers(1) reach_initialize world_inv_reach by blast
next
  case (world_engage sent w reason now u db)
  then show ?case
    using metadata_world_inv metadata_writers(2) reach_engage world_inv_reach by blast
next
  case (world_clear sent w phrase flat u db)
  then show ?case
    using metadata_world_inv metadata_writers(3) reach_clear world_inv_reach by blast
next
  case (world_clear_cycle sent w ref phrase flat now x db)
  then show ?case by (intro clear_cycle_world_inv)
next
  case (world_bind sent w label policy rl rd dl dd b db)
  obtain m where "db = (w_store w)\<lparr>db_metadata := m\<rparr>" using metadata_writers(4) [OF world_bind(2)] by auto
  moreover have "v4_reach db" using reach_bind [OF world_inv_reach [OF world_bind(3)] world_bind(2)] .
  ultimately show ?case by (intro metadata_world_inv [OF world_bind(3)])
next
  case (world_stop sent w i)
  then show ?case by (simp add: v4_world_inv_def)
next
  case (world_reconcile sent w x b)
  then show ?case using v4b.reconcile_returns [of "w_broker w" _ b] v4b.reconcile_raises [of "w_broker w" _ b]
    by (cases x) (auto simp: v4_world_inv_def)
qed

lemma world_reach_store: "v4_world_reach sent w \<Longrightarrow> v4_store_inv (w_store w)"
  using reach_inv world_inv_reach world_reach_inv by blast

lemma world_reach_sound:
  "v4_world_reach sent w \<Longrightarrow> v4_sound_environment w \<Longrightarrow> v4_world_inv (True, sent) w"
  using world_reach_inv by (fastforce simp: v4_world_inv_def)

end
