(* ===== verification/Samples.thy ===== *)
theory Samples
  imports Auto_Contracts
begin

text \<open>
  A formal signal and an instant inside its validity, on which the properties of both engines are
  instantiated.
\<close>

definition sample_signal_args :: formal_signal_args where
  "sample_signal_args = \<lparr>a_strategy_version = PyStr ''V3'', a_config_hash = PyStr ''cfg'',
     a_horizon = PyHorizon MINUTES_30,
     a_observed_at = PyDatetime \<lparr>dt_local = 63900000000000000, dt_offset = Some 0\<rparr>,
     a_valid_until = PyDatetime \<lparr>dt_local = 63900001800000000, dt_offset = Some 0\<rparr>,
     a_decision = PyDecision BUY, a_probability_up = PyDecimal (DFin False 61 (-2)),
     a_finalized_bar = PyBool True, a_rolling_estimate = PyBool False\<rparr>"

definition sample_signal :: formal_signal where
  "sample_signal = \<lparr>s_strategy_version = ''V3'', s_config_hash = ''cfg'', s_horizon = MINUTES_30,
     s_observed_at = \<lparr>dt_local = 63900000000000000, dt_offset = Some 0\<rparr>,
     s_valid_until = \<lparr>dt_local = 63900001800000000, dt_offset = Some 0\<rparr>,
     s_decision = BUY, s_probability_up = DFin False 61 (-2)\<rparr>"

definition sample_now :: datetime where
  "sample_now = \<lparr>dt_local = 63900000060000000, dt_offset = Some 0\<rparr>"

lemma sample_FormalSignal: "FormalSignal sample_signal_args = Inr sample_signal"
  by code_simp

lemma sample_signal_fields [simp]:
  "s_decision sample_signal = BUY"
  "s_valid_until sample_signal = \<lparr>dt_local = 63900001800000000, dt_offset = Some 0\<rparr>"
  by (simp_all add: sample_signal_def)

lemma sample_now_aware [simp]: "dt_aware sample_now"
  by (simp add: sample_now_def dt_aware_def)

end
