(* ===== verification/V4_Samples.thy ===== *)
theory V4_Samples
  imports V4_Engine_Safety Samples
begin

text \<open>
  A policy, a broker and the runs of a concrete engine, on which the properties are instantiated.
  Digests stay symbolic: the runs do not depend on their values.
\<close>

section \<open>Inputs\<close>

definition sample_policy_args :: v4_policy_args where
  "sample_policy_args = v4_policy_defaults ''V3'' ''cfg'' MINUTES_30 H11_V4_GMO_PROTECTION_CONTRACT_HASH"

definition sample_policy :: v4_policy where
  "sample_policy = (case V4GmoExecutionPolicy sample_policy_args of Inr p \<Rightarrow> p)"

definition sample_preflight :: v4_preflight where
  "sample_preflight = \<lparr>pf_boot_reconciled = True, pf_process_lock_held = True, pf_data_fresh = True,
     pf_clock_synchronized = True, pf_notification_path_ready = True,
     pf_broker_snapshot_fresh = True, pf_position_count = 0, pf_active_order_count = 0,
     pf_entries_today = 0, pf_daily_stop_clear = True, pf_monthly_stop_clear = True,
     pf_consecutive_loss_stop_clear = True, pf_operator_halt_clear = True\<rparr>"

definition sample_filled :: v4_snapshot where
  "sample_filled = \<lparr>sn_fresh = True, sn_result_known = True, sn_position_count = 1,
     sn_position_side = Some BUY, sn_filled_size = 1000, sn_pending_entry_size = 0,
     sn_protection_size = 0, sn_entry_status = ENTRY_FILLED, sn_protection_status = PROT_NONE\<rparr>"

definition sample_protected :: v4_snapshot where
  "sample_protected = sample_filled\<lparr>sn_protection_size := 1000, sn_protection_status := PROT_EXACT_MATCH\<rparr>"

definition sample_broker :: v4_broker where
  "sample_broker = FakeV4GmoBroker
     [(MARKET_ENTRY, [OUT_ACCEPTED]), (EXACT_SIZE_OCO_PROTECTION, [OUT_ACCEPTED])]
     [sample_filled, sample_protected]"

definition sample_world :: v4_world where
  "sample_world = \<lparr>w_store = v4_empty_db, w_broker = sample_broker, w_clock = None, w_ticks = 0,
     w_interrupt = None\<rparr>"

lemma nonblank_samples:
  "nonblank_str (PyStr ''V3'')" "nonblank_str (PyStr ''cfg'')"
  "nonblank_str (PyStr H11_V4_GMO_PROTECTION_CONTRACT_HASH)"
  by code_simp+

lemma sample_policy_result:
  "\<exists>p. V4GmoExecutionPolicy sample_policy_args = Inr p \<and> v_strategy_version p = ''V3''
     \<and> v_signal_config_hash p = ''cfg'' \<and> v_horizon p = MINUTES_30 \<and> v_requested_size p = 1000
     \<and> v_protection_contract_hash p = H11_V4_GMO_PROTECTION_CONTRACT_HASH
     \<and> v_max_unprotected_seconds p = 15"
  using nonblank_samples
  by (simp add: V4GmoExecutionPolicy_def sample_policy_args_def v4_policy_defaults_def
      v4_immutable_requirements_def is_int_eq_def is_int_between_def is_int_tuple_def is_true_def
      is_false_def MAXIMUM_ENTRIES_PER_DAY_CEILING_def)

lemma sample_policy:
  "V4GmoExecutionPolicy sample_policy_args = Inr sample_policy"
  "v_strategy_version sample_policy = ''V3''" "v_signal_config_hash sample_policy = ''cfg''"
  "v_horizon sample_policy = MINUTES_30" "v_requested_size sample_policy = 1000"
  "v_protection_contract_hash sample_policy = H11_V4_GMO_PROTECTION_CONTRACT_HASH"
  "v_max_unprotected_seconds sample_policy = 15"
  using sample_policy_result by (auto simp: sample_policy_def)

lemma sample_accepts: "v4_accepts sample_policy sample_signal"
  by (simp add: v4_accepts_def sample_policy sample_signal_def)

definition sample_ref :: string where
  "sample_ref = sha256_hex (py_join ''|'' [V4_GMO_PROFILE_VERSION, v4_config_hash sample_policy,
     signal_fingerprint sample_signal, ''BUY''])"

lemma sample_ref: "build_v4_cycle_ref sample_signal sample_policy = Inr sample_ref"
  by (simp add: build_v4_cycle_ref_def sample_accepts sample_ref_def)

lemma sample_ref_hex: "is_hex64 sample_ref"
  by (simp add: sample_ref_def)

definition sample_cycle :: v4_cycle where
  "sample_cycle = v4_new_cycle sample_signal sample_policy sample_ref sample_now"

text \<open>The first cycle of a database, whatever its metadata without a halt.\<close>

lemma sample_create_at:
  assumes "db_cycles db = []" "db_attempts db = []" "db_events db = []"
    and "map_of (db_metadata db) ''global_halt_latched'' \<noteq> Some ''true''"
  shows "v4_create_cycle sample_signal sample_policy sample_now db =
     (Inr sample_cycle, v4_add_cycle sample_cycle db)"
proof -
  obtain r db' where run: "v4_create_cycle sample_signal sample_policy sample_now db = (r, db')"
    by (cases "v4_create_cycle sample_signal sample_policy sample_now db")
  have "r \<noteq> Inl e" for e
  proof
    assume "r = Inl e"
    with run show False
      using intent_safe(1) assms
      by (simp add: v4_create_cycle_def run_progs sample_ref v4_timestamp_def
          select_one_def v4_halt_latched_def v4_market_attempt_on_day_def insert_cycle_def
          v4_append_event_def v4_validate_safe_label_def insert_event_def v4_find_def v4_load_cycle_def
          v4_mk_event_def v4_new_cycle_def sample_policy)
  qed
  then show ?thesis
    using create_cases [OF run] run by (cases r) (auto simp: sample_ref sample_cycle_def)
qed

lemma sample_create:
  "v4_create_cycle sample_signal sample_policy sample_now v4_empty_db =
     (Inr sample_cycle, v4_add_cycle sample_cycle v4_empty_db)"
  by (rule sample_create_at) (simp_all add: v4_empty_db_def)

lemma sample_world_reach: "v4_world_reach [] sample_world"
proof (rule world_start)
  show "v4_fresh_broker (Some sample_broker)"
    by (simp add: v4_fresh_broker_def sample_broker_def FakeV4GmoBroker_def b_good_def snapshot_ok_def
        sample_filled_def sample_protected_def)
  show "H11V4GmoNoPostEngine v4_empty_db (Some sample_broker) None None = Inr sample_world"
    by (simp add: H11V4GmoNoPostEngine_def v4_broker_accepted_def sample_broker_def FakeV4GmoBroker_def
        sample_world_def)
qed

section \<open>A run to a protected position\<close>

text \<open>One store step at a time: the row and the attempts are known, the journal is not looked at.\<close>

definition sample_at :: "v4_db \<Rightarrow> v4_cycle \<Rightarrow> bool" where
  "sample_at db c \<longleftrightarrow> v4_store_inv db \<and> v4_find (c_ref c) db = Some c"

lemma at_transition:
  assumes "sample_at db c" and "target \<in> set (v4_allowed (c_state c))" and "dt_aware now"
    and "v4_safe_label category" and "neutral_category category"
    and "case filled of None \<Rightarrow> True | Some n \<Rightarrow> 0 \<le> n" and "case protected of None \<Rightarrow> True | Some n \<Rightarrow> 0 \<le> n"
    and "case since of None \<Rightarrow> True | Some d \<Rightarrow> dt_aware d"
  shows "\<exists>db'. v4_transition (c_ref c) target category now filled protected since None db =
      (Inr (v4_transition_row target now filled protected since None c), db')
    \<and> sample_at db' (v4_transition_row target now filled protected since None c)
    \<and> db_attempts db' = db_attempts db"
proof -
  have run: "v4_transition (c_ref c) target category now filled protected since None db =
      (Inr (v4_transition_row target now filled protected since None c),
       v4_commit (c_ref c) (v4_transition_row target now filled protected since None) category target db)"
    by (rule transition_run) (use assms in \<open>simp_all add: sample_at_def\<close>)
  then show ?thesis
    using assms(1) transition_inv [OF _ assms(5) run] by (simp add: sample_at_def v4_find_commit)
qed

lemma at_attempt:
  assumes "sample_at db c" and "target \<in> set (v4_allowed (c_state c))" and "dt_aware now"
    and "v4_attempt_state action = Some target" and "find_attempt (c_ref c) action db = None"
  shows "\<exists>db'. v4_record_action_attempt (c_ref c) action target now db =
      (Inr (v4_attempt_row action target now c), db')
    \<and> sample_at db' (v4_attempt_row action target now c)
    \<and> find_attempt (c_ref c) action db' = Some (v4_new_attempt (c_ref c) action now)
    \<and> (\<forall>b. b \<noteq> action \<longrightarrow> find_attempt (c_ref c) b db' = find_attempt (c_ref c) b db)"
proof -
  have run: "v4_record_action_attempt (c_ref c) action target now db =
      (Inr (v4_attempt_row action target now c),
       v4_commit (c_ref c) (v4_attempt_row action target now) (action_value action @ ''_ATTEMPT_STARTED'') target
         (v4_add_attempt (v4_new_attempt (c_ref c) action now) db))"
    by (rule attempt_run) (use assms in \<open>simp_all add: sample_at_def\<close>)
  then show ?thesis
    using assms(1,5) attempt_inv [OF _ run]
    by (auto simp: sample_at_def v4_find_commit find_attempt_snoc v4_new_attempt_def split: option.splits)
qed

lemma at_outcome:
  assumes "sample_at db c" and "find_attempt (c_ref c) action db = Some t" and "t_outcome t = ''ATTEMPT_STARTED''"
  shows "\<exists>db'. v4_record_action_outcome (c_ref c) action (outcome_value out) db = (Inr (), db')
    \<and> sample_at db' c
    \<and> (\<forall>b. find_attempt (c_ref c) b db = None \<longrightarrow> find_attempt (c_ref c) b db' = None)"
proof -
  have run: "v4_record_action_outcome (c_ref c) action (outcome_value out) db =
    (Inr (), v4_commit (c_ref c) (\<lambda>c. c) (action_value action @ ''_'' @ outcome_value out) (c_state c)
       (v4_settle (c_ref c) action (outcome_value out) db))"
    by (rule outcome_run) (use assms in \<open>simp_all add: sample_at_def\<close>)
  then show ?thesis
    using assms(1) outcome_inv [OF _ run] by (simp add: sample_at_def v4_find_commit find_attempt_settle)
qed

text \<open>The rows of the run.\<close>

definition sample_attempted :: v4_cycle where
  "sample_attempted = v4_attempt_row MARKET_ENTRY MARKET_ENTRY_ATTEMPTED sample_now sample_cycle"

definition sample_row :: "v4_state \<Rightarrow> int \<Rightarrow> int \<Rightarrow> v4_cycle" where
  "sample_row state filled protected = sample_attempted\<lparr>c_state := state, c_filled_size := filled,
     c_protected_size := protected\<rparr>"

lemma sample_cycle_fields [simp]:
  "c_ref sample_cycle = sample_ref" "c_state sample_cycle = ENTRY_INTENT_PERSISTED"
  "c_side sample_cycle = BUY" "c_requested_size sample_cycle = 1000"
  "c_filled_size sample_cycle = 0" "c_protected_size sample_cycle = 0"
  "c_unprotected_since sample_cycle = None" "c_updated_at sample_cycle = sample_now"
  "c_halt_reason sample_cycle = None"
  by (simp_all add: sample_cycle_def v4_new_cycle_def sample_policy)

lemma sample_attempted_fields [simp]:
  "c_ref sample_attempted = sample_ref" "c_state sample_attempted = MARKET_ENTRY_ATTEMPTED"
  "c_side sample_attempted = BUY" "c_requested_size sample_attempted = 1000"
  "c_filled_size sample_attempted = 0" "c_protected_size sample_attempted = 0"
  "c_unprotected_since sample_attempted = Some sample_now" "c_updated_at sample_attempted = sample_now"
  "c_halt_reason sample_attempted = None"
  by (simp_all add: sample_attempted_def v4_attempt_row_def coalesce_def)

lemma sample_row_fields [simp]:
  "c_ref (sample_row s f p) = sample_ref" "c_state (sample_row s f p) = s"
  "c_side (sample_row s f p) = BUY" "c_requested_size (sample_row s f p) = 1000"
  "c_filled_size (sample_row s f p) = f" "c_protected_size (sample_row s f p) = p"
  "c_unprotected_since (sample_row s f p) = Some sample_now" "c_updated_at (sample_row s f p) = sample_now"
  by (simp_all add: sample_row_def)

lemma sample_moves:
  "v4_transition_row t sample_now None None None None sample_attempted = sample_row t 0 0"
  "v4_transition_row t sample_now None None None None (sample_row s f p) = sample_row t f p"
  "v4_transition_row t sample_now (Some f') (Some p') None None (sample_row s f p) = sample_row t f' p'"
  "v4_transition_row t sample_now (Some f') (Some p') (Some sample_now) None (sample_row s f p) = sample_row t f' p'"
  "v4_attempt_row EXACT_SIZE_OCO_PROTECTION t sample_now (sample_row s f p) = sample_row t f p"
  by (simp_all add: v4_transition_row_def sample_row_def sample_attempted_def v4_attempt_row_def coalesce_def)

lemma sample_plan:
  "\<exists>plan. build_v4_action_plan sample_ref a BUY 1000 H11_V4_GMO_PROTECTION_CONTRACT_HASH = Inr plan
    \<and> pl_cycle_ref plan = sample_ref \<and> pl_action plan = a \<and> \<not> pl_actual_post_allowed plan
    \<and> \<not> pl_credential_read_allowed plan \<and> \<not> pl_network_access_allowed plan"
  using build_v4_action_plan_Inr [OF sample_ref_hex, of BUY 1000 H11_V4_GMO_PROTECTION_CONTRACT_HASH a]
  by (auto simp: H11_V4_GMO_PROTECTION_CONTRACT_HASH_def)

text \<open>The run of the sample signal: entry filled, protection exact, confirmed in time.\<close>

definition sample_world1 :: v4_world where
  "sample_world1 = snd (v4_run_signal_once_synthetic sample_signal sample_policy sample_preflight
     sample_now sample_world)"

lemma sample_run_entry:
  "v4_run_signal_once_synthetic sample_signal sample_policy sample_preflight sample_now sample_world =
    v4_attempt_market_entry sample_cycle sample_policy sample_now
      (sample_world\<lparr>w_store := v4_add_cycle sample_cycle v4_empty_db\<rparr>)"
proof -
  have "(if \<not> dt_aware sample_now then Inr True
      else if \<not> dt_comparable sample_now (s_valid_until sample_signal) then Inl PyTypeError
      else Inr (dt_leq (s_valid_until sample_signal) sample_now)) = (Inr False :: bool result)"
    by (simp add: dt_comparable_def sample_now_def dt_aware_def dt_leq_def dt_utc_def)
  moreover have "preflight_blocked_reasons sample_preflight = []"
    by (simp add: preflight_blocked_reasons_def sample_preflight_def)
  moreover have "v4_active_cycle_count v4_empty_db = 0" "\<not> v4_halt_latched v4_empty_db"
    by (simp_all add: v4_active_cycle_count_def v4_halt_latched_def v4_empty_db_def select_one_def)
  ultimately show ?thesis
    unfolding v4_run_signal_once_synthetic_def
    by (simp add: run_progs sample_accepts on_store_def checkpoint_def sample_world_def sample_create)
qed

lemma sample_world1:
  "\<exists>db. sample_world1 = sample_world\<lparr>w_store := db, w_broker := w_broker sample_world1\<rparr>
    \<and> v4_find sample_ref db = Some (sample_row POSITION_PROTECTED 1000 1000)
    \<and> map pl_action (b_calls (w_broker sample_world1)) = [MARKET_ENTRY, EXACT_SIZE_OCO_PROTECTION]
    \<and> (\<exists>r. fst (v4_run_signal_once_synthetic sample_signal sample_policy sample_preflight
         sample_now sample_world) = Inr r \<and> r_status r = POSITION_PROTECTED_SYNTHETIC)"
proof -
  let ?db0 = "v4_add_cycle sample_cycle v4_empty_db"
  let ?ref = sample_ref
  have at0: "sample_at ?db0 sample_cycle"
    using create_inv [OF empty_inv sample_create] by (simp add: sample_at_def create_find)
      (simp add: v4_find_def v4_empty_db_def select_one_def)
  have none0: "find_attempt ?ref a ?db0 = None" for a
    by (simp add: find_attempt_def v4_empty_db_def select_one_def)
  obtain db1 where run1: "v4_record_action_attempt ?ref MARKET_ENTRY MARKET_ENTRY_ATTEMPTED sample_now ?db0 =
      (Inr sample_attempted, db1)" and at1: "sample_at db1 sample_attempted"
    and pend1: "find_attempt ?ref MARKET_ENTRY db1 = Some (v4_new_attempt ?ref MARKET_ENTRY sample_now)"
    and none1: "\<And>b. b \<noteq> MARKET_ENTRY \<Longrightarrow> find_attempt ?ref b db1 = None"
    using at_attempt [OF at0, of MARKET_ENTRY_ATTEMPTED sample_now MARKET_ENTRY] none0
    by (auto simp: sample_attempted_def)
  obtain db2 where run2: "v4_record_action_outcome ?ref MARKET_ENTRY ''ACCEPTED'' db1 = (Inr (), db2)"
    and at2: "sample_at db2 sample_attempted" and none2: "\<And>b. b \<noteq> MARKET_ENTRY \<Longrightarrow> find_attempt ?ref b db2 = None"
    using at_outcome [OF at1, of MARKET_ENTRY "v4_new_attempt ?ref MARKET_ENTRY sample_now" OUT_ACCEPTED] pend1 none1
    by (auto simp: v4_new_attempt_def)
  have na: "find_attempt ?ref b d = find_attempt ?ref b d'" if "db_attempts d = db_attempts d'" for b d d'
    using that by (simp add: find_attempt_def)
  obtain db3 where run3: "v4_transition ?ref ENTRY_RECONCILING ''ENTRY_RECONCILING'' sample_now None None None None db2 =
      (Inr (sample_row ENTRY_RECONCILING 0 0), db3)" and at3: "sample_at db3 (sample_row ENTRY_RECONCILING 0 0)"
    and eq3: "db_attempts db3 = db_attempts db2"
    using at_transition [OF at2, of ENTRY_RECONCILING sample_now "''ENTRY_RECONCILING''" None None None]
    by (auto simp: label_simps sample_moves)
  obtain db4 where run4: "v4_transition ?ref ENTRY_FILLED_UNPROTECTED ''ENTRY_FILLED_UNPROTECTED'' sample_now
      (Some 1000) (Some 0) (Some sample_now) None db3 = (Inr (sample_row ENTRY_FILLED_UNPROTECTED 1000 0), db4)"
    and at4: "sample_at db4 (sample_row ENTRY_FILLED_UNPROTECTED 1000 0)" and eq4: "db_attempts db4 = db_attempts db3"
    using at_transition [OF at3, of ENTRY_FILLED_UNPROTECTED sample_now "''ENTRY_FILLED_UNPROTECTED''" "Some 1000" "Some 0" "Some sample_now"]
    by (auto simp: label_simps sample_moves)
  obtain db5 where run5: "v4_transition ?ref PROTECTION_INTENT_PERSISTED ''PROTECTION_INTENT_PERSISTED'' sample_now
      None None None None db4 = (Inr (sample_row PROTECTION_INTENT_PERSISTED 1000 0), db5)"
    and at5: "sample_at db5 (sample_row PROTECTION_INTENT_PERSISTED 1000 0)" and eq5: "db_attempts db5 = db_attempts db4"
    using at_transition [OF at4, of PROTECTION_INTENT_PERSISTED sample_now "''PROTECTION_INTENT_PERSISTED''" None None None]
    by (auto simp: label_simps sample_moves)
  have none5: "find_attempt ?ref EXACT_SIZE_OCO_PROTECTION db5 = None"
    using none2 na [of db5 db2] eq3 eq4 eq5 by simp
  obtain db6 where run6: "v4_record_action_attempt ?ref EXACT_SIZE_OCO_PROTECTION PROTECTION_ATTEMPTED sample_now db5 =
      (Inr (sample_row PROTECTION_ATTEMPTED 1000 0), db6)" and at6: "sample_at db6 (sample_row PROTECTION_ATTEMPTED 1000 0)"
    and pend6: "find_attempt ?ref EXACT_SIZE_OCO_PROTECTION db6 = Some (v4_new_attempt ?ref EXACT_SIZE_OCO_PROTECTION sample_now)"
    using at_attempt [OF at5, of PROTECTION_ATTEMPTED sample_now EXACT_SIZE_OCO_PROTECTION] none5
    by (auto simp: sample_moves)
  obtain db7 where run7: "v4_record_action_outcome ?ref EXACT_SIZE_OCO_PROTECTION ''ACCEPTED'' db6 = (Inr (), db7)"
    and at7: "sample_at db7 (sample_row PROTECTION_ATTEMPTED 1000 0)"
    using at_outcome [OF at6, of EXACT_SIZE_OCO_PROTECTION "v4_new_attempt ?ref EXACT_SIZE_OCO_PROTECTION sample_now" OUT_ACCEPTED] pend6
    by (auto simp: v4_new_attempt_def)
  obtain db8 where run8: "v4_transition ?ref PROTECTION_RECONCILING ''PROTECTION_RECONCILING'' sample_now
      None None None None db7 = (Inr (sample_row PROTECTION_RECONCILING 1000 0), db8)"
    and at8: "sample_at db8 (sample_row PROTECTION_RECONCILING 1000 0)"
    using at_transition [OF at7, of PROTECTION_RECONCILING sample_now "''PROTECTION_RECONCILING''" None None None]
    by (auto simp: label_simps sample_moves)
  obtain db9 where run9: "v4_transition ?ref POSITION_PROTECTED ''EXACT_SIZE_PROTECTION_CONFIRMED'' sample_now
      (Some 1000) (Some 1000) None None db8 = (Inr (sample_row POSITION_PROTECTED 1000 1000), db9)"
    and at9: "sample_at db9 (sample_row POSITION_PROTECTED 1000 1000)"
    using at_transition [OF at8, of POSITION_PROTECTED sample_now "''EXACT_SIZE_PROTECTION_CONFIRMED''" "Some 1000" "Some 1000" None]
    by (auto simp: label_simps sample_moves)
  obtain plan1 where plan1: "build_v4_action_plan ?ref MARKET_ENTRY BUY 1000 H11_V4_GMO_PROTECTION_CONTRACT_HASH = Inr plan1"
    "pl_action plan1 = MARKET_ENTRY" "\<not> pl_actual_post_allowed plan1" "\<not> pl_credential_read_allowed plan1"
    "\<not> pl_network_access_allowed plan1" using sample_plan [of MARKET_ENTRY] by auto
  obtain plan2 where plan2: "build_v4_action_plan ?ref EXACT_SIZE_OCO_PROTECTION BUY 1000 H11_V4_GMO_PROTECTION_CONTRACT_HASH = Inr plan2"
    "pl_action plan2 = EXACT_SIZE_OCO_PROTECTION" "\<not> pl_actual_post_allowed plan2" "\<not> pl_credential_read_allowed plan2"
    "\<not> pl_network_access_allowed plan2" using sample_plan [of EXACT_SIZE_OCO_PROTECTION] by auto
  note engine = v4_attempt_market_entry_def v4_now_def v4_move_def v4_ensure_protection_def
    v4_attempt_protection_def v4_reconcile_protection_def v4_read_snapshot_or_none_def v4_result_def
    entry_fuel_def numeral_2_eq_2 Let_def
  note evals = run_progs on_store_def on_broker_def checkpoint_def try_exceptE_def dt_sub_aware
    perform_once_synthetic_def fake_perform_def reconcile_synthetic_def fake_reconcile_def
    sample_broker_def FakeV4GmoBroker_def v4_unusable_def v4_found_flat_def v4_exact_def
    v4_entry_snapshot_invalid_reason_def sample_filled_def sample_protected_def us_defs
  show ?thesis
    unfolding sample_world1_def sample_run_entry using at9
    by (simp add: sample_world_def engine evals sample_policy
        run1 run2 run3 run4 run5 run6 run7 run8 run9 plan1 plan2 sample_at_def)
qed

lemma sample_world1_reach: "v4_world_reach [] sample_world1"
  unfolding sample_world1_def
  by (rule world_run [OF sample_world_reach sample_policy(1) sample_FormalSignal]) (rule surjective_pairing)

end
