(* ===== verification/V4_Daily.thy ===== *)
theory V4_Daily
  imports V4_Samples
begin

text \<open>
  The daily limit of the v4 store: of the cycles created on one JST trading day at most one ever
  records a market entry.
\<close>

definition v4_entered :: "v4_db \<Rightarrow> v4_cycle \<Rightarrow> bool" where
  "v4_entered db c \<longleftrightarrow> find_attempt (c_ref c) MARKET_ENTRY db \<noteq> None"

text \<open>
  Once a cycle of a day has entered, every other cycle of the day is closed and has not entered.
\<close>

definition daily_inv :: "v4_db \<Rightarrow> bool" where
  "daily_inv db \<longleftrightarrow> (\<forall>c \<in> set (db_cycles db). \<forall>d \<in> set (db_cycles db).
     c_ref c \<noteq> c_ref d \<longrightarrow> c_entry_day c = c_entry_day d \<longrightarrow> v4_entered db c \<longrightarrow>
     \<not> v4_entered db d \<and> v4_terminal (c_state d))"

lemma market_attempt_on_day:
  assumes "v4_store_inv db" and "c \<in> set (db_cycles db)" and "v4_entered db c"
  shows "v4_market_attempt_on_day (c_entry_day c) db"
proof -
  obtain t where "t \<in> set (db_attempts db)" "t_cycle_ref t = c_ref c" "t_action t = MARKET_ENTRY"
    using assms(3) select_one_Some by (fastforce simp: v4_entered_def find_attempt_def)
  with assms(2) show ?thesis
    by (auto simp: v4_market_attempt_on_day_def list_ex_iff intro!: bexI [of _ t] bexI [of _ c])
qed

text \<open>A change of one row that keeps its key, its day and the closed rows.\<close>

lemma daily_commit:
  assumes daily: "daily_inv db" and inv: "inv_cycles db" and row: "v4_find ref db = Some row"
    and f: "\<And>c. c_ref (f c) = c_ref c" "\<And>c. c_entry_day (f c) = c_entry_day c"
    and closed: "v4_terminal (c_state row) \<Longrightarrow> v4_terminal (c_state (f row))"
  shows "daily_inv (v4_commit ref f cat st db)"
  unfolding daily_inv_def
proof (intro ballI impI)
  fix c d
  assume c: "c \<in> set (db_cycles (v4_commit ref f cat st db))" and d: "d \<in> set (db_cycles (v4_commit ref f cat st db))"
    and refs: "c_ref c \<noteq> c_ref d" and days: "c_entry_day c = c_entry_day d"
    and e: "v4_entered (v4_commit ref f cat st db) c"
  obtain c0 where c0: "c0 \<in> set (db_cycles db)" "c = (if c_ref c0 = ref then f c0 else c0)"
    using c by (auto simp: set_update_rows)
  obtain d0 where d0: "d0 \<in> set (db_cycles db)" "d = (if c_ref d0 = ref then f d0 else d0)"
    using d by (auto simp: set_update_rows)
  have keep: "c_ref c = c_ref c0" "c_ref d = c_ref d0" "c_entry_day c = c_entry_day c0" "c_entry_day d = c_entry_day d0"
    using c0 d0 f by auto
  have "v4_entered db c0" using e keep by (simp add: v4_entered_def)
  then have "\<not> v4_entered db d0 \<and> v4_terminal (c_state d0)"
    using daily c0 d0 refs days keep by (auto simp: daily_inv_def)
  moreover have "c_ref d0 = ref \<Longrightarrow> d0 = row" by (rule inv_cycles_find [OF inv row d0(1)])
  ultimately show "\<not> v4_entered (v4_commit ref f cat st db) d \<and> v4_terminal (c_state d)"
    using d0 keep closed by (auto simp: v4_entered_def)
qed

lemma daily_transition:
  assumes "v4_store_inv db" and "daily_inv db"
    and "v4_transition ref target category now filled protected since halt db = (r, db')"
  shows "daily_inv db'"
  using transition_cases [OF assms(3)] assms(1,2)
  by (auto simp: v4_store_inv_def transition_row_keeps intro!: daily_commit dest: v4_allowed_terminal)

lemma daily_outcome:
  assumes "v4_store_inv db" and "daily_inv db" and "v4_record_action_outcome ref action label db = (r, db')"
  shows "daily_inv db'"
proof (cases "\<exists>e. r = Inl e \<and> db' = db")
  case True
  with assms show ?thesis by auto
next
  case False
  then obtain row where row: "v4_find ref db = Some row"
    and db': "db' = v4_commit ref (\<lambda>c. c) (action_value action @ ''_'' @ label) (c_state row) (v4_settle ref action label db)"
    using outcome_cases [OF assms(3)] by auto
  have "daily_inv (v4_settle ref action label db)"
    using assms(2) by (simp add: daily_inv_def v4_entered_def find_attempt_settle)
  moreover have "inv_cycles (v4_settle ref action label db)"
    using assms(1) by (simp add: v4_store_inv_def inv_cycles_def)
  ultimately show ?thesis unfolding db' by (rule daily_commit) (use row in auto)
qed

text \<open>The cycle that records an entry is the only active one.\<close>

lemma one_active:
  assumes "v4_store_inv db" and "c \<in> set (db_cycles db)" and "d \<in> set (db_cycles db)" and "c_ref c \<noteq> c_ref d"
    and "v4_active (c_state c)"
  shows "v4_terminal (c_state d)"
proof (rule ccontr)
  assume "\<not> v4_terminal (c_state d)"
  then have "v4_active (c_state d)" by (simp add: v4_active_terminal)
  then have "{c, d} \<subseteq> set (filter (\<lambda>c. v4_active (c_state c)) (db_cycles db))" using assms by auto
  moreover have "c \<noteq> d" using assms(4) by auto
  ultimately have "2 \<le> length (filter (\<lambda>c. v4_active (c_state c)) (db_cycles db))"
    using card_mono [OF finite_set] card_length order_trans by (metis card_2_iff)
  with assms(1) show False
    by (simp add: v4_store_inv_def inv_one_active_def v4_active_cycle_count_def count_rows_def)
qed

lemma daily_attempt:
  assumes inv: "v4_store_inv db" and daily: "daily_inv db"
    and run: "v4_record_action_attempt ref action target now db = (r, db')"
  shows "daily_inv db'"
proof (cases "\<exists>e. r = Inl e \<and> db' = db")
  case True
  with daily show ?thesis by auto
next
  case False
  then obtain row where row: "v4_find ref db = Some row" and allowed: "target \<in> set (v4_allowed (c_state row))"
    and target: "v4_attempt_state action = Some target" and none: "find_attempt ref action db = None"
    and db': "db' = v4_commit ref (v4_attempt_row action target now) (action_value action @ ''_ATTEMPT_STARTED'')
           target (v4_add_attempt (v4_new_attempt ref action now) db)"
    using attempt_cases [OF run] by auto
  let ?db0 = "v4_add_attempt (v4_new_attempt ref action now) db"
  have mem: "row \<in> set (db_cycles db)" and rref: "c_ref row = ref" using v4_find_ref [OF row] by simp_all
  have uniq: "c = row" if "c \<in> set (db_cycles db)" "c_ref c = ref" for c
    using inv_cycles_find [OF _ row that] inv by (simp add: v4_store_inv_def)
  have act: "v4_active (c_state row)"
    using allowed target by (cases "c_state row"; cases action; auto simp: v4_active_def)
  have ent: "v4_entered ?db0 c \<longleftrightarrow> v4_entered db c \<or> (c_ref c = ref \<and> action = MARKET_ENTRY)" for c
    by (auto simp: v4_entered_def find_attempt_snoc v4_new_attempt_def split: option.splits)
  have "daily_inv ?db0"
    unfolding daily_inv_def
  proof (intro ballI impI)
    fix c d assume c: "c \<in> set (db_cycles ?db0)" and d: "d \<in> set (db_cycles ?db0)"
      and refs: "c_ref c \<noteq> c_ref d" and days: "c_entry_day c = c_entry_day d" and e: "v4_entered ?db0 c"
    show "\<not> v4_entered ?db0 d \<and> v4_terminal (c_state d)"
    proof (cases "v4_entered db c")
      case True
      then have "\<not> v4_entered db d \<and> v4_terminal (c_state d)"
        using daily c d refs days by (auto simp: daily_inv_def)
      moreover have "c_ref d \<noteq> ref" using calculation uniq d act by (auto simp: v4_active_terminal)
      ultimately show ?thesis by (simp add: ent)
    next
      case False
      with e have c': "c_ref c = ref" "action = MARKET_ENTRY" by (simp_all add: ent)
      then have "c = row" using uniq c by simp
      then have "v4_terminal (c_state d)" using one_active [OF inv _ _ refs] c d act by simp
      moreover have "\<not> v4_entered db d"
      proof
        assume "v4_entered db d"
        then have "v4_terminal (c_state c)" using daily c d refs days by (auto simp: daily_inv_def)
        with \<open>c = row\<close> act show False by (simp add: v4_active_terminal)
      qed
      ultimately show ?thesis unfolding ent using refs c'(1) by auto
    qed
  qed
  moreover have "inv_cycles ?db0" using inv by (simp add: v4_store_inv_def inv_cycles_def)
  ultimately show ?thesis
    unfolding db' by (rule daily_commit) (use row act in \<open>auto simp: attempt_row_keeps v4_active_terminal\<close>)
qed

lemma daily_create:
  assumes inv: "v4_store_inv db" and daily: "daily_inv db"
    and run: "v4_create_cycle signal policy now db = (r, db')"
  shows "daily_inv db'"
proof (cases "\<exists>e. r = Inl e \<and> db' = db")
  case True
  with daily show ?thesis by auto
next
  case False
  then obtain ref where none: "v4_find ref db = None" and day: "\<not> v4_market_attempt_on_day (jst_day now) db"
    and db': "db' = v4_add_cycle (v4_new_cycle signal policy ref now) db"
    using create_cases [OF run] by auto
  let ?c = "v4_new_cycle signal policy ref now"
  have c: "c_ref ?c = ref" "c_entry_day ?c = jst_day now" by (simp_all add: v4_new_cycle_def)
  have ent: "v4_entered db' x = v4_entered db x" for x by (simp add: v4_entered_def db')
  have new: "\<not> v4_entered db ?c" using attempts_have_cycles [OF inv, of ref MARKET_ENTRY] none c by (simp only: v4_entered_def) blast
  have "v4_entered db x \<Longrightarrow> x \<in> set (db_cycles db) \<Longrightarrow> c_entry_day x \<noteq> jst_day now" for x
    using market_attempt_on_day [OF inv] day by metis
  moreover have "db_cycles db' = db_cycles db @ [?c]" by (simp add: db')
  ultimately show ?thesis
    unfolding daily_inv_def ent using daily new c(2) by (auto simp: daily_inv_def)
qed

lemma daily_metadata: "daily_inv (db\<lparr>db_metadata := m\<rparr>) = daily_inv db"
  by (simp add: daily_inv_def v4_entered_def find_attempt_def)

lemma reach_daily: "v4_reach db \<Longrightarrow> daily_inv db"
proof (induction rule: v4_reach.induct)
  case reach_empty
  then show ?case by (simp add: daily_inv_def v4_empty_db_def)
next
  case (reach_initialize db r db')
  then show ?case using metadata_writers(1) daily_metadata by metis
next
  case (reach_engage db reason now r db')
  then show ?case using metadata_writers(2) daily_metadata by metis
next
  case (reach_clear db phrase flat r db')
  then show ?case using metadata_writers(3) daily_metadata by metis
next
  case (reach_bind db label policy rl rd dl dd b db')
  then show ?case using metadata_writers(4) daily_metadata by metis
next
  case (reach_clear_cycle db ref phrase flat now c db')
  then show ?case
    by (auto simp: v4_clear_halted_cycle_no_post_def run_progs v4_load_cycle_def
        intro: daily_transition reach_inv split: if_splits option.splits prod.splits sum.splits)
qed (auto intro: daily_create daily_attempt daily_outcome daily_transition dest: reach_inv)

end
