(* ===== verification/Py_Json.thy ===== *)
theory Py_Json
  imports Py_Runtime "HOL-Library.AList"
begin

text \<open>
  \<open>json.loads\<close> after \<open>json/decoder.py\<close> and \<open>json/scanner.py\<close>, and that it reads back what
  \<open>json.dumps\<close> writes.

  \<open>None\<close> stands for \<open>JSONDecodeError\<close>.  A float is held by its literal.  A string escape beyond
  U+00FF denotes a character a HOL string cannot hold; such a document is rejected.
\<close>

section \<open>The reader\<close>

fun json_ws :: "string \<Rightarrow> string" where
  "json_ws [] = []"
| "json_ws (c # s) = (if c \<in> set [CHR '' '', CHR 9, CHR 10, CHR 13] then json_ws s else c # s)"

definition hex_value :: "char \<Rightarrow> nat option" where
  "hex_value c = (let n = (of_char c :: nat) in
     if 48 \<le> n \<and> n \<le> 57 then Some (n - 48)
     else if 97 \<le> n \<and> n \<le> 102 then Some (n - 87)
     else if 65 \<le> n \<and> n \<le> 70 then Some (n - 55)
     else None)"

text \<open>The four digits of a \<open>\u\<close> escape, for the characters a HOL string holds.\<close>

definition json_hex4 :: "char \<Rightarrow> char \<Rightarrow> char \<Rightarrow> char \<Rightarrow> char option" where
  "json_hex4 a b c d = (case (hex_value a, hex_value b, hex_value c, hex_value d) of
     (Some 0, Some 0, Some x, Some y) \<Rightarrow> Some (char_of (16 * x + y))
   | _ \<Rightarrow> None)"

definition json_unescape :: "char \<Rightarrow> char option" where
  "json_unescape c = (let n = (of_char c :: nat) in
     if n = 34 \<or> n = 92 \<or> n = 47 then Some c
     else if c = CHR ''b'' then Some (CHR 8)
     else if c = CHR ''f'' then Some (CHR 12)
     else if c = CHR ''n'' then Some (CHR 10)
     else if c = CHR ''r'' then Some (CHR 13)
     else if c = CHR ''t'' then Some (CHR 9)
     else None)"

text \<open>\<open>scanstring\<close> in strict mode, after the opening quote.\<close>

fun json_read_string :: "string \<Rightarrow> (string \<times> string) option" where
  "json_read_string [] = None"
| "json_read_string (c # s) =
    (if c = CHR 34 then Some ([], s)
     else if c = CHR 92 then
       (case s of
          [] \<Rightarrow> None
        | e # s1 \<Rightarrow>
            if e = CHR ''u'' then
              (case s1 of
                 h1 # h2 # h3 # h4 # s2 \<Rightarrow>
                   (case json_hex4 h1 h2 h3 h4 of
                      None \<Rightarrow> None
                    | Some x \<Rightarrow> map_option (\<lambda>(t, r). (x # t, r)) (json_read_string s2))
               | _ \<Rightarrow> None)
            else (case json_unescape e of
                    None \<Rightarrow> None
                  | Some x \<Rightarrow> map_option (\<lambda>(t, r). (x # t, r)) (json_read_string s1)))
     else if (of_char c :: nat) < 32 then None
     else map_option (\<lambda>(t, r). (c # t, r)) (json_read_string s))"

text \<open>\<open>NUMBER_RE\<close>: \<open>(-?(?:0|[1-9]\d*))(\.\d+)?([eE][-+]?\d+)?\<close>\<close>

definition is_digit :: "char \<Rightarrow> bool" where
  "is_digit c \<longleftrightarrow> c \<in> set digit_chars"

definition digit_value :: "char \<Rightarrow> nat" where
  "digit_value c = of_char c - 48"

definition digits_value :: "string \<Rightarrow> nat" where
  "digits_value ds = foldl (\<lambda>n c. 10 * n + digit_value c) 0 ds"

definition json_fraction :: "string \<Rightarrow> string \<times> string" where
  "json_fraction s = (case s of
     c # r \<Rightarrow> if c = CHR ''.'' \<and> takeWhile is_digit r \<noteq> []
             then (c # takeWhile is_digit r, dropWhile is_digit r) else ([], s)
   | [] \<Rightarrow> ([], []))"

definition json_exponent :: "string \<Rightarrow> string \<times> string" where
  "json_exponent s = (case s of
     c # r \<Rightarrow>
       if c = CHR ''e'' \<or> c = CHR ''E'' then
         let (sgn, q) = (case r of d # r' \<Rightarrow> if d = CHR ''-'' \<or> d = CHR ''+'' then ([d], r') else ([], r)
                         | [] \<Rightarrow> ([], []))
         in if takeWhile is_digit q \<noteq> [] then (c # sgn @ takeWhile is_digit q, dropWhile is_digit q)
            else ([], s)
       else ([], s)
   | [] \<Rightarrow> ([], []))"

definition json_number :: "string \<Rightarrow> (json \<times> string) option" where
  "json_number s =
    (let (neg, r) = (case s of c # r \<Rightarrow> if c = CHR ''-'' then (True, r) else (False, s) | [] \<Rightarrow> (False, []));
         ds = (case r of c # r' \<Rightarrow> if c = CHR ''0'' then [c] else takeWhile is_digit r | [] \<Rightarrow> []);
         rest = drop (length ds) r
     in if ds = [] then
          (if py_startswith r ''Infinity'' then Some (JFloat ((if neg then ''-'' else []) @ ''Infinity''), drop 8 r)
           else if \<not> neg \<and> py_startswith r ''NaN'' then Some (JFloat ''NaN'', drop 3 r)
           else None)
        else
          let (frac, rest) = json_fraction rest;
              (expo, rest) = json_exponent rest
          in if frac = [] \<and> expo = []
             then Some (JInt (if neg then - int (digits_value ds) else int (digits_value ds)), rest)
             else Some (JFloat ((if neg then ''-'' else []) @ ds @ frac @ expo), rest))"

text \<open>
  \<open>scan_once\<close>, \<open>JSONArray\<close> after its first bracket and blanks, \<open>JSONObject\<close> likewise.  Every
  recursive call is on a shorter string, so a fuel of the length of the document is enough.  A
  repeated key keeps its first position and its last value, as a dictionary does.
\<close>

fun json_value :: "nat \<Rightarrow> string \<Rightarrow> (json \<times> string) option"
  and json_items :: "nat \<Rightarrow> json list \<Rightarrow> string \<Rightarrow> (json \<times> string) option"
  and json_members :: "nat \<Rightarrow> (string \<times> json) list \<Rightarrow> string \<Rightarrow> (json \<times> string) option" where
  "json_value 0 s = None"
| "json_value (Suc n) s = (case s of
     [] \<Rightarrow> None
   | c # r \<Rightarrow>
       if c = CHR 34 then map_option (\<lambda>(t, q). (JStr t, q)) (json_read_string r)
       else if c = CHR ''{'' then
         (case json_ws r of
            d # q \<Rightarrow> if d = CHR ''}'' then Some (JObj [], q) else json_members n [] (d # q)
          | [] \<Rightarrow> None)
       else if c = CHR ''['' then
         (case json_ws r of
            d # q \<Rightarrow> if d = CHR '']'' then Some (JList [], q) else json_items n [] (d # q)
          | [] \<Rightarrow> None)
       else if py_startswith s ''null'' then Some (JNull, drop 4 s)
       else if py_startswith s ''true'' then Some (JBool True, drop 4 s)
       else if py_startswith s ''false'' then Some (JBool False, drop 5 s)
       else json_number s)"
| "json_items 0 acc s = None"
| "json_items (Suc n) acc s = (case json_value n s of
     None \<Rightarrow> None
   | Some (v, r) \<Rightarrow>
       (case json_ws r of
          [] \<Rightarrow> None
        | d # q \<Rightarrow>
            if d = CHR '']'' then Some (JList (acc @ [v]), q)
            else if d = CHR '','' then json_items n (acc @ [v]) (json_ws q)
            else None))"
| "json_members 0 acc s = None"
| "json_members (Suc n) acc s = (case s of
     [] \<Rightarrow> None
   | c # r \<Rightarrow>
       if c \<noteq> CHR 34 then None
       else (case json_read_string r of
          None \<Rightarrow> None
        | Some (k, r1) \<Rightarrow>
            (case json_ws r1 of
               [] \<Rightarrow> None
             | d # r2 \<Rightarrow>
                 if d \<noteq> CHR '':'' then None
                 else (case json_value n (json_ws r2) of
                    None \<Rightarrow> None
                  | Some (v, r3) \<Rightarrow>
                      (case json_ws r3 of
                         [] \<Rightarrow> None
                       | e # r4 \<Rightarrow>
                           if e = CHR ''}'' then Some (JObj (AList.update k v acc), r4)
                           else if e = CHR '','' then json_members n (AList.update k v acc) (json_ws r4)
                           else None)))))"

definition json_loads :: "string \<Rightarrow> json option" where
  "json_loads s = (case json_value (2 * length s + 2) (json_ws s) of
     None \<Rightarrow> None
   | Some (v, r) \<Rightarrow> if json_ws r = [] then Some v else None)"

section \<open>Strings read back\<close>

lemma hex_value_digit: "d < 16 \<Longrightarrow> hex_value (hex_digit d) = Some d"
proof -
  have "list_all (\<lambda>d. hex_value (hex_digit d) = Some d) [0..<16]" by code_simp
  then show "d < 16 \<Longrightarrow> hex_value (hex_digit d) = Some d" by (simp add: list_all_iff)
qed

lemma json_hex4_char:
  "json_hex4 (CHR ''0'') (CHR ''0'') (hex_digit (of_char c div 16)) (hex_digit (of_char c mod 16)) = Some c"
proof -
  have "(of_char c :: nat) < 256" by simp
  then have "(of_char c :: nat) div 16 < 16" by (intro less_mult_imp_div_less) simp
  moreover have "hex_value (CHR ''0'') = Some 0" by code_simp
  moreover have "char_of (16 * ((of_char c :: nat) div 16) + of_char c mod 16) = c" by simp
  ultimately show ?thesis by (simp add: json_hex4_def hex_value_digit)
qed

lemma char_of_char_eq: "(of_char c :: nat) = of_char d \<Longrightarrow> c = d"
  by (rule of_char_eq_iff [THEN iffD1])

lemma json_read_escape:
  "json_read_string (json_escape_char c @ t) = map_option (\<lambda>(x, r). (c # x, r)) (json_read_string t)"
proof -
  let ?n = "of_char c :: nat"
  have eq: "c = d" if "?n = k" "(of_char d :: nat) = k" for d k using that by (intro char_of_char_eq) simp
  consider "?n \<in> {34, 92, 10, 13, 9, 12, 8}" | "?n \<notin> {34, 92, 10, 13, 9, 12, 8}" "?n < 32 \<or> 126 < ?n"
    | "?n \<notin> {34, 92}" "32 \<le> ?n" "?n \<le> 126" by fastforce
  then show ?thesis
  proof cases
    case 1
    then show ?thesis
      using eq [of 34 "CHR 34"] eq [of 92 "CHR 92"] eq [of 10 "CHR 10"] eq [of 13 "CHR 13"] eq [of 9 "CHR 9"]
        eq [of 12 "CHR 12"] eq [of 8 "CHR 8"]
      by (auto simp: json_escape_char_def json_unescape_def)
  next
    case 2
    then show ?thesis using json_hex4_char [of c] by (simp add: json_escape_char_def Let_def)
  next
    case 3
    then have "c \<noteq> CHR 34" "c \<noteq> CHR 92" by auto
    with 3 show ?thesis by (auto simp: json_escape_char_def)
  qed
qed

lemma json_read_string_dumped:
  "json_read_string (concat (map json_escape_char s) @ CHR 34 # rest) = Some (s, rest)"
  by (induction s) (simp_all add: json_read_escape)

section \<open>Integers read back\<close>

lemma is_digit_code [simp]:
  "is_digit (CHR ''0'')" "\<not> is_digit (CHR ''-'')" "\<not> is_digit (CHR '','')" "\<not> is_digit (CHR '']'')"
  "\<not> is_digit (CHR ''}'')"
  by code_simp+

lemma nat_digits_are_digits: "list_all is_digit (nat_digits n)"
  using set_nat_digits [of n] by (auto simp: list_all_iff is_digit_def)

lemma hd_nat_digits: "hd (nat_digits n) = CHR ''0'' \<longleftrightarrow> n = 0"
proof (induction n rule: nat_digits.induct)
  case (1 n)
  show ?case
  proof (cases "n < 10")
    case True
    have "digit_char 0 = CHR ''0''" by code_simp
    moreover have "nat_digits n = [digit_char n]" using True by (subst nat_digits.simps) simp
    ultimately show ?thesis using digit_char_inj [of n 0] True by simp
  next
    case False
    then have "nat_digits n = nat_digits (n div 10) @ [digit_char (n mod 10)]"
      by (subst nat_digits.simps) simp
    with False 1 show ?thesis by simp
  qed
qed

lemma digit_value_char: "d < 10 \<Longrightarrow> digit_value (digit_char d) = d"
proof -
  have "list_all (\<lambda>d. digit_value (digit_char d) = d) [0..<10]" by code_simp
  then show "d < 10 \<Longrightarrow> digit_value (digit_char d) = d" by (simp add: list_all_iff)
qed

lemma digits_value_nat: "digits_value (nat_digits n) = n"
proof (induction n rule: nat_digits.induct)
  case (1 n)
  show ?case
  proof (cases "n < 10")
    case True
    then show ?thesis by (subst nat_digits.simps) (simp add: digits_value_def digit_value_char)
  next
    case False
    with 1 show ?thesis by (subst nat_digits.simps) (simp add: digits_value_def digit_value_char)
  qed
qed

text \<open>What may follow a number without becoming part of it.\<close>

definition json_rest_ok :: "string \<Rightarrow> bool" where
  "json_rest_ok rest \<longleftrightarrow> (case rest of [] \<Rightarrow> True | c # r \<Rightarrow> \<not> is_digit c \<and> c \<notin> set ''.eE'')"

lemma json_rest_ok_simps [simp]:
  "json_rest_ok []" "json_rest_ok (CHR '','' # r)" "json_rest_ok (CHR '']'' # r)" "json_rest_ok (CHR ''}'' # r)"
  by (simp_all add: json_rest_ok_def)

lemma take_digits:
  assumes "list_all is_digit ds" and "json_rest_ok rest"
  shows "takeWhile is_digit (ds @ rest) = ds" and "drop (length ds) (ds @ rest) = rest"
  using assms by (auto simp: list_all_iff json_rest_ok_def takeWhile_append split: list.splits)

lemma json_number_tail:
  assumes "json_rest_ok rest"
  shows "json_fraction rest = ([], rest)" and "json_exponent rest = ([], rest)"
  using assms by (auto simp: json_rest_ok_def json_fraction_def json_exponent_def split: list.splits)

lemma json_number_digits:
  assumes "json_rest_ok rest"
  shows "(case nat_digits n @ rest of c # r' \<Rightarrow> if c = CHR ''0'' then [c] else takeWhile is_digit (nat_digits n @ rest)
      | [] \<Rightarrow> []) = nat_digits n"
proof -
  obtain c r where nd: "nat_digits n = c # r" by (cases "nat_digits n") auto
  have "nat_digits n = [CHR ''0'']" if "c = CHR ''0''"
  proof -
    have "nat_digits 0 = [CHR ''0'']" by code_simp
    moreover have "n = 0" using that nd hd_nat_digits [of n] by simp
    ultimately show ?thesis by simp
  qed
  then show ?thesis using take_digits(1) [OF nat_digits_are_digits [of n] assms] nd by auto
qed

lemma json_number_dumped:
  assumes rest: "json_rest_ok rest"
  shows "json_number (py_str_int i @ rest) = Some (JInt i, rest)"
proof -
  have num: "json_number s = Some (JInt (if neg then - int n else int n), rest)"
    if "(case s of c # r \<Rightarrow> if c = CHR ''-'' then (True, r) else (False, s) | [] \<Rightarrow> (False, [])) = (neg, nat_digits n @ rest)"
    for s neg n
    using that json_number_digits [OF rest, of n] take_digits(2) [OF nat_digits_are_digits rest, of n]
    by (simp add: json_number_def json_number_tail [OF rest] digits_value_nat)
  show ?thesis
  proof (cases "i < 0")
    case True
    then show ?thesis using num [of "py_str_int i @ rest" True "nat (- i)"] by (simp add: py_str_int_def)
  next
    case False
    obtain c r where nd: "nat_digits (nat i) = c # r" by (cases "nat_digits (nat i)") auto
    then have "c \<noteq> CHR ''-''" using minus_not_digit [of "nat i"] by auto
    with False nd show ?thesis using num [of "py_str_int i @ rest" False "nat i"] by (simp add: py_str_int_def)
  qed
qed

section \<open>Documents read back\<close>

text \<open>Documents without floats whose objects have their keys in order.\<close>

fun json_plain :: "json \<Rightarrow> bool" where
  "json_plain (JFloat l) \<longleftrightarrow> False"
| "json_plain (JList xs) \<longleftrightarrow> (\<forall>x \<in> set xs. json_plain x)"
| "json_plain (JObj kvs) \<longleftrightarrow> sorted (map fst kvs) \<and> distinct (map fst kvs) \<and> (\<forall>kv \<in> set kvs. json_plain (snd kv))"
| "json_plain _ \<longleftrightarrow> True"

text \<open>The first character of a document.\<close>

lemma json_dumps_head:
  assumes "json_plain j"
  shows "\<exists>c r. json_dumps j = c # r \<and> c \<notin> set [CHR '' '', CHR 9, CHR 10, CHR 13, CHR '']'', CHR ''}'']"
proof (cases j)
  case (JInt i)
  obtain c r where c: "py_str_int i = c # r" by (cases "py_str_int i") (auto simp: py_str_int_def split: if_splits)
  have "set (CHR ''-'' # digit_chars) \<inter> set [CHR '' '', CHR 9, CHR 10, CHR 13, CHR '']'', CHR ''}''] = {}" by code_simp
  moreover have "c \<in> set (CHR ''-'' # digit_chars)" using set_py_str_int [of i] c by auto
  ultimately show ?thesis using JInt c by auto
qed (use assms in \<open>auto simp: json_string_def\<close>)

lemma json_ws_dumped: "json_plain j \<Longrightarrow> json_ws (json_dumps j @ rest) = json_dumps j @ rest"
  using json_dumps_head [of j] by auto

text \<open>The members and items of a document, read one after the other.\<close>

definition json_reads :: "json \<Rightarrow> bool" where
  "json_reads j \<longleftrightarrow> (\<forall>n rest. 2 * length (json_dumps j) \<le> n \<longrightarrow> json_rest_ok rest \<longrightarrow>
     json_value (Suc n) (json_dumps j @ rest) = Some (j, rest))"

lemma json_readsD:
  "json_reads j \<Longrightarrow> 2 * length (json_dumps j) < n \<Longrightarrow> json_rest_ok rest \<Longrightarrow>
    json_value n (json_dumps j @ rest) = Some (j, rest)"
  by (cases n) (auto simp: json_reads_def)

lemma json_items_dumped:
  assumes "xs \<noteq> []" and "\<forall>x \<in> set xs. json_plain x \<and> json_reads x"
    and "2 * length (py_join '','' (map json_dumps xs)) + 1 < n"
  shows "json_items n acc (py_join '','' (map json_dumps xs) @ CHR '']'' # rest) = Some (JList (acc @ xs), rest)"
  using assms
proof (induction xs arbitrary: n acc)
  case Nil
  then show ?case by simp
next
  case (Cons x xs)
  then obtain m where n: "n = Suc m" by (cases n) auto
  show ?case
  proof (cases xs)
    case Nil
    with Cons.prems n show ?thesis by (simp add: json_readsD)
  next
    case (Cons y ys)
    then have join: "py_join '','' (map json_dumps (x # xs)) = json_dumps x @ CHR '','' # py_join '','' (map json_dumps xs)"
      by simp
    have "json_value m (json_dumps x @ CHR '','' # t) = Some (x, CHR '','' # t)" for t
      using Cons.prems n join by (intro json_readsD) auto
    moreover have "json_ws (py_join '','' (map json_dumps xs) @ t) = py_join '','' (map json_dumps xs) @ t" for t
      using Cons.prems(2) Cons json_ws_dumped [of y] by (cases ys) auto
    moreover have "json_items m (acc @ [x]) (py_join '','' (map json_dumps xs) @ CHR '']'' # rest) =
        Some (JList ((acc @ [x]) @ xs), rest)"
      using Cons.prems n join Cons by (intro Cons.IH) auto
    ultimately show ?thesis unfolding n join by simp
  qed
qed

abbreviation json_member :: "string \<times> json \<Rightarrow> string" where
  "json_member kv \<equiv> json_string (fst kv) @ '':'' @ json_dumps (snd kv)"

lemma json_update_new: "k \<notin> fst ` set acc \<Longrightarrow> AList.update k v acc = acc @ [(k, v)]"
  by (induction acc) auto

lemma json_members_dumped:
  assumes "kvs \<noteq> []" and "\<forall>kv \<in> set kvs. json_plain (snd kv) \<and> json_reads (snd kv)"
    and "distinct (map fst (acc @ kvs))" and "2 * length (py_join '','' (map json_member kvs)) + 1 < n"
  shows "json_members n acc (py_join '','' (map json_member kvs) @ CHR ''}'' # rest) = Some (JObj (acc @ kvs), rest)"
  using assms
proof (induction kvs arbitrary: n acc)
  case Nil
  then show ?case by simp
next
  case (Cons kv kvs)
  obtain k v where kv: "kv = (k, v)" by (cases kv)
  from Cons obtain m where n: "n = Suc m" by (cases n) auto
  have upd: "AList.update k v acc = acc @ [(k, v)]" using Cons.prems(3) kv by (intro json_update_new) auto
  have key: "json_read_string (concat (map json_escape_char k) @ CHR 34 # t) = Some (k, t)" for t
    by (rule json_read_string_dumped)
  have val: "json_value m (json_dumps v @ t) = Some (v, t)" if "json_rest_ok t" for t
  proof (rule json_readsD)
    have "length (json_dumps v) + 1 \<le> length (py_join '','' (map json_member (kv # kvs)))"
      using kv by (cases kvs) auto
    then show "2 * length (json_dumps v) < m" using Cons.prems(4) n by simp
  qed (use Cons.prems(2) kv that in auto)
  have ws: "json_ws (json_dumps v @ t) = json_dumps v @ t" for t
    using Cons.prems(2) kv by (intro json_ws_dumped) auto
  show ?case
  proof (cases kvs)
    case Nil
    with kv n key val ws upd show ?thesis by (simp add: json_string_def)
  next
    case (Cons kv' kvs')
    have "json_ws (py_join '','' (map json_member kvs) @ t) = py_join '','' (map json_member kvs) @ t" for t
      using Cons by (cases kvs') (simp_all add: json_string_def)
    moreover have "json_members m (acc @ [(k, v)]) (py_join '','' (map json_member kvs) @ CHR ''}'' # rest) =
        Some (JObj ((acc @ [(k, v)]) @ kvs), rest)"
      using Cons.prems n kv Cons by (intro Cons.IH) auto
    moreover have "py_join '','' (map json_member (kv # kvs)) =
        json_member kv @ CHR '','' # py_join '','' (map json_member kvs)" using Cons by simp
    ultimately show ?thesis using kv n key val ws upd by (simp add: json_string_def)
  qed
qed

lemma json_members_sorted:
  "sorted (map fst kvs) \<Longrightarrow>
    map snd (sort_key fst (map (\<lambda>(k, v). (k, json_string k @ '':'' @ json_dumps v)) kvs)) = map json_member kvs"
  by (simp add: sort_key_id_if_sorted comp_def case_prod_unfold)

lemma json_dumped_reads: "json_plain j \<Longrightarrow> json_reads j"
proof (induction j)
  case (JStr s)
  then show ?case by (simp add: json_reads_def json_string_def json_read_string_dumped)
next
  case (JInt i)
  have "json_value (Suc n) (py_str_int i @ rest) = json_number (py_str_int i @ rest)" for n rest
  proof -
    obtain c r where c: "py_str_int i = c # r" by (cases "py_str_int i") (auto simp: py_str_int_def split: if_splits)
    then have "c \<in> set (CHR ''-'' # digit_chars)" using set_py_str_int [of i] by auto
    moreover have "set (CHR ''-'' # digit_chars) \<inter> set [CHR 34, CHR ''{'', CHR ''['', CHR ''n'', CHR ''t'', CHR ''f''] = {}"
      by code_simp
    ultimately have "c \<notin> set [CHR 34, CHR ''{'', CHR ''['', CHR ''n'', CHR ''t'', CHR ''f'']" by blast
    then show ?thesis using c by (simp add: py_startswith_def)
  qed
  then show ?case by (simp add: json_reads_def json_number_dumped)
next
  case (JFloat l)
  then show ?case by simp
next
  case (JBool b)
  then show ?case by (simp add: json_reads_def py_startswith_def)
next
  case JNull
  then show ?case by (simp add: json_reads_def py_startswith_def)
next
  case (JList xs)
  show ?case
  proof (cases xs)
    case Nil
    then show ?thesis by (simp add: json_reads_def)
  next
    case (Cons y ys)
    let ?join = "py_join '','' (map json_dumps xs)"
    obtain c r where c: "json_dumps y = c # r" "c \<notin> set [CHR '' '', CHR 9, CHR 10, CHR 13, CHR '']'', CHR ''}'']"
      using json_dumps_head [of y] JList.prems Cons by auto
    have head: "\<exists>q. ?join = c # q" using c Cons by (cases ys) auto
    have "json_value (Suc n) (json_dumps (JList xs) @ rest) = Some (JList xs, rest)"
      if "2 * length (json_dumps (JList xs)) \<le> n" for n rest
    proof -
      have "json_items n [] (?join @ CHR '']'' # rest) = Some (JList ([] @ xs), rest)"
        using JList that Cons by (intro json_items_dumped) auto
      then show ?thesis using head c(2) by auto
    qed
    then show ?thesis by (simp add: json_reads_def)
  qed
next
  case (JObj kvs)
  show ?case
  proof (cases kvs)
    case Nil
    then show ?thesis by (simp add: json_reads_def)
  next
    case (Cons kv kvs')
    let ?join = "py_join '','' (map json_member kvs)"
    have dump: "json_dumps (JObj kvs) = CHR ''{'' # ?join @ ''}''"
      using JObj.prems json_members_sorted [of kvs] by simp
    have head: "\<exists>q. ?join = CHR 34 # q" using Cons by (cases kvs') (auto simp: json_string_def)
    have "json_value (Suc n) (json_dumps (JObj kvs) @ rest) = Some (JObj kvs, rest)"
      if "2 * length (json_dumps (JObj kvs)) \<le> n" for n rest
    proof -
      have "\<forall>kv \<in> set kvs. json_plain (snd kv) \<and> json_reads (snd kv)"
        using JObj by (auto simp: snds.simps)
      then have "json_members n [] (?join @ CHR ''}'' # rest) = Some (JObj ([] @ kvs), rest)"
        using JObj.prems that Cons dump by (intro json_members_dumped) auto
      then show ?thesis using head dump by auto
    qed
    then show ?thesis by (simp add: json_reads_def)
  qed
qed

text \<open>\<open>json.loads(json.dumps(x))\<close> is \<open>x\<close>, and \<open>json.dumps\<close> is injective.\<close>

theorem json_round_trip: "json_plain j \<Longrightarrow> json_loads (json_dumps j) = Some j"
  using json_readsD [OF json_dumped_reads, of j "2 * length (json_dumps j) + 2" "[]"] json_ws_dumped [of j "[]"]
  by (simp add: json_loads_def)

lemma json_dumps_inj: "json_plain a \<Longrightarrow> json_plain b \<Longrightarrow> json_dumps a = json_dumps b \<longleftrightarrow> a = b"
  using json_round_trip by (metis option.inject)

text \<open>An object with distinct keys is read back with its keys in order.\<close>

lemma sort_key_map: "sort_key f (map g xs) = map g (sort_key (\<lambda>x. f (g x)) xs)"
proof (induction xs)
  case (Cons x xs)
  have "insort_key f (g x) (map g ys) = map g (insort_key (\<lambda>x. f (g x)) x ys)" for ys
    by (induction ys) auto
  with Cons show ?case by simp
qed simp

lemma sort_key_twice: "sort_key f (sort_key f xs) = sort_key f xs"
  by (rule sort_key_id_if_sorted) simp

lemma json_dumps_sorted: "json_dumps (JObj (sort_key fst kvs)) = json_dumps (JObj kvs)"
proof -
  have "sort_key fst (map g (sort_key fst kvs)) = sort_key fst (map g kvs)"
    if "\<And>x. fst (g x) = fst x" for g :: "string \<times> json \<Rightarrow> string \<times> string"
    using that by (simp add: sort_key_map sort_key_twice)
  then show ?thesis by (simp add: case_prod_unfold)
qed

lemma map_of_sort_key:
  assumes "distinct (map fst kvs)"
  shows "map_of (sort_key fst kvs) = map_of kvs"
proof (rule map_of_eqI)
  show "set (map fst (sort_key fst kvs)) = set (map fst kvs)" by simp
  have "distinct (map fst (sort_key fst kvs))"
    using assms by (simp add: distinct_map)
  moreover have "map_of (sort_key fst kvs) k = Some v \<longleftrightarrow> map_of kvs k = Some v" for k v
    using calculation assms by (simp add: map_of_eq_Some_iff)
  ultimately show "\<forall>k \<in> set (map fst (sort_key fst kvs)). map_of (sort_key fst kvs) k = map_of kvs k"
    by (metis not_Some_eq)
qed

lemma json_object_round_trip:
  assumes "distinct (map fst kvs)" and "\<forall>kv \<in> set kvs. json_plain (snd kv)"
  shows "json_loads (json_dumps (JObj kvs)) = Some (JObj (sort_key fst kvs))"
proof -
  have "distinct (map fst (sort_key fst kvs))"
    using assms(1) by (simp add: distinct_map)
  then have "json_plain (JObj (sort_key fst kvs))" using assms(2) by simp
  then show ?thesis using json_round_trip json_dumps_sorted by metis
qed

lemma json_object_inj:
  assumes "distinct (map fst kvs)" "\<forall>kv \<in> set kvs. json_plain (snd kv)"
    and "distinct (map fst kvs')" "\<forall>kv \<in> set kvs'. json_plain (snd kv)"
    and "json_dumps (JObj kvs) = json_dumps (JObj kvs')"
  shows "map_of kvs = map_of kvs'"
proof -
  have "sort_key fst kvs = sort_key fst kvs'"
    using json_object_round_trip [OF assms(1,2)] json_object_round_trip [OF assms(3,4)] assms(5) by simp
  then show ?thesis using map_of_sort_key assms(1,3) by metis
qed

text \<open>\<open>isinstance(payload, dict)\<close> and \<open>payload.get(key) == value\<close> for every pair of strings.\<close>

definition json_object_has :: "json \<Rightarrow> (string \<times> string) list \<Rightarrow> bool" where
  "json_object_has payload values = (case payload of
     JObj kvs \<Rightarrow> list_all (\<lambda>(k, v). map_of kvs k = Some (JStr v)) values
   | _ \<Rightarrow> False)"

end
