(* ===== verification/V4_Generation.thy ===== *)
theory V4_Generation
  imports V4_Samples Py_Json
begin

text \<open>
  Generations of the v4 store (\<open>bind_generation\<close> is in \<open>V4_Store\<close>, \<open>load_generation_safe\<close> of
  \<open>v4_gmo_persistence.py\<close> here): a binding is read back as it was bound, a bound store takes no
  other binding, and nothing else the program does changes it.
\<close>

section \<open>Reading a binding\<close>

definition v4_generation_keys :: "string list" where
  "v4_generation_keys = [''generation_digest'', ''generation_manifest'', ''generation_label'',
     ''profile_version'', ''policy_config_hash'', ''strategy_version'', ''selected_horizon'',
     ''risk_policy_label'', ''dead_man_policy_label'', ''protection_contract_hash'',
     ''broker_capability_evidence_hash'']"

definition v4_stored_binding :: "(string \<times> string) list \<Rightarrow> v4_binding" where
  "v4_stored_binding vals = \<lparr>
     gb_generation_label = the (map_of vals ''generation_label''),
     gb_profile_version = the (map_of vals ''profile_version''),
     gb_policy_config_hash = the (map_of vals ''policy_config_hash''),
     gb_strategy_version = the (map_of vals ''strategy_version''),
     gb_selected_horizon = the (map_of vals ''selected_horizon''),
     gb_risk_policy_label = the (map_of vals ''risk_policy_label''),
     gb_dead_man_policy_label = the (map_of vals ''dead_man_policy_label''),
     gb_protection_contract_hash = the (map_of vals ''protection_contract_hash''),
     gb_evidence_hash = the (map_of vals ''broker_capability_evidence_hash'')\<rparr>"

definition v4_load_generation_safe :: "v4_db \<Rightarrow> v4_binding option result" where
  "v4_load_generation_safe db =
    (let vals = filter (\<lambda>(k, v). k \<in> set v4_generation_keys) (db_metadata db)
     in if vals = [] then Inr None
        else if fst ` set vals \<noteq> set v4_generation_keys
        then Inl (V4GmoPersistenceError ''v4 generation metadata is incomplete'')
        else
          let manifest = the (map_of vals ''generation_manifest'');
              digest = the (map_of vals ''generation_digest'');
              binding = v4_stored_binding vals
          in if sha256_hex manifest \<noteq> digest
             then Inl (V4GmoPersistenceError ''v4 generation digest mismatch'')
             else case json_loads manifest of
               None \<Rightarrow> Inl (V4GmoPersistenceError ''v4 generation manifest is invalid'')
             | Some payload \<Rightarrow>
                 if json_object_has payload (v4_generation_labels binding)
                 then Inr (Some binding)
                 else Inl (V4GmoPersistenceError ''v4 generation manifest mismatch''))"

section \<open>What a binding leaves in the table\<close>

definition v4_fields :: "v4_binding \<Rightarrow> string \<Rightarrow> string \<Rightarrow> (string \<times> json) list" where
  "v4_fields b risk_digest dead_man_digest = map (\<lambda>(k, v). (k, JStr v)) (v4_generation_labels b) @ [
     (''risk_policy_digest'', JStr risk_digest), (''dead_man_policy_digest'', JStr dead_man_digest)]"

lemma v4_manifest_fields: "v4_generation_manifest b r d = json_dumps (JObj (v4_fields b r d))"
  by (simp add: v4_generation_manifest_def v4_fields_def)

lemma v4_fields_plain:
  "distinct (map fst (v4_fields b r d))" "\<forall>kv \<in> set (v4_fields b r d). json_plain (snd kv)"
  by (auto simp: v4_fields_def v4_generation_labels_def)

lemma v4_fields_at:
  "map_of (v4_fields b r d) ''generation_label'' = Some (JStr (gb_generation_label b))"
  "map_of (v4_fields b r d) ''profile_version'' = Some (JStr (gb_profile_version b))"
  "map_of (v4_fields b r d) ''policy_config_hash'' = Some (JStr (gb_policy_config_hash b))"
  "map_of (v4_fields b r d) ''strategy_version'' = Some (JStr (gb_strategy_version b))"
  "map_of (v4_fields b r d) ''selected_horizon'' = Some (JStr (gb_selected_horizon b))"
  "map_of (v4_fields b r d) ''risk_policy_label'' = Some (JStr (gb_risk_policy_label b))"
  "map_of (v4_fields b r d) ''dead_man_policy_label'' = Some (JStr (gb_dead_man_policy_label b))"
  "map_of (v4_fields b r d) ''protection_contract_hash'' = Some (JStr (gb_protection_contract_hash b))"
  "map_of (v4_fields b r d) ''broker_capability_evidence_hash'' = Some (JStr (gb_evidence_hash b))"
  "map_of (v4_fields b r d) ''risk_policy_digest'' = Some (JStr r)"
  "map_of (v4_fields b r d) ''dead_man_policy_digest'' = Some (JStr d)"
  by (simp_all add: v4_fields_def v4_generation_labels_def)

lemma v4_manifest_inj:
  assumes "v4_generation_manifest b r d = v4_generation_manifest b' r' d'"
  shows "b = b' \<and> r = r' \<and> d = d'"
proof -
  have "map_of (v4_fields b r d) = map_of (v4_fields b' r' d')"
    by (rule json_object_inj [OF v4_fields_plain v4_fields_plain assms [unfolded v4_manifest_fields]])
  then have eq: "map_of (v4_fields b r d) k = map_of (v4_fields b' r' d') k" for k by simp
  note field = v4_fields_at [of b r d, unfolded eq, unfolded v4_fields_at]
  have "b = b'" by (rule v4_binding.equality) (use field in simp_all)
  with field show ?thesis by simp
qed

lemma v4_manifest_loads:
  "\<exists>payload. json_loads (v4_generation_manifest b r d) = Some payload
    \<and> json_object_has payload (v4_generation_labels b)"
proof -
  have "json_loads (v4_generation_manifest b r d) = Some (JObj (sort_key fst (v4_fields b r d)))"
    unfolding v4_manifest_fields by (rule json_object_round_trip [OF v4_fields_plain])
  then show ?thesis
    by (simp add: json_object_has_def v4_generation_labels_def map_of_sort_key [OF v4_fields_plain(1)] v4_fields_at)
qed

text \<open>The rows a bound table has, and a table without the rows of \<open>bind_generation\<close>.\<close>

definition v4_unbound :: "(string \<times> string) list \<Rightarrow> bool" where
  "v4_unbound m \<longleftrightarrow> (\<forall>k \<in> set v4_generation_keys. k \<noteq> ''profile_version'' \<longrightarrow> map_of m k = None)"

definition v4_bound :: "v4_binding \<Rightarrow> string \<Rightarrow> string \<Rightarrow> (string \<times> string) list \<Rightarrow> bool" where
  "v4_bound b risk_digest dead_man_digest m \<longleftrightarrow>
     (\<forall>(k, v) \<in> set (v4_generation_labels b). map_of m k = Some v)
     \<and> map_of m ''generation_manifest'' = Some (v4_generation_manifest b risk_digest dead_man_digest)
     \<and> map_of m ''generation_digest'' = Some (sha256_hex (v4_generation_manifest b risk_digest dead_man_digest))"

lemma v4_generation_keys_eq:
  "set v4_generation_keys = insert ''generation_digest'' (insert ''generation_manifest'' (fst ` set (v4_generation_labels b)))"
  by (auto simp: v4_generation_keys_def v4_generation_labels_def)

lemma v4_bound_unique: "v4_bound b r d m \<Longrightarrow> v4_bound b' r' d' m \<Longrightarrow> b = b' \<and> r = r' \<and> d = d'"
  by (rule v4_manifest_inj) (simp add: v4_bound_def)

lemma v4_stored_labels:
  "\<forall>(k, v) \<in> set (v4_generation_labels b). map_of m k = Some v \<Longrightarrow> v4_stored_binding m = b"
  by (rule v4_binding.equality) (simp_all add: v4_stored_binding_def v4_generation_labels_def)

lemma v4_load_bound:
  assumes "v4_bound b r d (db_metadata db)"
  shows "v4_load_generation_safe db = Inr (Some b)"
proof -
  let ?vals = "filter (\<lambda>(k, v). k \<in> set v4_generation_keys) (db_metadata db)"
  have at: "map_of ?vals k = map_of (db_metadata db) k" if "k \<in> set v4_generation_keys" for k
    using that by (rule map_of_filter_key)
  have some: "map_of (db_metadata db) k \<noteq> None" if "k \<in> set v4_generation_keys" for k
    using that assms unfolding v4_generation_keys_eq [of b] by (auto simp: v4_bound_def)
  have keys: "fst ` set ?vals = set v4_generation_keys"
    unfolding fst_set_filter_key using some by auto
  moreover have "set v4_generation_keys \<noteq> {}" by (simp add: v4_generation_keys_def)
  ultimately have ne: "?vals \<noteq> []" by (metis image_is_empty set_empty)
  have labels: "map_of ?vals k = Some v" if "(k, v) \<in> set (v4_generation_labels b)" for k v
    using that assms at [of k] unfolding v4_generation_keys_eq [of b] by (force simp: v4_bound_def)
  have "v4_stored_binding ?vals = b" by (rule v4_stored_labels) (use labels in auto)
  moreover have "map_of ?vals ''generation_manifest'' = Some (v4_generation_manifest b r d)"
    "map_of ?vals ''generation_digest'' = Some (sha256_hex (v4_generation_manifest b r d))"
    using assms at by (simp_all add: v4_generation_keys_eq [of b] v4_bound_def)
  ultimately show ?thesis
    unfolding v4_load_generation_safe_def Let_def using ne keys v4_manifest_loads [of b r d]
    by (auto simp del: set_filter filter.simps)
qed

text \<open>
  A store that \<open>_initialize\<close> opened has a \<open>profile_version\<close> row, so one that was never bound is
  reported as incomplete and not as \<open>None\<close>.
\<close>

lemma only_key:
  "\<forall>k \<in> A. k \<noteq> p \<longrightarrow> m k = None \<Longrightarrow> p \<in> A \<Longrightarrow> {k. k \<in> A \<and> m k \<noteq> None} = {k \<in> {p}. m k \<noteq> None}"
  by auto

lemma v4_profile_key: "''profile_version'' \<in> set v4_generation_keys"
  by (simp add: v4_generation_keys_def)

lemma v4_load_unbound:
  assumes "v4_unbound (db_metadata db)"
  shows "v4_load_generation_safe db = (if map_of (db_metadata db) ''profile_version'' = None then Inr None
    else Inl (V4GmoPersistenceError ''v4 generation metadata is incomplete''))"
proof -
  let ?vals = "filter (\<lambda>(k, v). k \<in> set v4_generation_keys) (db_metadata db)"
  have keys: "fst ` set ?vals = {k \<in> {''profile_version''}. map_of (db_metadata db) k \<noteq> None}"
    unfolding fst_set_filter_key
    by (rule only_key [OF assms [unfolded v4_unbound_def] v4_profile_key])
  show ?thesis
  proof (cases "map_of (db_metadata db) ''profile_version'' = None")
    case True
    then have "fst ` set ?vals = {}" unfolding keys by simp
    then have "?vals = []" by (metis image_is_empty set_empty)
    with True show ?thesis unfolding v4_load_generation_safe_def Let_def by (simp only: if_True simp_thms)
  next
    case False
    have "''generation_digest'' \<in> set v4_generation_keys" by (simp add: v4_generation_keys_def)
    moreover have "''generation_digest'' \<notin> fst ` set ?vals" unfolding keys by simp
    ultimately have ne: "fst ` set ?vals \<noteq> set v4_generation_keys" by metis
    have "''profile_version'' \<in> fst ` set ?vals" unfolding keys using False by simp
    then have "?vals \<noteq> []" by (metis empty_iff image_empty list.set(1))
    with ne False show ?thesis unfolding v4_load_generation_safe_def Let_def by (simp del: set_filter filter.simps)
  qed
qed

section \<open>Binding\<close>

definition v4_arguments :: "pyval \<Rightarrow> v4_policy \<Rightarrow> pyval \<Rightarrow> pyval \<Rightarrow> pyval \<Rightarrow> pyval
    \<Rightarrow> v4_binding \<Rightarrow> string \<Rightarrow> string \<Rightarrow> bool" where
  "v4_arguments label policy risk_label risk_digest dead_label dead_digest b r d \<longleftrightarrow>
     as_str label = Some (gb_generation_label b) \<and> gb_profile_version b = V4_GMO_PROFILE_VERSION
     \<and> gb_policy_config_hash b = v4_config_hash policy \<and> gb_strategy_version b = v_strategy_version policy
     \<and> gb_selected_horizon b = horizon_value (v_horizon policy)
     \<and> as_str risk_label = Some (gb_risk_policy_label b) \<and> as_str risk_digest = Some r
     \<and> as_str dead_label = Some (gb_dead_man_policy_label b) \<and> as_str dead_digest = Some d
     \<and> gb_protection_contract_hash b = v_protection_contract_hash policy
     \<and> gb_evidence_hash b = v_evidence_hash policy \<and> is_hex64 r \<and> is_hex64 d"

lemma v4_check_labels_str:
  "v4_check_labels kvs = Inr u \<Longrightarrow> (k, v) \<in> set kvs \<Longrightarrow> as_str v \<noteq> None"
  by (induction kvs) (auto simp: bindR_Inr_iff split: if_splits option.splits)

lemma v4_bind_eq:
  assumes "v4_bind_generation label policy rl rd dl dd db = (Inr b, db')"
  shows "\<exists>r d. v4_arguments label policy rl rd dl dd b r d
    \<and> (\<forall>db. v4_bind_generation label policy rl rd dl dd db =
        thenE (v4_bind_rows b (v4_generation_manifest b r d) (sha256_hex (v4_generation_manifest b r d))) (returnE b) db)"
proof -
  let ?labels = "[(''generation_label'', label),
    (''profile_version'', PyStr V4_GMO_PROFILE_VERSION),
    (''policy_config_hash'', PyStr (v4_config_hash policy)),
    (''strategy_version'', PyStr (v_strategy_version policy)),
    (''selected_horizon'', PyStr (horizon_value (v_horizon policy))),
    (''risk_policy_label'', rl), (''dead_man_policy_label'', dl),
    (''protection_contract_hash'', PyStr (v_protection_contract_hash policy)),
    (''broker_capability_evidence_hash'', PyStr (v_evidence_hash policy))]"
  define b0 where "b0 = v4_binding_for label policy rl dl"
  define m where "m = v4_generation_manifest b0 (the (as_str rd)) (the (as_str dd))"
  note bind = v4_bind_generation_def [of label policy rl rd dl dd, unfolded Let_def, folded b0_def, folded m_def]
  obtain u where checked: "v4_check_labels ?labels = Inr u"
    using assms unfolding bind by (cases "v4_check_labels ?labels") (simp_all add: run_then)
  have digests: "v4_generation_digest_ok rd" "v4_generation_digest_ok dd"
    using assms checked unfolding bind by (simp_all add: run_then split: if_splits)
  have eq: "v4_bind_generation label policy rl rd dl dd db = thenE (v4_bind_rows b0 m (sha256_hex m)) (returnE b0) db" for db
    unfolding bind run_then run_simps checked using digests by (simp add: run_then)
  have "b = b0" using assms unfolding eq run_then by (auto split: prod.splits sum.splits)
  moreover have "as_str label \<noteq> None" "as_str rl \<noteq> None" "as_str dl \<noteq> None"
    using v4_check_labels_str [OF checked, of "''generation_label''" label]
      v4_check_labels_str [OF checked, of "''risk_policy_label''" rl]
      v4_check_labels_str [OF checked, of "''dead_man_policy_label''" dl] by simp_all
  moreover obtain r d where "as_str rd = Some r" "is_hex64 r" "as_str dd = Some d" "is_hex64 d"
    using digests by (auto simp: v4_generation_digest_ok_def split: option.splits)
  ultimately have "v4_arguments label policy rl rd dl dd b r d" and "m = v4_generation_manifest b r d"
    by (auto simp: v4_arguments_def b0_def v4_binding_for_def m_def)
  then show ?thesis using eq \<open>b = b0\<close> by auto
qed

definition v4_new_rows :: "v4_binding \<Rightarrow> string \<Rightarrow> string \<Rightarrow> (string \<times> string) list" where
  "v4_new_rows b m x = filter (\<lambda>(k, v). k \<noteq> ''profile_version'') (v4_generation_labels b)
     @ [(''generation_manifest'', m), (''generation_digest'', x)]"

lemma v4_new_rows_keys:
  "k \<in> set v4_generation_keys \<Longrightarrow> k \<noteq> ''profile_version'' \<Longrightarrow> \<exists>v. (k, v) \<in> set (v4_new_rows b m x)"
  unfolding v4_generation_keys_eq [of b] by (auto simp: v4_new_rows_def)

text \<open>The three outcomes of the transaction: new rows, the same binding again, a refusal.\<close>

lemma v4_bind_rows_run:
  assumes "v4_bind_rows b m (sha256_hex m) db = (x, db')" and "m = v4_generation_manifest b r d"
  shows "(x = Inr () \<and> v4_unbound (db_metadata db) \<and> db' = db\<lparr>db_metadata := db_metadata db @ v4_new_rows b m (sha256_hex m)\<rparr>)
    \<or> (x = Inr () \<and> db' = db \<and> v4_bound b r d (db_metadata db)) \<or> (\<exists>e. x = Inl e) \<and> db' = db"
proof (cases "map_of (db_metadata db) ''generation_digest''")
  case None
  then have run: "catchE (transactionE (insert_metadata (v4_new_rows b m (sha256_hex m))))
      (\<lambda>e. raiseE (if e = SqliteIntegrityError then V4GmoPersistenceError ''v4 generation metadata conflict'' else e)) db
      = (x, db')"
    using assms(1) by (simp add: v4_bind_rows_def v4_new_rows_def run_progs split: prod.splits sum.splits)
  have "v4_unbound (db_metadata db)"
    if "\<forall>kv \<in> set (v4_new_rows b m (sha256_hex m)). map_of (db_metadata db) (fst kv) = None"
    unfolding v4_unbound_def using that v4_new_rows_keys [of _ b m "sha256_hex m"] by fastforce
  then show ?thesis using run by (auto simp: run_catch run_transaction insert_metadata_def split: if_splits)
next
  case (Some y)
  then show ?thesis
    using assms by (auto simp: v4_bind_rows_def run_progs v4_bound_def list_all_iff split: if_splits)
qed

lemma v4_bound_not_unbound: "v4_bound b r d m \<Longrightarrow> \<not> v4_unbound m"
  by (auto simp: v4_bound_def v4_unbound_def v4_generation_keys_def)

lemma v4_bind_run:
  assumes run: "v4_bind_generation label policy rl rd dl dd db = (x, db')"
  shows "case x of
      Inl e \<Rightarrow> db' = db
    | Inr b \<Rightarrow> \<exists>r d. v4_arguments label policy rl rd dl dd b r d
        \<and> (v4_unbound (db_metadata db) \<and> db' = db\<lparr>db_metadata := db_metadata db
              @ v4_new_rows b (v4_generation_manifest b r d) (sha256_hex (v4_generation_manifest b r d))\<rparr>
           \<or> v4_bound b r d (db_metadata db) \<and> db' = db)"
proof (cases x)
  case (Inl e)
  have "db' = db" if "v4_bind_rows b m y db = (Inl e, db')" for b m y
    using that by (auto simp: v4_bind_rows_def run_progs insert_metadata_def
        split: option.splits if_splits prod.splits sum.splits)
  then have "db' = db"
    using run Inl by (auto simp: v4_bind_generation_def Let_def run_then split: prod.splits sum.splits if_splits)
  with Inl show ?thesis by simp
next
  case (Inr b)
  obtain r d where args: "v4_arguments label policy rl rd dl dd b r d"
    and eq: "\<And>db. v4_bind_generation label policy rl rd dl dd db =
        thenE (v4_bind_rows b (v4_generation_manifest b r d) (sha256_hex (v4_generation_manifest b r d))) (returnE b) db"
    using v4_bind_eq [OF run [unfolded Inr]] by blast
  have "v4_bind_rows b (v4_generation_manifest b r d) (sha256_hex (v4_generation_manifest b r d)) db = (Inr (), db')"
    using run unfolding Inr eq run_then by (auto split: prod.splits sum.splits)
  from v4_bind_rows_run [OF this refl] args Inr show ?thesis by auto
qed

text \<open>Everything a generation writes but the \<open>profile_version\<close> row of \<open>_initialize\<close>.\<close>

definition v4_bound_rows :: "v4_binding \<Rightarrow> string \<Rightarrow> string \<Rightarrow> (string \<times> string) list \<Rightarrow> bool" where
  "v4_bound_rows b r d m \<longleftrightarrow> gb_profile_version b = V4_GMO_PROFILE_VERSION
     \<and> (\<forall>(k, v) \<in> set (v4_generation_labels b). k \<noteq> ''profile_version'' \<longrightarrow> map_of m k = Some v)
     \<and> map_of m ''generation_manifest'' = Some (v4_generation_manifest b r d)
     \<and> map_of m ''generation_digest'' = Some (sha256_hex (v4_generation_manifest b r d))"

definition v4_opened :: "(string \<times> string) list \<Rightarrow> bool" where
  "v4_opened m \<longleftrightarrow> map_of m ''profile_version'' = Some V4_GMO_PROFILE_VERSION"

lemma v4_bound_opened: "v4_bound_rows b r d m \<Longrightarrow> v4_opened m \<Longrightarrow> v4_bound b r d m"
  by (auto simp: v4_bound_rows_def v4_bound_def v4_opened_def v4_generation_labels_def)

lemma v4_new_rows_bound:
  assumes "v4_unbound m" and "gb_profile_version b = V4_GMO_PROFILE_VERSION"
  shows "v4_bound_rows b r d (m @ v4_new_rows b (v4_generation_manifest b r d) (sha256_hex (v4_generation_manifest b r d)))"
proof -
  let ?rows = "v4_new_rows b (v4_generation_manifest b r d) (sha256_hex (v4_generation_manifest b r d))"
  have new: "map_of (m @ ?rows) k = map_of ?rows k" if "k \<in> set v4_generation_keys" "k \<noteq> ''profile_version''" for k
    using assms(1) that unfolding v4_unbound_def by (simp add: map_add_def)
  have "map_of (m @ ?rows) k = Some v" if "(k, v) \<in> set (v4_generation_labels b)" "k \<noteq> ''profile_version''" for k v
  proof -
    have "k \<in> set v4_generation_keys" using that by (force simp: v4_generation_keys_eq [of b])
    moreover have "(k, v) \<in> set ?rows" using that by (auto simp: v4_new_rows_def)
    moreover have "distinct (map fst ?rows)" by (simp add: v4_new_rows_def v4_generation_labels_def)
    ultimately show ?thesis using new that(2) by (simp add: map_of_is_SomeI)
  qed
  moreover have "map_of ?rows ''generation_manifest'' = Some (v4_generation_manifest b r d)"
    "map_of ?rows ''generation_digest'' = Some (sha256_hex (v4_generation_manifest b r d))"
    by (simp_all add: v4_new_rows_def v4_generation_labels_def)
  moreover have "map_of (m @ ?rows) ''generation_manifest'' = map_of ?rows ''generation_manifest''"
    "map_of (m @ ?rows) ''generation_digest'' = map_of ?rows ''generation_digest''"
    by (rule new; simp add: v4_generation_keys_def)+
  ultimately show ?thesis unfolding v4_bound_rows_def using assms(2) by auto
qed

lemma v4_new_rows_opened: "v4_opened (m @ v4_new_rows b x y) = v4_opened m"
  by (auto simp: v4_opened_def v4_new_rows_def v4_generation_labels_def map_add_def split: option.splits)

text \<open>A successful binding of an opened store leaves it bound and goes through again.\<close>

lemma v4_bind_done:
  assumes run: "v4_bind_generation label policy rl rd dl dd db = (Inr b, db')" and opened: "v4_opened (db_metadata db)"
  shows "\<exists>r d. v4_arguments label policy rl rd dl dd b r d \<and> v4_bound b r d (db_metadata db')
    \<and> v4_bind_generation label policy rl rd dl dd db' = (Inr b, db')"
proof -
  obtain r d where args: "v4_arguments label policy rl rd dl dd b r d"
    and eq: "\<And>db. v4_bind_generation label policy rl rd dl dd db =
        thenE (v4_bind_rows b (v4_generation_manifest b r d) (sha256_hex (v4_generation_manifest b r d))) (returnE b) db"
    using v4_bind_eq [OF run] by blast
  have "v4_bind_rows b (v4_generation_manifest b r d) (sha256_hex (v4_generation_manifest b r d)) db = (Inr (), db')"
    using run unfolding eq run_then by (auto split: prod.splits sum.splits)
  from v4_bind_rows_run [OF this refl] have bound: "v4_bound b r d (db_metadata db')"
    using args opened v4_new_rows_bound v4_new_rows_opened v4_bound_opened by (auto simp: v4_arguments_def)
  then have "v4_bind_rows b (v4_generation_manifest b r d) (sha256_hex (v4_generation_manifest b r d)) db' = (Inr (), db')"
    by (simp add: v4_bind_rows_def run_progs v4_bound_def list_all_iff)
  then have "v4_bind_generation label policy rl rd dl dd db' = (Inr b, db')" unfolding eq run_then by simp
  with args bound show ?thesis by auto
qed

section \<open>The rest of the program leaves the binding alone\<close>

abbreviation v4_metadata :: "v4_world \<Rightarrow> (string \<times> string) list" where
  "v4_metadata w \<equiv> db_metadata (w_store w)"

lemma keeps_v4_statements [frame]:
  "keeps db_metadata (insert_cycle c)" "keeps db_metadata (insert_event e)" "keeps db_metadata (insert_attempt t)"
  "keeps db_metadata (update_cycle ref f)"
  by (simp_all add: keeps_def insert_cycle_def insert_event_def insert_attempt_def update_cycle_def)

lemma keeps_v4_rows [frame]:
  "keeps db_metadata (v4_append_event ref category state)"
  "keeps db_metadata (v4_require_row ref)" "keeps db_metadata (v4_load_cycle ref)"
  unfolding v4_append_event_def v4_require_row_def v4_load_cycle_def by (intro frame)+

lemma keeps_v4_writers [frame]:
  "keeps db_metadata (v4_create_cycle signal policy now)"
  "keeps db_metadata (v4_record_action_attempt ref action target now)"
  "keeps db_metadata (v4_record_action_outcome ref action outcome)"
  "keeps db_metadata (v4_transition ref target category now filled protected since halt)"
  "keeps db_metadata (v4_clear_halted_cycle_no_post ref phrase flat now)"
  unfolding v4_create_cycle_def v4_record_action_attempt_def v4_record_action_outcome_def v4_transition_def
    v4_clear_halted_cycle_no_post_def Let_def
  by (intro frame; simp)+

lemma keeps_v4_world [frame]:
  "keeps v4_metadata checkpoint" "keeps v4_metadata (v4_now now)" "keeps v4_metadata (on_broker x)"
  "keeps v4_metadata v4_read_snapshot_or_none" "keeps v4_metadata (v4_result status cycle reasons)"
proof -
  show stop: "keeps v4_metadata checkpoint"
    by (auto simp: keeps_def checkpoint_def split: option.splits nat.splits)
  have "keeps v4_metadata (\<lambda>w. case w_clock w of None \<Rightarrow> (Inr (PyDatetime now), w)
       | Some clock \<Rightarrow> (Inr (clock (w_ticks w)), w\<lparr>w_ticks := Suc (w_ticks w)\<rparr>))"
    by (simp add: keeps_def split: option.splits)
  then show "keeps v4_metadata (v4_now now)" unfolding v4_now_def by (intro frame stop)
  show broker: "keeps v4_metadata (on_broker x)" for x :: "(v4_broker, 'b) prog"
    unfolding on_broker_def by (intro keeps_then stop keeps_zoom_other) simp
  show "keeps v4_metadata v4_read_snapshot_or_none" unfolding v4_read_snapshot_or_none_def by (intro frame broker)
  show "keeps v4_metadata (v4_result status cycle reasons)" unfolding v4_result_def by (intro frame)
qed

lemma keeps_on_store [frame]: "keeps db_metadata m \<Longrightarrow> keeps v4_metadata (on_store m)"
  unfolding on_store_def by (intro frame keeps_zoom [where g = db_metadata]) simp_all

lemma keeps_v4_halt [frame]:
  "keeps v4_metadata (v4_halt cycle reason now)" "keeps v4_metadata (v4_move ref target category now)"
  unfolding v4_halt_def v4_move_def by (intro frame)+

lemma keeps_v4_exit [frame]:
  "keeps v4_metadata (v4_reconcile_emergency_exit cycle now)"
  "keeps v4_metadata (v4_attempt_emergency_exit cycle policy now)"
  "keeps v4_metadata (v4_start_emergency_exit cycle policy reason now)"
  "keeps v4_metadata (v4_reconcile_cancelled_protection cycle policy now)"
  "keeps v4_metadata (v4_attempt_cancel_protection cycle policy amount now)"
  unfolding v4_attempt_cancel_protection_def v4_reconcile_cancelled_protection_def v4_start_emergency_exit_def
    v4_attempt_emergency_exit_def v4_reconcile_emergency_exit_def Let_def
  by (intro frame)+

lemma keeps_v4_protection [frame]:
  "keeps v4_metadata (v4_reconcile_protection cycle policy now)"
  "keeps v4_metadata (v4_attempt_protection cycle policy now)"
  "keeps v4_metadata (v4_ensure_protection cycle policy now)"
  "keeps v4_metadata (v4_reconcile_existing_protected_position cycle policy now)"
  unfolding v4_ensure_protection_def v4_attempt_protection_def v4_reconcile_protection_def
    v4_reconcile_existing_protected_position_def Let_def
  by (intro frame)+

lemma keeps_v4_entry [frame]:
  "keeps v4_metadata (v4_reconcile_entry fuel cycle policy now)"
  "keeps v4_metadata (v4_attempt_cancel_remainder fuel cycle policy snapshot now)"
proof -
  have "keeps v4_metadata (v4_attempt_cancel_remainder fuel cycle policy snapshot now)"
    if "\<And>cycle policy now. keeps v4_metadata (v4_reconcile_entry fuel cycle policy now)" for fuel cycle policy snapshot now
    unfolding v4_attempt_cancel_remainder.simps by (intro frame that)
  moreover have "keeps v4_metadata (v4_reconcile_entry fuel cycle policy now)" for fuel cycle policy now
  proof (induction fuel arbitrary: cycle policy now)
    case 0
    then show ?case unfolding v4_reconcile_entry.simps by (intro frame)
  next
    case (Suc fuel)
    then show ?case unfolding v4_reconcile_entry.simps Let_def by (intro frame calculation)
  qed
  ultimately show "keeps v4_metadata (v4_reconcile_entry fuel cycle policy now)"
    "keeps v4_metadata (v4_attempt_cancel_remainder fuel cycle policy snapshot now)" by auto
qed

lemma keeps_v4_engine:
  "keeps v4_metadata (v4_run_signal_once_synthetic signal policy preflight now)"
  "keeps v4_metadata (v4_resume_synthetic ref policy now)"
proof -
  have "keeps v4_metadata (v4_attempt_market_entry cycle policy now)" for cycle policy now
    unfolding v4_attempt_market_entry_def by (intro frame)
  moreover have "keeps v4_metadata (v4_resume_cycle ref cycle policy now)" for ref cycle
    unfolding v4_resume_cycle_def by (cases "c_state cycle") (auto intro!: frame calculation)
  ultimately show "keeps v4_metadata (v4_run_signal_once_synthetic signal policy preflight now)"
    "keeps v4_metadata (v4_resume_synthetic ref policy now)"
    unfolding v4_run_signal_once_synthetic_def v4_resume_synthetic_def Let_def by (auto intro!: frame)
qed

text \<open>What every database of a run looks like, opened or not yet.\<close>

definition v4_settled :: "(string \<times> string) list \<Rightarrow> bool" where
  "v4_settled m \<longleftrightarrow> map_of m ''profile_version'' \<in> {None, Some V4_GMO_PROFILE_VERSION}
     \<and> (v4_unbound m \<or> (\<exists>b r d. v4_bound_rows b r d m))"

lemma v4_settled_load:
  assumes "v4_settled (db_metadata db)" and "v4_opened (db_metadata db)"
  shows "(v4_unbound (db_metadata db) \<and> v4_load_generation_safe db
        = Inl (V4GmoPersistenceError ''v4 generation metadata is incomplete''))
    \<or> (\<exists>b r d. v4_bound b r d (db_metadata db) \<and> v4_load_generation_safe db = Inr (Some b))"
proof (cases "v4_unbound (db_metadata db)")
  case True
  then show ?thesis using v4_load_unbound [OF True] assms(2) by (simp add: v4_opened_def)
next
  case False
  then obtain b r d where "v4_bound_rows b r d (db_metadata db)" using assms(1) by (auto simp: v4_settled_def)
  then have "v4_bound b r d (db_metadata db)" by (rule v4_bound_opened [OF _ assms(2)])
  then show ?thesis using v4_load_bound by blast
qed

text \<open>Only the eleven rows matter.\<close>

lemma v4_rows_cong:
  assumes "\<And>k. k \<in> set v4_generation_keys \<Longrightarrow> k \<noteq> ''profile_version'' \<Longrightarrow> map_of m' k = map_of m k"
  shows "v4_unbound m' = v4_unbound m" and "v4_bound_rows b r d m' = v4_bound_rows b r d m"
proof -
  show "v4_unbound m' = v4_unbound m" using assms unfolding v4_unbound_def by auto
  have "map_of m' k = map_of m k" if "(k, v) \<in> set (v4_generation_labels b)" "k \<noteq> ''profile_version''" for k v
    by (rule assms [OF _ that(2)]) (use that(1) in \<open>force simp: v4_generation_keys_eq [of b]\<close>)
  moreover have "map_of m' ''generation_manifest'' = map_of m ''generation_manifest''"
    "map_of m' ''generation_digest'' = map_of m ''generation_digest''"
    by (rule assms; simp add: v4_generation_keys_def)+
  ultimately show "v4_bound_rows b r d m' = v4_bound_rows b r d m"
    unfolding v4_bound_rows_def by (auto split: prod.splits)
qed

definition v4_other_keys :: "string set" where
  "v4_other_keys = {''schema_version'', ''actual_post_allowed'', ''global_halt_latched'', ''global_halt_reason'',
     ''global_halt_at_utc''}"

lemma v4_other_keys: "k \<in> v4_other_keys \<Longrightarrow> k \<notin> set v4_generation_keys"
  by (auto simp: v4_other_keys_def v4_generation_keys_def)

lemma v4_settled_other:
  assumes "v4_settled m" and "\<And>k. k \<notin> v4_other_keys \<Longrightarrow> map_of m' k = map_of m k"
  shows "v4_settled m'"
proof -
  have "map_of m' k = map_of m k" if "k \<in> set v4_generation_keys" for k
    using assms(2) v4_other_keys that by blast
  then show ?thesis using assms(1) v4_rows_cong [of m' m] v4_profile_key unfolding v4_settled_def by metis
qed

lemma v4_settled_engage:
  "v4_settled (db_metadata db) \<Longrightarrow> v4_engage_global_halt reason now db = (u, db') \<Longrightarrow> v4_settled (db_metadata db')"
  by (erule v4_settled_other) (auto simp: v4_engage_global_halt_def run_progs upsert_metadata_def v4_other_keys_def
      update_conv split: prod.splits sum.splits)

lemma v4_settled_clear:
  "v4_settled (db_metadata db) \<Longrightarrow> v4_clear_global_halt_no_post phrase flat db = (u, db') \<Longrightarrow> v4_settled (db_metadata db')"
proof (erule v4_settled_other)
  fix k :: string assume k: "k \<notin> v4_other_keys" and run: "v4_clear_global_halt_no_post phrase flat db = (u, db')"
  let ?halt = "{''global_halt_latched'', ''global_halt_reason'', ''global_halt_at_utc''}"
  have "map_of (filter (\<lambda>kv. fst kv \<notin> ?halt) (db_metadata db)) k = map_of (db_metadata db) k"
    using map_of_filter_key [of "\<lambda>k. k \<notin> ?halt" k "db_metadata db"] k
    by (simp add: case_prod_unfold v4_other_keys_def)
  moreover have "db' = db \<or> db' = db\<lparr>db_metadata := filter (\<lambda>kv. fst kv \<notin> ?halt) (db_metadata db)\<rparr>"
    using run by (auto simp: v4_clear_global_halt_no_post_def run_progs split: if_splits)
  ultimately show "map_of (db_metadata db') k = map_of (db_metadata db) k" by auto
qed

lemma v4_settled_initialize:
  assumes settled: "v4_settled (db_metadata db)" and run: "v4_initialize db = (u, db')"
  shows "v4_settled (db_metadata db')"
proof (cases "db' = db")
  case False
  let ?rows = "[(''schema_version'', V4_GMO_SCHEMA_VERSION), (''profile_version'', V4_GMO_PROFILE_VERSION),
    (''actual_post_allowed'', ''false'')]"
  have new: "db_metadata db' = db_metadata db @ ?rows" "map_of (db_metadata db) ''profile_version'' = None"
    using run False by (auto simp: v4_initialize_def run_progs insert_metadata_def
        split: option.splits prod.splits sum.splits if_splits)
  have "map_of (db_metadata db') k = map_of (db_metadata db) k"
    if "k \<in> set v4_generation_keys" "k \<noteq> ''profile_version''" for k
  proof -
    have "k \<notin> v4_other_keys" using that(1) v4_other_keys by blast
    then have "map_of ?rows k = None" using that(2) by (auto simp: v4_other_keys_def)
    then show ?thesis unfolding new(1) map_of_append map_add_def by (simp split: option.split)
  qed
  note rows = v4_rows_cong [of "db_metadata db'" "db_metadata db", OF this]
  have "map_of (db_metadata db') ''profile_version'' = Some V4_GMO_PROFILE_VERSION"
    using new by (simp add: map_add_def)
  with rows settled show ?thesis by (simp add: v4_settled_def)
qed (use settled in simp)

lemma v4_settled_bind:
  assumes settled: "v4_settled (db_metadata db)" and run: "v4_bind_generation label policy rl rd dl dd db = (x, db')"
  shows "v4_settled (db_metadata db')"
proof (cases x)
  case (Inl e)
  then show ?thesis using v4_bind_run [OF run] settled by simp
next
  case (Inr b)
  then obtain r d where args: "v4_arguments label policy rl rd dl dd b r d"
    and rows: "v4_unbound (db_metadata db) \<and> db' = db\<lparr>db_metadata := db_metadata db
              @ v4_new_rows b (v4_generation_manifest b r d) (sha256_hex (v4_generation_manifest b r d))\<rparr>
           \<or> v4_bound b r d (db_metadata db) \<and> db' = db"
    using v4_bind_run [OF run] by auto
  from rows show ?thesis
  proof
    assume new: "v4_unbound (db_metadata db) \<and> db' = db\<lparr>db_metadata := db_metadata db
              @ v4_new_rows b (v4_generation_manifest b r d) (sha256_hex (v4_generation_manifest b r d))\<rparr>"
    have "v4_bound_rows b r d (db_metadata db')"
      using new v4_new_rows_bound [of "db_metadata db" b r d] args by (simp add: v4_arguments_def)
    moreover have "map_of (db_metadata db') ''profile_version'' = map_of (db_metadata db) ''profile_version''"
      using new by (auto simp: v4_new_rows_def v4_generation_labels_def map_add_def split: option.splits)
    ultimately show ?thesis using settled by (auto simp: v4_settled_def)
  next
    assume "v4_bound b r d (db_metadata db) \<and> db' = db"
    with settled show ?thesis by simp
  qed
qed

lemma v4_reach_settled: "v4_world_reach sent w \<Longrightarrow> v4_settled (v4_metadata w)"
proof (induction rule: v4_world_reach.induct)
  case (world_start broker clock interrupt w)
  then show ?case using engine_world [OF world_start(2,1)] by (simp add: v4_empty_db_def v4_settled_def v4_unbound_def)
next
  case (world_restart sent w broker clock interrupt w')
  then show ?case using engine_world by metis
next
  case (world_again sent w clock interrupt w')
  then show ?case using engine_keeps by metis
next
  case (world_run sent w args policy sargs signal preflight now r w')
  then show ?case using keepsD [OF keeps_v4_engine(1)] by metis
next
  case (world_resume sent w args policy ref now r w')
  then show ?case using keepsD [OF keeps_v4_engine(2)] by metis
next
  case (world_initialize sent w u db)
  then show ?case using v4_settled_initialize by simp
next
  case (world_engage sent w reason now u db)
  then show ?case using v4_settled_engage by simp
next
  case (world_clear sent w phrase flat u db)
  then show ?case using v4_settled_clear by simp
next
  case (world_clear_cycle sent w ref phrase flat now x db)
  then show ?case using keepsD [OF keeps_v4_writers(5) world_clear_cycle(2)] by simp
next
  case (world_bind sent w label policy rl rd dl dd b db)
  then show ?case using v4_settled_bind by simp
next
  case (world_stop sent w i)
  then show ?case by simp
next
  case (world_reconcile sent w x b)
  then show ?case by simp
qed

section \<open>Properties\<close>

text \<open>
  Round trip: what \<open>bind_generation\<close> returned on an opened store is what
  \<open>load_generation_safe\<close> reads from the database it left, carries the labels of the call and the
  hashes of the policy, and the same call binds again without a change.
\<close>

theorem v4_generation_round_trip:
  assumes bind: "v4_bind_generation label policy rl rd dl dd db = (Inr b, db')"
    and opened: "map_of (db_metadata db) ''profile_version'' = Some V4_GMO_PROFILE_VERSION"
  shows "v4_load_generation_safe db' = Inr (Some b) \<and> b = v4_binding_for label policy rl dl
    \<and> v4_bind_generation label policy rl rd dl dd db' = (Inr b, db')"
proof -
  obtain r d where args: "v4_arguments label policy rl rd dl dd b r d" and bound: "v4_bound b r d (db_metadata db')"
    and again: "v4_bind_generation label policy rl rd dl dd db' = (Inr b, db')"
    using v4_bind_done [OF bind] opened by (auto simp: v4_opened_def)
  have "b = v4_binding_for label policy rl dl"
    by (rule v4_binding.equality) (use args in \<open>simp_all add: v4_arguments_def v4_binding_for_def\<close>)
  then show ?thesis using v4_load_bound [OF bound] again by simp
qed

definition v4_opened_db :: v4_db where
  "v4_opened_db = snd (v4_initialize v4_empty_db)"

lemma v4_opened_db:
  "v4_initialize v4_empty_db = (Inr (), v4_opened_db)"
  "db_metadata v4_opened_db = [(''schema_version'', V4_GMO_SCHEMA_VERSION),
     (''profile_version'', V4_GMO_PROFILE_VERSION), (''actual_post_allowed'', ''false'')]"
  by (simp_all add: v4_opened_db_def v4_initialize_def run_progs insert_metadata_def v4_empty_db_def)

definition v4_sample_bind :: "v4_db \<Rightarrow> v4_binding result \<times> v4_db" where
  "v4_sample_bind = v4_bind_generation (PyStr ''G1'') sample_policy (PyStr ''RISK'')
     (PyStr (replicate 64 (CHR ''a''))) (PyStr ''DEAD'') (PyStr (replicate 64 (CHR ''b'')))"

lemma v4_sample_checked:
  "\<forall>s \<in> {''G1'', V4_GMO_PROFILE_VERSION, ''V3'', horizon_value MINUTES_30, ''RISK'', ''DEAD''}.
     v4_validate_generation_label s = Inr ()"
  "v4_generation_digest_ok (PyStr (replicate 64 (CHR ''a'')))"
  "v4_generation_digest_ok (PyStr (replicate 64 (CHR ''b'')))"
  by code_simp+

lemma v4_policy_evidence: "V4GmoExecutionPolicy a = Inr p \<Longrightarrow> v_evidence_hash p = H11_V4_GMO_CAPABILITY_EVIDENCE_HASH"
  by (auto simp: V4GmoExecutionPolicy_def split: if_splits option.splits)

lemma py_startswith_append [simp]: "py_startswith (a @ b) a"
  by (simp add: py_startswith_def)

lemma v4_bind_opened:
  assumes "v4_generation_digest_ok (PyStr r)" "v4_generation_digest_ok (PyStr d)"
  shows "\<exists>b m x. v4_bind_generation (PyStr ''G1'') sample_policy (PyStr ''RISK'') (PyStr r) (PyStr ''DEAD'') (PyStr d)
      v4_opened_db = (Inr b, v4_opened_db\<lparr>db_metadata := db_metadata v4_opened_db @ v4_new_rows b m x\<rparr>)"
proof -
  have hash: "py_endswith k ''hash''" if "k \<in> {''policy_config_hash'', ''protection_contract_hash'', ''broker_capability_evidence_hash''}" for k
    using that by (auto simp: py_endswith_def)
  have label: "\<not> py_endswith k ''hash''" if "k \<in> {''generation_label'', ''profile_version'', ''strategy_version'', ''selected_horizon'',
      ''risk_policy_label'', ''dead_man_policy_label''}" for k
    using that by (auto simp: py_endswith_def)
  have "py_startswith (v4_config_hash sample_policy) ''sha256:''"
    "py_startswith (v_protection_contract_hash sample_policy) ''sha256:''"
    "py_startswith (v_evidence_hash sample_policy) ''sha256:''"
    unfolding sample_policy v4_policy_evidence [OF sample_policy(1)] v4_config_hash_def
      H11_V4_GMO_CAPABILITY_EVIDENCE_HASH_def evidence_digest_def H11_V4_GMO_PROTECTION_CONTRACT_HASH_def
    by (simp_all add: py_startswith_def)
  then have "v4_check_labels [(''generation_label'', PyStr ''G1''),
    (''profile_version'', PyStr V4_GMO_PROFILE_VERSION),
    (''policy_config_hash'', PyStr (v4_config_hash sample_policy)),
    (''strategy_version'', PyStr (v_strategy_version sample_policy)),
    (''selected_horizon'', PyStr (horizon_value (v_horizon sample_policy))),
    (''risk_policy_label'', PyStr ''RISK''), (''dead_man_policy_label'', PyStr ''DEAD''),
    (''protection_contract_hash'', PyStr (v_protection_contract_hash sample_policy)),
    (''broker_capability_evidence_hash'', PyStr (v_evidence_hash sample_policy))] = Inr ()"
    using v4_sample_checked(1) hash label by (simp add: sample_policy(2,4) guardR_def)
  moreover have "v4_bind_rows b m x v4_opened_db = (Inr (), v4_opened_db\<lparr>db_metadata := db_metadata v4_opened_db
      @ v4_new_rows b m x\<rparr>)" for b m x
    by (simp add: v4_bind_rows_def run_progs insert_metadata_def v4_opened_db(2) v4_generation_labels_def v4_new_rows_def)
  ultimately show ?thesis
    using assms by (simp add: v4_bind_generation_def Let_def run_then) blast
qed

lemma v4_sample_bind_run: "\<exists>b db. v4_sample_bind v4_opened_db = (Inr b, db)"
  using v4_bind_opened [OF v4_sample_checked(2,3)] by (auto simp: v4_sample_bind_def)

lemma v4_generation_round_trip_witness:
  "\<exists>b db. v4_sample_bind v4_opened_db = (Inr b, db) \<and> v4_load_generation_safe db = Inr (Some b)"
proof -
  obtain b db where run: "v4_sample_bind v4_opened_db = (Inr b, db)" using v4_sample_bind_run by auto
  have "map_of (db_metadata v4_opened_db) ''profile_version'' = Some V4_GMO_PROFILE_VERSION" by (simp add: v4_opened_db(2))
  then show ?thesis using v4_generation_round_trip [OF run [unfolded v4_sample_bind_def]] run by auto
qed

text \<open>
  On every opened reachable database reading the generation either finds none, which the code
  reports as incomplete metadata and not as \<open>None\<close>, or returns the binding; running and resuming
  change nothing of what is read; and a bound store never takes another binding.
\<close>

theorem v4_generation_is_final:
  assumes reach: "v4_world_reach sent w"
    and opened: "map_of (db_metadata (w_store w)) ''profile_version'' = Some V4_GMO_PROFILE_VERSION"
  shows "\<exists>x. v4_load_generation_safe (w_store w) = x
    \<and> (x = Inl (V4GmoPersistenceError ''v4 generation metadata is incomplete'') \<or> (\<exists>b. x = Inr (Some b)))
    \<and> (v4_run_signal_once_synthetic signal policy preflight now w = (r1, w1) \<longrightarrow>
         v4_load_generation_safe (w_store w1) = x)
    \<and> (v4_resume_synthetic ref policy now w = (r2, w2) \<longrightarrow> v4_load_generation_safe (w_store w2) = x)
    \<and> (\<forall>b. x = Inr (Some b) \<and> v4_bind_generation label policy rl rd dl dd (w_store w) = (y, db) \<longrightarrow>
         db = w_store w \<and> (\<forall>b'. y = Inr b' \<longrightarrow> b' = b \<and> gb_policy_config_hash b = v4_config_hash policy))"
proof -
  have meta: "v4_load_generation_safe a = v4_load_generation_safe b" if "db_metadata a = db_metadata b" for a b
    using that by (simp add: v4_load_generation_safe_def)
  have run: "v4_run_signal_once_synthetic signal policy preflight now w = (r1, w1) \<longrightarrow>
      v4_load_generation_safe (w_store w1) = v4_load_generation_safe (w_store w)"
    using keepsD [OF keeps_v4_engine(1)] meta by blast
  have resume: "v4_resume_synthetic ref policy now w = (r2, w2) \<longrightarrow>
      v4_load_generation_safe (w_store w2) = v4_load_generation_safe (w_store w)"
    using keepsD [OF keeps_v4_engine(2)] meta by blast
  have bind: "db = w_store w \<and> (\<forall>b'. y = Inr b' \<longrightarrow> b' = b \<and> gb_policy_config_hash b = v4_config_hash policy)"
    if bound: "v4_bound b r d (v4_metadata w)"
      and y: "v4_bind_generation label policy rl rd dl dd (w_store w) = (y, db)" for b r d
    using v4_bind_run [OF y] v4_bound_not_unbound [OF bound] v4_bound_unique [OF bound]
    by (fastforce simp: v4_arguments_def split: sum.splits)
  from v4_settled_load [OF v4_reach_settled [OF reach]] opened
  consider "v4_load_generation_safe (w_store w) = Inl (V4GmoPersistenceError ''v4 generation metadata is incomplete'')"
    | b r d where "v4_bound b r d (v4_metadata w)" "v4_load_generation_safe (w_store w) = Inr (Some b)"
    by (auto simp: v4_opened_def)
  then show ?thesis
  proof cases
    case 1
    then show ?thesis using run resume by simp
  next
    case 2
    show ?thesis using run resume bind [OF 2(1)] 2(2) by auto
  qed
qed

lemma v4_generation_is_final_witness:
  "v4_load_generation_safe v4_opened_db = Inl (V4GmoPersistenceError ''v4 generation metadata is incomplete'')
    \<or> (\<exists>b. v4_load_generation_safe v4_opened_db = Inr (Some b))"
proof -
  have reach: "v4_world_reach [] (sample_world\<lparr>w_store := v4_opened_db\<rparr>)"
    by (rule world_initialize [OF sample_world_reach, of "Inr ()"]) (simp add: sample_world_def v4_opened_db(1))
  then show ?thesis using v4_generation_is_final [OF reach] by (auto simp: v4_opened_db(2))
qed

end
