(* ===== verification/Auto_State.thy ===== *)
theory Auto_State
  imports Auto_Contracts
begin

text \<open>
  \<open>backend/app/h11_auto/state_machine.py\<close> and \<open>risk.py\<close>: the states of the Phase A cycle, the
  table of its transitions, the reconciliation at boot, and the two safety reviews.
\<close>

section \<open>States\<close>

datatype auto_state =
    OFF
  | BOOT_RECONCILING
  | ARMED
  | WAITING_SIGNAL
  | INTENT_PERSISTED
  | PROTECTED_ENTRY_PENDING
  | AUTO_POSITION_PROTECTED
  | EXIT_PENDING
  | AUTO_FLAT_RECONCILED
  | AUTO_HALTED

fun auto_state_value :: "auto_state \<Rightarrow> string" where
  "auto_state_value OFF = ''OFF''"
| "auto_state_value BOOT_RECONCILING = ''BOOT_RECONCILING''"
| "auto_state_value ARMED = ''ARMED''"
| "auto_state_value WAITING_SIGNAL = ''WAITING_SIGNAL''"
| "auto_state_value INTENT_PERSISTED = ''INTENT_PERSISTED''"
| "auto_state_value PROTECTED_ENTRY_PENDING = ''PROTECTED_ENTRY_PENDING''"
| "auto_state_value AUTO_POSITION_PROTECTED = ''POSITION_PROTECTED''"
| "auto_state_value EXIT_PENDING = ''EXIT_PENDING''"
| "auto_state_value AUTO_FLAT_RECONCILED = ''FLAT_RECONCILED''"
| "auto_state_value AUTO_HALTED = ''HALTED_OPERATOR_REVIEW_REQUIRED''"

datatype safe_broker_state =
    FLAT_CLEAR
  | BROKER_ENTRY_PENDING
  | BROKER_POSITION_PROTECTED
  | FLAT_AFTER_EXIT
  | EXTERNAL_OR_MANUAL_CONFLICT
  | BROKER_UNKNOWN

fun broker_state_value :: "safe_broker_state \<Rightarrow> string" where
  "broker_state_value FLAT_CLEAR = ''FLAT_CLEAR''"
| "broker_state_value BROKER_ENTRY_PENDING = ''PROTECTED_ENTRY_PENDING''"
| "broker_state_value BROKER_POSITION_PROTECTED = ''POSITION_PROTECTED''"
| "broker_state_value FLAT_AFTER_EXIT = ''FLAT_AFTER_EXIT''"
| "broker_state_value EXTERNAL_OR_MANUAL_CONFLICT = ''EXTERNAL_OR_MANUAL_CONFLICT''"
| "broker_state_value BROKER_UNKNOWN = ''UNKNOWN''"

fun auto_allowed :: "auto_state \<Rightarrow> auto_state list" where
  "auto_allowed OFF = [BOOT_RECONCILING]"
| "auto_allowed BOOT_RECONCILING = [ARMED, AUTO_HALTED]"
| "auto_allowed ARMED = [WAITING_SIGNAL, AUTO_HALTED]"
| "auto_allowed WAITING_SIGNAL = [INTENT_PERSISTED, AUTO_HALTED]"
| "auto_allowed INTENT_PERSISTED = [PROTECTED_ENTRY_PENDING, AUTO_HALTED]"
| "auto_allowed PROTECTED_ENTRY_PENDING = [AUTO_POSITION_PROTECTED, AUTO_HALTED]"
| "auto_allowed AUTO_POSITION_PROTECTED = [EXIT_PENDING, AUTO_HALTED]"
| "auto_allowed EXIT_PENDING = [AUTO_FLAT_RECONCILED, AUTO_HALTED]"
| "auto_allowed AUTO_FLAT_RECONCILED = [WAITING_SIGNAL, OFF, AUTO_HALTED]"
| "auto_allowed AUTO_HALTED = []"

definition require_transition :: "auto_state \<Rightarrow> auto_state \<Rightarrow> unit result" where
  "require_transition current target =
    (if target \<notin> set (auto_allowed current)
     then Inl (H11AutoStateError (''transition refused: '' @ auto_state_value current @ '' -> ''
            @ auto_state_value target))
     else Inr ())"

section \<open>Boot reconciliation\<close>

record boot_result =
  br_reconciled :: bool
  br_target_state :: auto_state
  br_blocked_reasons :: "string list"
  br_actual_post_allowed :: bool

fun boot_compatible :: "auto_state \<Rightarrow> safe_broker_state list" where
  "boot_compatible OFF = [FLAT_CLEAR]"
| "boot_compatible BOOT_RECONCILING = [FLAT_CLEAR]"
| "boot_compatible ARMED = [FLAT_CLEAR]"
| "boot_compatible WAITING_SIGNAL = [FLAT_CLEAR]"
| "boot_compatible INTENT_PERSISTED = [FLAT_CLEAR]"
| "boot_compatible PROTECTED_ENTRY_PENDING = [BROKER_ENTRY_PENDING]"
| "boot_compatible AUTO_POSITION_PROTECTED = [BROKER_POSITION_PROTECTED]"
| "boot_compatible EXIT_PENDING = [BROKER_POSITION_PROTECTED, FLAT_AFTER_EXIT]"
| "boot_compatible AUTO_FLAT_RECONCILED = [FLAT_CLEAR, FLAT_AFTER_EXIT]"
| "boot_compatible AUTO_HALTED = []"

text \<open>
  The states are optional: \<open>None\<close> is an argument that is not a member of its enumeration.
\<close>

definition evaluate_boot_reconcile ::
    "auto_state option \<Rightarrow> safe_broker_state option \<Rightarrow> pyval \<Rightarrow> boot_result" where
  "evaluate_boot_reconcile local_arg broker_arg safe_read_fresh =
    (case (local_arg, broker_arg) of
       (Some local_state, Some broker_state) \<Rightarrow>
         let reasons = (if \<not> is_true safe_read_fresh then [''SAFE_READ_NOT_FRESH''] else [])
               @ (if broker_state \<in> {BROKER_UNKNOWN, EXTERNAL_OR_MANUAL_CONFLICT}
                  then [broker_state_value broker_state]
                  else if broker_state \<notin> set (boot_compatible local_state)
                  then [''LOCAL_BROKER_STATE_MISMATCH''] else []);
             reconciled = (reasons = [])
         in \<lparr>br_reconciled = reconciled,
             br_target_state = (if reconciled then ARMED else AUTO_HALTED),
             br_blocked_reasons = reasons, br_actual_post_allowed = False\<rparr>
     | _ \<Rightarrow> \<lparr>br_reconciled = False, br_target_state = AUTO_HALTED,
             br_blocked_reasons = [''RECONCILE_INPUT_INVALID''], br_actual_post_allowed = False\<rparr>)"

section \<open>The entry gate\<close>

record safety_snapshot =
  sf_boot_reconciled :: bool
  sf_process_lock_held :: bool
  sf_data_fresh :: bool
  sf_clock_synchronized :: bool
  sf_notification_path_ready :: bool
  sf_local_position_count :: int
  sf_active_intent_count :: int
  sf_entries_today :: int
  sf_external_position :: bool
  sf_order_conflict :: bool
  sf_kill_requested :: bool

record safety_args =
  sfa_boot_reconciled :: pyval
  sfa_process_lock_held :: pyval
  sfa_data_fresh :: pyval
  sfa_clock_synchronized :: pyval
  sfa_notification_path_ready :: pyval
  sfa_local_position_count :: pyval
  sfa_active_intent_count :: pyval
  sfa_entries_today :: pyval
  sfa_external_position :: pyval
  sfa_order_conflict :: pyval
  sfa_kill_requested :: pyval

definition PhaseASafetySnapshot :: "safety_args \<Rightarrow> safety_snapshot result" where
  "PhaseASafetySnapshot a =
    (let boolean_values = [sfa_boot_reconciled a, sfa_process_lock_held a, sfa_data_fresh a,
           sfa_clock_synchronized a, sfa_notification_path_ready a, sfa_external_position a,
           sfa_order_conflict a, sfa_kill_requested a];
         count_values = [sfa_local_position_count a, sfa_active_intent_count a, sfa_entries_today a]
     in if list_ex (\<lambda>v. as_bool v = None) boolean_values \<or> list_ex (\<lambda>v. \<not> is_count v) count_values
        then Inl (H11AutoRiskError ''safety snapshot is invalid'')
        else Inr \<lparr>sf_boot_reconciled = the (as_bool (sfa_boot_reconciled a)),
                  sf_process_lock_held = the (as_bool (sfa_process_lock_held a)),
                  sf_data_fresh = the (as_bool (sfa_data_fresh a)),
                  sf_clock_synchronized = the (as_bool (sfa_clock_synchronized a)),
                  sf_notification_path_ready = the (as_bool (sfa_notification_path_ready a)),
                  sf_local_position_count = the (as_int (sfa_local_position_count a)),
                  sf_active_intent_count = the (as_int (sfa_active_intent_count a)),
                  sf_entries_today = the (as_int (sfa_entries_today a)),
                  sf_external_position = the (as_bool (sfa_external_position a)),
                  sf_order_conflict = the (as_bool (sfa_order_conflict a)),
                  sf_kill_requested = the (as_bool (sfa_kill_requested a))\<rparr>)"

text \<open>What every constructed snapshot satisfies: \<open>dataclasses.replace\<close> of one passes the checks again.\<close>

definition safety_ok :: "safety_snapshot \<Rightarrow> bool" where
  "safety_ok s \<longleftrightarrow> 0 \<le> sf_local_position_count s \<and> 0 \<le> sf_active_intent_count s \<and> 0 \<le> sf_entries_today s"

lemma PhaseASafetySnapshot_ok: "PhaseASafetySnapshot a = Inr s \<Longrightarrow> safety_ok s"
  by (auto simp: PhaseASafetySnapshot_def safety_ok_def is_count_def split: if_splits option.splits)

text \<open>\<open>now >= until\<close> of a directional comparison: a naive operand against an aware one raises.\<close>

definition dt_at_or_after :: "datetime \<Rightarrow> datetime \<Rightarrow> bool result" where
  "dt_at_or_after now until =
    (if \<not> dt_comparable now until then Inl PyTypeError else Inr (dt_leq until now))"

definition signal_expired :: "datetime \<Rightarrow> formal_signal \<Rightarrow> bool result" where
  "signal_expired now signal =
    (if \<not> dt_aware now then Inr True else dt_at_or_after now (s_valid_until signal))"

record entry_gate_result =
  eg_fake_cycle_allowed :: bool
  eg_blocked_reasons :: "string list"
  eg_actual_post_allowed :: bool
  eg_broker_write_allowed :: bool

definition reason_if :: "bool \<Rightarrow> string \<Rightarrow> string list" where
  "reason_if b r = (if b then [r] else [])"

definition evaluate_phase_a_entry_gate ::
    "formal_signal \<Rightarrow> phase_a_policy \<Rightarrow> safety_snapshot \<Rightarrow> datetime \<Rightarrow> entry_gate_result result" where
  "evaluate_phase_a_entry_gate signal policy snapshot now =
     bindR (signal_expired now signal) (\<lambda>expired.
     let reasons = concat [
           reason_if (\<not> phase_a_accepts policy signal) ''SIGNAL_POLICY_MISMATCH'',
           reason_if (s_decision signal = STAY) ''STAY_HAS_NO_ENTRY'',
           reason_if expired ''SIGNAL_EXPIRED_OR_CLOCK_INVALID'',
           reason_if (\<not> sf_boot_reconciled snapshot) ''BOOT_NOT_RECONCILED'',
           reason_if (\<not> sf_process_lock_held snapshot) ''PROCESS_LOCK_NOT_HELD'',
           reason_if (\<not> sf_data_fresh snapshot) ''DATA_NOT_FRESH'',
           reason_if (\<not> sf_clock_synchronized snapshot) ''CLOCK_NOT_SYNCHRONIZED'',
           reason_if (\<not> sf_notification_path_ready snapshot) ''NOTIFICATION_PATH_NOT_READY'',
           reason_if (sf_local_position_count snapshot \<noteq> 0) ''LOCAL_POSITION_NOT_FLAT'',
           reason_if (sf_active_intent_count snapshot \<noteq> 0) ''ACTIVE_INTENT_EXISTS'',
           reason_if (p_max_entries_per_day policy \<le> sf_entries_today snapshot) ''MAX_ENTRIES_PER_DAY_REACHED'',
           reason_if (sf_external_position snapshot) ''EXTERNAL_OR_MANUAL_POSITION_DETECTED'',
           reason_if (sf_order_conflict snapshot) ''ACTIVE_OR_PENDING_ORDER_CONFLICT'',
           reason_if (sf_kill_requested snapshot) ''KILL_REQUESTED'']
     in Inr \<lparr>eg_fake_cycle_allowed = (reasons = []), eg_blocked_reasons = reasons,
             eg_actual_post_allowed = False, eg_broker_write_allowed = False\<rparr>)"

section \<open>The readiness review\<close>

record readiness_review =
  rr_structurally_ready :: bool
  rr_blocked_reasons :: "string list"
  rr_actual_transport_present :: bool
  rr_actual_post_allowed :: bool
  rr_broker_write_allowed :: bool
  rr_credential_read_allowed :: bool

definition review_actual_readiness ::
    "pyval \<Rightarrow> pyval \<Rightarrow> pyval \<Rightarrow> pyval \<Rightarrow> pyval \<Rightarrow> pyval \<Rightarrow> readiness_review" where
  "review_actual_readiness atomic_protection short_expiry partial_fill dedicated_account limits_frozen host =
    (let checks = [
           (''BROKER_NATIVE_ATOMIC_PROTECTION_NOT_CONFIRMED'', atomic_protection),
           (''SHORT_PENDING_EXPIRY_NOT_CONFIRMED'', short_expiry),
           (''PARTIAL_FILL_SIZE_SAFETY_NOT_CONFIRMED'', partial_fill),
           (''DEDICATED_ACCOUNT_NOT_CONFIRMED'', dedicated_account),
           (''OPERATOR_RISK_LIMITS_NOT_FROZEN'', limits_frozen),
           (''ALWAYS_ON_HOST_NOT_CONFIRMED'', host)];
         blocked = map fst (filter (\<lambda>(reason, passed). \<not> is_true passed) checks)
     in \<lparr>rr_structurally_ready = (blocked = []), rr_blocked_reasons = blocked,
         rr_actual_transport_present = False, rr_actual_post_allowed = False,
         rr_broker_write_allowed = False, rr_credential_read_allowed = False\<rparr>)"

section \<open>Facts\<close>

lemma reason_if_empty [simp]: "reason_if b r = [] \<longleftrightarrow> \<not> b"
  by (simp add: reason_if_def)

lemma auto_allowed_to_halted: "AUTO_HALTED \<in> set (auto_allowed s) \<longleftrightarrow> s \<notin> {OFF, AUTO_HALTED}"
  by (cases s) simp_all

text \<open>The gate opens exactly when every check passes.\<close>

lemma entry_gate_open:
  "evaluate_phase_a_entry_gate signal policy snapshot now = Inr g \<and> eg_fake_cycle_allowed g \<longleftrightarrow>
     signal_expired now signal = Inr False
     \<and> phase_a_accepts policy signal \<and> s_decision signal \<noteq> STAY
     \<and> sf_boot_reconciled snapshot \<and> sf_process_lock_held snapshot \<and> sf_data_fresh snapshot
     \<and> sf_clock_synchronized snapshot \<and> sf_notification_path_ready snapshot
     \<and> sf_local_position_count snapshot = 0 \<and> sf_active_intent_count snapshot = 0
     \<and> sf_entries_today snapshot < p_max_entries_per_day policy
     \<and> \<not> sf_external_position snapshot \<and> \<not> sf_order_conflict snapshot \<and> \<not> sf_kill_requested snapshot
     \<and> g = \<lparr>eg_fake_cycle_allowed = True, eg_blocked_reasons = [], eg_actual_post_allowed = False,
            eg_broker_write_allowed = False\<rparr>"
  unfolding evaluate_phase_a_entry_gate_def Let_def bindR_Inr_iff
  by (cases "signal_expired now signal") (auto simp: not_le)

end
