(* ===== verification/Auto_Store.thy ===== *)
theory Auto_Store
  imports Auto_State Hash_Journal "HOL-Library.AList"
begin

text \<open>
  \<open>backend/app/h11_auto/persistence.py\<close>: the SQLite store of the Phase A cycles, its hash-linked
  journal and the process lock.

  The tables are lists of rows in insertion order.  A column that holds the \<open>value\<close> of a state is
  typed by the state and one that holds \<open>isoformat()\<close> of an aware datetime by the datetime.
  Symbolic links, locked files and disk errors are not modelled.
\<close>

section \<open>Rows and tables\<close>

record auto_event =
  ae_sequence :: int
  ae_intent_id :: string
  ae_category :: string
  ae_state_label :: string
  ae_previous :: string
  ae_digest :: string

record auto_cycle =
  ac_intent_id :: string
  ac_fingerprint :: string
  ac_state :: auto_state
  ac_attempt_count :: int
  ac_exit_attempt_count :: int
  ac_entry_day :: "string option"
  ac_created_at :: datetime
  ac_updated_at :: datetime
  ac_halt_reason :: "string option"

record auto_db =
  adb_metadata :: "(string \<times> string) list"
  adb_cycles :: "auto_cycle list"
  adb_events :: "auto_event list"

definition auto_empty_db :: auto_db where
  "auto_empty_db = \<lparr>adb_metadata = [], adb_cycles = [], adb_events = []\<rparr>"

text \<open>\<open>_ACTIVE_STATES\<close>\<close>

definition auto_active :: "auto_state \<Rightarrow> bool" where
  "auto_active s \<longleftrightarrow>
     s \<in> {INTENT_PERSISTED, PROTECTED_ENTRY_PENDING, AUTO_POSITION_PROTECTED, EXIT_PENDING}"

definition PHASE_A_SCHEMA_VERSION :: string where
  "PHASE_A_SCHEMA_VERSION = ''H11_AUTO_PARALLEL_PHASE_A_V1''"

section \<open>Timestamps, labels and digests\<close>

definition auto_timestamp :: "datetime \<Rightarrow> datetime result" where
  "auto_timestamp d = (if \<not> dt_aware d
     then Inl (H11AutoPersistenceError ''timestamp must be timezone-aware'') else Inr d)"

definition auto_safe_label :: "pyval \<Rightarrow> bool" where
  "auto_safe_label v = (case as_str v of None \<Rightarrow> False
     | Some s \<Rightarrow> py_strip s \<noteq> [] \<and> length s \<le> 128 \<and> CHR 10 \<notin> set s \<and> CHR 13 \<notin> set s)"

text \<open>\<open>_digest(payload)\<close>: the digest of the canonical JSON of the row.\<close>

definition auto_event_canonical :: "int \<Rightarrow> string \<Rightarrow> string \<Rightarrow> string \<Rightarrow> string \<Rightarrow> string" where
  "auto_event_canonical sequence intent_id category label previous = json_dumps (JObj [
     (''event_category'', JStr category),
     (''intent_id'', JStr intent_id),
     (''previous_digest'', JStr previous),
     (''sequence'', JInt sequence),
     (''state_safe_label'', JStr label)])"

definition auto_event_digest :: "int \<Rightarrow> string \<Rightarrow> string \<Rightarrow> string \<Rightarrow> string \<Rightarrow> string" where
  "auto_event_digest sequence intent_id category label previous =
     sha256_hex (auto_event_canonical sequence intent_id category label previous)"

section \<open>SQL statements\<close>

definition auto_find :: "string \<Rightarrow> auto_db \<Rightarrow> auto_cycle option" where
  "auto_find i db = select_one (\<lambda>c. ac_intent_id c = i) (adb_cycles db)"

text \<open>\<open>INSERT INTO cycles\<close>: the primary key, UNIQUE and the CHECKs of the table.\<close>

definition auto_insert_cycle :: "auto_cycle \<Rightarrow> (auto_db, unit) prog" where
  "auto_insert_cycle c = (\<lambda>db.
     if list_ex (\<lambda>r. ac_intent_id r = ac_intent_id c \<or> ac_fingerprint r = ac_fingerprint c)
          (adb_cycles db)
        \<or> ac_attempt_count c \<notin> {0, 1} \<or> ac_exit_attempt_count c \<notin> {0, 1}
     then (Inl SqliteIntegrityError, db)
     else (Inr (), db\<lparr>adb_cycles := adb_cycles db @ [c]\<rparr>))"

definition auto_insert_event :: "auto_event \<Rightarrow> (auto_db, unit) prog" where
  "auto_insert_event e = (\<lambda>db.
     if list_ex (\<lambda>r. ae_sequence r = ae_sequence e) (adb_events db)
        \<or> auto_find (ae_intent_id e) db = None
     then (Inl SqliteIntegrityError, db)
     else (Inr (), db\<lparr>adb_events := adb_events db @ [e]\<rparr>))"

definition auto_insert_metadata :: "(string \<times> string) list \<Rightarrow> (auto_db, unit) prog" where
  "auto_insert_metadata kvs = (\<lambda>db.
     if distinct (map fst kvs) \<and> (\<forall>kv \<in> set kvs. map_of (adb_metadata db) (fst kv) = None)
     then (Inr (), db\<lparr>adb_metadata := adb_metadata db @ kvs\<rparr>)
     else (Inl SqliteIntegrityError, db))"

text \<open>\<open>UPDATE cycles SET ... WHERE ...\<close>, returning \<open>rowcount\<close>.\<close>

definition auto_update_where ::
    "(auto_cycle \<Rightarrow> bool) \<Rightarrow> (auto_cycle \<Rightarrow> auto_cycle) \<Rightarrow> (auto_db, nat) prog" where
  "auto_update_where p f = bindE (getE (\<lambda>db. count_rows p (adb_cycles db))) (\<lambda>rowcount.
     thenE (modifyE (\<lambda>db. db\<lparr>adb_cycles := update_rows p f (adb_cycles db)\<rparr>)) (returnE rowcount))"

definition auto_events_in_order :: "auto_db \<Rightarrow> auto_event list" where
  "auto_events_in_order db = sort_key ae_sequence (adb_events db)"

definition auto_mk_event :: "int \<Rightarrow> string \<Rightarrow> string \<times> string \<times> string \<Rightarrow> auto_event" where
  "auto_mk_event sequence previous b = (case b of (i, category, label) \<Rightarrow>
     \<lparr>ae_sequence = sequence, ae_intent_id = i, ae_category = category, ae_state_label = label,
      ae_previous = previous, ae_digest = auto_event_digest sequence i category label previous\<rparr>)"

text \<open>\<open>_append_event\<close> and \<open>_cycle_row\<close>\<close>

definition auto_append_event :: "string \<Rightarrow> string \<Rightarrow> auto_state \<Rightarrow> (auto_db, unit) prog" where
  "auto_append_event i category state = bindE (getE auto_events_in_order) (\<lambda>rows.
     auto_insert_event (auto_mk_event (next_sequence ae_sequence rows) (last_digest ae_digest rows)
       (i, category, auto_state_value state)))"

definition auto_cycle_row :: "string \<Rightarrow> (auto_db, auto_cycle) prog" where
  "auto_cycle_row i = bindE (getE (auto_find i)) (\<lambda>row. case row of
       None \<Rightarrow> raiseE (H11AutoPersistenceError ''cycle not found'')
     | Some c \<Rightarrow> returnE c)"

section \<open>Opening the store\<close>

definition auto_initialize :: "(auto_db, unit) prog" where
  "auto_initialize = catchE
     (transactionE (bindE (getE (\<lambda>db. map_of (adb_metadata db) ''schema_version'')) (\<lambda>row.
        case row of
          None \<Rightarrow> auto_insert_metadata [(''schema_version'', PHASE_A_SCHEMA_VERSION)]
        | Some v \<Rightarrow> guardE (v = PHASE_A_SCHEMA_VERSION)
            (H11AutoPersistenceError ''state schema version mismatch''))))
     (\<lambda>e. raiseE (if e = SqliteIntegrityError
        then H11AutoPersistenceError ''state database initialization failed'' else e))"

section \<open>Reading\<close>

definition auto_load_cycle :: "string \<Rightarrow> (auto_db, auto_cycle) prog" where
  "auto_load_cycle i = auto_cycle_row i"

definition auto_active_intent_count :: "auto_db \<Rightarrow> nat" where
  "auto_active_intent_count db = count_rows (\<lambda>c. auto_active (ac_state c)) (adb_cycles db)"

definition auto_entry_attempts_on_jst_day :: "datetime \<Rightarrow> (auto_db, nat) prog" where
  "auto_entry_attempts_on_jst_day now = thenE (bindE (liftE (auto_timestamp now)) (\<lambda>_. returnE ()))
     (getE (\<lambda>db. count_rows (\<lambda>c. ac_entry_day c = Some (jst_day now)) (adb_cycles db)))"

definition auto_halt_latched :: "auto_db \<Rightarrow> bool" where
  "auto_halt_latched db \<longleftrightarrow> select_one (\<lambda>c. ac_state c = AUTO_HALTED) (adb_cycles db) \<noteq> None"

section \<open>Writing\<close>

text \<open>The row of \<open>INSERT INTO cycles\<close>; the columns it does not name take their defaults.\<close>

definition auto_new_cycle :: "formal_signal \<Rightarrow> string \<Rightarrow> datetime \<Rightarrow> auto_cycle" where
  "auto_new_cycle signal i timestamp = \<lparr>
     ac_intent_id = i, ac_fingerprint = signal_fingerprint signal, ac_state = INTENT_PERSISTED,
     ac_attempt_count = 0, ac_exit_attempt_count = 0, ac_entry_day = None,
     ac_created_at = timestamp, ac_updated_at = timestamp, ac_halt_reason = None\<rparr>"

definition auto_create_intent ::
    "formal_signal \<Rightarrow> phase_a_policy \<Rightarrow> datetime \<Rightarrow> (auto_db, auto_cycle) prog" where
  "auto_create_intent signal policy now =
     bindE (liftE (build_intent_id signal policy)) (\<lambda>i.
     bindE (liftE (auto_timestamp now)) (\<lambda>timestamp.
     thenE (catchE (transactionE (
         bindE (getE (\<lambda>db. select_one (\<lambda>c. auto_active (ac_state c)) (adb_cycles db))) (\<lambda>active.
         thenE (guardE (active = None) (H11AutoPersistenceError ''an active cycle already exists''))
         (bindE (getE (\<lambda>db. select_one (\<lambda>c. ac_state c = AUTO_HALTED) (adb_cycles db))) (\<lambda>halted.
         thenE (guardE (halted = None) (H11AutoPersistenceError ''operator review halt is latched''))
         (thenE (auto_insert_cycle (auto_new_cycle signal i timestamp))
         (auto_append_event i ''INTENT_PERSISTED'' INTENT_PERSISTED)))))))
       (\<lambda>e. raiseE (if e = SqliteIntegrityError
          then H11AutoPersistenceError ''duplicate signal intent refused'' else e)))
     (auto_load_cycle i)))"

text \<open>The assignments of the three \<open>UPDATE cycles SET ...\<close> statements.\<close>

definition auto_attempt_row :: "datetime \<Rightarrow> auto_cycle \<Rightarrow> auto_cycle" where
  "auto_attempt_row now c = c\<lparr>ac_attempt_count := 1, ac_state := PROTECTED_ENTRY_PENDING,
     ac_updated_at := now, ac_entry_day := Some (jst_day now)\<rparr>"

definition auto_exit_row :: "datetime \<Rightarrow> auto_cycle \<Rightarrow> auto_cycle" where
  "auto_exit_row now c =
     c\<lparr>ac_exit_attempt_count := 1, ac_state := EXIT_PENDING, ac_updated_at := now\<rparr>"

definition auto_transition_row ::
    "auto_state \<Rightarrow> datetime \<Rightarrow> string option \<Rightarrow> auto_cycle \<Rightarrow> auto_cycle" where
  "auto_transition_row target now halt_reason c =
     c\<lparr>ac_state := target, ac_updated_at := now, ac_halt_reason := halt_reason\<rparr>"

definition auto_record_attempt_started :: "string \<Rightarrow> datetime \<Rightarrow> (auto_db, auto_cycle) prog" where
  "auto_record_attempt_started i now =
     bindE (liftE (auto_timestamp now)) (\<lambda>timestamp.
     thenE (transactionE (
         bindE (auto_cycle_row i) (\<lambda>row.
         thenE (guardE (ac_attempt_count row = 0) (H11AutoPersistenceError ''second attempt refused''))
         (thenE (liftE (require_transition (ac_state row) PROTECTED_ENTRY_PENDING))
         (bindE (auto_update_where (\<lambda>c. ac_intent_id c = i \<and> ac_attempt_count c = 0)
             (auto_attempt_row timestamp)) (\<lambda>rowcount.
         thenE (guardE (rowcount = 1) (H11AutoPersistenceError ''attempt compare-and-set failed''))
         (auto_append_event i ''ENTRY_ATTEMPT_STARTED_SYNTHETIC'' PROTECTED_ENTRY_PENDING)))))))
     (auto_load_cycle i))"

definition auto_transition ::
    "string \<Rightarrow> auto_state \<Rightarrow> string \<Rightarrow> datetime \<Rightarrow> string option \<Rightarrow> (auto_db, auto_cycle) prog" where
  "auto_transition i target category now halt_reason =
     bindE (liftE (auto_timestamp now)) (\<lambda>timestamp.
     thenE (transactionE (
         bindE (auto_cycle_row i) (\<lambda>row.
         thenE (liftE (require_transition (ac_state row) target))
         (thenE (guardE (\<not> (target = AUTO_HALTED \<and> (halt_reason = None \<or> halt_reason = Some [])))
            (H11AutoPersistenceError ''halt reason is required''))
         (bindE (auto_update_where (\<lambda>c. ac_intent_id c = i)
             (auto_transition_row target timestamp halt_reason)) (\<lambda>rowcount.
          auto_append_event i category target))))))
     (auto_load_cycle i))"

definition auto_record_exit_attempt_started :: "string \<Rightarrow> datetime \<Rightarrow> (auto_db, auto_cycle) prog" where
  "auto_record_exit_attempt_started i now =
     bindE (liftE (auto_timestamp now)) (\<lambda>timestamp.
     thenE (transactionE (
         bindE (auto_cycle_row i) (\<lambda>row.
         thenE (guardE (ac_exit_attempt_count row = 0)
            (H11AutoPersistenceError ''second exit attempt refused''))
         (thenE (liftE (require_transition (ac_state row) EXIT_PENDING))
         (bindE (auto_update_where (\<lambda>c. ac_intent_id c = i \<and> ac_exit_attempt_count c = 0)
             (auto_exit_row timestamp)) (\<lambda>rowcount.
         thenE (guardE (rowcount = 1) (H11AutoPersistenceError ''exit attempt compare-and-set failed''))
         (auto_append_event i ''EXIT_ATTEMPT_STARTED_SYNTHETIC'' EXIT_PENDING)))))))
     (auto_load_cycle i))"

section \<open>Run generations\<close>

text \<open>\<open>SafeRunGenerationBinding\<close> and the dictionary \<open>labels\<close>.\<close>

record run_binding =
  rb_generation_label :: string
  rb_strategy_version :: string
  rb_selected_horizon :: string
  rb_risk_policy_label :: string
  rb_dead_man_policy_label :: string

definition run_labels :: "run_binding \<Rightarrow> (string \<times> string) list" where
  "run_labels b = [
     (''generation_label'', rb_generation_label b),
     (''strategy_version'', rb_strategy_version b),
     (''selected_horizon'', rb_selected_horizon b),
     (''risk_policy_label'', rb_risk_policy_label b),
     (''dead_man_policy_label'', rb_dead_man_policy_label b)]"

definition run_manifest :: "run_binding \<Rightarrow> string \<Rightarrow> string \<Rightarrow> string \<Rightarrow> string" where
  "run_manifest b config_hash risk_digest dead_man_digest =
     json_dumps (JObj (map (\<lambda>(k, v). (k, JStr v)) (run_labels b) @ [
       (''signal_config_hash'', JStr config_hash),
       (''risk_policy_digest'', JStr risk_digest),
       (''dead_man_policy_digest'', JStr dead_man_digest)]))"

text \<open>
  The comparison with the rows that are already there: the five labels and the manifest.
\<close>

definition run_rows_match :: "run_binding \<Rightarrow> string \<Rightarrow> (string \<times> string) list \<Rightarrow> bool" where
  "run_rows_match b manifest rows \<longleftrightarrow>
     list_all (\<lambda>(k, v). map_of rows k = Some v) (run_labels b)
     \<and> map_of rows ''run_generation_manifest'' = Some manifest"

text \<open>The transaction of \<open>bind_run_generation\<close>.\<close>

definition auto_bind_rows :: "run_binding \<Rightarrow> string \<Rightarrow> string \<Rightarrow> (auto_db, unit) prog" where
  "auto_bind_rows binding canonical run_digest = catchE (transactionE (
     bindE (getE (\<lambda>db. map_of (adb_metadata db) ''run_generation_digest'')) (\<lambda>existing.
     case existing of
       None \<Rightarrow> auto_insert_metadata (run_labels binding @ [
         (''run_generation_manifest'', canonical), (''run_generation_digest'', run_digest)])
     | Some d \<Rightarrow>
         if d \<noteq> run_digest
         then raiseE (H11AutoPersistenceError ''run generation policy mismatch'')
         else bindE (getE (\<lambda>db. run_rows_match binding canonical (adb_metadata db))) (\<lambda>ok.
           guardE ok (H11AutoPersistenceError ''run generation metadata is incomplete or invalid'')))))
   (\<lambda>e. raiseE (if e = SqliteIntegrityError
      then H11AutoPersistenceError ''run generation metadata conflict'' else e))"

definition auto_bind_run_generation ::
    "pyval \<Rightarrow> phase_a_policy \<Rightarrow> pyval \<Rightarrow> pyval \<Rightarrow> pyval \<Rightarrow> pyval \<Rightarrow> (auto_db, run_binding) prog" where
  "auto_bind_run_generation generation_label policy risk_label risk_digest dead_man_label dead_man_digest =
    (let labels = [generation_label, PyStr (p_strategy_version policy), PyHorizon (p_horizon policy),
           risk_label, dead_man_label];
         digests = [PyStr (p_config_hash policy), risk_digest, dead_man_digest];
         binding = \<lparr>rb_generation_label = the (as_str generation_label),
           rb_strategy_version = p_strategy_version policy,
           rb_selected_horizon = horizon_value (p_horizon policy),
           rb_risk_policy_label = the (as_str risk_label),
           rb_dead_man_policy_label = the (as_str dead_man_label)\<rparr>;
         canonical = run_manifest binding (p_config_hash policy)
           (the (as_str risk_digest)) (the (as_str dead_man_digest));
         run_digest = sha256_hex canonical
     in thenE (guardE (list_all auto_safe_label labels)
          (H11AutoPersistenceError ''run generation label is invalid''))
       (thenE (guardE (list_all nonblank_str digests)
          (H11AutoPersistenceError ''run generation digest is invalid''))
       (thenE (auto_bind_rows binding canonical run_digest)
       (returnE binding))))"

section \<open>Journal verification\<close>

record auto_journal_summary =
  ajs_valid :: bool
  ajs_event_count :: nat
  ajs_final_state :: string

definition auto_expected_digest :: "auto_event \<Rightarrow> string" where
  "auto_expected_digest e = auto_event_digest (ae_sequence e) (ae_intent_id e) (ae_category e)
     (ae_state_label e) (ae_previous e)"

fun auto_verify_events :: "int \<Rightarrow> string \<Rightarrow> auto_event list \<Rightarrow> unit result" where
  "auto_verify_events expected previous [] = Inr ()"
| "auto_verify_events expected previous (row # rows) =
    (if ae_sequence row \<noteq> expected \<or> ae_previous row \<noteq> previous
        \<or> ae_digest row \<noteq> auto_expected_digest row
     then Inl (H11AutoPersistenceError ''safe journal verification failed'')
     else auto_verify_events (expected + 1) (ae_digest row) rows)"

definition auto_verify_journal :: "auto_db \<Rightarrow> auto_journal_summary result" where
  "auto_verify_journal db =
    (let rows = auto_events_in_order db
     in bindR (auto_verify_events 1 genesis rows) (\<lambda>_.
        Inr \<lparr>ajs_valid = True, ajs_event_count = length rows,
          ajs_final_state = (if rows \<noteq> [] then ae_state_label (last rows) else ''EMPTY'')\<rparr>))"

end
