(* ===== verification/Auto_Boundary.thy ===== *)
theory Auto_Boundary
  imports H11_Prelude
begin

text \<open>
  \<open>backend/app/h11_auto/boundary.py\<close>: the fake and the refusing senders of Phase A and the fake
  notifier.  The entry and the exit sender have the same shape; their outcomes differ.  The
  protocol they share is the locale \<open>single_sender\<close>.
\<close>

datatype entry_outcome =
    ACCEPTED_AND_PROTECTED
  | ENTRY_REJECTED_OUTCOME
  | ENTRY_UNKNOWN_OUTCOME
  | ENTRY_TIMEOUT
  | PARTIAL_FILL_SIZE_MISMATCH

fun entry_outcome_value :: "entry_outcome \<Rightarrow> string" where
  "entry_outcome_value ACCEPTED_AND_PROTECTED = ''ACCEPTED_AND_PROTECTED''"
| "entry_outcome_value ENTRY_REJECTED_OUTCOME = ''REJECTED''"
| "entry_outcome_value ENTRY_UNKNOWN_OUTCOME = ''UNKNOWN''"
| "entry_outcome_value ENTRY_TIMEOUT = ''TIMEOUT''"
| "entry_outcome_value PARTIAL_FILL_SIZE_MISMATCH = ''PARTIAL_FILL_SIZE_MISMATCH''"

datatype exit_outcome = ACCEPTED_AND_FLAT | EXIT_REJECTED | EXIT_UNKNOWN | EXIT_TIMEOUT

fun exit_outcome_value :: "exit_outcome \<Rightarrow> string" where
  "exit_outcome_value ACCEPTED_AND_FLAT = ''ACCEPTED_AND_FLAT''"
| "exit_outcome_value EXIT_REJECTED = ''REJECTED''"
| "exit_outcome_value EXIT_UNKNOWN = ''UNKNOWN''"
| "exit_outcome_value EXIT_TIMEOUT = ''TIMEOUT''"

text \<open>
  A sender object: \<open>x_outcome\<close> is \<open>None\<close> for the refusing class and the outcome to return for the
  fake class.
\<close>

record 'o auto_sender =
  x_outcome :: "'o option"
  x_calls :: "string list"
  x_fake_only :: bool
  x_network_access :: bool
  x_actual_post_count :: int

type_synonym entry_sender = "entry_outcome auto_sender"
type_synonym exit_sender = "exit_outcome auto_sender"

definition fresh_sender :: "'o option \<Rightarrow> 'o auto_sender" where
  "fresh_sender outcome = \<lparr>x_outcome = outcome, x_calls = [], x_fake_only = True,
     x_network_access = False, x_actual_post_count = 0\<rparr>"

definition RefusingProtectedEntrySender :: entry_sender where
  "RefusingProtectedEntrySender = fresh_sender None"

definition FakeProtectedEntrySender :: "entry_outcome \<Rightarrow> entry_sender" where
  "FakeProtectedEntrySender outcome = fresh_sender (Some outcome)"

definition RefusingPositionExitSender :: exit_sender where
  "RefusingPositionExitSender = fresh_sender None"

definition FakePositionExitSender :: "exit_outcome \<Rightarrow> exit_sender" where
  "FakePositionExitSender outcome = fresh_sender (Some outcome)"

text \<open>\<open>send_once_synthetic\<close> of the two classes of a sender, with the message of the refusal.\<close>

definition send_once :: "string \<Rightarrow> string \<Rightarrow> ('o auto_sender, 'o) prog" where
  "send_once refusal intent_id = bindE (getE x_outcome) (\<lambda>outcome. case outcome of
       None \<Rightarrow> raiseE (H11AutoBoundaryError refusal)
     | Some out \<Rightarrow> thenE (modifyE (\<lambda>x. x\<lparr>x_calls := x_calls x @ [intent_id]\<rparr>)) (returnE out))"

definition entry_send_once_synthetic :: "string \<Rightarrow> (entry_sender, entry_outcome) prog" where
  "entry_send_once_synthetic intent_id = send_once ''ACTUAL_TRANSPORT_ABSENT_PHASE_A_NO_POST'' intent_id"

definition exit_send_once_synthetic :: "string \<Rightarrow> (exit_sender, exit_outcome) prog" where
  "exit_send_once_synthetic intent_id = send_once ''ACTUAL_EXIT_TRANSPORT_ABSENT_PHASE_A_NO_POST'' intent_id"

definition is_auto_boundary_error :: "py_exn \<Rightarrow> bool" where
  "is_auto_boundary_error e = (case e of H11AutoBoundaryError m \<Rightarrow> True | _ \<Rightarrow> False)"

section \<open>The interface\<close>

text \<open>
  What the engine relies on: a sender that answers has recorded the call exactly once and done
  nothing else, a sender that refuses raises \<open>H11AutoBoundaryError\<close> and has not changed.
\<close>

locale single_sender =
  fixes send :: "'i \<Rightarrow> ('x, 'o) prog"
    and sent :: "'x \<Rightarrow> 'i list"
    and answer :: "'x \<Rightarrow> 'o option"
    and marks :: "'x \<Rightarrow> 'm"
  assumes send_returns: "send i x = (Inr out, x') \<Longrightarrow>
      answer x = Some out \<and> answer x' = answer x \<and> sent x' = sent x @ [i] \<and> marks x' = marks x"
    and send_raises: "send i x = (Inl e, x') \<Longrightarrow> answer x = None \<and> is_auto_boundary_error e \<and> x' = x"
begin

lemma send_run:
  "\<exists>r x'. send i x = (r, x') \<and> answer x' = answer x \<and> marks x' = marks x
     \<and> (case answer x of None \<Rightarrow> (\<exists>e. r = Inl e \<and> is_auto_boundary_error e) \<and> sent x' = sent x
        | Some out \<Rightarrow> r = Inr out \<and> sent x' = sent x @ [i])"
proof -
  obtain r x' where run: "send i x = (r, x')" by (cases "send i x")
  then show ?thesis
    using send_returns [of i x _ x'] send_raises [of i x _ x'] by (cases r) fastforce+
qed

end

definition x_marks :: "'o auto_sender \<Rightarrow> bool \<times> bool \<times> int" where
  "x_marks x = (x_fake_only x, x_network_access x, x_actual_post_count x)"

interpretation entry_port: single_sender entry_send_once_synthetic x_calls x_outcome x_marks
  by unfold_locales (auto simp: entry_send_once_synthetic_def send_once_def run_progs x_marks_def
      is_auto_boundary_error_def split: option.splits)

interpretation exit_port: single_sender exit_send_once_synthetic x_calls x_outcome x_marks
  by unfold_locales (auto simp: exit_send_once_synthetic_def send_once_def run_progs x_marks_def
      is_auto_boundary_error_def split: option.splits)

section \<open>The notifier\<close>

datatype notification =
    HEARTBEAT | INTENT_RECORDED | NOTIFY_POSITION_PROTECTED | NOTIFY_FLAT_RECONCILED | NOTIFY_HALTED

record fake_notifier =
  n_fail :: bool
  n_fail_categories :: "notification list"
  n_events :: "notification list"
  n_external_send_performed :: bool

definition notify :: "notification \<Rightarrow> (fake_notifier, bool) prog" where
  "notify category =
     thenE (modifyE (\<lambda>n. n\<lparr>n_events := n_events n @ [category]\<rparr>))
     (getE (\<lambda>n. \<not> n_fail n \<and> category \<notin> set (n_fail_categories n)))"

text \<open>The categories the notifier accepts.\<close>

definition n_accepts :: "fake_notifier \<Rightarrow> notification \<Rightarrow> bool" where
  "n_accepts n category \<longleftrightarrow> \<not> n_fail n \<and> category \<notin> set (n_fail_categories n)"

lemma notify_run: "notify category n = (Inr (n_accepts n category), n\<lparr>n_events := n_events n @ [category]\<rparr>)"
  by (simp add: notify_def run_progs n_accepts_def)

lemma n_accepts_events [simp]: "n_accepts (n\<lparr>n_events := es\<rparr>) = n_accepts n"
  by (rule ext) (simp add: n_accepts_def)

end
