(* ===== verification/Auto_Engine.thy ===== *)
theory Auto_Engine
  imports Auto_Store Auto_Boundary
begin

text \<open>
  \<open>backend/app/h11_auto/engine.py\<close> and \<open>recovery.py\<close>: the coordinator \<open>H11AutoPhaseAEngine\<close> and
  the decision after a restart.

  A method is a program over the world of one engine object: the store's database, the two
  senders, the notifier and, as environment, the number of calls after which the process is
  stopped.  A stop can hit before every call that writes the store, every call of a sender and
  every notification.
\<close>

section \<open>The world of an engine\<close>

record auto_world =
  aw_store :: auto_db
  aw_sender :: entry_sender
  aw_exit_sender :: exit_sender
  aw_notifier :: fake_notifier
  aw_interrupt :: "nat option"

definition auto_checkpoint :: "(auto_world, unit) prog" where
  "auto_checkpoint = (\<lambda>w. case aw_interrupt w of
       None \<Rightarrow> (Inr (), w)
     | Some 0 \<Rightarrow> (Inl KeyboardInterrupt, w)
     | Some (Suc n) \<Rightarrow> (Inr (), w\<lparr>aw_interrupt := Some n\<rparr>))"

definition at_store :: "(auto_db, 'a) prog \<Rightarrow> (auto_world, 'a) prog" where
  "at_store m = thenE auto_checkpoint (zoomE aw_store (\<lambda>s w. w\<lparr>aw_store := s\<rparr>) m)"

definition at_sender :: "(entry_sender, 'a) prog \<Rightarrow> (auto_world, 'a) prog" where
  "at_sender m = thenE auto_checkpoint (zoomE aw_sender (\<lambda>s w. w\<lparr>aw_sender := s\<rparr>) m)"

definition at_exit_sender :: "(exit_sender, 'a) prog \<Rightarrow> (auto_world, 'a) prog" where
  "at_exit_sender m = thenE auto_checkpoint (zoomE aw_exit_sender (\<lambda>s w. w\<lparr>aw_exit_sender := s\<rparr>) m)"

definition at_notifier :: "(fake_notifier, 'a) prog \<Rightarrow> (auto_world, 'a) prog" where
  "at_notifier m = thenE auto_checkpoint (zoomE aw_notifier (\<lambda>s w. w\<lparr>aw_notifier := s\<rparr>) m)"

section \<open>Results\<close>

datatype fake_cycle_status =
    FC_NO_ACTION_STAY
  | FC_BLOCKED_SAFE
  | FC_POSITION_PROTECTED_SYNTHETIC
  | FC_FLAT_RECONCILED_SYNTHETIC
  | FC_HALTED_SAFE

record fake_cycle_result =
  fr_status :: fake_cycle_status
  fr_final_state :: "auto_state option"
  fr_blocked_reasons :: "string list"
  fr_intent_created :: bool
  fr_attempt_count :: int
  fr_exit_attempt_count :: int
  fr_actual_post_count :: int
  fr_broker_write_performed :: bool
  fr_network_access_performed :: bool

definition auto_empty_result :: "fake_cycle_status \<Rightarrow> string list \<Rightarrow> fake_cycle_result" where
  "auto_empty_result status reasons = \<lparr>fr_status = status, fr_final_state = None,
     fr_blocked_reasons = reasons, fr_intent_created = False, fr_attempt_count = 0,
     fr_exit_attempt_count = 0, fr_actual_post_count = 0, fr_broker_write_performed = False,
     fr_network_access_performed = False\<rparr>"

text \<open>\<open>_result\<close> and \<open>_blocked\<close>\<close>

definition auto_result ::
    "fake_cycle_status \<Rightarrow> auto_cycle \<Rightarrow> string list \<Rightarrow> (auto_world, fake_cycle_result) prog" where
  "auto_result status cycle reasons = getE (\<lambda>w. \<lparr>fr_status = status,
     fr_final_state = Some (ac_state cycle), fr_blocked_reasons = reasons, fr_intent_created = True,
     fr_attempt_count = ac_attempt_count cycle, fr_exit_attempt_count = ac_exit_attempt_count cycle,
     fr_actual_post_count = x_actual_post_count (aw_sender w) + x_actual_post_count (aw_exit_sender w),
     fr_broker_write_performed = False,
     fr_network_access_performed =
       (x_network_access (aw_sender w) \<or> x_network_access (aw_exit_sender w))\<rparr>)"

definition auto_blocked :: "entry_gate_result \<Rightarrow> (auto_world, fake_cycle_result) prog" where
  "auto_blocked gate = returnE (auto_empty_result FC_BLOCKED_SAFE (eg_blocked_reasons gate))"

section \<open>The constructor\<close>

text \<open>
  An object passed for a sender or the notifier: one of the exact types, or anything else.
\<close>

datatype 'a py_object = Exactly 'a | AnotherType

definition FakeNotifier :: fake_notifier where
  "FakeNotifier = \<lparr>n_fail = False, n_fail_categories = [], n_events = [], n_external_send_performed = False\<rparr>"

definition exact_or_refused :: "'a py_object \<Rightarrow> string \<Rightarrow> 'a result" where
  "exact_or_refused x message = (case x of Exactly a \<Rightarrow> Inr a | AnotherType \<Rightarrow> Inl (H11AutoBoundaryError message))"

definition or_default :: "'a py_object option \<Rightarrow> 'a \<Rightarrow> 'a py_object" where
  "or_default x d = (case x of None \<Rightarrow> Exactly d | Some y \<Rightarrow> y)"

definition H11AutoPhaseAEngine ::
    "auto_db \<Rightarrow> entry_sender py_object option \<Rightarrow> exit_sender py_object option
     \<Rightarrow> fake_notifier py_object option \<Rightarrow> nat option \<Rightarrow> auto_world result" where
  "H11AutoPhaseAEngine store sender exit_sender notifier interrupt =
     bindR (exact_or_refused (or_default sender RefusingProtectedEntrySender)
       ''PHASE_A_ENTRY_SENDER_TYPE_REFUSED'') (\<lambda>sender.
     bindR (exact_or_refused (or_default exit_sender RefusingPositionExitSender)
       ''PHASE_A_EXIT_SENDER_TYPE_REFUSED'') (\<lambda>exit_sender.
     bindR (exact_or_refused (or_default notifier FakeNotifier) ''PHASE_A_NOTIFIER_TYPE_REFUSED'')
       (\<lambda>notifier.
     if \<not> x_fake_only sender \<or> \<not> x_fake_only exit_sender
        \<or> x_actual_post_count sender \<noteq> 0 \<or> x_actual_post_count exit_sender \<noteq> 0
        \<or> x_network_access sender \<or> x_network_access exit_sender
     then Inl (H11AutoBoundaryError ''PHASE_A_NON_FAKE_BOUNDARY_REFUSED'')
     else Inr \<lparr>aw_store = store, aw_sender = sender, aw_exit_sender = exit_sender,
       aw_notifier = notifier, aw_interrupt = interrupt\<rparr>)))"

section \<open>Halting\<close>

text \<open>\<open>_halt_before_attempt\<close> and \<open>_halt_after_reason\<close> have the same body.\<close>

definition auto_halt_after_reason ::
    "auto_cycle \<Rightarrow> string \<Rightarrow> datetime \<Rightarrow> (auto_world, fake_cycle_result) prog" where
  "auto_halt_after_reason cycle reason now =
     bindE (at_store (auto_transition (ac_intent_id cycle) AUTO_HALTED ''HALTED_SYNTHETIC'' now (Some reason)))
     (\<lambda>halted.
     bindE (at_notifier (notify NOTIFY_HALTED)) (\<lambda>_.
     auto_result FC_HALTED_SAFE halted [reason]))"

definition auto_halt_before_attempt ::
    "auto_cycle \<Rightarrow> string \<Rightarrow> datetime \<Rightarrow> (auto_world, fake_cycle_result) prog" where
  "auto_halt_before_attempt cycle reason now =
     bindE (at_store (auto_transition (ac_intent_id cycle) AUTO_HALTED ''HALTED_SYNTHETIC'' now (Some reason)))
     (\<lambda>halted.
     bindE (at_notifier (notify NOTIFY_HALTED)) (\<lambda>_.
     auto_result FC_HALTED_SAFE halted [reason]))"

definition auto_halt_after_outcome ::
    "auto_cycle \<Rightarrow> entry_outcome \<Rightarrow> datetime \<Rightarrow> (auto_world, fake_cycle_result) prog" where
  "auto_halt_after_outcome cycle outcome now =
     auto_halt_after_reason cycle (''SYNTHETIC_'' @ entry_outcome_value outcome) now"

section \<open>Running a signal\<close>

text \<open>The snapshot of the caller, tightened by what the store knows.\<close>

definition auto_tightened :: "safety_snapshot \<Rightarrow> nat \<Rightarrow> nat \<Rightarrow> bool \<Rightarrow> safety_snapshot" where
  "auto_tightened safety active today halted = safety\<lparr>
     sf_active_intent_count := max (sf_active_intent_count safety) (int active),
     sf_entries_today := max (sf_entries_today safety) (int today),
     sf_kill_requested := (sf_kill_requested safety \<or> halted)\<rparr>"

definition auto_stay_reasons :: "formal_signal \<Rightarrow> phase_a_policy \<Rightarrow> datetime \<Rightarrow> string list result" where
  "auto_stay_reasons signal policy now = bindR (signal_expired now signal) (\<lambda>expired.
     Inr (reason_if (\<not> phase_a_accepts policy signal) ''SIGNAL_POLICY_MISMATCH''
        @ reason_if expired ''SIGNAL_EXPIRED_OR_CLOCK_INVALID''))"

text \<open>From the persisted intent on.\<close>

definition auto_enter ::
    "auto_cycle \<Rightarrow> datetime \<Rightarrow> (auto_world, fake_cycle_result) prog" where
  "auto_enter cycle now =
     bindE (at_notifier (notify INTENT_RECORDED)) (\<lambda>recorded.
     if \<not> recorded then auto_halt_before_attempt cycle ''SYNTHETIC_INTENT_NOTIFICATION_FAILED'' now
     else
       bindE (at_store (auto_record_attempt_started (ac_intent_id cycle) now)) (\<lambda>cycle.
       try_exceptE (at_sender (entry_send_once_synthetic (ac_intent_id cycle))) is_auto_boundary_error
         (auto_halt_after_reason cycle ''SYNTHETIC_BOUNDARY_REFUSED'' now) (\<lambda>outcome.
       if outcome = ACCEPTED_AND_PROTECTED
       then
         bindE (at_store (auto_transition (ac_intent_id cycle) AUTO_POSITION_PROTECTED
           ''POSITION_PROTECTED_SYNTHETIC'' now None)) (\<lambda>cycle.
         bindE (at_notifier (notify NOTIFY_POSITION_PROTECTED)) (\<lambda>notified.
         if \<not> notified then auto_halt_after_reason cycle ''SYNTHETIC_PROTECTED_NOTIFICATION_FAILED'' now
         else auto_result FC_POSITION_PROTECTED_SYNTHETIC cycle []))
       else auto_halt_after_outcome cycle outcome now)))"

definition auto_run_signal_once_synthetic ::
    "formal_signal \<Rightarrow> phase_a_policy \<Rightarrow> safety_snapshot \<Rightarrow> datetime \<Rightarrow> (auto_world, fake_cycle_result) prog" where
  "auto_run_signal_once_synthetic signal policy safety now =
    (if s_decision signal = STAY
     then bindE (liftE (auto_stay_reasons signal policy now)) (\<lambda>reasons.
       if reasons \<noteq> [] then returnE (auto_empty_result FC_BLOCKED_SAFE reasons)
       else returnE (auto_empty_result FC_NO_ACTION_STAY []))
     else
       bindE (getE (\<lambda>w. auto_active_intent_count (aw_store w))) (\<lambda>active.
       bindE (zoomE aw_store (\<lambda>s w. w\<lparr>aw_store := s\<rparr>) (auto_entry_attempts_on_jst_day now)) (\<lambda>today.
       bindE (getE (\<lambda>w. auto_halt_latched (aw_store w))) (\<lambda>halted.
       bindE (liftE (evaluate_phase_a_entry_gate signal policy
          (auto_tightened safety active today halted) now)) (\<lambda>gate.
       if \<not> eg_fake_cycle_allowed gate then auto_blocked gate
       else bindE (at_store (auto_create_intent signal policy now)) (\<lambda>cycle.
         auto_enter cycle now))))))"

section \<open>Completing an exit\<close>

definition auto_complete_exit_once_synthetic ::
    "string \<Rightarrow> datetime \<Rightarrow> (auto_world, fake_cycle_result) prog" where
  "auto_complete_exit_once_synthetic i now =
     bindE (at_store (auto_record_exit_attempt_started i now)) (\<lambda>cycle.
     try_exceptE (at_exit_sender (exit_send_once_synthetic i)) is_auto_boundary_error
       (auto_halt_after_reason cycle ''SYNTHETIC_EXIT_BOUNDARY_REFUSED'' now) (\<lambda>outcome.
     if outcome = ACCEPTED_AND_FLAT
     then
       bindE (at_store (auto_transition i AUTO_FLAT_RECONCILED ''FLAT_RECONCILED_SYNTHETIC'' now None))
       (\<lambda>flat.
       bindE (at_notifier (notify NOTIFY_FLAT_RECONCILED)) (\<lambda>notified.
       if \<not> notified then auto_halt_after_reason flat ''SYNTHETIC_FLAT_NOTIFICATION_FAILED'' now
       else auto_result FC_FLAT_RECONCILED_SYNTHETIC flat []))
     else auto_halt_after_reason cycle (''SYNTHETIC_EXIT_'' @ exit_outcome_value outcome) now))"

section \<open>Recovery\<close>

datatype recovery_action =
    START_SYNTHETIC_ATTEMPT
  | OBSERVE_PENDING_NO_RESEND
  | MONITOR_PROTECTED_POSITION
  | CONFIRM_FLAT_NO_WRITE
  | HALT_OPERATOR_REVIEW

record recovery_decision =
  rd_action :: recovery_action
  rd_safe_to_continue_observation :: bool
  rd_entry_resend_allowed :: bool
  rd_exit_resend_allowed :: bool
  rd_blocked_reasons :: "string list"
  rd_actual_post_allowed :: bool

definition recovery_halt :: "string \<Rightarrow> recovery_decision" where
  "recovery_halt reason = \<lparr>rd_action = HALT_OPERATOR_REVIEW, rd_safe_to_continue_observation = False,
     rd_entry_resend_allowed = False, rd_exit_resend_allowed = False,
     rd_blocked_reasons = [reason], rd_actual_post_allowed = False\<rparr>"

definition recovery_continue :: "recovery_action \<Rightarrow> recovery_decision" where
  "recovery_continue action = \<lparr>rd_action = action, rd_safe_to_continue_observation = True,
     rd_entry_resend_allowed = False, rd_exit_resend_allowed = False,
     rd_blocked_reasons = [], rd_actual_post_allowed = False\<rparr>"

definition evaluate_restart_recovery ::
    "auto_cycle \<Rightarrow> safe_broker_state \<Rightarrow> bool \<Rightarrow> recovery_decision" where
  "evaluate_restart_recovery cycle broker_state safe_read_fresh =
    (if \<not> safe_read_fresh then recovery_halt ''SAFE_READ_NOT_FRESH''
     else if broker_state \<in> {BROKER_UNKNOWN, EXTERNAL_OR_MANUAL_CONFLICT}
     then recovery_halt (broker_state_value broker_state)
     else case ac_state cycle of
       AUTO_HALTED \<Rightarrow> recovery_halt ''LOCAL_STATE_ALREADY_HALTED''
     | INTENT_PERSISTED \<Rightarrow>
         if ac_attempt_count cycle = 0 \<and> broker_state = FLAT_CLEAR
         then recovery_continue START_SYNTHETIC_ATTEMPT
         else recovery_halt ''INTENT_STATE_MISMATCH''
     | PROTECTED_ENTRY_PENDING \<Rightarrow>
         if ac_attempt_count cycle = 1 \<and> broker_state = BROKER_ENTRY_PENDING
         then recovery_continue OBSERVE_PENDING_NO_RESEND
         else recovery_halt ''PENDING_ENTRY_STATE_MISMATCH''
     | AUTO_POSITION_PROTECTED \<Rightarrow>
         if broker_state = BROKER_POSITION_PROTECTED
         then recovery_continue MONITOR_PROTECTED_POSITION
         else recovery_halt ''PROTECTED_POSITION_STATE_MISMATCH''
     | EXIT_PENDING \<Rightarrow>
         if ac_exit_attempt_count cycle \<noteq> 1 then recovery_halt ''EXIT_ATTEMPT_LEDGER_MISMATCH''
         else if broker_state = BROKER_POSITION_PROTECTED
         then recovery_halt ''EXIT_RESULT_UNKNOWN_NO_RESEND''
         else if broker_state = FLAT_AFTER_EXIT then recovery_continue CONFIRM_FLAT_NO_WRITE
         else recovery_halt ''EXIT_STATE_MISMATCH''
     | AUTO_FLAT_RECONCILED \<Rightarrow>
         if broker_state \<in> {FLAT_CLEAR, FLAT_AFTER_EXIT} then recovery_continue CONFIRM_FLAT_NO_WRITE
         else recovery_halt ''FLAT_STATE_MISMATCH''
     | _ \<Rightarrow> recovery_halt ''LOCAL_STATE_NOT_RECOVERABLE'')"

end
