(* ===== verification/Auto_Store_Inv.thy ===== *)
theory Auto_Store_Inv
  imports Auto_Store
begin

text \<open>
  The invariant of the Phase A store and its preservation by the five writers.

  \<open>auto_store_inv\<close> collects the keys of the tables, the valid hash chain, the agreement of the
  journal with the states and the attempt counters of the cycles, and the shape of a row in each
  state.  \<open>transition\<close> is called with the targets and categories the engine uses
  (\<open>engine_transition\<close>).
\<close>

section \<open>The journal interface\<close>

definition auto_event_body :: "auto_event \<Rightarrow> string \<times> string \<times> string" where
  "auto_event_body e = (ae_intent_id e, ae_category e, ae_state_label e)"

interpretation auto_j: hash_journal ae_sequence ae_previous ae_digest auto_expected_digest auto_mk_event
  auto_event_body
  by unfold_locales (auto simp: auto_mk_event_def auto_expected_digest_def auto_event_body_def
      split: prod.splits)

abbreviation auto_chain :: "auto_event list \<Rightarrow> bool" where
  "auto_chain \<equiv> chain_ok ae_sequence ae_previous ae_digest auto_expected_digest 1 genesis"

section \<open>The invariant\<close>

definition auto_keys :: "auto_db \<Rightarrow> bool" where
  "auto_keys db \<longleftrightarrow> distinct (map ac_intent_id (adb_cycles db))
     \<and> distinct (map ac_fingerprint (adb_cycles db))
     \<and> (\<forall>e \<in> set (adb_events db). ae_intent_id e \<in> ac_intent_id ` set (adb_cycles db))"

text \<open>What a row says in each state.\<close>

fun auto_counts_ok :: "auto_state \<Rightarrow> int \<Rightarrow> int \<Rightarrow> bool" where
  "auto_counts_ok INTENT_PERSISTED a e \<longleftrightarrow> a = 0 \<and> e = 0"
| "auto_counts_ok PROTECTED_ENTRY_PENDING a e \<longleftrightarrow> a = 1 \<and> e = 0"
| "auto_counts_ok AUTO_POSITION_PROTECTED a e \<longleftrightarrow> a = 1 \<and> e = 0"
| "auto_counts_ok EXIT_PENDING a e \<longleftrightarrow> a = 1 \<and> e = 1"
| "auto_counts_ok AUTO_FLAT_RECONCILED a e \<longleftrightarrow> a = 1 \<and> e = 1"
| "auto_counts_ok AUTO_HALTED a e \<longleftrightarrow> (a, e) \<in> {(0, 0), (1, 0), (1, 1)}"
| "auto_counts_ok _ a e \<longleftrightarrow> False"

definition auto_row_ok :: "auto_cycle \<Rightarrow> bool" where
  "auto_row_ok c \<longleftrightarrow> is_hex64 (ac_intent_id c)
     \<and> auto_counts_ok (ac_state c) (ac_attempt_count c) (ac_exit_attempt_count c)
     \<and> (ac_entry_day c \<noteq> None \<longleftrightarrow> ac_attempt_count c = 1)
     \<and> (ac_state c = AUTO_HALTED \<longleftrightarrow> ac_halt_reason c \<noteq> None) \<and> ac_halt_reason c \<noteq> Some []"

text \<open>The last label and the number of entries of a category the journal holds for an intent.\<close>

definition auto_journal_label :: "string \<Rightarrow> auto_event list \<Rightarrow> string option" where
  "auto_journal_label i es = map_of (rev (map (\<lambda>e. (ae_intent_id e, ae_state_label e)) es)) i"

definition auto_journal_count :: "string \<Rightarrow> string \<Rightarrow> auto_event list \<Rightarrow> int" where
  "auto_journal_count i category es =
     int (count_rows (\<lambda>e. ae_intent_id e = i \<and> ae_category e = category) es)"

definition auto_journal_agrees :: "auto_cycle \<Rightarrow> auto_event list \<Rightarrow> bool" where
  "auto_journal_agrees c es \<longleftrightarrow>
     auto_journal_label (ac_intent_id c) es = Some (auto_state_value (ac_state c))
     \<and> auto_journal_count (ac_intent_id c) ''ENTRY_ATTEMPT_STARTED_SYNTHETIC'' es = ac_attempt_count c
     \<and> auto_journal_count (ac_intent_id c) ''EXIT_ATTEMPT_STARTED_SYNTHETIC'' es = ac_exit_attempt_count c"

definition auto_store_inv :: "auto_db \<Rightarrow> bool" where
  "auto_store_inv db \<longleftrightarrow> auto_keys db \<and> auto_chain (adb_events db)
     \<and> (\<forall>c \<in> set (adb_cycles db). auto_row_ok c \<and> auto_journal_agrees c (adb_events db))"

section \<open>Reading the tables\<close>

lemma auto_find_member: "auto_keys db \<Longrightarrow> c \<in> set (adb_cycles db) \<Longrightarrow> auto_find (ac_intent_id c) db = Some c"
  unfolding auto_find_def by (rule select_one_key) (simp_all add: auto_keys_def)

lemma auto_find_Some: "auto_find i db = Some c \<Longrightarrow> ac_intent_id c = i \<and> c \<in> set (adb_cycles db)"
  unfolding auto_find_def by (auto dest: select_one_Some)

lemma auto_find_unique:
  "auto_keys db \<Longrightarrow> auto_find i db = Some row \<Longrightarrow> c \<in> set (adb_cycles db) \<Longrightarrow> ac_intent_id c = i \<Longrightarrow> c = row"
  using auto_find_member by fastforce

lemma auto_find_None: "auto_find i db = None \<longleftrightarrow> i \<notin> ac_intent_id ` set (adb_cycles db)"
  by (auto simp: auto_find_def select_one_None)

lemma auto_events_in_order_chain: "auto_chain (adb_events db) \<Longrightarrow> auto_events_in_order db = adb_events db"
  unfolding auto_events_in_order_def by (rule auto_j.chain_sorted(1))

lemma auto_cycle_row_run [simp]:
  "auto_cycle_row i db = (case auto_find i db of
     None \<Rightarrow> (Inl (H11AutoPersistenceError ''cycle not found''), db) | Some c \<Rightarrow> (Inr c, db))"
  by (simp add: auto_cycle_row_def run_progs split: option.splits)

text \<open>The guarded \<open>UPDATE\<close> of a row whose counter is still zero hits exactly that row.\<close>

lemma guarded_update:
  assumes keys: "auto_keys db" and row: "auto_find i db = Some row" and zero: "k row = (0::int)"
  shows "update_rows (\<lambda>c. ac_intent_id c = i \<and> k c = 0) f (adb_cycles db) =
      update_rows (\<lambda>c. ac_intent_id c = i) f (adb_cycles db)"
    and "count_rows (\<lambda>c. ac_intent_id c = i \<and> k c = 0) (adb_cycles db) = 1"
proof -
  have eq: "ac_intent_id c = i \<and> k c = 0 \<longleftrightarrow> c = row" "ac_intent_id c = i \<longleftrightarrow> c = row"
    if "c \<in> set (adb_cycles db)" for c
    using that auto_find_unique [OF keys row that] auto_find_Some [OF row] zero by auto
  then show "update_rows (\<lambda>c. ac_intent_id c = i \<and> k c = 0) f (adb_cycles db) =
      update_rows (\<lambda>c. ac_intent_id c = i) f (adb_cycles db)"
    by (auto simp: update_rows_def)
  have "filter (\<lambda>c. ac_intent_id c = i \<and> k c = 0) (adb_cycles db) = filter (\<lambda>c. c = row) (adb_cycles db)"
    using eq by (intro filter_cong) auto
  moreover have "row \<in> set (adb_cycles db)" and "distinct (adb_cycles db)"
    using auto_find_Some [OF row] keys by (auto simp: auto_keys_def simp: distinct_map)
  ultimately show "count_rows (\<lambda>c. ac_intent_id c = i \<and> k c = 0) (adb_cycles db) = 1"
    by (simp add: count_rows_def distinct_length_filter Int_def cong: conj_cong)
qed

section \<open>What the statements do\<close>

definition auto_next_event :: "auto_db \<Rightarrow> string \<Rightarrow> string \<Rightarrow> auto_state \<Rightarrow> auto_event" where
  "auto_next_event db i category state =
     auto_mk_event (next_sequence ae_sequence (auto_events_in_order db))
       (last_digest ae_digest (auto_events_in_order db)) (i, category, auto_state_value state)"

text \<open>The row of an intent updated and one event appended; a new row with its event.\<close>

definition auto_commit ::
    "string \<Rightarrow> (auto_cycle \<Rightarrow> auto_cycle) \<Rightarrow> string \<Rightarrow> auto_state \<Rightarrow> auto_db \<Rightarrow> auto_db" where
  "auto_commit i f category state db = db\<lparr>
     adb_cycles := update_rows (\<lambda>c. ac_intent_id c = i) f (adb_cycles db),
     adb_events := adb_events db @ [auto_next_event db i category state]\<rparr>"

definition auto_add_cycle :: "auto_cycle \<Rightarrow> auto_db \<Rightarrow> auto_db" where
  "auto_add_cycle c db = db\<lparr>adb_cycles := adb_cycles db @ [c],
     adb_events := adb_events db @ [auto_next_event db (ac_intent_id c) ''INTENT_PERSISTED'' INTENT_PERSISTED]\<rparr>"

lemma auto_commit_simps [simp]:
  "adb_metadata (auto_commit i f cat st db) = adb_metadata db"
  "adb_cycles (auto_commit i f cat st db) = update_rows (\<lambda>c. ac_intent_id c = i) f (adb_cycles db)"
  "adb_events (auto_commit i f cat st db) = adb_events db @ [auto_next_event db i cat st]"
  "adb_metadata (auto_add_cycle c db) = adb_metadata db"
  "adb_cycles (auto_add_cycle c db) = adb_cycles db @ [c]"
  "adb_events (auto_add_cycle c db) = adb_events db
     @ [auto_next_event db (ac_intent_id c) ''INTENT_PERSISTED'' INTENT_PERSISTED]"
  by (simp_all add: auto_commit_def auto_add_cycle_def)

lemma auto_next_event_simps [simp]:
  "ae_intent_id (auto_next_event db i cat st) = i"
  "ae_category (auto_next_event db i cat st) = cat"
  "ae_state_label (auto_next_event db i cat st) = auto_state_value st"
  by (simp_all add: auto_next_event_def auto_mk_event_def)

lemma auto_rows_keep [simp]:
  "ac_intent_id (auto_attempt_row now c) = ac_intent_id c"
  "ac_intent_id (auto_exit_row now c) = ac_intent_id c"
  "ac_intent_id (auto_transition_row target now r c) = ac_intent_id c"
  "ac_fingerprint (auto_attempt_row now c) = ac_fingerprint c"
  "ac_fingerprint (auto_exit_row now c) = ac_fingerprint c"
  "ac_fingerprint (auto_transition_row target now r c) = ac_fingerprint c"
  "ac_state (auto_attempt_row now c) = PROTECTED_ENTRY_PENDING"
  "ac_state (auto_exit_row now c) = EXIT_PENDING"
  "ac_state (auto_transition_row target now r c) = target"
  by (simp_all add: auto_attempt_row_def auto_exit_row_def auto_transition_row_def)

lemma auto_find_commit:
  assumes "\<And>c. ac_intent_id (f c) = ac_intent_id c"
  shows "auto_find a (auto_commit i f cat st db) =
    (case auto_find a db of None \<Rightarrow> None | Some c \<Rightarrow> Some (if a = i then f c else c))"
  unfolding auto_find_def by (simp add: select_one_update_rows [of ac_intent_id f, OF assms])

text \<open>On a valid journal the append always goes through.\<close>

lemma auto_append_run:
  assumes "auto_chain (adb_events db)" and "auto_find i db \<noteq> None"
  shows "auto_append_event i category state db =
    (Inr (), db\<lparr>adb_events := adb_events db @ [auto_next_event db i category state]\<rparr>)"
proof -
  note o = auto_events_in_order_chain [OF assms(1)]
  have "next_sequence ae_sequence (adb_events db) \<notin> ae_sequence ` set (adb_events db)"
    by (rule auto_j.chain_fresh_sequence [OF assms(1)])
  then have "\<not> list_ex (\<lambda>r. ae_sequence r = next_sequence ae_sequence (adb_events db)) (adb_events db)"
    by (fastforce simp: list_ex_iff image_iff)
  with assms o show ?thesis
    by (simp add: auto_append_event_def run_progs auto_insert_event_def auto_next_event_def auto_mk_event_def)
qed

lemma auto_commit_run:
  assumes chain: "auto_chain (adb_events db)" and row: "auto_find i db = Some row"
    and key: "\<And>c. ac_intent_id (f c) = ac_intent_id c"
  shows "auto_append_event i category state
      (db\<lparr>adb_cycles := update_rows (\<lambda>c. ac_intent_id c = i) f (adb_cycles db)\<rparr>) =
    (Inr (), auto_commit i f category state db)"
proof -
  let ?db = "db\<lparr>adb_cycles := update_rows (\<lambda>c. ac_intent_id c = i) f (adb_cycles db)\<rparr>"
  have "auto_find i ?db \<noteq> None"
    using row unfolding auto_find_def by (simp add: select_one_update_rows [of ac_intent_id f, OF key])
  then show ?thesis
    using auto_append_run [of ?db i category state] chain
    by (simp add: auto_commit_def auto_next_event_def auto_events_in_order_def)
qed

section \<open>The writers on a store that satisfies the invariant\<close>

text \<open>Each writer either refuses and changes nothing, or commits exactly one row and one event.\<close>

lemma auto_transition_run:
  assumes inv: "auto_store_inv db"
  shows "auto_transition i target category now halt db =
    (case auto_find i db of
       None \<Rightarrow> (Inl (H11AutoPersistenceError (if dt_aware now then ''cycle not found''
                 else ''timestamp must be timezone-aware'')), db)
     | Some row \<Rightarrow>
         if \<not> dt_aware now then (Inl (H11AutoPersistenceError ''timestamp must be timezone-aware''), db)
         else if target \<notin> set (auto_allowed (ac_state row))
         then (Inl (H11AutoStateError (''transition refused: '' @ auto_state_value (ac_state row) @ '' -> ''
            @ auto_state_value target)), db)
         else if target = AUTO_HALTED \<and> (halt = None \<or> halt = Some [])
         then (Inl (H11AutoPersistenceError ''halt reason is required''), db)
         else (Inr (auto_transition_row target now halt row),
           auto_commit i (auto_transition_row target now halt) category target db))"
proof (cases "auto_find i db")
  case None
  then show ?thesis by (simp add: auto_transition_def run_progs auto_timestamp_def)
next
  case (Some row)
  have "auto_chain (adb_events db)" using inv by (simp add: auto_store_inv_def)
  note app = auto_commit_run [OF this Some, where f = "auto_transition_row target now halt", simplified]
  have "auto_find i (auto_commit i (auto_transition_row target now halt) category target db) =
      Some (auto_transition_row target now halt row)"
    using Some by (simp add: auto_find_commit)
  with Some app show ?thesis
    by (cases halt) (auto simp: auto_transition_def run_progs auto_timestamp_def require_transition_def
        auto_update_where_def auto_load_cycle_def)
qed

lemma auto_attempt_run:
  assumes inv: "auto_store_inv db"
  shows "auto_record_attempt_started i now db =
    (case auto_find i db of
       None \<Rightarrow> (Inl (H11AutoPersistenceError (if dt_aware now then ''cycle not found''
                 else ''timestamp must be timezone-aware'')), db)
     | Some row \<Rightarrow>
         if \<not> dt_aware now then (Inl (H11AutoPersistenceError ''timestamp must be timezone-aware''), db)
         else if ac_attempt_count row \<noteq> 0
         then (Inl (H11AutoPersistenceError ''second attempt refused''), db)
         else if ac_state row \<noteq> INTENT_PERSISTED
         then (Inl (H11AutoStateError (''transition refused: '' @ auto_state_value (ac_state row) @ '' -> ''
            @ auto_state_value PROTECTED_ENTRY_PENDING)), db)
         else (Inr (auto_attempt_row now row),
           auto_commit i (auto_attempt_row now) ''ENTRY_ATTEMPT_STARTED_SYNTHETIC'' PROTECTED_ENTRY_PENDING db))"
proof (cases "auto_find i db")
  case None
  then show ?thesis by (simp add: auto_record_attempt_started_def run_progs auto_timestamp_def)
next
  case (Some row)
  have chain: "auto_chain (adb_events db)" and keys: "auto_keys db"
    using inv by (simp_all add: auto_store_inv_def)
  note app = auto_commit_run [OF chain Some, where f = "auto_attempt_row now", simplified]
  note upd = guarded_update [OF keys Some, where k = ac_attempt_count]
  have "auto_find i (auto_commit i (auto_attempt_row now) cat st db) = Some (auto_attempt_row now row)" for cat st
    using Some by (simp add: auto_find_commit)
  moreover have "PROTECTED_ENTRY_PENDING \<in> set (auto_allowed s) \<longleftrightarrow> s = INTENT_PERSISTED" for s
    by (cases s) simp_all
  ultimately show ?thesis using Some app upd
    by (simp add: auto_record_attempt_started_def run_progs auto_timestamp_def require_transition_def
        auto_update_where_def auto_load_cycle_def)
qed

lemma auto_exit_run:
  assumes inv: "auto_store_inv db"
  shows "auto_record_exit_attempt_started i now db =
    (case auto_find i db of
       None \<Rightarrow> (Inl (H11AutoPersistenceError (if dt_aware now then ''cycle not found''
                 else ''timestamp must be timezone-aware'')), db)
     | Some row \<Rightarrow>
         if \<not> dt_aware now then (Inl (H11AutoPersistenceError ''timestamp must be timezone-aware''), db)
         else if ac_exit_attempt_count row \<noteq> 0
         then (Inl (H11AutoPersistenceError ''second exit attempt refused''), db)
         else if ac_state row \<noteq> AUTO_POSITION_PROTECTED
         then (Inl (H11AutoStateError (''transition refused: '' @ auto_state_value (ac_state row) @ '' -> ''
            @ auto_state_value EXIT_PENDING)), db)
         else (Inr (auto_exit_row now row),
           auto_commit i (auto_exit_row now) ''EXIT_ATTEMPT_STARTED_SYNTHETIC'' EXIT_PENDING db))"
proof (cases "auto_find i db")
  case None
  then show ?thesis by (simp add: auto_record_exit_attempt_started_def run_progs auto_timestamp_def)
next
  case (Some row)
  have chain: "auto_chain (adb_events db)" and keys: "auto_keys db"
    using inv by (simp_all add: auto_store_inv_def)
  note app = auto_commit_run [OF chain Some, where f = "auto_exit_row now", simplified]
  note upd = guarded_update [OF keys Some, where k = ac_exit_attempt_count]
  have "auto_find i (auto_commit i (auto_exit_row now) cat st db) = Some (auto_exit_row now row)" for cat st
    using Some by (simp add: auto_find_commit)
  moreover have "EXIT_PENDING \<in> set (auto_allowed s) \<longleftrightarrow> s = AUTO_POSITION_PROTECTED" for s
    by (cases s) simp_all
  ultimately show ?thesis using Some app upd
    by (simp add: auto_record_exit_attempt_started_def run_progs auto_timestamp_def require_transition_def
        auto_update_where_def auto_load_cycle_def)
qed


lemma auto_create_run:
  assumes inv: "auto_store_inv db"
  shows "auto_create_intent signal policy now db =
    (case build_intent_id signal policy of
       Inl e \<Rightarrow> (Inl e, db)
     | Inr i \<Rightarrow>
         if \<not> dt_aware now then (Inl (H11AutoPersistenceError ''timestamp must be timezone-aware''), db)
         else if auto_active_intent_count db \<noteq> 0
         then (Inl (H11AutoPersistenceError ''an active cycle already exists''), db)
         else if auto_halt_latched db
         then (Inl (H11AutoPersistenceError ''operator review halt is latched''), db)
         else if auto_find i db \<noteq> None \<or> signal_fingerprint signal \<in> ac_fingerprint ` set (adb_cycles db)
         then (Inl (H11AutoPersistenceError ''duplicate signal intent refused''), db)
         else (Inr (auto_new_cycle signal i now), auto_add_cycle (auto_new_cycle signal i now) db))"
proof (cases "build_intent_id signal policy")
  case (Inl e)
  then show ?thesis by (simp add: auto_create_intent_def run_progs)
next
  case (Inr i)
  let ?c = "auto_new_cycle signal i now"
  let ?db1 = "db\<lparr>adb_cycles := adb_cycles db @ [?c]\<rparr>"
  have chain: "auto_chain (adb_events db)" using inv by (simp add: auto_store_inv_def)
  have c: "ac_intent_id ?c = i" "ac_fingerprint ?c = signal_fingerprint signal"
    "ac_attempt_count ?c = 0" "ac_exit_attempt_count ?c = 0"
    by (simp_all add: auto_new_cycle_def)
  have act: "select_one (\<lambda>c. auto_active (ac_state c)) (adb_cycles db) = None \<longleftrightarrow> auto_active_intent_count db = 0"
    by (simp add: select_one_None auto_active_intent_count_def count_rows_zero)
  have "auto_find i ?db1 \<noteq> None" using c by (auto simp: auto_find_def select_one_None)
  then have app: "auto_append_event i ''INTENT_PERSISTED'' INTENT_PERSISTED ?db1 = (Inr (), auto_add_cycle ?c db)"
    using auto_append_run [of ?db1 i] chain c
    by (simp add: auto_add_cycle_def auto_next_event_def auto_events_in_order_def)
  have dup: "list_ex (\<lambda>r. ac_intent_id r = i \<or> ac_fingerprint r = signal_fingerprint signal) (adb_cycles db)
      \<longleftrightarrow> auto_find i db \<noteq> None \<or> signal_fingerprint signal \<in> ac_fingerprint ` set (adb_cycles db)"
    unfolding auto_find_None not_not by (fastforce simp: list_ex_iff image_iff)
  have found: "auto_find i (auto_add_cycle ?c db) = Some ?c" if "auto_find i db = None"
    using that c by (simp add: auto_find_def select_one_append) (simp add: select_one_def)
  have ins: "auto_insert_cycle ?c db = (if auto_find i db \<noteq> None \<or> signal_fingerprint signal \<in> ac_fingerprint ` set (adb_cycles db)
      then (Inl SqliteIntegrityError, db) else (Inr (), ?db1))"
    using dup c by (simp add: auto_insert_cycle_def)
  show ?thesis
    using Inr app found ins act
    by (auto simp: auto_create_intent_def run_progs auto_timestamp_def auto_load_cycle_def
        auto_halt_latched_def)
qed

section \<open>Preservation\<close>

lemma auto_journal_label_snoc:
  "auto_journal_label r (es @ [e]) = (if r = ae_intent_id e then Some (ae_state_label e) else auto_journal_label r es)"
  by (simp add: auto_journal_label_def)

lemma auto_journal_count_snoc:
  "auto_journal_count r k (es @ [e]) =
     auto_journal_count r k es + (if ae_intent_id e = r \<and> ae_category e = k then 1 else 0)"
  by (simp add: auto_journal_count_def count_rows_Cons)

lemma auto_journal_unknown:
  assumes "i \<notin> ae_intent_id ` set es"
  shows "auto_journal_count i k es = 0"
  using assms by (auto simp: auto_journal_count_def count_rows_zero)

lemma auto_chain_commit:
  "auto_chain (adb_events db) \<Longrightarrow> auto_chain (adb_events db @ [auto_next_event db i cat st])"
  using auto_j.chain_extend [of "adb_events db"] auto_events_in_order_chain [of db]
  by (simp add: auto_next_event_def)

lemma auto_commit_inv:
  assumes inv: "auto_store_inv db" and row: "auto_find i db = Some row"
    and key: "\<And>c. ac_intent_id (f c) = ac_intent_id c" "\<And>c. ac_fingerprint (f c) = ac_fingerprint c"
    and ok: "auto_row_ok (f row)" and state: "ac_state (f row) = st"
    and entry: "ac_attempt_count (f row) =
      ac_attempt_count row + (if cat = ''ENTRY_ATTEMPT_STARTED_SYNTHETIC'' then 1 else 0)"
    and exit: "ac_exit_attempt_count (f row) =
      ac_exit_attempt_count row + (if cat = ''EXIT_ATTEMPT_STARTED_SYNTHETIC'' then 1 else 0)"
  shows "auto_store_inv (auto_commit i f cat st db)"
proof -
  let ?db = "auto_commit i f cat st db"
  have keys: "auto_keys db" and chain: "auto_chain (adb_events db)"
    and rows: "\<And>c. c \<in> set (adb_cycles db) \<Longrightarrow> auto_row_ok c \<and> auto_journal_agrees c (adb_events db)"
    using inv by (simp_all add: auto_store_inv_def)
  have mem: "row \<in> set (adb_cycles db)" "ac_intent_id row = i" using auto_find_Some [OF row] by simp_all
  have "map ac_intent_id (adb_cycles ?db) = map ac_intent_id (adb_cycles db)"
    by (simp add: map_update_rows_key [where k = ac_intent_id, OF key(1)])
  then have ids: "ac_intent_id ` set (adb_cycles ?db) = ac_intent_id ` set (adb_cycles db)"
    by (metis set_map)
  have "auto_keys ?db"
    using keys mem ids unfolding auto_keys_def
    by (auto simp: map_update_rows_key [where k = ac_intent_id, OF key(1)]
        map_update_rows_key [where k = ac_fingerprint, OF key(2)])
  moreover have "auto_row_ok c \<and> auto_journal_agrees c (adb_events ?db)" if c: "c \<in> set (adb_cycles ?db)" for c
  proof -
    obtain c0 where c0: "c0 \<in> set (adb_cycles db)" "c = (if ac_intent_id c0 = i then f c0 else c0)"
      using c by (auto simp: set_update_rows)
    show ?thesis
    proof (cases "ac_intent_id c0 = i")
      case True
      then have "c0 = row" using auto_find_unique [OF keys row c0(1)] by simp
      with True c0 rows [OF mem(1)] mem ok state entry exit key show ?thesis
        by (auto simp: auto_journal_agrees_def auto_journal_label_snoc auto_journal_count_snoc)
    next
      case False
      with c0 rows [OF c0(1)] show ?thesis
        by (simp add: auto_journal_agrees_def auto_journal_label_snoc auto_journal_count_snoc)
    qed
  qed
  ultimately show ?thesis using auto_chain_commit [OF chain] by (simp add: auto_store_inv_def)
qed

lemma build_intent_id_row_ok:
  "build_intent_id signal policy = Inr i \<Longrightarrow> auto_row_ok (auto_new_cycle signal i now)"
  by (auto dest: build_intent_id_hex simp: auto_row_ok_def auto_new_cycle_def)

lemma auto_add_inv:
  assumes inv: "auto_store_inv db" and ok: "auto_row_ok c" and st: "ac_state c = INTENT_PERSISTED"
    and fresh: "auto_find (ac_intent_id c) db = None" "ac_fingerprint c \<notin> ac_fingerprint ` set (adb_cycles db)"
  shows "auto_store_inv (auto_add_cycle c db)"
proof -
  have keys: "auto_keys db" and chain: "auto_chain (adb_events db)"
    using inv by (simp_all add: auto_store_inv_def)
  have new: "ac_intent_id c \<notin> ac_intent_id ` set (adb_cycles db)" using fresh by (simp add: auto_find_None)
  then have "ac_intent_id c \<notin> ae_intent_id ` set (adb_events db)"
    using keys by (auto simp: auto_keys_def)
  note zero = auto_journal_unknown [OF this]
  have "ac_attempt_count c = 0 \<and> ac_exit_attempt_count c = 0" using ok st by (simp add: auto_row_ok_def)
  then have "auto_journal_agrees c (adb_events (auto_add_cycle c db))"
    using zero st by (simp add: auto_journal_agrees_def auto_journal_label_snoc auto_journal_count_snoc)
  moreover have "auto_journal_agrees c' (adb_events (auto_add_cycle c db))"
    if "c' \<in> set (adb_cycles db)" "auto_journal_agrees c' (adb_events db)" for c'
  proof -
    have "ac_intent_id c' \<noteq> ac_intent_id c" using that(1) new by (metis imageI)
    with that(2) show ?thesis
      by (simp add: auto_journal_agrees_def auto_journal_label_snoc auto_journal_count_snoc)
  qed
  ultimately show ?thesis
    using inv keys ok fresh new auto_chain_commit [OF chain]
    by (auto simp: auto_store_inv_def auto_keys_def)
qed

text \<open>What the engine passes to \<open>transition\<close>.\<close>

definition engine_transition :: "auto_state \<Rightarrow> string \<Rightarrow> string option \<Rightarrow> bool" where
  "engine_transition target category halt \<longleftrightarrow>
     target \<in> {AUTO_POSITION_PROTECTED, AUTO_FLAT_RECONCILED, AUTO_HALTED}
     \<and> (target = AUTO_HALTED \<longleftrightarrow> halt \<noteq> None)
     \<and> category \<noteq> ''ENTRY_ATTEMPT_STARTED_SYNTHETIC'' \<and> category \<noteq> ''EXIT_ATTEMPT_STARTED_SYNTHETIC''"

lemma auto_transition_row_ok:
  assumes "auto_row_ok row" and "engine_transition target category halt" and "target \<in> set (auto_allowed (ac_state row))"
    and "\<not> (target = AUTO_HALTED \<and> (halt = None \<or> halt = Some []))"
  shows "auto_row_ok (auto_transition_row target now halt row)"
  using assms by (cases "ac_state row")
    (auto simp: auto_row_ok_def auto_transition_row_def engine_transition_def)

lemma auto_transition_inv:
  assumes inv: "auto_store_inv db" and engine: "engine_transition target category halt"
    and run: "auto_transition i target category now halt db = (r, db')"
  shows "auto_store_inv db'"
proof -
  have "auto_store_inv (auto_commit i (auto_transition_row target now halt) category target db)"
    if row: "auto_find i db = Some row" and "target \<in> set (auto_allowed (ac_state row))"
      and "\<not> (target = AUTO_HALTED \<and> (halt = None \<or> halt = Some []))" for row
    using that auto_find_Some [OF row] inv engine auto_transition_row_ok [of row target category halt now]
    by (intro auto_commit_inv [OF inv row])
       (auto simp: auto_store_inv_def engine_transition_def auto_transition_row_def)
  then show ?thesis
    using run inv by (auto simp: auto_transition_run [OF inv] split: option.splits if_splits)
qed

lemma auto_attempt_inv:
  assumes inv: "auto_store_inv db" and run: "auto_record_attempt_started i now db = (r, db')"
  shows "auto_store_inv db'"
proof -
  have "auto_store_inv (auto_commit i (auto_attempt_row now) ''ENTRY_ATTEMPT_STARTED_SYNTHETIC'' PROTECTED_ENTRY_PENDING db)"
    if row: "auto_find i db = Some row" and "ac_state row = INTENT_PERSISTED" for row
    using that auto_find_Some [OF row] inv
    by (intro auto_commit_inv [OF inv row]) (auto simp: auto_store_inv_def auto_attempt_row_def auto_row_ok_def)
  then show ?thesis
    using run inv by (auto simp: auto_attempt_run [OF inv] split: option.splits if_splits)
qed

lemma auto_exit_inv:
  assumes inv: "auto_store_inv db" and run: "auto_record_exit_attempt_started i now db = (r, db')"
  shows "auto_store_inv db'"
proof -
  have "auto_store_inv (auto_commit i (auto_exit_row now) ''EXIT_ATTEMPT_STARTED_SYNTHETIC'' EXIT_PENDING db)"
    if row: "auto_find i db = Some row" and "ac_state row = AUTO_POSITION_PROTECTED" for row
    using that auto_find_Some [OF row] inv
    by (intro auto_commit_inv [OF inv row]) (auto simp: auto_store_inv_def auto_exit_row_def auto_row_ok_def)
  then show ?thesis
    using run inv by (auto simp: auto_exit_run [OF inv] split: option.splits if_splits)
qed

lemma auto_create_inv:
  assumes inv: "auto_store_inv db" and run: "auto_create_intent signal policy now db = (r, db')"
  shows "auto_store_inv db'"
proof -
  have "auto_store_inv (auto_add_cycle (auto_new_cycle signal i now) db)"
    if "build_intent_id signal policy = Inr i" and "auto_find i db = None"
      and "signal_fingerprint signal \<notin> ac_fingerprint ` set (adb_cycles db)" for i
    using that build_intent_id_row_ok by (intro auto_add_inv [OF inv]) (auto simp: auto_new_cycle_def)
  then show ?thesis
    using run inv by (auto simp: auto_create_run [OF inv] split: sum.splits if_splits)
qed

lemma auto_empty_inv: "auto_store_inv auto_empty_db"
  by (simp add: auto_store_inv_def auto_keys_def auto_empty_db_def)

lemma auto_metadata_inv: "auto_store_inv (db\<lparr>adb_metadata := m\<rparr>) \<longleftrightarrow> auto_store_inv db"
  by (simp add: auto_store_inv_def auto_keys_def)

section \<open>Verification\<close>

lemma auto_verify_events_eq:
  "auto_verify_events n p es =
     (if chain_ok ae_sequence ae_previous ae_digest auto_expected_digest n p es then Inr ()
      else Inl (H11AutoPersistenceError ''safe journal verification failed''))"
  by (induction es arbitrary: n p) auto

lemma auto_verify_journal_eq:
  "auto_verify_journal db =
    (if auto_chain (auto_events_in_order db)
     then Inr \<lparr>ajs_valid = True, ajs_event_count = length (adb_events db),
       ajs_final_state = (if adb_events db = [] then ''EMPTY'' else ae_state_label (last (auto_events_in_order db)))\<rparr>
     else Inl (H11AutoPersistenceError ''safe journal verification failed''))"
proof -
  have "sort_key ae_sequence (adb_events db) = [] \<longleftrightarrow> adb_events db = []"
    by (metis length_0_conv length_sort)
  then show ?thesis
    by (auto simp: auto_verify_journal_def auto_verify_events_eq auto_events_in_order_def Let_def)
qed

end
