(* ===== verification/Auto_Engine_Proof.thy ===== *)
theory Auto_Engine_Proof
  imports Auto_Engine Auto_Store_Inv
begin

text \<open>
  The invariant of the world of the Phase A engine, and one triple per step and per method: which
  row the method leaves behind, which result it returns, that the invariant survives every
  exception and which exceptions there are.
\<close>

section \<open>The invariant\<close>

text \<open>
  What stays fixed while an engine runs: whether the process is not stopped, the intents sent by
  earlier engines, the answers of the senders and of the notifier.
\<close>

record auto_env =
  en_sound :: bool
  en_sent :: "string list"
  en_exits :: "string list"
  en_entry :: "entry_outcome option"
  en_exit :: "exit_outcome option"
  en_accepts :: "notification \<Rightarrow> bool"

text \<open>No cycle but \<open>i\<close> is active or halted.\<close>

definition auto_busy :: "auto_state \<Rightarrow> bool" where
  "auto_busy s \<longleftrightarrow> auto_active s \<or> s = AUTO_HALTED"

definition auto_alone :: "string \<Rightarrow> auto_db \<Rightarrow> bool" where
  "auto_alone i db \<longleftrightarrow> (\<forall>c \<in> set (adb_cycles db). auto_busy (ac_state c) \<longrightarrow> ac_intent_id c = i)"

text \<open>At most one entry attempt on a JST day.\<close>

definition auto_daily :: "auto_db \<Rightarrow> bool" where
  "auto_daily db \<longleftrightarrow> (\<forall>c \<in> set (adb_cycles db). \<forall>d \<in> set (adb_cycles db).
     ac_entry_day c = ac_entry_day d \<and> ac_entry_day c \<noteq> None \<longrightarrow> ac_intent_id c = ac_intent_id d)"

definition auto_no_entry_on :: "string \<Rightarrow> auto_db \<Rightarrow> bool" where
  "auto_no_entry_on day db \<longleftrightarrow> (\<forall>c \<in> set (adb_cycles db). ac_entry_day c \<noteq> Some day)"

text \<open>Every intent handed to a sender has its attempt recorded, and none was handed over twice.\<close>

definition auto_sent_ok :: "(auto_cycle \<Rightarrow> int) \<Rightarrow> string list \<Rightarrow> auto_db \<Rightarrow> bool" where
  "auto_sent_ok counter is db \<longleftrightarrow> distinct is
     \<and> (\<forall>i \<in> set is. \<exists>c. auto_find i db = Some c \<and> counter c = 1)"

definition auto_senders_ok :: "auto_env \<Rightarrow> auto_world \<Rightarrow> bool" where
  "auto_senders_ok env w \<longleftrightarrow>
     x_marks (aw_sender w) = (True, False, 0) \<and> x_outcome (aw_sender w) = en_entry env
     \<and> x_marks (aw_exit_sender w) = (True, False, 0) \<and> x_outcome (aw_exit_sender w) = en_exit env
     \<and> n_accepts (aw_notifier w) = en_accepts env
     \<and> (en_sound env \<longrightarrow> aw_interrupt w = None)"

definition auto_ledger_ok :: "string list \<Rightarrow> string list \<Rightarrow> auto_db \<Rightarrow> bool" where
  "auto_ledger_ok sent exits db \<longleftrightarrow> auto_store_inv db \<and> auto_daily db
     \<and> auto_sent_ok ac_attempt_count sent db \<and> auto_sent_ok ac_exit_attempt_count exits db"

definition auto_world_inv :: "auto_env \<Rightarrow> auto_world \<Rightarrow> bool" where
  "auto_world_inv env w \<longleftrightarrow> auto_senders_ok env w \<and> (\<exists>i. auto_alone i (aw_store w))
     \<and> auto_ledger_ok (en_sent env @ x_calls (aw_sender w)) (en_exits env @ x_calls (aw_exit_sender w)) (aw_store w)"

definition auto_holds :: "auto_env \<Rightarrow> auto_cycle \<Rightarrow> auto_world \<Rightarrow> bool" where
  "auto_holds env c w \<longleftrightarrow> auto_world_inv env w \<and> auto_find (ac_intent_id c) (aw_store w) = Some c
     \<and> auto_alone (ac_intent_id c) (aw_store w)"

abbreviation auto_exc :: "auto_env \<Rightarrow> py_exn \<Rightarrow> auto_world \<Rightarrow> bool" where
  "auto_exc env \<equiv> \<lambda>e w. auto_world_inv env w \<and> \<not> en_sound env \<and> e = KeyboardInterrupt"

section \<open>Updates of one row\<close>

lemma auto_alone_commit:
  assumes "auto_alone i db" and "\<And>c. ac_intent_id (f c) = ac_intent_id c"
  shows "auto_alone i (auto_commit i f cat st db)"
  using assms by (auto simp: auto_alone_def set_update_rows split: if_splits)

lemma auto_sent_commit:
  assumes "auto_sent_ok counter is db" and "\<And>c. ac_intent_id (f c) = ac_intent_id c"
    and "\<And>c. auto_find i db = Some c \<Longrightarrow> counter c = 1 \<Longrightarrow> counter (f c) = 1"
  shows "auto_sent_ok counter is (auto_commit i f cat st db)"
  using assms by (fastforce simp: auto_sent_ok_def auto_find_commit)

lemma auto_daily_commit:
  assumes "auto_keys db" and "auto_daily db" and row: "auto_find i db = Some row"
    and key: "\<And>c. ac_intent_id (f c) = ac_intent_id c"
    and day: "ac_entry_day (f row) = ac_entry_day row
      \<or> (\<exists>d. ac_entry_day (f row) = Some d \<and> auto_no_entry_on d db)"
  shows "auto_daily (auto_commit i f cat st db)"
proof -
  have "\<exists>c0 \<in> set (adb_cycles db). c = (if c0 = row then f row else c0) \<and> ac_intent_id c = ac_intent_id c0"
    if "c \<in> set (adb_cycles (auto_commit i f cat st db))" for c
    using that auto_find_unique [OF assms(1) row] auto_find_Some [OF row] key
    by (fastforce simp: set_update_rows)
  then show ?thesis
    using assms(2) day unfolding auto_daily_def auto_no_entry_on_def by (smt (verit, best))
qed

text \<open>The ledger after a commit of the row of \<open>c\<close>.\<close>

lemma auto_ledger_commit:
  assumes ledger: "auto_ledger_ok sent exits db" and row: "auto_find i db = Some row"
    and inv: "auto_store_inv (auto_commit i f cat st db)"
    and key: "\<And>c. ac_intent_id (f c) = ac_intent_id c"
    and counts: "ac_attempt_count row = 1 \<Longrightarrow> ac_attempt_count (f row) = 1"
      "ac_exit_attempt_count row = 1 \<Longrightarrow> ac_exit_attempt_count (f row) = 1"
    and day: "ac_entry_day (f row) = ac_entry_day row
      \<or> (\<exists>d. ac_entry_day (f row) = Some d \<and> auto_no_entry_on d db)"
  shows "auto_ledger_ok sent exits (auto_commit i f cat st db)"
proof -
  have "auto_keys db" using ledger by (simp add: auto_ledger_ok_def auto_store_inv_def)
  then show ?thesis
    using assms auto_daily_commit [OF _ _ row key day]
    by (auto simp: auto_ledger_ok_def intro!: auto_sent_commit)
qed

lemma auto_ledger_fresh:
  assumes "auto_ledger_ok sent exits db" and "auto_find i db = Some c"
  shows "ac_attempt_count c = 0 \<Longrightarrow> i \<notin> set sent" and "ac_exit_attempt_count c = 0 \<Longrightarrow> i \<notin> set exits"
  using assms by (force simp: auto_ledger_ok_def auto_sent_ok_def)+

lemma auto_holds_facts:
  assumes "auto_holds env c w"
  shows "auto_store_inv (aw_store w)" "auto_find (ac_intent_id c) (aw_store w) = Some c" "auto_row_ok c"
    and "auto_ledger_ok (en_sent env @ x_calls (aw_sender w)) (en_exits env @ x_calls (aw_exit_sender w)) (aw_store w)"
    and "auto_alone (ac_intent_id c) (aw_store w)" "auto_senders_ok env w"
proof -
  show inv: "auto_store_inv (aw_store w)" and find: "auto_find (ac_intent_id c) (aw_store w) = Some c"
    using assms by (simp_all add: auto_holds_def auto_world_inv_def auto_ledger_ok_def)
  then show "auto_row_ok c" using auto_find_Some [OF find] by (simp add: auto_store_inv_def)
qed (use assms in \<open>simp_all add: auto_holds_def auto_world_inv_def\<close>)

section \<open>Primitive steps\<close>

lemma auto_inv_count:
  "auto_world_inv env w \<Longrightarrow> aw_interrupt w = Some i \<Longrightarrow> auto_world_inv env (w\<lparr>aw_interrupt := Some j\<rparr>)"
  "auto_holds env c w \<Longrightarrow> aw_interrupt w = Some i \<Longrightarrow> auto_holds env c (w\<lparr>aw_interrupt := Some j\<rparr>)"
  by (auto simp: auto_holds_def auto_world_inv_def auto_senders_ok_def)

lemma auto_inv_stopped: "auto_world_inv env w \<Longrightarrow> aw_interrupt w = Some i \<Longrightarrow> \<not> en_sound env"
  by (auto simp: auto_world_inv_def auto_senders_ok_def)

text \<open>A step behind a checkpoint.\<close>

lemma auto_checkpoint_triple:
  assumes "\<And>w i j. P w \<Longrightarrow> aw_interrupt w = Some i \<Longrightarrow> P (w\<lparr>aw_interrupt := Some j\<rparr>)"
    and "\<And>w i. P w \<Longrightarrow> aw_interrupt w = Some i \<Longrightarrow> E KeyboardInterrupt w"
    and "triple P m Q E"
  shows "triple P (thenE auto_checkpoint m) Q E"
proof (rule triple_then [OF _ assms(3)])
  show "triple P auto_checkpoint (\<lambda>_. P) E"
    using assms(1,2) by (auto simp: triple_def auto_checkpoint_def split: option.splits nat.splits)
qed

lemma at_store_triple:
  assumes "\<And>w. P w \<Longrightarrow> auto_world_inv env w"
    and "\<And>w i j. P w \<Longrightarrow> aw_interrupt w = Some i \<Longrightarrow> P (w\<lparr>aw_interrupt := Some j\<rparr>)"
    and "\<And>w. P w \<Longrightarrow> case m (aw_store w) of (Inr x, s) \<Rightarrow> Q x (w\<lparr>aw_store := s\<rparr>)
        | (Inl e, s) \<Rightarrow> E e (w\<lparr>aw_store := s\<rparr>)"
    and "\<And>w. auto_world_inv env w \<Longrightarrow> \<not> en_sound env \<Longrightarrow> E KeyboardInterrupt w"
  shows "triple P (at_store m) Q E"
  unfolding at_store_def
proof (rule auto_checkpoint_triple)
  show "E KeyboardInterrupt w" if "P w" "aw_interrupt w = Some i" for w i
    using assms(1,4) auto_inv_stopped that by blast
  show "triple P (zoomE aw_store (\<lambda>s w. w\<lparr>aw_store := s\<rparr>) m) Q E"
    by (rule tripleI) (use assms(3) in \<open>fastforce simp: run_zoom split: prod.splits\<close>)+
qed (rule assms(2))

text \<open>A transition of the engine.\<close>

lemma auto_move_step:
  assumes engine: "engine_transition target category halt" and allowed: "target \<in> set (auto_allowed (ac_state c))"
    and halt: "halt \<noteq> Some []" and now: "dt_aware now"
  shows "triple (auto_holds env c) (at_store (auto_transition (ac_intent_id c) target category now halt))
    (\<lambda>x w. x = auto_transition_row target now halt c \<and> auto_holds env (auto_transition_row target now halt c) w)
    (auto_exc env)"
proof (rule at_store_triple, goal_cases)
  case (3 w)
  let ?f = "auto_transition_row target now halt"
  let ?db = "auto_commit (ac_intent_id c) ?f category target (aw_store w)"
  note facts = auto_holds_facts [OF 3]
  have run: "auto_transition (ac_intent_id c) target category now halt (aw_store w) = (Inr (?f c), ?db)"
    using facts allowed now halt engine
    by (auto simp: auto_transition_run [OF facts(1)] engine_transition_def)
  have inv: "auto_store_inv ?db" by (rule auto_transition_inv [OF facts(1) engine run])
  have "auto_ledger_ok (en_sent env @ x_calls (aw_sender w)) (en_exits env @ x_calls (aw_exit_sender w)) ?db"
    by (rule auto_ledger_commit [OF facts(4,2) inv]) (simp_all add: auto_transition_row_def)
  moreover have "auto_find (ac_intent_id c) ?db = Some (?f c)"
    using facts(2) by (simp add: auto_find_commit)
  moreover have "auto_alone (ac_intent_id c) ?db" using facts(5) by (intro auto_alone_commit) simp_all
  ultimately show ?case
    using facts(6) run by (auto simp: auto_holds_def auto_world_inv_def auto_senders_ok_def)
qed (auto simp: auto_holds_def auto_inv_count [unfolded auto_holds_def])

text \<open>Recording an attempt: the intent has not been sent before.\<close>

lemma auto_attempt_step:
  assumes st: "ac_state c = INTENT_PERSISTED" and now: "dt_aware now"
  shows "triple (\<lambda>w. auto_holds env c w \<and> auto_no_entry_on (jst_day now) (aw_store w))
    (at_store (auto_record_attempt_started (ac_intent_id c) now))
    (\<lambda>x w. x = auto_attempt_row now c \<and> auto_holds env (auto_attempt_row now c) w
       \<and> ac_intent_id c \<notin> set (en_sent env @ x_calls (aw_sender w)))
    (auto_exc env)"
proof (rule at_store_triple, goal_cases)
  case (3 w)
  let ?db = "auto_commit (ac_intent_id c) (auto_attempt_row now) ''ENTRY_ATTEMPT_STARTED_SYNTHETIC''
    PROTECTED_ENTRY_PENDING (aw_store w)"
  from 3 have h: "auto_holds env c w" and free: "auto_no_entry_on (jst_day now) (aw_store w)" by simp_all
  note facts = auto_holds_facts [OF h]
  have zero: "ac_attempt_count c = 0" using facts(3) st by (simp add: auto_row_ok_def)
  have run: "auto_record_attempt_started (ac_intent_id c) now (aw_store w) = (Inr (auto_attempt_row now c), ?db)"
    using facts now st zero by (auto simp: auto_attempt_run [OF facts(1)])
  have inv: "auto_store_inv ?db" by (rule auto_attempt_inv [OF facts(1) run])
  have "auto_ledger_ok (en_sent env @ x_calls (aw_sender w)) (en_exits env @ x_calls (aw_exit_sender w)) ?db"
    by (rule auto_ledger_commit [OF facts(4,2) inv]) (use free in \<open>simp_all add: auto_attempt_row_def\<close>)
  moreover have "auto_find (ac_intent_id c) ?db = Some (auto_attempt_row now c)"
    using facts(2) by (simp add: auto_find_commit)
  moreover have "auto_alone (ac_intent_id c) ?db" using facts(5) by (intro auto_alone_commit) simp_all
  ultimately show ?case
    using facts(6) run auto_ledger_fresh(1) [OF facts(4,2) zero]
    by (auto simp: auto_holds_def auto_world_inv_def auto_senders_ok_def)
qed (auto simp: auto_holds_def auto_inv_count [unfolded auto_holds_def])


lemma auto_exit_step:
  assumes st: "ac_state c = AUTO_POSITION_PROTECTED" and now: "dt_aware now"
  shows "triple (auto_holds env c)
    (at_store (auto_record_exit_attempt_started (ac_intent_id c) now))
    (\<lambda>x w. x = auto_exit_row now c \<and> auto_holds env (auto_exit_row now c) w
       \<and> ac_intent_id c \<notin> set (en_exits env @ x_calls (aw_exit_sender w)))
    (auto_exc env)"
proof (rule at_store_triple, goal_cases)
  case (3 w)
  let ?db = "auto_commit (ac_intent_id c) (auto_exit_row now) ''EXIT_ATTEMPT_STARTED_SYNTHETIC''
    EXIT_PENDING (aw_store w)"
  note facts = auto_holds_facts [OF 3]
  have zero: "ac_exit_attempt_count c = 0" using facts(3) st by (simp add: auto_row_ok_def)
  have run: "auto_record_exit_attempt_started (ac_intent_id c) now (aw_store w) = (Inr (auto_exit_row now c), ?db)"
    using facts now st zero by (auto simp: auto_exit_run [OF facts(1)])
  have inv: "auto_store_inv ?db" by (rule auto_exit_inv [OF facts(1) run])
  have "auto_ledger_ok (en_sent env @ x_calls (aw_sender w)) (en_exits env @ x_calls (aw_exit_sender w)) ?db"
    by (rule auto_ledger_commit [OF facts(4,2) inv]) (simp_all add: auto_exit_row_def)
  moreover have "auto_find (ac_intent_id c) ?db = Some (auto_exit_row now c)"
    using facts(2) by (simp add: auto_find_commit)
  moreover have "auto_alone (ac_intent_id c) ?db" using facts(5) by (intro auto_alone_commit) simp_all
  ultimately show ?case
    using facts(6) run auto_ledger_fresh(2) [OF facts(4,2) zero]
    by (auto simp: auto_holds_def auto_world_inv_def auto_senders_ok_def)
qed (auto simp: auto_holds_def auto_inv_count [unfolded auto_holds_def])

text \<open>The two senders: an answered call extends the ledger of calls, a refused one changes nothing.\<close>

abbreviation auto_unless_refused :: "('o option) \<Rightarrow> auto_env \<Rightarrow> auto_cycle \<Rightarrow> py_exn \<Rightarrow> auto_world \<Rightarrow> bool" where
  "auto_unless_refused answer env c \<equiv> \<lambda>e w.
     if is_auto_boundary_error e then answer = None \<and> auto_holds env c w else auto_exc env e w"

lemma auto_sent_extend:
  "auto_sent_ok counter is db \<Longrightarrow> i \<notin> set is \<Longrightarrow> auto_find i db = Some c \<Longrightarrow> counter c = 1 \<Longrightarrow>
    auto_sent_ok counter (is @ [i]) db"
  by (auto simp: auto_sent_ok_def)

lemma auto_send_step:
  assumes one: "ac_attempt_count c = 1"
  shows "triple (\<lambda>w. auto_holds env c w \<and> ac_intent_id c \<notin> set (en_sent env @ x_calls (aw_sender w)))
    (at_sender (entry_send_once_synthetic (ac_intent_id c)))
    (\<lambda>out w. en_entry env = Some out \<and> auto_holds env c w)
    (auto_unless_refused (en_entry env) env c)"
  unfolding at_sender_def
proof (rule auto_checkpoint_triple)
  let ?i = "ac_intent_id c"
  have run: "case zoomE aw_sender (\<lambda>s w. w\<lparr>aw_sender := s\<rparr>) (entry_send_once_synthetic ?i) w of
      (Inr out, w') \<Rightarrow> en_entry env = Some out \<and> auto_holds env c w'
    | (Inl e, w') \<Rightarrow> auto_unless_refused (en_entry env) env c e w'"
    if h: "auto_holds env c w" and new: "?i \<notin> set (en_sent env @ x_calls (aw_sender w))" for w
  proof -
    obtain r x where send: "entry_send_once_synthetic ?i (aw_sender w) = (r, x)" "x_outcome x = x_outcome (aw_sender w)"
        "x_marks x = x_marks (aw_sender w)"
      and res: "case x_outcome (aw_sender w) of
          None \<Rightarrow> (\<exists>e. r = Inl e \<and> is_auto_boundary_error e) \<and> x_calls x = x_calls (aw_sender w)
        | Some out \<Rightarrow> r = Inr out \<and> x_calls x = x_calls (aw_sender w) @ [?i]"
      using entry_port.send_run [of ?i "aw_sender w"] by blast
    note facts = auto_holds_facts [OF h]
    have "auto_sent_ok ac_attempt_count ((en_sent env @ x_calls (aw_sender w)) @ [?i]) (aw_store w)"
      using facts(2,4) new one by (intro auto_sent_extend) (auto simp: auto_ledger_ok_def)
    with h res send show ?thesis
      by (auto simp: run_zoom auto_holds_def auto_world_inv_def auto_senders_ok_def auto_ledger_ok_def
          split: option.splits)
  qed
  show "triple (\<lambda>w. auto_holds env c w \<and> ?i \<notin> set (en_sent env @ x_calls (aw_sender w)))
     (zoomE aw_sender (\<lambda>s w. w\<lparr>aw_sender := s\<rparr>) (entry_send_once_synthetic ?i))
     (\<lambda>out w. en_entry env = Some out \<and> auto_holds env c w) (auto_unless_refused (en_entry env) env c)"
    unfolding triple_def by (intro allI impI, elim conjE) (rule run)
qed (auto simp: auto_inv_count is_auto_boundary_error_def auto_holds_def dest: auto_inv_stopped)

lemma auto_exit_send_step:
  assumes one: "ac_exit_attempt_count c = 1"
  shows "triple (\<lambda>w. auto_holds env c w \<and> ac_intent_id c \<notin> set (en_exits env @ x_calls (aw_exit_sender w)))
    (at_exit_sender (exit_send_once_synthetic (ac_intent_id c)))
    (\<lambda>out w. en_exit env = Some out \<and> auto_holds env c w)
    (auto_unless_refused (en_exit env) env c)"
  unfolding at_exit_sender_def
proof (rule auto_checkpoint_triple)
  let ?i = "ac_intent_id c"
  have run: "case zoomE aw_exit_sender (\<lambda>s w. w\<lparr>aw_exit_sender := s\<rparr>) (exit_send_once_synthetic ?i) w of
      (Inr out, w') \<Rightarrow> en_exit env = Some out \<and> auto_holds env c w'
    | (Inl e, w') \<Rightarrow> auto_unless_refused (en_exit env) env c e w'"
    if h: "auto_holds env c w" and new: "?i \<notin> set (en_exits env @ x_calls (aw_exit_sender w))" for w
  proof -
    obtain r x where send: "exit_send_once_synthetic ?i (aw_exit_sender w) = (r, x)"
        "x_outcome x = x_outcome (aw_exit_sender w)" "x_marks x = x_marks (aw_exit_sender w)"
      and res: "case x_outcome (aw_exit_sender w) of
          None \<Rightarrow> (\<exists>e. r = Inl e \<and> is_auto_boundary_error e) \<and> x_calls x = x_calls (aw_exit_sender w)
        | Some out \<Rightarrow> r = Inr out \<and> x_calls x = x_calls (aw_exit_sender w) @ [?i]"
      using exit_port.send_run [of ?i "aw_exit_sender w"] by blast
    note facts = auto_holds_facts [OF h]
    have "auto_sent_ok ac_exit_attempt_count ((en_exits env @ x_calls (aw_exit_sender w)) @ [?i]) (aw_store w)"
      using facts(2,4) new one by (intro auto_sent_extend) (auto simp: auto_ledger_ok_def)
    with h res send show ?thesis
      by (auto simp: run_zoom auto_holds_def auto_world_inv_def auto_senders_ok_def auto_ledger_ok_def
          split: option.splits)
  qed
  show "triple (\<lambda>w. auto_holds env c w \<and> ?i \<notin> set (en_exits env @ x_calls (aw_exit_sender w)))
     (zoomE aw_exit_sender (\<lambda>s w. w\<lparr>aw_exit_sender := s\<rparr>) (exit_send_once_synthetic ?i))
     (\<lambda>out w. en_exit env = Some out \<and> auto_holds env c w) (auto_unless_refused (en_exit env) env c)"
    unfolding triple_def by (intro allI impI, elim conjE) (rule run)
qed (auto simp: auto_inv_count is_auto_boundary_error_def auto_holds_def dest: auto_inv_stopped)

text \<open>A notification, with a further fact about the store.\<close>

lemma auto_notify_step:
  "triple (\<lambda>w. auto_holds env c w \<and> R (aw_store w)) (at_notifier (notify category))
    (\<lambda>b w. b = en_accepts env category \<and> (auto_holds env c w \<and> R (aw_store w))) (auto_exc env)"
  unfolding at_notifier_def
  by (rule auto_checkpoint_triple)
     (auto simp: triple_def run_zoom notify_run auto_inv_count, auto simp: auto_holds_def auto_world_inv_def
       auto_senders_ok_def)

section \<open>Results and halts\<close>

definition auto_report :: "fake_cycle_status \<Rightarrow> auto_cycle \<Rightarrow> string list \<Rightarrow> fake_cycle_result" where
  "auto_report status c reasons = \<lparr>fr_status = status, fr_final_state = Some (ac_state c),
     fr_blocked_reasons = reasons, fr_intent_created = True, fr_attempt_count = ac_attempt_count c,
     fr_exit_attempt_count = ac_exit_attempt_count c, fr_actual_post_count = 0,
     fr_broker_write_performed = False, fr_network_access_performed = False\<rparr>"

text \<open>The outcome of a method: its status, the row it leaves and its reasons.\<close>

type_synonym auto_outcome = "fake_cycle_status \<times> auto_cycle \<times> string list"

definition auto_ends :: "auto_env \<Rightarrow> auto_outcome \<Rightarrow> fake_cycle_result \<Rightarrow> auto_world \<Rightarrow> bool" where
  "auto_ends env out r w \<longleftrightarrow> (case out of (status, c, reasons) \<Rightarrow>
     r = auto_report status c reasons \<and> auto_holds env c w)"

definition auto_halted :: "auto_cycle \<Rightarrow> string \<Rightarrow> datetime \<Rightarrow> auto_outcome" where
  "auto_halted c reason now = (FC_HALTED_SAFE, auto_transition_row AUTO_HALTED now (Some reason) c, [reason])"

lemma auto_result_step:
  "triple (auto_holds env c) (auto_result status c reasons) (auto_ends env (status, c, reasons)) E"
  unfolding auto_result_def
  by (rule triple_get) (auto simp: auto_ends_def auto_report_def auto_holds_def auto_world_inv_def
      auto_senders_ok_def x_marks_def)

lemma auto_halt_step:
  assumes "ac_state c \<notin> {OFF, AUTO_HALTED}" and "reason \<noteq> []" and "dt_aware now"
  shows "triple (auto_holds env c) (auto_halt_after_reason c reason now)
    (auto_ends env (auto_halted c reason now)) (auto_exc env)"
  unfolding auto_halt_after_reason_def auto_halted_def
  by (rule triple_bind_eq, rule auto_move_step)
     (use assms auto_notify_step [where R = "\<lambda>_. True"] in
       \<open>auto simp: engine_transition_def auto_allowed_to_halted intro!: triple_bind_eq auto_result_step\<close>)

end
