(* ===== verification/Auto_Engine_Safety.thy ===== *)
theory Auto_Engine_Safety
  imports Auto_Engine_Proof
begin

text \<open>
  The methods of the Phase A engine: what \<open>run_signal_once_synthetic\<close> and
  \<open>complete_exit_once_synthetic\<close> end with, as functions of the answers of the senders and of the
  notifier, and the worlds that runs, exits, stops and restarts can reach.
\<close>

section \<open>From a persisted intent to its outcome\<close>

text \<open>The reference for \<open>auto_enter\<close>: no store, no sender, only the answers.\<close>

definition auto_entry_spec :: "auto_env \<Rightarrow> auto_cycle \<Rightarrow> datetime \<Rightarrow> auto_outcome" where
  "auto_entry_spec env c now =
    (if \<not> en_accepts env INTENT_RECORDED then auto_halted c ''SYNTHETIC_INTENT_NOTIFICATION_FAILED'' now
     else let c = auto_attempt_row now c in
     case en_entry env of
       None \<Rightarrow> auto_halted c ''SYNTHETIC_BOUNDARY_REFUSED'' now
     | Some ACCEPTED_AND_PROTECTED \<Rightarrow>
         (let c = auto_transition_row AUTO_POSITION_PROTECTED now None c in
          if en_accepts env NOTIFY_POSITION_PROTECTED then (FC_POSITION_PROTECTED_SYNTHETIC, c, [])
          else auto_halted c ''SYNTHETIC_PROTECTED_NOTIFICATION_FAILED'' now)
     | Some out \<Rightarrow> auto_halted c (''SYNTHETIC_'' @ entry_outcome_value out) now)"

definition auto_exit_spec :: "auto_env \<Rightarrow> auto_cycle \<Rightarrow> datetime \<Rightarrow> auto_outcome" where
  "auto_exit_spec env c now =
    (let c = auto_exit_row now c in
     case en_exit env of
       None \<Rightarrow> auto_halted c ''SYNTHETIC_EXIT_BOUNDARY_REFUSED'' now
     | Some ACCEPTED_AND_FLAT \<Rightarrow>
         (let c = auto_transition_row AUTO_FLAT_RECONCILED now None c in
          if en_accepts env NOTIFY_FLAT_RECONCILED then (FC_FLAT_RECONCILED_SYNTHETIC, c, [])
          else auto_halted c ''SYNTHETIC_FLAT_NOTIFICATION_FAILED'' now)
     | Some out \<Rightarrow> auto_halted c (''SYNTHETIC_EXIT_'' @ exit_outcome_value out) now)"

lemma auto_rows_counts [simp]:
  "ac_attempt_count (auto_attempt_row now c) = 1"
  "ac_attempt_count (auto_transition_row t now r c) = ac_attempt_count c"
  "ac_exit_attempt_count (auto_exit_row now c) = 1"
  "ac_exit_attempt_count (auto_transition_row t now r c) = ac_exit_attempt_count c"
  by (simp_all add: auto_attempt_row_def auto_transition_row_def auto_exit_row_def)

lemma auto_end_weaken:
  "triple P m (auto_ends env out) E \<Longrightarrow> out = out' \<Longrightarrow> triple P m (auto_ends env out') E"
  by simp

text \<open>An accepted entry moves on; every other answer halts.\<close>

lemma auto_entered_triple:
  assumes st: "ac_state c = PROTECTED_ENTRY_PENDING" and now: "dt_aware now"
    and rec: "en_accepts env INTENT_RECORDED" and c: "c = auto_attempt_row now c0" and out: "en_entry env = Some out"
  shows "triple (auto_holds env c)
    (if out = ACCEPTED_AND_PROTECTED
     then
       bindE (at_store (auto_transition (ac_intent_id c) AUTO_POSITION_PROTECTED
         ''POSITION_PROTECTED_SYNTHETIC'' now None)) (\<lambda>cycle.
       bindE (at_notifier (notify NOTIFY_POSITION_PROTECTED)) (\<lambda>notified.
       if \<not> notified then auto_halt_after_reason cycle ''SYNTHETIC_PROTECTED_NOTIFICATION_FAILED'' now
       else auto_result FC_POSITION_PROTECTED_SYNTHETIC cycle []))
     else auto_halt_after_outcome c out now)
    (auto_ends env (auto_entry_spec env c0 now)) (auto_exc env)"
proof (cases "out = ACCEPTED_AND_PROTECTED")
  case True
  let ?p = "auto_transition_row AUTO_POSITION_PROTECTED now None c"
  have spec: "auto_entry_spec env c0 now =
      (if en_accepts env NOTIFY_POSITION_PROTECTED then (FC_POSITION_PROTECTED_SYNTHETIC, ?p, [])
       else auto_halted ?p ''SYNTHETIC_PROTECTED_NOTIFICATION_FAILED'' now)"
    using rec out True c by (simp add: auto_entry_spec_def Let_def)
  note notif = auto_notify_step [where R = "\<lambda>_. True", simplified]
  show ?thesis
    unfolding spec using True st now
    by (auto simp: engine_transition_def intro!: triple_bind_eq [OF auto_move_step]
        triple_bind_eq [OF notif] auto_halt_step auto_result_step)
next
  case False
  then have "auto_entry_spec env c0 now = auto_halted c (''SYNTHETIC_'' @ entry_outcome_value out) now"
    using rec out c by (cases out) (simp_all add: auto_entry_spec_def Let_def)
  with False st now show ?thesis
    by (auto simp: auto_halt_after_outcome_def intro: auto_halt_step)
qed

lemma auto_enter_triple:
  assumes st: "ac_state c = INTENT_PERSISTED" and now: "dt_aware now"
  shows "triple (\<lambda>w. auto_holds env c w \<and> auto_no_entry_on (jst_day now) (aw_store w)) (auto_enter c now)
    (auto_ends env (auto_entry_spec env c now)) (auto_exc env)"
  unfolding auto_enter_def
proof (rule triple_bind_eq [OF auto_notify_step [where R = "auto_no_entry_on (jst_day now)"]], goal_cases)
  case 1
  let ?a = "auto_attempt_row now c"
  show ?case
  proof (cases "en_accepts env INTENT_RECORDED")
    case False
    have "triple (auto_holds env c) (auto_halt_after_reason c ''SYNTHETIC_INTENT_NOTIFICATION_FAILED'' now)
        (auto_ends env (auto_entry_spec env c now)) (auto_exc env)"
      using False st now by (intro auto_end_weaken [OF auto_halt_step]) (simp_all add: auto_entry_spec_def)
    with False show ?thesis
      by (simp add: auto_halt_before_attempt_def auto_halt_after_reason_def triple_def)
  next
    case True
    note send = auto_send_step [where c = ?a and env = env, simplified]
    have "triple (\<lambda>w. auto_holds env ?a w \<and> ac_intent_id c \<notin> set (en_sent env @ x_calls (aw_sender w)))
        (try_exceptE (at_sender (entry_send_once_synthetic (ac_intent_id ?a))) is_auto_boundary_error
           (auto_halt_after_reason ?a ''SYNTHETIC_BOUNDARY_REFUSED'' now) (\<lambda>outcome.
         if outcome = ACCEPTED_AND_PROTECTED
         then
           bindE (at_store (auto_transition (ac_intent_id ?a) AUTO_POSITION_PROTECTED
             ''POSITION_PROTECTED_SYNTHETIC'' now None)) (\<lambda>cycle.
           bindE (at_notifier (notify NOTIFY_POSITION_PROTECTED)) (\<lambda>notified.
           if \<not> notified then auto_halt_after_reason cycle ''SYNTHETIC_PROTECTED_NOTIFICATION_FAILED'' now
           else auto_result FC_POSITION_PROTECTED_SYNTHETIC cycle []))
         else auto_halt_after_outcome ?a outcome now))
        (auto_ends env (auto_entry_spec env c now)) (auto_exc env)"
    proof (rule triple_try_except [where H = "\<lambda>w. en_entry env = None \<and> auto_holds env ?a w"
          and R = "\<lambda>out w. en_entry env = Some out \<and> auto_holds env ?a w"], goal_cases)
      case 1
      then show ?case using send by simp
    next
      case 2
      show ?case
        by (rule triple_pure, rule auto_end_weaken [OF auto_halt_step])
           (use True now in \<open>simp_all add: auto_entry_spec_def Let_def\<close>)
    next
      case (3 out)
      show ?case
        by (rule triple_pure, rule auto_entered_triple) (use True now in simp_all)
    qed
    with True st now show ?thesis
      by (auto intro!: triple_bind_eq [OF auto_attempt_step])
  qed
qed

section \<open>Completing an exit\<close>

lemma auto_exited_triple:
  assumes st: "ac_state c = EXIT_PENDING" and now: "dt_aware now"
    and c: "c = auto_exit_row now c0" and i: "i = ac_intent_id c" and out: "en_exit env = Some out"
  shows "triple (auto_holds env c)
    (if out = ACCEPTED_AND_FLAT
     then
       bindE (at_store (auto_transition i AUTO_FLAT_RECONCILED ''FLAT_RECONCILED_SYNTHETIC'' now None))
       (\<lambda>flat.
       bindE (at_notifier (notify NOTIFY_FLAT_RECONCILED)) (\<lambda>notified.
       if \<not> notified then auto_halt_after_reason flat ''SYNTHETIC_FLAT_NOTIFICATION_FAILED'' now
       else auto_result FC_FLAT_RECONCILED_SYNTHETIC flat []))
     else auto_halt_after_reason c (''SYNTHETIC_EXIT_'' @ exit_outcome_value out) now)
    (auto_ends env (auto_exit_spec env c0 now)) (auto_exc env)"
proof (cases "out = ACCEPTED_AND_FLAT")
  case True
  let ?p = "auto_transition_row AUTO_FLAT_RECONCILED now None c"
  have spec: "auto_exit_spec env c0 now =
      (if en_accepts env NOTIFY_FLAT_RECONCILED then (FC_FLAT_RECONCILED_SYNTHETIC, ?p, [])
       else auto_halted ?p ''SYNTHETIC_FLAT_NOTIFICATION_FAILED'' now)"
    using out True c by (simp add: auto_exit_spec_def Let_def)
  note notif = auto_notify_step [where R = "\<lambda>_. True", simplified]
  show ?thesis
    unfolding spec i using True st now
    by (auto simp: engine_transition_def intro!: triple_bind_eq [OF auto_move_step]
        triple_bind_eq [OF notif] auto_halt_step auto_result_step)
next
  case False
  then have "auto_exit_spec env c0 now = auto_halted c (''SYNTHETIC_EXIT_'' @ exit_outcome_value out) now"
    using out c by (cases out) (simp_all add: auto_exit_spec_def Let_def)
  with False st now show ?thesis by (auto intro: auto_halt_step)
qed

lemma auto_complete_exit_triple:
  assumes st: "ac_state c = AUTO_POSITION_PROTECTED" and now: "dt_aware now" and i: "i = ac_intent_id c"
  shows "triple (auto_holds env c) (auto_complete_exit_once_synthetic i now)
    (auto_ends env (auto_exit_spec env c now)) (auto_exc env)"
  unfolding auto_complete_exit_once_synthetic_def i
proof (rule triple_bind_eq [OF auto_exit_step [OF st now]])
  let ?e = "auto_exit_row now c"
  note send = auto_exit_send_step [where c = ?e and env = env, simplified]
  show "triple (\<lambda>w. auto_holds env ?e w \<and> ac_intent_id c \<notin> set (en_exits env @ x_calls (aw_exit_sender w)))
      (try_exceptE (at_exit_sender (exit_send_once_synthetic (ac_intent_id c))) is_auto_boundary_error
       (auto_halt_after_reason ?e ''SYNTHETIC_EXIT_BOUNDARY_REFUSED'' now) (\<lambda>outcome.
     if outcome = ACCEPTED_AND_FLAT
     then
       bindE (at_store (auto_transition (ac_intent_id c) AUTO_FLAT_RECONCILED ''FLAT_RECONCILED_SYNTHETIC'' now None))
       (\<lambda>flat.
       bindE (at_notifier (notify NOTIFY_FLAT_RECONCILED)) (\<lambda>notified.
       if \<not> notified then auto_halt_after_reason flat ''SYNTHETIC_FLAT_NOTIFICATION_FAILED'' now
       else auto_result FC_FLAT_RECONCILED_SYNTHETIC flat []))
     else auto_halt_after_reason ?e (''SYNTHETIC_EXIT_'' @ exit_outcome_value outcome) now))
    (auto_ends env (auto_exit_spec env c now)) (auto_exc env)"
  proof (rule triple_try_except [where H = "\<lambda>w. en_exit env = None \<and> auto_holds env ?e w"
        and R = "\<lambda>out w. en_exit env = Some out \<and> auto_holds env ?e w"], goal_cases)
    case 1
    then show ?case using send by simp
  next
    case 2
    show ?case
      by (rule triple_pure, rule auto_end_weaken [OF auto_halt_step])
         (use now in \<open>simp_all add: auto_exit_spec_def Let_def\<close>)
  next
    case (3 out)
    show ?case
      by (rule triple_pure, rule auto_exited_triple) (use now in simp_all)
  qed
qed


text \<open>Any other intent is refused without a trace.\<close>

lemma auto_exit_refused:
  assumes "auto_world_inv env w"
    and "\<not> (\<exists>c. auto_find i (aw_store w) = Some c \<and> ac_state c = AUTO_POSITION_PROTECTED) \<or> \<not> dt_aware now"
  shows "\<exists>e k. auto_complete_exit_once_synthetic i now w = (Inl e, w\<lparr>aw_interrupt := k\<rparr>)
    \<and> (aw_interrupt w = None \<longrightarrow> k = None)"
proof -
  have inv: "auto_store_inv (aw_store w)" using assms(1) by (simp add: auto_world_inv_def auto_ledger_ok_def)
  have "\<exists>e. auto_record_exit_attempt_started i now (aw_store w) = (Inl e, aw_store w)"
    using assms(2) by (cases "auto_find i (aw_store w)"; cases "dt_aware now") (auto simp: auto_exit_run [OF inv])
  then obtain e where "auto_record_exit_attempt_started i now (aw_store w) = (Inl e, aw_store w)" ..
  then show ?thesis
    by (cases w; cases "aw_interrupt w" rule: option.exhaust)
       (auto simp: auto_complete_exit_once_synthetic_def run_progs at_store_def auto_checkpoint_def
        split: nat.splits)
qed

section \<open>Running a signal\<close>

text \<open>The two refusals that reach the caller as exceptions.\<close>

definition auto_run_refused :: "datetime \<Rightarrow> py_exn \<Rightarrow> bool" where
  "auto_run_refused now e \<longleftrightarrow>
     (dt_aware now \<and> e = H11AutoPersistenceError ''duplicate signal intent refused'')
     \<or> (\<not> dt_aware now \<and> e = H11AutoPersistenceError ''timestamp must be timezone-aware'')"

lemma auto_add_facts:
  assumes "auto_find (ac_intent_id c) db = None"
  shows "auto_find i (auto_add_cycle c db) = (if i = ac_intent_id c then Some c else auto_find i db)"
proof -
  have "select_one (\<lambda>x. ac_intent_id x = i) [c] = (if i = ac_intent_id c then Some c else None)"
    by (auto simp: select_one_def)
  then show ?thesis using assms by (auto simp: auto_find_def select_one_append split: option.splits)
qed

lemma auto_sent_add:
  assumes none: "auto_find (ac_intent_id c) db = None" and sent: "auto_sent_ok counter is db"
  shows "auto_sent_ok counter is (auto_add_cycle c db)"
  unfolding auto_sent_ok_def
proof (intro conjI ballI)
  fix i assume "i \<in> set is"
  then obtain d where "auto_find i db = Some d" "counter d = 1" using sent by (auto simp: auto_sent_ok_def)
  with none show "\<exists>c'. auto_find i (auto_add_cycle c db) = Some c' \<and> counter c' = 1"
    by (auto simp: auto_add_facts)
qed (use sent in \<open>simp add: auto_sent_ok_def\<close>)

lemma auto_daily_add: "auto_daily db \<Longrightarrow> ac_entry_day c = None \<Longrightarrow> auto_daily (auto_add_cycle c db)"
  unfolding auto_daily_def auto_commit_simps set_append by (metis Un_iff empty_iff empty_set insert_iff list.simps(15))

lemma auto_create_step:
  assumes ok: "phase_a_accepts policy signal" and now: "dt_aware now"
  shows "triple (\<lambda>w. auto_world_inv env w \<and> auto_active_intent_count (aw_store w) = 0
      \<and> \<not> auto_halt_latched (aw_store w) \<and> auto_no_entry_on (jst_day now) (aw_store w))
    (at_store (auto_create_intent signal policy now))
    (\<lambda>c w. (\<exists>i. build_intent_id signal policy = Inr i \<and> c = auto_new_cycle signal i now)
       \<and> auto_holds env c w \<and> auto_no_entry_on (jst_day now) (aw_store w))
    (\<lambda>e w. auto_world_inv env w \<and> (\<not> en_sound env \<and> e = KeyboardInterrupt \<or> auto_run_refused now e))"
proof (rule at_store_triple, goal_cases)
  case (3 w)
  then have w: "auto_world_inv env w" and idle: "auto_active_intent_count (aw_store w) = 0"
    and unlatched: "\<not> auto_halt_latched (aw_store w)" and free: "auto_no_entry_on (jst_day now) (aw_store w)" by simp_all
  obtain i where i: "build_intent_id signal policy = Inr i" using ok by (simp add: build_intent_id_def)
  have ledger: "auto_ledger_ok (en_sent env @ x_calls (aw_sender w)) (en_exits env @ x_calls (aw_exit_sender w)) (aw_store w)"
    and inv: "auto_store_inv (aw_store w)" using w by (simp_all add: auto_world_inv_def auto_ledger_ok_def)
  let ?c = "auto_new_cycle signal i now"
  let ?db = "auto_add_cycle ?c (aw_store w)"
  have c: "ac_intent_id ?c = i" "ac_state ?c = INTENT_PERSISTED" "ac_entry_day ?c = None" "ac_fingerprint ?c = signal_fingerprint signal"
    by (simp_all add: auto_new_cycle_def)
  note run = auto_create_run [OF inv, of signal policy now, simplified i]
  show ?case
  proof (cases "auto_find i (aw_store w) \<noteq> None \<or> signal_fingerprint signal \<in> ac_fingerprint ` set (adb_cycles (aw_store w))")
    case True
    with run idle unlatched now w show ?thesis by (auto simp: auto_run_refused_def)
  next
    case False
    then have none: "auto_find (ac_intent_id ?c) (aw_store w) = None" using c by simp
    have "auto_store_inv ?db"
      using False c build_intent_id_row_ok [OF i] by (intro auto_add_inv [OF inv]) simp_all
    moreover have "auto_daily ?db"
      using ledger c(3) unfolding auto_ledger_ok_def by (intro auto_daily_add) simp_all
    moreover have "auto_sent_ok k is ?db" if "auto_sent_ok k is (aw_store w)" for k "is"
      using that by (rule auto_sent_add [OF none])
    ultimately have "auto_ledger_ok (en_sent env @ x_calls (aw_sender w)) (en_exits env @ x_calls (aw_exit_sender w)) ?db"
      using ledger by (simp add: auto_ledger_ok_def)
    moreover have "auto_alone i ?db"
      using idle unlatched c by (auto simp: auto_alone_def auto_busy_def auto_active_intent_count_def count_rows_zero
          auto_halt_latched_def select_one_None)
    moreover have "auto_no_entry_on (jst_day now) ?db" using free c by (simp add: auto_no_entry_on_def)
    ultimately have "auto_holds env ?c (w\<lparr>aw_store := ?db\<rparr>) \<and> auto_no_entry_on (jst_day now) ?db"
      using w c auto_add_facts [OF none, of i] by (auto simp: auto_holds_def auto_world_inv_def auto_senders_ok_def)
    then show ?thesis using run idle unlatched now False i by simp
  qed
qed (auto simp: auto_inv_count)

text \<open>What a run ends with: nothing was done, or a new intent ended as its specification says.\<close>

definition auto_run_ends ::
    "auto_env \<Rightarrow> formal_signal \<Rightarrow> phase_a_policy \<Rightarrow> datetime \<Rightarrow> fake_cycle_result \<Rightarrow> auto_world \<Rightarrow> bool" where
  "auto_run_ends env signal policy now r w \<longleftrightarrow> auto_world_inv env w
     \<and> ((\<exists>status reasons. r = auto_empty_result status reasons \<and> status \<in> {FC_NO_ACTION_STAY, FC_BLOCKED_SAFE})
        \<or> (\<exists>i. build_intent_id signal policy = Inr i
             \<and> auto_ends env (auto_entry_spec env (auto_new_cycle signal i now) now) r w))"

lemma signal_expired_returns: "dt_aware (s_valid_until signal) \<Longrightarrow> \<exists>b. signal_expired now signal = Inr b"
  by (cases "dt_aware now") (auto simp: signal_expired_def dt_at_or_after_def dt_comparable_def)

lemma auto_gate_returns:
  "dt_aware (s_valid_until signal) \<Longrightarrow> \<exists>g. evaluate_phase_a_entry_gate signal policy snapshot now = Inr g"
  using signal_expired_returns [of signal now] by (auto simp: evaluate_phase_a_entry_gate_def Let_def)

lemma auto_no_entry_count:
  "count_rows (\<lambda>c. ac_entry_day c = Some d) (adb_cycles db) = 0 \<longleftrightarrow> auto_no_entry_on d db"
  by (simp add: count_rows_zero auto_no_entry_on_def)

lemma auto_run_triple:
  assumes pol: "p_max_entries_per_day policy = 1" and sig: "dt_aware (s_valid_until signal)"
  shows "triple (auto_world_inv env) (auto_run_signal_once_synthetic signal policy safety now)
    (auto_run_ends env signal policy now)
    (\<lambda>e w. auto_world_inv env w \<and> (\<not> en_sound env \<and> e = KeyboardInterrupt \<or> auto_run_refused now e))"
  (is "triple _ _ _ ?E")
proof (cases "s_decision signal = STAY")
  case True
  obtain b where b: "signal_expired now signal = Inr b" using signal_expired_returns [OF sig] by blast
  then show ?thesis
    by (auto simp: auto_run_signal_once_synthetic_def True auto_stay_reasons_def triple_def run_progs
        auto_run_ends_def)
next
  case False
  let ?today = "\<lambda>w. count_rows (\<lambda>c. ac_entry_day c = Some (jst_day now)) (adb_cycles (aw_store w))"
  have day: "zoomE aw_store (\<lambda>s w. w\<lparr>aw_store := s\<rparr>) (auto_entry_attempts_on_jst_day now) w =
      (if dt_aware now then Inr (?today w)
       else Inl (H11AutoPersistenceError ''timestamp must be timezone-aware''), w)" for w
    by (simp add: run_zoom auto_entry_attempts_on_jst_day_def run_progs auto_timestamp_def)
  have enter: "triple (\<lambda>w. (\<exists>i. build_intent_id signal policy = Inr i \<and> c = auto_new_cycle signal i now)
       \<and> auto_holds env c w \<and> auto_no_entry_on (jst_day now) (aw_store w)) (auto_enter c now)
      (auto_run_ends env signal policy now) ?E" if "dt_aware now" for c
  proof (rule triple_pure, elim exE conjE)
    fix i assume i: "build_intent_id signal policy = Inr i" "c = auto_new_cycle signal i now"
    show "triple (\<lambda>w. auto_holds env c w \<and> auto_no_entry_on (jst_day now) (aw_store w)) (auto_enter c now)
        (auto_run_ends env signal policy now) ?E"
      by (rule triple_weaken [OF auto_enter_triple])
         (use i that in \<open>auto simp: auto_new_cycle_def auto_run_ends_def auto_ends_def auto_holds_def\<close>)
  qed
  have "triple (\<lambda>w. auto_world_inv env w \<and> active = auto_active_intent_count (aw_store w) \<and> today = ?today w
        \<and> halted = auto_halt_latched (aw_store w))
      (if \<not> eg_fake_cycle_allowed gate then auto_blocked gate
       else bindE (at_store (auto_create_intent signal policy now)) (\<lambda>cycle. auto_enter cycle now))
      (auto_run_ends env signal policy now) ?E"
    if now: "dt_aware now" and gate: "evaluate_phase_a_entry_gate signal policy (auto_tightened safety active today halted) now = Inr gate"
    for active today halted gate
  proof (rule triple_if)
    show "triple (\<lambda>w. auto_world_inv env w \<and> active = auto_active_intent_count (aw_store w) \<and> today = ?today w
        \<and> halted = auto_halt_latched (aw_store w)) (auto_blocked gate) (auto_run_ends env signal policy now) ?E"
      by (auto simp: triple_def auto_blocked_def auto_run_ends_def)
    assume "\<not> \<not> eg_fake_cycle_allowed gate"
    then have "eg_fake_cycle_allowed gate" by simp
    note entry_gate_open [THEN iffD1, OF conjI, OF gate this]
    then have gates: "phase_a_accepts policy signal" "active = 0" "today = 0" "\<not> halted"
      using pol by (auto simp: auto_tightened_def max_def split: if_splits)
    show "triple (\<lambda>w. auto_world_inv env w \<and> active = auto_active_intent_count (aw_store w) \<and> today = ?today w
        \<and> halted = auto_halt_latched (aw_store w))
      (bindE (at_store (auto_create_intent signal policy now)) (\<lambda>cycle. auto_enter cycle now))
      (auto_run_ends env signal policy now) ?E"
      by (rule triple_bind [OF triple_pre [OF auto_create_step [OF gates(1) now]] enter [OF now]])
         (use gates in \<open>auto simp: auto_no_entry_count\<close>)
  qed
  note rest = this
  show ?thesis
    unfolding triple_def
  proof (intro allI impI)
    fix w assume w: "auto_world_inv env w"
    show "case auto_run_signal_once_synthetic signal policy safety now w of
        (Inr x, s') \<Rightarrow> auto_run_ends env signal policy now x s' | (Inl e, s') \<Rightarrow> ?E e s'"
    proof (cases "dt_aware now")
      case True
      obtain gate where gate: "evaluate_phase_a_entry_gate signal policy (auto_tightened safety
          (auto_active_intent_count (aw_store w)) (?today w) (auto_halt_latched (aw_store w))) now = Inr gate"
        using auto_gate_returns [OF sig] by blast
      from rest [OF True gate] w show ?thesis
        by (simp add: auto_run_signal_once_synthetic_def False run_bind day True gate triple_def)
    qed (simp add: auto_run_signal_once_synthetic_def run_bind auto_run_refused_def day False w)
  qed
qed


section \<open>Reachable worlds\<close>

text \<open>A sender argument of the constructor that has not been called yet.\<close>

definition auto_unused :: "'o auto_sender py_object option \<Rightarrow> bool" where
  "auto_unused sender \<longleftrightarrow> (case sender of Some (Exactly x) \<Rightarrow> x_calls x = [] | _ \<Rightarrow> True)"

text \<open>
  \<open>sent\<close> and \<open>exits\<close> collect the calls of the senders of earlier engines; a new engine may be
  built on the database at any time, in particular after a call was stopped.
\<close>

inductive auto_world_reach :: "string list \<Rightarrow> string list \<Rightarrow> auto_world \<Rightarrow> bool" where
  auto_start: "auto_unused sender \<Longrightarrow> auto_unused exit_sender \<Longrightarrow>
    H11AutoPhaseAEngine auto_empty_db sender exit_sender notifier interrupt = Inr w \<Longrightarrow>
    auto_world_reach [] [] w"
| auto_restart: "auto_world_reach sent exits w \<Longrightarrow> auto_unused sender \<Longrightarrow> auto_unused exit_sender \<Longrightarrow>
    H11AutoPhaseAEngine (aw_store w) sender exit_sender notifier interrupt = Inr w' \<Longrightarrow>
    auto_world_reach (sent @ x_calls (aw_sender w)) (exits @ x_calls (aw_exit_sender w)) w'"
| auto_run: "auto_world_reach sent exits w \<Longrightarrow> PhaseAExecutionPolicy args = Inr policy \<Longrightarrow>
    FormalSignal sargs = Inr signal \<Longrightarrow>
    auto_run_signal_once_synthetic signal policy safety now w = (r, w') \<Longrightarrow> auto_world_reach sent exits w'"
| auto_exit: "auto_world_reach sent exits w \<Longrightarrow>
    auto_complete_exit_once_synthetic i now w = (r, w') \<Longrightarrow> auto_world_reach sent exits w'"
| auto_reopen: "auto_world_reach sent exits w \<Longrightarrow> auto_initialize (aw_store w) = (u, db) \<Longrightarrow>
    auto_world_reach sent exits (w\<lparr>aw_store := db\<rparr>)"
| auto_bind: "auto_world_reach sent exits w \<Longrightarrow>
    auto_bind_run_generation label policy rl rd dl dd (aw_store w) = (b, db) \<Longrightarrow>
    auto_world_reach sent exits (w\<lparr>aw_store := db\<rparr>)"
| auto_stop: "auto_world_reach sent exits w \<Longrightarrow> auto_world_reach sent exits (w\<lparr>aw_interrupt := k\<rparr>)"
| auto_notified: "auto_world_reach sent exits w \<Longrightarrow> notify category (aw_notifier w) = (told, n) \<Longrightarrow>
    auto_world_reach sent exits (w\<lparr>aw_notifier := n\<rparr>)"

definition auto_env_of :: "bool \<Rightarrow> string list \<Rightarrow> string list \<Rightarrow> auto_world \<Rightarrow> auto_env" where
  "auto_env_of sound sent exits w = \<lparr>en_sound = sound, en_sent = sent, en_exits = exits,
     en_entry = x_outcome (aw_sender w), en_exit = x_outcome (aw_exit_sender w),
     en_accepts = n_accepts (aw_notifier w)\<rparr>"

lemma auto_env_of_simps [simp]:
  "en_sound (auto_env_of sound sent exits w) = sound" "en_sent (auto_env_of sound sent exits w) = sent"
  "en_exits (auto_env_of sound sent exits w) = exits"
  "en_entry (auto_env_of sound sent exits w) = x_outcome (aw_sender w)"
  "en_exit (auto_env_of sound sent exits w) = x_outcome (aw_exit_sender w)"
  "en_accepts (auto_env_of sound sent exits w) = n_accepts (aw_notifier w)"
  "auto_env_of sound sent exits (w\<lparr>aw_store := db\<rparr>) = auto_env_of sound sent exits w"
  by (simp_all add: auto_env_of_def)

lemma auto_env_kept:
  "auto_world_inv (auto_env_of sound sent exits w) w' \<Longrightarrow>
    auto_env_of sound sent exits w' = auto_env_of sound sent exits w"
  by (simp add: auto_world_inv_def auto_senders_ok_def auto_env_of_def)

lemma auto_engine_world:
  assumes "H11AutoPhaseAEngine store sender exit_sender notifier interrupt = Inr w"
    and "auto_unused sender" and "auto_unused exit_sender"
  shows "aw_store w = store \<and> x_calls (aw_sender w) = [] \<and> x_calls (aw_exit_sender w) = []
    \<and> x_marks (aw_sender w) = (True, False, 0) \<and> x_marks (aw_exit_sender w) = (True, False, 0)"
  using assms
  by (auto simp: H11AutoPhaseAEngine_def bindR_Inr_iff exact_or_refused_def or_default_def auto_unused_def
      x_marks_def RefusingProtectedEntrySender_def RefusingPositionExitSender_def fresh_sender_def
      split: if_splits py_object.splits option.splits)

lemma auto_same_metadata [simp]: "db\<lparr>adb_metadata := adb_metadata db\<rparr> = db"
  by simp

text \<open>Opening the store and binding a generation write the metadata table only.\<close>

lemma auto_metadata_writers:
  "auto_initialize db = (u, db') \<Longrightarrow> \<exists>m. db' = db\<lparr>adb_metadata := m\<rparr>"
  "auto_bind_run_generation label policy rl rd dl dd db = (b, db') \<Longrightarrow> \<exists>m. db' = db\<lparr>adb_metadata := m\<rparr>"
  by (auto simp: auto_initialize_def auto_bind_run_generation_def auto_bind_rows_def run_progs auto_insert_metadata_def Let_def
      split: option.splits if_splits prod.splits sum.splits intro: exI [of _ "adb_metadata db"])

lemma auto_metadata_world_inv:
  assumes "auto_world_inv env w" and "db = (aw_store w)\<lparr>adb_metadata := m\<rparr>"
  shows "auto_world_inv env (w\<lparr>aw_store := db\<rparr>)"
proof -
  have "auto_sent_ok k is db = auto_sent_ok k is (aw_store w)" for k "is"
    using assms(2) by (simp add: auto_sent_ok_def auto_find_def)
  moreover have "auto_daily db = auto_daily (aw_store w)" "auto_alone i db = auto_alone i (aw_store w)" for i
    using assms(2) by (simp_all add: auto_daily_def auto_alone_def)
  moreover have "auto_store_inv db = auto_store_inv (aw_store w)" using assms(2) auto_metadata_inv by simp
  ultimately show ?thesis
    using assms(1) by (simp add: auto_world_inv_def auto_senders_ok_def auto_ledger_ok_def)
qed

text \<open>A protected intent is the only busy one.\<close>

lemma auto_protected_holds:
  assumes "auto_world_inv env w" and c: "auto_find i (aw_store w) = Some c" and "ac_state c = AUTO_POSITION_PROTECTED"
  shows "auto_holds env c w"
proof -
  have i: "ac_intent_id c = i" "c \<in> set (adb_cycles (aw_store w))" using auto_find_Some [OF c] by simp_all
  have "auto_alone i (aw_store w)"
    using assms i by (auto simp: auto_world_inv_def auto_alone_def auto_busy_def auto_active_def)
  then show ?thesis using assms i by (simp add: auto_holds_def)
qed

lemma auto_complete_exit_inv:
  assumes inv: "auto_world_inv env w" and run: "auto_complete_exit_once_synthetic i now w = (r, w')"
  shows "auto_world_inv env w'"
proof (cases "(\<exists>c. auto_find i (aw_store w) = Some c \<and> ac_state c = AUTO_POSITION_PROTECTED) \<and> dt_aware now")
  case False
  then have "\<not> (\<exists>c. auto_find i (aw_store w) = Some c \<and> ac_state c = AUTO_POSITION_PROTECTED) \<or> \<not> dt_aware now"
    by blast
  from auto_exit_refused [OF inv this] run inv show ?thesis
    by (auto simp: auto_world_inv_def auto_senders_ok_def)
next
  case True
  then obtain c where c: "auto_find i (aw_store w) = Some c" "ac_state c = AUTO_POSITION_PROTECTED"
    and now: "dt_aware now" by blast
  have i: "ac_intent_id c = i" using auto_find_Some [OF c(1)] by simp
  have h: "auto_holds env c w" by (rule auto_protected_holds [OF inv c])
  note T = auto_complete_exit_triple [OF c(2) now i [symmetric], of env]
  show ?thesis
    using tripleD_return [OF T h] tripleD_raise [OF T h] run
    by (cases r) (auto simp: auto_ends_def auto_holds_def split: prod.splits)
qed

lemma auto_reach_inv:
  "auto_world_reach sent exits w \<Longrightarrow> auto_world_inv (auto_env_of False sent exits w) w"
proof (induction rule: auto_world_reach.induct)
  case (auto_start sender exit_sender notifier interrupt w)
  have "auto_alone i auto_empty_db \<and> auto_daily auto_empty_db \<and> auto_sent_ok k [] auto_empty_db" for i k
    by (simp add: auto_alone_def auto_daily_def auto_sent_ok_def auto_empty_db_def)
  then show ?case
    using auto_engine_world [OF auto_start(3,1,2)] auto_empty_inv
    by (auto simp: auto_world_inv_def auto_senders_ok_def auto_ledger_ok_def)
next
  case (auto_restart sent exits w sender exit_sender notifier interrupt w')
  then show ?case
    using auto_engine_world [OF auto_restart(4,2,3)]
    by (auto simp: auto_world_inv_def auto_senders_ok_def)
next
  case (auto_run sent exits w args policy sargs signal safety now r w')
  have "dt_aware (s_valid_until signal)" and "p_max_entries_per_day policy = 1"
    using FormalSignal_signal_ok [OF auto_run(3)] PhaseAExecutionPolicy_frozen [OF auto_run(2)]
    by (simp_all add: signal_ok_def)
  note T = auto_run_triple [OF this(2,1), of "auto_env_of False sent exits w" safety now]
  have "auto_world_inv (auto_env_of False sent exits w) w'"
    using tripleD_return [OF T auto_run(5)] tripleD_raise [OF T auto_run(5)] auto_run(4)
    by (cases r) (auto simp: auto_run_ends_def)
  then show ?case using auto_env_kept by metis
next
  case (auto_exit sent exits w i now r w')
  then have "auto_world_inv (auto_env_of False sent exits w) w'" by (blast intro: auto_complete_exit_inv)
  then show ?case using auto_env_kept by metis
next
  case (auto_reopen sent exits w u db)
  then show ?case using auto_metadata_writers(1) auto_metadata_world_inv by fastforce
next
  case (auto_bind sent exits w label policy rl rd dl dd b db)
  then show ?case using auto_metadata_writers(2) auto_metadata_world_inv by fastforce
next
  case (auto_stop sent exits w k)
  then show ?case by (simp add: auto_world_inv_def auto_senders_ok_def auto_env_of_def)
next
  case (auto_notified sent exits w category told n)
  then show ?case by (auto simp: auto_world_inv_def auto_senders_ok_def auto_env_of_def notify_run)
qed

lemma auto_reach_sound:
  "auto_world_reach sent exits w \<Longrightarrow> aw_interrupt w = None \<Longrightarrow>
    auto_world_inv (auto_env_of True sent exits w) w"
  using auto_reach_inv [of sent exits w] by (simp add: auto_world_inv_def auto_senders_ok_def)

lemma auto_reach_store: "auto_world_reach sent exits w \<Longrightarrow> auto_store_inv (aw_store w)"
  using auto_reach_inv by (simp add: auto_world_inv_def auto_ledger_ok_def)

section \<open>A run and an exit in full\<close>

definition auto_duplicate :: "formal_signal \<Rightarrow> string \<Rightarrow> auto_db \<Rightarrow> bool" where
  "auto_duplicate signal i db \<longleftrightarrow>
     auto_find i db \<noteq> None \<or> signal_fingerprint signal \<in> ac_fingerprint ` set (adb_cycles db)"

lemma auto_run_full:
  assumes reach: "auto_world_reach sent exits w" and env: "aw_interrupt w = None"
    and policy: "PhaseAExecutionPolicy args = Inr policy" and signal: "FormalSignal sargs = Inr signal"
    and directional: "s_decision signal \<noteq> STAY" and now: "dt_aware now"
    and gate: "evaluate_phase_a_entry_gate signal policy (auto_tightened safety
        (auto_active_intent_count (aw_store w))
        (count_rows (\<lambda>c. ac_entry_day c = Some (jst_day now)) (adb_cycles (aw_store w)))
        (auto_halt_latched (aw_store w))) now = Inr gate"
  shows "if \<not> eg_fake_cycle_allowed gate
    then auto_run_signal_once_synthetic signal policy safety now w =
      (Inr (auto_empty_result FC_BLOCKED_SAFE (eg_blocked_reasons gate)), w)
    else \<exists>i. build_intent_id signal policy = Inr i \<and>
      (if auto_duplicate signal i (aw_store w)
       then auto_run_signal_once_synthetic signal policy safety now w =
         (Inl (H11AutoPersistenceError ''duplicate signal intent refused''), w)
       else case auto_entry_spec (auto_env_of True sent exits w) (auto_new_cycle signal i now) now of
         (status, c, reasons) \<Rightarrow> \<exists>w'. auto_run_signal_once_synthetic signal policy safety now w =
             (Inr (auto_report status c reasons), w') \<and> auto_find i (aw_store w') = Some c
             \<and> auto_world_inv (auto_env_of True sent exits w) w')"
proof -
  let ?env = "auto_env_of True sent exits w"
  let ?m = "if \<not> eg_fake_cycle_allowed gate then auto_blocked gate
       else bindE (at_store (auto_create_intent signal policy now)) (\<lambda>cycle. auto_enter cycle now)"
  have inv: "auto_world_inv ?env w" by (rule auto_reach_sound [OF reach env])
  then have store: "auto_store_inv (aw_store w)" by (simp add: auto_world_inv_def auto_ledger_ok_def)
  have run: "auto_run_signal_once_synthetic signal policy safety now w = ?m w"
    using directional now gate
    by (simp add: auto_run_signal_once_synthetic_def run_progs auto_entry_attempts_on_jst_day_def auto_timestamp_def)
  show ?thesis
  proof (cases "eg_fake_cycle_allowed gate")
    case False
    then show ?thesis by (simp add: run auto_blocked_def)
  next
    case True
    note gates = entry_gate_open [THEN iffD1, OF conjI, OF gate True]
    then have ok: "phase_a_accepts policy signal" and idle: "auto_active_intent_count (aw_store w) = 0"
        "\<not> auto_halt_latched (aw_store w)" "auto_no_entry_on (jst_day now) (aw_store w)"
      using PhaseAExecutionPolicy_frozen [OF policy]
      by (auto simp: auto_tightened_def max_def auto_no_entry_count [symmetric] split: if_splits)
    then obtain i where i: "build_intent_id signal policy = Inr i" by (simp add: build_intent_id_def)
    note create = auto_create_run [OF store, of signal policy now, simplified i]
    let ?c = "auto_new_cycle signal i now"
    show ?thesis
    proof (cases "auto_duplicate signal i (aw_store w)")
      case dup: True
      then show ?thesis
        using True i create idle now env
        by (simp add: run run_progs at_store_def auto_checkpoint_def auto_duplicate_def)
    next
      case False
      let ?w1 = "w\<lparr>aw_store := auto_add_cycle ?c (aw_store w)\<rparr>"
      have new: "at_store (auto_create_intent signal policy now) w = (Inr ?c, ?w1)"
        using False create idle now env
        by (simp add: run_progs at_store_def auto_checkpoint_def auto_duplicate_def)
      have h: "auto_holds ?env ?c ?w1 \<and> auto_no_entry_on (jst_day now) (aw_store ?w1)"
        using tripleD_return [OF auto_create_step [OF ok now] _ new] inv idle by blast
      note T = auto_enter_triple [of ?c now ?env]
      obtain r w' where enter: "auto_enter ?c now ?w1 = (r, w')" by fastforce
      have c: "ac_state ?c = INTENT_PERSISTED" by (simp add: auto_new_cycle_def)
      obtain x where r: "r = Inr x" using tripleD_raise [OF T [OF c now] h] enter by (cases r) auto
      have "auto_ends ?env (auto_entry_spec ?env ?c now) x w'"
        using tripleD_return [OF T [OF c now] h] enter r by simp
      moreover have "ac_intent_id (fst (snd (auto_entry_spec ?env ?c now))) = i"
        by (auto simp: auto_entry_spec_def auto_halted_def Let_def auto_new_cycle_def
            split: option.splits entry_outcome.splits)
      ultimately show ?thesis
        using True False i new enter r by (auto simp: run run_bind auto_ends_def auto_holds_def split: prod.splits)
    qed
  qed
qed


lemma auto_exit_full:
  assumes reach: "auto_world_reach sent exits w" and env: "aw_interrupt w = None"
  shows "case auto_find i (aw_store w) of
      Some c \<Rightarrow>
        if ac_state c = AUTO_POSITION_PROTECTED \<and> dt_aware now
        then case auto_exit_spec (auto_env_of True sent exits w) c now of
          (status, c', reasons) \<Rightarrow> \<exists>w'. auto_complete_exit_once_synthetic i now w =
             (Inr (auto_report status c' reasons), w') \<and> auto_find i (aw_store w') = Some c'
             \<and> auto_world_inv (auto_env_of True sent exits w) w'
        else \<exists>e. auto_complete_exit_once_synthetic i now w = (Inl e, w)
    | None \<Rightarrow> \<exists>e. auto_complete_exit_once_synthetic i now w = (Inl e, w)"
proof -
  let ?env = "auto_env_of True sent exits w"
  have inv: "auto_world_inv ?env w" by (rule auto_reach_sound [OF reach env])
  have same: "w\<lparr>aw_interrupt := None\<rparr> = w" using env by simp
  have refused: "\<exists>e. auto_complete_exit_once_synthetic i now w = (Inl e, w)"
    if "\<not> (\<exists>c. auto_find i (aw_store w) = Some c \<and> ac_state c = AUTO_POSITION_PROTECTED) \<or> \<not> dt_aware now"
    using auto_exit_refused [OF inv that] env same by auto
  show ?thesis
  proof (cases "auto_find i (aw_store w)")
    case None
    then show ?thesis using refused by simp
  next
    case (Some c)
    show ?thesis
    proof (cases "ac_state c = AUTO_POSITION_PROTECTED \<and> dt_aware now")
      case False
      then show ?thesis using refused Some by auto
    next
      case True
      then have h: "auto_holds ?env c w" using auto_protected_holds [OF inv Some] by simp
      have i: "ac_intent_id c = i" using auto_find_Some [OF Some] by simp
      note T = auto_complete_exit_triple [of c now i ?env]
      obtain r w' where run: "auto_complete_exit_once_synthetic i now w = (r, w')" by fastforce
      obtain x where r: "r = Inr x" using tripleD_raise [OF T h] run True i by (cases r) auto
      have "auto_ends ?env (auto_exit_spec ?env c now) x w'" using tripleD_return [OF T h] run r True i by simp
      moreover have "ac_intent_id (fst (snd (auto_exit_spec ?env c now))) = i"
        using i by (auto simp: auto_exit_spec_def auto_halted_def Let_def split: option.splits exit_outcome.splits)
      ultimately show ?thesis
        using True Some run r by (auto simp: auto_ends_def auto_holds_def split: prod.splits)
    qed
  qed
qed

end
