(* ===== verification/Auto_Generation.thy ===== *)
theory Auto_Generation
  imports Auto_Engine_Safety Py_Json Samples
begin

text \<open>
  Run generations of the Phase A store (\<open>bind_run_generation\<close>, \<open>load_run_generation_safe\<close> of
  \<open>persistence.py\<close>): reading a binding back, that it is read back as it was bound, that a bound
  store takes no other binding, and that the rest of the program leaves it alone.  The last section
  uses the same JSON facts for the journal: its canonical event texts determine the events.
\<close>

section \<open>Reading a binding\<close>

definition run_generation_keys :: "string list" where
  "run_generation_keys = [''run_generation_digest'', ''run_generation_manifest'', ''generation_label'',
     ''strategy_version'', ''selected_horizon'', ''risk_policy_label'', ''dead_man_policy_label'']"

lemma run_generation_keys_mem [simp]:
  "''run_generation_digest'' \<in> set run_generation_keys" "''run_generation_manifest'' \<in> set run_generation_keys"
  "''generation_label'' \<in> set run_generation_keys" "''strategy_version'' \<in> set run_generation_keys"
  "''selected_horizon'' \<in> set run_generation_keys" "''risk_policy_label'' \<in> set run_generation_keys"
  "''dead_man_policy_label'' \<in> set run_generation_keys"
  by (simp_all add: run_generation_keys_def)

definition stored_binding :: "(string \<times> string) list \<Rightarrow> run_binding" where
  "stored_binding vals = \<lparr>
     rb_generation_label = the (map_of vals ''generation_label''),
     rb_strategy_version = the (map_of vals ''strategy_version''),
     rb_selected_horizon = the (map_of vals ''selected_horizon''),
     rb_risk_policy_label = the (map_of vals ''risk_policy_label''),
     rb_dead_man_policy_label = the (map_of vals ''dead_man_policy_label'')\<rparr>"

text \<open>
  \<open>json_loads\<close> is \<open>None\<close> for an invalid document and for one outside Latin-1, which the writer
  never produces.
\<close>

definition manifest_carries :: "string \<Rightarrow> (string \<times> string) list \<Rightarrow> bool" where
  "manifest_carries manifest vals = (case json_loads manifest of
     None \<Rightarrow> False | Some payload \<Rightarrow> json_object_has payload vals)"

definition auto_load_run_generation_safe :: "auto_db \<Rightarrow> run_binding option result" where
  "auto_load_run_generation_safe db =
    (let vals = filter (\<lambda>(k, v). k \<in> set run_generation_keys) (adb_metadata db)
     in if vals = [] then Inr None
        else if fst ` set vals \<noteq> set run_generation_keys
        then Inl (H11AutoPersistenceError ''run generation metadata is incomplete or invalid'')
        else
          let manifest = the (map_of vals ''run_generation_manifest'');
              digest = the (map_of vals ''run_generation_digest'');
              binding = stored_binding vals
          in if sha256_hex manifest \<noteq> digest
             then Inl (H11AutoPersistenceError ''run generation metadata digest is invalid'')
             else if \<not> manifest_carries manifest (run_labels binding)
             then Inl (H11AutoPersistenceError ''run generation metadata manifest is invalid'')
             else if \<not> list_all (\<lambda>(k, v). auto_safe_label (PyStr v)) (run_labels binding)
             then Inl (H11AutoPersistenceError ''run generation label is invalid'')
             else Inr (Some binding))"

section \<open>What a binding leaves in the table\<close>

text \<open>The fields of a manifest, and the seven rows of a bound store.\<close>

definition run_fields :: "run_binding \<Rightarrow> string \<Rightarrow> string \<Rightarrow> string \<Rightarrow> (string \<times> json) list" where
  "run_fields b config_hash risk_digest dead_man_digest = map (\<lambda>(k, v). (k, JStr v)) (run_labels b) @ [
     (''signal_config_hash'', JStr config_hash),
     (''risk_policy_digest'', JStr risk_digest),
     (''dead_man_policy_digest'', JStr dead_man_digest)]"

lemma run_manifest_fields: "run_manifest b c r d = json_dumps (JObj (run_fields b c r d))"
  by (simp add: run_manifest_def run_fields_def)

lemma run_fields_plain:
  "distinct (map fst (run_fields b c r d))" "\<forall>kv \<in> set (run_fields b c r d). json_plain (snd kv)"
  by (auto simp: run_fields_def run_labels_def)

lemma run_fields_at:
  "map_of (run_fields b c r d) ''generation_label'' = Some (JStr (rb_generation_label b))"
  "map_of (run_fields b c r d) ''strategy_version'' = Some (JStr (rb_strategy_version b))"
  "map_of (run_fields b c r d) ''selected_horizon'' = Some (JStr (rb_selected_horizon b))"
  "map_of (run_fields b c r d) ''risk_policy_label'' = Some (JStr (rb_risk_policy_label b))"
  "map_of (run_fields b c r d) ''dead_man_policy_label'' = Some (JStr (rb_dead_man_policy_label b))"
  "map_of (run_fields b c r d) ''signal_config_hash'' = Some (JStr c)"
  "map_of (run_fields b c r d) ''risk_policy_digest'' = Some (JStr r)"
  "map_of (run_fields b c r d) ''dead_man_policy_digest'' = Some (JStr d)"
  by (simp_all add: run_fields_def run_labels_def)

lemma run_manifest_inj:
  assumes "run_manifest b c r d = run_manifest b' c' r' d'"
  shows "b = b' \<and> c = c' \<and> r = r' \<and> d = d'"
proof -
  have "map_of (run_fields b c r d) = map_of (run_fields b' c' r' d')"
    by (rule json_object_inj [OF run_fields_plain run_fields_plain assms [unfolded run_manifest_fields]])
  then have eq: "map_of (run_fields b c r d) k = map_of (run_fields b' c' r' d') k" for k by simp
  note field = run_fields_at [of b c r d, unfolded eq, unfolded run_fields_at]
  have "b = b'" by (rule run_binding.equality) (use field in simp_all)
  with field show ?thesis by simp
qed

lemma run_manifest_carries: "manifest_carries (run_manifest b c r d) (run_labels b)"
proof -
  have "json_loads (run_manifest b c r d) = Some (JObj (sort_key fst (run_fields b c r d)))"
    unfolding run_manifest_fields by (rule json_object_round_trip [OF run_fields_plain])
  then show ?thesis
    by (simp add: manifest_carries_def json_object_has_def run_labels_def map_of_sort_key [OF run_fields_plain(1)] run_fields_at)
qed

definition run_unbound :: "(string \<times> string) list \<Rightarrow> bool" where
  "run_unbound m \<longleftrightarrow> (\<forall>k \<in> set run_generation_keys. map_of m k = None)"

definition run_bound :: "run_binding \<Rightarrow> string \<Rightarrow> string \<Rightarrow> string \<Rightarrow> (string \<times> string) list \<Rightarrow> bool" where
  "run_bound b config_hash risk_digest dead_man_digest m \<longleftrightarrow>
     run_rows_match b (run_manifest b config_hash risk_digest dead_man_digest) m
     \<and> map_of m ''run_generation_digest'' = Some (sha256_hex (run_manifest b config_hash risk_digest dead_man_digest))
     \<and> list_all (\<lambda>(k, v). auto_safe_label (PyStr v)) (run_labels b)"

lemma run_bound_unique:
  assumes "run_bound b c r d m" and "run_bound b' c' r' d' m"
  shows "b = b' \<and> c = c' \<and> r = r' \<and> d = d'"
  using assms by (intro run_manifest_inj) (simp add: run_bound_def run_rows_match_def)

lemma load_unbound: "run_unbound (adb_metadata db) \<Longrightarrow> auto_load_run_generation_safe db = Inr None"
proof -
  assume "run_unbound (adb_metadata db)"
  then have "fst ` set (filter (\<lambda>(k, v). k \<in> set run_generation_keys) (adb_metadata db)) = {}"
    unfolding fst_set_filter_key by (auto simp: run_unbound_def)
  then have "filter (\<lambda>(k, v). k \<in> set run_generation_keys) (adb_metadata db) = []"
    by (metis image_is_empty set_empty)
  then show ?thesis by (simp add: auto_load_run_generation_safe_def Let_def)
qed

lemma load_bound:
  assumes "run_bound b c r d (adb_metadata db)"
  shows "auto_load_run_generation_safe db = Inr (Some b)"
proof -
  let ?vals = "filter (\<lambda>(k, v). k \<in> set run_generation_keys) (adb_metadata db)"
  have at: "map_of ?vals k = map_of (adb_metadata db) k" if "k \<in> set run_generation_keys" for k
    using that by (rule map_of_filter_key)
  have some: "map_of (adb_metadata db) k \<noteq> None" if "k \<in> set run_generation_keys" for k
    using that assms by (auto simp: run_generation_keys_def run_bound_def run_rows_match_def run_labels_def)
  then have keys: "fst ` set ?vals = set run_generation_keys"
    unfolding fst_set_filter_key by auto
  then have "?vals \<noteq> []" by (metis image_is_empty run_generation_keys_mem(1) empty_iff set_empty)
  moreover have "stored_binding ?vals = b"
    by (rule run_binding.equality)
      (use assms in \<open>simp_all add: stored_binding_def at run_bound_def run_rows_match_def run_labels_def\<close>)
  moreover have "map_of ?vals ''run_generation_manifest'' = Some (run_manifest b c r d)"
    "map_of ?vals ''run_generation_digest'' = Some (sha256_hex (run_manifest b c r d))"
    using assms by (simp_all add: at run_bound_def run_rows_match_def)
  moreover have "list_all (\<lambda>(k, v). auto_safe_label (PyStr v)) (run_labels b)"
    using assms by (simp add: run_bound_def)
  ultimately show ?thesis
    unfolding auto_load_run_generation_safe_def Let_def using keys run_manifest_carries [of b c r d]
    by (simp del: set_filter filter.simps)
qed

section \<open>Binding\<close>

definition run_rows :: "run_binding \<Rightarrow> string \<Rightarrow> string \<Rightarrow> string \<Rightarrow> (string \<times> string) list" where
  "run_rows b c r d = run_labels b @ [(''run_generation_manifest'', run_manifest b c r d),
     (''run_generation_digest'', sha256_hex (run_manifest b c r d))]"

lemma run_rows_keys: "fst ` set (run_rows b c r d) = set run_generation_keys"
  by (auto simp: run_rows_def run_labels_def run_generation_keys_def)

lemma bound_by_rows:
  assumes "run_unbound m" and "list_all (\<lambda>(k, v). auto_safe_label (PyStr v)) (run_labels b)"
  shows "run_bound b c r d (m @ run_rows b c r d)"
proof -
  have "map_of (m @ run_rows b c r d) k = map_of (run_rows b c r d) k" if "k \<in> set run_generation_keys" for k
    using assms(1) that by (simp add: run_unbound_def map_add_def)
  then show ?thesis
    using assms(2) by (simp add: run_bound_def run_rows_match_def run_rows_def run_labels_def)
qed

lemma insert_metadata_run:
  "auto_insert_metadata kvs db = (Inr u, db') \<Longrightarrow>
    (\<forall>k \<in> fst ` set kvs. map_of (adb_metadata db) k = None) \<and> db' = db\<lparr>adb_metadata := adb_metadata db @ kvs\<rparr>"
  by (auto simp: auto_insert_metadata_def split: if_splits)

text \<open>
  A binding that goes through had seven strings for arguments; it found the store unbound and
  wrote the seven rows, or found exactly the same binding and wrote nothing.
\<close>

lemma safe_label_str: "auto_safe_label v \<Longrightarrow> (\<exists>s. as_str v = Some s \<and> auto_safe_label (PyStr s))"
  by (auto simp: auto_safe_label_def split: option.splits)

lemma nonblank_str_str: "nonblank_str v \<Longrightarrow> \<exists>s. as_str v = Some s"
  by (auto simp: nonblank_str_def split: option.splits)

definition run_arguments :: "pyval \<Rightarrow> phase_a_policy \<Rightarrow> pyval \<Rightarrow> pyval \<Rightarrow> pyval \<Rightarrow> pyval
    \<Rightarrow> run_binding \<Rightarrow> string \<Rightarrow> string \<Rightarrow> bool" where
  "run_arguments label policy risk_label risk_digest dead_label dead_digest b r d \<longleftrightarrow>
     as_str label = Some (rb_generation_label b) \<and> p_strategy_version policy = rb_strategy_version b
     \<and> horizon_value (p_horizon policy) = rb_selected_horizon b
     \<and> as_str risk_label = Some (rb_risk_policy_label b) \<and> as_str risk_digest = Some r
     \<and> as_str dead_label = Some (rb_dead_man_policy_label b) \<and> as_str dead_digest = Some d"

lemma bind_rows_run:
  assumes "auto_bind_rows b m (sha256_hex m) db = (Inr u, db')" and "m = run_manifest b c r d"
  shows "run_unbound (adb_metadata db) \<and> db' = db\<lparr>adb_metadata := adb_metadata db @ run_rows b c r d\<rparr>
    \<or> db' = db \<and> run_rows_match b m (adb_metadata db)
       \<and> map_of (adb_metadata db) ''run_generation_digest'' = Some (sha256_hex m)"
proof (cases "map_of (adb_metadata db) ''run_generation_digest''")
  case None
  then have "auto_insert_metadata (run_rows b c r d) db = (Inr u, db')"
    using assms by (auto simp: auto_bind_rows_def run_progs run_rows_def split: prod.splits sum.splits)
  then show ?thesis using insert_metadata_run [of "run_rows b c r d"] by (auto simp: run_rows_keys run_unbound_def)
next
  case (Some x)
  then show ?thesis
    using assms(1) by (auto simp: auto_bind_rows_def run_progs split: prod.splits sum.splits if_splits)
qed

lemma bind_eq:
  assumes labels: "list_all auto_safe_label [label, PyStr (p_strategy_version policy), PyHorizon (p_horizon policy), rl, dl]"
    and digests: "list_all nonblank_str [PyStr (p_config_hash policy), rd, dd]"
    and b: "b = \<lparr>rb_generation_label = the (as_str label), rb_strategy_version = p_strategy_version policy,
      rb_selected_horizon = horizon_value (p_horizon policy), rb_risk_policy_label = the (as_str rl),
      rb_dead_man_policy_label = the (as_str dl)\<rparr>"
    and m: "m = run_manifest b (p_config_hash policy) (the (as_str rd)) (the (as_str dd))"
  shows "auto_bind_run_generation label policy rl rd dl dd = thenE (auto_bind_rows b m (sha256_hex m)) (returnE b)"
  unfolding auto_bind_run_generation_def Let_def b [symmetric] m [symmetric]
  using labels digests by (simp add: guardE_def thenE_def bindE_def fun_eq_iff)

lemma bind_run:
  assumes run: "auto_bind_run_generation label policy rl rd dl dd db = (Inr b, db')"
  shows "\<exists>r d. run_arguments label policy rl rd dl dd b r d
    \<and> run_bound b (p_config_hash policy) r d (adb_metadata db')
    \<and> (run_unbound (adb_metadata db) \<and> db' = db\<lparr>adb_metadata := adb_metadata db @ run_rows b (p_config_hash policy) r d\<rparr>
       \<or> db' = db)"
proof -
  have labels: "list_all auto_safe_label [label, PyStr (p_strategy_version policy), PyHorizon (p_horizon policy), rl, dl]"
    and digests: "list_all nonblank_str [PyStr (p_config_hash policy), rd, dd]"
    using run by (auto simp: auto_bind_run_generation_def Let_def run_progs split: if_splits)
  from labels have "auto_safe_label label" "auto_safe_label rl" "auto_safe_label dl" by simp_all
  then obtain g rls dls where str: "as_str label = Some g" "as_str rl = Some rls" "as_str dl = Some dls"
      "auto_safe_label (PyStr g)" "auto_safe_label (PyStr rls)" "auto_safe_label (PyStr dls)"
    using safe_label_str by metis
  from digests have "nonblank_str rd" "nonblank_str dd" by simp_all
  then obtain r d where dig: "as_str rd = Some r" "as_str dd = Some d" using nonblank_str_str by metis
  define b0 where "b0 = \<lparr>rb_generation_label = g, rb_strategy_version = p_strategy_version policy,
    rb_selected_horizon = horizon_value (p_horizon policy), rb_risk_policy_label = rls, rb_dead_man_policy_label = dls\<rparr>"
  let ?c = "p_config_hash policy"
  have ok: "list_all (\<lambda>(k, v). auto_safe_label (PyStr v)) (run_labels b0)"
    using labels str by (auto simp: run_labels_def b0_def auto_safe_label_def)
  have args: "run_arguments label policy rl rd dl dd b0 r d"
    using str dig by (simp add: run_arguments_def b0_def)
  have "auto_bind_run_generation label policy rl rd dl dd = thenE (auto_bind_rows b0 (run_manifest b0 ?c r d)
      (sha256_hex (run_manifest b0 ?c r d))) (returnE b0)"
    by (rule bind_eq [OF labels digests]) (simp_all add: b0_def str dig)
  then have "auto_bind_rows b0 (run_manifest b0 ?c r d) (sha256_hex (run_manifest b0 ?c r d)) db = (Inr (), db')"
    and b: "b = b0"
    using run by (auto simp: run_progs split: prod.splits sum.splits)
  then have "run_unbound (adb_metadata db) \<and> db' = db\<lparr>adb_metadata := adb_metadata db @ run_rows b ?c r d\<rparr>
      \<or> db' = db \<and> run_bound b ?c r d (adb_metadata db)"
    using ok bind_rows_run [of b0 "run_manifest b0 ?c r d"] by (auto simp: run_bound_def)
  then show ?thesis using args ok bound_by_rows b by (intro exI [of _ r] exI [of _ d]) auto
qed

section \<open>The rest of the program leaves the binding alone\<close>

abbreviation auto_metadata :: "auto_world \<Rightarrow> (string \<times> string) list" where
  "auto_metadata w \<equiv> adb_metadata (aw_store w)"

lemma keeps_insert_cycle [frame]: "keeps adb_metadata (auto_insert_cycle c)"
  by (simp add: keeps_def auto_insert_cycle_def)

lemma keeps_insert_event [frame]: "keeps adb_metadata (auto_insert_event e)"
  by (simp add: keeps_def auto_insert_event_def)

lemma keeps_update_where [frame]: "keeps adb_metadata (auto_update_where p f)"
  unfolding auto_update_where_def by (intro frame) simp

lemma keeps_append_event [frame]: "keeps adb_metadata (auto_append_event i category state)"
  unfolding auto_append_event_def by (intro frame)

lemma keeps_cycle_row [frame]: "keeps adb_metadata (auto_cycle_row i)" "keeps adb_metadata (auto_load_cycle i)"
  unfolding auto_load_cycle_def auto_cycle_row_def by (intro frame)+

lemma keeps_store_writers [frame]:
  "keeps adb_metadata (auto_create_intent signal policy now)"
  "keeps adb_metadata (auto_record_attempt_started i now)"
  "keeps adb_metadata (auto_transition i target category now halt)"
  "keeps adb_metadata (auto_record_exit_attempt_started i now)"
  "keeps adb_metadata (auto_entry_attempts_on_jst_day now)"
  unfolding auto_create_intent_def auto_record_attempt_started_def auto_transition_def
    auto_record_exit_attempt_started_def auto_entry_attempts_on_jst_day_def
  by (intro frame)+

lemma keeps_checkpoint [frame]: "keeps auto_metadata auto_checkpoint"
  by (auto simp: keeps_def auto_checkpoint_def split: option.splits nat.splits)

lemma keeps_at_store [frame]:
  assumes "keeps adb_metadata m"
  shows "keeps auto_metadata (zoomE aw_store (\<lambda>s w. w\<lparr>aw_store := s\<rparr>) m)" "keeps auto_metadata (at_store m)"
proof -
  show "keeps auto_metadata (zoomE aw_store (\<lambda>s w. w\<lparr>aw_store := s\<rparr>) m)"
    using assms by (rule keeps_zoom) simp_all
  then show "keeps auto_metadata (at_store m)" unfolding at_store_def by (intro frame)
qed

lemma keeps_at [frame]:
  "keeps auto_metadata (at_sender n)" "keeps auto_metadata (at_exit_sender x)" "keeps auto_metadata (at_notifier y)"
  unfolding at_sender_def at_exit_sender_def at_notifier_def
  by (intro keeps_then keeps_checkpoint keeps_zoom_other; simp)+

lemma keeps_halts [frame]:
  "keeps auto_metadata (auto_result status cycle reasons)"
  "keeps auto_metadata (auto_halt_after_reason cycle reason now)"
  "keeps auto_metadata (auto_halt_before_attempt cycle reason now)"
  "keeps auto_metadata (auto_halt_after_outcome cycle outcome now)"
  unfolding auto_halt_after_outcome_def auto_halt_after_reason_def auto_halt_before_attempt_def auto_result_def
  by (intro frame)+

lemma keeps_engine:
  "keeps auto_metadata (auto_run_signal_once_synthetic signal policy safety now)"
  "keeps auto_metadata (auto_complete_exit_once_synthetic i now)"
  unfolding auto_run_signal_once_synthetic_def auto_enter_def auto_complete_exit_once_synthetic_def auto_blocked_def
  by (intro frame)+

text \<open>Every database of a run is unbound or holds one valid binding.\<close>

definition run_settled :: "(string \<times> string) list \<Rightarrow> bool" where
  "run_settled m \<longleftrightarrow> run_unbound m \<or> (\<exists>b c r d. run_bound b c r d m)"

lemma run_settled_load:
  assumes "run_settled (adb_metadata db)"
  shows "(run_unbound (adb_metadata db) \<and> auto_load_run_generation_safe db = Inr None)
    \<or> (\<exists>b c r d. run_bound b c r d (adb_metadata db) \<and> auto_load_run_generation_safe db = Inr (Some b))"
  using assms load_unbound load_bound by (metis run_settled_def)

lemma settled_append:
  assumes "run_settled m" and "k \<notin> set run_generation_keys"
  shows "run_settled (m @ [(k, v)])"
proof -
  have "map_of (m @ [(k, v)]) x = map_of m x" if "x \<in> set run_generation_keys" for x
    using that assms(2) by (auto simp: map_add_def split: option.splits)
  then have "run_unbound (m @ [(k, v)]) = run_unbound m" "run_bound b c r d (m @ [(k, v)]) = run_bound b c r d m" for b c r d
    by (simp_all add: run_unbound_def run_bound_def run_rows_match_def run_labels_def)
  then show ?thesis using assms(1) by (simp add: run_settled_def)
qed

lemma bind_raises: "auto_bind_run_generation label policy rl rd dl dd db = (Inl e, db') \<Longrightarrow> db' = db"
  by (auto simp: auto_bind_run_generation_def auto_bind_rows_def run_progs auto_insert_metadata_def Let_def
      split: option.splits if_splits prod.splits sum.splits)

lemma schema_key: "''schema_version'' \<notin> set run_generation_keys"
  by (simp add: run_generation_keys_def)

lemma auto_reach_settled: "auto_world_reach sent exits w \<Longrightarrow> run_settled (auto_metadata w)"
proof (induction rule: auto_world_reach.induct)
  case (auto_start sender exit_sender notifier interrupt w)
  then show ?case using auto_engine_world by (force simp: auto_empty_db_def run_settled_def run_unbound_def)
next
  case (auto_restart sent exits w sender exit_sender notifier interrupt w')
  then show ?case using auto_engine_world by metis
next
  case (auto_run sent exits w args policy sargs signal safety now r w')
  then show ?case using keepsD [OF keeps_engine(1)] by metis
next
  case (auto_exit sent exits w i now r w')
  then show ?case using keepsD [OF keeps_engine(2)] by metis
next
  case (auto_reopen sent exits w u db)
  have "adb_metadata db = auto_metadata w \<or> adb_metadata db = auto_metadata w @ [(''schema_version'', PHASE_A_SCHEMA_VERSION)]"
    using auto_reopen(2) by (auto simp: auto_initialize_def run_progs auto_insert_metadata_def
        split: option.splits if_splits prod.splits sum.splits)
  then show ?case using auto_reopen(3) settled_append [OF _ schema_key] by auto
next
  case (auto_bind sent exits w label policy rl rd dl dd b db)
  show ?case
  proof (cases b)
    case (Inl e)
    then show ?thesis using auto_bind bind_raises by fastforce
  next
    case (Inr b')
    then show ?thesis using bind_run [of label policy rl rd dl dd "aw_store w" b' db] auto_bind(2)
      by (auto simp: run_settled_def)
  qed
qed simp_all

text \<open>A bound store refuses every other binding and accepts its own again.\<close>

lemma bind_bound:
  assumes "run_bound b c r d (adb_metadata db)"
    and "auto_bind_run_generation label policy rl rd dl dd db = (x, db')"
  shows "db' = db \<and> (\<forall>b'. x = Inr b' \<longrightarrow> b' = b \<and> p_config_hash policy = c \<and> run_arguments label policy rl rd dl dd b r d)"
proof (cases x)
  case (Inl e)
  then show ?thesis using assms(2) bind_raises by auto
next
  case (Inr b')
  have "\<not> run_unbound (adb_metadata db)"
    using assms(1) by (auto simp: run_bound_def run_unbound_def run_generation_keys_def)
  then show ?thesis
    using bind_run [of label policy rl rd dl dd db b' db'] assms Inr run_bound_unique [OF assms(1)] by blast
qed

lemma bind_again:
  assumes "auto_bind_run_generation label policy rl rd dl dd db = (Inr b, db')"
  shows "auto_bind_run_generation label policy rl rd dl dd db' = (Inr b, db')"
proof -
  obtain r d where args: "run_arguments label policy rl rd dl dd b r d"
    and bound: "run_bound b (p_config_hash policy) r d (adb_metadata db')"
    using bind_run [OF assms] by auto
  have "list_all auto_safe_label [label, PyStr (p_strategy_version policy), PyHorizon (p_horizon policy), rl, dl]"
    and "list_all nonblank_str [PyStr (p_config_hash policy), rd, dd]"
    using assms by (auto simp: auto_bind_run_generation_def Let_def run_progs split: if_splits)
  then have "auto_bind_run_generation label policy rl rd dl dd =
      thenE (auto_bind_rows b (run_manifest b (p_config_hash policy) r d)
        (sha256_hex (run_manifest b (p_config_hash policy) r d))) (returnE b)"
    by (rule bind_eq) (use args in \<open>simp_all add: run_arguments_def\<close>)
  then show ?thesis using bound by (simp add: run_progs auto_bind_rows_def run_bound_def)
qed

section \<open>The canonical text of an event\<close>

definition auto_event_fields :: "int \<Rightarrow> string \<Rightarrow> string \<Rightarrow> string \<Rightarrow> string \<Rightarrow> (string \<times> json) list" where
  "auto_event_fields sequence i category label previous = [
     (''event_category'', JStr category), (''intent_id'', JStr i), (''previous_digest'', JStr previous),
     (''sequence'', JInt sequence), (''state_safe_label'', JStr label)]"

lemma auto_event_fields_at:
  "map_of (auto_event_fields n i c l p) ''event_category'' = Some (JStr c)"
  "map_of (auto_event_fields n i c l p) ''intent_id'' = Some (JStr i)"
  "map_of (auto_event_fields n i c l p) ''previous_digest'' = Some (JStr p)"
  "map_of (auto_event_fields n i c l p) ''sequence'' = Some (JInt n)"
  "map_of (auto_event_fields n i c l p) ''state_safe_label'' = Some (JStr l)"
  by (simp_all add: auto_event_fields_def)

lemma auto_event_fields_plain:
  "distinct (map fst (auto_event_fields n i c l p))" "\<forall>kv \<in> set (auto_event_fields n i c l p). json_plain (snd kv)"
  by (simp_all add: auto_event_fields_def)

lemma auto_event_canonical_inj:
  assumes "auto_event_canonical n i c l p = auto_event_canonical n' i' c' l' p'"
  shows "n = n' \<and> i = i' \<and> c = c' \<and> l = l' \<and> p = p'"
proof -
  have "auto_event_canonical n i c l p = json_dumps (JObj (auto_event_fields n i c l p))" for n i c l p
    unfolding auto_event_canonical_def auto_event_fields_def ..
  then have "map_of (auto_event_fields n i c l p) = map_of (auto_event_fields n' i' c' l' p')"
    using assms by (intro json_object_inj [OF auto_event_fields_plain auto_event_fields_plain]) simp
  then have eq: "map_of (auto_event_fields n i c l p) k = map_of (auto_event_fields n' i' c' l' p') k" for k by simp
  note field = auto_event_fields_at [of n i c l p, unfolded eq, unfolded auto_event_fields_at]
  from field show ?thesis by simp
qed

definition auto_canonical :: "auto_event \<Rightarrow> string" where
  "auto_canonical e = auto_event_canonical (ae_sequence e) (ae_intent_id e) (ae_category e)
     (ae_state_label e) (ae_previous e)"

text \<open>Two valid journals with the same last digest are equal or exhibit a collision of SHA-256.\<close>

lemma auto_journal_determined:
  assumes inv: "auto_store_inv db" and chain: "auto_chain es"
    and last: "last_digest ae_digest es = last_digest ae_digest (adb_events db)"
    and free: "\<And>e e'. e \<in> set (adb_events db) \<Longrightarrow> e' \<in> set es \<Longrightarrow>
      sha256_hex (auto_canonical e) = sha256_hex (auto_canonical e') \<Longrightarrow> auto_canonical e = auto_canonical e'"
  shows "es = adb_events db"
proof -
  have c: "auto_chain (adb_events db)" using inv by (simp add: auto_store_inv_def)
  have hex: "x \<noteq> genesis" if "is_hex64 x" for x using that by (auto simp: is_hex64_def genesis_def)
  have digest: "is_hex64 (ae_digest (last xs))" if chain: "auto_chain xs" and ne: "xs \<noteq> []" for xs
  proof -
    obtain ys y where "xs = ys @ [y]" using ne by (cases xs rule: rev_cases) auto
    then show ?thesis using chain
      by (simp add: auto_j.chain_append auto_expected_digest_def auto_event_digest_def)
  qed
  show ?thesis
  proof (cases "es = [] \<or> adb_events db = []")
    case True
    then show ?thesis using last hex digest [OF chain] digest [OF c] by (auto simp: last_digest_def split: if_splits)
  next
    case False
    have "collision_free ae_sequence ae_previous auto_expected_digest auto_event_body (adb_events db) es"
      unfolding collision_free_def
    proof (intro ballI impI)
      fix e e' assume "e \<in> set (adb_events db)" "e' \<in> set es" "auto_expected_digest e = auto_expected_digest e'"
      then have "auto_canonical e = auto_canonical e'"
        by (intro free) (simp_all add: auto_canonical_def auto_expected_digest_def auto_event_digest_def)
      then show "ae_sequence e = ae_sequence e' \<and> ae_previous e = ae_previous e' \<and> auto_event_body e = auto_event_body e'"
        unfolding auto_canonical_def auto_event_body_def by (drule_tac auto_event_canonical_inj) simp
    qed
    then show ?thesis using auto_j.tamper_evident [OF c chain] False last by simp
  qed
qed

end
