(* ===== verification/Auto_Properties.thy ===== *)
theory Auto_Properties
  imports Auto_Generation
begin

text \<open>
  The properties of the Phase A engine and its store, with the sample engine on which they are
  instantiated.
\<close>

section \<open>A sample engine\<close>

definition auto_sample_args :: phase_a_policy_args where
  "auto_sample_args = \<lparr>pa_strategy_version = PyStr ''V3'', pa_config_hash = PyStr ''cfg'',
     pa_horizon = PyHorizon MINUTES_30, pa_max_positions = PyInt 1, pa_max_entries_per_day = PyInt 1,
     pa_scale_in_allowed = PyBool False, pa_hedging_allowed = PyBool False,
     pa_opposite_signal_as_exit_allowed = PyBool False, pa_retry_allowed = PyBool False,
     pa_repost_allowed = PyBool False, pa_max_entry_attempts_per_intent = PyInt 1,
     pa_broker_native_protected_entry_required = PyBool True\<rparr>"

definition auto_sample_policy :: phase_a_policy where
  "auto_sample_policy = \<lparr>p_strategy_version = ''V3'', p_config_hash = ''cfg'', p_horizon = MINUTES_30,
     p_max_positions = 1, p_max_entries_per_day = 1, p_scale_in_allowed = False,
     p_hedging_allowed = False, p_opposite_signal_as_exit_allowed = False, p_retry_allowed = False,
     p_repost_allowed = False, p_max_entry_attempts_per_intent = 1,
     p_broker_native_protected_entry_required = True\<rparr>"

lemma auto_sample_policy: "PhaseAExecutionPolicy auto_sample_args = Inr auto_sample_policy"
  by code_simp

definition auto_sample_safety :: safety_snapshot where
  "auto_sample_safety = \<lparr>sf_boot_reconciled = True, sf_process_lock_held = True, sf_data_fresh = True,
     sf_clock_synchronized = True, sf_notification_path_ready = True, sf_local_position_count = 0,
     sf_active_intent_count = 0, sf_entries_today = 0, sf_external_position = False,
     sf_order_conflict = False, sf_kill_requested = False\<rparr>"

definition auto_sample_world :: auto_world where
  "auto_sample_world = \<lparr>aw_store = auto_empty_db,
     aw_sender = FakeProtectedEntrySender ACCEPTED_AND_PROTECTED,
     aw_exit_sender = FakePositionExitSender ACCEPTED_AND_FLAT,
     aw_notifier = FakeNotifier, aw_interrupt = None\<rparr>"

lemma auto_sample_world_reach: "auto_world_reach [] [] auto_sample_world"
  by (rule auto_start [where sender = "Some (Exactly (FakeProtectedEntrySender ACCEPTED_AND_PROTECTED))"
        and exit_sender = "Some (Exactly (FakePositionExitSender ACCEPTED_AND_FLAT))" and notifier = None
        and interrupt = None])
     (simp_all add: auto_unused_def H11AutoPhaseAEngine_def or_default_def exact_or_refused_def
       FakeProtectedEntrySender_def FakePositionExitSender_def fresh_sender_def auto_sample_world_def)

definition auto_sample_run :: "fake_cycle_result result \<times> auto_world" where
  "auto_sample_run = auto_run_signal_once_synthetic sample_signal auto_sample_policy auto_sample_safety
     sample_now auto_sample_world"

definition auto_sample_world1 :: auto_world where
  "auto_sample_world1 = snd auto_sample_run"

lemma auto_sample_world1_reach: "auto_world_reach [] [] auto_sample_world1"
  unfolding auto_sample_world1_def auto_sample_run_def
  by (rule auto_run [OF auto_sample_world_reach auto_sample_policy sample_FormalSignal]) (rule surjective_pairing)

definition auto_sample_id :: string where
  "auto_sample_id = (case build_intent_id sample_signal auto_sample_policy of Inr i \<Rightarrow> i)"

lemma auto_sample_id: "build_intent_id sample_signal auto_sample_policy = Inr auto_sample_id"
  by (simp add: auto_sample_id_def build_intent_id_def phase_a_accepts_def sample_signal_def auto_sample_policy_def)

lemma auto_sample_gate:
  "\<exists>gate. evaluate_phase_a_entry_gate sample_signal auto_sample_policy (auto_tightened auto_sample_safety 0 0 False)
      sample_now = Inr gate \<and> eg_fake_cycle_allowed gate"
  unfolding entry_gate_open
  by (auto simp: auto_tightened_def auto_sample_safety_def auto_sample_policy_def phase_a_accepts_def
      sample_signal_def signal_expired_def dt_at_or_after_def dt_comparable_def dt_leq_def dt_utc_def
      sample_now_def dt_aware_def)

section \<open>Running and exiting\<close>

text \<open>
  C9. What a run does, in full: in a reachable world whose process is not stopped, at an instant
  with a time zone, a directional signal either is blocked with the reasons of the gate and changes
  nothing, or is refused as a duplicate and changes nothing, or creates an intent whose result and
  final row are those of \<open>auto_entry_spec\<close>, which looks at nothing but the answers of the sender
  and the notifier.
\<close>

theorem auto_run_outcome:
  assumes reach: "auto_world_reach sent exits w" and env: "aw_interrupt w = None"
    and policy: "PhaseAExecutionPolicy args = Inr policy" and signal: "FormalSignal sargs = Inr signal"
    and directional: "s_decision signal \<noteq> STAY" and now: "dt_aware now"
    and gate: "evaluate_phase_a_entry_gate signal policy (auto_tightened safety
        (auto_active_intent_count (aw_store w))
        (count_rows (\<lambda>c. ac_entry_day c = Some (jst_day now)) (adb_cycles (aw_store w)))
        (auto_halt_latched (aw_store w))) now = Inr gate"
  shows "if \<not> eg_fake_cycle_allowed gate
    then auto_run_signal_once_synthetic signal policy safety now w =
      (Inr (auto_empty_result FC_BLOCKED_SAFE (eg_blocked_reasons gate)), w)
    else \<exists>i. build_intent_id signal policy = Inr i \<and>
      (if auto_duplicate signal i (aw_store w)
       then auto_run_signal_once_synthetic signal policy safety now w =
         (Inl (H11AutoPersistenceError ''duplicate signal intent refused''), w)
       else case auto_entry_spec (auto_env_of True sent exits w) (auto_new_cycle signal i now) now of
         (status, c, reasons) \<Rightarrow> \<exists>w'. auto_run_signal_once_synthetic signal policy safety now w =
             (Inr (auto_report status c reasons), w') \<and> auto_find i (aw_store w') = Some c)"
proof (cases "eg_fake_cycle_allowed gate")
  case False
  with auto_run_full [OF assms] show ?thesis by simp
next
  case True
  with auto_run_full [OF assms] obtain i where i: "build_intent_id signal policy = Inr i"
    and rest: "if auto_duplicate signal i (aw_store w)
       then auto_run_signal_once_synthetic signal policy safety now w =
         (Inl (H11AutoPersistenceError ''duplicate signal intent refused''), w)
       else case auto_entry_spec (auto_env_of True sent exits w) (auto_new_cycle signal i now) now of
         (status, c, reasons) \<Rightarrow> \<exists>w'. auto_run_signal_once_synthetic signal policy safety now w =
             (Inr (auto_report status c reasons), w') \<and> auto_find i (aw_store w') = Some c
             \<and> auto_world_inv (auto_env_of True sent exits w) w'" by auto
  show ?thesis
    using True i rest by (auto intro!: exI [of _ i] split: prod.splits if_splits)
qed

lemma auto_sample_world_facts [simp]:
  "aw_store auto_sample_world = auto_empty_db" "aw_interrupt auto_sample_world = None"
  "x_outcome (aw_sender auto_sample_world) = Some ACCEPTED_AND_PROTECTED"
  "x_outcome (aw_exit_sender auto_sample_world) = Some ACCEPTED_AND_FLAT"
  "n_accepts (aw_notifier auto_sample_world) category"
  by (simp_all add: auto_sample_world_def FakeProtectedEntrySender_def FakePositionExitSender_def
      fresh_sender_def n_accepts_def FakeNotifier_def)

definition auto_sample_row :: auto_cycle where
  "auto_sample_row = auto_transition_row AUTO_POSITION_PROTECTED sample_now None
     (auto_attempt_row sample_now (auto_new_cycle sample_signal auto_sample_id sample_now))"

lemma auto_sample_empty:
  "auto_active_intent_count auto_empty_db = 0" "\<not> auto_halt_latched auto_empty_db"
  "count_rows p (adb_cycles auto_empty_db) = 0" "\<not> auto_duplicate signal i auto_empty_db"
  by (simp_all add: auto_active_intent_count_def auto_empty_db_def auto_halt_latched_def select_one_def
      auto_duplicate_def auto_find_def)

lemma auto_sample_spec:
  "auto_entry_spec (auto_env_of True [] [] auto_sample_world)
      (auto_new_cycle sample_signal auto_sample_id sample_now) sample_now =
    (FC_POSITION_PROTECTED_SYNTHETIC, auto_sample_row, [])"
  by (simp add: auto_entry_spec_def auto_sample_row_def Let_def)

lemma auto_run_outcome_witness:
  "\<exists>w'. auto_run_signal_once_synthetic sample_signal auto_sample_policy auto_sample_safety sample_now
      auto_sample_world = (Inr (auto_report FC_POSITION_PROTECTED_SYNTHETIC auto_sample_row []), w')
    \<and> auto_find auto_sample_id (aw_store w') = Some auto_sample_row"
proof -
  obtain gate where gate: "evaluate_phase_a_entry_gate sample_signal auto_sample_policy
      (auto_tightened auto_sample_safety 0 0 False) sample_now = Inr gate" "eg_fake_cycle_allowed gate"
    using auto_sample_gate by blast
  with auto_run_outcome [OF auto_sample_world_reach _ auto_sample_policy sample_FormalSignal, of sample_now
      auto_sample_safety gate] auto_sample_empty auto_sample_spec auto_sample_id show ?thesis by simp
qed

text \<open>
  C10. What an exit does, in full: for a protected intent of a reachable world whose process is not
  stopped, the result and the final row are those of \<open>auto_exit_spec\<close>; for any other intent, or a
  naive instant, the call raises and nothing has changed.
\<close>

theorem auto_exit_outcome:
  assumes reach: "auto_world_reach sent exits w" and env: "aw_interrupt w = None"
  shows "case auto_find i (aw_store w) of
      Some c \<Rightarrow>
        if ac_state c = AUTO_POSITION_PROTECTED \<and> dt_aware now
        then case auto_exit_spec (auto_env_of True sent exits w) c now of
          (status, c', reasons) \<Rightarrow> \<exists>w'. auto_complete_exit_once_synthetic i now w =
             (Inr (auto_report status c' reasons), w') \<and> auto_find i (aw_store w') = Some c'
        else \<exists>e. auto_complete_exit_once_synthetic i now w = (Inl e, w)
    | None \<Rightarrow> \<exists>e. auto_complete_exit_once_synthetic i now w = (Inl e, w)"
  using auto_exit_full [OF assms, of i now] by (auto split: option.splits prod.splits if_splits)

lemma auto_sample_run_full:
  assumes reach: "auto_world_reach [] [] w" and w: "aw_store w = auto_empty_db" "aw_interrupt w = None"
    and spec: "auto_entry_spec (auto_env_of True [] [] w)
      (auto_new_cycle sample_signal auto_sample_id sample_now) sample_now = (status, c, reasons)"
  shows "\<exists>w'. auto_run_signal_once_synthetic sample_signal auto_sample_policy auto_sample_safety sample_now w =
      (Inr (auto_report status c reasons), w')
    \<and> auto_find auto_sample_id (aw_store w') = Some c \<and> auto_world_inv (auto_env_of True [] [] w) w'"
proof -
  obtain gate where "evaluate_phase_a_entry_gate sample_signal auto_sample_policy
      (auto_tightened auto_sample_safety 0 0 False) sample_now = Inr gate" "eg_fake_cycle_allowed gate"
    using auto_sample_gate by blast
  with auto_run_full [OF reach _ auto_sample_policy sample_FormalSignal, of sample_now
      auto_sample_safety gate] auto_sample_empty spec auto_sample_id w show ?thesis by simp
qed

lemmas auto_sample_run = auto_sample_run_full [OF auto_sample_world_reach auto_sample_world_facts(1,2) auto_sample_spec]

text \<open>With a refusing sender the same run halts.\<close>

definition auto_refusing_world :: auto_world where
  "auto_refusing_world = auto_sample_world\<lparr>aw_sender := RefusingProtectedEntrySender\<rparr>"

definition auto_halted_world :: auto_world where
  "auto_halted_world = snd (auto_run_signal_once_synthetic sample_signal auto_sample_policy auto_sample_safety
     sample_now auto_refusing_world)"

lemma auto_refusing_world_reach: "auto_world_reach [] [] auto_refusing_world"
  by (rule auto_start [where sender = None
        and exit_sender = "Some (Exactly (FakePositionExitSender ACCEPTED_AND_FLAT))" and notifier = None
        and interrupt = None])
     (simp_all add: auto_unused_def H11AutoPhaseAEngine_def or_default_def exact_or_refused_def
       RefusingProtectedEntrySender_def FakePositionExitSender_def fresh_sender_def auto_sample_world_def
       auto_refusing_world_def)

lemma auto_halted_world_reach: "auto_world_reach [] [] auto_halted_world"
  unfolding auto_halted_world_def
  by (rule auto_run [OF auto_refusing_world_reach auto_sample_policy sample_FormalSignal]) (rule surjective_pairing)

lemma auto_halted_world: "auto_halt_latched (aw_store auto_halted_world)"
proof -
  let ?c = "auto_attempt_row sample_now (auto_new_cycle sample_signal auto_sample_id sample_now)"
  have "auto_entry_spec (auto_env_of True [] [] auto_refusing_world)
      (auto_new_cycle sample_signal auto_sample_id sample_now) sample_now =
    (FC_HALTED_SAFE, auto_transition_row AUTO_HALTED sample_now (Some ''SYNTHETIC_BOUNDARY_REFUSED'') ?c,
     [''SYNTHETIC_BOUNDARY_REFUSED''])"
    by (simp add: auto_refusing_world_def auto_entry_spec_def Let_def auto_halted_def
        RefusingProtectedEntrySender_def fresh_sender_def)
  from auto_sample_run_full [OF auto_refusing_world_reach _ _ this] obtain c where
    "auto_find auto_sample_id (aw_store auto_halted_world) = Some c" "ac_state c = AUTO_HALTED"
    by (auto simp: auto_halted_world_def auto_refusing_world_def)
  then show ?thesis using auto_find_Some by (fastforce simp: auto_halt_latched_def select_one_None)
qed

lemma auto_sample_world1:
  "auto_find auto_sample_id (aw_store auto_sample_world1) = Some auto_sample_row"
  "aw_interrupt auto_sample_world1 = None"
  "x_outcome (aw_exit_sender auto_sample_world1) = Some ACCEPTED_AND_FLAT"
  "n_accepts (aw_notifier auto_sample_world1) category"
  using auto_sample_run unfolding auto_sample_world1_def auto_sample_run_def
  by (auto simp: auto_world_inv_def auto_senders_ok_def)

lemma auto_exit_outcome_witness:
  "\<exists>w' c'. auto_complete_exit_once_synthetic auto_sample_id sample_now auto_sample_world1 =
      (Inr (auto_report FC_FLAT_RECONCILED_SYNTHETIC c' []), w')
    \<and> auto_find auto_sample_id (aw_store w') = Some c' \<and> ac_state c' = AUTO_FLAT_RECONCILED"
proof -
  have st: "ac_state auto_sample_row = AUTO_POSITION_PROTECTED" by (simp add: auto_sample_row_def)
  obtain c' where "auto_exit_spec (auto_env_of True [] [] auto_sample_world1) auto_sample_row sample_now =
      (FC_FLAT_RECONCILED_SYNTHETIC, c', [])" "ac_state c' = AUTO_FLAT_RECONCILED"
    using auto_sample_world1 by (simp add: auto_exit_spec_def Let_def)
  with auto_exit_outcome [OF auto_sample_world1_reach auto_sample_world1(2), of auto_sample_id sample_now]
    auto_sample_world1(1) st show ?thesis by auto
qed

section \<open>Across crashes and restarts\<close>

text \<open>
  C11. Whatever the engines, senders, notifiers and stops, no intent is ever handed to an entry
  sender twice nor to an exit sender twice, and every intent handed over has its attempt counted
  in its row and journalled exactly once before.
\<close>

theorem auto_sent_once:
  assumes "auto_world_reach sent exits w"
  shows "distinct (sent @ x_calls (aw_sender w)) \<and> distinct (exits @ x_calls (aw_exit_sender w))
    \<and> (\<forall>i \<in> set (sent @ x_calls (aw_sender w)). \<exists>c. auto_find i (aw_store w) = Some c
         \<and> ac_attempt_count c = 1
         \<and> count_rows (\<lambda>e. ae_intent_id e = i \<and> ae_category e = ''ENTRY_ATTEMPT_STARTED_SYNTHETIC'')
             (adb_events (aw_store w)) = 1)
    \<and> (\<forall>i \<in> set (exits @ x_calls (aw_exit_sender w)). \<exists>c. auto_find i (aw_store w) = Some c
         \<and> ac_exit_attempt_count c = 1
         \<and> count_rows (\<lambda>e. ae_intent_id e = i \<and> ae_category e = ''EXIT_ATTEMPT_STARTED_SYNTHETIC'')
             (adb_events (aw_store w)) = 1)"
proof -
  let ?es = "adb_events (aw_store w)"
  have counts: "int (count_rows (\<lambda>e. ae_intent_id e = i \<and> ae_category e = ''ENTRY_ATTEMPT_STARTED_SYNTHETIC'') ?es)
        = ac_attempt_count c
      \<and> int (count_rows (\<lambda>e. ae_intent_id e = i \<and> ae_category e = ''EXIT_ATTEMPT_STARTED_SYNTHETIC'') ?es)
        = ac_exit_attempt_count c"
    if "auto_find i (aw_store w) = Some c" for i c
    using auto_find_Some [OF that] auto_reach_store [OF assms]
    by (auto simp: auto_store_inv_def auto_journal_agrees_def auto_journal_count_def)
  have ok: "auto_sent_ok ac_attempt_count (sent @ x_calls (aw_sender w)) (aw_store w)"
      "auto_sent_ok ac_exit_attempt_count (exits @ x_calls (aw_exit_sender w)) (aw_store w)"
    using auto_reach_inv [OF assms] by (simp_all add: auto_world_inv_def auto_ledger_ok_def)
  show ?thesis
  proof (intro conjI ballI)
    fix i assume "i \<in> set (sent @ x_calls (aw_sender w))"
    then obtain c where c: "auto_find i (aw_store w) = Some c" "ac_attempt_count c = 1"
      using ok(1) unfolding auto_sent_ok_def by blast
    with counts [OF c(1)] show "\<exists>c. auto_find i (aw_store w) = Some c \<and> ac_attempt_count c = 1
        \<and> count_rows (\<lambda>e. ae_intent_id e = i \<and> ae_category e = ''ENTRY_ATTEMPT_STARTED_SYNTHETIC'') ?es = 1"
      by (intro exI [of _ c]) simp
  next
    fix i assume "i \<in> set (exits @ x_calls (aw_exit_sender w))"
    then obtain c where c: "auto_find i (aw_store w) = Some c" "ac_exit_attempt_count c = 1"
      using ok(2) unfolding auto_sent_ok_def by blast
    with counts [OF c(1)] show "\<exists>c. auto_find i (aw_store w) = Some c \<and> ac_exit_attempt_count c = 1
        \<and> count_rows (\<lambda>e. ae_intent_id e = i \<and> ae_category e = ''EXIT_ATTEMPT_STARTED_SYNTHETIC'') ?es = 1"
      by (intro exI [of _ c]) simp
  qed (use ok in \<open>simp_all add: auto_sent_ok_def\<close>)
qed

lemma auto_sent_once_witness:
  "distinct ([] @ x_calls (aw_sender auto_sample_world1)) \<and> distinct ([] @ x_calls (aw_exit_sender auto_sample_world1))"
  using auto_sent_once [OF auto_sample_world1_reach] by blast

text \<open>
  C12. In every reachable database at most one cycle is active or halted, and at most one cycle
  has its entry attempt on a given JST day.
\<close>

theorem auto_one_cycle_one_entry_per_day:
  assumes "auto_world_reach sent exits w"
  shows "count_rows (\<lambda>c. auto_active (ac_state c) \<or> ac_state c = AUTO_HALTED) (adb_cycles (aw_store w)) \<le> 1
    \<and> count_rows (\<lambda>c. ac_entry_day c = Some day) (adb_cycles (aw_store w)) \<le> 1"
proof -
  have keys: "distinct (map ac_intent_id (adb_cycles (aw_store w)))"
    using auto_reach_store [OF assms] by (simp add: auto_store_inv_def auto_keys_def)
  obtain i where "auto_alone i (aw_store w)" and daily: "auto_daily (aw_store w)"
    using auto_reach_inv [OF assms] by (auto simp: auto_world_inv_def auto_ledger_ok_def)
  then have "count_rows (\<lambda>c. auto_active (ac_state c) \<or> ac_state c = AUTO_HALTED) (adb_cycles (aw_store w)) \<le> 1"
    by (intro count_rows_le_one [OF keys]) (auto simp: auto_alone_def auto_busy_def)
  moreover have "count_rows (\<lambda>c. ac_entry_day c = Some day) (adb_cycles (aw_store w)) \<le> 1"
  proof (rule count_rows_le_one [OF keys])
    fix c d assume "c \<in> set (adb_cycles (aw_store w))" "d \<in> set (adb_cycles (aw_store w))"
      and "ac_entry_day c = Some day" "ac_entry_day d = Some day"
    then show "ac_intent_id c = ac_intent_id d" using daily unfolding auto_daily_def by (metis option.distinct(1))
  qed
  ultimately show ?thesis ..
qed

lemma auto_one_cycle_one_entry_per_day_witness:
  "count_rows (\<lambda>c. ac_entry_day c = Some (jst_day sample_now)) (adb_cycles (aw_store auto_sample_world1)) \<le> 1"
  using auto_one_cycle_one_entry_per_day [OF auto_sample_world1_reach] by blast

text \<open>
  C13. The journal of every reachable database verifies, and its entries tell the state and both
  attempt counters of every cycle.
\<close>

theorem auto_journal_always_verifies:
  assumes "auto_world_reach sent exits w"
  shows "(\<exists>s. auto_verify_journal (aw_store w) = Inr s \<and> ajs_valid s
      \<and> ajs_event_count s = length (adb_events (aw_store w)))
    \<and> (\<forall>c \<in> set (adb_cycles (aw_store w)).
         map_of (rev (map (\<lambda>e. (ae_intent_id e, ae_state_label e)) (adb_events (aw_store w)))) (ac_intent_id c)
           = Some (auto_state_value (ac_state c))
         \<and> int (count_rows (\<lambda>e. ae_intent_id e = ac_intent_id c \<and> ae_category e = ''ENTRY_ATTEMPT_STARTED_SYNTHETIC'')
             (adb_events (aw_store w))) = ac_attempt_count c
         \<and> int (count_rows (\<lambda>e. ae_intent_id e = ac_intent_id c \<and> ae_category e = ''EXIT_ATTEMPT_STARTED_SYNTHETIC'')
             (adb_events (aw_store w))) = ac_exit_attempt_count c)"
proof -
  have inv: "auto_store_inv (aw_store w)" by (rule auto_reach_store [OF assms])
  then have chain: "auto_chain (adb_events (aw_store w))" by (simp add: auto_store_inv_def)
  then show ?thesis
    using inv auto_events_in_order_chain [OF chain]
    by (simp add: auto_verify_journal_eq auto_store_inv_def auto_journal_agrees_def auto_journal_label_def
        auto_journal_count_def)
qed

lemma auto_journal_always_verifies_witness:
  "\<exists>s. auto_verify_journal (aw_store auto_sample_world1) = Inr s \<and> ajs_valid s"
  using auto_journal_always_verifies [OF auto_sample_world1_reach] by blast

text \<open>
  C14. A halt is final: once a cycle is halted, every directional signal is blocked with
  \<open>KILL_REQUESTED\<close> among its reasons and every exit is refused; neither changes the database or
  calls a sender.
\<close>

theorem auto_halt_is_final:
  assumes reach: "auto_world_reach sent exits w" and halted: "auto_halt_latched (aw_store w)"
    and signal: "FormalSignal sargs = Inr signal" and directional: "s_decision signal \<noteq> STAY" and now: "dt_aware now"
  shows "(\<exists>reasons. ''KILL_REQUESTED'' \<in> set reasons
      \<and> auto_run_signal_once_synthetic signal policy safety now w =
        (Inr (auto_empty_result FC_BLOCKED_SAFE reasons), w))
    \<and> (\<exists>e k. auto_complete_exit_once_synthetic i now' w = (Inl e, w\<lparr>aw_interrupt := k\<rparr>))"
proof
  have sig: "dt_aware (s_valid_until signal)" using FormalSignal_signal_ok [OF signal] by (simp add: signal_ok_def)
  let ?snapshot = "auto_tightened safety (auto_active_intent_count (aw_store w))
      (count_rows (\<lambda>c. ac_entry_day c = Some (jst_day now)) (adb_cycles (aw_store w))) True"
  obtain b where b: "signal_expired now signal = Inr b" using signal_expired_returns [OF sig] by blast
  obtain gate where gate: "evaluate_phase_a_entry_gate signal policy ?snapshot now = Inr gate"
    using auto_gate_returns [OF sig] by blast
  have kill: "''KILL_REQUESTED'' \<in> set (eg_blocked_reasons gate)" and closed: "\<not> eg_fake_cycle_allowed gate"
    using gate b by (auto simp: evaluate_phase_a_entry_gate_def auto_tightened_def reason_if_def Let_def)
  have run: "auto_run_signal_once_synthetic signal policy safety now w =
      (Inr (auto_empty_result FC_BLOCKED_SAFE (eg_blocked_reasons gate)), w)"
    using directional now gate halted closed
    by (simp add: auto_run_signal_once_synthetic_def run_progs auto_entry_attempts_on_jst_day_def
        auto_timestamp_def auto_blocked_def)
  then show "\<exists>reasons. ''KILL_REQUESTED'' \<in> set reasons
      \<and> auto_run_signal_once_synthetic signal policy safety now w =
        (Inr (auto_empty_result FC_BLOCKED_SAFE reasons), w)"
    using kill by blast
  have inv: "auto_world_inv (auto_env_of False sent exits w) w" by (rule auto_reach_inv [OF reach])
  obtain h where h: "h \<in> set (adb_cycles (aw_store w))" "ac_state h = AUTO_HALTED"
    using halted by (auto simp: auto_halt_latched_def select_one_None)
  have keys: "auto_keys (aw_store w)" using auto_reach_store [OF reach] by (simp add: auto_store_inv_def)
  have "ac_state c \<noteq> AUTO_POSITION_PROTECTED" if c: "auto_find i (aw_store w) = Some c" for c
  proof
    assume "ac_state c = AUTO_POSITION_PROTECTED"
    then have "auto_alone (ac_intent_id c) (aw_store w)"
      using auto_protected_holds [OF inv c] by (simp add: auto_holds_def)
    then have "ac_intent_id h = ac_intent_id c" using h by (simp add: auto_alone_def auto_busy_def)
    then have "h = c" using auto_find_unique [OF keys c h(1)] auto_find_Some [OF c] by simp
    with h \<open>ac_state c = AUTO_POSITION_PROTECTED\<close> show False by simp
  qed
  then show "\<exists>e k. auto_complete_exit_once_synthetic i now' w = (Inl e, w\<lparr>aw_interrupt := k\<rparr>)"
    using auto_exit_refused [OF inv] by blast
qed

lemma auto_halt_is_final_witness:
  "\<exists>reasons. ''KILL_REQUESTED'' \<in> set reasons
     \<and> auto_run_signal_once_synthetic sample_signal auto_sample_policy auto_sample_safety sample_now auto_halted_world =
       (Inr (auto_empty_result FC_BLOCKED_SAFE reasons), auto_halted_world)"
  using auto_halt_is_final [OF auto_halted_world_reach auto_halted_world sample_FormalSignal, of sample_now] by simp

text \<open>
  C15. Recovery after a restart: it never allows an entry or an exit to be sent again; it lets an
  attempt start only for an intent that was never sent and observes only intents that were, whose
  exit was not; it continues only where the reconciliation at boot agrees, and it is stricter in
  one case, an exit that is pending while the position still exists.
\<close>

theorem auto_recovery_is_safe:
  assumes reach: "auto_world_reach sent exits w" and c: "auto_find i (aw_store w) = Some c"
  shows "let d = evaluate_restart_recovery c broker fresh;
      boot = evaluate_boot_reconcile (Some (ac_state c)) (Some broker) (PyBool fresh)
    in \<not> rd_entry_resend_allowed d \<and> \<not> rd_exit_resend_allowed d \<and> \<not> rd_actual_post_allowed d
      \<and> (rd_action d = START_SYNTHETIC_ATTEMPT \<longrightarrow> i \<notin> set (sent @ x_calls (aw_sender w)))
      \<and> (rd_action d \<in> {OBSERVE_PENDING_NO_RESEND, MONITOR_PROTECTED_POSITION} \<longrightarrow>
           ac_attempt_count c = 1 \<and> i \<notin> set (exits @ x_calls (aw_exit_sender w)))
      \<and> (rd_safe_to_continue_observation d \<longleftrightarrow> rd_action d \<noteq> HALT_OPERATOR_REVIEW)
      \<and> (rd_safe_to_continue_observation d \<longleftrightarrow> br_reconciled boot
           \<and> \<not> (ac_state c = EXIT_PENDING \<and> broker = BROKER_POSITION_PROTECTED))"
proof -
  have ledger: "auto_ledger_ok (sent @ x_calls (aw_sender w)) (exits @ x_calls (aw_exit_sender w)) (aw_store w)"
    using auto_reach_inv [OF reach] by (simp add: auto_world_inv_def)
  have row: "auto_row_ok c" using auto_reach_store [OF reach] auto_find_Some [OF c] by (simp add: auto_store_inv_def)
  note fresh = auto_ledger_fresh [OF ledger c]
  note defs = evaluate_restart_recovery_def evaluate_boot_reconcile_def recovery_halt_def recovery_continue_def
    auto_row_ok_def is_true_def Let_def
  show ?thesis
    using row fresh by (cases "ac_state c"; cases broker; cases fresh) (simp_all add: defs)
qed

lemma auto_recovery_is_safe_witness:
  "rd_safe_to_continue_observation (evaluate_restart_recovery auto_sample_row BROKER_POSITION_PROTECTED True)
    \<and> auto_sample_id \<notin> set ([] @ x_calls (aw_exit_sender auto_sample_world1))"
proof -
  have st: "ac_state auto_sample_row = AUTO_POSITION_PROTECTED" by (simp add: auto_sample_row_def)
  then have "rd_action (evaluate_restart_recovery auto_sample_row BROKER_POSITION_PROTECTED True) = MONITOR_PROTECTED_POSITION"
    by (simp add: evaluate_restart_recovery_def recovery_continue_def)
  then show ?thesis
    using auto_recovery_is_safe [OF auto_sample_world1_reach auto_sample_world1(1), of BROKER_POSITION_PROTECTED True]
    by (simp add: Let_def)
qed

section \<open>Run generations\<close>

text \<open>
  C16. Round trip: what \<open>bind_run_generation\<close> returned is what \<open>load_run_generation_safe\<close> reads
  from the database it left, carries the labels of the call, and the same call binds again without
  a change.
\<close>

theorem auto_generation_round_trip:
  assumes bind: "auto_bind_run_generation label policy rl rd dl dd db = (Inr b, db')"
  shows "auto_load_run_generation_safe db' = Inr (Some b)
    \<and> as_str label = Some (rb_generation_label b) \<and> as_str rl = Some (rb_risk_policy_label b)
    \<and> as_str dl = Some (rb_dead_man_policy_label b) \<and> rb_strategy_version b = p_strategy_version policy
    \<and> rb_selected_horizon b = horizon_value (p_horizon policy)
    \<and> auto_bind_run_generation label policy rl rd dl dd db' = (Inr b, db')"
  using bind_run [OF bind] load_bound bind_again [OF bind] by (auto simp: run_arguments_def)

definition auto_sample_bind :: "auto_db \<Rightarrow> run_binding result \<times> auto_db" where
  "auto_sample_bind = auto_bind_run_generation (PyStr ''G1'') auto_sample_policy (PyStr ''RISK'') (PyStr ''aa'')
     (PyStr ''DEAD'') (PyStr ''bb'')"

definition auto_sample_binding :: run_binding where
  "auto_sample_binding = \<lparr>rb_generation_label = ''G1'', rb_strategy_version = ''V3'', rb_selected_horizon = ''30m'',
     rb_risk_policy_label = ''RISK'', rb_dead_man_policy_label = ''DEAD''\<rparr>"

lemma auto_sample_bind_run: "\<exists>db. auto_sample_bind auto_empty_db = (Inr auto_sample_binding, db)"
proof -
  have eq: "auto_sample_bind = thenE (auto_bind_rows auto_sample_binding (run_manifest auto_sample_binding ''cfg'' ''aa'' ''bb'')
      (sha256_hex (run_manifest auto_sample_binding ''cfg'' ''aa'' ''bb''))) (returnE auto_sample_binding)"
    unfolding auto_sample_bind_def
  proof (rule bind_eq)
    show "list_all auto_safe_label [PyStr ''G1'', PyStr (p_strategy_version auto_sample_policy),
        PyHorizon (p_horizon auto_sample_policy), PyStr ''RISK'', PyStr ''DEAD'']" by code_simp
    show "list_all nonblank_str [PyStr (p_config_hash auto_sample_policy), PyStr ''aa'', PyStr ''bb'']" by code_simp
  qed (simp_all add: auto_sample_binding_def auto_sample_policy_def)
  have rows: "auto_bind_rows b m x auto_empty_db = (Inr (), auto_empty_db\<lparr>adb_metadata := run_labels b
      @ [(''run_generation_manifest'', m), (''run_generation_digest'', x)]\<rparr>)" for b m x
    by (simp add: auto_bind_rows_def run_progs auto_insert_metadata_def auto_empty_db_def run_labels_def)
  show ?thesis unfolding eq run_then rows by auto
qed

lemma auto_generation_round_trip_witness:
  "\<exists>db. auto_sample_bind auto_empty_db = (Inr auto_sample_binding, db)
    \<and> auto_load_run_generation_safe db = Inr (Some auto_sample_binding)"
proof -
  obtain db where db: "auto_sample_bind auto_empty_db = (Inr auto_sample_binding, db)"
    using auto_sample_bind_run by auto
  then show ?thesis using auto_generation_round_trip [OF db [unfolded auto_sample_bind_def]] by auto
qed

text \<open>
  A bound run stays bound: on every reachable database reading the binding returns without an
  exception, running a signal and completing an exit never change what is read, and once a binding
  is there no later call of \<open>bind_run_generation\<close> changes the database: it raises or returns that
  binding, and then it was made with the same configuration hash.
\<close>

theorem auto_generation_is_final:
  assumes reach: "auto_world_reach sent exits w"
  shows "\<exists>x. auto_load_run_generation_safe (aw_store w) = Inr x
    \<and> (auto_run_signal_once_synthetic signal policy safety now w = (r1, w1) \<longrightarrow>
         auto_load_run_generation_safe (aw_store w1) = Inr x)
    \<and> (auto_complete_exit_once_synthetic i now w = (r2, w2) \<longrightarrow>
         auto_load_run_generation_safe (aw_store w2) = Inr x)
    \<and> (\<forall>b. x = Some b \<and> auto_bind_run_generation label policy rl rd dl dd (aw_store w) = (y, db) \<longrightarrow>
         db = aw_store w \<and> (\<forall>b'. y = Inr b' \<longrightarrow> b' = b
           \<and> map_of (adb_metadata db) ''run_generation_digest'' = Some (sha256_hex
             (run_manifest b (p_config_hash policy) (the (as_str rd)) (the (as_str dd))))))"
proof -
  have meta: "auto_load_run_generation_safe a = auto_load_run_generation_safe b"
    if "adb_metadata a = adb_metadata b" for a b
    using that by (simp add: auto_load_run_generation_safe_def)
  have run: "auto_run_signal_once_synthetic signal policy safety now w = (r1, w1) \<longrightarrow>
      auto_load_run_generation_safe (aw_store w1) = auto_load_run_generation_safe (aw_store w)"
    using keepsD [OF keeps_engine(1)] meta by blast
  have exit: "auto_complete_exit_once_synthetic i now w = (r2, w2) \<longrightarrow>
      auto_load_run_generation_safe (aw_store w2) = auto_load_run_generation_safe (aw_store w)"
    using keepsD [OF keeps_engine(2)] meta by blast
  have bind: "db = aw_store w \<and> (\<forall>b'. y = Inr b' \<longrightarrow> b' = b
      \<and> map_of (adb_metadata db) ''run_generation_digest'' = Some (sha256_hex
          (run_manifest b (p_config_hash policy) (the (as_str rd)) (the (as_str dd)))))"
    if "run_bound b c r d (auto_metadata w)"
      and "auto_bind_run_generation label policy rl rd dl dd (aw_store w) = (y, db)" for b c r d
    using bind_bound [OF that] that(1) by (auto simp: run_arguments_def run_bound_def)
  from run_settled_load [OF auto_reach_settled [OF reach]] show ?thesis
  proof
    assume "run_unbound (auto_metadata w) \<and> auto_load_run_generation_safe (aw_store w) = Inr None"
    then show ?thesis using run exit by (intro exI [of _ None]) simp
  next
    assume "\<exists>b c r d. run_bound b c r d (auto_metadata w) \<and> auto_load_run_generation_safe (aw_store w) = Inr (Some b)"
    then obtain b c r d where b: "run_bound b c r d (auto_metadata w)"
      "auto_load_run_generation_safe (aw_store w) = Inr (Some b)" by auto
    show ?thesis using run exit b(2) bind [OF b(1)] by (intro exI [of _ "Some b"]) simp
  qed
qed

lemma auto_generation_is_final_witness:
  "\<exists>x. auto_load_run_generation_safe (aw_store auto_sample_world) = Inr x
    \<and> auto_load_run_generation_safe (aw_store auto_sample_world1) = Inr x"
proof -
  have "auto_run_signal_once_synthetic sample_signal auto_sample_policy auto_sample_safety sample_now auto_sample_world =
      (fst auto_sample_run, auto_sample_world1)"
    by (simp add: auto_sample_world1_def auto_sample_run_def)
  then show ?thesis using auto_generation_is_final [OF auto_sample_world_reach] by blast
qed

section \<open>Tamper evidence\<close>

text \<open>
  C18. A database, however it came about, that passes \<open>verify_journal\<close> and whose last event carries
  the digest of the last event of a reachable database has the same events, or two of the JSON
  texts hashed in the two journals are a SHA-256 collision.
\<close>

theorem auto_journal_tamper_evident:
  assumes reach: "auto_world_reach sent exits w" and ok: "auto_verify_journal db = Inr s"
    and last: "last_digest ae_digest (auto_events_in_order db) = last_digest ae_digest (auto_events_in_order (aw_store w))"
  shows "auto_events_in_order db = auto_events_in_order (aw_store w)
    \<or> (\<exists>e \<in> set (adb_events (aw_store w)). \<exists>e' \<in> set (adb_events db).
        auto_canonical e \<noteq> auto_canonical e' \<and> sha256_hex (auto_canonical e) = sha256_hex (auto_canonical e'))"
proof -
  have inv: "auto_store_inv (aw_store w)" by (rule auto_reach_store [OF reach])
  then have order: "auto_events_in_order (aw_store w) = adb_events (aw_store w)"
    by (intro auto_events_in_order_chain) (simp add: auto_store_inv_def)
  have chain: "auto_chain (auto_events_in_order db)"
    using ok by (simp add: auto_verify_journal_eq split: if_splits)
  have "set (auto_events_in_order db) = set (adb_events db)" by (simp add: auto_events_in_order_def)
  then show ?thesis
    using auto_journal_determined [OF inv chain] last unfolding order by blast
qed

lemma auto_journal_tamper_evident_witness:
  "\<exists>s. auto_verify_journal (aw_store auto_sample_world1) = Inr s
    \<and> (auto_events_in_order (aw_store auto_sample_world1) = auto_events_in_order (aw_store auto_sample_world1)
       \<or> (\<exists>e \<in> set (adb_events (aw_store auto_sample_world1)). \<exists>e' \<in> set (adb_events (aw_store auto_sample_world1)).
          auto_canonical e \<noteq> auto_canonical e' \<and> sha256_hex (auto_canonical e) = sha256_hex (auto_canonical e')))"
proof -
  have "auto_store_inv (aw_store auto_sample_world1)" by (rule auto_reach_store [OF auto_sample_world1_reach])
  then have "auto_chain (auto_events_in_order (aw_store auto_sample_world1))"
    using auto_events_in_order_chain by (simp add: auto_store_inv_def)
  then have ok: "auto_verify_journal (aw_store auto_sample_world1) = Inr
      \<lparr>ajs_valid = True, ajs_event_count = length (adb_events (aw_store auto_sample_world1)),
       ajs_final_state = (if adb_events (aw_store auto_sample_world1) = [] then ''EMPTY''
         else ae_state_label (last (auto_events_in_order (aw_store auto_sample_world1))))\<rparr>"
    by (simp add: auto_verify_journal_eq)
  show ?thesis using auto_journal_tamper_evident [OF auto_sample_world1_reach ok refl] ok by blast
qed

end
