(* ===== verification/Py_Iso.thy ===== *)
theory Py_Iso
  imports Py_Json
begin

text \<open>
  \<open>date.fromisoformat\<close> and \<open>datetime.fromisoformat\<close> of CPython 3.11 (\<open>_datetimemodule.c\<close>):
  the calendar, week and basic formats, the optional separators and the fractions.  The round
  trips show that what \<open>isoformat\<close> writes is read back unchanged, which is how the risk
  ledger's days and the dead-man heartbeat survive a restart.
\<close>

section \<open>Calendar dates\<close>

definition is_leap :: "int \<Rightarrow> bool" where
  "is_leap y \<longleftrightarrow> y mod 4 = 0 \<and> (y mod 100 \<noteq> 0 \<or> y mod 400 = 0)"

definition days_before_year :: "int \<Rightarrow> int" where
  "days_before_year y = (y - 1) * 365 + (y - 1) div 4 - (y - 1) div 100 + (y - 1) div 400"

definition month_length :: "int \<Rightarrow> int \<Rightarrow> int" where
  "month_length y m = (if m = 2 \<and> is_leap y then 29 else days_in_month m)"

definition ymd2ord :: "int \<Rightarrow> int \<Rightarrow> int \<Rightarrow> int" where
  "ymd2ord y m d = days_before_year y + (days_before_month m + (if 2 < m \<and> is_leap y then 1 else 0)) + d"

definition max_ordinal :: int where
  "max_ordinal = 3652059"

text \<open>\<open>date(y, m, d)\<close>, by its ordinal; \<open>None\<close> is the \<open>ValueError\<close>.\<close>

definition py_date :: "int \<Rightarrow> int \<Rightarrow> int \<Rightarrow> int option" where
  "py_date y m d =
    (if 1 \<le> y \<and> y \<le> 9999 \<and> 1 \<le> m \<and> m \<le> 12 \<and> 1 \<le> d \<and> d \<le> month_length y m
     then Some (ymd2ord y m d) else None)"

text \<open>\<open>iso_to_ymd\<close>: the day of an ISO week.\<close>

definition iso_week_date :: "int \<Rightarrow> int \<Rightarrow> int \<Rightarrow> int option" where
  "iso_week_date y week day =
    (let first = ymd2ord y 1 1; weekday = (first + 6) mod 7;
         monday = first - weekday + (if 3 < weekday then 7 else 0);
         n = monday + (week - 1) * 7 + (day - 1)
     in if y < 1 \<or> 9999 < y then None
        else if \<not> (0 < week \<and> week < 53)
          \<and> \<not> (week = 53 \<and> (weekday = 3 \<or> weekday = 2 \<and> is_leap y)) then None
        else if \<not> (0 < day \<and> day < 8) then None
        else if 1 \<le> n \<and> n \<le> max_ordinal then Some n else None)"

text \<open>\<open>parse_digits\<close>: exactly \<open>n\<close> digits.\<close>

definition parse_digits :: "nat \<Rightarrow> string \<Rightarrow> (int \<times> string) option" where
  "parse_digits n s =
    (if n \<le> length s \<and> list_all is_digit (take n s)
     then Some (int (digits_value (take n s)), drop n s) else None)"

definition parse_isoformat_date :: "string \<Rightarrow> int option" where
  "parse_isoformat_date s =
    (case parse_digits 4 s of None \<Rightarrow> None | Some (y, r) \<Rightarrow>
       let sep = (take 1 r = ''-''); r = (if sep then drop 1 r else r)
       in if take 1 r = ''W'' then
            (case parse_digits 2 (drop 1 r) of None \<Rightarrow> None | Some (week, r) \<Rightarrow>
               if r = [] then iso_week_date y week 1
               else if sep \<and> take 1 r \<noteq> ''-'' then None
               else (case parse_digits 1 (if sep then drop 1 r else r) of None \<Rightarrow> None
                     | Some (day, _) \<Rightarrow> iso_week_date y week day))
          else
            (case parse_digits 2 r of None \<Rightarrow> None | Some (m, r) \<Rightarrow>
               if sep \<and> take 1 r \<noteq> ''-'' then None
               else (case parse_digits 2 (if sep then drop 1 r else r) of None \<Rightarrow> None
                     | Some (d, _) \<Rightarrow> py_date y m d)))"

definition date_fromisoformat :: "string \<Rightarrow> int option" where
  "date_fromisoformat s = (if length s \<in> {7, 8, 10} then parse_isoformat_date s else None)"

text \<open>\<open>date.isoformat()\<close> and \<open>date.strftime("%Y-%m")\<close> of an ordinal.\<close>

definition ordinal_isoformat :: "int \<Rightarrow> string" where
  "ordinal_isoformat n = (case ord2ymd n of (y, m, d) \<Rightarrow>
     zero_pad 4 (nat y) @ ''-'' @ zero_pad 2 (nat m) @ ''-'' @ zero_pad 2 (nat d))"

definition ordinal_month :: "int \<Rightarrow> string" where
  "ordinal_month n = (case ord2ymd n of (y, m, d) \<Rightarrow> zero_pad 4 (nat y) @ ''-'' @ zero_pad 2 (nat m))"

lemma date_isoformat_ordinal: "date_isoformat d = ordinal_isoformat (dt_ordinal d)"
  by (simp add: date_isoformat_def ordinal_isoformat_def)

section \<open>Instants\<close>

text \<open>
  \<open>parse_hh_mm_ss_ff\<close> on a text that ends at the time zone: \<open>zoned\<close> says that a time zone
  follows.  The loop reads up to three two-digit components; it is left at the end of the text,
  with a flag for characters left over, or at a fraction.
\<close>

fun iso_clock :: "nat \<Rightarrow> bool \<Rightarrow> bool \<Rightarrow> string \<Rightarrow> (int list \<times> (bool + string)) option" where
  "iso_clock 0 zoned sep s = Some ([], Inr s)"
| "iso_clock (Suc k) zoned sep s =
    (case parse_digits 2 s of None \<Rightarrow> None
     | Some (v, []) \<Rightarrow> Some ([v], Inl zoned)
     | Some (v, c # r) \<Rightarrow>
         let sep' = (if k = 2 then c = CHR '':'' else sep);
             next = (\<lambda>t. map_option (\<lambda>(vs, rest). (v # vs, rest)) (iso_clock k zoned sep' t))
         in if r = [] then Some ([v], Inl True)
            else if sep' \<and> c = CHR '':'' then next r
            else if c = CHR ''.'' \<or> c = CHR '','' then Some ([v], Inr r)
            else if \<not> sep' then next (c # r)
            else None)"

text \<open>Hours, minutes, seconds, microseconds and whether text is left over.\<close>

definition parse_hh_mm_ss_ff :: "bool \<Rightarrow> string \<Rightarrow> (int \<times> int \<times> int \<times> int \<times> bool) option" where
  "parse_hh_mm_ss_ff zoned s =
    (case iso_clock 3 zoned True s of None \<Rightarrow> None
     | Some (vs, rest) \<Rightarrow>
         let comps = vs @ replicate (3 - length vs) 0
         in (case rest of
               Inl left \<Rightarrow> Some (comps ! 0, comps ! 1, comps ! 2, 0, left)
             | Inr f \<Rightarrow>
                 let n = min 6 (length f)
                 in (case parse_digits n f of None \<Rightarrow> None
                     | Some (us, r) \<Rightarrow> Some (comps ! 0, comps ! 1, comps ! 2, us * 10 ^ (6 - n),
                         zoned \<or> dropWhile is_digit r \<noteq> []))))"

text \<open>\<open>parse_isoformat_time\<close>: microseconds since midnight and the UTC offset, if any.\<close>

definition is_zone_char :: "char \<Rightarrow> bool" where
  "is_zone_char c \<longleftrightarrow> c = CHR ''+'' \<or> c = CHR ''-'' \<or> c = CHR ''Z''"

definition clock_us :: "int \<Rightarrow> int \<Rightarrow> int \<Rightarrow> int \<Rightarrow> int" where
  "clock_us h m s us = h * us_per_hour + m * us_per_minute + s * us_per_second + us"

definition parse_isoformat_zone :: "string \<Rightarrow> int option option" where
  "parse_isoformat_zone z =
    (case z of
       [] \<Rightarrow> Some None
     | c # r \<Rightarrow>
         if c = CHR ''Z'' then (if r = [] then Some (Some 0) else None)
         else (case parse_hh_mm_ss_ff False r of
             Some (h, m, s, us, False) \<Rightarrow>
               let off = (if c = CHR ''-'' then - clock_us h m s us else clock_us h m s us)
               in if \<bar>off\<bar> < us_per_day then Some (Some off) else None
           | _ \<Rightarrow> None))"

definition parse_isoformat_time :: "string \<Rightarrow> (int \<times> int option) option" where
  "parse_isoformat_time t =
    (let text = takeWhile (\<lambda>c. \<not> is_zone_char c) t; zone = dropWhile (\<lambda>c. \<not> is_zone_char c) t
     in case parse_hh_mm_ss_ff (zone \<noteq> []) text of None \<Rightarrow> None
        | Some (h, m, s, us, left) \<Rightarrow>
            if zone = [] \<and> left then None
            else (case parse_isoformat_zone zone of None \<Rightarrow> None
                  | Some off \<Rightarrow>
                      if h \<le> 23 \<and> m \<le> 59 \<and> s \<le> 59 then Some (clock_us h m s us, off) else None))"

text \<open>\<open>_find_isoformat_datetime_separator\<close>\<close>

definition isoformat_separator :: "string \<Rightarrow> nat option" where
  "isoformat_separator s =
    (let len = length s in
     if len = 7 then Some 7
     else if s ! 4 = CHR ''-'' then
       if s ! 5 = CHR ''W'' then
         if 8 < len \<and> s ! 8 = CHR ''-'' then
           (if len = 9 then None
            else if 10 < len \<and> is_digit (s ! 10) then Some 8 else Some 10)
         else Some 8
       else Some 10
     else if s ! 4 = CHR ''W'' then
       (let idx = 7 + length (takeWhile is_digit (drop 7 s))
        in if idx < 9 then Some idx else if even idx then Some 7 else Some 8)
     else Some 8)"

definition dt_fromisoformat :: "string \<Rightarrow> datetime option" where
  "dt_fromisoformat s =
    (if length s < 7 then None
     else case isoformat_separator s of None \<Rightarrow> None
     | Some loc \<Rightarrow>
         (case parse_isoformat_date (take loc s) of None \<Rightarrow> None
          | Some n \<Rightarrow>
              if length s - loc \<le> 1 then Some \<lparr>dt_local = (n - 1) * us_per_day, dt_offset = None\<rparr>
              else (case parse_isoformat_time (drop (loc + 1) s) of None \<Rightarrow> None
                    | Some (us, off) \<Rightarrow> Some \<lparr>dt_local = (n - 1) * us_per_day + us, dt_offset = off\<rparr>)))"

section \<open>The calendar\<close>

lemma quot_rem:
  fixes q r k :: int
  assumes "0 \<le> r" "r < k"
  shows "(q * k + r) div k = q" "(q * k + r) mod k = r"
  using assms by (simp_all add: div_mult_self3)

lemma div_400_parts:
  fixes a b c d :: int
  assumes "0 \<le> d" "d \<le> 3" "0 \<le> c" "c \<le> 24" "0 \<le> b" "b \<le> 3"
    and y: "y = a * 400 + b * 100 + c * 4 + d"
  shows "y div 4 = 100 * a + 25 * b + c" "y div 100 = 4 * a + b" "y div 400 = a"
    "y mod 4 = d" "y mod 100 = c * 4 + d" "y mod 400 = b * 100 + c * 4 + d"
proof -
  have y4: "y = (100 * a + 25 * b + c) * 4 + d" and y100: "y = (4 * a + b) * 100 + (c * 4 + d)"
    and y400: "y = a * 400 + (b * 100 + c * 4 + d)" by (simp_all add: y)
  show "y div 4 = 100 * a + 25 * b + c" "y mod 4 = d" unfolding y4 using assms by (intro quot_rem; simp)+
  show "y div 100 = 4 * a + b" "y mod 100 = c * 4 + d" unfolding y100 using assms by (intro quot_rem; simp)+
  show "y div 400 = a" "y mod 400 = b * 100 + c * 4 + d" unfolding y400 using assms by (intro quot_rem; simp)+
qed

lemma leap_fourth:
  fixes a b c y :: int
  assumes "0 \<le> b" "b \<le> 3" "0 \<le> c" "c \<le> 24" and y: "y = a * 400 + b * 100 + c * 4 + 4"
  shows "is_leap y \<longleftrightarrow> c \<noteq> 24 \<or> b = 3"
proof -
  have "y = (100 * a + 25 * b + c + 1) * 4 + 0" using y by simp
  then have m4: "y mod 4 = 0" using quot_rem(2) [of 0 4] by simp
  show ?thesis
  proof (cases "c = 24")
    case True
    have y100: "y = (4 * a + b + 1) * 100 + 0" and y400: "y = a * 400 + (b + 1) * 100" using y True by simp_all
    have "y mod 100 = 0" unfolding y100 by (rule quot_rem) simp_all
    moreover have "y mod 400 = 0 \<longleftrightarrow> b = 3"
    proof (cases "b = 3")
      case True
      then have "y = (a + 1) * 400 + 0" using y400 by simp
      then show ?thesis using quot_rem(2) [of 0 400 "a + 1"] True by simp
    next
      case False
      have "y mod 400 = (b + 1) * 100" unfolding y400 by (rule quot_rem) (use False assms in simp_all)
      then show ?thesis using False assms by simp
    qed
    ultimately show ?thesis using m4 True by (simp add: is_leap_def)
  next
    case False
    have y100: "y = (4 * a + b) * 100 + (c * 4 + 4)" using y by simp
    have "y mod 100 = c * 4 + 4" unfolding y100 by (rule quot_rem) (use False assms in simp_all)
    then show ?thesis using m4 False assms by (simp add: is_leap_def)
  qed
qed

text \<open>The last step of \<open>_ord2ymd\<close>: the month of a day of the year, estimated and corrected.\<close>

definition month_day :: "bool \<Rightarrow> int \<Rightarrow> int \<times> int" where
  "month_day leap n =
    (let month = (n + 50) div 32;
         preceding = days_before_month month + (if 2 < month \<and> leap then 1 else 0)
     in if n < preceding then
          let month' = month - 1;
              preceding' = preceding - (days_in_month month' + (if month' = 2 \<and> leap then 1 else 0))
          in (month', n - preceding' + 1)
        else (month, n - preceding + 1))"

definition month_day_ok :: "bool \<Rightarrow> int \<Rightarrow> bool" where
  "month_day_ok leap n = (case month_day leap n of (m, d) \<Rightarrow>
     1 \<le> m \<and> m \<le> 12 \<and> 1 \<le> d \<and> d \<le> (if m = 2 \<and> leap then 29 else days_in_month m)
     \<and> days_before_month m + (if 2 < m \<and> leap then 1 else 0) + d = n + 1)"

lemma month_day_correct:
  assumes "0 \<le> n" "n \<le> 365" "leap \<or> n \<le> 364"
  shows "month_day_ok leap n"
proof -
  define q where "q = (n + 50) div 32"
  have "1 \<le> q" "q \<le> 12" "q * 32 \<le> n + 50" "n + 50 < q * 32 + 32"
    using assms by (auto simp: q_def)
  from \<open>1 \<le> q\<close> \<open>q \<le> 12\<close> have "q = 1 \<or> q = 2 \<or> q = 3 \<or> q = 4 \<or> q = 5 \<or> q = 6 \<or> q = 7 \<or> q = 8 \<or> q = 9
    \<or> q = 10 \<or> q = 11 \<or> q = 12" by presburger
  then consider "q = 1" | "q = 2" | "q = 3" | "q = 4" | "q = 5" | "q = 6" | "q = 7" | "q = 8" | "q = 9"
    | "q = 10" | "q = 11" | "q = 12" by blast
  then show ?thesis
    using assms \<open>q * 32 \<le> n + 50\<close> \<open>n + 50 < q * 32 + 32\<close>
    by cases (cases leap; simp add: month_day_ok_def month_day_def days_before_month_def days_in_month_def
        q_def [symmetric] Let_def nth_Cons')+
qed

lemma pair_if: "(y, if b then u else v) = (if b then (y, u) else (y, v))"
  by simp

lemma ord2ymd_eq: "ord2ymd n =
    (let k = n - 1; k1 = k mod 146097; k2 = k1 mod 36524; k3 = k2 mod 1461;
         a = k div 146097; b = k1 div 36524; c = k2 div 1461; e = k3 div 365;
         y = a * 400 + 1 + b * 100 + c * 4 + e
     in if e = 4 \<or> b = 4 then (y - 1, 12, 31)
        else (y, month_day (e = 3 \<and> (c \<noteq> 24 \<or> b = 3)) (k3 mod 365)))"
  unfolding ord2ymd_def month_day_def Let_def by (simp only: pair_if)

lemma ord2ymd_correct:
  assumes "1 \<le> n" "n \<le> max_ordinal"
  shows "case ord2ymd n of (y, m, d) \<Rightarrow>
    1 \<le> y \<and> y \<le> 9999 \<and> 1 \<le> m \<and> m \<le> 12 \<and> 1 \<le> d \<and> d \<le> month_length y m \<and> ymd2ord y m d = n"
proof -
  define k where "k = n - 1"
  define a where "a = k div 146097"
  define k1 where "k1 = k mod 146097"
  define b where "b = k1 div 36524"
  define k2 where "k2 = k1 mod 36524"
  define c where "c = k2 div 1461"
  define k3 where "k3 = k2 mod 1461"
  define e where "e = k3 div 365"
  define r where "r = k3 mod 365"
  define y where "y = a * 400 + 1 + b * 100 + c * 4 + e"
  have k: "0 \<le> k" "k < 3652059" using assms by (auto simp: k_def max_ordinal_def)
  have ka: "k = a * 146097 + k1" "0 \<le> k1" "k1 < 146097" by (simp_all add: a_def k1_def)
  have kb: "k1 = b * 36524 + k2" "0 \<le> k2" "k2 < 36524" by (simp_all add: b_def k2_def)
  have kc: "k2 = c * 1461 + k3" "0 \<le> k3" "k3 < 1461" by (simp_all add: c_def k3_def)
  have ke: "k3 = e * 365 + r" "0 \<le> r" "r < 365" by (simp_all add: e_def r_def)
  have bnd: "0 \<le> a" "a \<le> 24" "0 \<le> b" "b \<le> 4" "0 \<le> c" "c \<le> 24" "0 \<le> e" "e \<le> 4"
    using k ka kb kc ke by linarith+
  have sum: "n = a * 146097 + b * 36524 + c * 1461 + e * 365 + r + 1"
    using ka kb kc ke by (simp add: k_def)
  have o: "ord2ymd n = (if e = 4 \<or> b = 4 then (y - 1, 12, 31)
      else (y, month_day (e = 3 \<and> (c \<noteq> 24 \<or> b = 3)) r))"
    unfolding ord2ymd_eq Let_def k_def [symmetric] a_def [symmetric] k1_def [symmetric]
      b_def [symmetric] k2_def [symmetric] c_def [symmetric] k3_def [symmetric] e_def [symmetric]
      r_def [symmetric] y_def [symmetric] by (rule refl)
  show ?thesis
  proof (cases "b = 4")
    case True
    then have z: "k2 = 0" "c = 0" "e = 0" "r = 0" using ka kb kc ke bnd by linarith+
    have y1: "y - 1 - 1 = a * 400 + 3 * 100 + 24 * 4 + 3" by (simp add: y_def True z)
    note p = div_400_parts [OF _ _ _ _ _ _ y1]
    have "(y - 1) mod 4 = 0" "(y - 1) mod 400 = 0" using y_def True z by presburger+
    then have "is_leap (y - 1)" by (simp add: is_leap_def)
    moreover have "a \<le> 23" using ka kb k True by linarith
    ultimately show ?thesis
      unfolding o using p sum True z bnd by (simp add: ymd2ord_def days_before_year_def month_length_def
          days_before_month_def days_in_month_def y_def nth_Cons')
  next
    case b4: False
    show ?thesis
    proof (cases "e = 4")
      case True
      then have r0: "r = 0" and c24: "c \<noteq> 24 \<or> b = 3" using kb kc ke bnd b4 by linarith+
      have bb: "b \<le> 3" using b4 bnd by linarith
      have y1: "y - 1 - 1 = a * 400 + b * 100 + c * 4 + 3" by (simp add: y_def True)
      note p = div_400_parts [OF _ _ _ _ _ _ y1]
      have "is_leap (y - 1)"
        using leap_fourth [of b c "y - 1" a] c24 bnd bb by (simp add: y_def True)
      have "a * 400 + b * 100 + c * 4 \<le> 9995"
      proof (rule ccontr)
        assume "\<not> a * 400 + b * 100 + c * 4 \<le> 9995"
        then have "a = 24" "b = 3" "c = 24" using bnd(2,6) bb by linarith+
        then show False using sum r0 True assms by (simp add: max_ordinal_def)
      qed
      then have "1 \<le> y - 1" "y - 1 \<le> 9999" using bnd by (simp_all add: y_def True)
      moreover have "ymd2ord (y - 1) 12 31 = n"
      proof -
        have "(y - 1 - 1) div 4 = 100 * a + 25 * b + c" "(y - 1 - 1) div 100 = 4 * a + b"
          "(y - 1 - 1) div 400 = a" by (rule p; use bnd bb in linarith)+
        then have "days_before_year (y - 1) = a * 146097 + b * 36524 + c * 1461 + 1095"
          unfolding days_before_year_def y1 by simp
        then show ?thesis
          using \<open>is_leap (y - 1)\<close> sum r0 True by (simp add: ymd2ord_def days_before_month_def nth_Cons')
      qed
      ultimately show ?thesis
        unfolding o using True by (simp add: month_length_def days_in_month_def nth_Cons')
    next
      case e4: False
      have bb: "b \<le> 3" "e \<le> 3" using b4 e4 bnd by linarith+
      define leap where "leap \<longleftrightarrow> e = 3 \<and> (c \<noteq> 24 \<or> b = 3)"
      have y1: "y - 1 = a * 400 + b * 100 + c * 4 + e" by (simp add: y_def)
      note p = div_400_parts [OF _ _ _ _ _ _ y1]
      have leap: "is_leap y = leap"
      proof (cases "e = 3")
        case True
        then show ?thesis using leap_fourth [of b c y a] bb bnd by (simp add: y_def leap_def)
      next
        case False
        have y4: "y = (100 * a + 25 * b + c) * 4 + (e + 1)" by (simp add: y_def)
        have "y mod 4 = e + 1" unfolding y4 by (rule quot_rem) (use False bb bnd in simp_all)
        then show ?thesis using False bnd by (simp add: is_leap_def leap_def)
      qed
      obtain m d where md: "month_day leap r = (m, d)" by (cases "month_day leap r")
      have "month_day_ok leap r" using ke by (intro month_day_correct) simp_all
      then have ok: "1 \<le> m" "m \<le> 12" "1 \<le> d" "d \<le> month_length y m"
        "days_before_month m + (if 2 < m \<and> leap then 1 else 0) + d = r + 1"
        by (simp_all add: month_day_ok_def md month_length_def leap)
      have "(y - 1) div 4 = 100 * a + 25 * b + c" "(y - 1) div 100 = 4 * a + b" "(y - 1) div 400 = a"
        by (rule p; use bnd bb in linarith)+
      then have "days_before_year y = a * 146097 + b * 36524 + c * 1461 + e * 365"
        unfolding days_before_year_def y1 by simp
      then have "ymd2ord y m d = n" using ok(5) sum unfolding ymd2ord_def leap by linarith
      moreover have "a * 400 + b * 100 + c * 4 + e \<le> 9998"
      proof (rule ccontr)
        assume "\<not> a * 400 + b * 100 + c * 4 + e \<le> 9998"
        then have "a = 24" "b = 3" "c = 24" "e = 3" using bnd(2,6) bb by linarith+
        then show False using sum ke(2) assms by (simp add: max_ordinal_def)
      qed
      ultimately show ?thesis
        unfolding o leap_def [symmetric] using ok bnd b4 e4 by (simp add: md y_def)
    qed
  qed
qed

section \<open>Round trips\<close>

lemma zero_pad_digits: "list_all is_digit (zero_pad w n)"
proof -
  have "is_digit CHR ''0''" by (simp add: is_digit_def digit_chars_def)
  then show ?thesis using nat_digits_are_digits [of n] by (auto simp: zero_pad_def Let_def list_all_iff)
qed

lemma length_nat_digits: "1 \<le> w \<Longrightarrow> n < 10 ^ w \<Longrightarrow> length (nat_digits n) \<le> w"
proof (induction w arbitrary: n)
  case 0
  then show ?case by simp
next
  case (Suc w)
  show ?case
  proof (cases "n < 10")
    case True
    then show ?thesis by (subst nat_digits.simps) simp
  next
    case False
    then have "n div 10 < 10 ^ w" and "1 \<le> w" using Suc.prems by (cases w; simp)+
    then have "length (nat_digits (n div 10)) \<le> w" using Suc.IH by blast
    with False show ?thesis by (subst nat_digits.simps) simp
  qed
qed

lemma length_zero_pad: "1 \<le> w \<Longrightarrow> n < 10 ^ w \<Longrightarrow> length (zero_pad w n) = w"
  using length_nat_digits by (simp add: zero_pad_def Let_def)

lemma digits_value_zeros: "digits_value (replicate k CHR ''0'' @ ds) = digits_value ds"
proof -
  have "foldl (\<lambda>a c. 10 * a + digit_value c) 0 (replicate k CHR ''0'') = 0"
    by (induction k) (simp_all add: digit_value_def)
  then show ?thesis by (simp add: digits_value_def)
qed

lemma digits_value_pad: "digits_value (zero_pad w n) = n"
  by (simp add: zero_pad_def Let_def digits_value_zeros digits_value_nat)

lemma parse_digits_pad:
  "1 \<le> w \<Longrightarrow> n < 10 ^ w \<Longrightarrow> parse_digits w (zero_pad w n @ r) = Some (int n, r)"
  by (simp add: parse_digits_def length_zero_pad zero_pad_digits digits_value_pad)

lemma take_1_pad: "1 \<le> w \<Longrightarrow> n < 10 ^ w \<Longrightarrow> \<not> is_digit c \<Longrightarrow> take 1 (zero_pad w n @ r) \<noteq> [c]"
  using zero_pad_digits [of w n] length_zero_pad [of w n] by (cases "zero_pad w n") auto

lemma parse_isoformat_pads:
  assumes "y < 10000" "m < 100" "d < 100"
  shows "parse_isoformat_date (zero_pad 4 y @ ''-'' @ zero_pad 2 m @ ''-'' @ zero_pad 2 d) =
    py_date (int y) (int m) (int d)"
proof -
  have w: "take 1 (zero_pad 2 m @ CHR ''-'' # zero_pad 2 d) \<noteq> ''W''"
    using assms by (intro take_1_pad) (simp_all add: is_digit_def digit_chars_def)
  have "parse_digits 4 (zero_pad 4 y @ r) = Some (int y, r)" for r
    using assms by (intro parse_digits_pad) simp_all
  moreover have "parse_digits 2 (zero_pad 2 m @ r) = Some (int m, r)" for r
    using assms by (intro parse_digits_pad) simp_all
  moreover have "parse_digits 2 (zero_pad 2 d) = Some (int d, [])"
    using parse_digits_pad [of 2 d "[]"] assms by simp
  ultimately show ?thesis using w by (simp add: parse_isoformat_date_def)
qed

text \<open>What \<open>isoformat\<close> writes for a date is read back as the same date.\<close>

theorem ordinal_round_trip:
  assumes "1 \<le> n" "n \<le> max_ordinal"
  shows "length (ordinal_isoformat n) = 10 \<and> parse_isoformat_date (ordinal_isoformat n) = Some n"
proof -
  obtain y m d where ymd: "ord2ymd n = (y, m, d)" by (cases "ord2ymd n")
  then have ok: "1 \<le> y" "y \<le> 9999" "1 \<le> m" "m \<le> 12" "1 \<le> d" "d \<le> month_length y m" "ymd2ord y m d = n"
    using ord2ymd_correct [OF assms] by simp_all
  have "month_length y m \<le> 31"
    using ok(3,4) by (simp add: month_length_def days_in_month_def nth_Cons')
  then have bnd: "nat y < 10000" "nat m < 100" "nat d < 100" using ok by linarith+
  have "py_date (int (nat y)) (int (nat m)) (int (nat d)) = Some n"
    using ok by (simp add: py_date_def)
  with parse_isoformat_pads [OF bnd] bnd show ?thesis
    by (simp add: ordinal_isoformat_def ymd length_zero_pad)
qed

lemma date_round_trip: "1 \<le> n \<Longrightarrow> n \<le> max_ordinal \<Longrightarrow> date_fromisoformat (ordinal_isoformat n) = Some n"
  using ordinal_round_trip by (simp add: date_fromisoformat_def)

lemma ordinal_isoformat_inj:
  "1 \<le> a \<Longrightarrow> a \<le> max_ordinal \<Longrightarrow> 1 \<le> b \<Longrightarrow> b \<le> max_ordinal
    \<Longrightarrow> ordinal_isoformat a = ordinal_isoformat b \<longleftrightarrow> a = b"
  using date_round_trip by (metis option.inject)

section \<open>The round trip of instants\<close>

definition dt_in_range :: "datetime \<Rightarrow> bool" where
  "dt_in_range d \<longleftrightarrow> 1 \<le> dt_ordinal d \<and> dt_ordinal d \<le> max_ordinal"

lemma dt_fields:
  "0 \<le> dt_hour d" "dt_hour d \<le> 23" "0 \<le> dt_minute d" "dt_minute d \<le> 59"
  "0 \<le> dt_second d" "dt_second d \<le> 59" "0 \<le> dt_microsecond d" "dt_microsecond d \<le> 999999"
  by (simp_all add: dt_hour_def dt_minute_def dt_second_def dt_microsecond_def us_defs
      pos_imp_zdiv_nonneg_iff)

lemma dt_clock: "(dt_ordinal d - 1) * us_per_day + clock_us (dt_hour d) (dt_minute d) (dt_second d) (dt_microsecond d) = dt_local d"
proof -
  let ?l = "dt_local d"
  have "?l mod us_per_day mod us_per_hour = ?l mod us_per_hour"
    "?l mod us_per_hour mod us_per_minute = ?l mod us_per_minute"
    "?l mod us_per_minute mod us_per_second = ?l mod us_per_second"
    by (simp_all add: mod_mod_cancel us_defs)
  then have "?l mod us_per_day = dt_hour d * us_per_hour + ?l mod us_per_hour"
    "?l mod us_per_hour = dt_minute d * us_per_minute + ?l mod us_per_minute"
    "?l mod us_per_minute = dt_second d * us_per_second + ?l mod us_per_second"
    unfolding dt_hour_def dt_minute_def dt_second_def by (metis div_mult_mod_eq)+
  moreover have "?l = (dt_ordinal d - 1) * us_per_day + ?l mod us_per_day"
    by (simp add: dt_ordinal_def)
  ultimately show ?thesis by (simp add: clock_us_def dt_microsecond_def)
qed

lemma parse_pad2: "n < 100 \<Longrightarrow> parse_digits 2 (zero_pad 2 n @ r) = Some (int n, r)"
  by (rule parse_digits_pad) simp_all

lemma iso_clock_colon:
  assumes "n < 100" "r \<noteq> []" "k = 2 \<or> sep"
  shows "iso_clock (Suc k) zoned sep (zero_pad 2 n @ CHR '':'' # r)
    = map_option (\<lambda>(vs, rest). (int n # vs, rest)) (iso_clock k zoned True r)"
  unfolding iso_clock.simps(2) parse_pad2 [OF assms(1)] Let_def using assms(2,3) by (cases "k = 2") auto

lemma iso_clock_end: "n < 100 \<Longrightarrow> iso_clock (Suc k) zoned sep (zero_pad 2 n) = Some ([int n], Inl zoned)"
  using parse_pad2 [of n "[]"] by simp

lemma iso_clock_dot:
  assumes "n < 100" "f \<noteq> []" "k \<noteq> 2"
  shows "iso_clock (Suc k) zoned sep (zero_pad 2 n @ CHR ''.'' # f) = Some ([int n], Inr f)"
  using assms unfolding iso_clock.simps(2) parse_pad2 [OF assms(1)] Let_def by simp

lemma iso_clock_text:
  assumes "h < 100" "m < 100" "s < 100"
  shows "iso_clock 3 True True (zero_pad 2 h @ CHR '':'' # zero_pad 2 m @ CHR '':'' # zero_pad 2 s)
      = Some ([int h, int m, int s], Inl True)"
    and "f \<noteq> [] \<Longrightarrow> iso_clock 3 True True
        (zero_pad 2 h @ CHR '':'' # zero_pad 2 m @ CHR '':'' # zero_pad 2 s @ CHR ''.'' # f)
      = Some ([int h, int m, int s], Inr f)"
proof -
  have ne: "zero_pad 2 k \<noteq> []" for k by (simp add: zero_pad_def Let_def)
  have "iso_clock 3 True True (zero_pad 2 h @ CHR '':'' # zero_pad 2 m @ CHR '':'' # r) =
      map_option (\<lambda>(vs, rest). (int h # int m # vs, rest)) (iso_clock (Suc 0) True True r)" if "r \<noteq> []" for r
  proof -
    have "iso_clock (Suc 2) True True (zero_pad 2 h @ CHR '':'' # zero_pad 2 m @ CHR '':'' # r) =
      map_option (\<lambda>(vs, rest). (int h # vs, rest)) (iso_clock 2 True True (zero_pad 2 m @ CHR '':'' # r))"
      using assms by (intro iso_clock_colon) simp_all
    also have "iso_clock 2 True True (zero_pad 2 m @ CHR '':'' # r) =
      map_option (\<lambda>(vs, rest). (int m # vs, rest)) (iso_clock (Suc 0) True True r)"
      unfolding numeral_2_eq_2 using iso_clock_colon [of m r "Suc 0" True True] assms that
      by (simp del: iso_clock.simps add: numeral_2_eq_2)
    finally show ?thesis
      by (simp del: iso_clock.simps add: option.map_comp comp_def case_prod_unfold flip: numeral_3_eq_3 numeral_2_eq_2)
  qed
  note two = this
  show "iso_clock 3 True True (zero_pad 2 h @ CHR '':'' # zero_pad 2 m @ CHR '':'' # zero_pad 2 s)
      = Some ([int h, int m, int s], Inl True)"
    using two [OF ne] iso_clock_end [OF assms(3), of 0 True True] by simp
  show "f \<noteq> [] \<Longrightarrow> iso_clock 3 True True
        (zero_pad 2 h @ CHR '':'' # zero_pad 2 m @ CHR '':'' # zero_pad 2 s @ CHR ''.'' # f)
      = Some ([int h, int m, int s], Inr f)"
    using two [of "zero_pad 2 s @ CHR ''.'' # f"] iso_clock_dot [OF assms(3), of f 0 True True] by simp
qed

text \<open>The clock part of a UTC time stamp, with and without a fraction.\<close>

definition clock_text :: "nat \<Rightarrow> nat \<Rightarrow> nat \<Rightarrow> nat \<Rightarrow> string" where
  "clock_text h m s us = zero_pad 2 h @ CHR '':'' # zero_pad 2 m @ CHR '':'' # zero_pad 2 s
     @ (if us \<noteq> 0 then CHR ''.'' # zero_pad 6 us else [])"

lemma parse_clock_text:
  assumes "h < 100" "m < 100" "s < 100" "us < 1000000"
  shows "\<exists>left. parse_hh_mm_ss_ff True (clock_text h m s us) = Some (int h, int m, int s, int us, left)"
proof (cases "us = 0")
  case True
  then show ?thesis using iso_clock_text(1) [OF assms(1-3)]
    by (auto simp: clock_text_def parse_hh_mm_ss_ff_def simp del: iso_clock.simps)
next
  case False
  have len: "length (zero_pad 6 us) = 6" using assms(4) by (intro length_zero_pad) simp_all
  then have ne: "zero_pad 6 us \<noteq> []" by auto
  have "parse_digits 6 (zero_pad 6 us) = Some (int us, [])"
    using parse_digits_pad [of 6 us "[]"] assms(4) by simp
  then show ?thesis using iso_clock_text(2) [OF assms(1-3) ne] False len
    by (auto simp: clock_text_def parse_hh_mm_ss_ff_def simp del: iso_clock.simps)
qed

lemma clock_text_chars: "c \<in> set (clock_text h m s us) \<Longrightarrow> \<not> is_zone_char c"
proof -
  assume c: "c \<in> set (clock_text h m s us)"
  have d: "is_digit c" if "c \<in> set (zero_pad w n)" for w n
    using zero_pad_digits [of w n] that by (auto simp: list_all_iff)
  have "is_digit c \<or> c = CHR '':'' \<or> c = CHR ''.''"
    using c d by (auto simp: clock_text_def split: if_splits)
  then show ?thesis by (auto simp: is_zone_char_def is_digit_def digit_chars_def)
qed

lemma takeWhile_until: "(\<And>c. c \<in> set xs \<Longrightarrow> P c) \<Longrightarrow> \<not> P y \<Longrightarrow>
    takeWhile P (xs @ y # ys) = xs \<and> dropWhile P (xs @ y # ys) = y # ys"
  by (induction xs) auto

lemma parse_zone_utc: "parse_isoformat_zone ''+00:00'' = Some (Some 0)"
proof -
  have z: "zero_pad 2 0 = ''00''" by (simp add: zero_pad_def nat_digits.simps digit_char_def digit_chars_def numeral_2_eq_2)
  have "iso_clock (Suc 2) False True (zero_pad 2 0 @ CHR '':'' # zero_pad 2 0) =
      map_option (\<lambda>(vs, rest). (int 0 # vs, rest)) (iso_clock 2 False True (zero_pad 2 0))"
    by (intro iso_clock_colon) (simp_all add: z)
  moreover have "iso_clock (Suc 1) False True (zero_pad 2 0) = Some ([int 0], Inl False)"
    by (rule iso_clock_end) simp
  moreover have "''00:00'' = zero_pad 2 0 @ CHR '':'' # zero_pad 2 0" by (simp add: z)
  ultimately have "iso_clock 3 False True ''00:00'' = Some ([0, 0], Inl False)"
    by (simp add: numeral_2_eq_2 [symmetric] del: iso_clock.simps)
  then show ?thesis
    by (simp add: parse_isoformat_zone_def parse_hh_mm_ss_ff_def clock_us_def us_defs del: iso_clock.simps)
qed

lemma isoformat_separator_10:
  assumes "length ymd = 10" "ymd ! 4 = CHR ''-''" "ymd ! 5 \<noteq> CHR ''W''" "rest \<noteq> []"
  shows "isoformat_separator (ymd @ rest) = Some 10"
  using assms by (simp add: isoformat_separator_def nth_append)

lemma ordinal_isoformat_chars:
  assumes "1 \<le> n" "n \<le> max_ordinal"
  shows "ordinal_isoformat n ! 4 = CHR ''-'' \<and> ordinal_isoformat n ! 5 \<noteq> CHR ''W''"
proof -
  obtain y m d where ymd: "ord2ymd n = (y, m, d)" by (cases "ord2ymd n")
  then have ok: "1 \<le> y" "y \<le> 9999" "1 \<le> m" "m \<le> 12"
    using ord2ymd_correct [OF assms] by simp_all
  then have l4: "length (zero_pad 4 (nat y)) = 4" and l2: "length (zero_pad 2 (nat m)) = 2"
    by (simp_all add: length_zero_pad)
  have "is_digit (zero_pad 2 (nat m) ! 0)"
    using zero_pad_digits [of 2 "nat m"] l2 by (simp add: list_all_length)
  then have "zero_pad 2 (nat m) ! 0 \<noteq> CHR ''W''" by (auto simp: is_digit_def digit_chars_def)
  then show ?thesis using l4 l2 by (simp add: ordinal_isoformat_def ymd nth_append)
qed

text \<open>What \<open>isoformat\<close> writes for an instant in UTC is read back as the same instant.\<close>

theorem dt_round_trip:
  assumes "dt_in_range d" "dt_offset d = Some 0"
  shows "dt_fromisoformat (dt_isoformat d) = Some d"
proof -
  define n where "n = dt_ordinal d"
  have n: "1 \<le> n" "n \<le> max_ordinal" using assms(1) by (simp_all add: n_def dt_in_range_def)
  let ?h = "nat (dt_hour d)" and ?m = "nat (dt_minute d)" and ?s = "nat (dt_second d)"
  let ?us = "nat (dt_microsecond d)"
  let ?clock = "clock_text ?h ?m ?s ?us"
  note f = dt_fields [of d]
  have off: "offset_isoformat 0 = ''+00:00''"
    by (simp add: offset_isoformat_def us_defs zero_pad_def nat_digits.simps digit_char_def digit_chars_def
        numeral_2_eq_2)
  have us: "dt_microsecond d \<noteq> 0 \<longleftrightarrow> ?us \<noteq> 0" using f(7) by linarith
  have written: "dt_isoformat d = ordinal_isoformat n @ CHR ''T'' # ?clock @ ''+00:00''"
    unfolding dt_isoformat_def date_isoformat_ordinal n_def [symmetric] clock_text_def us
    by (simp add: assms(2) off)
  have len: "length (ordinal_isoformat n) = 10" and date: "parse_isoformat_date (ordinal_isoformat n) = Some n"
    using ordinal_round_trip [OF n] by simp_all
  have sep: "isoformat_separator (dt_isoformat d) = Some 10"
    unfolding written using ordinal_isoformat_chars [OF n] len by (intro isoformat_separator_10) simp_all
  have "?h < 100" "?m < 100" "?s < 100" "?us < 1000000" using f by linarith+
  then obtain left where clock: "parse_hh_mm_ss_ff True ?clock = Some (int ?h, int ?m, int ?s, int ?us, left)"
    using parse_clock_text by blast
  have split: "takeWhile (\<lambda>c. \<not> is_zone_char c) (?clock @ ''+00:00'') = ?clock \<and>
      dropWhile (\<lambda>c. \<not> is_zone_char c) (?clock @ ''+00:00'') = ''+00:00''"
    by (rule takeWhile_until) (auto dest: clock_text_chars simp: is_zone_char_def)
  have time: "parse_isoformat_time (?clock @ ''+00:00'') =
      Some (clock_us (dt_hour d) (dt_minute d) (dt_second d) (dt_microsecond d), Some 0)"
    using split clock f by (simp add: parse_isoformat_time_def parse_zone_utc)
  have "dt_fromisoformat (dt_isoformat d) = Some \<lparr>dt_local = (n - 1) * us_per_day
      + clock_us (dt_hour d) (dt_minute d) (dt_second d) (dt_microsecond d), dt_offset = Some 0\<rparr>"
    using sep date len time by (simp add: dt_fromisoformat_def written)
  then show ?thesis using dt_clock [of d] assms(2) by (simp add: n_def)
qed

section \<open>Days and months\<close>

text \<open>The text of a day determines the text of its month.\<close>

lemma days_in_month_31: "m \<le> 12 \<Longrightarrow> days_in_month m \<le> 31"
  by (simp add: days_in_month_def nth_Cons')

lemma month_day_31:
  assumes "month_day_ok leap r"
  shows "case month_day leap r of (m, d) \<Rightarrow> 1 \<le> d \<and> d \<le> 31"
proof -
  obtain m d where md: "month_day leap r = (m, d)" by (cases "month_day leap r")
  then have "m \<le> 12" "1 \<le> d" "d \<le> (if m = 2 \<and> leap then 29 else days_in_month m)"
    using assms by (simp_all add: month_day_ok_def)
  then show ?thesis using days_in_month_31 [of m] by (simp add: md split: if_splits)
qed

lemma ord2ymd_day:
  "case ord2ymd n of (y, m, d) \<Rightarrow> 1 \<le> d \<and> d \<le> 31"
proof -
  let ?r = "(n - 1) mod 146097 mod 36524 mod 1461 mod 365"
  obtain y leap where o: "ord2ymd n = (y, 12, 31) \<or> ord2ymd n = (y, month_day leap ?r)"
    unfolding ord2ymd_eq Let_def by (metis (full_types))
  have "0 \<le> ?r" "?r < 365" by simp_all
  then have "month_day_ok leap ?r" by (intro month_day_correct disjI2) linarith+
  then have "case month_day leap ?r of (m, d) \<Rightarrow> 1 \<le> d \<and> d \<le> 31" by (rule month_day_31)
  then show ?thesis using o by (elim disjE) (simp_all only: prod.case, simp)
qed

lemma ordinal_month_prefix: "ordinal_month n = take (length (ordinal_isoformat n) - 3) (ordinal_isoformat n)"
proof -
  obtain y m d where ymd: "ord2ymd n = (y, m, d)" by (cases "ord2ymd n")
  then have "1 \<le> d" "d \<le> 31" using ord2ymd_day [of n] by simp_all
  then have "length (zero_pad 2 (nat d)) = 2" by (intro length_zero_pad) simp_all
  then show ?thesis by (simp add: ordinal_month_def ordinal_isoformat_def ymd)
qed

lemma same_day_same_month: "ordinal_isoformat a = ordinal_isoformat b \<Longrightarrow> ordinal_month a = ordinal_month b"
  by (simp add: ordinal_month_prefix)

end
