(* ===== verification/Runtime_Safety.thy ===== *)
theory Runtime_Safety
  imports Auto_Contracts Py_Iso
begin

text \<open>
  \<open>backend/app/h11_auto/runtime_safety.py\<close>: the persistent risk ledger (policy, state, gate,
  entry and result records, kill switch) and the dead-man heartbeat, with the two JSON files they
  live in.

  A file is what its path holds: nothing, a symbolic link, a directory, bytes that are not UTF-8,
  text that is not JSON, or the JSON document its text stands for.  Writing
  \<open>json.dumps(payload, sort_keys=True, indent=2)\<close> leaves that document; failing disks are not
  modelled.  A ledger operation is a program over the state object, since it changes the object
  in place even when it raises afterwards.
\<close>

section \<open>JSON files\<close>

datatype json_file =
    FileMissing
  | FileSymlink
  | FileDirectory
  | FileUndecodable
  | FileMalformed
  | FileDocument json

record json_path =
  jp_file :: json_file
  jp_tmp_symlink :: bool

section \<open>The risk policy\<close>

datatype risk_stop =
    ACTIVE
  | STOPPED_DAILY_BUDGET
  | STOPPED_MONTHLY_BUDGET
  | STOPPED_CONSECUTIVE_LOSSES
  | KILLED

fun risk_stop_value :: "risk_stop \<Rightarrow> string" where
  "risk_stop_value ACTIVE = ''ACTIVE''"
| "risk_stop_value STOPPED_DAILY_BUDGET = ''STOPPED_DAILY_BUDGET''"
| "risk_stop_value STOPPED_MONTHLY_BUDGET = ''STOPPED_MONTHLY_BUDGET''"
| "risk_stop_value STOPPED_CONSECUTIVE_LOSSES = ''STOPPED_CONSECUTIVE_LOSSES''"
| "risk_stop_value KILLED = ''KILLED''"

definition risk_stops :: "risk_stop list" where
  "risk_stops = [ACTIVE, STOPPED_DAILY_BUDGET, STOPPED_MONTHLY_BUDGET, STOPPED_CONSECUTIVE_LOSSES, KILLED]"

text \<open>\<open>AutoRiskStopState(value)\<close>; \<open>None\<close> is the \<open>ValueError\<close>.\<close>

definition AutoRiskStopState :: "json \<Rightarrow> risk_stop option" where
  "AutoRiskStopState v = find (\<lambda>stop. v = JStr (risk_stop_value stop)) risk_stops"

definition RISK_ENTRIES_PER_DAY_CEILING :: int where
  "RISK_ENTRIES_PER_DAY_CEILING = 30"

record risk_policy =
  rp_label :: string
  rp_per_trade_loss :: int
  rp_daily_loss :: int
  rp_monthly_loss :: int
  rp_max_consecutive :: int
  rp_max_entries :: int

text \<open>\<open>isinstance(value, int) and not isinstance(value, bool) and value > 0\<close>\<close>

definition is_positive_int :: "pyval \<Rightarrow> bool" where
  "is_positive_int v = (case as_int v of None \<Rightarrow> False | Some i \<Rightarrow> 0 < i)"

definition PhaseBRiskPolicy ::
    "string \<Rightarrow> pyval \<Rightarrow> pyval \<Rightarrow> pyval \<Rightarrow> pyval \<Rightarrow> pyval \<Rightarrow> risk_policy result" where
  "PhaseBRiskPolicy label per_trade daily monthly consecutive entries =
    (let int_of = (\<lambda>v. case as_int v of None \<Rightarrow> 0 | Some i \<Rightarrow> i) in
     if py_strip label = [] \<or> \<not> list_all is_positive_int [per_trade, daily, monthly, consecutive, entries]
     then Inl (H11AutoRuntimeSafetyError ''risk policy is invalid'')
     else if \<not> (int_of per_trade \<le> int_of daily \<and> int_of daily \<le> int_of monthly)
     then Inl (H11AutoRuntimeSafetyError ''risk policy limits are inconsistent'')
     else if \<not> (1 \<le> int_of entries \<and> int_of entries \<le> RISK_ENTRIES_PER_DAY_CEILING)
     then Inl (H11AutoRuntimeSafetyError ''maximum entries per day must be between 1 and 30'')
     else Inr \<lparr>rp_label = label, rp_per_trade_loss = int_of per_trade, rp_daily_loss = int_of daily,
            rp_monthly_loss = int_of monthly, rp_max_consecutive = int_of consecutive,
            rp_max_entries = int_of entries\<rparr>)"

definition risk_policy_digest :: "risk_policy \<Rightarrow> string" where
  "risk_policy_digest p = sha256_hex (json_dumps (JObj [
     (''policy_label'', JStr (rp_label p)),
     (''per_trade_loss_bound_jpy'', JInt (rp_per_trade_loss p)),
     (''daily_loss_limit_jpy'', JInt (rp_daily_loss p)),
     (''monthly_loss_limit_jpy'', JInt (rp_monthly_loss p)),
     (''maximum_consecutive_losses'', JInt (rp_max_consecutive p)),
     (''maximum_entries_per_day'', JInt (rp_max_entries p))]))"

section \<open>The risk state\<close>

text \<open>
  The state object has the values its JSON document had: any JSON value in any field, until
  \<open>_validate_risk_state\<close> has passed.
\<close>

record risk_state =
  rs_policy_digest :: json
  rs_stop_state :: json
  rs_current_day :: json
  rs_current_month :: json
  rs_daily_loss :: json
  rs_monthly_loss :: json
  rs_consecutive :: json
  rs_entries_today :: json
  rs_stopped_on :: json
  rs_violations :: json
  rs_closed_refs :: json

definition PhaseBRiskState :: "json \<Rightarrow> risk_state" where
  "PhaseBRiskState digest = \<lparr>rs_policy_digest = digest, rs_stop_state = JStr (risk_stop_value ACTIVE),
     rs_current_day = JNull, rs_current_month = JNull, rs_daily_loss = JInt 0, rs_monthly_loss = JInt 0,
     rs_consecutive = JInt 0, rs_entries_today = JInt 0, rs_stopped_on = JNull, rs_violations = JInt 0,
     rs_closed_refs = JList []\<rparr>"

definition risk_state_fields :: "risk_state \<Rightarrow> (string \<times> json) list" where
  "risk_state_fields s = [
     (''policy_digest'', rs_policy_digest s), (''stop_state'', rs_stop_state s),
     (''current_day_jst'', rs_current_day s), (''current_month_jst'', rs_current_month s),
     (''daily_loss_jpy_internal'', rs_daily_loss s), (''monthly_loss_jpy_internal'', rs_monthly_loss s),
     (''consecutive_losses'', rs_consecutive s), (''entries_today'', rs_entries_today s),
     (''stopped_on_jst'', rs_stopped_on s), (''discipline_violation_count'', rs_violations s),
     (''closed_result_cycle_refs'', rs_closed_refs s)]"

text \<open>
  \<open>PhaseBRiskState(**payload)\<close>: \<open>TypeError\<close> (\<open>None\<close>) when the payload is not an object, names an
  unknown field or lacks the only field without a default.
\<close>

definition risk_state_of_payload :: "json \<Rightarrow> risk_state option" where
  "risk_state_of_payload payload = (case payload of
     JObj kvs \<Rightarrow>
       (case map_of kvs ''policy_digest'' of None \<Rightarrow> None | Some digest \<Rightarrow>
         let d = PhaseBRiskState digest;
             field = (\<lambda>k default. case map_of kvs k of None \<Rightarrow> default | Some v \<Rightarrow> v)
         in if \<not> list_all (\<lambda>(k, v). k \<in> fst ` set (risk_state_fields d)) kvs then None
            else Some \<lparr>rs_policy_digest = digest,
              rs_stop_state = field ''stop_state'' (rs_stop_state d),
              rs_current_day = field ''current_day_jst'' (rs_current_day d),
              rs_current_month = field ''current_month_jst'' (rs_current_month d),
              rs_daily_loss = field ''daily_loss_jpy_internal'' (rs_daily_loss d),
              rs_monthly_loss = field ''monthly_loss_jpy_internal'' (rs_monthly_loss d),
              rs_consecutive = field ''consecutive_losses'' (rs_consecutive d),
              rs_entries_today = field ''entries_today'' (rs_entries_today d),
              rs_stopped_on = field ''stopped_on_jst'' (rs_stopped_on d),
              rs_violations = field ''discipline_violation_count'' (rs_violations d),
              rs_closed_refs = field ''closed_result_cycle_refs'' (rs_closed_refs d)\<rparr>)
   | _ \<Rightarrow> None)"

text \<open>An integer field; the code reads one only after \<open>_validate_risk_state\<close> has passed.\<close>

fun json_int :: "json \<Rightarrow> int" where
  "json_int (JInt i) = i"
| "json_int _ = 0"

fun json_elements :: "json \<Rightarrow> json list" where
  "json_elements (JList xs) = xs"
| "json_elements _ = []"

definition cycle_ref_ok :: "string \<Rightarrow> bool" where
  "cycle_ref_ok r \<longleftrightarrow> length r = 64 \<and> list_all (\<lambda>c. c \<in> set hex_chars) r"

definition risk_counters :: "risk_state \<Rightarrow> json list" where
  "risk_counters s = [rs_daily_loss s, rs_monthly_loss s, rs_consecutive s, rs_entries_today s, rs_violations s]"

definition is_json_count :: "json \<Rightarrow> bool" where
  "is_json_count v = (case v of JInt i \<Rightarrow> 0 \<le> i | _ \<Rightarrow> False)"

definition is_json_ref :: "json \<Rightarrow> bool" where
  "is_json_ref v = (case v of JStr r \<Rightarrow> cycle_ref_ok r | _ \<Rightarrow> False)"

definition risk_refs_ok :: "json \<Rightarrow> bool" where
  "risk_refs_ok v = (case v of JList refs \<Rightarrow> list_all is_json_ref refs \<and> distinct refs | _ \<Rightarrow> False)"

definition validate_risk_state :: "risk_policy \<Rightarrow> risk_state \<Rightarrow> unit result" where
  "validate_risk_state p s =
    (if rs_policy_digest s \<noteq> JStr (risk_policy_digest p)
     then Inl (H11AutoRuntimeSafetyError ''risk state policy mismatch'')
     else if AutoRiskStopState (rs_stop_state s) = None
     then Inl (H11AutoRuntimeSafetyError ''risk stop state is invalid'')
     else if \<not> list_all is_json_count (risk_counters s)
     then Inl (H11AutoRuntimeSafetyError ''risk state counters are invalid'')
     else if \<not> risk_refs_ok (rs_closed_refs s)
     then Inl (H11AutoRuntimeSafetyError ''risk closed result refs are invalid'')
     else Inr ())"

text \<open>\<open>AutoRiskStopState(state.stop_state)\<close> of a validated state.\<close>

definition risk_stop_of :: "risk_state \<Rightarrow> risk_stop" where
  "risk_stop_of s = (case AutoRiskStopState (rs_stop_state s) of None \<Rightarrow> KILLED | Some stop \<Rightarrow> stop)"

section \<open>Ledger operations\<close>

definition validate_day :: "string \<Rightarrow> int result" where
  "validate_day day = (case date_fromisoformat day of
     None \<Rightarrow> Inl (H11AutoRuntimeSafetyError ''JST day is invalid'') | Some n \<Rightarrow> Inr n)"

definition roll_day :: "int \<Rightarrow> risk_state \<Rightarrow> risk_state" where
  "roll_day n s =
    (if rs_current_day s \<noteq> JStr (ordinal_isoformat n) then
       (let s = s\<lparr>rs_current_day := JStr (ordinal_isoformat n), rs_daily_loss := JInt 0, rs_entries_today := JInt 0\<rparr>
        in if rs_stop_state s = JStr (risk_stop_value STOPPED_DAILY_BUDGET)
           then s\<lparr>rs_stop_state := JStr (risk_stop_value ACTIVE), rs_stopped_on := JNull\<rparr> else s)
     else s)"

definition roll_month :: "int \<Rightarrow> risk_state \<Rightarrow> risk_state" where
  "roll_month n s =
    (if rs_current_month s \<noteq> JStr (ordinal_month n) then
       (let s = s\<lparr>rs_current_month := JStr (ordinal_month n)\<rparr>
        in if rs_stop_state s = JStr (risk_stop_value ACTIVE) then s\<lparr>rs_monthly_loss := JInt 0\<rparr> else s)
     else s)"

definition roll_calendar :: "int \<Rightarrow> risk_state \<Rightarrow> risk_state" where
  "roll_calendar n s = roll_month n (roll_day n s)"

definition risk_stop_at :: "risk_stop \<Rightarrow> string \<Rightarrow> risk_state \<Rightarrow> risk_state" where
  "risk_stop_at stop day s = s\<lparr>rs_stop_state := JStr (risk_stop_value stop), rs_stopped_on := JStr day\<rparr>"

record risk_gate =
  rg_allowed :: bool
  rg_stop_state :: risk_stop
  rg_blocked_reasons :: "string list"

definition risk_reasons :: "risk_policy \<Rightarrow> risk_state \<Rightarrow> string list" where
  "risk_reasons p s =
     (if risk_stop_of s \<noteq> ACTIVE then [''PERSISTENT_RISK_STOPPED''] else [])
   @ (if rp_max_entries p \<le> json_int (rs_entries_today s) then [''MAX_ENTRIES_PER_DAY_REACHED''] else [])
   @ (if rp_daily_loss p \<le> json_int (rs_daily_loss s) then [''DAILY_LOSS_LIMIT_REACHED''] else [])
   @ (if rp_monthly_loss p \<le> json_int (rs_monthly_loss s) then [''MONTHLY_LOSS_LIMIT_REACHED''] else [])
   @ (if rp_max_consecutive p \<le> json_int (rs_consecutive s) then [''CONSECUTIVE_LOSS_LIMIT_REACHED''] else [])"

definition evaluate_risk_before_entry :: "risk_policy \<Rightarrow> string \<Rightarrow> (risk_state, risk_gate) prog" where
  "evaluate_risk_before_entry p day =
    bindE (getE (validate_risk_state p)) (\<lambda>valid.
    bindE (liftE valid) (\<lambda>_.
    bindE (liftE (validate_day day)) (\<lambda>n.
    thenE (modifyE (roll_calendar n))
    (getE (\<lambda>s. \<lparr>rg_allowed = (risk_reasons p s = []), rg_stop_state = risk_stop_of s,
       rg_blocked_reasons = risk_reasons p s\<rparr>)))))"

definition record_risk_entry_attempt :: "risk_policy \<Rightarrow> string \<Rightarrow> (risk_state, unit) prog" where
  "record_risk_entry_attempt p day =
    bindE (evaluate_risk_before_entry p day) (\<lambda>gate.
    thenE (guardE (rg_allowed gate)
      (H11AutoRuntimeSafetyError ''entry attempt blocked by persistent risk gate''))
    (modifyE (\<lambda>s. s\<lparr>rs_entries_today := JInt (json_int (rs_entries_today s) + 1)\<rparr>)))"

text \<open>The counters after a closed trade, and the stop they call for.\<close>

definition risk_count_loss :: "int \<Rightarrow> risk_state \<Rightarrow> risk_state" where
  "risk_count_loss loss s =
    (if 0 < loss then s\<lparr>rs_daily_loss := JInt (json_int (rs_daily_loss s) + loss),
       rs_monthly_loss := JInt (json_int (rs_monthly_loss s) + loss),
       rs_consecutive := JInt (json_int (rs_consecutive s) + 1)\<rparr>
     else s\<lparr>rs_consecutive := JInt 0\<rparr>)"

definition risk_stop_on_limits :: "risk_policy \<Rightarrow> string \<Rightarrow> risk_state \<Rightarrow> risk_state" where
  "risk_stop_on_limits p day s =
    (if rp_max_consecutive p \<le> json_int (rs_consecutive s) then risk_stop_at STOPPED_CONSECUTIVE_LOSSES day s
     else if rp_monthly_loss p \<le> json_int (rs_monthly_loss s) then risk_stop_at STOPPED_MONTHLY_BUDGET day s
     else if rp_daily_loss p \<le> json_int (rs_daily_loss s) then risk_stop_at STOPPED_DAILY_BUDGET day s
     else s)"

definition record_closed_result :: "risk_policy \<Rightarrow> string \<Rightarrow> pyval \<Rightarrow> (risk_state, risk_stop) prog" where
  "record_closed_result p day pnl =
    (case as_int pnl of
       None \<Rightarrow> raiseE (H11AutoRuntimeSafetyError ''closed result is invalid'')
     | Some pnl \<Rightarrow>
         bindE (getE (validate_risk_state p)) (\<lambda>valid.
         bindE (liftE valid) (\<lambda>_.
         bindE (getE risk_stop_of) (\<lambda>existing_stop.
         bindE (liftE (validate_day day)) (\<lambda>n.
         thenE (modifyE (roll_calendar n))
         (let loss = max 0 (- pnl) in
          if rp_per_trade_loss p < loss then
            thenE (modifyE (\<lambda>s. risk_stop_at KILLED day
              (s\<lparr>rs_violations := JInt (json_int (rs_violations s) + 1)\<rparr>)))
            (returnE KILLED)
          else
            thenE (modifyE (risk_count_loss loss))
            (if existing_stop \<noteq> ACTIVE then returnE existing_stop
             else thenE (modifyE (risk_stop_on_limits p day)) (getE risk_stop_of))))))))"

definition record_closed_result_once ::
    "risk_policy \<Rightarrow> string \<Rightarrow> string \<Rightarrow> pyval \<Rightarrow> (risk_state, risk_stop \<times> bool) prog" where
  "record_closed_result_once p day ref pnl =
    thenE (guardE (cycle_ref_ok ref) (H11AutoRuntimeSafetyError ''closed result cycle is invalid''))
    (bindE (getE (validate_risk_state p)) (\<lambda>valid.
     bindE (liftE valid) (\<lambda>_.
     bindE (getE (\<lambda>s. (JStr ref \<in> set (json_elements (rs_closed_refs s)), risk_stop_of s))) (\<lambda>(seen, stop).
     if seen then returnE (stop, False)
     else
       bindE (record_closed_result p day pnl) (\<lambda>stop.
       thenE (modifyE (\<lambda>s. s\<lparr>rs_closed_refs := JList (json_elements (rs_closed_refs s) @ [JStr ref])\<rparr>))
       (returnE (stop, True)))))))"

definition engage_risk_kill :: "string \<Rightarrow> (risk_state, unit) prog" where
  "engage_risk_kill day =
    bindE (liftE (validate_day day)) (\<lambda>_. modifyE (risk_stop_at KILLED day))"

section \<open>The risk file\<close>

definition risk_load :: "risk_policy \<Rightarrow> json_path \<Rightarrow> risk_state result" where
  "risk_load p path = (case jp_file path of
     FileSymlink \<Rightarrow> Inl (H11AutoRuntimeSafetyError ''risk state path must not be a symlink'')
   | FileMissing \<Rightarrow> Inr (PhaseBRiskState (JStr (risk_policy_digest p)))
   | FileDirectory \<Rightarrow> Inl (H11AutoRuntimeSafetyError ''risk state path must be a regular file'')
   | FileUndecodable \<Rightarrow> Inl (PyValueError ''UnicodeDecodeError'')
   | FileMalformed \<Rightarrow> Inl (H11AutoRuntimeSafetyError ''risk state is malformed'')
   | FileDocument payload \<Rightarrow>
       (case risk_state_of_payload payload of
          None \<Rightarrow> Inl (H11AutoRuntimeSafetyError ''risk state is malformed'')
        | Some s \<Rightarrow> bindR (validate_risk_state p s) (\<lambda>_. Inr s)))"

definition risk_save :: "risk_policy \<Rightarrow> risk_state \<Rightarrow> (json_path, unit) prog" where
  "risk_save p s =
    bindE (liftE (validate_risk_state p s)) (\<lambda>_.
    bindE (getE (\<lambda>path. path)) (\<lambda>path.
    thenE (guardE (jp_file path \<noteq> FileSymlink)
      (H11AutoRuntimeSafetyError ''risk state path must not be a symlink''))
    (thenE (guardE (\<not> jp_tmp_symlink path)
      (H11AutoRuntimeSafetyError ''risk temporary path must not be a symlink''))
    (thenE (guardE (jp_file path \<noteq> FileDirectory)
      (H11AutoRuntimeSafetyError ''risk state cannot be saved''))
    (modifyE (\<lambda>path. path\<lparr>jp_file := FileDocument (JObj (risk_state_fields s))\<rparr>))))))"

section \<open>The dead-man heartbeat\<close>

record dead_man_policy =
  dm_label :: string
  dm_max_age_seconds :: int

definition DeadManPolicy :: "string \<Rightarrow> pyval \<Rightarrow> dead_man_policy result" where
  "DeadManPolicy label max_age =
    (case as_int max_age of
       Some age \<Rightarrow>
         if py_strip label = [] \<or> age \<le> 0 then Inl (H11AutoRuntimeSafetyError ''dead-man policy is invalid'')
         else Inr \<lparr>dm_label = label, dm_max_age_seconds = age\<rparr>
     | None \<Rightarrow> Inl (H11AutoRuntimeSafetyError ''dead-man policy is invalid''))"

definition dead_man_digest :: "dead_man_policy \<Rightarrow> string" where
  "dead_man_digest p = sha256_hex (json_dumps (JObj [
     (''policy_label'', JStr (dm_label p)),
     (''maximum_heartbeat_age_seconds'', JInt (dm_max_age_seconds p))]))"

text \<open>The age is in microseconds.\<close>

record dead_man_result =
  dr_alive :: bool
  dr_halt_required :: bool
  dr_reason :: string
  dr_age :: "int option"

definition dead_man_dead :: "string \<Rightarrow> int option \<Rightarrow> dead_man_result" where
  "dead_man_dead reason age = \<lparr>dr_alive = False, dr_halt_required = True, dr_reason = reason, dr_age = age\<rparr>"

text \<open>
  \<open>_load_heartbeat\<close>: every failure of the reading becomes the store's own error, except that
  \<open>payload.get\<close> of a payload that is not an object raises \<open>AttributeError\<close>.  The callers have
  excluded symbolic links.
\<close>

definition load_heartbeat :: "dead_man_policy \<Rightarrow> json_path \<Rightarrow> datetime result" where
  "load_heartbeat p path =
    (let invalid = Inl (H11AutoRuntimeSafetyError ''dead-man state is invalid'') in
     case jp_file path of
       FileDocument (JObj kvs) \<Rightarrow>
         if map_of kvs ''policy_digest'' \<noteq> Some (JStr (dead_man_digest p)) then invalid
         else (case map_of kvs ''last_heartbeat_utc'' of
             Some (JStr text) \<Rightarrow>
               (case dt_fromisoformat text of
                  None \<Rightarrow> invalid
                | Some t \<Rightarrow> if dt_aware t then Inr (to_utc t) else invalid)
           | _ \<Rightarrow> invalid)
     | FileDocument _ \<Rightarrow> Inl PyAttributeError
     | _ \<Rightarrow> invalid)"

definition dead_man_heartbeat :: "dead_man_policy \<Rightarrow> datetime \<Rightarrow> (json_path, unit) prog" where
  "dead_man_heartbeat p t =
    thenE (guardE (dt_aware t) (H11AutoRuntimeSafetyError ''heartbeat must be timezone-aware''))
    (bindE (getE (\<lambda>path. path)) (\<lambda>path.
     thenE (guardE (jp_file path \<noteq> FileSymlink)
       (H11AutoRuntimeSafetyError ''dead-man path must not be a symlink''))
     (thenE
       (if jp_file path = FileMissing then returnE ()
        else bindE (liftE (load_heartbeat p path)) (\<lambda>previous.
          guardE (\<not> dt_less (to_utc t) previous)
            (H11AutoRuntimeSafetyError ''heartbeat time must not move backwards'')))
     (thenE (guardE (\<not> jp_tmp_symlink path)
       (H11AutoRuntimeSafetyError ''dead-man temporary path must not be a symlink''))
     (modifyE (\<lambda>path. path\<lparr>jp_file := FileDocument (JObj [
        (''policy_digest'', JStr (dead_man_digest p)),
        (''last_heartbeat_utc'', JStr (dt_isoformat (to_utc t)))])\<rparr>))))))"

definition evaluate_loaded_heartbeat :: "dead_man_policy \<Rightarrow> datetime \<Rightarrow> datetime \<Rightarrow> dead_man_result" where
  "evaluate_loaded_heartbeat p beat now =
    (let age = dt_utc now - dt_utc beat in
     if age < 0 then dead_man_dead ''DEAD_MAN_HEARTBEAT_FROM_FUTURE'' (Some age)
     else if dm_max_age_seconds p * us_per_second < age
     then dead_man_dead ''DEAD_MAN_HEARTBEAT_STALE'' (Some age)
     else \<lparr>dr_alive = True, dr_halt_required = False, dr_reason = ''DEAD_MAN_ALIVE'', dr_age = Some age\<rparr>)"

definition json_is_file :: "json_path \<Rightarrow> bool" where
  "json_is_file path \<longleftrightarrow> jp_file path \<notin> {FileSymlink, FileMissing, FileDirectory}"

definition is_runtime_safety_error :: "py_exn \<Rightarrow> bool" where
  "is_runtime_safety_error e = (case e of H11AutoRuntimeSafetyError _ \<Rightarrow> True | _ \<Rightarrow> False)"

definition dead_man_evaluate :: "dead_man_policy \<Rightarrow> json_path \<Rightarrow> datetime \<Rightarrow> dead_man_result result" where
  "dead_man_evaluate p path now =
    (if \<not> dt_aware now then Inr (dead_man_dead ''DEAD_MAN_INPUT_INVALID'' None)
     else if \<not> json_is_file path then Inr (dead_man_dead ''DEAD_MAN_HEARTBEAT_MISSING'' None)
     else case load_heartbeat p path of
         Inl e \<Rightarrow> if is_runtime_safety_error e then Inr (dead_man_dead ''DEAD_MAN_STATE_INVALID'' None) else Inl e
       | Inr beat \<Rightarrow> Inr (evaluate_loaded_heartbeat p beat now))"

text \<open>\<open>clock\<close> is what the clock shows after the file has been read.\<close>

definition dead_man_evaluate_current :: "dead_man_policy \<Rightarrow> json_path \<Rightarrow> datetime \<Rightarrow> dead_man_result result" where
  "dead_man_evaluate_current p path clock =
    (if \<not> json_is_file path then Inr (dead_man_dead ''DEAD_MAN_HEARTBEAT_MISSING'' None)
     else case load_heartbeat p path of
         Inl e \<Rightarrow> if is_runtime_safety_error e then Inr (dead_man_dead ''DEAD_MAN_STATE_INVALID'' None) else Inl e
       | Inr beat \<Rightarrow>
           if \<not> dt_aware clock then Inr (dead_man_dead ''DEAD_MAN_INPUT_INVALID'' None)
           else Inr (evaluate_loaded_heartbeat p beat clock))"

end
