(* ===== verification/Process_Lock.thy ===== *)
theory Process_Lock
  imports H11_Prelude
begin

text \<open>
  \<open>H11AutoProcessLock\<close> of \<open>backend/app/h11_auto/persistence.py\<close>: the advisory lock file that
  keeps one runtime per database.  \<open>flock\<close> belongs to an open file, hence to one lock object: the
  file records the object (a number) that holds it, and \<open>_handle is not None\<close> of object \<open>i\<close> is
  \<open>lf_holder = Some i\<close>.  A lock file that cannot be opened is not modelled.
\<close>

datatype lock_kind = LockAbsent | LockSymlink | LockIrregular | LockRegular

record lock_file =
  lf_kind :: lock_kind
  lf_holder :: "nat option"

definition lock_held :: "nat \<Rightarrow> lock_file \<Rightarrow> bool" where
  "lock_held i f \<longleftrightarrow> lf_holder f = Some i"

definition lock_acquire :: "nat \<Rightarrow> (lock_file, bool) prog" where
  "lock_acquire i =
    bindE (getE (\<lambda>f. f)) (\<lambda>f.
    if lock_held i f then returnE True
    else
      thenE (guardE (lf_kind f \<noteq> LockSymlink) (H11AutoPersistenceError ''process lock path must not be a symlink''))
      (thenE (guardE (lf_kind f \<noteq> LockIrregular) (H11AutoPersistenceError ''process lock path must be a regular file''))
      (thenE (modifyE (\<lambda>f. f\<lparr>lf_kind := LockRegular\<rparr>))
      (if lf_holder f \<noteq> None then returnE False
       else thenE (modifyE (\<lambda>f. f\<lparr>lf_holder := Some i\<rparr>)) (returnE True)))))"

definition lock_release :: "nat \<Rightarrow> (lock_file, unit) prog" where
  "lock_release i = modifyE (\<lambda>f. if lock_held i f then f\<lparr>lf_holder := None\<rparr> else f)"

text \<open>\<open>__enter__\<close> and \<open>__exit__\<close>\<close>

definition lock_enter :: "nat \<Rightarrow> (lock_file, unit) prog" where
  "lock_enter i = bindE (lock_acquire i) (\<lambda>ok.
     guardE ok (H11AutoPersistenceError ''process lock is already held''))"

definition lock_exit :: "nat \<Rightarrow> (lock_file, unit) prog" where
  "lock_exit i = lock_release i"

lemma run_lock_acquire: "lock_acquire i f =
    (if lock_held i f then (Inr True, f)
     else if lf_kind f = LockSymlink then (Inl (H11AutoPersistenceError ''process lock path must not be a symlink''), f)
     else if lf_kind f = LockIrregular then (Inl (H11AutoPersistenceError ''process lock path must be a regular file''), f)
     else if lf_holder f \<noteq> None then (Inr False, f\<lparr>lf_kind := LockRegular\<rparr>)
     else (Inr True, f\<lparr>lf_kind := LockRegular, lf_holder := Some i\<rparr>))"
  by (simp add: lock_acquire_def run_progs)

lemma run_lock_release: "lock_release i f = (Inr (), if lock_held i f then f\<lparr>lf_holder := None\<rparr> else f)"
  by (simp add: lock_release_def)

text \<open>Whatever the lock objects do, one at a time and in any order.\<close>

inductive lock_step :: "nat \<Rightarrow> lock_file \<Rightarrow> lock_file \<Rightarrow> bool" for i where
  step_acquire: "lock_acquire i f = (r, f') \<Longrightarrow> lock_step i f f'"
| step_enter: "lock_enter i f = (u, f') \<Longrightarrow> lock_step i f f'"
| step_release: "lock_release i f = (u, f') \<Longrightarrow> lock_step i f f'"
| step_exit: "lock_exit i f = (u, f') \<Longrightarrow> lock_step i f f'"

inductive lock_steps :: "nat set \<Rightarrow> lock_file \<Rightarrow> lock_file \<Rightarrow> bool" for objects where
  lock_refl: "lock_steps objects f f"
| lock_more: "lock_steps objects f g \<Longrightarrow> i \<in> objects \<Longrightarrow> lock_step i g h \<Longrightarrow> lock_steps objects f h"

lemma lock_step_other:
  assumes "lock_step j f f'" and "lock_held i f" and "i \<noteq> j"
  shows "lock_held i f'"
  using assms by cases (auto simp: lock_enter_def lock_exit_def run_progs run_lock_acquire run_lock_release lock_held_def
      split: if_splits sum.splits prod.splits)

lemma lock_steps_other: "lock_steps objects f g \<Longrightarrow> lock_held i f \<Longrightarrow> i \<notin> objects \<Longrightarrow> lock_held i g"
  by (induction rule: lock_steps.induct) (auto intro: lock_step_other)

text \<open>
  Mutual exclusion: once an object has acquired the lock it holds it whatever the other objects
  do, no other object acquires it, and after its release the lock of a regular file goes to whoever
  asks first.
\<close>

theorem process_lock_exclusive:
  assumes "lock_acquire i f = (Inr True, g)" and "lock_steps (- {i}) g h" and "j \<noteq> i"
  shows "lock_held i h \<and> fst (lock_acquire j h) \<noteq> Inr True
    \<and> (lf_kind h = LockRegular \<longrightarrow> fst (lock_acquire j (snd (lock_release i h))) = Inr True)"
proof -
  have "lock_held i g" using assms(1) by (auto simp: run_lock_acquire lock_held_def split: if_splits)
  then have "lock_held i h" using lock_steps_other [OF assms(2)] by simp
  then show ?thesis using assms(3) by (auto simp: run_lock_acquire run_lock_release lock_held_def)
qed

lemma process_lock_exclusive_witness:
  "fst (lock_acquire 2 (snd (lock_acquire 3 \<lparr>lf_kind = LockRegular, lf_holder = Some 1\<rparr>))) = Inr False"
proof -
  let ?g = "\<lparr>lf_kind = LockRegular, lf_holder = Some (1 :: nat)\<rparr>"
  have "lock_steps (- {1}) ?g (snd (lock_acquire 3 ?g))"
    by (rule lock_more [OF lock_refl, of 3]) (auto intro: step_acquire prod.collapse [symmetric])
  moreover have "lock_acquire 1 \<lparr>lf_kind = LockAbsent, lf_holder = None\<rparr> = (Inr True, ?g)"
    by (simp add: run_lock_acquire lock_held_def)
  ultimately have "lock_held 1 (snd (lock_acquire 3 ?g)) \<and> fst (lock_acquire 2 (snd (lock_acquire 3 ?g))) \<noteq> Inr True"
    using process_lock_exclusive [of 1 _ ?g "snd (lock_acquire 3 ?g)" 2] by simp
  then show ?thesis by (simp add: run_lock_acquire lock_held_def)
qed

end
