(* ===== verification/V4_Runtime.thy ===== *)
theory V4_Runtime
  imports V4_Engine Auto_Boundary Runtime_Safety Process_Lock
begin

text \<open>
  \<open>backend/app/h11_auto/v4_gmo_runtime.py\<close>: one run, one resumption and the operator reload of
  the no-POST runtime, which put the process lock, the generation binding, the risk ledger, the
  dead-man heartbeat and the notifier around the engine.

  The world of the runtime is the engine's world and the files around it.  A path is its resolved
  string; the arguments that name files and policies are the configuration.  A stop of the
  process can hit before each call on the store, the broker and the files; \<open>finally\<close> releases the
  lock then as well.
\<close>

section \<open>The world of the runtime\<close>

record v4_runtime =
  rt_world :: v4_world
  rt_risk :: json_path
  rt_dead_man :: json_path
  rt_notifier :: fake_notifier
  rt_lock :: lock_file

record v4_runtime_config =
  rc_policy :: v4_policy
  rc_state_path :: string
  rc_lock_path :: string
  rc_risk_path :: string
  rc_dead_man_path :: string
  rc_risk_store_policy :: risk_policy
  rc_risk_policy :: risk_policy
  rc_dead_man_policy :: dead_man_policy
  rc_generation_label :: pyval
  rc_lock_object :: nat

definition in_world :: "(v4_world, 'a) prog \<Rightarrow> (v4_runtime, 'a) prog" where
  "in_world m = zoomE rt_world (\<lambda>w r. r\<lparr>rt_world := w\<rparr>) m"

definition in_store :: "(v4_db, 'a) prog \<Rightarrow> (v4_runtime, 'a) prog" where
  "in_store m = in_world (on_store m)"

definition on_risk_file :: "(json_path, 'a) prog \<Rightarrow> (v4_runtime, 'a) prog" where
  "on_risk_file m = thenE (in_world checkpoint) (zoomE rt_risk (\<lambda>f r. r\<lparr>rt_risk := f\<rparr>) m)"

definition on_dead_man_file :: "(json_path, 'a) prog \<Rightarrow> (v4_runtime, 'a) prog" where
  "on_dead_man_file m = thenE (in_world checkpoint) (zoomE rt_dead_man (\<lambda>f r. r\<lparr>rt_dead_man := f\<rparr>) m)"

definition on_notifier :: "(fake_notifier, 'a) prog \<Rightarrow> (v4_runtime, 'a) prog" where
  "on_notifier m = zoomE rt_notifier (\<lambda>n r. r\<lparr>rt_notifier := n\<rparr>) m"

definition on_lock :: "(lock_file, 'a) prog \<Rightarrow> (v4_runtime, 'a) prog" where
  "on_lock m = zoomE rt_lock (\<lambda>f r. r\<lparr>rt_lock := f\<rparr>) m"

text \<open>An operation on the ledger object held in a local variable: its value and the new object.\<close>

definition on_ledger :: "(risk_state, 'a) prog \<Rightarrow> risk_state \<Rightarrow> (v4_runtime, 'a \<times> risk_state) prog" where
  "on_ledger m s = (case m s of (Inl e, s') \<Rightarrow> raiseE e | (Inr x, s') \<Rightarrow> returnE (x, s'))"

text \<open>\<open>try: m finally: f\<close>\<close>

definition finallyE :: "('s, 'a) prog \<Rightarrow> ('s, unit) prog \<Rightarrow> ('s, 'a) prog" where
  "finallyE m f = (\<lambda>s. case m s of (r, s') \<Rightarrow>
     (case f s' of (Inl e, s'') \<Rightarrow> (Inl e, s'') | (Inr _, s'') \<Rightarrow> (r, s'')))"

section \<open>Reports\<close>

datatype v4_runtime_status =
    RT_NO_ACTION_STAY
  | RT_POSITION_PROTECTED_SYNTHETIC
  | RT_FLAT_RECONCILED_SYNTHETIC
  | RT_BLOCKED_SAFE
  | RT_HALTED_OPERATOR_REVIEW_REQUIRED

record v4_runtime_report =
  rr_status :: v4_runtime_status
  rr_generation_label :: string
  rr_profile_version :: string
  rr_policy_config_hash :: string
  rr_selected_horizon :: string
  rr_boot_reconciled :: bool
  rr_process_lock_acquired :: bool
  rr_runtime_safety_bound :: bool
  rr_risk_stop_state :: json
  rr_risk_entry_recorded :: bool
  rr_dead_man_alive :: bool
  rr_notification_heartbeat_count :: nat
  rr_cycle_created :: bool
  rr_final_state :: string
  rr_blocked_reasons :: "string list"
  rr_action_attempt_count :: int
  rr_market_entry_attempt_count :: int
  rr_entry_remainder_cancel_attempt_count :: int
  rr_protection_attempt_count :: int
  rr_protection_cancel_attempt_count :: int
  rr_emergency_exit_attempt_count :: int
  rr_reconciliation_count :: int
  rr_journal_valid :: bool
  rr_journal_event_count :: nat
  rr_actual_post_count :: int
  rr_broker_write_performed :: bool
  rr_credential_read_performed :: bool
  rr_network_access_performed :: bool

text \<open>
  The keyword arguments of \<open>_safe_report\<close> that have defaults, with the defaults.  The check that the
  generation has its fields cannot fail on a \<open>V4GmoGenerationBinding\<close>.
\<close>

record v4_report_args =
  ra_boot_reconciled :: bool
  ra_risk_entry_recorded :: bool
  ra_dead_man_alive :: bool
  ra_blocked_reasons :: "string list"

definition report_args :: v4_report_args where
  "report_args = \<lparr>ra_boot_reconciled = True, ra_risk_entry_recorded = False, ra_dead_man_alive = True,
     ra_blocked_reasons = []\<rparr>"

definition v4_safe_report ::
    "v4_runtime_status \<Rightarrow> v4_binding \<Rightarrow> risk_state \<Rightarrow> v4_report_args \<Rightarrow> v4_cycle_result option
     \<Rightarrow> (v4_runtime, v4_runtime_report) prog" where
  "v4_safe_report status generation risk args result =
    bindE (in_store (\<lambda>db. (v4_verify_journal db, db))) (\<lambda>journal.
    getE (\<lambda>r. let broker = w_broker (rt_world r);
                 count = (\<lambda>f. case result of None \<Rightarrow> 0 | Some c \<Rightarrow> f c)
      in \<lparr>rr_status = status,
          rr_generation_label = gb_generation_label generation,
          rr_profile_version = gb_profile_version generation,
          rr_policy_config_hash = gb_policy_config_hash generation,
          rr_selected_horizon = gb_selected_horizon generation,
          rr_boot_reconciled = ra_boot_reconciled args,
          rr_process_lock_acquired = True, rr_runtime_safety_bound = True,
          rr_risk_stop_state = rs_stop_state risk,
          rr_risk_entry_recorded = ra_risk_entry_recorded args,
          rr_dead_man_alive = ra_dead_man_alive args,
          rr_notification_heartbeat_count = count_list (n_events (rt_notifier r)) HEARTBEAT,
          rr_cycle_created = (case result of None \<Rightarrow> False | Some c \<Rightarrow> r_cycle_ref c \<noteq> None),
          rr_final_state = (case result of None \<Rightarrow> ''NONE'' | Some c \<Rightarrow>
             (case r_final_state c of None \<Rightarrow> ''NONE'' | Some s \<Rightarrow> v4_state_value s)),
          rr_blocked_reasons = ra_blocked_reasons args,
          rr_action_attempt_count = count r_action_attempt_count,
          rr_market_entry_attempt_count = count r_market_entry_attempt_count,
          rr_entry_remainder_cancel_attempt_count = count r_cancel_attempt_count,
          rr_protection_attempt_count = count r_protection_attempt_count,
          rr_protection_cancel_attempt_count = count r_protection_cancel_attempt_count,
          rr_emergency_exit_attempt_count = count r_emergency_exit_attempt_count,
          rr_reconciliation_count = b_reconciliation_count broker,
          rr_journal_valid = js_valid journal, rr_journal_event_count = js_event_count journal,
          rr_actual_post_count = b_actual_post_count broker,
          rr_broker_write_performed = b_write_performed broker,
          rr_credential_read_performed = b_credential_read broker,
          rr_network_access_performed = b_network_access broker\<rparr>))"

text \<open>The dictionary \<open>status_map\<close> and \<open>_report_from_cycle\<close>.\<close>

fun v4_status_map :: "v4_cycle_status \<Rightarrow> v4_runtime_status" where
  "v4_status_map NO_ACTION_STAY = RT_NO_ACTION_STAY"
| "v4_status_map BLOCKED_SAFE = RT_BLOCKED_SAFE"
| "v4_status_map POSITION_PROTECTED_SYNTHETIC = RT_POSITION_PROTECTED_SYNTHETIC"
| "v4_status_map FLAT_RECONCILED_SYNTHETIC = RT_FLAT_RECONCILED_SYNTHETIC"
| "v4_status_map STATUS_HALTED_OPERATOR_REVIEW_REQUIRED = RT_HALTED_OPERATOR_REVIEW_REQUIRED"

definition v4_report_from_cycle ::
    "v4_cycle_result \<Rightarrow> v4_binding \<Rightarrow> risk_state \<Rightarrow> bool \<Rightarrow> bool \<Rightarrow> (v4_runtime, v4_runtime_report) prog" where
  "v4_report_from_cycle result generation risk risk_entry_recorded dead_man_alive =
    v4_safe_report (v4_status_map (r_status result)) generation risk
      \<lparr>ra_boot_reconciled = True, ra_risk_entry_recorded = risk_entry_recorded,
       ra_dead_man_alive = dead_man_alive, ra_blocked_reasons = r_blocked_reasons result\<rparr> (Some result)"

section \<open>Boot checks\<close>

definition v4_boot_reconcile :: "(v4_runtime, v4_snapshot) prog" where
  "v4_boot_reconcile = catchE (in_world (on_broker reconcile_synthetic)) (\<lambda>e.
     raiseE (if is_boundary_error e then V4GmoRuntimeError ''v4 boot reconciliation unavailable'' else e))"

definition is_runtime_error :: "py_exn \<Rightarrow> bool" where
  "is_runtime_error e = (case e of V4GmoRuntimeError _ \<Rightarrow> True | _ \<Rightarrow> False)"

definition v4_boot_blocked_reasons :: "v4_snapshot \<Rightarrow> string list" where
  "v4_boot_blocked_reasons s = failed_reasons [
     (sn_fresh s, ''BOOT_BROKER_SNAPSHOT_STALE''),
     (sn_result_known s, ''BOOT_BROKER_RESULT_UNKNOWN''),
     (sn_position_count s = 0, ''BOOT_POSITION_NOT_FLAT''),
     (sn_filled_size s = 0, ''BOOT_FILL_STATE_NOT_FLAT''),
     (sn_pending_entry_size s = 0, ''BOOT_PENDING_ENTRY_EXISTS''),
     (sn_protection_size s = 0, ''BOOT_PROTECTION_ORDER_EXISTS''),
     (sn_protection_status s = PROT_NONE, ''BOOT_PROTECTION_STATE_NOT_CLEAR'')]"

text \<open>
  The exact types of the notifier and of the broker: the only notifier of the model is the fake
  one, and a broker is the fake one unless it is the refusing one.
\<close>

definition v4_validate_runtime_inputs :: "v4_runtime_config \<Rightarrow> datetime \<Rightarrow> (v4_runtime, unit) prog" where
  "v4_validate_runtime_inputs cfg now =
    thenE (guardE (dt_aware now) (V4GmoRuntimeError ''runtime clock must be timezone-aware''))
    (thenE (guardE (distinct [rc_state_path cfg, rc_lock_path cfg, rc_risk_path cfg, rc_dead_man_path cfg])
       (V4GmoRuntimeError ''v4 runtime paths must be separate''))
    (bindE (getE (\<lambda>r. (n_external_send_performed (rt_notifier r), b_refusing (w_broker (rt_world r)))))
      (\<lambda>(sent, refusing).
     thenE (guardE (\<not> sent) (V4GmoRuntimeError ''v4 runtime notifier must remain fake-only''))
     (guardE (\<not> refusing) (V4GmoRuntimeError ''v4 runtime broker must remain exact fake type'')))))"

text \<open>
  \<open>lock.acquire()\<close>, the opening of the store, and the \<open>try\<close> block with \<open>lock.release()\<close> at its end.
  The store is opened outside the \<open>try\<close> block.
\<close>

definition v4_with_lock :: "nat \<Rightarrow> (v4_runtime, 'a) prog \<Rightarrow> (v4_runtime, 'a) prog" where
  "v4_with_lock i body =
    bindE (on_lock (lock_acquire i)) (\<lambda>ok.
    thenE (guardE ok (V4GmoRuntimeError ''v4 process lock is already held''))
    (thenE (in_store v4_initialize)
    (finallyE body (on_lock (lock_release i)))))"

definition v4_bind_runtime :: "v4_runtime_config \<Rightarrow> (v4_runtime, v4_binding) prog" where
  "v4_bind_runtime cfg = in_store (v4_bind_generation (rc_generation_label cfg) (rc_policy cfg)
     (PyStr (rp_label (rc_risk_policy cfg))) (PyStr (risk_policy_digest (rc_risk_policy cfg)))
     (PyStr (dm_label (rc_dead_man_policy cfg))) (PyStr (dead_man_digest (rc_dead_man_policy cfg))))"

definition v4_load_risk :: "v4_runtime_config \<Rightarrow> (v4_runtime, risk_state) prog" where
  "v4_load_risk cfg = on_risk_file (\<lambda>f. (risk_load (rc_risk_store_policy cfg) f, f))"

definition v4_dead_man_now :: "v4_runtime_config \<Rightarrow> datetime \<Rightarrow> (v4_runtime, dead_man_result) prog" where
  "v4_dead_man_now cfg now = on_dead_man_file (\<lambda>f. (dead_man_evaluate (rc_dead_man_policy cfg) f now, f))"

text \<open>\<open>H11V4GmoNoPostEngine(store=store, broker=broker, clock=clock)\<close>\<close>

definition v4_new_engine :: "(nat \<Rightarrow> pyval) option \<Rightarrow> (v4_world, unit) prog" where
  "v4_new_engine clock = (\<lambda>w.
     case H11V4GmoNoPostEngine (w_store w) (Some (w_broker w)) clock (w_interrupt w) of
       Inl e \<Rightarrow> (Inl e, w)
     | Inr w' \<Rightarrow> (Inr (), w'))"

text \<open>\<open>store.global_halt_reason_safe() or "PERSISTENT_V4_HALT_LATCHED"\<close>\<close>

definition v4_halt_reason_or_default :: "v4_db \<Rightarrow> string" where
  "v4_halt_reason_or_default db = (case v4_global_halt_reason db of
     None \<Rightarrow> ''PERSISTENT_V4_HALT_LATCHED''
   | Some r \<Rightarrow> if r = [] then ''PERSISTENT_V4_HALT_LATCHED'' else r)"

section \<open>One run\<close>

text \<open>The heartbeat of both entry points: written, evaluated and notified; the two results.\<close>

definition v4_heartbeat :: "v4_runtime_config \<Rightarrow> datetime \<Rightarrow> (v4_runtime, dead_man_result \<times> bool) prog" where
  "v4_heartbeat cfg now =
    thenE (on_dead_man_file (dead_man_heartbeat (rc_dead_man_policy cfg) now))
    (bindE (v4_dead_man_now cfg now) (\<lambda>dead_man.
     bindE (on_notifier (notify HEARTBEAT)) (\<lambda>notified.
     returnE (dead_man, notified))))"

definition v4_engage_and_report ::
    "string \<Rightarrow> string list \<Rightarrow> v4_binding \<Rightarrow> risk_state \<Rightarrow> bool \<Rightarrow> bool \<Rightarrow> datetime
     \<Rightarrow> (v4_runtime, v4_runtime_report) prog" where
  "v4_engage_and_report reason reasons generation risk boot_reconciled alive now =
    thenE (in_store (v4_engage_global_halt reason now))
    (v4_safe_report RT_HALTED_OPERATOR_REVIEW_REQUIRED generation risk
      (report_args\<lparr>ra_boot_reconciled := boot_reconciled, ra_dead_man_alive := alive,
         ra_blocked_reasons := reasons\<rparr>) None)"

text \<open>The preflight snapshot, from the ledger the gate has just rolled to the day.\<close>

definition v4_runtime_preflight ::
    "v4_runtime_config \<Rightarrow> v4_snapshot \<Rightarrow> risk_state \<Rightarrow> bool \<Rightarrow> v4_preflight result" where
  "v4_runtime_preflight cfg boot risk held = V4GmoPreflightSnapshot \<lparr>
     pfa_boot_reconciled = PyBool (v4_boot_blocked_reasons boot = []),
     pfa_process_lock_held = PyBool held,
     pfa_data_fresh = PyBool True, pfa_clock_synchronized = PyBool True,
     pfa_notification_path_ready = PyBool True,
     pfa_broker_snapshot_fresh = PyBool (sn_fresh boot),
     pfa_position_count = PyInt (sn_position_count boot),
     pfa_active_order_count =
       PyInt (if 0 < sn_pending_entry_size boot \<or> 0 < sn_protection_size boot then 1 else 0),
     pfa_entries_today = PyInt (json_int (rs_entries_today risk)),
     pfa_daily_stop_clear = PyBool (json_int (rs_daily_loss risk) < rp_daily_loss (rc_risk_policy cfg)),
     pfa_monthly_stop_clear = PyBool (json_int (rs_monthly_loss risk) < rp_monthly_loss (rc_risk_policy cfg)),
     pfa_consecutive_loss_stop_clear =
       PyBool (json_int (rs_consecutive risk) < rp_max_consecutive (rc_risk_policy cfg)),
     pfa_operator_halt_clear = PyBool (risk_stop_of risk = ACTIVE)\<rparr>"

definition v4_signal_valid :: "formal_signal \<Rightarrow> v4_policy \<Rightarrow> datetime \<Rightarrow> bool" where
  "v4_signal_valid signal policy now \<longleftrightarrow>
     s_strategy_version signal = v_strategy_version policy
     \<and> s_config_hash signal = v_signal_config_hash policy
     \<and> s_horizon signal = v_horizon policy
     \<and> dt_less now (s_valid_until signal)"

text \<open>
  From the reconciled boot snapshot on.  \<open>now < valid_until\<close> cannot raise: both are aware, the one
  since the inputs were checked, the other by the constructor of the signal.
\<close>

definition v4_run_after_boot ::
    "v4_runtime_config \<Rightarrow> formal_signal \<Rightarrow> (nat \<Rightarrow> pyval) option \<Rightarrow> datetime \<Rightarrow> v4_binding \<Rightarrow> risk_state
     \<Rightarrow> v4_snapshot \<Rightarrow> (v4_runtime, v4_runtime_report) prog" where
  "v4_run_after_boot cfg signal clock now generation risk boot =
    (let boot_reasons = v4_boot_blocked_reasons boot; day = jst_day now in
     bindE (on_ledger (evaluate_risk_before_entry (rc_risk_policy cfg) day) risk) (\<lambda>(gate, risk).
     bindE (getE (\<lambda>r. lock_held (rc_lock_object cfg) (rt_lock r))) (\<lambda>held.
     bindE (liftE (v4_runtime_preflight cfg boot risk held)) (\<lambda>preflight.
     if boot_reasons \<noteq> [] then v4_engage_and_report (hd boot_reasons) boot_reasons generation risk False True now
     else if s_decision signal \<noteq> STAY \<and> \<not> rg_allowed gate then
       v4_safe_report RT_BLOCKED_SAFE generation risk
         (report_args\<lparr>ra_blocked_reasons := rg_blocked_reasons gate\<rparr>) None
     else
       bindE (if s_decision signal \<noteq> STAY \<and> v4_signal_valid signal (rc_policy cfg) now then
           bindE (on_ledger (record_risk_entry_attempt (rc_risk_policy cfg) day) risk) (\<lambda>(_, risk).
           thenE (on_risk_file (risk_save (rc_risk_store_policy cfg) risk))
           (returnE (risk, True)))
         else returnE (risk, False)) (\<lambda>(risk, recorded).
       thenE (in_world (v4_new_engine clock))
       (bindE (in_world (v4_run_signal_once_synthetic signal (rc_policy cfg) preflight now)) (\<lambda>result.
        bindE (v4_dead_man_now cfg now) (\<lambda>final_dead_man.
        v4_report_from_cycle result generation risk recorded (dr_alive final_dead_man)))))))))"

definition v4_run_once_locked ::
    "v4_runtime_config \<Rightarrow> formal_signal \<Rightarrow> (nat \<Rightarrow> pyval) option \<Rightarrow> datetime
     \<Rightarrow> (v4_runtime, v4_runtime_report) prog" where
  "v4_run_once_locked cfg signal clock now =
    bindE (v4_bind_runtime cfg) (\<lambda>generation.
    bindE (v4_load_risk cfg) (\<lambda>risk.
    bindE (in_store (getE (\<lambda>db. (v4_halt_latched db, v4_halt_reason_or_default db)))) (\<lambda>(latched, reason).
    if latched then
      v4_safe_report RT_HALTED_OPERATOR_REVIEW_REQUIRED generation risk
        (report_args\<lparr>ra_blocked_reasons := [reason]\<rparr>) None
    else
      bindE (in_store v4_load_single_active_cycle) (\<lambda>active.
      if active \<noteq> None then
        v4_safe_report RT_BLOCKED_SAFE generation risk (report_args\<lparr>ra_boot_reconciled := False,
          ra_blocked_reasons := [''ACTIVE_V4_CYCLE_REQUIRES_RESUME'']\<rparr>) None
      else
        bindE (v4_heartbeat cfg now) (\<lambda>(dead_man, notified).
        if \<not> notified \<or> \<not> dr_alive dead_man then
          v4_engage_and_report ''RUNTIME_HEARTBEAT_OR_NOTIFICATION_FAILED''
            [''RUNTIME_HEARTBEAT_OR_NOTIFICATION_FAILED''] generation risk True (dr_alive dead_man) now
        else
          try_exceptE v4_boot_reconcile is_runtime_error
            (v4_engage_and_report ''BOOT_RECONCILIATION_UNAVAILABLE'' [''BOOT_RECONCILIATION_UNAVAILABLE'']
               generation risk False True now)
            (v4_run_after_boot cfg signal clock now generation risk))))))"

definition run_v4_gmo_once_no_post ::
    "v4_runtime_config \<Rightarrow> formal_signal \<Rightarrow> (nat \<Rightarrow> pyval) option \<Rightarrow> datetime
     \<Rightarrow> (v4_runtime, v4_runtime_report) prog" where
  "run_v4_gmo_once_no_post cfg signal clock now =
    thenE (v4_validate_runtime_inputs cfg now)
    (v4_with_lock (rc_lock_object cfg) (v4_run_once_locked cfg signal clock now))"

section \<open>One resumption\<close>

definition v4_resume_locked ::
    "v4_runtime_config \<Rightarrow> (nat \<Rightarrow> pyval) option \<Rightarrow> datetime \<Rightarrow> (v4_runtime, v4_runtime_report) prog" where
  "v4_resume_locked cfg clock now =
    bindE (v4_bind_runtime cfg) (\<lambda>generation.
    bindE (v4_load_risk cfg) (\<lambda>risk.
    bindE (in_store v4_load_single_active_cycle) (\<lambda>active.
    bindE (in_store (getE (\<lambda>db. (v4_halt_latched db, v4_global_halt_reason db, v4_halt_reason_or_default db))))
      (\<lambda>(latched, global_reason, reason).
    case active of
      None \<Rightarrow>
        if latched then
          v4_safe_report RT_HALTED_OPERATOR_REVIEW_REQUIRED generation risk
            (report_args\<lparr>ra_blocked_reasons := [reason]\<rparr>) None
        else
          v4_safe_report RT_BLOCKED_SAFE generation risk
            (report_args\<lparr>ra_blocked_reasons := [''NO_ACTIVE_V4_CYCLE_TO_RESUME'']\<rparr>) None
    | Some cycle \<Rightarrow>
        if global_reason \<noteq> None then
          v4_safe_report RT_HALTED_OPERATOR_REVIEW_REQUIRED generation risk
            (report_args\<lparr>ra_blocked_reasons := [reason]\<rparr>) None
        else
          bindE (v4_heartbeat cfg now) (\<lambda>(dead_man, notified).
          if \<not> notified \<or> \<not> dr_alive dead_man then
            v4_engage_and_report ''RUNTIME_HEARTBEAT_OR_NOTIFICATION_FAILED''
              [''RUNTIME_HEARTBEAT_OR_NOTIFICATION_FAILED''] generation risk True (dr_alive dead_man) now
          else
            thenE (in_world (v4_new_engine clock))
            (bindE (in_world (v4_resume_synthetic (c_ref cycle) (rc_policy cfg) now)) (\<lambda>result.
             bindE (v4_dead_man_now cfg now) (\<lambda>dead_man.
             v4_report_from_cycle result generation risk False (dr_alive dead_man)))))))))"

definition resume_v4_gmo_once_no_post ::
    "v4_runtime_config \<Rightarrow> (nat \<Rightarrow> pyval) option \<Rightarrow> datetime \<Rightarrow> (v4_runtime, v4_runtime_report) prog" where
  "resume_v4_gmo_once_no_post cfg clock now =
    thenE (v4_validate_runtime_inputs cfg now)
    (v4_with_lock (rc_lock_object cfg) (v4_resume_locked cfg clock now))"

section \<open>The operator reload\<close>

datatype v4_reload_status = CLEARED_NO_POST | NO_HALT_LATCHED | REFUSED_NOT_FLAT

record v4_reload_report =
  rl_status :: v4_reload_status
  rl_process_lock_acquired :: bool
  rl_fresh_flat_reconciled :: bool
  rl_halted_cycle_cleared :: bool
  rl_global_halt_cleared :: bool
  rl_action_attempt_count :: int
  rl_reconciliation_count :: int
  rl_actual_post_count :: int
  rl_broker_write_performed :: bool
  rl_credential_read_performed :: bool
  rl_network_access_performed :: bool

definition v4_reload_report ::
    "v4_reload_status \<Rightarrow> bool \<Rightarrow> bool \<Rightarrow> (v4_runtime, v4_reload_report) prog" where
  "v4_reload_report status cycle_cleared halt_cleared = getE (\<lambda>r. let broker = w_broker (rt_world r) in
     \<lparr>rl_status = status, rl_process_lock_acquired = True,
      rl_fresh_flat_reconciled = (status = CLEARED_NO_POST),
      rl_halted_cycle_cleared = cycle_cleared, rl_global_halt_cleared = halt_cleared,
      rl_action_attempt_count = 0, rl_reconciliation_count = b_reconciliation_count broker,
      rl_actual_post_count = b_actual_post_count broker,
      rl_broker_write_performed = b_write_performed broker,
      rl_credential_read_performed = b_credential_read broker,
      rl_network_access_performed = b_network_access broker\<rparr>)"

definition v4_reload_locked :: "string \<Rightarrow> datetime \<Rightarrow> (v4_runtime, v4_reload_report) prog" where
  "v4_reload_locked confirmation now =
    bindE (in_store v4_load_single_halted_cycle) (\<lambda>halted.
    bindE (in_store (getE (\<lambda>db. v4_global_halt_reason db \<noteq> None))) (\<lambda>global_latched.
    if halted = None \<and> \<not> global_latched then v4_reload_report NO_HALT_LATCHED False False
    else
      bindE v4_boot_reconcile (\<lambda>snapshot.
      if v4_boot_blocked_reasons snapshot \<noteq> [] then v4_reload_report REFUSED_NOT_FLAT False False
      else
        thenE (case halted of None \<Rightarrow> returnE () | Some c \<Rightarrow>
            thenE (in_store (v4_clear_halted_cycle_no_post (c_ref c) confirmation (PyBool True) now)) (returnE ()))
        (thenE (if global_latched then in_store (v4_clear_global_halt_no_post confirmation (PyBool True))
            else returnE ())
        (v4_reload_report CLEARED_NO_POST (halted \<noteq> None) global_latched)))))"

definition operator_reload_v4_gmo_no_post ::
    "v4_runtime_config \<Rightarrow> string \<Rightarrow> datetime \<Rightarrow> (v4_runtime, v4_reload_report) prog" where
  "operator_reload_v4_gmo_no_post cfg confirmation now =
    thenE (guardE (confirmation = operator_reload_phrase)
      (V4GmoRuntimeError ''v4 operator reload confirmation mismatch''))
    (thenE (guardE (dt_aware now) (V4GmoRuntimeError ''runtime clock must be timezone-aware''))
    (thenE (guardE (rc_state_path cfg \<noteq> rc_lock_path cfg) (V4GmoRuntimeError ''v4 runtime paths must be separate''))
    (bindE (getE (\<lambda>r. b_refusing (w_broker (rt_world r)))) (\<lambda>refusing.
     thenE (guardE (\<not> refusing) (V4GmoRuntimeError ''v4 runtime broker must remain exact fake type''))
     (v4_with_lock (rc_lock_object cfg) (v4_reload_locked confirmation now))))))"

end
