(* ===== verification/V4_Runtime_Inv.thy ===== *)
theory V4_Runtime_Inv
  imports V4_Runtime V4_Engine_Safety
begin

text \<open>
  What the runtime keeps: the engine's world stays reachable, the lock is given back, and a plan
  reaches the broker only after the risk ledger of the day was saved with its entry.
\<close>

section \<open>Frames\<close>

lemma keeps_in_world: "(\<And>w r. f (r\<lparr>rt_world := w\<rparr>) = f r) \<Longrightarrow> keeps f (in_world m)"
  unfolding in_world_def by (rule keeps_zoom_other) simp

lemma keeps_in_store: "(\<And>w r. f (r\<lparr>rt_world := w\<rparr>) = f r) \<Longrightarrow> keeps f (in_store m)"
  unfolding in_store_def by (rule keeps_in_world)

lemma keeps_risk_file:
  "(\<And>w r. f (r\<lparr>rt_world := w\<rparr>) = f r) \<Longrightarrow> (\<And>x r. f (r\<lparr>rt_risk := x\<rparr>) = f r) \<Longrightarrow> keeps f (on_risk_file m)"
  unfolding on_risk_file_def by (intro frame keeps_in_world keeps_zoom_other) simp_all

lemma keeps_dead_man_file:
  "(\<And>w r. f (r\<lparr>rt_world := w\<rparr>) = f r) \<Longrightarrow> (\<And>x r. f (r\<lparr>rt_dead_man := x\<rparr>) = f r) \<Longrightarrow> keeps f (on_dead_man_file m)"
  unfolding on_dead_man_file_def by (intro frame keeps_in_world keeps_zoom_other) simp_all

lemma keeps_on_notifier: "(\<And>x r. f (r\<lparr>rt_notifier := x\<rparr>) = f r) \<Longrightarrow> keeps f (on_notifier m)"
  unfolding on_notifier_def by (rule keeps_zoom_other) simp

lemma keeps_on_ledger [frame]: "keeps f (on_ledger m s)"
  by (simp add: keeps_def on_ledger_def split: prod.splits sum.splits)

lemma keeps_finally: "keeps f m \<Longrightarrow> keeps f k \<Longrightarrow> keeps f (finallyE m k)"
proof (rule keepsI)
  fix s r s' assume "keeps f m" "keeps f k" and run: "finallyE m k s = (r, s')"
  obtain x t where m: "m s = (x, t)" by (cases "m s")
  obtain y u where k: "k t = (y, u)" by (cases "k t")
  have "s' = u" using run m k by (cases y) (simp_all add: finallyE_def)
  then show "f s' = f s" using keepsD [OF \<open>keeps f m\<close> m] keepsD [OF \<open>keeps f k\<close> k] by simp
qed

lemma stays_on_ledger [stay]: "stays P (on_ledger m s)"
  by (simp add: stays_def on_ledger_def split: prod.splits sum.splits)

lemmas runtime_frames = keeps_in_world keeps_in_store keeps_risk_file keeps_dead_man_file keeps_on_notifier

section \<open>The engine's world stays reachable\<close>

definition rt_reach :: "v4_plan list \<Rightarrow> v4_runtime \<Rightarrow> bool" where
  "rt_reach sent r \<longleftrightarrow> v4_world_reach sent (rt_world r)"

lemma checkpoint_reach: "v4_world_reach sent w \<Longrightarrow> checkpoint w = (x, w') \<Longrightarrow> v4_world_reach sent w'"
  by (auto simp: checkpoint_def intro: world_stop split: option.splits nat.splits)

lemma stays_in_world:
  "(\<And>w x w'. v4_world_reach sent w \<Longrightarrow> m w = (x, w') \<Longrightarrow> v4_world_reach sent w') \<Longrightarrow> stays (rt_reach sent) (in_world m)"
  unfolding in_world_def rt_reach_def by (rule stays_zoom) simp

lemma on_store_reach:
  assumes "\<And>w x db. v4_world_reach sent w \<Longrightarrow> m (w_store w) = (x, db) \<Longrightarrow> v4_world_reach sent (w\<lparr>w_store := db\<rparr>)"
    and "v4_world_reach sent w" and "on_store m w = (x, w')"
  shows "v4_world_reach sent w'"
proof -
  obtain c v where c: "checkpoint w = (c, v)" by (cases "checkpoint w")
  then have v: "v4_world_reach sent v" using checkpoint_reach assms(2) by blast
  obtain y db where y: "m (w_store v) = (y, db)" by (cases "m (w_store v)")
  show ?thesis
    using assms(3) c y v assms(1) [OF v y] by (auto simp: on_store_def run_then run_zoom split: sum.splits)
qed

lemma stays_in_store:
  "(\<And>w x db. v4_world_reach sent w \<Longrightarrow> m (w_store w) = (x, db) \<Longrightarrow> v4_world_reach sent (w\<lparr>w_store := db\<rparr>))
    \<Longrightarrow> stays (rt_reach sent) (in_store m)"
  unfolding in_store_def using on_store_reach by (blast intro: stays_in_world)

lemma stays_read:
  "(\<And>db x db'. m db = (x, db') \<Longrightarrow> db' = db) \<Longrightarrow> stays (rt_reach sent) (in_store m)"
  by (rule stays_in_store) (metis v4_world.surjective v4_world.update_convs(1))

lemma stays_checkpoint: "stays (rt_reach sent) (in_world checkpoint)"
  using checkpoint_reach by (intro stays_in_world)

lemma stays_other_files:
  "stays (rt_reach sent) (on_risk_file m)" "stays (rt_reach sent) (on_dead_man_file m')"
  "stays (rt_reach sent) (on_notifier k)" "stays (rt_reach sent) (on_lock l)"
  unfolding on_risk_file_def on_dead_man_file_def on_notifier_def on_lock_def
  by (intro stay stays_checkpoint stays_zoom; simp add: rt_reach_def)+

lemma stays_reconcile: "stays (rt_reach sent) (in_world (on_broker reconcile_synthetic))"
proof (rule stays_in_world)
  fix w x w' assume w: "v4_world_reach sent w" and run: "on_broker reconcile_synthetic w = (x, w')"
  obtain c v where c: "checkpoint w = (c, v)" by (cases "checkpoint w")
  then have v: "v4_world_reach sent v" using checkpoint_reach w by blast
  obtain y b where y: "reconcile_synthetic (w_broker v) = (y, b)" by (cases "reconcile_synthetic (w_broker v)")
  show "v4_world_reach sent w'"
    using run c y v world_reconcile [OF v y] by (auto simp: on_broker_def run_then run_zoom split: sum.splits)
qed

lemma stays_new_engine: "stays (rt_reach sent) (in_world (v4_new_engine clock))"
  by (rule stays_in_world) (auto simp: v4_new_engine_def intro: world_again split: sum.splits)

lemma stays_store_ops:
  "stays (rt_reach sent) (in_store v4_initialize)"
  "stays (rt_reach sent) (in_store (v4_engage_global_halt reason now))"
  "stays (rt_reach sent) (in_store (v4_clear_global_halt_no_post phrase flat))"
  "stays (rt_reach sent) (in_store (v4_clear_halted_cycle_no_post ref phrase flat now))"
  "stays (rt_reach sent) (in_store (v4_bind_generation label policy rl rd dl dd))"
  by (rule stays_in_store; blast intro: world_initialize world_engage world_clear world_clear_cycle world_bind)+

lemma stays_store_reads:
  "stays (rt_reach sent) (in_store (getE g))"
  "stays (rt_reach sent) (in_store (\<lambda>db. (f db, db)))"
  "stays (rt_reach sent) (in_store v4_load_single_active_cycle)"
  "stays (rt_reach sent) (in_store v4_load_single_halted_cycle)"
  by (rule stays_read; auto simp: v4_load_single_active_cycle_def v4_load_single_halted_cycle_def run_progs
      split: if_splits)+

lemmas runtime_stays = stay stays_other_files stays_reconcile stays_new_engine stays_store_ops stays_store_reads

lemma stays_report: "stays (rt_reach sent) (v4_safe_report status generation risk args result)"
  unfolding v4_safe_report_def by (intro runtime_stays)

lemma stays_engage_and_report: "stays (rt_reach sent) (v4_engage_and_report reason reasons generation risk b a now)"
  unfolding v4_engage_and_report_def by (intro runtime_stays stays_report)

lemma stays_finally: "stays P m \<Longrightarrow> stays P f \<Longrightarrow> stays P (finallyE m f)"
  by (rule staysI) (auto simp: finallyE_def dest: staysD split: prod.splits sum.splits)

lemma stays_with_lock: "stays (rt_reach sent) body \<Longrightarrow> stays (rt_reach sent) (v4_with_lock i body)"
  unfolding v4_with_lock_def by (intro runtime_stays stays_finally)

lemma stays_heartbeat: "stays (rt_reach sent) (v4_heartbeat cfg now)"
  unfolding v4_heartbeat_def v4_dead_man_now_def by (intro runtime_stays)

lemma stays_boot: "stays (rt_reach sent) v4_boot_reconcile"
  unfolding v4_boot_reconcile_def by (intro runtime_stays)

lemma stays_inputs: "stays (rt_reach sent) (v4_validate_runtime_inputs cfg now)"
  unfolding v4_validate_runtime_inputs_def by (intro runtime_stays)

lemma stays_run:
  assumes "V4GmoExecutionPolicy args = Inr (rc_policy cfg)" and "FormalSignal sargs = Inr signal"
  shows "stays (rt_reach sent) (run_v4_gmo_once_no_post cfg signal clock now)"
proof -
  have engine: "stays (rt_reach sent) (in_world (v4_run_signal_once_synthetic signal (rc_policy cfg) preflight now))" for preflight
    using assms by (intro stays_in_world) (blast intro: world_run)
  show ?thesis
    unfolding run_v4_gmo_once_no_post_def v4_run_once_locked_def v4_run_after_boot_def v4_bind_runtime_def
      v4_load_risk_def v4_report_from_cycle_def v4_dead_man_now_def Let_def
    by (intro runtime_stays engine stays_with_lock stays_inputs stays_report stays_engage_and_report stays_heartbeat stays_boot)
qed

lemma stays_resume:
  assumes "V4GmoExecutionPolicy args = Inr (rc_policy cfg)"
  shows "stays (rt_reach sent) (resume_v4_gmo_once_no_post cfg clock now)"
proof -
  have engine: "stays (rt_reach sent) (in_world (v4_resume_synthetic ref (rc_policy cfg) now))" for ref
    using assms by (intro stays_in_world) (blast intro: world_resume)
  show ?thesis
    unfolding resume_v4_gmo_once_no_post_def v4_resume_locked_def v4_bind_runtime_def
      v4_load_risk_def v4_report_from_cycle_def v4_dead_man_now_def Let_def
    by (intro runtime_stays engine stays_with_lock stays_inputs stays_report stays_engage_and_report stays_heartbeat)
qed

lemma stays_reload: "stays (rt_reach sent) (operator_reload_v4_gmo_no_post cfg confirmation now)"
  unfolding operator_reload_v4_gmo_no_post_def v4_reload_locked_def v4_reload_report_def
  by (intro runtime_stays stays_with_lock stays_boot)

section \<open>The lock is given back\<close>

lemma keeps_lock_blocks:
  "keeps rt_lock (v4_safe_report status generation risk args result)"
  "keeps rt_lock (v4_engage_and_report reason reasons generation risk b a now)"
  "keeps rt_lock (v4_heartbeat cfg now)" "keeps rt_lock v4_boot_reconcile"
  "keeps rt_lock (v4_validate_runtime_inputs cfg now)"
  unfolding v4_safe_report_def v4_engage_and_report_def v4_heartbeat_def v4_boot_reconcile_def
    v4_validate_runtime_inputs_def v4_dead_man_now_def
  by (intro frame runtime_frames; simp)+

lemma keeps_lock_bodies:
  "keeps rt_lock (v4_run_once_locked cfg signal clock now)"
  "keeps rt_lock (v4_resume_locked cfg clock now)"
  "keeps rt_lock (v4_reload_locked confirmation now)"
  unfolding v4_run_once_locked_def v4_run_after_boot_def v4_resume_locked_def v4_reload_locked_def v4_bind_runtime_def
    v4_load_risk_def v4_report_from_cycle_def v4_dead_man_now_def v4_reload_report_def Let_def
  by (intro frame runtime_frames keeps_lock_blocks; simp)+

text \<open>
  A lock that another object holds makes the call fail at once; a free lock is free again at the
  end, unless the opening of the store itself raised, which happens outside the \<open>try\<close> block.
\<close>

lemma with_lock_run:
  assumes body: "keeps rt_lock body" and run: "v4_with_lock i body r = (x, r')"
    and other: "lf_holder (rt_lock r) \<noteq> Some i"
  shows "(lf_holder (rt_lock r) \<noteq> None \<longrightarrow> (\<exists>e. x = Inl e) \<and> lf_holder (rt_lock r') = lf_holder (rt_lock r)
        \<and> rt_world r' = rt_world r \<and> rt_risk r' = rt_risk r \<and> rt_dead_man r' = rt_dead_man r)
    \<and> (lf_holder (rt_lock r) = None \<longrightarrow> lf_holder (rt_lock r') = None
        \<or> (\<exists>e. x = Inl e \<and> fst (on_store v4_initialize (rt_world r)) = Inl e))"
proof -
  obtain a l where acq: "lock_acquire i (rt_lock r) = (a, l)" by (cases "lock_acquire i (rt_lock r)")
  let ?r1 = "r\<lparr>rt_lock := l\<rparr>"
  obtain y w where init: "on_store v4_initialize (rt_world r) = (y, w)" by (cases "on_store v4_initialize (rt_world r)")
  let ?r2 = "?r1\<lparr>rt_world := w\<rparr>"
  obtain z r3 where b: "body ?r2 = (z, r3)" by (cases "body ?r2")
  have lock3: "rt_lock r3 = l" using keepsD [OF body b] by simp
  have not_held: "\<not> lock_held i (rt_lock r)" using other by (simp add: lock_held_def)
  have "v4_with_lock i body r = (case a of Inl e \<Rightarrow> (Inl e, ?r1) | Inr ok \<Rightarrow>
      if \<not> ok then (Inl (V4GmoRuntimeError ''v4 process lock is already held''), ?r1)
      else case y of Inl e \<Rightarrow> (Inl e, ?r2) | Inr _ \<Rightarrow> (z, r3\<lparr>rt_lock := snd (lock_release i l)\<rparr>))"
    using b lock3
    by (simp add: v4_with_lock_def on_lock_def in_store_def in_world_def finallyE_def run_progs acq init run_lock_release
        split: sum.splits)
  with run acq init not_held show ?thesis
    by (auto simp: run_lock_acquire run_lock_release lock_held_def split: if_splits sum.splits)
qed

end
