(* ===== verification/Risk_Ledger.thy ===== *)
theory Risk_Ledger
  imports Runtime_Safety
begin

text \<open>
  The risk ledger of \<open>runtime_safety.py\<close> over any sequence of its operations: every state stays
  well typed, the daily entries stay within the policy, a monthly, loss-streak or kill stop is
  never lifted, a daily stop is lifted by the next day, and a result is booked once.
\<close>

section \<open>Validated states\<close>

abbreviation risk_ok :: "risk_policy \<Rightarrow> risk_state \<Rightarrow> bool" where
  "risk_ok p s \<equiv> validate_risk_state p s = Inr ()"

lemma risk_stop_value_inj [simp]: "risk_stop_value a = risk_stop_value b \<longleftrightarrow> a = b"
  by (cases a; cases b) simp_all

lemma AutoRiskStopState_Some: "AutoRiskStopState v = Some stop \<longleftrightarrow> v = JStr (risk_stop_value stop)"
proof
  assume "v = JStr (risk_stop_value stop)"
  then show "AutoRiskStopState v = Some stop"
    by (cases stop) (simp_all add: AutoRiskStopState_def risk_stops_def)
next
  assume "AutoRiskStopState v = Some stop"
  then show "v = JStr (risk_stop_value stop)"
    unfolding AutoRiskStopState_def by (metis (mono_tags, lifting) find_Some_iff)
qed

declare risk_stop_value.simps [simp del]

lemma risk_stop_of_value: "rs_stop_state s = JStr (risk_stop_value stop) \<Longrightarrow> risk_stop_of s = stop"
  using AutoRiskStopState_Some unfolding risk_stop_of_def by (metis option.case(2))

definition risk_ok_stop :: "risk_state \<Rightarrow> bool" where
  "risk_ok_stop s \<longleftrightarrow> rs_stop_state s = JStr (risk_stop_value (risk_stop_of s))"

lemma risk_ok_iff: "risk_ok p s \<longleftrightarrow> rs_policy_digest s = JStr (risk_policy_digest p) \<and> risk_ok_stop s
    \<and> list_all is_json_count (risk_counters s) \<and> risk_refs_ok (rs_closed_refs s)"
proof -
  have "AutoRiskStopState (rs_stop_state s) \<noteq> None \<longleftrightarrow> risk_ok_stop s"
    by (metis AutoRiskStopState_Some not_Some_eq risk_ok_stop_def risk_stop_of_value)
  then show ?thesis unfolding validate_risk_state_def by (cases "AutoRiskStopState (rs_stop_state s)") simp_all
qed

lemma is_json_count_iff: "is_json_count v \<longleftrightarrow> (\<exists>i. v = JInt i \<and> 0 \<le> i)"
  by (cases v) (simp_all add: is_json_count_def)

lemma is_json_count_int: "is_json_count v \<Longrightarrow> v = JInt (json_int v) \<and> 0 \<le> json_int v"
  by (auto simp: is_json_count_iff)

lemma is_json_count_JInt [simp]: "is_json_count (JInt i) \<longleftrightarrow> 0 \<le> i"
  by (simp add: is_json_count_def)

text \<open>The states an operation builds from a validated one.\<close>

lemma risk_ok_stop_simps [simp]:
  "risk_ok_stop (s\<lparr>rs_stop_state := JStr (risk_stop_value stop)\<rparr>)"
  "risk_stop_of (s\<lparr>rs_stop_state := JStr (risk_stop_value stop)\<rparr>) = stop"
  "risk_stop_of (risk_stop_at stop day s) = stop"
  by (simp_all add: risk_ok_stop_def risk_stop_at_def risk_stop_of_value)

lemma risk_stop_frame [simp]:
  "risk_stop_of (s\<lparr>rs_daily_loss := a\<rparr>) = risk_stop_of s" "risk_stop_of (s\<lparr>rs_monthly_loss := a\<rparr>) = risk_stop_of s"
  "risk_stop_of (s\<lparr>rs_consecutive := a\<rparr>) = risk_stop_of s" "risk_stop_of (s\<lparr>rs_entries_today := a\<rparr>) = risk_stop_of s"
  "risk_stop_of (s\<lparr>rs_violations := a\<rparr>) = risk_stop_of s" "risk_stop_of (s\<lparr>rs_closed_refs := a\<rparr>) = risk_stop_of s"
  "risk_stop_of (s\<lparr>rs_current_day := a\<rparr>) = risk_stop_of s" "risk_stop_of (s\<lparr>rs_current_month := a\<rparr>) = risk_stop_of s"
  "risk_stop_of (s\<lparr>rs_stopped_on := a\<rparr>) = risk_stop_of s"
  by (simp_all add: risk_stop_of_def)

lemma risk_stop_count_loss [simp]: "risk_stop_of (risk_count_loss loss s) = risk_stop_of s"
  by (simp add: risk_count_loss_def)

lemma risk_ok_stop_frame [simp]:
  "risk_ok_stop (s\<lparr>rs_daily_loss := a\<rparr>) = risk_ok_stop s" "risk_ok_stop (s\<lparr>rs_monthly_loss := a\<rparr>) = risk_ok_stop s"
  "risk_ok_stop (s\<lparr>rs_consecutive := a\<rparr>) = risk_ok_stop s" "risk_ok_stop (s\<lparr>rs_entries_today := a\<rparr>) = risk_ok_stop s"
  "risk_ok_stop (s\<lparr>rs_violations := a\<rparr>) = risk_ok_stop s" "risk_ok_stop (s\<lparr>rs_closed_refs := a\<rparr>) = risk_ok_stop s"
  "risk_ok_stop (s\<lparr>rs_current_day := a\<rparr>) = risk_ok_stop s" "risk_ok_stop (s\<lparr>rs_current_month := a\<rparr>) = risk_ok_stop s"
  "risk_ok_stop (s\<lparr>rs_stopped_on := a\<rparr>) = risk_ok_stop s"
  by (simp_all add: risk_ok_stop_def)

lemma risk_ok_stop_at: "risk_ok p s \<Longrightarrow> risk_ok p (risk_stop_at stop day s)"
  by (simp add: risk_ok_iff risk_stop_at_def risk_counters_def)

lemma risk_ok_roll: "risk_ok p s \<Longrightarrow> risk_ok p (roll_calendar n s)"
  by (auto simp: risk_ok_iff roll_calendar_def roll_day_def roll_month_def risk_counters_def Let_def)

lemma risk_ok_count_loss: "risk_ok p s \<Longrightarrow> risk_ok p (risk_count_loss loss s)"
  by (auto simp: risk_ok_iff risk_count_loss_def risk_counters_def is_json_count_iff)

lemma risk_ok_limits: "risk_ok p s \<Longrightarrow> risk_ok p (risk_stop_on_limits p day s)"
  by (simp add: risk_stop_on_limits_def risk_ok_stop_at)

lemma risk_ok_entry: "risk_ok p s \<Longrightarrow> risk_ok p (s\<lparr>rs_entries_today := JInt (json_int (rs_entries_today s) + 1)\<rparr>)"
  by (auto simp: risk_ok_iff risk_counters_def is_json_count_iff)

lemma risk_ok_violation: "risk_ok p s \<Longrightarrow> risk_ok p (s\<lparr>rs_violations := JInt (json_int (rs_violations s) + 1)\<rparr>)"
  by (auto simp: risk_ok_iff risk_counters_def is_json_count_iff)

lemma risk_ok_ref:
  assumes "risk_ok p s" "cycle_ref_ok ref" "JStr ref \<notin> set (json_elements (rs_closed_refs s))"
  shows "risk_ok p (s\<lparr>rs_closed_refs := JList (json_elements (rs_closed_refs s) @ [JStr ref])\<rparr>)"
  using assms by (auto simp: risk_ok_iff risk_counters_def risk_refs_ok_def is_json_ref_def
      split: json.splits)

section \<open>Running the operations\<close>

definition risk_gate_of :: "risk_policy \<Rightarrow> risk_state \<Rightarrow> risk_gate" where
  "risk_gate_of p s = \<lparr>rg_allowed = (risk_reasons p s = []), rg_stop_state = risk_stop_of s,
     rg_blocked_reasons = risk_reasons p s\<rparr>"

lemma run_evaluate_risk: "evaluate_risk_before_entry p day s =
    (case validate_risk_state p s of Inl e \<Rightarrow> (Inl e, s) | Inr _ \<Rightarrow>
     case validate_day day of Inl e \<Rightarrow> (Inl e, s) | Inr n \<Rightarrow>
       (Inr (risk_gate_of p (roll_calendar n s)), roll_calendar n s))"
  by (simp add: evaluate_risk_before_entry_def run_progs risk_gate_of_def split: sum.splits)

lemma run_risk_entry: "record_risk_entry_attempt p day s =
    (case validate_risk_state p s of Inl e \<Rightarrow> (Inl e, s) | Inr _ \<Rightarrow>
     case validate_day day of Inl e \<Rightarrow> (Inl e, s) | Inr n \<Rightarrow>
       let t = roll_calendar n s in
       if risk_reasons p t = [] then (Inr (), t\<lparr>rs_entries_today := JInt (json_int (rs_entries_today t) + 1)\<rparr>)
       else (Inl (H11AutoRuntimeSafetyError ''entry attempt blocked by persistent risk gate''), t))"
  by (simp add: record_risk_entry_attempt_def run_progs run_evaluate_risk risk_gate_of_def Let_def split: sum.splits)

definition risk_closed :: "risk_policy \<Rightarrow> string \<Rightarrow> int \<Rightarrow> int \<Rightarrow> risk_state \<Rightarrow> risk_stop \<times> risk_state" where
  "risk_closed p day n pnl s =
    (let t = roll_calendar n s; loss = max 0 (- pnl); u = risk_count_loss loss t; v = risk_stop_on_limits p day u in
     if rp_per_trade_loss p < loss then
       (KILLED, risk_stop_at KILLED day (t\<lparr>rs_violations := JInt (json_int (rs_violations t) + 1)\<rparr>))
     else if risk_stop_of s \<noteq> ACTIVE then (risk_stop_of s, u)
     else (risk_stop_of v, v))"

lemma run_closed_result: "record_closed_result p day pnl s =
    (case as_int pnl of None \<Rightarrow> (Inl (H11AutoRuntimeSafetyError ''closed result is invalid''), s) | Some i \<Rightarrow>
     case validate_risk_state p s of Inl e \<Rightarrow> (Inl e, s) | Inr _ \<Rightarrow>
     case validate_day day of Inl e \<Rightarrow> (Inl e, s) | Inr n \<Rightarrow>
       (case risk_closed p day n i s of (stop, s') \<Rightarrow> (Inr stop, s')))"
  by (simp add: record_closed_result_def run_progs risk_closed_def Let_def split: sum.splits option.splits)

lemma run_closed_once: "record_closed_result_once p day ref pnl s =
    (if \<not> cycle_ref_ok ref then (Inl (H11AutoRuntimeSafetyError ''closed result cycle is invalid''), s) else
     case validate_risk_state p s of Inl e \<Rightarrow> (Inl e, s) | Inr _ \<Rightarrow>
     if JStr ref \<in> set (json_elements (rs_closed_refs s)) then (Inr (risk_stop_of s, False), s) else
     case record_closed_result p day pnl s of (Inl e, s') \<Rightarrow> (Inl e, s')
     | (Inr stop, s') \<Rightarrow> (Inr (stop, True), s'\<lparr>rs_closed_refs := JList (json_elements (rs_closed_refs s') @ [JStr ref])\<rparr>))"
  by (simp add: record_closed_result_once_def run_progs split: sum.splits prod.splits)

lemma run_risk_kill: "engage_risk_kill day s =
    (case validate_day day of Inl e \<Rightarrow> (Inl e, s) | Inr _ \<Rightarrow> (Inr (), risk_stop_at KILLED day s))"
  by (simp add: engage_risk_kill_def run_progs split: sum.splits)

lemma risk_ok_closed: "risk_ok p s \<Longrightarrow> risk_ok p (snd (risk_closed p day n pnl s))"
  by (auto simp: risk_closed_def Let_def intro!: risk_ok_stop_at risk_ok_violation risk_ok_limits risk_ok_count_loss
      risk_ok_roll)

text \<open>What rolling the calendar does to each field.\<close>

lemma roll_month_fields [simp]:
  "rs_current_day (roll_month n s) = rs_current_day s" "rs_daily_loss (roll_month n s) = rs_daily_loss s"
  "rs_entries_today (roll_month n s) = rs_entries_today s" "rs_consecutive (roll_month n s) = rs_consecutive s"
  "rs_stop_state (roll_month n s) = rs_stop_state s" "rs_closed_refs (roll_month n s) = rs_closed_refs s"
  "rs_violations (roll_month n s) = rs_violations s" "rs_current_month (roll_month n s) = JStr (ordinal_month n)"
  by (simp_all add: roll_month_def Let_def)

lemma roll_day_fields [simp]:
  "rs_current_day (roll_day n s) = JStr (ordinal_isoformat n)"
  "rs_daily_loss (roll_day n s) = (if rs_current_day s = JStr (ordinal_isoformat n) then rs_daily_loss s else JInt 0)"
  "rs_entries_today (roll_day n s) = (if rs_current_day s = JStr (ordinal_isoformat n) then rs_entries_today s else JInt 0)"
  "rs_consecutive (roll_day n s) = rs_consecutive s" "rs_closed_refs (roll_day n s) = rs_closed_refs s"
  "rs_violations (roll_day n s) = rs_violations s" "rs_current_month (roll_day n s) = rs_current_month s"
  "rs_monthly_loss (roll_day n s) = rs_monthly_loss s"
  by (simp_all add: roll_day_def Let_def)

lemma roll_calendar_fields:
  "rs_current_day (roll_calendar n s) = JStr (ordinal_isoformat n)"
  "rs_current_month (roll_calendar n s) = JStr (ordinal_month n)"
  "rs_daily_loss (roll_calendar n s) = (if rs_current_day s = JStr (ordinal_isoformat n) then rs_daily_loss s else JInt 0)"
  "rs_entries_today (roll_calendar n s) = (if rs_current_day s = JStr (ordinal_isoformat n) then rs_entries_today s else JInt 0)"
  "rs_consecutive (roll_calendar n s) = rs_consecutive s" "rs_closed_refs (roll_calendar n s) = rs_closed_refs s"
  "rs_violations (roll_calendar n s) = rs_violations s"
  by (simp_all add: roll_calendar_def)

lemma roll_refs [simp]: "rs_closed_refs (roll_calendar n s) = rs_closed_refs s"
  by (rule roll_calendar_fields)

lemma roll_same_day:
  "rs_current_day s = JStr (ordinal_isoformat n) \<Longrightarrow> rs_current_month s = JStr (ordinal_month n) \<Longrightarrow> roll_calendar n s = s"
  by (simp add: roll_calendar_def roll_day_def roll_month_def)

lemma roll_stop_state: "rs_stop_state (roll_calendar n s) =
    (if rs_current_day s \<noteq> JStr (ordinal_isoformat n) \<and> rs_stop_state s = JStr (risk_stop_value STOPPED_DAILY_BUDGET)
     then JStr (risk_stop_value ACTIVE) else rs_stop_state s)"
  by (simp add: roll_calendar_def roll_day_def Let_def)

text \<open>Closing a trade leaves the booked cycles alone.\<close>

lemma closed_refs: "rs_closed_refs (snd (risk_closed p day n pnl s)) = rs_closed_refs s"
  by (auto simp: risk_closed_def Let_def risk_stop_at_def risk_stop_on_limits_def risk_count_loss_def)

section \<open>Saving and loading\<close>

lemma risk_payload_round_trip: "risk_state_of_payload (JObj (risk_state_fields s)) = Some s"
  by (simp add: risk_state_of_payload_def risk_state_fields_def Let_def)

lemma run_risk_save: "risk_save p s path = (Inr u, path') \<longleftrightarrow> risk_ok p s \<and> jp_file path \<noteq> FileSymlink
    \<and> \<not> jp_tmp_symlink path \<and> jp_file path \<noteq> FileDirectory
    \<and> path' = path\<lparr>jp_file := FileDocument (JObj (risk_state_fields s))\<rparr>"
  by (auto simp: risk_save_def run_progs split: sum.splits if_splits)

lemma risk_save_load:
  assumes "risk_save p s path = (Inr u, path')"
  shows "risk_load p path' = Inr s"
  using assms by (auto simp: run_risk_save risk_load_def risk_payload_round_trip)

section \<open>Sequences of operations\<close>

inductive risk_step :: "risk_policy \<Rightarrow> risk_state \<Rightarrow> risk_state \<Rightarrow> bool" for p where
  step_evaluate: "evaluate_risk_before_entry p day s = (g, s') \<Longrightarrow> risk_step p s s'"
| step_entry: "record_risk_entry_attempt p day s = (u, s') \<Longrightarrow> risk_step p s s'"
| step_closed: "record_closed_result p day pnl s = (stop, s') \<Longrightarrow> risk_step p s s'"
| step_closed_once: "record_closed_result_once p day ref pnl s = (x, s') \<Longrightarrow> risk_step p s s'"
| step_kill: "engage_risk_kill day s = (u, s') \<Longrightarrow> risk_step p s s'"
| step_reload: "risk_save p s path = (Inr u, path') \<Longrightarrow> risk_load p path' = Inr s' \<Longrightarrow> risk_step p s s'"

inductive risk_steps :: "risk_policy \<Rightarrow> risk_state \<Rightarrow> risk_state \<Rightarrow> bool" for p where
  risk_refl: "risk_steps p s s"
| risk_more: "risk_steps p s t \<Longrightarrow> risk_step p t u \<Longrightarrow> risk_steps p s u"

text \<open>What a fresh ledger, which has no file yet, can become.\<close>

definition risk_fresh :: "risk_policy \<Rightarrow> risk_state" where
  "risk_fresh p = PhaseBRiskState (JStr (risk_policy_digest p))"

text \<open>
  Every step does nothing to a state it rejects, and otherwise is made of the few updates below:
  an invariant of the updates is an invariant of the ledger.
\<close>

locale risk_invariant =
  fixes p :: risk_policy and inv :: "risk_state \<Rightarrow> bool"
  assumes inv_ok: "inv s \<Longrightarrow> risk_ok p s"
    and inv_roll: "inv s \<Longrightarrow> inv (roll_calendar n s)"
    and inv_entry: "inv s \<Longrightarrow> risk_reasons p s = []
      \<Longrightarrow> inv (s\<lparr>rs_entries_today := JInt (json_int (rs_entries_today s) + 1)\<rparr>)"
    and inv_loss: "inv s \<Longrightarrow> inv (risk_count_loss loss s)"
    and inv_stop: "inv s \<Longrightarrow> stop = KILLED \<or> risk_stop_of s = ACTIVE \<Longrightarrow> inv (risk_stop_at stop day s)"
    and inv_violation: "inv s \<Longrightarrow> inv (s\<lparr>rs_violations := JInt (json_int (rs_violations s) + 1)\<rparr>)"
    and inv_ref: "inv s \<Longrightarrow> cycle_ref_ok ref \<Longrightarrow> JStr ref \<notin> set (json_elements (rs_closed_refs s))
      \<Longrightarrow> inv (s\<lparr>rs_closed_refs := JList (json_elements (rs_closed_refs s) @ [JStr ref])\<rparr>)"
begin

lemma inv_closed:
  assumes "inv s"
  shows "inv (snd (risk_closed p day n pnl s))"
proof -
  let ?t = "roll_calendar n s" and ?loss = "max 0 (- pnl)"
  have t: "inv ?t" using assms by (rule inv_roll)
  have roll: "risk_stop_of s = ACTIVE \<Longrightarrow> risk_stop_of ?t = ACTIVE"
    using inv_ok [OF assms] by (auto simp: roll_calendar_def roll_day_def roll_month_def Let_def)
  have "inv (risk_stop_on_limits p day (risk_count_loss ?loss ?t))" if "risk_stop_of s = ACTIVE"
    using inv_loss [OF t] roll [OF that] by (auto simp: risk_stop_on_limits_def intro!: inv_stop)
  then show ?thesis
    using t by (auto simp: risk_closed_def Let_def intro: inv_stop inv_violation inv_loss)
qed

lemma inv_closed_result: "inv s \<Longrightarrow> record_closed_result p day pnl s = (r, s') \<Longrightarrow> inv s'"
  using inv_closed by (auto simp: run_closed_result split: option.splits sum.splits prod.splits) (metis snd_conv)

lemma inv_step:
  assumes "risk_step p s s'" and "inv s"
  shows "inv s'"
  using assms
proof cases
  case (step_evaluate day g)
  then show ?thesis using inv_roll assms(2) by (auto simp: run_evaluate_risk split: sum.splits)
next
  case (step_entry day u)
  then show ?thesis using inv_roll inv_entry assms(2)
    by (auto simp: run_risk_entry Let_def split: sum.splits if_splits)
next
  case (step_closed day pnl stop)
  then show ?thesis using inv_closed_result assms(2) by blast
next
  case (step_closed_once day ref pnl x)
  show ?thesis
  proof (cases "record_closed_result p day pnl s")
    case (Pair r t)
    have "inv t" using inv_closed_result [OF assms(2) Pair] .
    moreover have "rs_closed_refs t = rs_closed_refs s"
      using Pair closed_refs by (auto simp: run_closed_result split: option.splits sum.splits prod.splits) (metis snd_conv)
    ultimately have "inv (t\<lparr>rs_closed_refs := JList (json_elements (rs_closed_refs t) @ [JStr ref])\<rparr>)"
      if "cycle_ref_ok ref" "JStr ref \<notin> set (json_elements (rs_closed_refs s))"
      using that by (intro inv_ref) simp_all
    then show ?thesis using step_closed_once Pair assms(2) \<open>inv t\<close>
      by (auto simp: run_closed_once split: sum.splits if_splits)
  qed
next
  case (step_kill day u)
  then show ?thesis using inv_stop assms(2) by (auto simp: run_risk_kill split: sum.splits)
next
  case (step_reload path u path')
  then show ?thesis using risk_save_load assms(2) by fastforce
qed

lemma inv_steps: "risk_steps p s s' \<Longrightarrow> inv s \<Longrightarrow> inv s'"
  by (induction rule: risk_steps.induct) (auto intro: inv_step)

end

end
