(* ===== verification/Risk_Properties.thy ===== *)
theory Risk_Properties
  imports Risk_Ledger
begin

text \<open>
  The invariants of the risk ledger, each an interpretation of \<open>risk_invariant\<close>, and the
  properties of the ledger and of the dead-man heartbeat that rest on them.
\<close>

section \<open>Invariants\<close>

interpretation ledger_ok: risk_invariant p "risk_ok p" for p
  by unfold_locales (simp_all add: risk_ok_roll risk_ok_entry risk_ok_count_loss risk_ok_stop_at risk_ok_violation
      risk_ok_ref)

text \<open>The counters stay within their bounds, and day and month belong together.\<close>

definition risk_calendar_ok :: "risk_state \<Rightarrow> bool" where
  "risk_calendar_ok s \<longleftrightarrow> rs_current_day s = JNull \<and> rs_current_month s = JNull
     \<or> (\<exists>n. rs_current_day s = JStr (ordinal_isoformat n) \<and> rs_current_month s = JStr (ordinal_month n))"

definition risk_bounded :: "risk_policy \<Rightarrow> risk_state \<Rightarrow> bool" where
  "risk_bounded p s \<longleftrightarrow> risk_ok p s \<and> risk_calendar_ok s
     \<and> json_int (rs_entries_today s) \<le> max 0 (rp_max_entries p)
     \<and> json_int (rs_daily_loss s) \<le> json_int (rs_monthly_loss s)"

lemma risk_ok_counts:
  assumes "risk_ok p s"
  shows "0 \<le> json_int (rs_entries_today s)" "0 \<le> json_int (rs_daily_loss s)" "0 \<le> json_int (rs_monthly_loss s)"
    "0 \<le> json_int (rs_consecutive s)" "0 \<le> json_int (rs_violations s)"
  using assms is_json_count_int by (auto simp: risk_ok_iff risk_counters_def)

text \<open>The JST day of an instant is a day \<open>validate_day\<close> accepts, and an admitted entry is counted on it.\<close>

lemma jst_day_validates:
  "dt_in_range (to_jst now) \<Longrightarrow> validate_day (jst_day now) = Inr (dt_ordinal (to_jst now))"
  using date_round_trip by (simp add: validate_day_def jst_day_def date_isoformat_ordinal dt_in_range_def)

lemma recorded_entry:
  assumes "record_risk_entry_attempt p day s = (Inr (), t)" "validate_day day = Inr n"
  shows "risk_stop_of t = ACTIVE \<and> rs_current_day t = JStr (ordinal_isoformat n)
    \<and> 1 \<le> json_int (rs_entries_today t) \<and> json_int (rs_entries_today t) \<le> rp_max_entries p"
proof -
  let ?r = "roll_calendar n s"
  have r: "risk_reasons p ?r = []" "t = ?r\<lparr>rs_entries_today := JInt (json_int (rs_entries_today ?r) + 1)\<rparr>"
    and ok: "risk_ok p ?r"
    using assms risk_ok_roll by (auto simp: run_risk_entry Let_def split: sum.splits if_splits)
  have "risk_stop_of ?r = ACTIVE" "json_int (rs_entries_today ?r) < rp_max_entries p"
    using r(1) by (auto simp: risk_reasons_def split: if_splits)
  moreover have "0 \<le> json_int (rs_entries_today ?r)" using ok by (rule risk_ok_counts)
  ultimately show ?thesis unfolding r(2) by (simp add: roll_calendar_fields)
qed

lemma risk_bounded_roll:
  assumes "risk_bounded p s"
  shows "risk_bounded p (roll_calendar n s)"
proof -
  have ok: "risk_ok p (roll_calendar n s)" using assms by (simp add: risk_bounded_def risk_ok_roll)
  have cal: "risk_calendar_ok (roll_calendar n s)" by (auto simp: risk_calendar_ok_def roll_calendar_fields)
  have entries: "json_int (rs_entries_today (roll_calendar n s)) \<le> max 0 (rp_max_entries p)"
    using assms by (simp add: risk_bounded_def roll_calendar_fields)
  have "json_int (rs_daily_loss (roll_calendar n s)) \<le> json_int (rs_monthly_loss (roll_calendar n s))"
  proof (cases "rs_current_day s = JStr (ordinal_isoformat n)")
    case True
    then have "rs_current_month s = JStr (ordinal_month n)"
      using assms unfolding risk_bounded_def risk_calendar_ok_def
      by (metis json.distinct(7) json.inject(1) same_day_same_month)
    then have "roll_calendar n s = s" using True by (simp add: roll_same_day)
    then show ?thesis using assms by (simp add: risk_bounded_def)
  next
    case False
    then have "json_int (rs_daily_loss (roll_calendar n s)) = 0" by (simp add: roll_calendar_fields)
    moreover have "0 \<le> json_int (rs_monthly_loss (roll_calendar n s))" using ok by (rule risk_ok_counts)
    ultimately show ?thesis by simp
  qed
  with ok cal entries show ?thesis by (simp add: risk_bounded_def)
qed

interpretation ledger_bounds: risk_invariant p "risk_bounded p" for p
proof unfold_locales
  fix s ref assume "risk_bounded p s" "cycle_ref_ok ref" "JStr ref \<notin> set (json_elements (rs_closed_refs s))"
  then show "risk_bounded p (s\<lparr>rs_closed_refs := JList (json_elements (rs_closed_refs s) @ [JStr ref])\<rparr>)"
    using risk_ok_ref by (simp add: risk_bounded_def risk_calendar_ok_def)
next
  fix s assume "risk_bounded p s" "risk_reasons p s = []"
  then show "risk_bounded p (s\<lparr>rs_entries_today := JInt (json_int (rs_entries_today s) + 1)\<rparr>)"
    using risk_ok_entry [of p s]
    by (auto simp: risk_bounded_def risk_calendar_ok_def risk_reasons_def split: if_splits)
next
  fix s loss assume "risk_bounded p s"
  then show "risk_bounded p (risk_count_loss loss s)"
    using risk_ok_count_loss [of p s loss] by (auto simp: risk_bounded_def risk_calendar_ok_def risk_count_loss_def)
next
  fix s stop day assume "risk_bounded p s"
  then show "risk_bounded p (risk_stop_at stop day s)"
    using risk_ok_stop_at [of p s stop day] by (auto simp: risk_bounded_def risk_calendar_ok_def risk_stop_at_def)
next
  fix s assume "risk_bounded p s"
  then show "risk_bounded p (s\<lparr>rs_violations := JInt (json_int (rs_violations s) + 1)\<rparr>)"
    using risk_ok_violation [of p s] by (auto simp: risk_bounded_def risk_calendar_ok_def)
qed (simp_all add: risk_bounded_roll, simp add: risk_bounded_def)

text \<open>A stop that no operation lifts.\<close>

definition risk_final :: "risk_stop list \<Rightarrow> risk_policy \<Rightarrow> risk_state \<Rightarrow> bool" where
  "risk_final stops p s \<longleftrightarrow> risk_ok p s \<and> risk_stop_of s \<in> set stops
     \<and> ACTIVE \<notin> set stops \<and> STOPPED_DAILY_BUDGET \<notin> set stops \<and> KILLED \<in> set stops"

lemma roll_stop: "risk_ok p s \<Longrightarrow> risk_stop_of (roll_calendar n s) =
    (if risk_stop_of s = STOPPED_DAILY_BUDGET \<and> rs_current_day s \<noteq> JStr (ordinal_isoformat n) then ACTIVE
     else risk_stop_of s)"
  by (auto simp: risk_ok_iff risk_ok_stop_def roll_calendar_def roll_day_def roll_month_def Let_def)

lemma risk_final_blocks: "risk_final stops p s \<Longrightarrow> risk_reasons p s \<noteq> []"
  by (auto simp: risk_final_def risk_reasons_def)

interpretation ledger_final: risk_invariant p "risk_final stops p" for p stops
proof unfold_locales
  fix s n assume f: "risk_final stops p s"
  then show "risk_final stops p (roll_calendar n s)"
    using risk_ok_roll [of p s n] roll_stop [of p s n] by (auto simp: risk_final_def)
next
  fix s stop day assume "risk_final stops p s" "stop = KILLED \<or> risk_stop_of s = ACTIVE"
  then show "risk_final stops p (risk_stop_at stop day s)"
    by (auto simp: risk_final_def risk_ok_stop_at)
qed (auto simp: risk_final_blocks,
     auto simp: risk_final_def risk_ok_count_loss risk_ok_violation risk_ok_ref)

section \<open>A sample ledger\<close>

definition sample_risk_policy :: risk_policy where
  "sample_risk_policy = \<lparr>rp_label = ''RISK'', rp_per_trade_loss = 100, rp_daily_loss = 200,
     rp_monthly_loss = 500, rp_max_consecutive = 3, rp_max_entries = 2\<rparr>"

lemma sample_risk_policy: "PhaseBRiskPolicy ''RISK'' (PyInt 100) (PyInt 200) (PyInt 500) (PyInt 3) (PyInt 2)
    = Inr sample_risk_policy"
  by (simp add: PhaseBRiskPolicy_def is_positive_int_def py_strip_def py_isspace_def RISK_ENTRIES_PER_DAY_CEILING_def
      sample_risk_policy_def)

lemma fresh_ok: "risk_ok p (risk_fresh p)" "risk_stop_of (risk_fresh p) = ACTIVE"
  by (simp_all add: risk_ok_iff risk_fresh_def PhaseBRiskState_def risk_ok_stop_def risk_counters_def
      risk_refs_ok_def risk_stop_of_value)

lemma fresh_bounded: "risk_bounded p (risk_fresh p)"
  using fresh_ok(1) by (simp add: risk_bounded_def risk_calendar_ok_def risk_fresh_def PhaseBRiskState_def)

lemma sample_days: "validate_day ''2026-01-05'' = Inr 739621" "validate_day ''2026-01-06'' = Inr 739622"
  "ordinal_isoformat 739621 = ''2026-01-05''" "ordinal_isoformat 739622 = ''2026-01-06''"
  by code_simp+

definition sample_daily_stopped :: risk_state where
  "sample_daily_stopped = (risk_fresh sample_risk_policy)\<lparr>
     rs_stop_state := JStr (risk_stop_value STOPPED_DAILY_BUDGET), rs_current_day := JStr ''2026-01-05'',
     rs_current_month := JStr ''2026-01'', rs_daily_loss := JInt 200, rs_monthly_loss := JInt 200,
     rs_consecutive := JInt 2, rs_entries_today := JInt 2, rs_stopped_on := JStr ''2026-01-05''\<rparr>"

lemma sample_daily_stopped:
  "risk_ok sample_risk_policy sample_daily_stopped" "risk_stop_of sample_daily_stopped = STOPPED_DAILY_BUDGET"
  "rs_current_day sample_daily_stopped = JStr ''2026-01-05''"
  "json_int (rs_monthly_loss sample_daily_stopped) < rp_monthly_loss sample_risk_policy"
  "json_int (rs_consecutive sample_daily_stopped) < rp_max_consecutive sample_risk_policy"
  using fresh_ok(1) [of sample_risk_policy]
  by (simp_all add: sample_daily_stopped_def risk_ok_iff risk_counters_def sample_risk_policy_def)

lemma sample_entry:
  "rs_entries_today (snd (record_risk_entry_attempt sample_risk_policy ''2026-01-05'' (risk_fresh sample_risk_policy)))
    = JInt 1"
  using fresh_ok [of sample_risk_policy]
  by (simp add: run_risk_entry sample_days Let_def risk_reasons_def roll_calendar_fields roll_stop)
     (simp add: risk_fresh_def PhaseBRiskState_def sample_risk_policy_def roll_calendar_def roll_day_def roll_month_def)


definition sample_dead_man :: dead_man_policy where
  "sample_dead_man = \<lparr>dm_label = ''DEAD'', dm_max_age_seconds = 120\<rparr>"

text \<open>2026-01-05, noon, in UTC.\<close>

definition sample_beat :: datetime where
  "sample_beat = \<lparr>dt_local = 63903211200000000, dt_offset = Some 0\<rparr>"

section \<open>The ledger\<close>

text \<open>
  C21. Whatever operations, saves and loads a ledger of an accepted policy goes through, in any
  order, with any arguments and whether they return or raise, its state passes
  \<open>_validate_risk_state\<close>: the digest is the policy's, the stop is one of the five labels, the
  counters are non-negative integers and the booked cycles are distinct 64-character digests.
\<close>

theorem risk_ledger_well_typed:
  assumes "risk_steps p (risk_fresh p) s"
  shows "validate_risk_state p s = Inr ()
    \<and> rs_policy_digest s = JStr (risk_policy_digest p)
    \<and> (\<exists>stop. rs_stop_state s = JStr (risk_stop_value stop))
    \<and> (\<forall>v \<in> set (risk_counters s). \<exists>i. v = JInt i \<and> 0 \<le> i)
    \<and> (\<exists>refs. rs_closed_refs s = JList (map JStr refs) \<and> distinct refs \<and> (\<forall>r \<in> set refs. cycle_ref_ok r))"
proof -
  have ok: "risk_ok p s" using ledger_ok.inv_steps [OF assms fresh_ok(1)] .
  then obtain vs where vs: "rs_closed_refs s = JList vs" "list_all is_json_ref vs" "distinct vs"
    by (auto simp: risk_ok_iff risk_refs_ok_def split: json.splits)
  have "\<exists>refs. vs = map JStr refs \<and> (\<forall>r \<in> set refs. cycle_ref_ok r)"
    using vs(2)
  proof (induction vs)
    case (Cons v vs)
    then obtain r refs where "v = JStr r" "cycle_ref_ok r" "vs = map JStr refs" "\<forall>r \<in> set refs. cycle_ref_ok r"
      by (auto simp: is_json_ref_def split: json.splits)
    then show ?case by (intro exI [of _ "r # refs"]) simp
  qed simp
  then obtain refs where "vs = map JStr refs" "\<forall>r \<in> set refs. cycle_ref_ok r" by blast
  with vs have refs: "rs_closed_refs s = JList (map JStr refs) \<and> distinct refs \<and> (\<forall>r \<in> set refs. cycle_ref_ok r)"
    by (simp add: distinct_map)
  show ?thesis using ok refs by (auto simp: risk_ok_iff risk_ok_stop_def list_all_iff is_json_count_iff)
qed

theorem risk_ledger_well_typed_witness:
  "let s = snd (record_risk_entry_attempt sample_risk_policy ''2026-01-05'' (risk_fresh sample_risk_policy))
   in rs_entries_today s = JInt 1 \<and> validate_risk_state sample_risk_policy s = Inr ()"
proof -
  let ?s = "snd (record_risk_entry_attempt sample_risk_policy ''2026-01-05'' (risk_fresh sample_risk_policy))"
  have "risk_steps sample_risk_policy (risk_fresh sample_risk_policy) ?s"
    by (rule risk_more [OF risk_refl step_entry]) (rule prod.collapse [symmetric])
  then show ?thesis using risk_ledger_well_typed sample_entry by (simp add: Let_def)
qed

text \<open>
  C22. The counters stay within the policy: never more entries on a day than the policy allows,
  hence at most 30, and the loss of the day is part of the loss of the month.  The day and the month
  they belong to are set together, and the month is that of the day.
\<close>

theorem risk_ledger_within_bounds:
  assumes "PhaseBRiskPolicy label a b c d e = Inr p" and "risk_steps p (risk_fresh p) s"
  shows "0 \<le> json_int (rs_entries_today s) \<and> json_int (rs_entries_today s) \<le> rp_max_entries p
    \<and> rp_max_entries p \<le> 30
    \<and> 0 \<le> json_int (rs_daily_loss s) \<and> json_int (rs_daily_loss s) \<le> json_int (rs_monthly_loss s)
    \<and> (rs_current_day s = JNull \<and> rs_current_month s = JNull
       \<or> (\<exists>n. rs_current_day s = JStr (ordinal_isoformat n) \<and> rs_current_month s = JStr (ordinal_month n)))"
proof -
  have inv: "risk_bounded p s" using ledger_bounds.inv_steps [OF assms(2) fresh_bounded] .
  then have "risk_ok p s" by (simp add: risk_bounded_def)
  note counts = risk_ok_counts [OF this]
  have "1 \<le> rp_max_entries p \<and> rp_max_entries p \<le> 30"
    using assms(1) by (auto simp: PhaseBRiskPolicy_def RISK_ENTRIES_PER_DAY_CEILING_def Let_def split: if_splits)
  with inv counts show ?thesis by (simp add: risk_bounded_def risk_calendar_ok_def)
qed

theorem risk_ledger_within_bounds_witness:
  "let s = snd (record_risk_entry_attempt sample_risk_policy ''2026-01-05'' (risk_fresh sample_risk_policy))
   in json_int (rs_entries_today s) = 1 \<and> json_int (rs_entries_today s) \<le> rp_max_entries sample_risk_policy"
proof -
  let ?s = "snd (record_risk_entry_attempt sample_risk_policy ''2026-01-05'' (risk_fresh sample_risk_policy))"
  have "risk_steps sample_risk_policy (risk_fresh sample_risk_policy) ?s"
    by (rule risk_more [OF risk_refl step_entry]) (rule prod.collapse [symmetric])
  from risk_ledger_within_bounds [OF sample_risk_policy this] show ?thesis using sample_entry by (simp add: Let_def)
qed

text \<open>
  C24. A monthly stop, a losing-streak stop and the kill switch are final: no sequence of
  operations, saves and loads leads back to an active or a merely daily-stopped ledger, no later
  entry is admitted, and a killed ledger stays killed.
\<close>

theorem risk_stop_is_final:
  assumes "validate_risk_state p s = Inr ()" and "risk_stop_of s \<notin> {ACTIVE, STOPPED_DAILY_BUDGET}"
    and "risk_steps p s t"
  shows "risk_stop_of t \<notin> {ACTIVE, STOPPED_DAILY_BUDGET} \<and> (risk_stop_of s = KILLED \<longrightarrow> risk_stop_of t = KILLED)
    \<and> (\<forall>day. fst (record_risk_entry_attempt p day t) \<noteq> Inr ())"
proof -
  let ?final = "[STOPPED_MONTHLY_BUDGET, STOPPED_CONSECUTIVE_LOSSES, KILLED]"
  have "risk_final ?final p s"
    using assms(1,2) by (cases "risk_stop_of s") (simp_all add: risk_final_def)
  then have t: "risk_final ?final p t" using ledger_final.inv_steps [OF assms(3)] by blast
  have "risk_stop_of t = KILLED" if "risk_stop_of s = KILLED"
    using ledger_final.inv_steps [OF assms(3), of "[KILLED]"] that assms(1) by (simp add: risk_final_def)
  moreover have "fst (record_risk_entry_attempt p day t) \<noteq> Inr ()" for day
    using ledger_final.inv_roll [OF t] risk_final_blocks
    by (auto simp: run_risk_entry Let_def split: sum.splits)
  ultimately show ?thesis using t by (auto simp: risk_final_def)
qed

theorem risk_stop_is_final_witness:
  "let s = snd (engage_risk_kill ''2026-01-05'' (risk_fresh sample_risk_policy));
       t = snd (evaluate_risk_before_entry sample_risk_policy ''2026-01-06'' s)
   in risk_stop_of s = KILLED \<and> risk_stop_of t = KILLED"
proof -
  let ?s = "snd (engage_risk_kill ''2026-01-05'' (risk_fresh sample_risk_policy))"
  let ?t = "snd (evaluate_risk_before_entry sample_risk_policy ''2026-01-06'' ?s)"
  have s: "?s = risk_stop_at KILLED ''2026-01-05'' (risk_fresh sample_risk_policy)"
    by (simp add: run_risk_kill sample_days)
  have "risk_steps sample_risk_policy ?s ?t"
    by (rule risk_more [OF risk_refl step_evaluate]) (rule prod.collapse [symmetric])
  then have "risk_stop_of ?s = KILLED \<longrightarrow> risk_stop_of ?t = KILLED"
    using risk_stop_is_final [of sample_risk_policy ?s ?t] by (simp add: s risk_ok_stop_at fresh_ok)
  then show ?thesis by (simp add: Let_def s)
qed

text \<open>
  C25. A daily stop does not outlive its day: on any other day the entry is admitted again, as
  long as the monthly limit and the losing streak leave room.
\<close>

theorem risk_daily_stop_is_lifted:
  assumes "PhaseBRiskPolicy label a b c d e = Inr p" and "validate_risk_state p s = Inr ()"
    and "risk_stop_of s = STOPPED_DAILY_BUDGET" and "validate_day day = Inr n"
    and "rs_current_day s \<noteq> JStr (ordinal_isoformat n)"
    and "rs_current_month s \<noteq> JStr (ordinal_month n) \<or> json_int (rs_monthly_loss s) < rp_monthly_loss p"
    and "json_int (rs_consecutive s) < rp_max_consecutive p"
  shows "\<exists>s'. record_risk_entry_attempt p day s = (Inr (), s') \<and> risk_stop_of s' = ACTIVE
    \<and> rs_entries_today s' = JInt 1 \<and> rs_current_day s' = JStr (ordinal_isoformat n)"
proof -
  let ?t = "roll_calendar n s"
  have pos: "0 < rp_max_entries p" "0 < rp_daily_loss p" "0 < rp_monthly_loss p"
    using assms(1) by (auto simp: PhaseBRiskPolicy_def is_positive_int_def Let_def split: if_splits option.splits)
  have stop: "rs_stop_state s = JStr (risk_stop_value STOPPED_DAILY_BUDGET)"
    using assms(2,3) by (simp add: risk_ok_iff risk_ok_stop_def)
  have "rs_entries_today ?t = JInt 0" "rs_daily_loss ?t = JInt 0" "risk_stop_of ?t = ACTIVE"
    "rs_consecutive ?t = rs_consecutive s" "rs_current_day ?t = JStr (ordinal_isoformat n)"
    "json_int (rs_monthly_loss ?t) < rp_monthly_loss p"
    using stop assms(5,6) pos
    by (auto simp: roll_calendar_def roll_day_def roll_month_def Let_def risk_stop_of_value)
  then show ?thesis using assms(2,4,7) pos
    by (simp add: run_risk_entry risk_reasons_def Let_def)
qed

theorem risk_daily_stop_is_lifted_witness:
  "\<exists>s'. record_risk_entry_attempt sample_risk_policy ''2026-01-06'' sample_daily_stopped = (Inr (), s')
    \<and> risk_stop_of s' = ACTIVE"
  using risk_daily_stop_is_lifted [OF sample_risk_policy sample_daily_stopped(1,2), of "''2026-01-06''" 739622]
    sample_daily_stopped(3-) sample_days by auto



text \<open>A saved ledger is loaded back as it was.\<close>

theorem risk_file_round_trip:
  assumes "risk_save p s path = (Inr (), path')"
  shows "risk_load p path' = Inr s"
  using assms by (rule risk_save_load)

theorem risk_file_round_trip_witness:
  "let path = \<lparr>jp_file = FileMissing, jp_tmp_symlink = False\<rparr>
   in risk_load sample_risk_policy (snd (risk_save sample_risk_policy sample_daily_stopped path))
      = Inr sample_daily_stopped"
  using risk_file_round_trip [of sample_risk_policy sample_daily_stopped "\<lparr>jp_file = FileMissing, jp_tmp_symlink = False\<rparr>"]
    sample_daily_stopped(1)
  by (simp add: run_risk_save Let_def) (simp add: risk_save_def run_progs)

section \<open>The dead-man heartbeat\<close>

text \<open>
  The dead man is alive only on evidence: the file holds a heartbeat of this very policy with
  a time zone, and at an aware \<open>now\<close> it is neither from the future nor older than the policy
  allows.  In every other case the evaluation demands a halt, or raises when the file holds JSON
  that is not an object.
\<close>

theorem dead_man_alive_iff:
  "(\<exists>r. dead_man_evaluate p path now = Inr r \<and> dr_alive r) \<longleftrightarrow>
    dt_aware now \<and> (\<exists>kvs written beat. jp_file path = FileDocument (JObj kvs)
      \<and> map_of kvs ''policy_digest'' = Some (JStr (dead_man_digest p))
      \<and> map_of kvs ''last_heartbeat_utc'' = Some (JStr written)
      \<and> dt_fromisoformat written = Some beat \<and> dt_aware beat
      \<and> 0 \<le> dt_utc now - dt_utc beat \<and> dt_utc now - dt_utc beat \<le> dm_max_age_seconds p * us_per_second)"
proof -
  have loaded: "load_heartbeat p path = Inr b \<longleftrightarrow> (\<exists>kvs written beat. jp_file path = FileDocument (JObj kvs)
      \<and> map_of kvs ''policy_digest'' = Some (JStr (dead_man_digest p))
      \<and> map_of kvs ''last_heartbeat_utc'' = Some (JStr written)
      \<and> dt_fromisoformat written = Some beat \<and> dt_aware beat \<and> b = to_utc beat)" for b
    by (auto simp: load_heartbeat_def Let_def split: json_file.splits json.splits option.splits)
  have alive: "dr_alive (evaluate_loaded_heartbeat p b now) \<longleftrightarrow>
      0 \<le> dt_utc now - dt_utc b \<and> dt_utc now - dt_utc b \<le> dm_max_age_seconds p * us_per_second" for b
    by (auto simp: evaluate_loaded_heartbeat_def dead_man_dead_def Let_def)
  have is_file: "load_heartbeat p path = Inr b \<Longrightarrow> json_is_file path" for b
    by (auto simp: loaded json_is_file_def)
  have "(\<exists>r. dead_man_evaluate p path now = Inr r \<and> dr_alive r) \<longleftrightarrow>
      dt_aware now \<and> (\<exists>b. load_heartbeat p path = Inr b \<and> dr_alive (evaluate_loaded_heartbeat p b now))"
    using is_file by (auto simp: dead_man_evaluate_def dead_man_dead_def split: sum.splits)
  then show ?thesis unfolding loaded alive by (fastforce simp: to_utc_def)
qed

text \<open>
  A heartbeat that was written is the one that is evaluated: the text of the file carries the
  instant exactly, so the age counts from it, a later heartbeat is accepted and an earlier one
  refused.
\<close>

theorem dead_man_heartbeat_round_trip:
  assumes "dead_man_heartbeat p t path = (Inr (), path')" and "dt_in_range (to_utc t)"
  shows "load_heartbeat p path' = Inr (to_utc t)
    \<and> (dt_aware now \<longrightarrow> dead_man_evaluate p path' now = Inr (evaluate_loaded_heartbeat p (to_utc t) now))
    \<and> (dt_aware u \<longrightarrow> (fst (dead_man_heartbeat p u path') = Inr () \<longleftrightarrow> dt_utc t \<le> dt_utc u))"
proof -
  have t: "dt_aware t" "\<not> jp_tmp_symlink path"
    and path': "path' = path\<lparr>jp_file := FileDocument (JObj [(''policy_digest'', JStr (dead_man_digest p)),
        (''last_heartbeat_utc'', JStr (dt_isoformat (to_utc t)))])\<rparr>"
    using assms(1) by (auto simp: dead_man_heartbeat_def run_progs split: if_splits sum.splits)
  have reread: "dt_fromisoformat (dt_isoformat (to_utc t)) = Some (to_utc t)"
    using assms(2) by (intro dt_round_trip) (simp_all add: to_utc_def dt_astimezone_def)
  have utc: "dt_aware (to_utc t)" "to_utc (to_utc t) = to_utc t"
    by (simp_all add: to_utc_def dt_astimezone_def dt_aware_def dt_utc_def)
  have load: "load_heartbeat p path' = Inr (to_utc t)"
    by (simp add: load_heartbeat_def path' reread utc)
  moreover have "json_is_file path'" by (simp add: json_is_file_def path')
  moreover have "dt_less (to_utc u) (to_utc t) \<longleftrightarrow> dt_utc u < dt_utc t" for u
    by (simp add: dt_less_def to_utc_def)
  then have "dt_aware u \<longrightarrow> (fst (dead_man_heartbeat p u path') = Inr () \<longleftrightarrow> dt_utc t \<le> dt_utc u)"
    using load t(2) by (auto simp: dead_man_heartbeat_def run_progs path' split: if_splits sum.splits)
  ultimately show ?thesis by (simp add: dead_man_evaluate_def)
qed

theorem dead_man_heartbeat_round_trip_witness:
  "let path = snd (dead_man_heartbeat sample_dead_man sample_beat \<lparr>jp_file = FileMissing, jp_tmp_symlink = False\<rparr>)
   in dead_man_evaluate sample_dead_man path (dt_add sample_beat 60000000) =
        Inr \<lparr>dr_alive = True, dr_halt_required = False, dr_reason = ''DEAD_MAN_ALIVE'', dr_age = Some 60000000\<rparr>"
proof -
  let ?run = "dead_man_heartbeat sample_dead_man sample_beat \<lparr>jp_file = FileMissing, jp_tmp_symlink = False\<rparr>"
  have "?run = (Inr (), snd ?run)"
    by (simp add: dead_man_heartbeat_def run_progs sample_beat_def dt_aware_def)
  moreover have "dt_in_range (to_utc sample_beat)"
    by (simp add: dt_in_range_def to_utc_def dt_astimezone_def dt_utc_def sample_beat_def dt_ordinal_def us_defs
        max_ordinal_def)
  moreover have "dt_aware (dt_add sample_beat 60000000)"
    by (simp add: dt_aware_def dt_add_def sample_beat_def)
  ultimately have "dead_man_evaluate sample_dead_man (snd ?run) (dt_add sample_beat 60000000) =
      Inr (evaluate_loaded_heartbeat sample_dead_man (to_utc sample_beat) (dt_add sample_beat 60000000))"
    using dead_man_heartbeat_round_trip by blast
  then show ?thesis
    by (simp add: Let_def evaluate_loaded_heartbeat_def sample_dead_man_def sample_beat_def dt_add_def dt_utc_def
        to_utc_def dt_astimezone_def us_defs)
qed

section \<open>Two corners of the code\<close>

text \<open>
  A result booked on the day after a daily stop: the calendar lifts the stop, yet the call returns
  the stop it read before and skips the limits, so the ledger is left active with the whole daily
  budget spent.
\<close>

lemma risk_closed_after_daily_stop:
  assumes "risk_ok p s" "risk_stop_of s = STOPPED_DAILY_BUDGET" "validate_day day = Inr n"
    and "rs_current_day s \<noteq> JStr (ordinal_isoformat n)" and "0 < loss" "loss \<le> rp_per_trade_loss p"
  shows "\<exists>s'. record_closed_result p day (PyInt (- loss)) s = (Inr STOPPED_DAILY_BUDGET, s')
    \<and> risk_stop_of s' = ACTIVE \<and> rs_daily_loss s' = JInt loss"
proof -
  have stop: "rs_stop_state s = JStr (risk_stop_value STOPPED_DAILY_BUDGET)"
    using assms(1,2) by (simp add: risk_ok_iff risk_ok_stop_def)
  have "risk_stop_of (roll_calendar n s) = ACTIVE" "rs_daily_loss (roll_calendar n s) = JInt 0"
    using stop assms(4) by (auto simp: roll_calendar_def roll_day_def roll_month_def Let_def risk_stop_of_value)
  then show ?thesis using assms by (simp add: run_closed_result risk_closed_def Let_def risk_count_loss_def)
qed

lemma dead_man_raises_on_json_list:
  assumes "jp_file path = FileDocument (JList xs)" "dt_aware now"
  shows "dead_man_evaluate p path now = Inl PyAttributeError"
  using assms by (simp add: dead_man_evaluate_def json_is_file_def load_heartbeat_def is_runtime_safety_error_def Let_def)

end
