(* ===== verification/V4_Runtime_Safety.thy ===== *)
theory V4_Runtime_Safety
  imports V4_Runtime_Inv Risk_Properties
begin

text \<open>
  A run hands a plan to the broker only after the ledger file of the day holds the entry: the
  blocks before leave the broker's calls alone, and the engine itself does nothing for a signal
  the runtime did not record.
\<close>

definition rt_calls :: "v4_runtime \<Rightarrow> v4_plan list" where
  "rt_calls r = b_calls (w_broker (rt_world r))"

text \<open>The ledger on disk holds an admitted entry of the JST day of \<open>now\<close>.\<close>

definition risk_entry_saved :: "v4_runtime_config \<Rightarrow> datetime \<Rightarrow> json_path \<Rightarrow> bool" where
  "risk_entry_saved cfg now path \<longleftrightarrow> (\<exists>s. jp_file path = FileDocument (JObj (risk_state_fields s))
     \<and> validate_risk_state (rc_risk_store_policy cfg) s = Inr () \<and> risk_stop_of s = ACTIVE
     \<and> rs_current_day s = JStr (jst_day now)
     \<and> 1 \<le> json_int (rs_entries_today s) \<and> json_int (rs_entries_today s) \<le> rp_max_entries (rc_risk_policy cfg))"

section \<open>What leaves the broker's calls alone\<close>

lemma checkpoint_calls: "checkpoint w = (x, w') \<Longrightarrow> w_broker w' = w_broker w"
  by (auto simp: checkpoint_def split: option.splits nat.splits)

lemma keeps_calls_world: "(\<And>w x w'. m w = (x, w') \<Longrightarrow> b_calls (w_broker w') = b_calls (w_broker w))
    \<Longrightarrow> keeps rt_calls (in_world m)"
  unfolding in_world_def rt_calls_def by (rule keepsI) (auto simp: run_zoom split: prod.splits)

lemma keeps_calls_checkpoint: "keeps rt_calls (in_world checkpoint)"
  by (rule keeps_calls_world) (simp add: checkpoint_calls)

lemma keeps_calls_store: "keeps rt_calls (in_store m)"
  unfolding in_store_def
  by (rule keeps_calls_world) (auto simp: on_store_def run_then run_zoom dest: checkpoint_calls split: sum.splits prod.splits)

lemma keeps_calls_files:
  "keeps rt_calls (on_risk_file m)" "keeps rt_calls (on_dead_man_file m')" "keeps rt_calls (on_notifier k)"
  "keeps rt_calls (on_lock l)"
  unfolding on_risk_file_def on_dead_man_file_def on_notifier_def on_lock_def
  by (intro frame keeps_calls_checkpoint keeps_zoom_other; simp add: rt_calls_def)+

lemma keeps_calls_reconcile: "keeps rt_calls (in_world (on_broker reconcile_synthetic))"
proof (rule keeps_calls_world)
  fix w x w' assume run: "on_broker reconcile_synthetic w = (x, w')"
  obtain c v where c: "checkpoint w = (c, v)" by (cases "checkpoint w")
  obtain y b where y: "reconcile_synthetic (w_broker v) = (y, b)" by (cases "reconcile_synthetic (w_broker v)")
  have "b_calls b = b_calls (w_broker v)"
    using y v4b.reconcile_returns v4b.reconcile_raises by (cases y) fastforce+
  then show "b_calls (w_broker w') = b_calls (w_broker w)"
    using run c y checkpoint_calls [OF c] by (auto simp: on_broker_def run_then run_zoom split: sum.splits)
qed

lemma keeps_calls_new_engine: "keeps rt_calls (in_world (v4_new_engine clock))"
  by (rule keeps_calls_world) (auto simp: v4_new_engine_def dest: engine_keeps split: sum.splits)

lemmas calls_frames = frame keeps_calls_store keeps_calls_files keeps_calls_reconcile keeps_calls_new_engine

lemma keeps_calls_blocks:
  "keeps rt_calls (v4_safe_report status generation risk args result)"
  "keeps rt_calls (v4_engage_and_report reason reasons generation risk b a now)"
  "keeps rt_calls (v4_heartbeat cfg now)" "keeps rt_calls v4_boot_reconcile"
  "keeps rt_calls (v4_validate_runtime_inputs cfg now)"
  "keeps rt_calls (v4_dead_man_now cfg now)"
  "keeps rt_calls (v4_report_from_cycle result' generation risk recorded alive)"
  unfolding v4_engage_and_report_def v4_heartbeat_def v4_boot_reconcile_def
    v4_validate_runtime_inputs_def v4_dead_man_now_def v4_safe_report_def v4_report_from_cycle_def
  by (intro calls_frames)+

text \<open>The engine blocks what the runtime did not record.\<close>

lemma engine_blocked:
  assumes "\<not> (s_decision signal \<noteq> STAY \<and> v4_signal_valid signal policy now)" and "dt_aware now"
    and "dt_aware (s_valid_until signal)"
  shows "snd (v4_run_signal_once_synthetic signal policy preflight now w) = w"
proof (cases "s_decision signal = STAY")
  case True
  then show ?thesis using assms(2,3)
    by (simp add: v4_run_signal_once_synthetic_def run_progs dt_comparable_def Let_def)
next
  case False
  then have "\<not> v4_accepts policy signal \<or> dt_leq (s_valid_until signal) now"
    using assms(1) by (auto simp: v4_signal_valid_def v4_accepts_def dt_less_def dt_leq_def)
  then show ?thesis using assms(2,3) False
    by (auto simp: v4_run_signal_once_synthetic_def run_progs dt_comparable_def Let_def)
qed

section \<open>The composition\<close>

definition sends_admitted :: "v4_runtime_config \<Rightarrow> datetime \<Rightarrow> v4_plan list \<Rightarrow> (v4_runtime, 'a) prog \<Rightarrow> bool" where
  "sends_admitted cfg now calls m \<longleftrightarrow> (\<forall>r x r'. rt_calls r = calls \<longrightarrow> m r = (x, r') \<longrightarrow>
     rt_calls r' = calls \<or> risk_entry_saved cfg now (rt_risk r'))"

lemma sends_keeps: "keeps rt_calls m \<Longrightarrow> sends_admitted cfg now calls m"
  by (auto simp: sends_admitted_def dest: keepsD)

lemma sends_bind:
  assumes "keeps rt_calls m" and "\<And>x. sends_admitted cfg now calls (k x)"
  shows "sends_admitted cfg now calls (bindE m k)"
  unfolding sends_admitted_def
proof (intro allI impI)
  fix r x r' assume r: "rt_calls r = calls" "bindE m k r = (x, r')"
  obtain y t where m: "m r = (y, t)" by (cases "m r")
  then have "rt_calls t = calls" using keepsD [OF assms(1)] r(1) by metis
  then show "rt_calls r' = calls \<or> risk_entry_saved cfg now (rt_risk r')"
    using r(2) m assms(2) by (cases y) (auto simp: run_bind sends_admitted_def)
qed

lemma sends_then: "keeps rt_calls m \<Longrightarrow> sends_admitted cfg now calls k \<Longrightarrow> sends_admitted cfg now calls (thenE m k)"
  unfolding thenE_def by (rule sends_bind)

lemma sends_if: "sends_admitted cfg now calls m \<Longrightarrow> sends_admitted cfg now calls k
    \<Longrightarrow> sends_admitted cfg now calls (if b then m else k)"
  by simp

lemma sends_prod: "(\<And>a b. sends_admitted cfg now calls (k a b)) \<Longrightarrow> sends_admitted cfg now calls (case x of (a, b) \<Rightarrow> k a b)"
  by (cases x) auto

lemma sends_try:
  assumes "keeps rt_calls m" "sends_admitted cfg now calls h" "\<And>x. sends_admitted cfg now calls (k x)"
  shows "sends_admitted cfg now calls (try_exceptE m caught h k)"
  unfolding sends_admitted_def
proof (intro allI impI)
  fix r x r' assume r: "rt_calls r = calls" "try_exceptE m caught h k r = (x, r')"
  obtain y t where m: "m r = (y, t)" by (cases "m r")
  then have "rt_calls t = calls" using keepsD [OF assms(1)] r(1) by metis
  then show "rt_calls r' = calls \<or> risk_entry_saved cfg now (rt_risk r')"
    using r(2) m assms(2,3) by (cases y) (auto simp: try_exceptE_def sends_admitted_def split: if_splits)
qed

lemma sends_with_lock:
  assumes "sends_admitted cfg now calls body"
  shows "sends_admitted cfg now calls (v4_with_lock i body)"
proof -
  have "sends_admitted cfg now calls (finallyE body (on_lock (lock_release i)))"
    unfolding sends_admitted_def
  proof (intro allI impI)
    fix r x r' assume r: "rt_calls r = calls" "finallyE body (on_lock (lock_release i)) r = (x, r')"
    obtain y t where b: "body r = (y, t)" by (cases "body r")
    then have "rt_calls t = calls \<or> risk_entry_saved cfg now (rt_risk t)"
      using assms r(1) by (auto simp: sends_admitted_def)
    moreover have "r' = t\<lparr>rt_lock := snd (lock_release i (rt_lock t))\<rparr>"
      using r(2) b by (simp add: finallyE_def on_lock_def run_zoom run_lock_release)
    ultimately show "rt_calls r' = calls \<or> risk_entry_saved cfg now (rt_risk r')" by (simp add: rt_calls_def)
  qed
  then show ?thesis unfolding v4_with_lock_def by (intro sends_bind sends_then calls_frames)
qed

text \<open>The recording of the entry leaves it on disk.\<close>

lemma record_entry_saved:
  assumes "dt_in_range (to_jst now)"
    and "bindE (on_ledger (record_risk_entry_attempt (rc_risk_policy cfg) (jst_day now)) risk) (\<lambda>(_, risk).
      thenE (on_risk_file (risk_save (rc_risk_store_policy cfg) risk)) (returnE (risk, True))) r = (Inr y, r')"
  shows "risk_entry_saved cfg now (rt_risk r')"
proof -
  let ?p = "rc_risk_policy cfg"
  obtain s where rec: "record_risk_entry_attempt ?p (jst_day now) risk = (Inr (), s)"
    and save: "thenE (on_risk_file (risk_save (rc_risk_store_policy cfg) s)) (returnE (s, True)) r = (Inr y, r')"
    using assms(2) by (auto simp: on_ledger_def run_bind split: prod.splits sum.splits)
  obtain path where path: "risk_save (rc_risk_store_policy cfg) s (rt_risk r) = (Inr (), path)" "rt_risk r' = path"
  proof -
    obtain c w where "checkpoint (rt_world r) = (c, w)" by (cases "checkpoint (rt_world r)")
    then show thesis using save that
      by (auto simp: on_risk_file_def in_world_def run_progs split: prod.splits sum.splits)
  qed
  have "risk_stop_of s = ACTIVE \<and> rs_current_day s = JStr (jst_day now)
      \<and> 1 \<le> json_int (rs_entries_today s) \<and> json_int (rs_entries_today s) \<le> rp_max_entries ?p"
    using recorded_entry [OF rec jst_day_validates [OF assms(1)]] by (simp add: jst_day_def date_isoformat_ordinal)
  moreover have "risk_ok (rc_risk_store_policy cfg) s" "jp_file path = FileDocument (JObj (risk_state_fields s))"
    using path(1) by (auto simp: run_risk_save)
  ultimately show ?thesis unfolding risk_entry_saved_def path(2) by blast
qed

lemma keeps_record_entry: "keeps rt_calls (bindE (on_ledger (record_risk_entry_attempt p day) risk) (\<lambda>(_, risk).
    thenE (on_risk_file (risk_save q risk)) (returnE (risk, True))))"
  by (intro calls_frames)

lemma keeps_risk_tail:
  "keeps rt_risk (thenE (in_world (v4_new_engine clock))
     (bindE (in_world (v4_run_signal_once_synthetic signal policy preflight now)) (\<lambda>result.
      bindE (v4_dead_man_now cfg now) (\<lambda>dead_man. v4_report_from_cycle result generation risk recorded (dr_alive dead_man)))))"
  unfolding v4_dead_man_now_def v4_report_from_cycle_def v4_safe_report_def
  by (intro frame runtime_frames; simp)

lemma sends_run_after_boot:
  assumes "dt_aware now" "dt_in_range (to_jst now)" "dt_aware (s_valid_until signal)"
  shows "sends_admitted cfg now calls (v4_run_after_boot cfg signal clock now generation risk boot)"
proof -
  let ?c = "s_decision signal \<noteq> STAY \<and> v4_signal_valid signal (rc_policy cfg) now"
  have engine: "keeps rt_calls (in_world (v4_run_signal_once_synthetic signal (rc_policy cfg) preflight now))"
    if "\<not> ?c" for preflight
    using engine_blocked [OF that assms(1,3)] by (intro keeps_calls_world) (metis snd_conv)
  have last: "sends_admitted cfg now calls
      (bindE (if ?c then
           bindE (on_ledger (record_risk_entry_attempt (rc_risk_policy cfg) (jst_day now)) risk) (\<lambda>(_, risk).
           thenE (on_risk_file (risk_save (rc_risk_store_policy cfg) risk)) (returnE (risk, True)))
         else returnE (risk, False)) (\<lambda>(risk, recorded).
       thenE (in_world (v4_new_engine clock))
       (bindE (in_world (v4_run_signal_once_synthetic signal (rc_policy cfg) preflight now)) (\<lambda>result.
        bindE (v4_dead_man_now cfg now) (\<lambda>final_dead_man.
        v4_report_from_cycle result generation risk recorded (dr_alive final_dead_man))))))"
    (is "sends_admitted cfg now calls (bindE ?first ?rest)") for risk preflight
  proof (cases ?c)
    case False
    then show ?thesis by (intro sends_keeps) (auto intro!: calls_frames keeps_calls_blocks engine)
  next
    case c: True
    show ?thesis
      unfolding sends_admitted_def
    proof (intro allI impI)
      fix r x r' assume r: "rt_calls r = calls" "bindE ?first ?rest r = (x, r')"
      obtain y t where first: "?first r = (y, t)" by (cases "?first r")
      have calls: "rt_calls t = calls" using keepsD [OF keeps_record_entry, of _ _ _ _ r y t] first c r(1) by simp
      show "rt_calls r' = calls \<or> risk_entry_saved cfg now (rt_risk r')"
      proof (cases y)
        case (Inl e)
        then show ?thesis using r(2) first calls by (simp add: run_bind)
      next
        case (Inr v)
        have "risk_entry_saved cfg now (rt_risk t)"
          using record_entry_saved [OF assms(2)] first c Inr by simp
        moreover have "rt_risk r' = rt_risk t"
          using r(2) first Inr keepsD [OF keeps_risk_tail] by (cases v) (auto simp: run_bind)
        ultimately show ?thesis by simp
      qed
    qed
  qed
  show ?thesis
    unfolding v4_run_after_boot_def Let_def
    by (intro sends_bind sends_if sends_prod last sends_keeps [OF keeps_calls_blocks(1)] sends_keeps [OF keeps_calls_blocks(2)]
        calls_frames)
qed

lemma sends_run:
  assumes "dt_in_range (to_jst now)" "dt_aware (s_valid_until signal)"
  shows "sends_admitted cfg now calls (run_v4_gmo_once_no_post cfg signal clock now)"
proof (cases "dt_aware now")
  case False
  then have "run_v4_gmo_once_no_post cfg signal clock now r = (Inl (V4GmoRuntimeError ''runtime clock must be timezone-aware''), r)" for r
    by (simp add: run_v4_gmo_once_no_post_def v4_validate_runtime_inputs_def run_progs)
  then show ?thesis by (simp add: sends_admitted_def)
next
  case True
  note boot = sends_run_after_boot [OF True assms]
  show ?thesis
    unfolding run_v4_gmo_once_no_post_def v4_run_once_locked_def v4_bind_runtime_def v4_load_risk_def
    by (intro sends_then sends_bind sends_if sends_prod sends_with_lock sends_try boot calls_frames keeps_calls_blocks
        sends_keeps [OF keeps_calls_blocks(1)] sends_keeps [OF keeps_calls_blocks(2)])
qed

end
