(* ===== verification/V4_Runtime_Samples.thy ===== *)
theory V4_Runtime_Samples
  imports V4_Runtime_Safety V4_Generation
begin

text \<open>
  The sequences of calls of the no-POST runtime, and a run of a concrete one that is stopped after
  the market entry was handed to the broker.
\<close>

section \<open>Sequences of calls\<close>

text \<open>
  Calls of the three entry points in any order and with any arguments, restarts of the process
  with an unused broker (the operating system frees the lock), and changes of the files beside
  the database by anybody else.
\<close>

inductive v4_runtime_reach :: "v4_plan list \<Rightarrow> v4_runtime \<Rightarrow> bool" where
  runtime_start: "v4_fresh_broker broker \<Longrightarrow>
    H11V4GmoNoPostEngine v4_empty_db broker clock interrupt = Inr (rt_world r) \<Longrightarrow> v4_runtime_reach [] r"
| runtime_restart: "v4_runtime_reach sent r \<Longrightarrow> v4_fresh_broker broker \<Longrightarrow>
    H11V4GmoNoPostEngine (w_store (rt_world r)) broker clock interrupt = Inr w \<Longrightarrow>
    v4_runtime_reach (sent @ rt_calls r) (r\<lparr>rt_world := w, rt_lock := (rt_lock r)\<lparr>lf_holder := None\<rparr>\<rparr>)"
| runtime_run: "v4_runtime_reach sent r \<Longrightarrow> V4GmoExecutionPolicy args = Inr (rc_policy cfg) \<Longrightarrow>
    FormalSignal sargs = Inr signal \<Longrightarrow> run_v4_gmo_once_no_post cfg signal clock now r = (x, r') \<Longrightarrow>
    v4_runtime_reach sent r'"
| runtime_resume: "v4_runtime_reach sent r \<Longrightarrow> V4GmoExecutionPolicy args = Inr (rc_policy cfg) \<Longrightarrow>
    resume_v4_gmo_once_no_post cfg clock now r = (x, r') \<Longrightarrow> v4_runtime_reach sent r'"
| runtime_reload: "v4_runtime_reach sent r \<Longrightarrow>
    operator_reload_v4_gmo_no_post cfg confirmation now r = (y, r') \<Longrightarrow> v4_runtime_reach sent r'"
| runtime_files: "v4_runtime_reach sent r \<Longrightarrow>
    v4_runtime_reach sent (r\<lparr>rt_risk := f, rt_dead_man := g, rt_notifier := n, rt_lock := l\<rparr>)"

section \<open>A sample run\<close>

text \<open>
  A fresh runtime whose process is stopped right after the market entry was handed to the broker:
  the thirteenth call is the broker's.
\<close>

definition sample_flat :: v4_snapshot where
  "sample_flat = \<lparr>sn_fresh = True, sn_result_known = True, sn_position_count = 0,
     sn_position_side = None, sn_filled_size = 0, sn_pending_entry_size = 0,
     sn_protection_size = 0, sn_entry_status = ENTRY_NONE, sn_protection_status = PROT_NONE\<rparr>"

definition sample_config :: v4_runtime_config where
  "sample_config = \<lparr>rc_policy = sample_policy, rc_state_path = ''state'', rc_lock_path = ''lock'',
     rc_risk_path = ''risk'', rc_dead_man_path = ''dead'', rc_risk_store_policy = sample_risk_policy,
     rc_risk_policy = sample_risk_policy, rc_dead_man_policy = sample_dead_man,
     rc_generation_label = PyStr ''G1'', rc_lock_object = 1\<rparr>"

definition sample_runtime :: "nat option \<Rightarrow> v4_runtime" where
  "sample_runtime stop = \<lparr>rt_world = \<lparr>w_store = v4_empty_db,
       w_broker = FakeV4GmoBroker [(MARKET_ENTRY, [OUT_ACCEPTED])] [sample_flat],
       w_clock = None, w_ticks = 0, w_interrupt = stop\<rparr>,
     rt_risk = \<lparr>jp_file = FileMissing, jp_tmp_symlink = False\<rparr>,
     rt_dead_man = \<lparr>jp_file = FileMissing, jp_tmp_symlink = False\<rparr>,
     rt_notifier = \<lparr>n_fail = False, n_fail_categories = [], n_events = [], n_external_send_performed = False\<rparr>,
     rt_lock = \<lparr>lf_kind = LockAbsent, lf_holder = None\<rparr>\<rparr>"

lemma sample_runtime_reach: "v4_runtime_reach [] (sample_runtime stop)"
proof (rule runtime_start)
  show "v4_fresh_broker (Some (FakeV4GmoBroker [(MARKET_ENTRY, [OUT_ACCEPTED])] [sample_flat]))"
    by (simp add: v4_fresh_broker_def FakeV4GmoBroker_def b_good_def snapshot_ok_def sample_flat_def)
  show "H11V4GmoNoPostEngine v4_empty_db (Some (FakeV4GmoBroker [(MARKET_ENTRY, [OUT_ACCEPTED])] [sample_flat])) None stop
      = Inr (rt_world (sample_runtime stop))"
    by (simp add: H11V4GmoNoPostEngine_def v4_broker_accepted_def FakeV4GmoBroker_def sample_runtime_def)
qed

lemma sample_day: "dt_in_range (to_jst sample_now)" "validate_day (jst_day sample_now) = Inr (dt_ordinal (to_jst sample_now))"
proof -
  show range: "dt_in_range (to_jst sample_now)"
    by (simp add: dt_in_range_def to_jst_def dt_astimezone_def dt_utc_def sample_now_def dt_ordinal_def us_defs
        max_ordinal_def jst_offset_def)
  show "validate_day (jst_day sample_now) = Inr (dt_ordinal (to_jst sample_now))"
    by (rule jst_day_validates [OF range])
qed

definition sample_risk1 :: risk_state where
  "sample_risk1 = roll_calendar (dt_ordinal (to_jst sample_now)) (risk_fresh sample_risk_policy)"

definition sample_risk2 :: risk_state where
  "sample_risk2 = sample_risk1\<lparr>rs_entries_today := JInt 1\<rparr>"

lemma sample_risk1_fields:
  "rs_entries_today sample_risk1 = JInt 0" "rs_daily_loss sample_risk1 = JInt 0" "rs_monthly_loss sample_risk1 = JInt 0"
  "rs_consecutive sample_risk1 = JInt 0" "risk_stop_of sample_risk1 = ACTIVE" "risk_ok sample_risk_policy sample_risk1"
  "roll_calendar (dt_ordinal (to_jst sample_now)) sample_risk1 = sample_risk1"
proof -
  have fresh: "rs_current_day (risk_fresh p) = JNull" "rs_consecutive (risk_fresh p) = JInt 0" for p
    by (simp_all add: risk_fresh_def PhaseBRiskState_def)
  show "rs_entries_today sample_risk1 = JInt 0" "rs_daily_loss sample_risk1 = JInt 0"
    "rs_consecutive sample_risk1 = JInt 0"
    by (simp_all add: sample_risk1_def roll_calendar_fields fresh)
  show "rs_monthly_loss sample_risk1 = JInt 0"
    by (simp add: sample_risk1_def risk_fresh_def PhaseBRiskState_def roll_calendar_def roll_day_def roll_month_def Let_def)
  show "risk_stop_of sample_risk1 = ACTIVE" "risk_ok sample_risk_policy sample_risk1"
    using roll_stop [OF fresh_ok(1)] risk_ok_roll [OF fresh_ok(1)] by (simp_all add: sample_risk1_def fresh_ok)
  show "roll_calendar (dt_ordinal (to_jst sample_now)) sample_risk1 = sample_risk1"
    unfolding sample_risk1_def by (rule roll_same_day) (simp_all add: roll_calendar_fields)
qed

lemma sample_reasons: "risk_reasons sample_risk_policy sample_risk1 = []"
  by (simp add: risk_reasons_def sample_risk1_fields) (simp add: sample_risk_policy_def)

lemma sample_evaluate:
  "evaluate_risk_before_entry sample_risk_policy (jst_day sample_now) (risk_fresh sample_risk_policy) =
    (Inr (risk_gate_of sample_risk_policy sample_risk1), sample_risk1)"
  by (simp add: run_evaluate_risk fresh_ok sample_day flip: sample_risk1_def)

lemma sample_record:
  "record_risk_entry_attempt sample_risk_policy (jst_day sample_now) sample_risk1 = (Inr (), sample_risk2)"
  by (simp add: run_risk_entry sample_risk1_fields sample_day sample_reasons Let_def sample_risk2_def)

lemma sample_save:
  "risk_save sample_risk_policy sample_risk2 \<lparr>jp_file = FileMissing, jp_tmp_symlink = False\<rparr> =
    (Inr (), \<lparr>jp_file = FileDocument (JObj (risk_state_fields sample_risk2)), jp_tmp_symlink = False\<rparr>)"
  using risk_ok_entry [OF sample_risk1_fields(6)] by (simp add: run_risk_save sample_risk2_def sample_risk1_fields)

lemma sample_preflight_run:
  "v4_runtime_preflight sample_config sample_flat sample_risk1 True = Inr sample_preflight"
  by (simp add: v4_runtime_preflight_def V4GmoPreflightSnapshot_def sample_risk1_fields v4_boot_blocked_reasons_def
      sample_preflight_def is_count_def failed_reasons_def sample_flat_def sample_config_def sample_risk_policy_def)
     (rule exI [of _ True], rule TrueI)

lemma sample_beat_run:
  "\<exists>path. dead_man_heartbeat sample_dead_man sample_now \<lparr>jp_file = FileMissing, jp_tmp_symlink = False\<rparr> = (Inr (), path)
    \<and> (\<exists>result. dead_man_evaluate sample_dead_man path sample_now = Inr result \<and> dr_alive result)"
proof -
  let ?run = "dead_man_heartbeat sample_dead_man sample_now \<lparr>jp_file = FileMissing, jp_tmp_symlink = False\<rparr>"
  have run: "?run = (Inr (), snd ?run)"
    by (simp add: dead_man_heartbeat_def run_progs)
  have "dt_fromisoformat (dt_isoformat (to_utc sample_now)) = Some (to_utc sample_now)"
    by (rule dt_round_trip)
       (simp_all add: dt_in_range_def to_utc_def dt_astimezone_def dt_utc_def sample_now_def dt_ordinal_def us_defs max_ordinal_def)
  moreover have "dt_aware (to_utc sample_now)" "to_utc (to_utc sample_now) = to_utc sample_now"
    by (simp_all add: to_utc_def dt_astimezone_def dt_aware_def dt_utc_def)
  ultimately have "load_heartbeat sample_dead_man (snd ?run) = Inr (to_utc sample_now) \<and> json_is_file (snd ?run)"
    by (simp add: dead_man_heartbeat_def run_progs load_heartbeat_def json_is_file_def)
  then have "dead_man_evaluate sample_dead_man (snd ?run) sample_now =
      Inr (evaluate_loaded_heartbeat sample_dead_man (to_utc sample_now) sample_now)"
    by (simp add: dead_man_evaluate_def)
  moreover have "dr_alive (evaluate_loaded_heartbeat sample_dead_man (to_utc sample_now) sample_now)"
    by (simp add: evaluate_loaded_heartbeat_def sample_dead_man_def to_utc_def us_per_second_def)
  ultimately show ?thesis using run by blast
qed

lemma sample_signal_valid: "v4_signal_valid sample_signal sample_policy sample_now"
  by (simp add: v4_signal_valid_def sample_policy sample_signal_def sample_now_def dt_less_def dt_utc_def)

text \<open>The engine stopped after four of its calls.\<close>

lemma sample_engine_stopped:
  assumes "db_cycles db = []" "db_attempts db = []" "db_events db = []" "v4_store_inv db"
    and "map_of (db_metadata db) ''global_halt_latched'' \<noteq> Some ''true''"
  shows "\<exists>w. v4_run_signal_once_synthetic sample_signal sample_policy sample_preflight sample_now
      \<lparr>w_store = db, w_broker = (FakeV4GmoBroker [(MARKET_ENTRY, [OUT_ACCEPTED])] [])\<lparr>b_reconciliation_count := 1\<rparr>,
        w_clock = None, w_ticks = 0, w_interrupt = Some 4\<rparr> = (Inl KeyboardInterrupt, w)
      \<and> b_calls (w_broker w) \<noteq> []"
proof -
  let ?db0 = "v4_add_cycle sample_cycle db"
  note create = sample_create_at [OF assms(1-3,5)]
  have find: "v4_find sample_ref db = None" using assms(1) by (simp add: v4_find_def select_one_def)
  have at0: "sample_at ?db0 sample_cycle"
    using create_inv [OF assms(4) create] find by (simp add: sample_at_def create_find)
  have none0: "find_attempt sample_ref a ?db0 = None" for a
    using assms(2) by (simp add: find_attempt_def select_one_def)
  obtain db1 where run1: "v4_record_action_attempt sample_ref MARKET_ENTRY MARKET_ENTRY_ATTEMPTED sample_now ?db0 =
      (Inr sample_attempted, db1)"
    using at_attempt [OF at0, of MARKET_ENTRY_ATTEMPTED sample_now MARKET_ENTRY] none0
    by (auto simp: sample_attempted_def)
  obtain plan where plan: "build_v4_action_plan sample_ref MARKET_ENTRY BUY 1000 H11_V4_GMO_PROTECTION_CONTRACT_HASH = Inr plan"
    "pl_action plan = MARKET_ENTRY" "\<not> pl_actual_post_allowed plan" "\<not> pl_credential_read_allowed plan"
    "\<not> pl_network_access_allowed plan" using sample_plan [of MARKET_ENTRY] by auto
  have exp: "(if \<not> dt_aware sample_now then Inr True
      else if \<not> dt_comparable sample_now (s_valid_until sample_signal) then Inl PyTypeError
      else Inr (dt_leq (s_valid_until sample_signal) sample_now)) = (Inr False :: bool result)"
    by (simp add: dt_comparable_def sample_now_def dt_aware_def dt_leq_def dt_utc_def)
  have pre: "preflight_blocked_reasons sample_preflight = []"
    by (simp add: preflight_blocked_reasons_def sample_preflight_def)
  have idle: "v4_active_cycle_count db = 0" "\<not> v4_halt_latched db"
    using assms by (simp_all add: v4_active_cycle_count_def v4_halt_latched_def select_one_def)
  show ?thesis
    unfolding v4_run_signal_once_synthetic_def exp v4_attempt_market_entry_def v4_now_def
    by (simp add: pre idle run_progs sample_accepts on_store_def on_broker_def checkpoint_def create run1 plan
        sample_policy try_exceptE_def perform_once_synthetic_def fake_perform_def FakeV4GmoBroker_def is_boundary_error_def
        Let_def)
qed


text \<open>The database after its opening and its binding.\<close>

lemma sample_bound:
  "\<exists>b db. v4_bind_runtime sample_config = in_store (\<lambda>db. v4_bind_generation (PyStr ''G1'') sample_policy (PyStr ''RISK'')
        (PyStr (risk_policy_digest sample_risk_policy)) (PyStr ''DEAD'') (PyStr (dead_man_digest sample_dead_man)) db)
    \<and> v4_bind_generation (PyStr ''G1'') sample_policy (PyStr ''RISK'') (PyStr (risk_policy_digest sample_risk_policy))
        (PyStr ''DEAD'') (PyStr (dead_man_digest sample_dead_man)) v4_opened_db = (Inr b, db)
    \<and> db_cycles db = [] \<and> db_attempts db = [] \<and> db_events db = [] \<and> v4_store_inv db
    \<and> map_of (db_metadata db) ''global_halt_latched'' \<noteq> Some ''true''"
proof -
  have digests: "v4_generation_digest_ok (PyStr (risk_policy_digest sample_risk_policy))"
    "v4_generation_digest_ok (PyStr (dead_man_digest sample_dead_man))"
    by (simp_all add: v4_generation_digest_ok_def risk_policy_digest_def dead_man_digest_def)
  obtain b m x where run: "v4_bind_generation (PyStr ''G1'') sample_policy (PyStr ''RISK'')
      (PyStr (risk_policy_digest sample_risk_policy)) (PyStr ''DEAD'') (PyStr (dead_man_digest sample_dead_man)) v4_opened_db =
      (Inr b, v4_opened_db\<lparr>db_metadata := db_metadata v4_opened_db @ v4_new_rows b m x\<rparr>)"
    using v4_bind_opened [OF digests] by blast
  have "v4_store_inv (v4_opened_db\<lparr>db_metadata := db_metadata v4_opened_db @ v4_new_rows b m x\<rparr>)"
    by (rule reach_inv [OF reach_bind [OF reach_initialize [OF reach_empty v4_opened_db(1)] run]])
  moreover have "db_cycles v4_opened_db = []" "db_attempts v4_opened_db = []" "db_events v4_opened_db = []"
    by (simp_all add: v4_opened_db_def v4_initialize_def run_progs insert_metadata_def v4_empty_db_def)
  moreover have "map_of (db_metadata v4_opened_db @ v4_new_rows b m x) ''global_halt_latched'' = None"
    by (simp add: v4_opened_db(2) v4_new_rows_def v4_generation_labels_def)
  then have "map_of (db_metadata v4_opened_db @ v4_new_rows b m x) ''global_halt_latched'' \<noteq> Some ''true''"
    by (simp del: map_of_append)
  ultimately show ?thesis
    using run by (intro exI [of _ b] exI [of _ "v4_opened_db\<lparr>db_metadata := db_metadata v4_opened_db @ v4_new_rows b m x\<rparr>"])
      (simp add: v4_bind_runtime_def sample_config_def sample_risk_policy_def sample_dead_man_def del: map_of_append)
qed

text \<open>The run: the market entry reaches the broker, and the process stops before anything is booked.\<close>

lemma sample_stopped_run:
  "\<exists>r'. run_v4_gmo_once_no_post sample_config sample_signal None sample_now (sample_runtime (Some 13)) =
      (Inl KeyboardInterrupt, r') \<and> rt_calls r' \<noteq> [] \<and> lf_holder (rt_lock r') = None"
proof -
  obtain b db where bind: "v4_bind_generation (PyStr ''G1'') sample_policy (PyStr ''RISK'') (PyStr (risk_policy_digest sample_risk_policy))
        (PyStr ''DEAD'') (PyStr (dead_man_digest sample_dead_man)) v4_opened_db = (Inr b, db)"
    and bound: "v4_bind_runtime sample_config = in_store (\<lambda>db. v4_bind_generation (PyStr ''G1'') sample_policy (PyStr ''RISK'')
        (PyStr (risk_policy_digest sample_risk_policy)) (PyStr ''DEAD'') (PyStr (dead_man_digest sample_dead_man)) db)"
    and db: "db_cycles db = []" "db_attempts db = []" "db_events db = []" "v4_store_inv db"
      "map_of (db_metadata db) ''global_halt_latched'' \<noteq> Some ''true''"
    using sample_bound by blast
  obtain beat result where beat: "dead_man_heartbeat sample_dead_man sample_now \<lparr>jp_file = FileMissing, jp_tmp_symlink = False\<rparr> = (Inr (), beat)"
    "dead_man_evaluate sample_dead_man beat sample_now = Inr result" "dr_alive result"
    using sample_beat_run by blast
  obtain w where engine: "v4_run_signal_once_synthetic sample_signal sample_policy sample_preflight sample_now
      \<lparr>w_store = db, w_broker = (FakeV4GmoBroker [(MARKET_ENTRY, [OUT_ACCEPTED])] [])\<lparr>b_reconciliation_count := 1\<rparr>,
        w_clock = None, w_ticks = 0, w_interrupt = Some 4\<rparr> = (Inl KeyboardInterrupt, w)"
    and calls: "b_calls (w_broker w) \<noteq> []"
    using sample_engine_stopped [OF db] by blast
  have idle: "\<not> v4_halt_latched db" using db(1,5) by (simp add: v4_halt_latched_def select_one_def)
  have cfg: "rc_policy sample_config = sample_policy" "rc_risk_store_policy sample_config = sample_risk_policy"
    "rc_risk_policy sample_config = sample_risk_policy" "rc_dead_man_policy sample_config = sample_dead_man"
    "rc_lock_object sample_config = 1" "v4_validate_runtime_inputs sample_config sample_now (sample_runtime s) = (Inr (), sample_runtime s)" for s
    by (simp_all add: sample_config_def v4_validate_runtime_inputs_def run_progs sample_runtime_def sample_now_def dt_aware_def
        dt_utc_def FakeV4GmoBroker_def)
  let ?broker = "(FakeV4GmoBroker [(MARKET_ENTRY, [OUT_ACCEPTED])] [])\<lparr>b_reconciliation_count := 1\<rparr>"
  let ?r = "\<lambda>n. \<lparr>rt_world = \<lparr>w_store = db, w_broker = ?broker, w_clock = None, w_ticks = 0, w_interrupt = Some 5\<rparr>,
     rt_risk = \<lparr>jp_file = FileMissing, jp_tmp_symlink = False\<rparr>, rt_dead_man = beat, rt_notifier = n,
     rt_lock = \<lparr>lf_kind = LockRegular, lf_holder = Some (Suc 0)\<rparr>\<rparr>"
  have flat: "v4_boot_blocked_reasons sample_flat = []"
    by (simp add: v4_boot_blocked_reasons_def failed_reasons_def sample_flat_def)
  have allowed: "rg_allowed (risk_gate_of sample_risk_policy sample_risk1)"
    by (simp add: risk_gate_of_def sample_reasons)
  have decision: "s_decision sample_signal \<noteq> STAY" by (simp add: sample_signal_def)
  have after: "\<exists>r'. v4_run_after_boot sample_config sample_signal None sample_now b (risk_fresh sample_risk_policy) sample_flat (?r n) =
      (Inl KeyboardInterrupt, r') \<and> rt_calls r' \<noteq> [] \<and> lf_holder (rt_lock r') = Some 1" for n
    using engine calls
    by (simp add: v4_run_after_boot_def Let_def on_ledger_def run_progs cfg flat allowed decision sample_evaluate sample_record
        sample_save sample_preflight_run sample_signal_valid lock_held_def on_risk_file_def in_world_def checkpoint_def
        v4_new_engine_def H11V4GmoNoPostEngine_def v4_broker_accepted_def rt_calls_def FakeV4GmoBroker_def)
  let ?w = "\<lambda>store k. \<lparr>w_store = store, w_broker = FakeV4GmoBroker [(MARKET_ENTRY, [OUT_ACCEPTED])] [sample_flat],
       w_clock = None, w_ticks = 0, w_interrupt = Some k\<rparr>"
  let ?s = "\<lambda>world dead n. \<lparr>rt_world = world, rt_risk = \<lparr>jp_file = FileMissing, jp_tmp_symlink = False\<rparr>,
     rt_dead_man = dead, rt_notifier = n, rt_lock = \<lparr>lf_kind = LockRegular, lf_holder = Some (Suc 0)\<rparr>\<rparr>"
  let ?missing = "\<lparr>jp_file = FileMissing, jp_tmp_symlink = False\<rparr>"
  let ?n = "\<lparr>n_fail = False, n_fail_categories = [], n_events = [], n_external_send_performed = False\<rparr>"
  note evals = run_progs in_store_def in_world_def on_store_def checkpoint_def cfg
  have bind': "v4_bind_runtime sample_config (?s (?w v4_opened_db 12) d n) = (Inr b, ?s (?w db 11) d n)" for d n
    by (simp add: bound evals bind)
  have risk: "v4_load_risk sample_config (?s (?w db 11) d n) = (Inr (risk_fresh sample_risk_policy), ?s (?w db 10) d n)" for d n
    by (simp add: v4_load_risk_def on_risk_file_def evals risk_load_def risk_fresh_def)
  have halt: "in_store (getE (\<lambda>db. (v4_halt_latched db, v4_halt_reason_or_default db))) (?s (?w db 10) d n) =
      (Inr (False, v4_halt_reason_or_default db), ?s (?w db 9) d n)" for d n
    by (simp add: evals idle)
  have active: "in_store v4_load_single_active_cycle (?s (?w db 9) d n) = (Inr None, ?s (?w db 8) d n)" for d n
    by (simp add: evals v4_load_single_active_cycle_def db)
  have heart: "v4_heartbeat sample_config sample_now (?s (?w db 8) ?missing ?n) =
      (Inr (result, True), ?s (?w db 6) beat (?n\<lparr>n_events := [HEARTBEAT]\<rparr>))"
    by (simp add: v4_heartbeat_def on_dead_man_file_def evals beat v4_dead_man_now_def on_notifier_def notify_def)
  have boot: "v4_boot_reconcile (?s (?w db 6) beat n) = (Inr sample_flat, ?r n)" for n
    by (simp add: v4_boot_reconcile_def on_broker_def evals reconcile_synthetic_def fake_reconcile_def FakeV4GmoBroker_def)
  have locked: "\<exists>r'. v4_run_once_locked sample_config sample_signal None sample_now (?s (?w v4_opened_db 12) ?missing ?n) =
      (Inl KeyboardInterrupt, r') \<and> rt_calls r' \<noteq> [] \<and> lf_holder (rt_lock r') = Some 1"
    using after [of "?n\<lparr>n_events := [HEARTBEAT]\<rparr>"]
    by (simp add: v4_run_once_locked_def run_progs bind' risk halt active heart beat try_exceptE_def boot)
  have acquire: "on_lock (lock_acquire (Suc 0)) (sample_runtime (Some 13)) = (Inr True, ?s (?w v4_empty_db 13) ?missing ?n)"
    by (simp add: on_lock_def evals run_lock_acquire lock_held_def sample_runtime_def)
  have opened: "in_store v4_initialize (?s (?w v4_empty_db 13) d n) = (Inr (), ?s (?w v4_opened_db 12) d n)" for d n
    by (simp add: evals v4_opened_db(1))
  have release: "on_lock (lock_release (Suc 0)) r = (Inr (), r\<lparr>rt_lock := (rt_lock r)\<lparr>lf_holder := None\<rparr>\<rparr>)"
    if "lf_holder (rt_lock r) = Some (Suc 0)" for r
    using that by (simp add: on_lock_def run_zoom run_lock_release lock_held_def)
  show ?thesis
    using locked
    by (auto simp: run_v4_gmo_once_no_post_def run_progs cfg v4_with_lock_def acquire opened finallyE_def release rt_calls_def)
qed

end
