(* ===== verification/V4_Runtime_Properties.thy ===== *)
theory V4_Runtime_Properties
  imports V4_Runtime_Samples
begin

text \<open>
  The properties of the no-POST runtime as a whole: it refines the engine's world, it never lets an
  entry past an unsaved ledger, and it gives the process lock back.
\<close>

section \<open>Properties\<close>

text \<open>
  C30. Whatever sequence of runs, resumptions, operator reloads, restarts and changes of the files
  around it, the runtime only ever takes its database and broker through worlds the engine's own
  reachability allows: every guarantee about those holds for the runtime.
\<close>

theorem v4_runtime_refines_engine:
  assumes "v4_runtime_reach sent r"
  shows "v4_world_reach sent (rt_world r)"
  using assms
proof induction
  case (runtime_start broker clock interrupt r)
  then show ?case by (rule world_start)
next
  case (runtime_restart sent r broker clock interrupt w)
  then show ?case using world_restart by (simp add: rt_calls_def)
next
  case (runtime_run sent r args cfg sargs signal clock now x r')
  then show ?case using staysD [OF stays_run] by (simp add: rt_reach_def)
next
  case (runtime_resume sent r args cfg clock now x r')
  then show ?case using staysD [OF stays_resume] by (simp add: rt_reach_def)
next
  case (runtime_reload sent r cfg confirmation now y r')
  then show ?case using staysD [OF stays_reload] by (simp add: rt_reach_def)
next
  case (runtime_files sent r f g n l)
  then show ?case by simp
qed

lemma v4_runtime_refines_engine_witness:
  "\<exists>r'. snd (run_v4_gmo_once_no_post sample_config sample_signal None sample_now (sample_runtime (Some 13))) = r'
    \<and> rt_calls r' \<noteq> [] \<and> v4_world_reach [] (rt_world r')"
proof -
  obtain r' where run: "run_v4_gmo_once_no_post sample_config sample_signal None sample_now (sample_runtime (Some 13)) =
      (Inl KeyboardInterrupt, r')" and calls: "rt_calls r' \<noteq> []"
    using sample_stopped_run by blast
  have "V4GmoExecutionPolicy sample_policy_args = Inr (rc_policy sample_config)"
    by (simp add: sample_config_def sample_policy(1))
  from v4_runtime_refines_engine [OF runtime_run [OF sample_runtime_reach this sample_FormalSignal run]] run calls
  show ?thesis by simp
qed

text \<open>
  C31. A run that hands anything to the broker has the entry in the ledger file: saved for the
  JST day of the run, with no stop in force and at most the entries the risk policy allows.
\<close>

theorem v4_runtime_entry_needs_ledger:
  assumes "FormalSignal sargs = Inr signal" and "dt_in_range (to_jst now)"
    and "run_v4_gmo_once_no_post cfg signal clock now r = (x, r')"
    and "rt_calls r' \<noteq> rt_calls r"
  shows "\<exists>s. jp_file (rt_risk r') = FileDocument (JObj (risk_state_fields s))
    \<and> validate_risk_state (rc_risk_store_policy cfg) s = Inr () \<and> risk_stop_of s = ACTIVE
    \<and> rs_current_day s = JStr (jst_day now) \<and> 1 \<le> json_int (rs_entries_today s)
    \<and> json_int (rs_entries_today s) \<le> rp_max_entries (rc_risk_policy cfg)"
proof -
  have "dt_aware (s_valid_until signal)" using FormalSignal_signal_ok [OF assms(1)] by (simp add: signal_ok_def)
  from sends_run [OF assms(2) this] show ?thesis
    using assms(3,4) unfolding sends_admitted_def risk_entry_saved_def by blast
qed

lemma v4_runtime_entry_needs_ledger_witness:
  "\<exists>s. jp_file (rt_risk (snd (run_v4_gmo_once_no_post sample_config sample_signal None sample_now
      (sample_runtime (Some 13))))) = FileDocument (JObj (risk_state_fields s))
    \<and> rs_current_day s = JStr (jst_day sample_now) \<and> 1 \<le> json_int (rs_entries_today s)"
proof -
  obtain r' where run: "run_v4_gmo_once_no_post sample_config sample_signal None sample_now (sample_runtime (Some 13)) =
      (Inl KeyboardInterrupt, r')" and calls: "rt_calls r' \<noteq> []"
    using sample_stopped_run by blast
  have "rt_calls r' \<noteq> rt_calls (sample_runtime (Some 13))"
    using calls by (simp add: sample_runtime_def rt_calls_def FakeV4GmoBroker_def)
  from v4_runtime_entry_needs_ledger [OF sample_FormalSignal sample_day(1) run this] run show ?thesis by auto
qed

text \<open>
  C32. A runtime whose lock is held by another one fails at once and touches neither the database,
  nor the broker, nor the files; otherwise the lock is free again when the call ends, however it
  ends, except that a failing opening of the database leaves it to the end of the process.
\<close>

theorem v4_runtime_lock_released:
  assumes "lf_holder (rt_lock r) \<noteq> Some (rc_lock_object cfg)"
    and "run_v4_gmo_once_no_post cfg signal clock now r = (x, r')"
  shows "(lf_holder (rt_lock r) \<noteq> None \<longrightarrow> (\<exists>e. x = Inl e) \<and> lf_holder (rt_lock r') = lf_holder (rt_lock r)
        \<and> rt_world r' = rt_world r \<and> rt_risk r' = rt_risk r \<and> rt_dead_man r' = rt_dead_man r)
    \<and> (lf_holder (rt_lock r) = None \<longrightarrow> lf_holder (rt_lock r') = None
        \<or> (\<exists>e. x = Inl e \<and> fst (on_store v4_initialize (rt_world r)) = Inl e))"
proof -
  obtain v t where v: "v4_validate_runtime_inputs cfg now r = (v, t)" by (cases "v4_validate_runtime_inputs cfg now r")
  have "t = r" using v by (auto simp: v4_validate_runtime_inputs_def run_progs split: if_splits)
  show ?thesis
  proof (cases v)
    case (Inl e)
    then show ?thesis using assms(2) v \<open>t = r\<close> by (auto simp: run_v4_gmo_once_no_post_def run_then)
  next
    case (Inr u)
    then have "v4_with_lock (rc_lock_object cfg) (v4_run_once_locked cfg signal clock now) r = (x, r')"
      using assms(2) v \<open>t = r\<close> by (simp add: run_v4_gmo_once_no_post_def run_then)
    then show ?thesis using with_lock_run [OF keeps_lock_bodies(1) _ assms(1)] by blast
  qed
qed

lemma v4_runtime_lock_released_witness:
  "lf_holder (rt_lock (snd (run_v4_gmo_once_no_post sample_config sample_signal None sample_now
      (sample_runtime (Some 13))))) = None"
proof -
  obtain r' where run: "run_v4_gmo_once_no_post sample_config sample_signal None sample_now (sample_runtime (Some 13)) =
      (Inl KeyboardInterrupt, r')"
    using sample_stopped_run by blast
  have "lf_holder (rt_lock (sample_runtime (Some 13))) \<noteq> Some (rc_lock_object sample_config)"
    by (simp add: sample_runtime_def)
  from v4_runtime_lock_released [OF this run]
  have "lf_holder (rt_lock r') = None \<or> (\<exists>e. fst (on_store v4_initialize (rt_world (sample_runtime (Some 13)))) = Inl e)"
    by (auto simp: sample_runtime_def)
  then show ?thesis
    using run by (simp add: sample_runtime_def on_store_def run_progs checkpoint_def v4_opened_db(1))
qed

end
