(* ===== verification/V4_Reload.thy ===== *)
theory V4_Reload
  imports V4_Runtime_Samples
begin

text \<open>
  The operator reload of the runtime: a latched halt is lifted by the exact phrase over a freshly
  reconciled flat broker and by nothing less, and a reload never sends anything.
\<close>

section \<open>What a latched halt leaves in the metadata\<close>

text \<open>The reload looks at the reason, the engine at the latch: they are written and deleted together.\<close>

definition halt_keys :: "(string \<times> string) list \<Rightarrow> bool" where
  "halt_keys m \<longleftrightarrow> (map_of m ''global_halt_latched'' = None \<longleftrightarrow> map_of m ''global_halt_reason'' = None)
     \<and> map_of m ''global_halt_latched'' \<in> {None, Some ''true''}"

lemma halt_keys_other:
  "map_of kvs ''global_halt_latched'' = None \<Longrightarrow> map_of kvs ''global_halt_reason'' = None \<Longrightarrow> halt_keys (m @ kvs) = halt_keys m"
  by (simp add: halt_keys_def map_add_def split: option.splits)

lemma initialize_metadata:
  "v4_initialize db = (u, db') \<Longrightarrow> db' = db \<or> db' = db\<lparr>db_metadata := db_metadata db @
     [(''schema_version'', V4_GMO_SCHEMA_VERSION), (''profile_version'', V4_GMO_PROFILE_VERSION),
      (''actual_post_allowed'', ''false'')]\<rparr>"
  by (auto simp: v4_initialize_def run_progs insert_metadata_def split: if_splits option.splits)

lemma engage_metadata:
  "v4_engage_global_halt reason now db = (u, db') \<Longrightarrow> db' = db \<or> (\<exists>t. db' = db\<lparr>db_metadata :=
     fold (\<lambda>(k, v). AList.update k v) [(''global_halt_latched'', ''true''), (''global_halt_reason'', reason),
       (''global_halt_at_utc'', t)] (db_metadata db)\<rparr>)"
  by (auto simp: v4_engage_global_halt_def run_progs upsert_metadata_def split: sum.splits)

definition without_halt :: "(string \<times> string) list \<Rightarrow> (string \<times> string) list" where
  "without_halt m = filter (\<lambda>kv. fst kv \<notin> {''global_halt_latched'', ''global_halt_reason'', ''global_halt_at_utc''}) m"

lemma clear_metadata:
  "v4_clear_global_halt_no_post phrase flat db = (u, db') \<Longrightarrow>
     (\<exists>e. u = Inl e) \<and> db' = db \<or> u = Inr () \<and> db' = db\<lparr>db_metadata := without_halt (db_metadata db)\<rparr>"
  by (auto simp: v4_clear_global_halt_no_post_def run_progs without_halt_def split: if_splits)

lemma without_halt_keys:
  "map_of (without_halt m) ''global_halt_latched'' = None" "map_of (without_halt m) ''global_halt_reason'' = None"
  by (induction m) (auto simp: without_halt_def)

lemma new_rows_keys:
  "map_of (v4_new_rows b m x) ''global_halt_latched'' = None" "map_of (v4_new_rows b m x) ''global_halt_reason'' = None"
  by (simp_all add: v4_new_rows_def v4_generation_labels_def)

lemma transition_metadata: "v4_transition ref target cat now f p s h db = (c, db') \<Longrightarrow> db_metadata db' = db_metadata db"
  by (drule transition_cases) (auto simp: v4_commit_def)

lemma clear_cycle_cases:
  assumes "v4_clear_halted_cycle_no_post ref phrase flat now db = (x, db')"
  shows "(\<exists>e. x = Inl e) \<and> db' = db \<or> (\<exists>row. v4_find ref db = Some row
    \<and> db' = v4_commit ref (v4_transition_row OPERATOR_RELOAD_CLEARED now (Some 0) (Some 0) None None)
        ''OPERATOR_RELOAD_CLEARED_NO_POST'' OPERATOR_RELOAD_CLEARED db)"
  using assms
  by (auto simp: v4_clear_halted_cycle_no_post_def run_progs v4_load_cycle_def dest!: transition_cases
      split: if_splits option.splits)

lemma create_metadata: "v4_create_cycle signal policy now db = (c, db') \<Longrightarrow> db_metadata db' = db_metadata db"
  by (drule create_cases) (auto simp: v4_add_cycle_def)

lemma reach_halt_keys: "v4_reach db \<Longrightarrow> halt_keys (db_metadata db)"
proof (induction rule: v4_reach.induct)
  case reach_empty
  then show ?case by (simp add: halt_keys_def v4_empty_db_def)
next
  case (reach_initialize db r db')
  then show ?case using initialize_metadata [OF reach_initialize(2)] by (auto simp: halt_keys_other)
next
  case (reach_engage db reason now r db')
  then show ?case using engage_metadata [OF reach_engage(2)] by (auto simp: halt_keys_def AList.update_conv')
next
  case (reach_clear db phrase flat r db')
  then show ?case using clear_metadata [OF reach_clear(2)] by (auto simp: halt_keys_def without_halt_keys)
next
  case (reach_bind db label policy rl rd dl dd b db')
  then show ?case
    using v4_bind_run [OF reach_bind(2)] by (cases b) (auto simp: halt_keys_other new_rows_keys)
next
  case (reach_clear_cycle db ref phrase flat now c db')
  then show ?case using clear_cycle_cases [OF reach_clear_cycle(2)] by (auto simp: v4_commit_def)
next
  case (reach_create db signal policy now c db')
  then show ?case using create_metadata by simp
next
  case (reach_attempt db ref action target now c db')
  then show ?case by (auto dest!: attempt_cases simp: v4_commit_def v4_add_attempt_def)
next
  case (reach_outcome db ref action label r db')
  then show ?case by (auto dest!: outcome_cases simp: v4_commit_def v4_settle_def)
next
  case (reach_transition db category ref target now filled protected since halt c db')
  then show ?case using transition_metadata by simp
qed

section \<open>The reload\<close>

lemma in_store_run:
  assumes "in_store m r = (Inr x, r')"
  shows "m (w_store (rt_world r)) = (Inr x, w_store (rt_world r')) \<and> w_broker (rt_world r') = w_broker (rt_world r)"
proof -
  obtain c v where c: "checkpoint (rt_world r) = (c, v)" by (cases "checkpoint (rt_world r)")
  then have "w_store v = w_store (rt_world r) \<and> w_broker v = w_broker (rt_world r)"
    by (auto simp: checkpoint_def split: option.splits nat.splits)
  then show ?thesis
    using assms c by (auto simp: in_store_def in_world_def on_store_def run_progs split: sum.splits prod.splits)
qed

lemma boot_reconcile_run:
  assumes "v4_boot_reconcile r = (Inr s, r')"
  shows "(\<exists>rest. b_snapshots (w_broker (rt_world r)) = s # rest) \<and> w_store (rt_world r') = w_store (rt_world r)
    \<and> rt_calls r' = rt_calls r"
proof -
  obtain c v where c: "checkpoint (rt_world r) = (c, v)" by (cases "checkpoint (rt_world r)")
  then have v: "w_store v = w_store (rt_world r) \<and> w_broker v = w_broker (rt_world r)"
    by (auto simp: checkpoint_def split: option.splits nat.splits)
  then have "\<exists>rest. b_snapshots (w_broker (rt_world r)) = s # rest" "w_store (rt_world r') = w_store (rt_world r)"
    using assms c
    by (auto simp: v4_boot_reconcile_def in_world_def on_broker_def run_progs reconcile_synthetic_def refusing_reconcile_def
        fake_reconcile_def split: sum.splits prod.splits if_splits list.splits)
  then show ?thesis using keepsD [OF keeps_calls_blocks(4) assms] by simp
qed

text \<open>The one halted row the reload finds.\<close>

lemma halted_row:
  assumes "v4_load_single_halted_cycle db = (Inr halted, db')"
  shows "db' = db \<and> {c \<in> set (db_cycles db). c_state c = HALTED_OPERATOR_REVIEW_REQUIRED} = set_option halted"
proof -
  let ?rows = "filter (\<lambda>c. c_state c = HALTED_OPERATOR_REVIEW_REQUIRED) (db_cycles db)"
  have "db' = db" "length ?rows \<le> 1" "halted = (case ?rows of [] \<Rightarrow> None | c # _ \<Rightarrow> Some c)"
    using assms by (auto simp: v4_load_single_halted_cycle_def run_progs split: if_splits)
  moreover have "set ?rows = {c \<in> set (db_cycles db). c_state c = HALTED_OPERATOR_REVIEW_REQUIRED}" by auto
  ultimately show ?thesis by (cases ?rows) auto
qed

lemma latched_iff: "v4_halt_latched db \<longleftrightarrow> map_of (db_metadata db) ''global_halt_latched'' = Some ''true''
    \<or> {c \<in> set (db_cycles db). c_state c = HALTED_OPERATOR_REVIEW_REQUIRED} \<noteq> {}"
  by (auto simp: v4_halt_latched_def select_one_None)

lemma halt_latch_reason:
  "halt_keys (db_metadata db) \<Longrightarrow> map_of (db_metadata db) ''global_halt_latched'' = Some ''true'' \<longleftrightarrow> v4_global_halt_reason db \<noteq> None"
  by (auto simp: halt_keys_def v4_global_halt_reason_def)

text \<open>Clearing the one halted row leaves none.\<close>

lemma clear_row:
  assumes "{c \<in> set (db_cycles db). c_state c = HALTED_OPERATOR_REVIEW_REQUIRED} = {h}"
    and "v4_clear_halted_cycle_no_post (c_ref h) phrase flat now db = (Inr c, db')"
  shows "db_metadata db' = db_metadata db \<and> {c \<in> set (db_cycles db'). c_state c = HALTED_OPERATOR_REVIEW_REQUIRED} = {}"
proof -
  have "db' = v4_commit (c_ref h) (v4_transition_row OPERATOR_RELOAD_CLEARED now (Some 0) (Some 0) None None)
      ''OPERATOR_RELOAD_CLEARED_NO_POST'' OPERATOR_RELOAD_CLEARED db"
    using clear_cycle_cases [OF assms(2)] by auto
  then show ?thesis using assms(1) by (auto simp: v4_commit_def set_update_rows v4_transition_row_def)
qed

text \<open>What a reload that reports did to the latch.\<close>

lemma reload_body:
  assumes keys: "halt_keys (db_metadata (w_store (rt_world r)))"
    and run: "v4_reload_locked confirmation now r = (Inr report, r')"
  shows "case rl_status report of
      CLEARED_NO_POST \<Rightarrow> (\<exists>s rest. b_snapshots (w_broker (rt_world r)) = s # rest \<and> v4_boot_blocked_reasons s = [])
        \<and> v4_halt_latched (w_store (rt_world r)) \<and> \<not> v4_halt_latched (w_store (rt_world r'))
    | NO_HALT_LATCHED \<Rightarrow> \<not> v4_halt_latched (w_store (rt_world r)) \<and> w_store (rt_world r') = w_store (rt_world r)
    | REFUSED_NOT_FLAT \<Rightarrow> v4_halt_latched (w_store (rt_world r)) \<and> w_store (rt_world r') = w_store (rt_world r)
        \<and> (\<exists>s rest. b_snapshots (w_broker (rt_world r)) = s # rest \<and> v4_boot_blocked_reasons s \<noteq> [])"
proof -
  let ?db = "w_store (rt_world r)"
  let ?halted = "\<lambda>db. {c \<in> set (db_cycles db). c_state c = HALTED_OPERATOR_REVIEW_REQUIRED}"
  obtain halted r1 where 1: "in_store v4_load_single_halted_cycle r = (Inr halted, r1)"
    using run by (auto simp: v4_reload_locked_def run_bind split: sum.splits prod.splits)
  obtain g r2 where 2: "in_store (getE (\<lambda>db. v4_global_halt_reason db \<noteq> None)) r1 = (Inr g, r2)"
    using run 1 by (auto simp: v4_reload_locked_def run_bind split: sum.splits prod.splits)
  have s1: "w_store (rt_world r1) = ?db" "?halted ?db = set_option halted" "w_broker (rt_world r1) = w_broker (rt_world r)"
    using halted_row in_store_run [OF 1] by auto
  have s2: "w_store (rt_world r2) = ?db" "g \<longleftrightarrow> v4_global_halt_reason ?db \<noteq> None" "w_broker (rt_world r2) = w_broker (rt_world r)"
    using in_store_run [OF 2] s1 by auto
  have latched: "v4_halt_latched ?db \<longleftrightarrow> \<not> (halted = None \<and> \<not> g)"
    unfolding latched_iff halt_latch_reason [OF keys] s1(2) s2(2) by auto
  show ?thesis
  proof (cases "halted = None \<and> \<not> g")
    case True
    then have "v4_reload_report NO_HALT_LATCHED False False r2 = (Inr report, r')"
      using run 1 2 by (simp add: v4_reload_locked_def run_bind)
    then show ?thesis using True latched s2 by (auto simp: v4_reload_report_def Let_def)
  next
    case False
    obtain s r3 where 3: "v4_boot_reconcile r2 = (Inr s, r3)"
      using run 1 2 False by (auto simp: v4_reload_locked_def run_bind split: sum.splits prod.splits)
    have s3: "\<exists>rest. b_snapshots (w_broker (rt_world r)) = s # rest" "w_store (rt_world r3) = ?db"
      using boot_reconcile_run [OF 3] s2 by auto
    show ?thesis
    proof (cases "v4_boot_blocked_reasons s = []")
      case blocked: False
      then have "v4_reload_report REFUSED_NOT_FLAT False False r3 = (Inr report, r')"
        using run 1 2 3 False by (auto simp: v4_reload_locked_def run_bind)
      then show ?thesis using False blocked latched s3 by (auto simp: v4_reload_report_def Let_def)
    next
      case True
      let ?row = "case halted of None \<Rightarrow> returnE () | Some c \<Rightarrow>
            thenE (in_store (v4_clear_halted_cycle_no_post (c_ref c) confirmation (PyBool True) now)) (returnE ())"
      let ?global = "if g then in_store (v4_clear_global_halt_no_post confirmation (PyBool True)) else returnE ()"
      obtain r4 r5 where 4: "?row r3 = (Inr (), r4)" and 5: "?global r4 = (Inr (), r5)"
        and 6: "v4_reload_report CLEARED_NO_POST (halted \<noteq> None) g r5 = (Inr report, r')"
        using run 1 2 3 False True
        by (auto simp: v4_reload_locked_def run_bind run_then split: sum.splits prod.splits)
      have s4: "db_metadata (w_store (rt_world r4)) = db_metadata ?db \<and> ?halted (w_store (rt_world r4)) = {}"
      proof (cases halted)
        case None
        then show ?thesis using 4 s1 s3 by simp
      next
        case (Some h)
        then obtain c where "v4_clear_halted_cycle_no_post (c_ref h) confirmation (PyBool True) now ?db =
            (Inr c, w_store (rt_world r4))"
          using 4 s3(2) by (auto simp: run_then dest!: in_store_run split: sum.splits prod.splits)
        then show ?thesis using clear_row s1(2) Some by auto
      qed
      have "\<not> v4_halt_latched (w_store (rt_world r5))"
      proof (cases g)
        case True
        then have "v4_clear_global_halt_no_post confirmation (PyBool True) (w_store (rt_world r4)) = (Inr (), w_store (rt_world r5))"
          using 5 by (auto dest: in_store_run)
        then show ?thesis using clear_metadata s4 by (fastforce simp: latched_iff without_halt_keys)
      next
        case no: False
        then show ?thesis
          using 5 s4 s2(2) halt_latch_reason [OF keys] by (auto simp: latched_iff)
      qed
      then show ?thesis using 6 True False latched s3(1) by (auto simp: v4_reload_report_def Let_def)
    qed
  qed
qed

section \<open>A reload that raises\<close>

text \<open>An operation of the store inside the runtime, whatever its outcome: it ran, or a stop came before it.\<close>

lemma in_store_cases:
  assumes "in_store m r = (x, r')"
  shows "w_broker (rt_world r') = w_broker (rt_world r)
    \<and> (w_store (rt_world r') = w_store (rt_world r) \<and> (\<exists>e. x = Inl e)
       \<or> m (w_store (rt_world r)) = (x, w_store (rt_world r')))"
proof -
  obtain c v where c: "checkpoint (rt_world r) = (c, v)" by (cases "checkpoint (rt_world r)")
  then have "w_store v = w_store (rt_world r) \<and> w_broker v = w_broker (rt_world r)"
    by (auto simp: checkpoint_def split: option.splits nat.splits)
  then show ?thesis
    using assms c by (auto simp: in_store_def in_world_def on_store_def run_progs split: sum.splits prod.splits)
qed

lemma boot_reconcile_store: "v4_boot_reconcile r = (x, r') \<Longrightarrow> w_store (rt_world r') = w_store (rt_world r)"
  by (auto simp: v4_boot_reconcile_def in_world_def on_broker_def run_progs checkpoint_def
      split: sum.splits prod.splits option.splits nat.splits if_splits)

text \<open>No step of the reload latches a halt.\<close>

lemma clear_row_latch:
  assumes "v4_clear_halted_cycle_no_post ref phrase flat now db = (x, db')" "v4_halt_latched db'"
  shows "v4_halt_latched db"
  using clear_cycle_cases [OF assms(1)] assms(2)
  by (auto simp: latched_iff v4_commit_def set_update_rows v4_transition_row_def split: if_splits)

lemma clear_global_latch:
  assumes "v4_clear_global_halt_no_post phrase flat db = (x, db')" "v4_halt_latched db'"
  shows "v4_halt_latched db"
  using clear_metadata [OF assms(1)] assms(2) by (auto simp: latched_iff without_halt_keys)

lemma load_halted_store: "v4_load_single_halted_cycle db = (x, db') \<Longrightarrow> db' = db"
  by (auto simp: v4_load_single_halted_cycle_def run_progs split: if_splits)

text \<open>
  The body of the reload, returning or raising: it changes the database over a flat snapshot only,
  and the halt it leaves was there before.
\<close>

lemma reload_latch:
  assumes run: "v4_reload_locked confirmation now r = (x, r')"
  shows "(v4_halt_latched (w_store (rt_world r')) \<longrightarrow> v4_halt_latched (w_store (rt_world r)))
    \<and> (w_store (rt_world r') = w_store (rt_world r)
       \<or> (\<exists>s rest. b_snapshots (w_broker (rt_world r)) = s # rest \<and> v4_boot_blocked_reasons s = []))"
proof -
  let ?db = "\<lambda>r. w_store (rt_world r)"
  obtain a r1 where 1: "in_store v4_load_single_halted_cycle r = (a, r1)" by fastforce
  obtain g r2 where 2: "in_store (getE (\<lambda>db. v4_global_halt_reason db \<noteq> None)) r1 = (g, r2)" by fastforce
  obtain b r3 where 3: "v4_boot_reconcile r2 = (b, r3)" by fastforce
  have s1: "?db r1 = ?db r" "w_broker (rt_world r1) = w_broker (rt_world r)"
    using in_store_cases [OF 1] load_halted_store by auto
  have s2: "?db r2 = ?db r" "w_broker (rt_world r2) = w_broker (rt_world r)" using in_store_cases [OF 2] s1 by auto
  have s3: "?db r3 = ?db r" using boot_reconcile_store [OF 3] s2 by simp
  show ?thesis
  proof (cases "\<exists>halted global s. a = Inr halted \<and> g = Inr global \<and> b = Inr s \<and> v4_boot_blocked_reasons s = []
      \<and> \<not> (halted = None \<and> \<not> global)")
    case False
    then have "?db r' = ?db r" using run 1 2 3 s1 s2 s3
      by (auto simp: v4_reload_locked_def run_bind v4_reload_report_def split: sum.splits if_splits)
    then show ?thesis by simp
  next
    case True
    then obtain halted global s where t: "a = Inr halted" "g = Inr global" "b = Inr s" "v4_boot_blocked_reasons s = []"
      "\<not> (halted = None \<and> \<not> global)" by auto
    have flat: "\<exists>s rest. b_snapshots (w_broker (rt_world r)) = s # rest \<and> v4_boot_blocked_reasons s = []"
      using boot_reconcile_run [OF 3 [unfolded t(3)]] s2 t(4) by auto
    let ?row = "case halted of None \<Rightarrow> returnE () | Some c \<Rightarrow>
          thenE (in_store (v4_clear_halted_cycle_no_post (c_ref c) confirmation (PyBool True) now)) (returnE ())"
    let ?global = "if global then in_store (v4_clear_global_halt_no_post confirmation (PyBool True)) else returnE ()"
    obtain c r4 where 4: "?row r3 = (c, r4)" by fastforce
    obtain d r5 where 5: "?global r4 = (d, r5)" by fastforce
    have l4: "v4_halt_latched (?db r4) \<Longrightarrow> v4_halt_latched (?db r)"
      using 4 s3 by (auto simp: run_then dest!: in_store_cases clear_row_latch split: option.splits sum.splits prod.splits)
    have l5: "v4_halt_latched (?db r5) \<Longrightarrow> v4_halt_latched (?db r4)"
      using 5 by (auto dest!: in_store_cases clear_global_latch split: if_splits)
    have "?db r' = ?db r4 \<or> ?db r' = ?db r5"
      using run 1 2 3 4 5 t
      by (auto simp: v4_reload_locked_def run_bind run_then v4_reload_report_def split: sum.splits)
    then show ?thesis using l4 l5 flat by auto
  qed
qed

text \<open>What comes before the body: nothing of it latches or lifts a halt.\<close>

lemma initialize_latch:
  "v4_initialize db = (u, db') \<Longrightarrow> v4_halt_latched db' = v4_halt_latched db"
  by (drule initialize_metadata) (auto simp: v4_halt_latched_def map_add_def split: option.splits)

lemma reload_not_entered:
  assumes "operator_reload_v4_gmo_no_post cfg confirmation now r = (x, r')"
  shows "v4_halt_latched (w_store (rt_world r')) = v4_halt_latched (w_store (rt_world r)) \<and> (\<exists>e. x = Inl e)
    \<or> (\<exists>r1 r2. on_lock (lock_acquire (rc_lock_object cfg)) r = (Inr True, r1)
      \<and> in_store v4_initialize r1 = (Inr (), r2) \<and> confirmation = operator_reload_phrase
      \<and> (\<exists>r3. v4_reload_locked confirmation now r2 = (x, r3) \<and> rt_world r' = rt_world r3))"
proof -
  obtain a r1 where 1: "on_lock (lock_acquire (rc_lock_object cfg)) r = (a, r1)" by fastforce
  obtain b r2 where 2: "in_store v4_initialize r1 = (b, r2)" by fastforce
  obtain c r3 where 3: "v4_reload_locked confirmation now r2 = (c, r3)" by fastforce
  have w1: "rt_world r1 = rt_world r" using 1 by (auto simp: on_lock_def run_zoom split: prod.splits)
  have w2: "v4_halt_latched (w_store (rt_world r2)) = v4_halt_latched (w_store (rt_world r))"
    using in_store_cases [OF 2] initialize_latch w1 by auto
  have release: "\<exists>r4. on_lock (lock_release (rc_lock_object cfg)) r3 = (Inr (), r4) \<and> rt_world r4 = rt_world r3"
    by (simp add: on_lock_def run_zoom run_lock_release)
  have "r' = r \<and> (\<exists>e. x = Inl e) \<or> confirmation = operator_reload_phrase
      \<and> v4_with_lock (rc_lock_object cfg) (v4_reload_locked confirmation now) r = (x, r')"
    using assms by (auto simp: operator_reload_v4_gmo_no_post_def run_progs split: if_splits)
  then show ?thesis
    using 1 2 3 w1 w2 release
    by (cases a; cases b) (auto simp: v4_with_lock_def run_progs finallyE_def split: if_splits)
qed

lemma keeps_calls_operator_reload: "keeps rt_calls (operator_reload_v4_gmo_no_post cfg confirmation now)"
  unfolding operator_reload_v4_gmo_no_post_def v4_with_lock_def v4_reload_locked_def v4_reload_report_def
  by (intro calls_frames keeps_calls_blocks keeps_finally)

section \<open>Properties\<close>

text \<open>
  C33. An operator reload, whether it returns or raises (a wrong phrase, a lock held elsewhere, an
  unreadable broker, a stop in the middle), hands nothing to the broker and never latches a halt;
  it lifts one only for the exact phrase and over a freshly reconciled snapshot that is flat.  A
  reload that returns reports \<open>CLEARED_NO_POST\<close> exactly when a halt was latched and that snapshot is
  flat, and then no cycle and no latch halts the database any more; with any other report the halt
  is what it was.
\<close>

theorem v4_reload_needs_flat:
  assumes "v4_reach (w_store (rt_world r))"
    and "operator_reload_v4_gmo_no_post cfg confirmation now r = (x, r')"
  shows "rt_calls r' = rt_calls r
    \<and> (v4_halt_latched (w_store (rt_world r')) \<longrightarrow> v4_halt_latched (w_store (rt_world r)))
    \<and> (v4_halt_latched (w_store (rt_world r)) \<and> \<not> v4_halt_latched (w_store (rt_world r')) \<longrightarrow>
        confirmation = operator_reload_phrase
        \<and> (\<exists>s rest. b_snapshots (w_broker (rt_world r)) = s # rest \<and> v4_boot_blocked_reasons s = []))
    \<and> (\<forall>report. x = Inr report \<longrightarrow> confirmation = operator_reload_phrase
        \<and> (rl_status report = CLEARED_NO_POST \<longleftrightarrow> v4_halt_latched (w_store (rt_world r))
            \<and> (\<exists>s rest. b_snapshots (w_broker (rt_world r)) = s # rest \<and> v4_boot_blocked_reasons s = []))
        \<and> (v4_halt_latched (w_store (rt_world r')) \<longleftrightarrow>
            v4_halt_latched (w_store (rt_world r)) \<and> rl_status report \<noteq> CLEARED_NO_POST))"
proof -
  have calls: "rt_calls r' = rt_calls r"
    using keepsD [OF keeps_calls_operator_reload assms(2)] .
  show ?thesis
  proof (cases "\<exists>r1 r2. on_lock (lock_acquire (rc_lock_object cfg)) r = (Inr True, r1)
      \<and> in_store v4_initialize r1 = (Inr (), r2) \<and> confirmation = operator_reload_phrase
      \<and> (\<exists>r3. v4_reload_locked confirmation now r2 = (x, r3) \<and> rt_world r' = rt_world r3)")
    case False
    then have "v4_halt_latched (w_store (rt_world r')) = v4_halt_latched (w_store (rt_world r)) \<and> (\<exists>e. x = Inl e)"
      using reload_not_entered [OF assms(2)] by blast
    then show ?thesis using calls by auto
  next
    case True
    then obtain r1 r2 r3 where lock: "on_lock (lock_acquire (rc_lock_object cfg)) r = (Inr True, r1)"
      and init: "in_store v4_initialize r1 = (Inr (), r2)" and body: "v4_reload_locked confirmation now r2 = (x, r3)"
      and free: "rt_world r' = rt_world r3" and phrase: "confirmation = operator_reload_phrase" by auto
    have w1: "rt_world r1 = rt_world r" using lock by (auto simp: on_lock_def run_zoom split: prod.splits)
    then have run: "v4_initialize (w_store (rt_world r)) = (Inr (), w_store (rt_world r2))"
      and broker: "w_broker (rt_world r2) = w_broker (rt_world r)"
      using in_store_run [OF init] by simp_all
    have keys: "halt_keys (db_metadata (w_store (rt_world r2)))"
      by (rule reach_halt_keys [OF reach_initialize [OF assms(1) run]])
    have same: "v4_halt_latched (w_store (rt_world r2)) = v4_halt_latched (w_store (rt_world r))"
      by (rule initialize_latch [OF run])
    note latch = reload_latch [OF body, unfolded same broker, folded free]
    have "\<forall>report. x = Inr report \<longrightarrow>
        (rl_status report = CLEARED_NO_POST \<longleftrightarrow> v4_halt_latched (w_store (rt_world r))
          \<and> (\<exists>s rest. b_snapshots (w_broker (rt_world r)) = s # rest \<and> v4_boot_blocked_reasons s = []))
        \<and> (v4_halt_latched (w_store (rt_world r')) \<longleftrightarrow>
          v4_halt_latched (w_store (rt_world r)) \<and> rl_status report \<noteq> CLEARED_NO_POST)"
    proof (intro allI impI)
      fix report assume "x = Inr report"
      then show "(rl_status report = CLEARED_NO_POST \<longleftrightarrow> v4_halt_latched (w_store (rt_world r))
          \<and> (\<exists>s rest. b_snapshots (w_broker (rt_world r)) = s # rest \<and> v4_boot_blocked_reasons s = []))
        \<and> (v4_halt_latched (w_store (rt_world r')) \<longleftrightarrow>
          v4_halt_latched (w_store (rt_world r)) \<and> rl_status report \<noteq> CLEARED_NO_POST)"
        using reload_body [OF keys, of confirmation now report r3] body broker free same
        by (cases "rl_status report") auto
    qed
    then show ?thesis using calls latch phrase same by metis
  qed
qed

text \<open>A latched database and its reload.\<close>

definition sample_latched :: v4_db where
  "sample_latched = snd (v4_engage_global_halt ''OPERATOR_HALT'' sample_now v4_opened_db)"

lemma sample_latched:
  "v4_engage_global_halt ''OPERATOR_HALT'' sample_now v4_opened_db = (Inr (), sample_latched)"
  "db_cycles sample_latched = []"
  "map_of (db_metadata sample_latched) ''schema_version'' = Some V4_GMO_SCHEMA_VERSION"
  "map_of (db_metadata sample_latched) ''global_halt_latched'' = Some ''true''"
  "map_of (db_metadata sample_latched) ''global_halt_reason'' = Some ''OPERATOR_HALT''"
proof -
  have label: "v4_validate_safe_label ''OPERATOR_HALT'' = Inr ()" by code_simp
  have run: "v4_engage_global_halt ''OPERATOR_HALT'' sample_now v4_opened_db = (Inr (), v4_opened_db\<lparr>db_metadata :=
     fold (\<lambda>(k, v). AList.update k v) [(''global_halt_latched'', ''true''), (''global_halt_reason'', ''OPERATOR_HALT''),
       (''global_halt_at_utc'', dt_isoformat sample_now)] (db_metadata v4_opened_db)\<rparr>)"
    by (simp add: v4_engage_global_halt_def run_progs label v4_timestamp_def upsert_metadata_def)
  then show "v4_engage_global_halt ''OPERATOR_HALT'' sample_now v4_opened_db = (Inr (), sample_latched)"
    by (simp add: sample_latched_def)
  show "db_cycles sample_latched = []"
    by (simp add: sample_latched_def run) (simp add: v4_opened_db_def v4_initialize_def run_progs insert_metadata_def v4_empty_db_def)
  show "map_of (db_metadata sample_latched) ''schema_version'' = Some V4_GMO_SCHEMA_VERSION"
    "map_of (db_metadata sample_latched) ''global_halt_latched'' = Some ''true''"
    "map_of (db_metadata sample_latched) ''global_halt_reason'' = Some ''OPERATOR_HALT''"
    by (simp_all add: sample_latched_def run AList.update_conv' v4_opened_db(2))
qed

definition sample_halted_runtime :: v4_runtime where
  "sample_halted_runtime = (let r = sample_runtime None in r\<lparr>rt_world := (rt_world r)\<lparr>w_store := sample_latched\<rparr>\<rparr>)"

lemma sample_reload:
  "\<exists>report r'. operator_reload_v4_gmo_no_post sample_config operator_reload_phrase sample_now sample_halted_runtime = (Inr report, r')"
proof -
  have flat: "v4_boot_blocked_reasons sample_flat = []"
    by (simp add: v4_boot_blocked_reasons_def failed_reasons_def sample_flat_def)
  have init: "v4_initialize sample_latched = (Inr (), sample_latched)"
    by (simp add: v4_initialize_def run_progs sample_latched)
  have aware: "dt_aware sample_now" by (simp add: sample_now_def dt_aware_def dt_utc_def)
  show ?thesis
    by (simp add: operator_reload_v4_gmo_no_post_def run_progs aware sample_config_def sample_halted_runtime_def
        sample_runtime_def FakeV4GmoBroker_def v4_with_lock_def on_lock_def run_lock_acquire lock_held_def finallyE_def
        run_lock_release in_store_def in_world_def on_store_def checkpoint_def init v4_reload_locked_def
        v4_load_single_halted_cycle_def sample_latched v4_global_halt_reason_def v4_boot_reconcile_def on_broker_def
        reconcile_synthetic_def fake_reconcile_def flat v4_clear_global_halt_no_post_def v4_active_cycle_count_def
        count_rows_def is_true_def v4_reload_report_def)
qed

lemma v4_reload_needs_flat_witness:
  "\<exists>report r'. operator_reload_v4_gmo_no_post sample_config operator_reload_phrase sample_now sample_halted_runtime = (Inr report, r')
    \<and> rl_status report = CLEARED_NO_POST \<and> \<not> v4_halt_latched (w_store (rt_world r'))"
proof -
  obtain report r' where run: "operator_reload_v4_gmo_no_post sample_config operator_reload_phrase sample_now sample_halted_runtime =
      (Inr report, r')" using sample_reload by blast
  have "v4_reach (w_store (rt_world sample_halted_runtime))"
    using reach_engage [OF reach_initialize [OF reach_empty v4_opened_db(1)] sample_latched(1)]
    by (simp add: sample_halted_runtime_def Let_def)
  from v4_reload_needs_flat [OF this run] run show ?thesis
    by (auto simp: sample_halted_runtime_def sample_runtime_def Let_def v4_halt_latched_def sample_latched
        FakeV4GmoBroker_def v4_boot_blocked_reasons_def failed_reasons_def sample_flat_def)
qed

end
