(* ===== verification/Py_Decimal_Arith.thy ===== *)
theory Py_Decimal_Arith
  imports Py_Decimal
begin

text \<open>
  The arithmetic of \<open>decimal.Decimal\<close> in the default context, after \<open>_pydecimal.py\<close>: 28 digits,
  half to even, exponents from -999999 to 999999, traps for invalid operation, division by zero
  and overflow.  An operation computes the exact result and then rounds it once.
\<close>

section \<open>Rounding to the context\<close>

definition dec_emax :: int where "dec_emax = 999999"
definition dec_etiny :: int where "dec_etiny = - 1000026"
definition dec_etop :: int where "dec_etop = 999972"

definition dec_digits :: "nat \<Rightarrow> nat" where
  "dec_digits c = length (nat_digits c)"

text \<open>\<open>_round_half_even\<close>: the coefficient without its last \<open>k\<close> digits.\<close>

definition round_half_even :: "nat \<Rightarrow> nat \<Rightarrow> nat" where
  "round_half_even c k = (let q = c div 10 ^ k; r = c mod 10 ^ k in
     if 10 ^ k < 2 * r \<or> (2 * r = 10 ^ k \<and> odd q) then q + 1 else q)"

text \<open>\<open>_fix\<close>\<close>

definition dec_fix :: "bool \<Rightarrow> nat \<Rightarrow> int \<Rightarrow> decimal result" where
  "dec_fix s c e =
    (if c = 0 then Inr (DFin s 0 (min (max e dec_etiny) dec_emax))
     else
       let exp_min = int (dec_digits c) + e - int dec_precision in
       if dec_etop < exp_min then Inl DecimalOverflow
       else
         let exp_min = max exp_min dec_etiny in
         if e < exp_min then
           let q = round_half_even c (nat (exp_min - e));
               (q, x) = (if dec_precision < dec_digits q then (q div 10, exp_min + 1) else (q, exp_min))
           in if dec_etop < x then Inl DecimalOverflow else Inr (DFin s q x)
         else Inr (DFin s c e))"

section \<open>Operations\<close>

text \<open>\<open>__add__\<close>: the zero of two opposite numbers is positive, that of two negative zeros is not.\<close>

fun dec_add :: "decimal \<Rightarrow> decimal \<Rightarrow> decimal result" where
  "dec_add (DFin s c e) (DFin s' c' e') =
     (let x = min e e'; n = scaled s c e x + scaled s' c' e' x in
      dec_fix (if n = 0 then s \<and> s' \<and> c = 0 else n < 0) (nat \<bar>n\<bar>) x)"
| "dec_add (DInf s) (DInf s') = (if s = s' then Inr (DInf s) else Inl DecimalInvalidOperation)"
| "dec_add (DInf s) (DFin s' c' e') = Inr (DInf s)"
| "dec_add (DFin s c e) (DInf s') = Inr (DInf s')"
| "dec_add _ _ = Inr DNaN"

fun dec_copy_negate :: "decimal \<Rightarrow> decimal" where
  "dec_copy_negate (DFin s c e) = DFin (\<not> s) c e"
| "dec_copy_negate (DInf s) = DInf (\<not> s)"
| "dec_copy_negate DNaN = DNaN"

text \<open>\<open>__sub__\<close> adds the negated copy; \<open>__neg__\<close> rounds, and the negation of a zero is positive.\<close>

definition dec_sub :: "decimal \<Rightarrow> decimal \<Rightarrow> decimal result" where
  "dec_sub x y = dec_add x (dec_copy_negate y)"

fun dec_neg :: "decimal \<Rightarrow> decimal result" where
  "dec_neg (DFin s c e) = dec_fix (c \<noteq> 0 \<and> \<not> s) c e"
| "dec_neg (DInf s) = Inr (DInf (\<not> s))"
| "dec_neg DNaN = Inr DNaN"

fun dec_mul :: "decimal \<Rightarrow> decimal \<Rightarrow> decimal result" where
  "dec_mul (DFin s c e) (DFin s' c' e') = dec_fix (s \<noteq> s') (c * c') (e + e')"
| "dec_mul (DInf s) (DInf s') = Inr (DInf (s \<noteq> s'))"
| "dec_mul (DInf s) (DFin s' c' e') = (if c' = 0 then Inl DecimalInvalidOperation else Inr (DInf (s \<noteq> s')))"
| "dec_mul (DFin s c e) (DInf s') = (if c = 0 then Inl DecimalInvalidOperation else Inr (DInf (s \<noteq> s')))"
| "dec_mul _ _ = Inr DNaN"

text \<open>The loop that brings an exact quotient as close to the ideal exponent as possible.\<close>

function dec_strip :: "nat \<Rightarrow> int \<Rightarrow> int \<Rightarrow> nat \<times> int" where
  "dec_strip c e ideal = (if e < ideal \<and> c mod 10 = 0 then dec_strip (c div 10) (e + 1) ideal else (c, e))"
  by auto
termination by (relation "measure (\<lambda>(c, e, ideal). nat (ideal - e))") auto

declare dec_strip.simps [simp del]

text \<open>\<open>__truediv__\<close>\<close>

fun dec_div :: "decimal \<Rightarrow> decimal \<Rightarrow> decimal result" where
  "dec_div (DFin s c e) (DFin s' c' e') =
     (if c' = 0 then Inl (if c = 0 then DecimalInvalidOperation else PyZeroDivision)
      else if c = 0 then dec_fix (s \<noteq> s') 0 (e - e')
      else
        let shift = int (dec_digits c') - int (dec_digits c) + int dec_precision + 1;
            (num, den) = (if 0 \<le> shift then (c * 10 ^ nat shift, c') else (c, c' * 10 ^ nat (- shift)));
            q = num div den
        in if num mod den \<noteq> 0
           then dec_fix (s \<noteq> s') (if q mod 5 = 0 then q + 1 else q) (e - e' - shift)
           else (case dec_strip q (e - e' - shift) (e - e') of (q, x) \<Rightarrow> dec_fix (s \<noteq> s') q x))"
| "dec_div (DInf s) (DInf s') = Inl DecimalInvalidOperation"
| "dec_div (DInf s) (DFin s' c' e') = Inr (DInf (s \<noteq> s'))"
| "dec_div (DFin s c e) (DInf s') = Inr (DFin (s \<noteq> s') 0 dec_etiny)"
| "dec_div _ _ = Inr DNaN"

text \<open>\<open>to_integral_value\<close> with \<open>ROUND_FLOOR\<close> and \<open>ROUND_CEILING\<close>: not rounded to the context.\<close>

definition dec_to_integral :: "bool \<Rightarrow> decimal \<Rightarrow> decimal" where
  "dec_to_integral up x = (case x of
     DFin s c e \<Rightarrow>
       if 0 \<le> e then x
       else let k = nat (- e); q = c div 10 ^ k
            in DFin s (if c mod 10 ^ k \<noteq> 0 \<and> s \<noteq> up then q + 1 else q) 0
   | _ \<Rightarrow> x)"

abbreviation "dec_floor \<equiv> dec_to_integral False"
abbreviation "dec_ceiling \<equiv> dec_to_integral True"

text \<open>The comparisons, which raise on a NaN, and \<open>min\<close>.\<close>

definition dec_leR :: "decimal \<Rightarrow> decimal \<Rightarrow> bool result" where
  "dec_leR x y = (case dec_cmp x y of None \<Rightarrow> Inl DecimalInvalidOperation | Some c \<Rightarrow> Inr (c \<le> 0))"

definition dec_ltR :: "decimal \<Rightarrow> decimal \<Rightarrow> bool result" where
  "dec_ltR x y = (case dec_cmp x y of None \<Rightarrow> Inl DecimalInvalidOperation | Some c \<Rightarrow> Inr (c < 0))"

definition dec_minR :: "decimal \<Rightarrow> decimal \<Rightarrow> decimal result" where
  "dec_minR x y = bindR (dec_ltR y x) (\<lambda>b. Inr (if b then y else x))"

text \<open>\<open>normalize\<close>: rounded to the context, then without trailing zeros; a zero becomes \<open>0\<close>.\<close>

function dec_trim :: "nat \<Rightarrow> int \<Rightarrow> nat \<times> int" where
  "dec_trim c e = (if 0 < c \<and> c mod 10 = 0 \<and> e < dec_emax then dec_trim (c div 10) (e + 1) else (c, e))"
  by auto
termination by (relation "measure fst") auto

declare dec_trim.simps [simp del]

fun dec_normalize :: "decimal \<Rightarrow> decimal result" where
  "dec_normalize (DFin s c e) = bindR (dec_fix s c e) (\<lambda>x. case x of
     DFin s c e \<Rightarrow> Inr (if c = 0 then DFin s 0 0 else case dec_trim c e of (c, e) \<Rightarrow> DFin s c e)
   | _ \<Rightarrow> Inr x)"
| "dec_normalize x = Inr x"

text \<open>\<open>int(x)\<close> truncates.\<close>

definition dec_to_int :: "decimal \<Rightarrow> int result" where
  "dec_to_int x = (case x of
     DFin s c e \<Rightarrow> Inr (signed_coeff s (if 0 \<le> e then c * 10 ^ nat e else c div 10 ^ nat (- e)))
   | DInf s \<Rightarrow> Inl PyOverflowError
   | DNaN \<Rightarrow> Inl (PyValueError ''cannot convert NaN to integer''))"

section \<open>Numbers that fit\<close>

text \<open>
  At most \<open>k\<close> decimals and a value below \<open>10 ^ a\<close>.  As long as \<open>a + k\<close> stays within the 28 digits
  of the context the operations are exact.
\<close>

definition dec_fits :: "nat \<Rightarrow> nat \<Rightarrow> decimal \<Rightarrow> bool" where
  "dec_fits a k x \<longleftrightarrow> (case x of DFin s c e \<Rightarrow> - int k \<le> e \<and> e \<le> int a \<and> \<bar>dval x\<bar> < 10 ^ a | _ \<Rightarrow> False)"

lemma dec_fitsE:
  assumes "dec_fits a k x"
  obtains s c e where "x = DFin s c e" "- int k \<le> e" "e \<le> int a" "\<bar>dval x\<bar> < 10 ^ a"
  using assms by (auto simp: dec_fits_def split: decimal.splits)

lemma dec_fits_finite: "dec_fits a k x \<Longrightarrow> dec_is_finite x"
  by (auto simp: dec_fits_def dec_is_finite_def split: decimal.splits)

lemma nat_digits_length: "c < 10 ^ Suc k \<Longrightarrow> length (nat_digits c) \<le> Suc k"
proof (induction k arbitrary: c)
  case 0
  then show ?case by (subst nat_digits.simps) simp
next
  case (Suc k)
  then have "c div 10 < 10 ^ Suc k" by (simp add: less_mult_imp_div_less mult.commute)
  then show ?case using Suc.IH by (subst nat_digits.simps) simp
qed

lemma dec_digits_le: "c < 10 ^ k \<Longrightarrow> 0 < k \<Longrightarrow> dec_digits c \<le> k"
  using nat_digits_length [of c "k - 1"] by (simp add: dec_digits_def)

lemma dec_fix_exact:
  assumes "c < 10 ^ 28" and "dec_etiny \<le> e" and "e \<le> dec_etop"
  shows "dec_fix s c e = Inr (DFin s c e)"
proof -
  have "dec_digits c \<le> 28" using assms(1) by (rule dec_digits_le) simp
  then have "\<not> e < max (int (dec_digits c) + e - int dec_precision) dec_etiny"
    "\<not> dec_etop < int (dec_digits c) + e - int dec_precision"
    using assms(2,3) by (simp_all add: dec_precision_def)
  then show ?thesis using assms(2,3)
    by (auto simp: dec_fix_def Let_def dec_etop_def dec_emax_def)
qed

lemma abs_dval: "\<bar>dval (DFin s c e)\<bar> = of_nat c * pow10 e"
  by (simp add: dval_def signed_coeff_def abs_mult)

lemma fits_coeff:
  assumes "\<bar>dval (DFin s c e)\<bar> < 10 ^ a" and "- int k \<le> e"
  shows "c < 10 ^ (a + k)"
proof -
  have "pow10 e = pow10 (- int k) * 10 ^ nat (e + int k)"
    using assms(2) pow10_add_nat [of "- int k" "nat (e + int k)"] by simp
  moreover have "pow10 (- int k) * 1 \<le> pow10 (- int k) * 10 ^ nat (e + int k)"
    by (rule mult_left_mono) simp_all
  ultimately have "pow10 (- int k) \<le> pow10 e" by simp
  then have "of_nat c * pow10 (- int k) \<le> \<bar>dval (DFin s c e)\<bar>"
    unfolding abs_dval by (simp add: mult_left_mono)
  then have "of_nat c * pow10 (- int k) < 10 ^ a" using assms(1) by linarith
  then have "of_nat c * pow10 (- int k) * 10 ^ k < 10 ^ a * 10 ^ k" by (rule mult_strict_right_mono) simp
  moreover have "pow10 (- int k) * 10 ^ k = 1" using pow10_add_nat [of "- int k" k] by simp
  ultimately have "of_nat c < (10 ^ (a + k) :: rat)" by (simp add: power_add mult.assoc)
  also have "(10 ^ (a + k) :: rat) = of_nat (10 ^ (a + k))" by simp
  finally show ?thesis by (simp only: of_nat_less_iff)
qed

lemma fix_fits:
  assumes "\<bar>dval (DFin s c e)\<bar> < 10 ^ a" "- int k \<le> e" "e \<le> int a" "a + k \<le> 28"
  shows "dec_fix s c e = Inr (DFin s c e)" "dec_fits a k (DFin s c e)"
proof -
  have "c < 10 ^ (a + k)" by (rule fits_coeff [OF assms(1,2)])
  also have "\<dots> \<le> 10 ^ 28" using assms(4) by (rule power_increasing) simp
  finally show "dec_fix s c e = Inr (DFin s c e)"
    using assms by (intro dec_fix_exact) (simp_all add: dec_etiny_def dec_etop_def)
  show "dec_fits a k (DFin s c e)" using assms by (simp add: dec_fits_def)
qed

lemma dval_signed: "dval (DFin (n < 0) (nat \<bar>n\<bar>) e) = of_int n * pow10 e"
  by (simp add: dval_def signed_coeff_def)

lemma dval_zero [simp]: "dval (DFin s 0 e) = 0"
  by (simp add: dval_def signed_coeff_def)

lemma dec_add_fits:
  assumes "dec_fits a k x" and "dec_fits a k y" and "a + 1 + k \<le> 28"
  shows "\<exists>z. dec_add x y = Inr z \<and> dval z = dval x + dval y \<and> dec_fits (a + 1) k z"
proof -
  obtain s c e where x: "x = DFin s c e" "- int k \<le> e" "e \<le> int a" "\<bar>dval x\<bar> < 10 ^ a"
    using assms(1) by (rule dec_fitsE)
  obtain s' c' e' where y: "y = DFin s' c' e'" "- int k \<le> e'" "e' \<le> int a" "\<bar>dval y\<bar> < 10 ^ a"
    using assms(2) by (rule dec_fitsE)
  define m where "m = min e e'"
  define n where "n = scaled s c e m + scaled s' c' e' m"
  define sg where "sg = (if n = 0 then s \<and> s' \<and> c = 0 else n < 0)"
  have "dval x = of_int (scaled s c e m) * pow10 m" "dval y = of_int (scaled s' c' e' m) * pow10 m"
    unfolding x(1) y(1) m_def by (rule dval_scaled, simp)+
  then have sum: "of_int n * pow10 m = dval x + dval y" by (simp add: n_def distrib_right)
  have val: "dval (DFin sg (nat \<bar>n\<bar>) m) = dval x + dval y"
    using dval_signed [of n m] sum by (cases "n = 0") (simp_all add: sg_def)
  have "\<bar>dval x + dval y\<bar> < 10 ^ (a + 1)" using x(4) y(4) by simp
  moreover have "- int k \<le> m" "m \<le> int (a + 1)" using x y by (auto simp: m_def)
  ultimately have "dec_fix sg (nat \<bar>n\<bar>) m = Inr (DFin sg (nat \<bar>n\<bar>) m)" "dec_fits (a + 1) k (DFin sg (nat \<bar>n\<bar>) m)"
    using fix_fits [of sg "nat \<bar>n\<bar>" m "a + 1" k] val assms(3) by simp_all
  moreover have "dec_add x y = dec_fix sg (nat \<bar>n\<bar>) m"
    unfolding x(1) y(1) dec_add.simps Let_def m_def [symmetric] n_def [symmetric] sg_def [symmetric] ..
  ultimately show ?thesis using val by auto
qed

lemma fits_copy_negate: "dec_fits a k y \<Longrightarrow> dec_fits a k (dec_copy_negate y) \<and> dval (dec_copy_negate y) = - dval y"
  by (auto simp: dec_fits_def dval_def signed_coeff_def split: decimal.splits)

lemma dec_sub_fits:
  assumes "dec_fits a k x" and "dec_fits a k y" and "a + 1 + k \<le> 28"
  shows "\<exists>z. dec_sub x y = Inr z \<and> dval z = dval x - dval y \<and> dec_fits (a + 1) k z"
  using dec_add_fits [of a k x "dec_copy_negate y"] fits_copy_negate [OF assms(2)] assms by (simp add: dec_sub_def)

lemma dec_mul_fits:
  assumes "dec_fits a k x" and "dec_fits b j y" and "a + b + (k + j) \<le> 28"
  shows "\<exists>z. dec_mul x y = Inr z \<and> dval z = dval x * dval y \<and> dec_fits (a + b) (k + j) z"
proof -
  obtain s c e where x: "x = DFin s c e" "- int k \<le> e" "e \<le> int a" "\<bar>dval x\<bar> < 10 ^ a"
    using assms(1) by (rule dec_fitsE)
  obtain s' c' e' where y: "y = DFin s' c' e'" "- int j \<le> e'" "e' \<le> int b" "\<bar>dval y\<bar> < 10 ^ b"
    using assms(2) by (rule dec_fitsE)
  have val: "dval (DFin (s \<noteq> s') (c * c') (e + e')) = dval x * dval y"
    by (simp add: x(1) y(1) dval_def signed_coeff_def pow10_mult)
  have "\<bar>dval x * dval y\<bar> < 10 ^ (a + b)"
    using x(4) y(4) by (simp add: abs_mult power_add mult_strict_mono')
  then show ?thesis
    using fix_fits [of "s \<noteq> s'" "c * c'" "e + e'" "a + b" "k + j"] val assms(3) x y by simp
qed

lemma dec_strip_shift: "dec_strip (c * 10 ^ n) (i - int n) i = (c, i)"
proof (induction n)
  case 0
  then show ?case by (simp add: dec_strip.simps)
next
  case (Suc n)
  then show ?case by (subst dec_strip.simps) (simp add: algebra_simps)
qed

text \<open>Dividing by a power of ten below one, such as a pip or a tick.\<close>

lemma dec_div_fits:
  assumes "dec_fits a k x" and "a + j + k \<le> 28"
  shows "\<exists>z. dec_div x (DFin False 1 (- int j)) = Inr z \<and> dval z = dval x * 10 ^ j \<and> dec_fits (a + j) k z"
proof -
  obtain s c e where x: "x = DFin s c e" "- int k \<le> e" "e \<le> int a" "\<bar>dval x\<bar> < 10 ^ a"
    using assms(1) by (rule dec_fitsE)
  have val: "dval (DFin s c (e + int j)) = dval x * 10 ^ j"
    by (simp add: x(1) dval_def pow10_add_nat)
  have "\<bar>dval x * 10 ^ j\<bar> < 10 ^ (a + j)" using x(4) by (simp add: abs_mult power_add)
  then have fixed: "dec_fix s c (e + int j) = Inr (DFin s c (e + int j))" "dec_fits (a + j) k (DFin s c (e + int j))"
    using fix_fits [of s c "e + int j" "a + j" k] val x assms(2) by simp_all
  have "c < 10 ^ (a + k)" using x by (intro fits_coeff [of s c e]) simp_all
  also have "\<dots> \<le> 10 ^ 28" using assms(2) by (intro power_increasing) simp_all
  finally have len: "dec_digits c \<le> 28" by (rule dec_digits_le) simp
  have one: "dec_digits (Suc 0) = 1" unfolding dec_digits_def by (subst nat_digits.simps) simp
  have "dec_div x (DFin False 1 (- int j)) = dec_fix s c (e + int j)"
  proof (cases "c = 0")
    case True
    then show ?thesis by (simp add: x(1))
  next
    case False
    define n where "n = 30 - dec_digits c"
    have shift: "int (dec_digits 1) - int (dec_digits c) + int dec_precision + 1 = int n"
      using len by (simp add: one n_def dec_precision_def)
    show ?thesis
      using False dec_strip_shift [of c n "e + int j"] by (simp add: x(1) shift [unfolded One_nat_def] Let_def)
  qed
  then show ?thesis using fixed val by auto
qed

text \<open>Rounding to an integer is the floor or the ceiling of the value.\<close>

lemma signed_div:
  assumes "0 < d"
  shows "signed_coeff s (if c mod d \<noteq> 0 \<and> s then c div d + 1 else c div d) = signed_coeff s c div int d"
proof (cases s)
  case True
  have "int c mod int d = 0 \<longleftrightarrow> c mod d = 0" by (metis of_nat_0 of_nat_eq_iff zmod_int)
  then show ?thesis
    using True assms zdiv_zminus1_eq_if [of "int d" "int c"] by (simp add: signed_coeff_def zdiv_int)
qed (simp add: signed_coeff_def zdiv_int)

lemma dval_neg_exp: "e < 0 \<Longrightarrow> dval (DFin s c e) = of_int (signed_coeff s c) / of_int (int (10 ^ nat (- e)))"
  by (simp add: dval_def pow10_def)

lemma dval_floor:
  assumes "e < 0"
  shows "dval (dec_floor (DFin s c e)) = of_int \<lfloor>dval (DFin s c e)\<rfloor>"
proof -
  let ?d = "10 ^ nat (- e) :: nat"
  have "dec_floor (DFin s c e) = DFin s (if c mod ?d \<noteq> 0 \<and> s then c div ?d + 1 else c div ?d) 0"
    using assms by (simp add: dec_to_integral_def Let_def)
  then have "dval (dec_floor (DFin s c e)) = of_int (signed_coeff s (if c mod ?d \<noteq> 0 \<and> s then c div ?d + 1 else c div ?d))"
    by (simp add: dval_def)
  moreover have "0 < ?d" by simp
  ultimately show ?thesis by (simp only: signed_div dval_neg_exp [OF assms] floor_divide_of_int_eq)
qed

lemma dval_ceiling:
  assumes "e < 0"
  shows "dval (dec_ceiling (DFin s c e)) = of_int \<lceil>dval (DFin s c e)\<rceil>"
proof -
  have flip: "dval (DFin (\<not> b) d x) = - dval (DFin b d x)" for b d x by (simp add: dval_def signed_coeff_def)
  have "dec_ceiling (DFin s c e) = dec_copy_negate (dec_floor (DFin (\<not> s) c e))"
    using assms by (simp add: dec_to_integral_def Let_def)
  then have "dval (dec_ceiling (DFin s c e)) = - dval (dec_floor (DFin (\<not> s) c e))"
    by (cases "dec_floor (DFin (\<not> s) c e)") (simp_all add: flip, simp_all add: dval_def)
  then show ?thesis using dval_floor [OF assms, of "\<not> s" c] by (simp add: flip ceiling_def)
qed

lemma dval_int: "0 \<le> e \<Longrightarrow> \<exists>n. dval (DFin s c e) = of_int n"
  by (rule exI [of _ "signed_coeff s c * 10 ^ nat e"]) (simp add: dval_def pow10_def)

lemma dec_to_integral_fits:
  assumes "dec_fits a k x"
  shows "dval (dec_to_integral up x) = of_int (if up then \<lceil>dval x\<rceil> else \<lfloor>dval x\<rfloor>) \<and> dec_fits (a + 1) 0 (dec_to_integral up x)"
proof -
  obtain s c e where x: "x = DFin s c e" "- int k \<le> e" "e \<le> int a" "\<bar>dval x\<bar> < 10 ^ a"
    using assms by (rule dec_fitsE)
  have val: "dval (dec_to_integral up x) = of_int (if up then \<lceil>dval x\<rceil> else \<lfloor>dval x\<rfloor>)"
  proof (cases "0 \<le> e")
    case True
    then show ?thesis using dval_int [OF True, of s c] by (auto simp: x(1) dec_to_integral_def)
  next
    case False
    then show ?thesis using dval_floor [of e s c] dval_ceiling [of e s c] by (cases up) (simp_all add: x(1))
  qed
  have "- (10 ^ a) \<le> \<lfloor>dval x\<rfloor>" "\<lfloor>dval x\<rfloor> \<le> 10 ^ a" "- (10 ^ a) \<le> \<lceil>dval x\<rceil>" "\<lceil>dval x\<rceil> \<le> 10 ^ a"
    using x(4) by (simp_all add: le_floor_iff floor_le_iff le_ceiling_iff ceiling_le_iff abs_less_iff)
  then have "\<bar>if up then \<lceil>dval x\<rceil> else \<lfloor>dval x\<rfloor>\<bar> \<le> 10 ^ a" by auto
  then have "\<bar>of_int (if up then \<lceil>dval x\<rceil> else \<lfloor>dval x\<rfloor>) :: rat\<bar> \<le> 10 ^ a"
    by (metis of_int_abs of_int_le_iff of_int_numeral of_int_power)
  then have "\<bar>dval (dec_to_integral up x)\<bar> < 10 ^ (a + 1)"
    unfolding val by (rule le_less_trans) simp
  then show ?thesis
    using val x by (auto simp: dec_fits_def dec_to_integral_def Let_def split: decimal.splits)
qed

lemma dec_leR_fits:
  assumes "dec_fits a k x" and "dec_fits b j y"
  shows "dec_leR x y = Inr (dval x \<le> dval y)" "dec_ltR x y = Inr (dval x < dval y)"
proof -
  obtain n where "dec_cmp x y = Some n" using assms by (elim dec_fitsE) simp
  then show "dec_leR x y = Inr (dval x \<le> dval y)" "dec_ltR x y = Inr (dval x < dval y)"
    using dec_le_dval [of x y] dec_lt_dval [of x y] assms [THEN dec_fits_finite]
    by (simp_all add: dec_leR_def dec_ltR_def dec_le_def dec_lt_def)
qed

end
