(* ===== verification/V4_Protection.thy ===== *)
theory V4_Protection
  imports V4_Contracts Py_Decimal_Arith
begin

text \<open>
  \<open>backend/app/h11_auto/v4_gmo_protection.py\<close>: the stop and the target of the exact-fill OCO
  protection, from the average fill and the ATR frozen with the signal.
\<close>

section \<open>The contract\<close>

definition H11_V4_GMO_PROTECTION_SPEC :: json where
  "H11_V4_GMO_PROTECTION_SPEC = JObj [
     (''symbol'', JStr ''USD_JPY''),
     (''entry_execution_type'', JStr ''MARKET''),
     (''protection_order_type'', JStr ''OCO''),
     (''protection_size_source'', JStr ''RECONCILED_ACTUAL_FILLED_SIZE''),
     (''stop_loss_atr_multiplier'', JStr ''1.50''),
     (''take_profit_r_multiple'', JStr ''1.50''),
     (''tick_size'', JStr ''0.001''),
     (''max_intended_size'', JInt 1000),
     (''same_action_retry_allowed'', JBool False),
     (''same_action_repost_allowed'', JBool False),
     (''actual_post_allowed'', JBool False)]"

definition calculate_protection_contract_hash :: string where
  "calculate_protection_contract_hash = ''sha256:'' @ sha256_hex (json_dumps H11_V4_GMO_PROTECTION_SPEC)"

text \<open>\<open>Decimal\<close> of the three texts of the specification.\<close>

definition protection_multiple :: decimal where
  "protection_multiple = DFin False 150 (- 2)"

definition protection_tick :: decimal where
  "protection_tick = DFin False 1 (- 3)"

section \<open>The plan\<close>

record v4_protection_plan =
  pp_symbol :: string
  pp_position_side :: signal_decision
  pp_settlement_side :: signal_decision
  pp_exact_filled_size :: int
  pp_take_profit_price :: decimal
  pp_stop_loss_price :: decimal
  pp_contract_hash :: string
  pp_actual_post_allowed :: bool
  pp_credential_read_allowed :: bool
  pp_network_access_allowed :: bool

definition dec_nonpositiveR :: "decimal \<Rightarrow> bool result" where
  "dec_nonpositiveR x = dec_leR x dec_zero"

definition settlement_side_of :: "signal_decision \<Rightarrow> signal_decision" where
  "settlement_side_of side = (if side = BUY then SELL else BUY)"

text \<open>\<open>__post_init__\<close>; \<open>or\<close> does not look at the second price when the first is not positive.\<close>

definition V4GmoExactProtectionPlan :: "v4_protection_plan \<Rightarrow> v4_protection_plan result" where
  "V4GmoExactProtectionPlan p =
    bindR (guardR (pp_symbol p = ''USD_JPY'')
      (V4GmoProtectionError ''v4 protection symbol is not frozen USD_JPY'')) (\<lambda>_.
    bindR (guardR (pp_position_side p \<in> {BUY, SELL})
      (V4GmoProtectionError ''v4 protection position side is invalid'')) (\<lambda>_.
    bindR (guardR (pp_settlement_side p = settlement_side_of (pp_position_side p))
      (V4GmoProtectionError ''v4 protection settlement side is invalid'')) (\<lambda>_.
    bindR (guardR (0 < pp_exact_filled_size p \<and> pp_exact_filled_size p \<le> 1000)
      (V4GmoProtectionError ''v4 protection size is outside the frozen bound'')) (\<lambda>_.
    bindR (bindR (dec_nonpositiveR (pp_take_profit_price p)) (\<lambda>bad.
        if bad then Inr True else dec_nonpositiveR (pp_stop_loss_price p))) (\<lambda>bad.
    bindR (guardR (\<not> bad) (V4GmoProtectionError ''v4 protection prices must be positive'')) (\<lambda>_.
    bindR (guardR (pp_contract_hash p = H11_V4_GMO_PROTECTION_CONTRACT_HASH)
      (V4GmoProtectionError ''v4 protection contract hash mismatch'')) (\<lambda>_.
    bindR (guardR (\<not> (pp_actual_post_allowed p \<or> pp_credential_read_allowed p \<or> pp_network_access_allowed p))
      (V4GmoProtectionError ''pure v4 protection plan cannot enable transport'')) (\<lambda>_.
    Inr p))))))))"

definition protection_canonical_json :: "v4_protection_plan \<Rightarrow> string" where
  "protection_canonical_json p = json_dumps (JObj [
     (''contract_hash'', JStr (pp_contract_hash p)),
     (''exact_filled_size'', JInt (pp_exact_filled_size p)),
     (''position_side'', JStr (decision_value (pp_position_side p))),
     (''settlement_side'', JStr (decision_value (pp_settlement_side p))),
     (''stop_loss_price'', JStr (dec_format_f (pp_stop_loss_price p))),
     (''symbol'', JStr (pp_symbol p)),
     (''take_profit_price'', JStr (dec_format_f (pp_take_profit_price p)))])"

definition protection_plan_digest :: "v4_protection_plan \<Rightarrow> string" where
  "protection_plan_digest p = sha256_hex (protection_canonical_json p)"

text \<open>\<open>_round_up\<close> and \<open>_round_down\<close>\<close>

definition round_up :: "decimal \<Rightarrow> decimal \<Rightarrow> decimal result" where
  "round_up value increment = bindR (dec_div value increment) (\<lambda>q. dec_mul (dec_ceiling q) increment)"

definition round_down :: "decimal \<Rightarrow> decimal \<Rightarrow> decimal result" where
  "round_down value increment = bindR (dec_div value increment) (\<lambda>q. dec_mul (dec_floor q) increment)"

text \<open>The stop and the target on either side of the fill.\<close>

definition protection_prices :: "signal_decision \<Rightarrow> decimal \<Rightarrow> decimal \<Rightarrow> decimal \<Rightarrow> (decimal \<times> decimal) result" where
  "protection_prices side fill risk_width reward_width =
    (if side = BUY then
       bindR (bindR (dec_sub fill risk_width) (\<lambda>x. round_down x protection_tick)) (\<lambda>stop.
       bindR (bindR (dec_add fill reward_width) (\<lambda>x. round_up x protection_tick)) (\<lambda>take_profit.
       Inr (stop, take_profit)))
     else
       bindR (bindR (dec_add fill risk_width) (\<lambda>x. round_up x protection_tick)) (\<lambda>stop.
       bindR (bindR (dec_sub fill reward_width) (\<lambda>x. round_down x protection_tick)) (\<lambda>take_profit.
       Inr (stop, take_profit))))"

definition build_exact_fill_oco_plan_no_post ::
    "signal_decision \<Rightarrow> decimal \<Rightarrow> decimal \<Rightarrow> pyval \<Rightarrow> v4_protection_plan result" where
  "build_exact_fill_oco_plan_no_post side fill atr filled_size =
    bindR (guardR (side \<in> {BUY, SELL}) (V4GmoProtectionError ''position side must be BUY or SELL'')) (\<lambda>_.
    bindR (bindR (dec_nonpositiveR fill) (\<lambda>bad. if bad then Inr True else dec_nonpositiveR atr)) (\<lambda>bad.
    bindR (guardR (\<not> bad) (V4GmoProtectionError ''fill price and frozen ATR must be positive'')) (\<lambda>_.
    case as_int filled_size of
      None \<Rightarrow> Inl (V4GmoProtectionError ''reconciled fill size is outside the frozen bound'')
    | Some n \<Rightarrow>
    bindR (guardR (0 < n \<and> n \<le> 1000)
      (V4GmoProtectionError ''reconciled fill size is outside the frozen bound'')) (\<lambda>_.
    bindR (dec_mul atr protection_multiple) (\<lambda>risk_width.
    bindR (dec_mul risk_width protection_multiple) (\<lambda>reward_width.
    bindR (protection_prices side fill risk_width reward_width) (\<lambda>(stop, take_profit).
    bindR (dec_minR stop take_profit) (\<lambda>least.
    bindR (dec_nonpositiveR least) (\<lambda>bad.
    bindR (guardR (\<not> bad) (V4GmoProtectionError ''derived protection prices must remain positive'')) (\<lambda>_.
    V4GmoExactProtectionPlan \<lparr>pp_symbol = ''USD_JPY'', pp_position_side = side,
      pp_settlement_side = settlement_side_of side, pp_exact_filled_size = n,
      pp_take_profit_price = take_profit, pp_stop_loss_price = stop,
      pp_contract_hash = H11_V4_GMO_PROTECTION_CONTRACT_HASH,
      pp_actual_post_allowed = False, pp_credential_read_allowed = False, pp_network_access_allowed = False\<rparr>))))))))))"

section \<open>Prices that fit\<close>

text \<open>
  Prices and widths below ten thousand with at most twelve decimals: every intermediate result
  then has at most 24 digits, so nothing is rounded but the ticks.
\<close>

lemma fits_multiple: "dec_fits 1 2 protection_multiple" "dval protection_multiple = 3 / 2"
  by (simp_all add: dec_fits_def protection_multiple_def dval_def signed_coeff_def pow10_def)

lemma fits_tick: "dec_fits 0 3 protection_tick" "dval protection_tick = 1 / 1000"
  by (simp_all add: dec_fits_def protection_tick_def dval_def signed_coeff_def pow10_def)

lemma fits_zero: "dec_fits a k dec_zero" "dval dec_zero = 0"
  by (simp_all add: dec_fits_def dec_zero_def)

lemma fits_mono:
  assumes "dec_fits a k x" "a \<le> b" "k \<le> j"
  shows "dec_fits b j x"
proof -
  obtain s c e where x: "x = DFin s c e" "- int k \<le> e" "e \<le> int a" "\<bar>dval x\<bar> < 10 ^ a"
    using assms(1) by (rule dec_fitsE)
  have "(10 :: rat) ^ a \<le> 10 ^ b" using assms(2) by (rule power_increasing) simp
  then have "\<bar>dval x\<bar> < 10 ^ b" using x(4) by linarith
  then show ?thesis using assms(2,3) x by (simp add: dec_fits_def)
qed

definition tick_down :: "rat \<Rightarrow> rat" where "tick_down v = of_int \<lfloor>v * 1000\<rfloor> / 1000"
definition tick_up :: "rat \<Rightarrow> rat" where "tick_up v = of_int \<lceil>v * 1000\<rceil> / 1000"

lemma tick_bounds: "tick_down v \<le> v" "v < tick_down v + 1 / 1000" "v \<le> tick_up v" "tick_up v < v + 1 / 1000"
  unfolding tick_down_def tick_up_def by linarith+

lemma round_tick_fits:
  assumes "dec_fits a k x" and "a + 7 \<le> 28" and "a + 3 + k \<le> 28"
  shows "\<exists>z. round_down x protection_tick = Inr z \<and> dval z = tick_down (dval x) \<and> dec_fits (a + 4) 3 z"
    "\<exists>z. round_up x protection_tick = Inr z \<and> dval z = tick_up (dval x) \<and> dec_fits (a + 4) 3 z"
proof -
  obtain q where q: "dec_div x protection_tick = Inr q" "dval q = dval x * 1000" "dec_fits (a + 3) k q"
    using dec_div_fits [OF assms(1), of 3] assms(3) by (auto simp: protection_tick_def)
  have four: "a + 3 + 1 = a + 4" by simp
  have int: "dval (dec_to_integral up q) = of_int (if up then \<lceil>dval x * 1000\<rceil> else \<lfloor>dval x * 1000\<rfloor>)
      \<and> dec_fits (a + 4) 0 (dec_to_integral up q)" for up
    using dec_to_integral_fits [OF q(3), of up, unfolded four q(2)] .
  have tick: "\<exists>z. bindR (dec_div x protection_tick) (\<lambda>q. dec_mul (dec_to_integral up q) protection_tick) = Inr z
      \<and> dval z = of_int (if up then \<lceil>dval x * 1000\<rceil> else \<lfloor>dval x * 1000\<rfloor>) / 1000 \<and> dec_fits (a + 4) 3 z" for up
    using dec_mul_fits [OF conjunct2 [OF int [of up]] fits_tick(1)] int [of up] fits_tick(2) q(1) assms(2) by auto
  show "\<exists>z. round_down x protection_tick = Inr z \<and> dval z = tick_down (dval x) \<and> dec_fits (a + 4) 3 z"
    using tick [of False] by (auto simp: round_down_def tick_down_def)
  show "\<exists>z. round_up x protection_tick = Inr z \<and> dval z = tick_up (dval x) \<and> dec_fits (a + 4) 3 z"
    using tick [of True] by (auto simp: round_up_def tick_up_def)
qed

lemma protection_prices_fit:
  assumes "dec_fits 4 12 fill" "dec_fits 6 16 rw" "dec_fits 6 16 reward"
  shows "\<exists>stop take_profit. protection_prices side fill rw reward = Inr (stop, take_profit)
    \<and> dec_fits 11 3 stop \<and> dec_fits 11 3 take_profit
    \<and> dval stop = (if side = BUY then tick_down (dval fill - dval rw) else tick_up (dval fill + dval rw))
    \<and> dval take_profit = (if side = BUY then tick_up (dval fill + dval reward) else tick_down (dval fill - dval reward))"
proof -
  have fill: "dec_fits 6 16 fill" using assms(1) by (rule fits_mono) simp_all
  have down: "\<exists>z. bindR (dec_sub fill w) (\<lambda>x. round_down x protection_tick) = Inr z
      \<and> dval z = tick_down (dval fill - dval w) \<and> dec_fits 11 3 z" if "dec_fits 6 16 w" for w
    using dec_sub_fits [OF fill that] round_tick_fits(1) [of 7 16] by fastforce
  have up: "\<exists>z. bindR (dec_add fill w) (\<lambda>x. round_up x protection_tick) = Inr z
      \<and> dval z = tick_up (dval fill + dval w) \<and> dec_fits 11 3 z" if "dec_fits 6 16 w" for w
    using dec_add_fits [OF fill that] round_tick_fits(2) [of 7 16] by fastforce
  show ?thesis
  proof (cases "side = BUY")
    case True
    then show ?thesis using down [OF assms(2)] up [OF assms(3)] by (auto simp: protection_prices_def)
  next
    case False
    then show ?thesis using up [OF assms(2)] down [OF assms(3)] by (auto simp: protection_prices_def)
  qed
qed

lemma dec_minR_fits:
  "dec_fits a k x \<Longrightarrow> dec_fits a k y \<Longrightarrow> \<exists>z. dec_minR x y = Inr z \<and> dval z = min (dval x) (dval y) \<and> dec_fits a k z"
  by (auto simp: dec_minR_def dec_leR_fits min_def)

lemma nonpositive_fits: "dec_fits a k x \<Longrightarrow> dec_nonpositiveR x = Inr (dval x \<le> 0)"
  using dec_leR_fits(1) [of a k x a k dec_zero] by (simp add: dec_nonpositiveR_def fits_zero)

section \<open>The plan and its levels\<close>

definition protection_levels :: "signal_decision \<Rightarrow> rat \<Rightarrow> rat \<Rightarrow> rat \<times> rat" where
  "protection_levels side fill atr = (if side = BUY then (tick_down (fill - 3 / 2 * atr), tick_up (fill + 9 / 4 * atr))
     else (tick_up (fill + 3 / 2 * atr), tick_down (fill - 9 / 4 * atr)))"

lemma protection_plan_levels:
  assumes "dec_fits 4 12 fill" and "dec_fits 4 12 atr" and "(stop, target) = protection_levels side (dval fill) (dval atr)"
  shows "((\<exists>p. build_exact_fill_oco_plan_no_post side fill atr filled_size = Inr p) \<longleftrightarrow>
      side \<noteq> STAY \<and> 0 < dval fill \<and> 0 < dval atr \<and> (\<exists>n. as_int filled_size = Some n \<and> 0 < n \<and> n \<le> 1000)
      \<and> 0 < stop \<and> 0 < target)
    \<and> (\<forall>p. build_exact_fill_oco_plan_no_post side fill atr filled_size = Inr p \<longrightarrow>
      dval (pp_stop_loss_price p) = stop \<and> dval (pp_take_profit_price p) = target
      \<and> (if side = BUY then stop < dval fill \<and> dval fill < target else target < dval fill \<and> dval fill < stop)
      \<and> pp_position_side p = side \<and> pp_settlement_side p \<notin> {side, STAY} \<and> as_int filled_size = Some (pp_exact_filled_size p))"
proof -
  obtain rw where rw: "dec_mul atr protection_multiple = Inr rw" "dval rw = 3 / 2 * dval atr" "dec_fits 5 14 rw"
    using dec_mul_fits [OF assms(2) fits_multiple(1)] fits_multiple(2) by auto
  obtain reward where reward: "dec_mul rw protection_multiple = Inr reward" "dval reward = 9 / 4 * dval atr" "dec_fits 6 16 reward"
    using dec_mul_fits [OF rw(3) fits_multiple(1)] fits_multiple(2) rw(2) by auto
  have "dec_fits 6 16 rw" using rw(3) by (rule fits_mono) simp_all
  then obtain s t where prices: "protection_prices side fill rw reward = Inr (s, t)" "dec_fits 11 3 s" "dec_fits 11 3 t"
    and vals: "(dval s, dval t) = (stop, target)"
    using protection_prices_fit [OF assms(1) _ reward(3), of rw side, unfolded rw(2) reward(2)] assms(3)
    by (cases "side = BUY") (auto simp: protection_levels_def)
  obtain least where least: "dec_minR s t = Inr least" "dval least = min stop target" "dec_fits 11 3 least"
    using dec_minR_fits [OF prices(2,3)] vals by auto
  note run = build_exact_fill_oco_plan_no_post_def V4GmoExactProtectionPlan_def nonpositive_fits [OF assms(1)]
    nonpositive_fits [OF assms(2)] nonpositive_fits [OF prices(2)] nonpositive_fits [OF prices(3)]
    nonpositive_fits [OF least(3)] rw(1) reward(1) prices(1) least(1,2) guardR_def
  have two: "side \<in> {BUY, SELL} \<longleftrightarrow> side \<noteq> STAY" by (cases side) auto
  have opposite: "side \<noteq> STAY \<Longrightarrow> settlement_side_of side \<notin> {side, STAY}" by (cases side) (auto simp: settlement_side_of_def)
  have exists: "(\<exists>p. build_exact_fill_oco_plan_no_post side fill atr filled_size = Inr p) \<longleftrightarrow>
      side \<noteq> STAY \<and> 0 < dval fill \<and> 0 < dval atr \<and> (\<exists>n. as_int filled_size = Some n \<and> 0 < n \<and> n \<le> 1000)
      \<and> 0 < stop \<and> 0 < target"
    using vals two by (auto simp: run split: option.splits)
  have order: "if side = BUY then stop < dval fill \<and> dval fill < target else target < dval fill \<and> dval fill < stop"
    if "0 < dval atr"
    using that assms(3) tick_bounds(1) [of "dval fill - 3 / 2 * dval atr"] tick_bounds(3) [of "dval fill + 9 / 4 * dval atr"]
      tick_bounds(3) [of "dval fill + 3 / 2 * dval atr"] tick_bounds(1) [of "dval fill - 9 / 4 * dval atr"]
    by (simp add: protection_levels_def split: if_splits)
  have plan: "0 < dval atr \<and> dval (pp_stop_loss_price p) = stop \<and> dval (pp_take_profit_price p) = target
      \<and> pp_position_side p = side \<and> pp_settlement_side p \<notin> {side, STAY} \<and> as_int filled_size = Some (pp_exact_filled_size p)"
    if "build_exact_fill_oco_plan_no_post side fill atr filled_size = Inr p" for p
    using that vals opposite two by (auto simp: run split: if_splits option.splits)
  show ?thesis using exists order plan by blast
qed

section \<open>Property\<close>

text \<open>
  C35. For prices below ten thousand with at most twelve decimals the protection is exact: the plan
  exists precisely for a direction, positive fill and ATR, a size from 1 to 1000 and a stop and a
  target that stay positive; the stop is one and a half ATR from the fill and the target one and a
  half times as far, each rounded to the next tick on the side the code chose, so the fill lies
  strictly between them and the position closes on the opposite side with exactly its size.
\<close>

theorem protection_brackets_fill:
  assumes "dec_fits 4 12 fill" and "dec_fits 4 12 atr" and "(stop, target) = protection_levels side (dval fill) (dval atr)"
  shows "((\<exists>p. build_exact_fill_oco_plan_no_post side fill atr filled_size = Inr p) \<longleftrightarrow>
      side \<noteq> STAY \<and> 0 < dval fill \<and> 0 < dval atr \<and> (\<exists>n. as_int filled_size = Some n \<and> 0 < n \<and> n \<le> 1000)
      \<and> 0 < stop \<and> 0 < target)
    \<and> (\<forall>p. build_exact_fill_oco_plan_no_post side fill atr filled_size = Inr p \<longrightarrow>
      dval (pp_stop_loss_price p) = stop \<and> dval (pp_take_profit_price p) = target
      \<and> (if side = BUY then stop < dval fill \<and> dval fill < target else target < dval fill \<and> dval fill < stop)
      \<and> pp_position_side p = side \<and> pp_settlement_side p \<notin> {side, STAY} \<and> as_int filled_size = Some (pp_exact_filled_size p))"
  using protection_plan_levels [OF assms] .

lemma protection_brackets_fill_witness:
  "\<exists>p. build_exact_fill_oco_plan_no_post BUY (DFin False 150123 (- 3)) (DFin False 8 (- 2)) (PyInt 1000) = Inr p
    \<and> dval (pp_stop_loss_price p) = 150003 / 1000 \<and> dval (pp_take_profit_price p) = 150303 / 1000"
proof -
  let ?fill = "DFin False 150123 (- 3)" and ?atr = "DFin False 8 (- 2)"
  have vals: "dval ?fill = 150123 / 1000" "dval ?atr = 8 / 100"
    by (simp_all add: dval_def signed_coeff_def pow10_def)
  have fits: "dec_fits 4 12 ?fill" "dec_fits 4 12 ?atr" by (simp_all add: dec_fits_def vals)
  have levels: "(150003 / 1000, 150303 / 1000) = protection_levels BUY (dval ?fill) (dval ?atr)"
    by (simp add: protection_levels_def vals tick_down_def tick_up_def)
  show ?thesis
    using protection_brackets_fill [OF fits levels, of "PyInt 1000"] by (auto simp: vals)
qed

text \<open>An infinite fill price is not refused: both prices of the plan are then infinite.\<close>

lemma protection_of_infinite_fill:
  "\<exists>p. build_exact_fill_oco_plan_no_post BUY (DInf False) (DFin False 8 (- 2)) (PyInt 1000) = Inr p
    \<and> pp_stop_loss_price p = DInf False \<and> pp_take_profit_price p = DInf False"
proof -
  have "dec_mul (DFin False 8 (- 2)) protection_multiple = Inr (DFin False 1200 (- 4))"
    "dec_mul (DFin False 1200 (- 4)) protection_multiple = Inr (DFin False 180000 (- 6))"
    by (simp_all add: protection_multiple_def dec_fix_exact dec_etiny_def dec_etop_def)
  then show ?thesis
    by (simp add: build_exact_fill_oco_plan_no_post_def dec_nonpositiveR_def dec_leR_def dec_zero_def guardR_def
        protection_prices_def dec_sub_def round_down_def round_up_def protection_tick_def dec_to_integral_def dec_minR_def
        dec_ltR_def V4GmoExactProtectionPlan_def settlement_side_of_def scaled_def signed_coeff_def)
qed

end
