(* ===== verification/Py_Numbers.thy ===== *)
theory Py_Numbers
  imports Py_Decimal_Arith Py_Json "HOL-Library.Log_Nat"
begin

text \<open>
  Numbers that are read from texts and clocks: \<open>Decimal(text)\<close> after \<open>_pydecimal.py\<close>, and the
  finite values of Python's \<open>float\<close> with the rounding of their sums and differences.
\<close>

section \<open>\<open>Decimal(text)\<close>\<close>

definition py_lower :: "char \<Rightarrow> char" where
  "py_lower c = (let n = (of_char c :: nat) in if 65 \<le> n \<and> n \<le> 90 then char_of (n + 32) else c)"

definition split_sign :: "string \<Rightarrow> bool \<times> string" where
  "split_sign s = (case s of c # r \<Rightarrow> if c = CHR ''-'' then (True, r) else if c = CHR ''+'' then (False, r) else (False, s)
     | [] \<Rightarrow> (False, []))"

text \<open>The exponent part, \<open>(E[-+]?\d+)?\<close> up to the end of the text, in lower case.\<close>

definition dec_exponent :: "string \<Rightarrow> int option" where
  "dec_exponent s = (case s of
     [] \<Rightarrow> Some 0
   | c # r \<Rightarrow> if c \<noteq> CHR ''e'' then None
             else (case split_sign r of (neg, ds) \<Rightarrow>
               if ds = [] \<or> \<not> list_all is_digit ds then None
               else Some (if neg then - int (digits_value ds) else int (digits_value ds))))"

text \<open>
  \<open>None\<close> is \<open>InvalidOperation\<close>.  A signalling NaN is not modelled and refused, and the exponent is
  not bounded.
\<close>

definition dec_of_string :: "string \<Rightarrow> decimal option" where
  "dec_of_string text =
    (let s = map py_lower (filter (\<lambda>c. c \<noteq> CHR ''_'') (py_strip text));
         (neg, body) = split_sign s;
         whole = takeWhile is_digit body; rest = dropWhile is_digit body;
         (frac, tail) = (case rest of c # r \<Rightarrow> if c = CHR ''.'' then (takeWhile is_digit r, dropWhile is_digit r)
                                             else ([], rest)
                         | [] \<Rightarrow> ([], []))
     in if body = ''inf'' \<or> body = ''infinity'' then Some (DInf neg)
        else if py_startswith body ''nan'' \<and> list_all is_digit (drop 3 body) then Some DNaN
        else if whole = [] \<and> frac = [] then None
        else map_option (\<lambda>e. DFin neg (digits_value (whole @ frac)) (e - int (length frac))) (dec_exponent tail))"

section \<open>\<open>float\<close>\<close>

text \<open>A finite float is its value; \<open>None\<close> stands for an infinity or a NaN.\<close>

type_synonym py_float = rat

definition pow2 :: "int \<Rightarrow> rat" where
  "pow2 e = (if 0 \<le> e then 2 ^ nat e else 1 / 2 ^ nat (- e))"

text \<open>The exponent of the leading bit of a positive number.\<close>

definition leading_bit :: "rat \<Rightarrow> int" where
  "leading_bit x = (case quotient_of x of (p, q) \<Rightarrow>
     let k = int (floorlog 2 (nat p)) - int (floorlog 2 (nat q)) in if pow2 k \<le> x then k else k - 1)"

text \<open>To the nearest of the 53-bit numbers, ties to even, gradually below the normal range.\<close>

definition float_round :: "rat \<Rightarrow> py_float" where
  "float_round x = (if x = 0 then 0 else
     let e = max (- 1074) (leading_bit \<bar>x\<bar> - 52); y = x / pow2 e; n = \<lfloor>y\<rfloor>; d = y - of_int n;
         m = (if d < 1 / 2 \<or> (d = 1 / 2 \<and> even n) then n else n + 1)
     in of_int m * pow2 e)"

definition float_sub :: "py_float \<Rightarrow> py_float \<Rightarrow> py_float" where
  "float_sub x y = float_round (x - y)"

definition float_add :: "py_float \<Rightarrow> py_float \<Rightarrow> py_float" where
  "float_add x y = float_round (x + y)"

end
