(* ===== verification/V4_Coordinator.thy ===== *)
theory V4_Coordinator
  imports V4_Cycle V4_Protection Py_Numbers Py_Iso
begin

text \<open>
  \<open>backend/app/h11_auto/v4_gmo_actual_coordinator.py\<close>, first part: the exact-once ledger of the
  coordinator, its opening and binding, the planned loss of a frozen signal and the reservation of
  a cycle.

  The three SQLite tables are row lists in insertion order with their constraints; foreign keys
  are not enforced by the connection the code opens.  Timestamp and price columns hold the texts
  the code writes.  A monotonic clock reading is \<open>None\<close> when it is not a finite float, and the
  texts of timestamp columns carry an offset (the code only writes \<open>isoformat\<close> of instants in
  UTC), so a text without one counts as unreadable.  Symbolic links, file locks and disk errors
  are not modelled, nor the sizes of texts.
\<close>

section \<open>Rows and tables\<close>

record coord_cycle =
  k_ref :: string
  k_fingerprint :: string
  k_day :: string
  k_side :: signal_decision
  k_requested_size :: int
  k_atr :: string
  k_atr_digest :: string
  k_probability :: string
  k_planned_loss :: int
  k_valid_until :: string
  k_bid :: "string option"
  k_ask :: "string option"
  k_fill_price :: "string option"
  k_spread_pips :: "string option"
  k_slippage_pips :: "string option"
  k_pnl :: "int option"
  k_net_pips :: "string option"
  k_won :: "int option"
  k_plan_digest :: "string option"
  k_plan_json :: "string option"
  k_confirmed_at :: "string option"
  k_settlement_size :: "int option"
  k_attempted_at :: "string option"
  k_attempted_monotonic :: "py_float option"
  k_preflight_json :: "string option"
  k_preflight_digest :: "string option"
  k_preflight_at :: "string option"
  k_preflight_monotonic :: "py_float option"
  k_created_at :: string

record coord_attempt =
  q_ref :: string
  q_action :: v4_action
  q_attempted_at :: string
  q_plan_digest :: string
  q_reconciliation :: "string option"

record coord_db =
  kd_metadata :: "(string \<times> string) list"
  kd_cycles :: "coord_cycle list"
  kd_attempts :: "coord_attempt list"

definition coord_empty_db :: coord_db where
  "coord_empty_db = \<lparr>kd_metadata = [], kd_cycles = [], kd_attempts = []\<rparr>"

definition V4_GMO_ACTUAL_COORDINATOR_SCHEMA :: string where
  "V4_GMO_ACTUAL_COORDINATOR_SCHEMA = ''H11_V4_GMO_ACTUAL_COORDINATOR_PRECANARY_V4''"

definition coord_error :: "string \<Rightarrow> py_exn" where
  "coord_error message = V4GmoActualCoordinatorError message"

section \<open>SQL statements\<close>

text \<open>\<open>SELECT value FROM metadata WHERE key = ?\<close>\<close>

definition meta_at :: "string \<Rightarrow> coord_db \<Rightarrow> string option" where
  "meta_at key db = map_of (kd_metadata db) key"

definition insert_meta :: "(string \<times> string) list \<Rightarrow> (coord_db, unit) prog" where
  "insert_meta kvs = (\<lambda>db.
     if distinct (map fst kvs) \<and> (\<forall>kv \<in> set kvs. meta_at (fst kv) db = None)
     then (Inr (), db\<lparr>kd_metadata := kd_metadata db @ kvs\<rparr>)
     else (Inl SqliteIntegrityError, db))"

text \<open>\<open>INSERT ... ON CONFLICT(key) DO UPDATE SET value = ...\<close> and \<open>DELETE\<close>\<close>

definition upsert_meta :: "string \<Rightarrow> string \<Rightarrow> (coord_db, unit) prog" where
  "upsert_meta k v = modifyE (\<lambda>db. db\<lparr>kd_metadata := AList.update k v (kd_metadata db)\<rparr>)"

definition delete_meta :: "string \<Rightarrow> (coord_db, unit) prog" where
  "delete_meta k = modifyE (\<lambda>db. db\<lparr>kd_metadata := filter (\<lambda>kv. fst kv \<noteq> k) (kd_metadata db)\<rparr>)"

definition coord_find :: "string \<Rightarrow> coord_db \<Rightarrow> coord_cycle option" where
  "coord_find ref db = select_one (\<lambda>c. k_ref c = ref) (kd_cycles db)"

definition coord_find_signal :: "string \<Rightarrow> coord_db \<Rightarrow> coord_cycle option" where
  "coord_find_signal fingerprint db = select_one (\<lambda>c. k_fingerprint c = fingerprint) (kd_cycles db)"

definition coord_find_attempt :: "string \<Rightarrow> v4_action \<Rightarrow> coord_db \<Rightarrow> coord_attempt option" where
  "coord_find_attempt ref action db =
     select_one (\<lambda>q. q_ref q = ref \<and> q_action q = action) (kd_attempts db)"

definition coord_insert_cycle :: "coord_cycle \<Rightarrow> (coord_db, unit) prog" where
  "coord_insert_cycle c = (\<lambda>db.
     if list_ex (\<lambda>r. k_ref r = k_ref c \<or> k_fingerprint r = k_fingerprint c) (kd_cycles db)
        \<or> k_side c \<notin> {BUY, SELL}
     then (Inl SqliteIntegrityError, db)
     else (Inr (), db\<lparr>kd_cycles := kd_cycles db @ [c]\<rparr>))"

definition coord_insert_attempt :: "coord_attempt \<Rightarrow> (coord_db, unit) prog" where
  "coord_insert_attempt q = (\<lambda>db.
     if list_ex (\<lambda>r. q_ref r = q_ref q \<and> q_action r = q_action q) (kd_attempts db)
     then (Inl SqliteIntegrityError, db)
     else (Inr (), db\<lparr>kd_attempts := kd_attempts db @ [q]\<rparr>))"

text \<open>\<open>UPDATE cycles SET ... WHERE p\<close> with its row count.\<close>

definition coord_update_cycles :: "(coord_cycle \<Rightarrow> bool) \<Rightarrow> (coord_cycle \<Rightarrow> coord_cycle) \<Rightarrow> (coord_db, nat) prog" where
  "coord_update_cycles p f = bindE (getE (\<lambda>db. count_rows p (kd_cycles db))) (\<lambda>rowcount.
     thenE (modifyE (\<lambda>db. db\<lparr>kd_cycles := update_rows p f (kd_cycles db)\<rparr>)) (returnE rowcount))"

text \<open>An integer that SQLite can store.\<close>

definition sqlite_integer :: "int \<Rightarrow> bool" where
  "sqlite_integer n \<longleftrightarrow> - (2 ^ 63) \<le> n \<and> n < 2 ^ 63"

definition unresolved_cycles :: "coord_db \<Rightarrow> coord_cycle list" where
  "unresolved_cycles db = filter (\<lambda>c. k_pnl c = None) (kd_cycles db)"

text \<open>\<open>SELECT ... ORDER BY created_at_utc DESC LIMIT 1\<close>: the first inserted of the latest rows.\<close>

definition latest_cycle :: "coord_db \<Rightarrow> coord_cycle option" where
  "latest_cycle db = select_one (\<lambda>c. list_all (\<lambda>d. k_created_at d \<le> k_created_at c) (kd_cycles db)) (kd_cycles db)"

definition coord_halted :: "coord_db \<Rightarrow> bool" where
  "coord_halted db \<longleftrightarrow> meta_at ''unknown_halt_latched'' db = Some ''true''"

section \<open>Digests, clocks and timestamps\<close>

definition coord_timestamp :: "datetime \<Rightarrow> string result" where
  "coord_timestamp d = (if \<not> dt_aware d then Inl (coord_error ''v4 coordinator time must be timezone-aware'')
     else Inr (dt_isoformat (to_utc d)))"

text \<open>\<open>datetime.fromisoformat(text).astimezone(UTC)\<close>\<close>

definition coord_read_timestamp :: "string \<Rightarrow> datetime result" where
  "coord_read_timestamp t = (case dt_fromisoformat t of
     None \<Rightarrow> Inl (PyValueError ''Invalid isoformat string'')
   | Some d \<Rightarrow> if dt_aware d then Inr (to_utc d) else Inl (PyValueError ''Invalid isoformat string''))"

definition require_monotonic :: "py_float option \<Rightarrow> py_float result" where
  "require_monotonic m = (case m of
     None \<Rightarrow> Inl (coord_error ''v4 monotonic time is invalid'')
   | Some x \<Rightarrow> if x < 0 then Inl (coord_error ''v4 monotonic time is invalid'') else Inr x)"

definition valid_digest :: "string \<Rightarrow> bool" where
  "valid_digest s \<longleftrightarrow> py_startswith s ''sha256:'' \<and> length (drop 7 s) = 64 \<and> list_all (\<lambda>c. c \<in> set hex_chars) (drop 7 s)"

text \<open>\<open>_valid_reconciliation_digest\<close>, on a value of a JSON object and on a text.\<close>

definition valid_reconciliation_digest :: "string \<Rightarrow> bool" where
  "valid_reconciliation_digest s \<longleftrightarrow>
     py_startswith s ''sha256:'' \<and> length s = 71 \<and> list_all (\<lambda>c. c \<in> set hex_chars) (drop 7 s)"

definition json_digest_ok :: "json option \<Rightarrow> bool" where
  "json_digest_ok v = (case v of Some (JStr s) \<Rightarrow> valid_reconciliation_digest s | _ \<Rightarrow> False)"

text \<open>A JSON value compared with an integer: \<open>True\<close> is 1, and a float is its rounded value.\<close>

definition json_equals_int :: "json option \<Rightarrow> int \<Rightarrow> bool" where
  "json_equals_int v n = (case v of
     Some (JInt i) \<Rightarrow> i = n
   | Some (JBool b) \<Rightarrow> (if b then 1 else 0) = n
   | Some (JFloat t) \<Rightarrow> (case dec_of_string t of
        Some (DFin s c e) \<Rightarrow> float_round (dval (DFin s c e)) = of_int n
      | _ \<Rightarrow> False)
   | _ \<Rightarrow> False)"

definition coord_cycle_ref :: "string \<Rightarrow> string \<Rightarrow> string" where
  "coord_cycle_ref generation_digest fingerprint = sha256_hex (generation_digest @ '':'' @ fingerprint)"

definition atr_digest :: "string \<Rightarrow> string \<Rightarrow> string" where
  "atr_digest fingerprint canonical_atr = ''sha256:'' @ sha256_hex (json_dumps (JObj [
     (''atr_24'', JStr canonical_atr), (''signal_fingerprint'', JStr fingerprint)]))"

text \<open>\<open>format(value.normalize(), "f")\<close>\<close>

definition canonical_decimal :: "decimal \<Rightarrow> string result" where
  "canonical_decimal x = bindR (dec_normalize x) (\<lambda>y. Inr (dec_format_f y))"

section \<open>Opening the ledger\<close>

definition coord_initialize :: "bool \<Rightarrow> (coord_db, unit) prog" where
  "coord_initialize latch_pending_restart_halt = transactionE (
     bindE (getE (meta_at ''schema_version'')) (\<lambda>row.
     thenE (case row of
         None \<Rightarrow> insert_meta [(''schema_version'', V4_GMO_ACTUAL_COORDINATOR_SCHEMA), (''actual_post_allowed'', ''false'')]
       | Some v \<Rightarrow> guardE (v = V4_GMO_ACTUAL_COORDINATOR_SCHEMA) (coord_error ''v4 coordinator schema mismatch''))
     (bindE (getE (meta_at ''pending_transport_attempt'')) (\<lambda>pending.
      if pending \<noteq> None \<and> latch_pending_restart_halt
      then upsert_meta ''unknown_halt_latched'' ''true'' else returnE ()))))"

section \<open>Attempts of a trading day\<close>

definition baseline_key :: "string \<Rightarrow> string" where
  "baseline_key day = ''inherited_market_attempt_baseline:'' @ day"

text \<open>The checked baseline of a day, 0 when there is none.\<close>

definition inherited_baseline :: "string \<Rightarrow> coord_db \<Rightarrow> int result" where
  "inherited_baseline day db = (case meta_at (baseline_key day) db of
     None \<Rightarrow> Inr 0
   | Some text \<Rightarrow> (case json_loads text of
       Some (JObj payload) \<Rightarrow>
         (case (meta_at ''generation_digest'' db, map_of payload ''attempt_count'') of
           (Some generation, Some (JInt n)) \<Rightarrow>
             if map_of payload ''trading_day_jst'' = Some (JStr day)
                \<and> map_of payload ''target_generation_digest'' = Some (JStr generation) \<and> 0 \<le> n
             then Inr n else Inl (coord_error ''v4 inherited attempt baseline is invalid'')
         | _ \<Rightarrow> Inl (coord_error ''v4 inherited attempt baseline is invalid''))
     | _ \<Rightarrow> Inl (coord_error ''v4 inherited attempt baseline is invalid'')))"

text \<open>The rows of \<open>attempts JOIN cycles USING(cycle_ref)\<close> with a MARKET attempt on the day.\<close>

definition market_attempts_on_day :: "string \<Rightarrow> coord_db \<Rightarrow> nat" where
  "market_attempts_on_day day db = sum_list (map (\<lambda>q.
     if q_action q = MARKET_ENTRY then count_rows (\<lambda>c. k_ref c = q_ref q \<and> k_day c = day) (kd_cycles db) else 0)
     (kd_attempts db))"

definition market_attempt_count_for_day :: "string \<Rightarrow> (coord_db, int) prog" where
  "market_attempt_count_for_day day =
     thenE (guardE (length day = 10) (coord_error ''v4 trading day is invalid''))
     (bindE (getE (market_attempts_on_day day)) (\<lambda>n.
      bindE (getE (inherited_baseline day)) (\<lambda>r.
      bindE (liftE r) (\<lambda>baseline. returnE (baseline + int n)))))"

text \<open>
  \<open>datetime.strptime(text, "%Y-%m-%d").date().isoformat() == text\<close>: the texts that \<open>isoformat\<close>
  of a date writes.
\<close>

definition is_isoformat_day :: "string \<Rightarrow> bool" where
  "is_isoformat_day day = (case date_fromisoformat day of None \<Rightarrow> False | Some n \<Rightarrow> ordinal_isoformat n = day)"

definition baseline_payload :: "string \<Rightarrow> string \<Rightarrow> string \<Rightarrow> int \<Rightarrow> string" where
  "baseline_payload source target day n = json_dumps (JObj [
     (''attempt_count'', JInt n),
     (''source_generation_digest'', JStr source),
     (''target_generation_digest'', JStr target),
     (''trading_day_jst'', JStr day)])"

definition initialize_inherited_market_attempt_baseline_once ::
    "string \<Rightarrow> string \<Rightarrow> string \<Rightarrow> pyval \<Rightarrow> (coord_db, unit) prog" where
  "initialize_inherited_market_attempt_baseline_once source target day attempt_count =
     (case as_int attempt_count of
       None \<Rightarrow> raiseE (coord_error ''v4 inherited attempt baseline is invalid'')
     | Some n \<Rightarrow>
       thenE (guardE (is_isoformat_day day \<and> list_all (\<lambda>d. length d = 71 \<and> py_startswith d ''sha256:'') [source, target] \<and> 0 \<le> n)
         (coord_error ''v4 inherited attempt baseline is invalid''))
       (transactionE (
         bindE (getE (meta_at ''generation_digest'')) (\<lambda>generation.
         bindE (getE (meta_at (baseline_key day))) (\<lambda>existing.
         bindE (getE (\<lambda>db. kd_cycles db \<noteq> [])) (\<lambda>local_activity.
         thenE (guardE (generation = Some target) (coord_error ''v4 inherited attempt baseline is invalid''))
         (case existing of
            Some text \<Rightarrow> guardE (text = baseline_payload source target day n) (coord_error ''v4 inherited attempt baseline mismatch'')
          | None \<Rightarrow> thenE (guardE (\<not> local_activity) (coord_error ''v4 inherited attempt baseline is invalid''))
              (insert_meta [(baseline_key day, baseline_payload source target day n)]))))))))"

section \<open>The bound generation\<close>

text \<open>The attributes of \<open>V4GmoFrozenGeneration\<close> the coordinator reads.\<close>

record coord_generation =
  gen_digest :: string
  gen_canonical_json :: string
  gen_implementation_digest :: string
  gen_operator_selection_digest :: string
  gen_policy_config_hash :: string
  gen_risk_policy_digest :: string
  gen_dead_man_policy_digest :: string
  gen_entry_disabled :: bool
  gen_adverse_slippage_allowance_pips :: string

definition generation_rows :: "coord_generation \<Rightarrow> (string \<times> string) list" where
  "generation_rows g = [
     (''generation_digest'', gen_digest g),
     (''generation_manifest'', gen_canonical_json g),
     (''implementation_digest'', gen_implementation_digest g),
     (''operator_selection_digest'', gen_operator_selection_digest g),
     (''policy_config_hash'', gen_policy_config_hash g),
     (''risk_policy_digest'', gen_risk_policy_digest g),
     (''dead_man_policy_digest'', gen_dead_man_policy_digest g)]"

text \<open>\<open>dict(existing) != values\<close>: both are dictionaries whose keys are among the seven.\<close>

definition coord_bind_generation :: "coord_generation \<Rightarrow> (coord_db, unit) prog" where
  "coord_bind_generation g = transactionE (
     let rows = generation_rows g
     in bindE (getE (\<lambda>db. map (\<lambda>k. meta_at k db) (map fst rows))) (\<lambda>existing.
        if list_all (\<lambda>v. v = None) existing then insert_meta rows
        else guardE (existing = map (\<lambda>kv. Some (snd kv)) rows) (coord_error ''v4 generation binding mismatch'')))"

definition unknown_halt_latched :: "(coord_db, bool) prog" where
  "unknown_halt_latched = getE coord_halted"

section \<open>The planned loss\<close>

record frozen_signal_risk =
  fr_fingerprint :: string
  fr_atr :: string
  fr_atr_digest :: string
  fr_slippage_pips :: string
  fr_planned_loss :: int

text \<open>\<open>len(fp) != 64 or atr <= 0 or quantity != 1000 or slippage < 0\<close>, evaluated left to right.\<close>

definition frozen_risk_input_bad :: "string \<Rightarrow> decimal \<Rightarrow> int \<Rightarrow> decimal \<Rightarrow> bool result" where
  "frozen_risk_input_bad fingerprint atr quantity slippage =
     (if length fingerprint \<noteq> 64 then Inr True
      else bindR (dec_leR atr dec_zero) (\<lambda>nonpositive.
        if nonpositive \<or> quantity \<noteq> 1000 then Inr True else dec_ltR slippage dec_zero))"

definition planned_loss_decimal :: "decimal \<Rightarrow> int \<Rightarrow> decimal \<Rightarrow> decimal result" where
  "planned_loss_decimal atr quantity slippage =
     bindR (bindR (dec_mul atr (dec_lit 15 (- 1))) (\<lambda>w. dec_div w (dec_lit 1 (- 2)))) (\<lambda>stop_width_pips.
     bindR (dec_mul (dec_of_int quantity) (dec_lit 1 (- 2))) (\<lambda>yen_per_pip.
     bindR (bindR (dec_add stop_width_pips (dec_lit 1 (- 1))) (\<lambda>x. dec_add x slippage)) (\<lambda>pips.
     dec_mul pips yen_per_pip)))"

definition calculate_v4_planned_loss :: "string \<Rightarrow> decimal \<Rightarrow> int \<Rightarrow> decimal \<Rightarrow> frozen_signal_risk result" where
  "calculate_v4_planned_loss fingerprint atr quantity slippage =
     bindR (frozen_risk_input_bad fingerprint atr quantity slippage) (\<lambda>bad.
     bindR (guardR (\<not> bad) (coord_error ''v4 frozen risk input is invalid'')) (\<lambda>_.
     bindR (canonical_decimal atr) (\<lambda>canonical_atr.
     bindR (planned_loss_decimal atr quantity slippage) (\<lambda>planned.
     bindR (dec_to_int (dec_ceiling planned)) (\<lambda>planned_int.
     bindR (canonical_decimal slippage) (\<lambda>canonical_slippage.
     Inr \<lparr>fr_fingerprint = fingerprint, fr_atr = canonical_atr, fr_atr_digest = atr_digest fingerprint canonical_atr,
          fr_slippage_pips = canonical_slippage, fr_planned_loss = planned_int\<rparr>))))))"

text \<open>\<open>Decimal(text)\<close>\<close>

definition decimal_of_text :: "string \<Rightarrow> decimal result" where
  "decimal_of_text t = (case dec_of_string t of None \<Rightarrow> Inl DecimalInvalidOperation | Some x \<Rightarrow> Inr x)"

definition validate_and_price_entry ::
    "coord_generation \<Rightarrow> formal_signal \<Rightarrow> v4_policy \<Rightarrow> decimal \<Rightarrow> datetime \<Rightarrow> (coord_db, frozen_signal_risk) prog" where
  "validate_and_price_entry g signal policy atr now =
     thenE (coord_bind_generation g)
     (bindE unknown_halt_latched (\<lambda>halted.
      thenE (guardE (\<not> halted) (coord_error ''v4 unknown halt is latched''))
     (thenE (guardE (dt_aware now \<and> \<not> dt_leq (s_valid_until signal) now) (coord_error ''v4 signal time is invalid''))
     (thenE (guardE (v4_accepts policy signal) (coord_error ''v4 signal contract mismatch''))
     (thenE (guardE (v4_config_hash policy = gen_policy_config_hash g) (coord_error ''v4 policy generation mismatch''))
     (thenE (guardE (s_decision signal \<in> {BUY, SELL}) (coord_error ''v4 directional signal required''))
     (bindE (liftE (bindR (decimal_of_text (gen_adverse_slippage_allowance_pips g)) (\<lambda>slippage.
         calculate_v4_planned_loss (signal_fingerprint signal) atr (v_requested_size policy) slippage))) (\<lambda>risk.
      thenE (guardE (fr_planned_loss risk \<le> v_max_loss_per_trade_yen policy)
         (coord_error ''v4 planned loss exceeds operator limit''))
     (returnE risk)))))))))"

definition evaluate_entry_intent ::
    "coord_generation \<Rightarrow> formal_signal \<Rightarrow> v4_policy \<Rightarrow> decimal \<Rightarrow> datetime \<Rightarrow> (coord_db, frozen_signal_risk) prog" where
  "evaluate_entry_intent g signal policy atr now = validate_and_price_entry g signal policy atr now"

section \<open>The external-flat marker\<close>

definition decode_external_flat_marker :: "string option \<Rightarrow> (string \<times> json) list option" where
  "decode_external_flat_marker row = (case row of None \<Rightarrow> None
     | Some text \<Rightarrow> (case json_loads text of Some (JObj payload) \<Rightarrow> Some payload | _ \<Rightarrow> None))"

text \<open>The two times of the marker; a member that is not a text counts as unreadable.\<close>

definition marker_time :: "(string \<times> json) list \<Rightarrow> string \<Rightarrow> datetime result" where
  "marker_time payload key = (case map_of payload key of
     Some (JStr t) \<Rightarrow> coord_read_timestamp t | _ \<Rightarrow> Inl PyTypeError)"

definition sixty_seconds :: int where
  "sixty_seconds = 60 * us_per_second"

definition external_flat_reconciliation_matches ::
    "(string \<times> json) list option \<Rightarrow> string \<Rightarrow> string \<Rightarrow> datetime \<Rightarrow> bool" where
  "external_flat_reconciliation_matches payload ref generation_digest now = (case payload of
     None \<Rightarrow> False
   | Some p \<Rightarrow>
       dt_aware now
       \<and> map_of p ''status'' = Some (JStr ''EXTERNAL_FLAT_RECONCILIATION_NO_POST'')
       \<and> map_of p ''cycle_ref'' = Some (JStr ref)
       \<and> map_of p ''generation_digest'' = Some (JStr generation_digest)
       \<and> map_of p ''account_flat'' = Some (JBool True)
       \<and> map_of p ''active_orders_zero'' = Some (JBool True)
       \<and> map_of p ''broker_write'' = Some (JBool False)
       \<and> json_equals_int (map_of p ''broker_post_count'') 0
       \<and> json_digest_ok (map_of p ''evidence_digest'')
       \<and> json_digest_ok (map_of p ''reviewed_files_digest'')
       \<and> (case (marker_time p ''observed_at_utc'', marker_time p ''valid_until_utc'') of
            (Inr observed, Inr valid_until) \<Rightarrow>
              dt_leq observed (to_utc now) \<and> dt_leq (to_utc now) valid_until
              \<and> dt_utc valid_until - dt_utc observed \<le> sixty_seconds
          | _ \<Rightarrow> False))"

section \<open>Reserving a cycle\<close>

definition coord_new_cycle ::
    "string \<Rightarrow> formal_signal \<Rightarrow> v4_policy \<Rightarrow> frozen_signal_risk \<Rightarrow> string \<Rightarrow> string \<Rightarrow> string \<Rightarrow> string \<Rightarrow> coord_cycle" where
  "coord_new_cycle ref signal policy risk day probability valid_until timestamp = \<lparr>
     k_ref = ref,
     k_fingerprint = signal_fingerprint signal,
     k_day = day,
     k_side = s_decision signal,
     k_requested_size = v_requested_size policy,
     k_atr = fr_atr risk,
     k_atr_digest = fr_atr_digest risk,
     k_probability = probability,
     k_planned_loss = fr_planned_loss risk,
     k_valid_until = valid_until,
     k_bid = None, k_ask = None, k_fill_price = None, k_spread_pips = None, k_slippage_pips = None,
     k_pnl = None, k_net_pips = None, k_won = None,
     k_plan_digest = None, k_plan_json = None, k_confirmed_at = None, k_settlement_size = None,
     k_attempted_at = None, k_attempted_monotonic = None,
     k_preflight_json = None, k_preflight_digest = None, k_preflight_at = None, k_preflight_monotonic = None,
     k_created_at = timestamp\<rparr>"

definition reserve_cycle_db ::
    "string \<Rightarrow> coord_generation \<Rightarrow> formal_signal \<Rightarrow> v4_policy \<Rightarrow> frozen_signal_risk \<Rightarrow> string \<Rightarrow> string \<Rightarrow> datetime
     \<Rightarrow> (coord_db, unit) prog" where
  "reserve_cycle_db ref g signal policy risk day timestamp now = transactionE (
          bindE (getE (meta_at ''external_flat_reconciliation'')) (\<lambda>external_marker.
          bindE (getE unresolved_cycles) (\<lambda>unresolved.
          thenE (guardE (list_all (\<lambda>c. external_flat_reconciliation_matches (decode_external_flat_marker external_marker)
                (k_ref c) (gen_digest g) now) unresolved)
             (coord_error ''v4 canary already has an unresolved cycle''))
          (bindE (liftE (canonical_decimal (s_probability_up signal))) (\<lambda>probability.
           bindE (liftE (coord_timestamp (s_valid_until signal))) (\<lambda>valid_until.
           coord_insert_cycle (coord_new_cycle ref signal policy risk day probability valid_until timestamp)))))))"

definition reserve_entry_cycle ::
    "coord_generation \<Rightarrow> formal_signal \<Rightarrow> v4_policy \<Rightarrow> decimal \<Rightarrow> datetime \<Rightarrow> (coord_db, frozen_signal_risk) prog" where
  "reserve_entry_cycle g signal policy atr now =
     thenE (guardE (\<not> gen_entry_disabled g) (coord_error ''v4 generation is entry disabled''))
     (bindE (validate_and_price_entry g signal policy atr now) (\<lambda>risk.
      let ref = coord_cycle_ref (gen_digest g) (signal_fingerprint signal) in
      bindE (liftE (coord_timestamp now)) (\<lambda>timestamp.
      bindE (liftE (v4_gmo_trading_day_jst now)) (\<lambda>day.
      thenE (catchE (reserve_cycle_db ref g signal policy risk day timestamp now)
        (\<lambda>e. raiseE (if e = SqliteIntegrityError then coord_error ''duplicate v4 entry intent refused'' else e)))
      (returnE risk)))))"

definition prepare_entry_intent ::
    "coord_generation \<Rightarrow> formal_signal \<Rightarrow> v4_policy \<Rightarrow> decimal \<Rightarrow> datetime \<Rightarrow> (coord_db, frozen_signal_risk) prog" where
  "prepare_entry_intent g signal policy atr now = reserve_entry_cycle g signal policy atr now"

text \<open>\<open>DELETE FROM cycles ...\<close>; the answer is whether one row was deleted.\<close>

definition release_unattempted_reservation :: "string \<Rightarrow> (coord_db, bool) prog" where
  "release_unattempted_reservation ref = transactionE (
     bindE (getE coord_halted) (\<lambda>halted.
     if halted then returnE False
     else let doomed = (\<lambda>c. k_ref c = ref \<and> k_attempted_at c = None \<and> k_pnl c = None)
       in bindE (getE (\<lambda>db. count_rows doomed (kd_cycles db))) (\<lambda>rowcount.
          thenE (modifyE (\<lambda>db. db\<lparr>kd_cycles := filter (\<lambda>c. \<not> doomed c) (kd_cycles db)\<rparr>))
          (returnE (rowcount = 1)))))"

end
