(* ===== verification/V4_Coordinator_Attempts.thy ===== *)
theory V4_Coordinator_Attempts
  imports V4_Coordinator
begin

text \<open>
  \<open>backend/app/h11_auto/v4_gmo_persisted_authorization.py\<close> and the part of
  \<open>v4_gmo_actual_coordinator.py\<close> that persists an attempt before any transport: the entry
  preflight, the market, protection and risk-reducing attempts, and the one-use authorizations
  they issue.

  The world is the ledger and the authorization objects of the running processes, each named by
  its position in the list of its class.  A closure that re-reads the ledger is the record of the
  values it captures.  Whether a caller passes the private issuer token is a boolean, and an object
  of another class is a position outside the list.
\<close>

section \<open>Authorization objects\<close>

record entry_authorization =
  ea_ref :: string
  ea_fingerprint :: string
  ea_preflight_digest :: string
  ea_consumed :: bool

record attempt_verifier =
  vf_ref :: string
  vf_action :: v4_action
  vf_plan_digest :: string
  vf_protection_digest :: "string option"
  vf_reconciliation_digest :: "string option"
  vf_generation_digest :: string

record action_authorization =
  aa_plan_digest :: string
  aa_protection_digest :: "string option"
  aa_reconciliation_digest :: "string option"
  aa_deadline :: "py_float option"
  aa_verifier :: attempt_verifier
  aa_consumed :: bool

record transport_authorization =
  ta_ref :: string
  ta_action :: v4_action
  ta_plan_digest :: string
  ta_binding_digest :: string
  ta_consumed :: bool

record coord_world =
  cw_db :: coord_db
  cw_entries :: "entry_authorization list"
  cw_actions :: "action_authorization list"
  cw_transports :: "transport_authorization list"

record prepared_attempt =
  pa_ref :: string
  pa_action :: string
  pa_attempted_at :: string
  pa_authorization :: nat
  pa_transport_called :: bool
  pa_actual_post_count :: int

definition on_ledger_db :: "(coord_db, 'a) prog \<Rightarrow> (coord_world, 'a) prog" where
  "on_ledger_db m = zoomE cw_db (\<lambda>db w. w\<lparr>cw_db := db\<rparr>) m"

definition object_at :: "'o list \<Rightarrow> nat \<Rightarrow> 'o option" where
  "object_at objects i = (if i < length objects then Some (objects ! i) else None)"

text \<open>A new object is appended; its position is the answer.\<close>

definition new_entry_authorization :: "string \<Rightarrow> string \<Rightarrow> string \<Rightarrow> (coord_world, nat) prog" where
  "new_entry_authorization ref fingerprint digest = bindE (getE (\<lambda>w. length (cw_entries w))) (\<lambda>i.
     thenE (modifyE (\<lambda>w. w\<lparr>cw_entries := cw_entries w @ [\<lparr>ea_ref = ref, ea_fingerprint = fingerprint,
        ea_preflight_digest = digest, ea_consumed = False\<rparr>]\<rparr>))
     (returnE i))"

definition consume_entry :: "nat \<Rightarrow> (coord_world, unit) prog" where
  "consume_entry i = modifyE (\<lambda>w. w\<lparr>cw_entries := (cw_entries w)[i := (cw_entries w ! i)\<lparr>ea_consumed := True\<rparr>]\<rparr>)"

definition consume_action :: "nat \<Rightarrow> (coord_world, unit) prog" where
  "consume_action i = modifyE (\<lambda>w. w\<lparr>cw_actions := (cw_actions w)[i := (cw_actions w ! i)\<lparr>aa_consumed := True\<rparr>]\<rparr>)"

definition consume_transport :: "nat \<Rightarrow> (coord_world, unit) prog" where
  "consume_transport i = modifyE (\<lambda>w. w\<lparr>cw_transports := (cw_transports w)[i := (cw_transports w ! i)\<lparr>ta_consumed := True\<rparr>]\<rparr>)"

section \<open>Digests of plans and the pending marker\<close>

definition persisted_plan_json :: "v4_plan \<Rightarrow> json" where
  "persisted_plan_json p = JObj [
     (''action'', JStr (action_value (pl_action p))),
     (''cycle_ref'', JStr (pl_cycle_ref p)),
     (''protection_contract_hash'', case pl_protection_hash p of None \<Rightarrow> JNull | Some h \<Rightarrow> JStr h),
     (''requested_size'', JInt (pl_requested_size p)),
     (''route_safe_label'', JStr (pl_route p)),
     (''side'', JStr (decision_value (pl_side p)))]"

definition persisted_plan_digest :: "v4_plan \<Rightarrow> string" where
  "persisted_plan_digest p = ''sha256:'' @ sha256_hex (json_dumps (persisted_plan_json p))"

definition pending_payload :: "string \<Rightarrow> v4_action \<Rightarrow> string" where
  "pending_payload ref action = json_dumps (JObj [
     (''action'', JStr (action_value action)), (''cycle_ref'', JStr ref)])"

definition mark_transport_pending :: "string \<Rightarrow> v4_action \<Rightarrow> (coord_db, unit) prog" where
  "mark_transport_pending ref action =
     bindE (getE (meta_at ''pending_transport_attempt'')) (\<lambda>existing.
     thenE (guardE (existing = None) (coord_error ''v4 pending transport requires operator review''))
     (insert_meta [(''pending_transport_attempt'', pending_payload ref action)]))"

section \<open>What a recovery allows\<close>

definition recovery_actions :: "string \<Rightarrow> v4_action list" where
  "recovery_actions classification =
     (if classification = ''MARKET_PARTIAL_PENDING'' then [CANCEL_ENTRY_REMAINDER]
      else if classification = ''FILLED_UNPROTECTED''
      then [EXACT_SIZE_OCO_PROTECTION, POSITION_SPECIFIC_EMERGENCY_EXIT, POSITION_SPECIFIC_TIME_EXIT]
      else if classification = ''FILLED_PROTECTION_MISMATCHED''
      then [CANCEL_MISMATCHED_PROTECTION, POSITION_SPECIFIC_EMERGENCY_EXIT]
      else if classification = ''FILLED_PROTECTED'' then [CANCEL_EXACT_PROTECTION_FOR_TIME_EXIT]
      else [])"

text \<open>\<open>str\<close> of a JSON value that is not a text is none of the four labels.\<close>

definition recovery_value_allows_action :: "string \<Rightarrow> string \<Rightarrow> v4_action \<Rightarrow> bool" where
  "recovery_value_allows_action text ref action = (case json_loads text of
     Some (JObj payload) \<Rightarrow> map_of payload ''cycle_ref'' = Some (JStr ref)
       \<and> (case map_of payload ''classification'' of
            Some (JStr classification) \<Rightarrow> action \<in> set (recovery_actions classification)
          | _ \<Rightarrow> False)
   | _ \<Rightarrow> False)"

definition recovery_allows_action :: "string \<Rightarrow> v4_action \<Rightarrow> coord_db \<Rightarrow> bool" where
  "recovery_allows_action ref action db = (case meta_at ''pending_transport_resolution'' db of
     None \<Rightarrow> False | Some text \<Rightarrow> recovery_value_allows_action text ref action)"

section \<open>The verifier of a committed attempt\<close>

text \<open>The function \<open>verify\<close> that \<open>_committed_attempt_verifier\<close> returns.\<close>

definition verify_committed :: "attempt_verifier \<Rightarrow> coord_db \<Rightarrow> bool" where
  "verify_committed v db =
    (let cycle = coord_find (vf_ref v) db in
     case coord_find_attempt (vf_ref v) (vf_action v) db of None \<Rightarrow> False
     | Some row \<Rightarrow>
       if q_plan_digest row \<noteq> vf_plan_digest v
          \<or> q_reconciliation row \<noteq> vf_reconciliation_digest v
          \<or> meta_at ''generation_digest'' db \<noteq> Some (vf_generation_digest v)
          \<or> meta_at ''pending_transport_attempt'' db \<noteq> Some (pending_payload (vf_ref v) (vf_action v))
       then False
       else if coord_halted db \<and> (vf_action v = MARKET_ENTRY \<or> \<not> recovery_allows_action (vf_ref v) (vf_action v) db)
       then False
       else if vf_action v = MARKET_ENTRY \<and> (case cycle of None \<Rightarrow> True | Some c \<Rightarrow> k_preflight_digest c = None)
       then False
       else case (vf_protection_digest v, cycle) of
              (_, None) \<Rightarrow> False
            | (None, Some c) \<Rightarrow> True
            | (Some d, Some c) \<Rightarrow> k_plan_digest c = Some d)"

definition committed_attempt_verifier ::
    "string \<Rightarrow> v4_action \<Rightarrow> string \<Rightarrow> string option \<Rightarrow> string option \<Rightarrow> (coord_db, attempt_verifier) prog" where
  "committed_attempt_verifier ref action plan_digest protection_digest reconciliation_digest =
     bindE (getE (meta_at ''generation_digest'')) (\<lambda>row. case row of
       None \<Rightarrow> raiseE (coord_error ''v4 generation binding is missing'')
     | Some generation \<Rightarrow> returnE \<lparr>vf_ref = ref, vf_action = action, vf_plan_digest = plan_digest,
         vf_protection_digest = protection_digest, vf_reconciliation_digest = reconciliation_digest,
         vf_generation_digest = generation\<rparr>)"

text \<open>\<open>_issue_persisted_action_authorization\<close>\<close>

definition issue_persisted_action_authorization ::
    "v4_plan \<Rightarrow> string option \<Rightarrow> string option \<Rightarrow> py_float option \<Rightarrow> attempt_verifier \<Rightarrow> (coord_world, nat) prog" where
  "issue_persisted_action_authorization plan protection_digest reconciliation_digest deadline verifier =
     bindE (getE (\<lambda>w. length (cw_actions w))) (\<lambda>i.
     thenE (modifyE (\<lambda>w. w\<lparr>cw_actions := cw_actions w @ [\<lparr>aa_plan_digest = persisted_plan_digest plan,
        aa_protection_digest = protection_digest, aa_reconciliation_digest = reconciliation_digest,
        aa_deadline = deadline, aa_verifier = verifier, aa_consumed = False\<rparr>]\<rparr>))
     (returnE i))"

text \<open>The \<open>return V4PreparedAttempt(...)\<close> of the three attempt methods.\<close>

definition return_prepared_attempt ::
    "v4_plan \<Rightarrow> string \<Rightarrow> v4_action \<Rightarrow> string \<Rightarrow> string option \<Rightarrow> string option \<Rightarrow> py_float option
     \<Rightarrow> (coord_world, prepared_attempt) prog" where
  "return_prepared_attempt plan ref action timestamp protection_digest reconciliation_digest deadline =
     bindE (on_ledger_db (committed_attempt_verifier ref action (persisted_plan_digest plan)
        protection_digest reconciliation_digest)) (\<lambda>verifier.
     bindE (issue_persisted_action_authorization plan protection_digest reconciliation_digest deadline verifier) (\<lambda>i.
     returnE \<lparr>pa_ref = ref, pa_action = action_value action, pa_attempted_at = timestamp, pa_authorization = i,
       pa_transport_called = False, pa_actual_post_count = 0\<rparr>))"

section \<open>Consuming an authorization\<close>

definition authorization_error :: "string \<Rightarrow> py_exn" where
  "authorization_error message = V4PersistedAuthorizationError message"

definition valid_monotonic :: "py_float option \<Rightarrow> bool" where
  "valid_monotonic m = (case m of None \<Rightarrow> False | Some x \<Rightarrow> 0 \<le> x)"

definition V4PersistedTransportAuthorization :: "v4_plan \<Rightarrow> string \<Rightarrow> (coord_world, nat) prog" where
  "V4PersistedTransportAuthorization plan binding =
     thenE (guardE (valid_digest binding) (authorization_error ''V4_PERSISTED_TRANSPORT_AUTHORIZATION_INVALID''))
     (bindE (getE (\<lambda>w. length (cw_transports w))) (\<lambda>i.
      thenE (modifyE (\<lambda>w. w\<lparr>cw_transports := cw_transports w @ [\<lparr>ta_ref = pl_cycle_ref plan, ta_action = pl_action plan,
         ta_plan_digest = persisted_plan_digest plan, ta_binding_digest = binding, ta_consumed = False\<rparr>]\<rparr>))
      (returnE i)))"

text \<open>The checks on the protection plan that only the protection action carries.\<close>

definition protection_proof_ok ::
    "action_authorization \<Rightarrow> v4_protection_plan option \<Rightarrow> py_float option \<Rightarrow> bool" where
  "protection_proof_ok a protection now = (case (protection, aa_deadline a, now) of
     (Some p, Some deadline, Some t) \<Rightarrow>
       aa_protection_digest a = Some (''sha256:'' @ protection_plan_digest p) \<and> t \<le> deadline
   | _ \<Rightarrow> False)"

definition consume_persisted_action_authorization ::
    "nat \<Rightarrow> v4_plan \<Rightarrow> v4_protection_plan option \<Rightarrow> string option \<Rightarrow> string \<Rightarrow> py_float option \<Rightarrow> (coord_world, nat) prog" where
  "consume_persisted_action_authorization i plan protection reconciliation_digest binding now =
     bindE (getE (\<lambda>w. object_at (cw_actions w) i)) (\<lambda>authorization. case authorization of
       None \<Rightarrow> raiseE (authorization_error ''V4_PERSISTED_AUTHORIZATION_INVALID'')
     | Some a \<Rightarrow>
       thenE (guardE (\<not> aa_consumed a \<and> aa_plan_digest a = persisted_plan_digest plan
            \<and> aa_reconciliation_digest a = reconciliation_digest
            \<and> valid_digest binding \<and> valid_monotonic now)
          (authorization_error ''V4_PERSISTED_AUTHORIZATION_INVALID''))
       (thenE (if pl_action plan = EXACT_SIZE_OCO_PROTECTION
          then guardE (protection_proof_ok a protection now)
            (authorization_error ''V4_PERSISTED_PROTECTION_AUTHORIZATION_INVALID'')
          else guardE (aa_protection_digest a = None) (authorization_error ''V4_PERSISTED_AUTHORIZATION_INVALID''))
       (bindE (getE (\<lambda>w. verify_committed (aa_verifier a) (cw_db w))) (\<lambda>committed.
        thenE (guardE committed (authorization_error ''V4_PERSISTED_COMMIT_REVERIFY_FAILED''))
       (thenE (consume_action i)
       (V4PersistedTransportAuthorization plan binding))))))"

definition consume_persisted_transport_authorization ::
    "nat \<Rightarrow> string \<Rightarrow> v4_action list \<Rightarrow> string \<Rightarrow> (coord_world, unit) prog" where
  "consume_persisted_transport_authorization i ref allowed_actions binding =
     bindE (getE (\<lambda>w. object_at (cw_transports w) i)) (\<lambda>authorization. case authorization of
       None \<Rightarrow> raiseE (authorization_error ''V4_PERSISTED_TRANSPORT_AUTHORIZATION_INVALID'')
     | Some t \<Rightarrow>
       thenE (guardE (\<not> ta_consumed t \<and> ta_ref t = ref \<and> ta_action t \<in> set allowed_actions \<and> ta_binding_digest t = binding)
          (authorization_error ''V4_PERSISTED_TRANSPORT_AUTHORIZATION_INVALID''))
       (consume_transport i))"

section \<open>The entry preflight\<close>

record entry_evidence =
  ev_generation_digest :: string
  ev_ref :: string
  ev_fingerprint :: string
  ev_clock_status :: string
  ev_notification_status :: string
  ev_account_exclusivity :: string
  ev_unowned_positions :: int
  ev_active_orders :: int
  ev_unowned_active_orders :: int

text \<open>\<open>V4CanaryEntryPreflightEvidence(...)\<close> with the three counts as the caller passes them.\<close>

definition V4CanaryEntryPreflightEvidence :: "entry_evidence \<Rightarrow> pyval \<Rightarrow> pyval \<Rightarrow> pyval \<Rightarrow> entry_evidence result" where
  "V4CanaryEntryPreflightEvidence e unowned active unowned_active =
     (if \<not> list_all is_count [unowned, active, unowned_active]
      then Inl (coord_error ''v4 entry preflight evidence is invalid'')
      else Inr (e\<lparr>ev_unowned_positions := the (as_int unowned), ev_active_orders := the (as_int active),
        ev_unowned_active_orders := the (as_int unowned_active)\<rparr>))"

definition V4_CLOCK_STATUS_REQUIRED :: string where
  "V4_CLOCK_STATUS_REQUIRED = ''NETWORK_TIME_ENABLED_VERIFIED''"

definition V4_NOTIFICATION_STATUS_REQUIRED :: string where
  "V4_NOTIFICATION_STATUS_REQUIRED = ''PUSHOVER_ACK_AND_EMAIL_RECEIVED''"

definition V4_ACCOUNT_EXCLUSIVITY_REQUIRED :: string where
  "V4_ACCOUNT_EXCLUSIVITY_REQUIRED = ''H11_V4_ACCOUNT_EXCLUSIVE_CURRENT_GENERATION''"

definition V4_ENTRY_PREFLIGHT_MAX_AGE_SECONDS :: py_float where
  "V4_ENTRY_PREFLIGHT_MAX_AGE_SECONDS = 2"

definition reference_quote_ok :: "pyval \<Rightarrow> pyval \<Rightarrow> (decimal \<times> decimal) option" where
  "reference_quote_ok bid ask = (case (as_decimal bid, as_decimal ask) of
     (Some b, Some a) \<Rightarrow>
       if dec_is_finite b \<and> dec_is_finite a \<and> dec_lt dec_zero b \<and> dec_le b a then Some (b, a) else None
   | _ \<Rightarrow> None)"

fun entry_status_value :: "v4_entry_status \<Rightarrow> string" where
  "entry_status_value ENTRY_NONE = ''NONE''"
| "entry_status_value ENTRY_PENDING = ''PENDING''"
| "entry_status_value ENTRY_PARTIAL = ''PARTIAL''"
| "entry_status_value ENTRY_FILLED = ''FILLED''"
| "entry_status_value ENTRY_REJECTED = ''REJECTED''"
| "entry_status_value ENTRY_UNKNOWN = ''UNKNOWN''"

fun protection_status_value :: "v4_protection_status \<Rightarrow> string" where
  "protection_status_value PROT_NONE = ''NONE''"
| "protection_status_value PROT_EXACT_MATCH = ''EXACT_MATCH''"
| "protection_status_value PROT_UNDERSIZED = ''UNDERSIZED''"
| "protection_status_value PROT_OVERSIZED = ''OVERSIZED''"
| "protection_status_value PROT_UNKNOWN = ''UNKNOWN''"

text \<open>The part of \<open>valid\<close> about the snapshot, the evidence and the digest.\<close>

definition preflight_facts_ok :: "entry_evidence \<Rightarrow> v4_snapshot \<Rightarrow> bool \<Rightarrow> bool \<Rightarrow> string \<Rightarrow> bool" where
  "preflight_facts_ok e snapshot bundle_present fill_price_present digest \<longleftrightarrow>
     sn_fresh snapshot \<and> sn_result_known snapshot
     \<and> sn_position_count snapshot = 0 \<and> sn_position_side snapshot = None \<and> sn_filled_size snapshot = 0
     \<and> sn_pending_entry_size snapshot = 0 \<and> sn_protection_size snapshot = 0
     \<and> sn_entry_status snapshot = ENTRY_NONE \<and> sn_protection_status snapshot = PROT_NONE
     \<and> \<not> bundle_present \<and> \<not> fill_price_present
     \<and> ev_clock_status e = V4_CLOCK_STATUS_REQUIRED
     \<and> ev_notification_status e = V4_NOTIFICATION_STATUS_REQUIRED
     \<and> ev_account_exclusivity e = V4_ACCOUNT_EXCLUSIVITY_REQUIRED
     \<and> ev_unowned_positions e = 0 \<and> ev_active_orders e = 0 \<and> ev_unowned_active_orders e = 0
     \<and> valid_digest digest"

text \<open>\<open>valid\<close>, evaluated left to right: the validity text is read only for the row and generation at hand.\<close>

definition preflight_valid ::
    "entry_evidence \<Rightarrow> v4_snapshot \<Rightarrow> bool \<Rightarrow> bool \<Rightarrow> string \<Rightarrow> datetime \<Rightarrow> string option \<Rightarrow> coord_cycle option \<Rightarrow> bool result" where
  "preflight_valid e snapshot bundle_present fill_price_present digest now generation row = (case (generation, row) of
     (Some g, Some c) \<Rightarrow>
       if g \<noteq> ev_generation_digest e \<or> k_fingerprint c \<noteq> ev_fingerprint e then Inr False
       else bindR (coord_read_timestamp (k_valid_until c)) (\<lambda>valid_until.
         Inr (dt_less (to_utc now) valid_until \<and> preflight_facts_ok e snapshot bundle_present fill_price_present digest))
   | _ \<Rightarrow> Inr False)"

definition preflight_payload :: "entry_evidence \<Rightarrow> v4_snapshot \<Rightarrow> string \<Rightarrow> string \<Rightarrow> string \<Rightarrow> string" where
  "preflight_payload e snapshot bid ask digest = json_dumps (JObj [
     (''account_exclusivity_label'', JStr (ev_account_exclusivity e)),
     (''clock_status_label'', JStr (ev_clock_status e)),
     (''cycle_ref'', JStr (ev_ref e)),
     (''generation_digest'', JStr (ev_generation_digest e)),
     (''instruction_ask'', JStr ask),
     (''instruction_bid'', JStr bid),
     (''notification_status_label'', JStr (ev_notification_status e)),
     (''signal_fingerprint'', JStr (ev_fingerprint e)),
     (''snapshot'', JObj [
        (''entry_status'', JStr (entry_status_value (sn_entry_status snapshot))),
        (''filled_size'', JInt (sn_filled_size snapshot)),
        (''pending_entry_size'', JInt (sn_pending_entry_size snapshot)),
        (''position_count'', JInt (sn_position_count snapshot)),
        (''protection_size'', JInt (sn_protection_size snapshot)),
        (''protection_status'', JStr (protection_status_value (sn_protection_status snapshot))),
        (''result_known'', JBool (sn_result_known snapshot))]),
     (''unowned_position_count'', JInt (ev_unowned_positions e)),
     (''active_order_count'', JInt (ev_active_orders e)),
     (''unowned_active_order_count'', JInt (ev_unowned_active_orders e)),
     (''authoritative_reconciliation_digest'', JStr digest)])"

text \<open>The transaction that checks the facts and stores them with the cycle; its answer is their digest.\<close>

definition entry_preflight_db ::
    "entry_evidence \<Rightarrow> v4_snapshot \<Rightarrow> bool \<Rightarrow> bool \<Rightarrow> decimal \<Rightarrow> decimal \<Rightarrow> string \<Rightarrow> datetime \<Rightarrow> string \<Rightarrow> py_float
     \<Rightarrow> (coord_db, string) prog" where
  "entry_preflight_db e snapshot bundle_present fill_price_present b a digest now timestamp m = transactionE (
         bindE (getE (meta_at ''generation_digest'')) (\<lambda>generation.
         bindE (getE (coord_find (ev_ref e))) (\<lambda>row.
         bindE (liftE (preflight_valid e snapshot bundle_present fill_price_present digest now generation row)) (\<lambda>valid.
         thenE (guardE valid (coord_error ''v4 entry preflight mismatch''))
         (bindE (liftE (canonical_decimal a)) (\<lambda>ask_text.
          bindE (liftE (canonical_decimal b)) (\<lambda>bid_text.
          let canonical = preflight_payload e snapshot bid_text ask_text digest;
              preflight_digest = ''sha256:'' @ sha256_hex canonical
          in bindE (coord_update_cycles
               (\<lambda>c. k_ref c = ev_ref e \<and> k_preflight_digest c = None \<and> k_attempted_at c = None)
               (\<lambda>c. c\<lparr>k_preflight_json := Some canonical, k_preflight_digest := Some preflight_digest,
                  k_preflight_at := Some timestamp, k_preflight_monotonic := Some m,
                  k_bid := Some bid_text, k_ask := Some ask_text\<rparr>)) (\<lambda>rowcount.
             thenE (guardE (rowcount = 1) (coord_error ''second v4 entry preflight refused''))
             (returnE preflight_digest)))))))))"

definition record_entry_preflight ::
    "bool \<Rightarrow> entry_evidence \<Rightarrow> v4_snapshot \<Rightarrow> bool \<Rightarrow> bool \<Rightarrow> pyval \<Rightarrow> pyval \<Rightarrow> string \<Rightarrow> datetime \<Rightarrow> py_float option
     \<Rightarrow> (coord_world, nat) prog" where
  "record_entry_preflight issuer e snapshot bundle_present fill_price_present bid ask digest now monotonic =
     thenE (guardE issuer (coord_error ''v4 entry issuer is invalid''))
     (bindE (liftE (require_monotonic monotonic)) (\<lambda>m.
      case reference_quote_ok bid ask of
        None \<Rightarrow> raiseE (coord_error ''v4 entry reference quote is invalid'')
      | Some (b, a) \<Rightarrow>
      bindE (liftE (coord_timestamp now)) (\<lambda>timestamp.
      bindE (on_ledger_db (entry_preflight_db e snapshot bundle_present fill_price_present b a digest now timestamp m)) (\<lambda>preflight_digest.
      new_entry_authorization (ev_ref e) (ev_fingerprint e) preflight_digest))))"

section \<open>The market attempt\<close>

text \<open>\<open>0 <= now - float(column) <= limit\<close>\<close>

definition elapsed_within :: "py_float \<Rightarrow> py_float \<Rightarrow> py_float \<Rightarrow> bool" where
  "elapsed_within limit start now \<longleftrightarrow> 0 \<le> float_sub now start \<and> float_sub now start \<le> limit"

text \<open>What the plan, the row and the authorization have to agree on.\<close>

definition market_plan_matches ::
    "entry_authorization \<Rightarrow> v4_plan \<Rightarrow> datetime \<Rightarrow> datetime \<Rightarrow> py_float \<Rightarrow> coord_cycle \<Rightarrow> bool" where
  "market_plan_matches ea plan now valid_until m c \<longleftrightarrow>
     pl_action plan = MARKET_ENTRY \<and> pl_cycle_ref plan = k_ref c \<and> pl_side plan = k_side c
     \<and> pl_requested_size plan = k_requested_size c
     \<and> dt_less (to_utc now) valid_until
     \<and> k_preflight_digest c = Some (ea_preflight_digest ea)
     \<and> k_ref c = ea_ref ea
     \<and> (case k_preflight_monotonic c of None \<Rightarrow> False
        | Some start \<Rightarrow> elapsed_within V4_ENTRY_PREFLIGHT_MAX_AGE_SECONDS start m)"

text \<open>The transaction of the attempt: the row, the attempt, the pending marker and the attempt time.\<close>

definition market_attempt_db ::
    "entry_authorization \<Rightarrow> string \<Rightarrow> v4_plan \<Rightarrow> datetime \<Rightarrow> string \<Rightarrow> py_float \<Rightarrow> (coord_db, string) prog" where
  "market_attempt_db ea fingerprint plan now timestamp m = transactionE (
           bindE (getE (coord_find_signal fingerprint)) (\<lambda>row. case row of
             None \<Rightarrow> raiseE (coord_error ''v4 entry intent is missing'')
           | Some c \<Rightarrow>
             bindE (liftE (coord_read_timestamp (k_valid_until c))) (\<lambda>valid_until.
             thenE (guardE (market_plan_matches ea plan now valid_until m c)
               (coord_error ''v4 MARKET plan does not match persisted intent''))
             (thenE (coord_insert_attempt \<lparr>q_ref = k_ref c, q_action = MARKET_ENTRY, q_attempted_at = timestamp,
                q_plan_digest = persisted_plan_digest plan, q_reconciliation = None\<rparr>)
             (thenE (mark_transport_pending (k_ref c) MARKET_ENTRY)
             (thenE (coord_update_cycles (\<lambda>d. k_ref d = k_ref c)
                (\<lambda>d. d\<lparr>k_attempted_at := Some timestamp, k_attempted_monotonic := Some m\<rparr>))
             (returnE (k_ref c))))))))"

definition record_market_attempt ::
    "bool \<Rightarrow> nat \<Rightarrow> string \<Rightarrow> v4_plan \<Rightarrow> datetime \<Rightarrow> py_float option \<Rightarrow> (coord_world, prepared_attempt) prog" where
  "record_market_attempt issuer i fingerprint plan now monotonic =
     bindE (getE (\<lambda>w. object_at (cw_entries w) i)) (\<lambda>authorization.
     case (if issuer then authorization else None) of
       None \<Rightarrow> raiseE (coord_error ''v4 entry issuer is invalid'')
     | Some ea \<Rightarrow>
       thenE (guardE (\<not> ea_consumed ea \<and> ea_fingerprint ea = fingerprint) (coord_error ''v4 entry issuer is invalid''))
       (bindE (on_ledger_db unknown_halt_latched) (\<lambda>halted.
        thenE (guardE (\<not> halted) (coord_error ''v4 unknown halt is latched''))
       (bindE (liftE (require_monotonic monotonic)) (\<lambda>m.
        bindE (liftE (coord_timestamp now)) (\<lambda>timestamp.
        bindE (catchE (on_ledger_db (market_attempt_db ea fingerprint plan now timestamp m))
          (\<lambda>e. raiseE (if e = SqliteIntegrityError then coord_error ''second v4 MARKET attempt refused'' else e))) (\<lambda>ref.
        thenE (consume_entry i)
        (return_prepared_attempt plan ref MARKET_ENTRY timestamp None None None))))))))"

section \<open>The protection plan and its attempt\<close>

definition protection_window_seconds :: py_float where
  "protection_window_seconds = 15"

text \<open>\<open>Decimal(str(column))\<close> of a nullable price column.\<close>

definition price_column :: "string option \<Rightarrow> decimal result" where
  "price_column v = (case v of None \<Rightarrow> Inl (coord_error ''v4 entry reference quote is missing'')
     | Some t \<Rightarrow> (case dec_of_string t of None \<Rightarrow> Inl (coord_error ''v4 entry reference quote is missing'') | Some x \<Rightarrow> Inr x))"

text \<open>The spread and the slippage of the entry in pips, from the reference quote of the row.\<close>

definition entry_execution_metrics :: "coord_cycle \<Rightarrow> decimal \<Rightarrow> (decimal \<times> decimal) result" where
  "entry_execution_metrics c fill =
     bindR (price_column (k_bid c)) (\<lambda>bid.
     bindR (price_column (k_ask c)) (\<lambda>ask.
     bindR (guardR (dec_is_finite fill \<and> dec_is_finite bid \<and> dec_is_finite ask \<and> dec_lt dec_zero bid \<and> dec_le bid ask)
       (coord_error ''v4 entry execution metrics are invalid'')) (\<lambda>_.
     bindR (bindR (dec_sub ask bid) (\<lambda>x. dec_div x (dec_lit 1 (- 2)))) (\<lambda>spread.
     bindR (bindR (if k_side c = BUY then dec_sub fill ask else dec_sub bid fill) (\<lambda>x. dec_div x (dec_lit 1 (- 2)))) (\<lambda>slippage.
     Inr (spread, slippage))))))"

definition frozen_atr_of :: "string \<Rightarrow> coord_cycle \<Rightarrow> decimal result" where
  "frozen_atr_of fingerprint c = (case dec_of_string (k_atr c) of
     None \<Rightarrow> Inl (coord_error ''v4 frozen ATR is invalid'')
   | Some atr \<Rightarrow>
       bindR (canonical_decimal atr) (\<lambda>text.
       bindR (guardR (k_atr_digest c = atr_digest fingerprint text) (coord_error ''v4 frozen ATR digest mismatch'')) (\<lambda>_.
       Inr atr)))"

definition persist_exact_protection_plan ::
    "bool \<Rightarrow> string \<Rightarrow> decimal \<Rightarrow> pyval \<Rightarrow> datetime \<Rightarrow> py_float option \<Rightarrow> (coord_db, v4_protection_plan) prog" where
  "persist_exact_protection_plan issuer fingerprint fill filled_size now monotonic =
     thenE (guardE issuer (coord_error ''v4 protection issuer is invalid''))
     (bindE (liftE (require_monotonic monotonic)) (\<lambda>m.
      thenE (liftE (coord_timestamp now))
     (bindE (getE (coord_find_signal fingerprint)) (\<lambda>row.
      case (case row of None \<Rightarrow> None | Some c \<Rightarrow> if k_attempted_at c = None then None
            else (case k_attempted_monotonic c of None \<Rightarrow> None | Some start \<Rightarrow> Some (c, start))) of
        None \<Rightarrow> raiseE (coord_error ''v4 MARKET attempt is not persisted'')
      | Some (c, start) \<Rightarrow>
        thenE (guardE (elapsed_within protection_window_seconds start m) (coord_error ''v4 protection deadline exceeded''))
        (bindE (liftE (frozen_atr_of fingerprint c)) (\<lambda>atr.
         bindE (liftE (entry_execution_metrics c fill)) (\<lambda>(spread, slippage).
         bindE (liftE (build_exact_fill_oco_plan_no_post (k_side c) fill atr filled_size)) (\<lambda>plan.
         thenE (transactionE (
            bindE (liftE (canonical_decimal fill)) (\<lambda>fill_text.
            bindE (liftE (canonical_decimal spread)) (\<lambda>spread_text.
            bindE (liftE (canonical_decimal slippage)) (\<lambda>slippage_text.
            bindE (coord_update_cycles (\<lambda>d. k_ref d = k_ref c \<and> k_plan_digest d = None)
              (\<lambda>d. d\<lparr>k_plan_digest := Some (''sha256:'' @ protection_plan_digest plan),
                 k_plan_json := Some (protection_canonical_json plan), k_fill_price := Some fill_text,
                 k_spread_pips := Some spread_text, k_slippage_pips := Some slippage_text\<rparr>)) (\<lambda>rowcount.
            guardE (rowcount = 1) (coord_error ''second v4 protection plan refused'')))))))
         (returnE plan)))))))))"

definition protection_attempt_matches ::
    "v4_plan \<Rightarrow> v4_protection_plan \<Rightarrow> string \<Rightarrow> coord_cycle \<Rightarrow> bool" where
  "protection_attempt_matches plan protection reconciliation_digest c \<longleftrightarrow>
     k_plan_digest c = Some (''sha256:'' @ protection_plan_digest protection)
     \<and> k_plan_json c = Some (protection_canonical_json protection)
     \<and> pl_action plan = EXACT_SIZE_OCO_PROTECTION \<and> pl_cycle_ref plan = k_ref c \<and> pl_side plan = k_side c
     \<and> pl_requested_size plan = pp_exact_filled_size protection
     \<and> 0 < pl_requested_size plan \<and> pl_requested_size plan \<le> k_requested_size c
     \<and> pl_protection_hash plan = Some (pp_contract_hash protection)
     \<and> valid_digest reconciliation_digest"

definition protection_attempt_db ::
    "string \<Rightarrow> v4_plan \<Rightarrow> v4_protection_plan \<Rightarrow> string \<Rightarrow> string \<Rightarrow> py_float \<Rightarrow> (coord_db, string \<times> py_float) prog" where
  "protection_attempt_db fingerprint plan protection reconciliation_digest timestamp m = transactionE (
         bindE (getE (\<lambda>db. coord_halted db \<and> \<not> recovery_allows_action (pl_cycle_ref plan) EXACT_SIZE_OCO_PROTECTION db)) (\<lambda>blocked.
         thenE (guardE (\<not> blocked) (coord_error ''v4 unknown halt is latched''))
         (bindE (getE (coord_find_signal fingerprint)) (\<lambda>row.
          case (case row of None \<Rightarrow> None
                | Some c \<Rightarrow> if protection_attempt_matches plan protection reconciliation_digest c then Some c else None) of
            None \<Rightarrow> raiseE (coord_error ''v4 persisted protection plan mismatch'')
          | Some c \<Rightarrow> (case k_attempted_monotonic c of
              None \<Rightarrow> raiseE (coord_error ''v4 MARKET attempt is not persisted'')
            | Some start \<Rightarrow>
              thenE (guardE (elapsed_within protection_window_seconds start m) (coord_error ''v4 protection deadline exceeded''))
              (thenE (coord_insert_attempt \<lparr>q_ref = k_ref c, q_action = EXACT_SIZE_OCO_PROTECTION, q_attempted_at = timestamp,
                 q_plan_digest = persisted_plan_digest plan, q_reconciliation = Some reconciliation_digest\<rparr>)
              (thenE (mark_transport_pending (k_ref c) EXACT_SIZE_OCO_PROTECTION)
              (returnE (k_ref c, start)))))))))"

definition record_exact_protection_attempt ::
    "bool \<Rightarrow> string \<Rightarrow> v4_plan \<Rightarrow> v4_protection_plan \<Rightarrow> string \<Rightarrow> datetime \<Rightarrow> py_float option
     \<Rightarrow> (coord_world, prepared_attempt) prog" where
  "record_exact_protection_attempt issuer fingerprint plan protection reconciliation_digest now monotonic =
     thenE (guardE issuer (coord_error ''v4 protection issuer is invalid''))
     (bindE (liftE (coord_timestamp now)) (\<lambda>timestamp.
      bindE (liftE (require_monotonic monotonic)) (\<lambda>m.
      bindE (catchE (on_ledger_db (protection_attempt_db fingerprint plan protection reconciliation_digest timestamp m))
        (\<lambda>e. raiseE (if e = SqliteIntegrityError then coord_error ''second v4 protection attempt refused'' else e))) (\<lambda>(ref, start).
      return_prepared_attempt plan ref EXACT_SIZE_OCO_PROTECTION timestamp
        (Some (''sha256:'' @ protection_plan_digest protection)) (Some reconciliation_digest)
        (Some (float_add start protection_window_seconds))))))"

section \<open>The risk-reducing attempts\<close>

definition is_risk_reducing :: "v4_action \<Rightarrow> bool" where
  "is_risk_reducing action \<longleftrightarrow> action \<in> {CANCEL_ENTRY_REMAINDER, CANCEL_MISMATCHED_PROTECTION,
     CANCEL_EXACT_PROTECTION_FOR_TIME_EXIT, POSITION_SPECIFIC_EMERGENCY_EXIT, POSITION_SPECIFIC_TIME_EXIT}"

text \<open>\<open>valid_state\<close> before the time-exit check.\<close>

definition risk_reducing_state_valid :: "v4_plan \<Rightarrow> v4_snapshot \<Rightarrow> int option \<Rightarrow> signal_decision \<Rightarrow> bool" where
  "risk_reducing_state_valid plan snapshot bundle_total side =
    (if pl_action plan = CANCEL_ENTRY_REMAINDER then
       0 < sn_pending_entry_size snapshot \<and> sn_position_count snapshot \<le> 1
       \<and> pl_requested_size plan = sn_pending_entry_size snapshot
     else if pl_action plan = CANCEL_MISMATCHED_PROTECTION then
       sn_position_count snapshot = 1 \<and> 0 < sn_filled_size snapshot \<and> 0 < sn_protection_size snapshot
       \<and> sn_protection_status snapshot \<in> {PROT_UNDERSIZED, PROT_OVERSIZED}
       \<and> pl_requested_size plan = sn_protection_size snapshot
     else if pl_action plan \<in> {POSITION_SPECIFIC_EMERGENCY_EXIT, POSITION_SPECIFIC_TIME_EXIT} then
       sn_position_count snapshot = 1 \<and> sn_position_side snapshot = Some side \<and> 0 < sn_filled_size snapshot
       \<and> sn_pending_entry_size snapshot = 0 \<and> sn_entry_status snapshot = ENTRY_FILLED
       \<and> sn_protection_size snapshot = 0 \<and> bundle_total = Some (sn_filled_size snapshot)
       \<and> pl_requested_size plan = sn_filled_size snapshot
     else
       sn_position_count snapshot = 1 \<and> sn_position_side snapshot = Some side \<and> 0 < sn_filled_size snapshot
       \<and> sn_pending_entry_size snapshot = 0 \<and> sn_entry_status snapshot = ENTRY_FILLED
       \<and> sn_protection_size snapshot = sn_filled_size snapshot
       \<and> sn_protection_status snapshot = PROT_EXACT_MATCH
       \<and> bundle_total = Some (sn_filled_size snapshot)
       \<and> pl_requested_size plan = sn_protection_size snapshot)"

text \<open>Whether the scheduled exit of an entry attempted at that text has come.\<close>

definition time_exit_due :: "string \<Rightarrow> datetime \<Rightarrow> bool result" where
  "time_exit_due attempted_at now = bindR (coord_read_timestamp attempted_at) (\<lambda>attempted.
     Inr (case v4_gmo_scheduled_time_exit_at attempted of
            None \<Rightarrow> False | Some scheduled \<Rightarrow> \<not> dt_less (to_utc now) scheduled))"

text \<open>The \<open>UPDATE\<close> that fixes the size an exit settles; the statement is refused for another size.\<close>

definition fix_settlement_size :: "string \<Rightarrow> int \<Rightarrow> (coord_db, unit) prog" where
  "fix_settlement_size ref n =
     thenE (guardE (sqlite_integer n) PyOverflowError)
     (bindE (coord_update_cycles (\<lambda>c. k_ref c = ref \<and> (k_settlement_size c = None \<or> k_settlement_size c = Some n))
        (\<lambda>c. c\<lparr>k_settlement_size := Some n\<rparr>)) (\<lambda>rowcount.
      guardE (rowcount = 1) (coord_error ''v4 settlement size mismatch'')))"

definition risk_reducing_attempt_db ::
    "string \<Rightarrow> v4_plan \<Rightarrow> v4_snapshot \<Rightarrow> int option \<Rightarrow> string \<Rightarrow> datetime \<Rightarrow> string \<Rightarrow> (coord_db, string) prog" where
  "risk_reducing_attempt_db fingerprint plan snapshot bundle_total digest now timestamp = transactionE (
         bindE (getE (coord_find_signal fingerprint)) (\<lambda>row.
         case (case row of None \<Rightarrow> None | Some c \<Rightarrow> map_option (\<lambda>t. (c, t)) (k_attempted_at c)) of
           None \<Rightarrow> raiseE (coord_error ''v4 MARKET attempt is not persisted'')
         | Some (c, attempted_at) \<Rightarrow>
           thenE (guardE (pl_cycle_ref plan = k_ref c \<and> pl_side plan = k_side c) (coord_error ''v4 risk-reducing plan mismatch''))
           (bindE (getE (\<lambda>db. coord_halted db \<and> \<not> recovery_allows_action (k_ref c) (pl_action plan) db)) (\<lambda>blocked.
            thenE (guardE (\<not> blocked) (coord_error ''v4 unknown halt risk action mismatch''))
           (bindE (if pl_action plan \<in> {CANCEL_EXACT_PROTECTION_FOR_TIME_EXIT, POSITION_SPECIFIC_TIME_EXIT}
               then liftE (time_exit_due attempted_at now) else returnE True) (\<lambda>due.
            thenE (guardE (risk_reducing_state_valid plan snapshot bundle_total (k_side c) \<and> due)
               (coord_error ''v4 risk-reducing state mismatch''))
           (thenE (if pl_action plan \<in> {POSITION_SPECIFIC_EMERGENCY_EXIT, POSITION_SPECIFIC_TIME_EXIT}
               then fix_settlement_size (k_ref c) (pl_requested_size plan) else returnE ())
           (thenE (coord_insert_attempt \<lparr>q_ref = k_ref c, q_action = pl_action plan, q_attempted_at = timestamp,
               q_plan_digest = persisted_plan_digest plan, q_reconciliation = Some digest\<rparr>)
           (thenE (mark_transport_pending (k_ref c) (pl_action plan))
           (returnE (k_ref c)))))))))))"

definition record_risk_reducing_attempt ::
    "bool \<Rightarrow> string \<Rightarrow> v4_plan \<Rightarrow> v4_snapshot \<Rightarrow> int option \<Rightarrow> string \<Rightarrow> datetime \<Rightarrow> (coord_world, prepared_attempt) prog" where
  "record_risk_reducing_attempt issuer fingerprint plan snapshot bundle_total digest now =
     thenE (guardE issuer (coord_error ''v4 risk action issuer is invalid''))
     (thenE (guardE (is_risk_reducing (pl_action plan)) (coord_error ''v4 risk-reducing action is invalid''))
     (thenE (guardE (sn_fresh snapshot \<and> sn_result_known snapshot) (coord_error ''v4 risk-reducing state is unknown''))
     (bindE (liftE (coord_timestamp now)) (\<lambda>timestamp.
      thenE (guardE (valid_digest digest) (coord_error ''v4 authoritative reconciliation digest is invalid''))
     (bindE (catchE (on_ledger_db (risk_reducing_attempt_db fingerprint plan snapshot bundle_total digest now timestamp))
        (\<lambda>e. raiseE (if e = SqliteIntegrityError then coord_error ''second v4 risk-reducing attempt refused'' else e))) (\<lambda>ref.
      return_prepared_attempt plan ref (pl_action plan) timestamp None (Some digest) None))))))"

end
