(* ===== verification/V4_Coordinator_Recovery.thy ===== *)
theory V4_Coordinator_Recovery
  imports V4_Coordinator_Attempts
begin

text \<open>
  \<open>v4_gmo_actual_coordinator.py\<close>, last part: the outcome of a transport, the recovery of a crashed
  one, the unknown halt and its release by an external flat reconciliation, the closed result, the
  confirmation of the protection, and what a monitor reads.  \<open>datetime.now(UTC)\<close> is an argument.
\<close>

section \<open>The outcome of a transport\<close>

definition transport_outcome_labels :: "string list" where
  "transport_outcome_labels = [''ACCEPTED_SANITIZED'', ''REJECTED_SANITIZED'', ''UNKNOWN_SANITIZED'']"

definition record_transport_outcome :: "bool \<Rightarrow> string \<Rightarrow> v4_action \<Rightarrow> string \<Rightarrow> (coord_db, unit) prog" where
  "record_transport_outcome issuer ref action label =
     thenE (guardE issuer (coord_error ''v4 outcome issuer is invalid''))
     (thenE (guardE (label \<in> set transport_outcome_labels) (coord_error ''v4 transport outcome is invalid''))
     (transactionE (
        bindE (getE (meta_at ''pending_transport_attempt'')) (\<lambda>row.
        thenE (guardE (row = Some (pending_payload ref action)) (coord_error ''v4 pending transport state mismatch''))
        (if label = ''REJECTED_SANITIZED'' then delete_meta ''pending_transport_attempt''
         else upsert_meta ''unknown_halt_latched'' ''true'')))))"

definition record_kill_rehearsal_pending_no_transport :: "string \<Rightarrow> (coord_db, unit) prog" where
  "record_kill_rehearsal_pending_no_transport ref = transactionE (
     bindE (getE (\<lambda>db. coord_find ref db \<noteq> None \<and> \<not> coord_halted db)) (\<lambda>ok.
     thenE (guardE ok (coord_error ''v4 KILL rehearsal state mismatch''))
     (mark_transport_pending ref MARKET_ENTRY)))"

section \<open>Recovering a crashed transport\<close>

definition snapshot_shows_flat :: "v4_snapshot \<Rightarrow> int option \<Rightarrow> bool" where
  "snapshot_shows_flat s bundle_total \<longleftrightarrow>
     sn_position_count s = 0 \<and> sn_position_side s = None \<and> sn_filled_size s = 0
     \<and> sn_pending_entry_size s = 0 \<and> sn_protection_size s = 0
     \<and> sn_entry_status s \<in> {ENTRY_NONE, ENTRY_REJECTED}
     \<and> sn_protection_status s = PROT_NONE \<and> bundle_total = None"

definition ownership_exact :: "signal_decision \<Rightarrow> v4_snapshot \<Rightarrow> int option \<Rightarrow> bool" where
  "ownership_exact side s bundle_total \<longleftrightarrow>
     sn_position_count s = 1 \<and> sn_position_side s = Some side \<and> 0 < sn_filled_size s
     \<and> bundle_total = Some (sn_filled_size s)"

definition market_partial_pending :: "string \<Rightarrow> signal_decision \<Rightarrow> v4_snapshot \<Rightarrow> int option \<Rightarrow> bool" where
  "market_partial_pending previous side s bundle_total \<longleftrightarrow>
     previous = action_value MARKET_ENTRY
     \<and> sn_entry_status s \<in> {ENTRY_PENDING, ENTRY_PARTIAL}
     \<and> 0 < sn_pending_entry_size s \<and> sn_protection_size s = 0 \<and> sn_protection_status s = PROT_NONE
     \<and> ((sn_position_count s = 0 \<and> sn_position_side s = None \<and> sn_filled_size s = 0 \<and> bundle_total = None)
        \<or> ownership_exact side s bundle_total)"

definition classify_pending_transport_recovery ::
    "string \<Rightarrow> signal_decision \<Rightarrow> v4_snapshot \<Rightarrow> int option \<Rightarrow> string option" where
  "classify_pending_transport_recovery previous side s bundle_total =
    (let owned_and_filled = ownership_exact side s bundle_total
       \<and> sn_entry_status s = ENTRY_FILLED \<and> sn_pending_entry_size s = 0
     in if snapshot_shows_flat s bundle_total then Some ''FLAT_OR_REJECTED''
        else if market_partial_pending previous side s bundle_total then Some ''MARKET_PARTIAL_PENDING''
        else if owned_and_filled \<and> sn_protection_size s = 0 \<and> sn_protection_status s = PROT_NONE
        then Some ''FILLED_UNPROTECTED''
        else if owned_and_filled \<and> sn_protection_size s = sn_filled_size s \<and> sn_protection_status s = PROT_EXACT_MATCH
        then Some ''FILLED_PROTECTED''
        else if owned_and_filled \<and> 0 < sn_protection_size s
          \<and> sn_protection_status s \<in> {PROT_UNDERSIZED, PROT_OVERSIZED}
        then Some ''FILLED_PROTECTION_MISMATCHED''
        else None)"

record pending_recovery =
  pr_ref :: string
  pr_previous_action :: string
  pr_classification :: string
  pr_reconciliation_digest :: string
  pr_pending_marker_cleared :: bool
  pr_unknown_halt_remains_latched :: bool

text \<open>
  The action of the pending marker, when it is a marker of the cycle; a membership test of an
  unhashable value raises \<open>TypeError\<close>.
\<close>

definition pending_action :: "string \<Rightarrow> string \<Rightarrow> string result" where
  "pending_action text ref = (case json_loads text of
     Some (JObj payload) \<Rightarrow>
       if map_of payload ''cycle_ref'' \<noteq> Some (JStr ref)
       then Inl (coord_error ''v4 pending transport recovery state mismatch'')
       else (case map_of payload ''action'' of
          Some (JStr a) \<Rightarrow> if a \<in> set (map action_value v4_all_actions) then Inr a
            else Inl (coord_error ''v4 pending transport recovery state mismatch'')
        | Some (JList _) \<Rightarrow> Inl PyTypeError
        | Some (JObj _) \<Rightarrow> Inl PyTypeError
        | _ \<Rightarrow> Inl (coord_error ''v4 pending transport recovery state mismatch''))
   | _ \<Rightarrow> Inl (coord_error ''v4 pending transport recovery state mismatch''))"

definition resolution_payload :: "string \<Rightarrow> string \<Rightarrow> string \<Rightarrow> string \<Rightarrow> string \<Rightarrow> string \<Rightarrow> string" where
  "resolution_payload classification ref generation previous digest timestamp = json_dumps (JObj [
     (''classification'', JStr classification),
     (''cycle_ref'', JStr ref),
     (''generation_digest'', JStr generation),
     (''previous_action'', JStr previous),
     (''reconciliation_digest'', JStr digest),
     (''resolved_at_utc'', JStr timestamp)])"

definition metadata_value :: "string \<Rightarrow> (coord_db, string) prog" where
  "metadata_value key = bindE (getE (meta_at key)) (\<lambda>row. case row of
     None \<Rightarrow> raiseE (coord_error ''v4 generation binding is missing'') | Some v \<Rightarrow> returnE v)"

definition resolve_pending_transport ::
    "bool \<Rightarrow> string \<Rightarrow> v4_snapshot \<Rightarrow> int option \<Rightarrow> string \<Rightarrow> datetime \<Rightarrow> (coord_db, pending_recovery) prog" where
  "resolve_pending_transport issuer ref snapshot bundle_total digest now =
     thenE (guardE issuer (coord_error ''v4 recovery issuer is invalid''))
     (thenE (guardE (sn_fresh snapshot \<and> sn_result_known snapshot \<and> valid_digest digest)
        (coord_error ''v4 pending transport recovery remains unknown''))
     (bindE (liftE (coord_timestamp now)) (\<lambda>timestamp.
      bindE (transactionE (
         bindE (getE (meta_at ''pending_transport_attempt'')) (\<lambda>pending_row.
         bindE (getE coord_halted) (\<lambda>halted.
         bindE (getE (coord_find ref)) (\<lambda>cycle.
         case (pending_row, cycle, halted) of
           (Some text, Some c, True) \<Rightarrow>
             bindE (liftE (pending_action text ref)) (\<lambda>previous.
             case classify_pending_transport_recovery previous (k_side c) snapshot bundle_total of
               None \<Rightarrow> raiseE (coord_error ''v4 pending transport recovery remains unknown'')
             | Some classification \<Rightarrow>
               bindE (metadata_value ''generation_digest'') (\<lambda>generation.
               thenE (upsert_meta ''pending_transport_resolution''
                  (resolution_payload classification ref generation previous digest timestamp))
               (thenE (delete_meta ''pending_transport_attempt'')
               (returnE (previous, classification)))))
         | _ \<Rightarrow> raiseE (coord_error ''v4 pending transport recovery state mismatch'')))))) (\<lambda>(previous, classification).
      returnE \<lparr>pr_ref = ref, pr_previous_action = previous, pr_classification = classification,
        pr_reconciliation_digest = digest, pr_pending_marker_cleared = True,
        pr_unknown_halt_remains_latched = True\<rparr>))))"

section \<open>The unknown halt\<close>

definition engage_unknown_halt :: "(coord_db, unit) prog" where
  "engage_unknown_halt = transactionE (upsert_meta ''unknown_halt_latched'' ''true'')"

definition external_flat_payload ::
    "string \<Rightarrow> string \<Rightarrow> string \<Rightarrow> string \<Rightarrow> datetime \<Rightarrow> datetime \<Rightarrow> string" where
  "external_flat_payload generation_digest reviewed evidence ref observed valid_until = json_dumps (JObj [
     (''status'', JStr ''EXTERNAL_FLAT_RECONCILIATION_NO_POST''),
     (''generation_digest'', JStr generation_digest),
     (''reviewed_files_digest'', JStr reviewed),
     (''evidence_digest'', JStr evidence),
     (''cycle_ref'', JStr ref),
     (''observed_at_utc'', JStr (dt_isoformat observed)),
     (''valid_until_utc'', JStr (dt_isoformat valid_until)),
     (''account_flat'', JBool True),
     (''active_orders_zero'', JBool True),
     (''broker_write'', JBool False),
     (''broker_post_count'', JInt 0)])"

text \<open>The checks before the clock is read, and the window around \<open>now_utc\<close>.\<close>

definition external_flat_request_ok ::
    "string \<Rightarrow> string \<Rightarrow> string \<Rightarrow> datetime \<Rightarrow> datetime \<Rightarrow> pyval \<Rightarrow> pyval \<Rightarrow> pyval \<Rightarrow> pyval \<Rightarrow> bool" where
  "external_flat_request_ok generation_digest reviewed evidence observed valid_until flat orders_zero write post_count \<longleftrightarrow>
     valid_reconciliation_digest generation_digest \<and> valid_reconciliation_digest reviewed
     \<and> valid_reconciliation_digest evidence
     \<and> dt_aware observed \<and> dt_aware valid_until
     \<and> as_bool flat \<noteq> None \<and> as_bool orders_zero \<noteq> None
     \<and> is_false write \<and> is_int_eq 0 post_count"

definition external_flat_window_ok :: "datetime \<Rightarrow> datetime \<Rightarrow> datetime \<Rightarrow> bool" where
  "external_flat_window_ok observed now valid_until \<longleftrightarrow>
     dt_leq observed now \<and> dt_leq now valid_until \<and> dt_utc valid_until - dt_utc observed \<le> sixty_seconds"

definition reconcile_external_flat_no_post ::
    "datetime \<Rightarrow> string \<Rightarrow> string \<Rightarrow> string \<Rightarrow> datetime \<Rightarrow> datetime \<Rightarrow> pyval \<Rightarrow> pyval \<Rightarrow> pyval \<Rightarrow> pyval \<Rightarrow> (coord_db, bool) prog" where
  "reconcile_external_flat_no_post now generation_digest reviewed evidence observed_at valid_until_at flat orders_zero write post_count =
    (if \<not> external_flat_request_ok generation_digest reviewed evidence observed_at valid_until_at flat orders_zero write post_count
     then returnE False
     else let observed = to_utc observed_at; valid_until = to_utc valid_until_at
     in if \<not> external_flat_window_ok observed now valid_until then returnE False
     else transactionE (
        bindE (getE (meta_at ''generation_digest'')) (\<lambda>generation.
        bindE (getE (meta_at ''pending_transport_attempt'')) (\<lambda>pending.
        bindE (getE latest_cycle) (\<lambda>row.
        bindE (getE unresolved_cycles) (\<lambda>unresolved.
        case row of
          None \<Rightarrow> returnE False
        | Some c \<Rightarrow>
          if generation \<noteq> Some generation_digest \<or> pending \<noteq> None \<or> \<not> is_true flat \<or> \<not> is_true orders_zero
             \<or> k_pnl c \<noteq> None \<or> length unresolved \<noteq> 1
          then returnE False
          else thenE (upsert_meta ''external_flat_reconciliation''
                 (external_flat_payload generation_digest reviewed evidence (k_ref c) observed valid_until))
               (thenE (upsert_meta ''unknown_halt_latched'' ''false'')
               (returnE True))))))))"

section \<open>The closed result\<close>

definition closed_net_pips :: "int \<Rightarrow> int \<Rightarrow> decimal result" where
  "closed_net_pips pnl requested_size =
     bindR (dec_mul (dec_of_int requested_size) (dec_lit 1 (- 2))) (\<lambda>yen_per_pip. dec_div (dec_of_int pnl) yen_per_pip)"

definition record_closed_metrics_once_internal :: "string \<Rightarrow> pyval \<Rightarrow> (coord_db, bool) prog" where
  "record_closed_metrics_once_internal ref realized_pnl_jpy = (case as_int realized_pnl_jpy of
     None \<Rightarrow> raiseE (coord_error ''v4 realized pnl metric is invalid'')
   | Some pnl \<Rightarrow> transactionE (
       bindE (getE (coord_find ref)) (\<lambda>row. case row of
         None \<Rightarrow> raiseE (coord_error ''v4 cycle is unknown'')
       | Some c \<Rightarrow>
         bindE (liftE (bindR (closed_net_pips pnl (k_requested_size c)) canonical_decimal)) (\<lambda>net_pips.
         let won = (if 0 < pnl then 1 else 0); existing = (k_pnl c, k_net_pips c, k_won c)
         in if existing = (Some pnl, Some net_pips, Some won) then returnE False
            else thenE (guardE (existing = (None, None, None)) (coord_error ''v4 closed metric mismatch''))
             (thenE (guardE (sqlite_integer pnl) PyOverflowError)
             (bindE (coord_update_cycles (\<lambda>d. k_ref d = ref \<and> k_pnl d = None)
                (\<lambda>d. d\<lparr>k_pnl := Some pnl, k_net_pips := Some net_pips, k_won := Some won\<rparr>)) (\<lambda>rowcount.
              thenE (guardE (rowcount = 1) (coord_error ''v4 closed metric update refused''))
              (returnE True))))))))"

section \<open>The confirmation of the protection\<close>

definition confirm_exact_protection_within_deadline ::
    "string \<Rightarrow> int \<Rightarrow> datetime \<Rightarrow> py_float option \<Rightarrow> (coord_db, unit) prog" where
  "confirm_exact_protection_within_deadline fingerprint confirmed_size now monotonic =
     bindE (liftE (coord_timestamp now)) (\<lambda>timestamp.
     bindE (liftE (require_monotonic monotonic)) (\<lambda>m.
     transactionE (
       bindE (getE (coord_find_signal fingerprint)) (\<lambda>row.
       case (case row of None \<Rightarrow> None | Some c \<Rightarrow> map_option (\<lambda>t. (c, t)) (k_plan_json c)) of
         None \<Rightarrow> raiseE (coord_error ''v4 persisted protection plan mismatch'')
       | Some (c, text) \<Rightarrow> (case k_attempted_monotonic c of
           None \<Rightarrow> raiseE (coord_error ''v4 MARKET attempt is not persisted'')
         | Some start \<Rightarrow> (case json_loads text of
             None \<Rightarrow> raiseE (coord_error ''v4 persisted protection plan mismatch'')
           | Some payload \<Rightarrow>
             thenE (guardE (elapsed_within protection_window_seconds start m
                \<and> (case payload of JObj p \<Rightarrow> json_equals_int (map_of p ''exact_filled_size'') confirmed_size | _ \<Rightarrow> False))
                (coord_error ''v4 exact protection confirmation failed''))
             (thenE (coord_update_cycles (\<lambda>d. k_fingerprint d = fingerprint) (\<lambda>d. d\<lparr>k_confirmed_at := Some timestamp\<rparr>))
             (returnE ()))))))))"

section \<open>Reading\<close>

definition load_single_signal_fingerprint_internal :: "(coord_db, string) prog" where
  "load_single_signal_fingerprint_internal = bindE (getE kd_cycles) (\<lambda>rows. case rows of
     [c] \<Rightarrow> returnE (k_fingerprint c) | _ \<Rightarrow> raiseE (coord_error ''v4 rehearsal cycle count mismatch''))"

definition cycle_ref_for_signal_pure :: "coord_generation \<Rightarrow> string \<Rightarrow> string" where
  "cycle_ref_for_signal_pure g fingerprint = coord_cycle_ref (gen_digest g) fingerprint"

definition signal_row :: "string \<Rightarrow> (coord_db, coord_cycle) prog" where
  "signal_row fingerprint = bindE (getE (coord_find_signal fingerprint)) (\<lambda>row. case row of
     None \<Rightarrow> raiseE (coord_error ''v4 entry intent is missing'') | Some c \<Rightarrow> returnE c)"

definition cycle_ref_for_signal_internal :: "string \<Rightarrow> (coord_db, string) prog" where
  "cycle_ref_for_signal_internal fingerprint = bindE (signal_row fingerprint) (\<lambda>c. returnE (k_ref c))"

definition side_for_signal_internal :: "string \<Rightarrow> (coord_db, signal_decision) prog" where
  "side_for_signal_internal fingerprint = bindE (signal_row fingerprint) (\<lambda>c. returnE (k_side c))"

text \<open>The size in the persisted plan; the plan text only ever holds an integer there.\<close>

definition planned_closed_size :: "coord_cycle \<Rightarrow> int result" where
  "planned_closed_size c = (case k_plan_json c of
     None \<Rightarrow> Inl (coord_error ''v4 settlement size is unavailable'')
   | Some text \<Rightarrow> (case json_loads text of
       Some (JObj p) \<Rightarrow> (case map_of p ''exact_filled_size'' of
           Some (JInt n) \<Rightarrow> Inr n | _ \<Rightarrow> Inl (coord_error ''v4 settlement size is unavailable''))
     | _ \<Rightarrow> Inl (coord_error ''v4 settlement size is unavailable'')))"

definition expected_closed_size_for_signal_internal :: "string \<Rightarrow> (coord_db, int) prog" where
  "expected_closed_size_for_signal_internal fingerprint = bindE (signal_row fingerprint) (\<lambda>c.
     bindE (liftE (case k_settlement_size c of Some n \<Rightarrow> Inr n | None \<Rightarrow> planned_closed_size c)) (\<lambda>n.
     thenE (guardE (0 < n \<and> n \<le> 1000) (coord_error ''v4 settlement size is invalid''))
     (returnE n)))"

record coord_monitor_snapshot =
  ms_generation_bound :: bool
  ms_cycle_present :: bool
  ms_entry_attempted_at :: "datetime option"
  ms_flat_reconciled :: bool
  ms_protection_confirmed :: bool
  ms_time_exit_cancel_attempted :: bool
  ms_time_exit_close_attempted :: bool
  ms_pending_transport :: bool
  ms_unknown_halt_latched :: bool
  ms_external_flat_reconciled :: bool

definition monitor_attempted_at :: "coord_cycle option \<Rightarrow> datetime option result" where
  "monitor_attempted_at row = (case row of None \<Rightarrow> Inr None
     | Some c \<Rightarrow> (case k_attempted_at c of None \<Rightarrow> Inr None
       | Some t \<Rightarrow> (case coord_read_timestamp t of
           Inl e \<Rightarrow> Inl (coord_error ''v4 monitor timestamp invalid'') | Inr d \<Rightarrow> Inr (Some d))))"

definition monitor_snapshot_safe :: "datetime \<Rightarrow> (coord_db, coord_monitor_snapshot) prog" where
  "monitor_snapshot_safe now =
     bindE (getE (\<lambda>db. db)) (\<lambda>db.
     thenE (guardE (length (unresolved_cycles db) \<le> 1) (coord_error ''v4 canary cycle count invalid''))
     (let row = latest_cycle db;
          attempted = (\<lambda>action. row \<noteq> None \<and> coord_find_attempt (k_ref (the row)) action db \<noteq> None);
          flat = (case row of None \<Rightarrow> False | Some c \<Rightarrow> k_pnl c \<noteq> None);
          external = (case row of None \<Rightarrow> False | Some c \<Rightarrow>
            external_flat_reconciliation_matches (decode_external_flat_marker (meta_at ''external_flat_reconciliation'' db))
              (k_ref c) (case meta_at ''generation_digest'' db of None \<Rightarrow> [] | Some g \<Rightarrow> g) now)
      in bindE (liftE (monitor_attempted_at row)) (\<lambda>attempted_at.
         returnE \<lparr>
           ms_generation_bound = (meta_at ''generation_digest'' db \<noteq> None),
           ms_cycle_present = (row \<noteq> None \<and> \<not> flat \<and> \<not> external),
           ms_entry_attempted_at = attempted_at,
           ms_flat_reconciled = flat,
           ms_protection_confirmed = (case row of None \<Rightarrow> False | Some c \<Rightarrow> k_confirmed_at c \<noteq> None),
           ms_time_exit_cancel_attempted = attempted CANCEL_EXACT_PROTECTION_FOR_TIME_EXIT,
           ms_time_exit_close_attempted = attempted POSITION_SPECIFIC_TIME_EXIT,
           ms_pending_transport = (meta_at ''pending_transport_attempt'' db \<noteq> None),
           ms_unknown_halt_latched = coord_halted db,
           ms_external_flat_reconciled = external\<rparr>)))"

text \<open>\<open>_snapshot_digest\<close>\<close>

definition coord_snapshot_digest :: "v4_snapshot \<Rightarrow> int option \<Rightarrow> string" where
  "coord_snapshot_digest s bundle_total = ''sha256:'' @ sha256_hex (json_dumps (JObj [
     (''entry_status'', JStr (entry_status_value (sn_entry_status s))),
     (''filled_size'', JInt (sn_filled_size s)),
     (''pending_entry_size'', JInt (sn_pending_entry_size s)),
     (''position_bundle_total'', case bundle_total of None \<Rightarrow> JNull | Some n \<Rightarrow> JInt n),
     (''position_count'', JInt (sn_position_count s)),
     (''position_side'', case sn_position_side s of None \<Rightarrow> JNull | Some d \<Rightarrow> JStr (decision_value d)),
     (''protection_size'', JInt (sn_protection_size s)),
     (''protection_status'', JStr (protection_status_value (sn_protection_status s))),
     (''result_known'', JBool (sn_result_known s))]))"

end
