(* ===== verification/V4_Coordinator_Run.thy ===== *)
theory V4_Coordinator_Run
  imports V4_Coordinator_Recovery
begin

text \<open>
  The coordinator as a system of steps: every method is an operation with its arguments, a run is
  any sequence of operations of any callers, and a restart loses the authorization objects of the
  processes and opens the ledger again.  A method that is stopped between two of its transactions
  leaves what one of its first operations followed by a restart leaves: the binding of
  \<open>reserve_entry_cycle\<close> is an operation of its own, and the attempt methods write the ledger once.

  The theory then says, method by method, which part of the world an operation leaves alone and
  what an attempt adds.
\<close>

section \<open>Operations and runs\<close>

datatype coord_op =
    OpOpen bool
  | OpRestart
  | OpBind coord_generation
  | OpBaseline string string string pyval
  | OpEvaluate coord_generation formal_signal v4_policy decimal datetime
  | OpReserve coord_generation formal_signal v4_policy decimal datetime
  | OpRelease string
  | OpPreflight bool entry_evidence v4_snapshot bool bool pyval pyval string datetime "py_float option"
  | OpMarket bool nat string v4_plan datetime "py_float option"
  | OpPersistPlan bool string decimal pyval datetime "py_float option"
  | OpProtect bool string v4_plan v4_protection_plan string datetime "py_float option"
  | OpReduce bool string v4_plan v4_snapshot "int option" string datetime
  | OpConsumeAction nat v4_plan "v4_protection_plan option" "string option" string "py_float option"
  | OpConsumeTransport nat string "v4_action list" string
  | OpOutcome bool string v4_action string
  | OpRehearsal string
  | OpResolve bool string v4_snapshot "int option" string datetime
  | OpEngageHalt
  | OpReconcile datetime string string string datetime datetime pyval pyval pyval pyval
  | OpClosed string pyval
  | OpConfirm string int datetime "py_float option"

definition answering :: "bool \<Rightarrow> ('s, 'a) prog \<Rightarrow> ('s, bool) prog" where
  "answering b m = bindE m (\<lambda>_. returnE b)"

text \<open>The answer is that of the reconciliation, and \<open>False\<close> for every other operation.\<close>

fun coord_exec :: "coord_op \<Rightarrow> (coord_world, bool) prog" where
  "coord_exec (OpOpen latch) = answering False (on_ledger_db (coord_initialize latch))"
| "coord_exec OpRestart = answering False
     (thenE (modifyE (\<lambda>w. w\<lparr>cw_entries := [], cw_actions := [], cw_transports := []\<rparr>)) (on_ledger_db (coord_initialize True)))"
| "coord_exec (OpBind g) = answering False (on_ledger_db (coord_bind_generation g))"
| "coord_exec (OpBaseline source target day n) = answering False
     (on_ledger_db (initialize_inherited_market_attempt_baseline_once source target day n))"
| "coord_exec (OpEvaluate g signal policy atr now) = answering False (on_ledger_db (evaluate_entry_intent g signal policy atr now))"
| "coord_exec (OpReserve g signal policy atr now) = answering False (on_ledger_db (prepare_entry_intent g signal policy atr now))"
| "coord_exec (OpRelease ref) = answering False (on_ledger_db (release_unattempted_reservation ref))"
| "coord_exec (OpPreflight issuer e snapshot bundle fill bid ask digest now m) = answering False
     (record_entry_preflight issuer e snapshot bundle fill bid ask digest now m)"
| "coord_exec (OpMarket issuer i fingerprint plan now m) = answering False (record_market_attempt issuer i fingerprint plan now m)"
| "coord_exec (OpPersistPlan issuer fingerprint fill n now m) = answering False
     (on_ledger_db (persist_exact_protection_plan issuer fingerprint fill n now m))"
| "coord_exec (OpProtect issuer fingerprint plan protection digest now m) = answering False
     (record_exact_protection_attempt issuer fingerprint plan protection digest now m)"
| "coord_exec (OpReduce issuer fingerprint plan snapshot bundle digest now) = answering False
     (record_risk_reducing_attempt issuer fingerprint plan snapshot bundle digest now)"
| "coord_exec (OpConsumeAction i plan protection digest binding now) = answering False
     (consume_persisted_action_authorization i plan protection digest binding now)"
| "coord_exec (OpConsumeTransport i ref actions binding) = answering False
     (consume_persisted_transport_authorization i ref actions binding)"
| "coord_exec (OpOutcome issuer ref action label) = answering False (on_ledger_db (record_transport_outcome issuer ref action label))"
| "coord_exec (OpRehearsal ref) = answering False (on_ledger_db (record_kill_rehearsal_pending_no_transport ref))"
| "coord_exec (OpResolve issuer ref snapshot bundle digest now) = answering False
     (on_ledger_db (resolve_pending_transport issuer ref snapshot bundle digest now))"
| "coord_exec OpEngageHalt = answering False (on_ledger_db engage_unknown_halt)"
| "coord_exec (OpReconcile now generation reviewed evidence observed until flat orders write posts) =
     on_ledger_db (reconcile_external_flat_no_post now generation reviewed evidence observed until flat orders write posts)"
| "coord_exec (OpClosed ref pnl) = answering False (on_ledger_db (record_closed_metrics_once_internal ref pnl))"
| "coord_exec (OpConfirm fingerprint n now m) = answering False (on_ledger_db (confirm_exact_protection_within_deadline fingerprint n now m))"

text \<open>What an operation hands to the transport: the proof it consumes successfully.\<close>

definition coord_sends :: "coord_op \<Rightarrow> coord_world \<Rightarrow> transport_authorization list" where
  "coord_sends op w = (case (op, fst (coord_exec op w)) of
     (OpConsumeTransport i ref actions binding, Inr _) \<Rightarrow> [cw_transports w ! i] | _ \<Rightarrow> [])"

inductive coord_reach :: "transport_authorization list \<Rightarrow> coord_world \<Rightarrow> bool" where
  coord_new: "coord_initialize latch coord_empty_db = (r, db) \<Longrightarrow>
    coord_reach [] \<lparr>cw_db = db, cw_entries = [], cw_actions = [], cw_transports = []\<rparr>"
| coord_step: "coord_reach sent w \<Longrightarrow> coord_exec op w = (r, w') \<Longrightarrow> coord_reach (sent @ coord_sends op w) w'"

section \<open>Frames of the ledger\<close>

abbreviation ledger_attempts :: "coord_db \<Rightarrow> coord_attempt list" where
  "ledger_attempts db \<equiv> kd_attempts db"

lemma keeps_insert_meta [frame]: "(\<And>db x. f (db\<lparr>kd_metadata := x\<rparr>) = f db) \<Longrightarrow> keeps f (insert_meta kvs)"
  by (rule keepsI) (auto simp: insert_meta_def split: if_splits)

lemma keeps_upsert_meta [frame]: "(\<And>db x. f (db\<lparr>kd_metadata := x\<rparr>) = f db) \<Longrightarrow> keeps f (upsert_meta k v)"
  by (rule keepsI) (auto simp: upsert_meta_def)

lemma keeps_delete_meta [frame]: "(\<And>db x. f (db\<lparr>kd_metadata := x\<rparr>) = f db) \<Longrightarrow> keeps f (delete_meta k)"
  by (rule keepsI) (auto simp: delete_meta_def)

lemma keeps_update_cycles [frame]: "(\<And>db x. f (db\<lparr>kd_cycles := x\<rparr>) = f db) \<Longrightarrow> keeps f (coord_update_cycles p g)"
  by (rule keepsI) (auto simp: coord_update_cycles_def run_progs)

lemma keeps_coord_insert [frame]: "(\<And>db x. f (db\<lparr>kd_cycles := x\<rparr>) = f db) \<Longrightarrow> keeps f (coord_insert_cycle c)"
  by (rule keepsI) (auto simp: coord_insert_cycle_def split: if_splits)

lemma keeps_insert_attempt [frame]: "(\<And>db x. f (db\<lparr>kd_attempts := x\<rparr>) = f db) \<Longrightarrow> keeps f (coord_insert_attempt q)"
  by (rule keepsI) (auto simp: coord_insert_attempt_def split: if_splits)

lemma keeps_bool [frame]: "keeps f m \<Longrightarrow> keeps f k \<Longrightarrow> keeps f (case b of True \<Rightarrow> m | False \<Rightarrow> k)"
  by (cases b) auto

text \<open>What no statement but the insertion of an attempt changes.\<close>

lemmas ledger_programs = coord_initialize_def coord_bind_generation_def initialize_inherited_market_attempt_baseline_once_def
  validate_and_price_entry_def evaluate_entry_intent_def reserve_cycle_db_def reserve_entry_cycle_def prepare_entry_intent_def
  release_unattempted_reservation_def entry_preflight_db_def persist_exact_protection_plan_def record_transport_outcome_def
  mark_transport_pending_def record_kill_rehearsal_pending_no_transport_def metadata_value_def resolve_pending_transport_def
  engage_unknown_halt_def reconcile_external_flat_no_post_def record_closed_metrics_once_internal_def
  confirm_exact_protection_within_deadline_def unknown_halt_latched_def committed_attempt_verifier_def Let_def

named_theorems keeps_attempts \<open>the programs of the ledger that record no attempt\<close>

lemma keeps_attempts_1 [keeps_attempts]:
  "keeps kd_attempts (coord_initialize latch)"
  "keeps kd_attempts (coord_bind_generation g)"
  "keeps kd_attempts (initialize_inherited_market_attempt_baseline_once source target day n)"
  "keeps kd_attempts (evaluate_entry_intent g signal policy atr now)"
  "keeps kd_attempts (prepare_entry_intent g signal policy atr now)"
  "keeps kd_attempts (release_unattempted_reservation ref)"
  unfolding ledger_programs by (intro frame; simp)+

lemma keeps_attempts_2 [keeps_attempts]:
  "keeps kd_attempts (entry_preflight_db e snapshot bundle fill b a digest now timestamp m)"
  "keeps kd_attempts (persist_exact_protection_plan issuer fingerprint price n now m')"
  "keeps kd_attempts (record_transport_outcome issuer ref action label)"
  "keeps kd_attempts (mark_transport_pending ref action)"
  "keeps kd_attempts (record_kill_rehearsal_pending_no_transport ref)"
  "keeps kd_attempts (resolve_pending_transport issuer ref snapshot bt digest now)"
  "keeps kd_attempts engage_unknown_halt"
  unfolding ledger_programs by (intro frame; simp)+

lemma keeps_attempts_3 [keeps_attempts]:
  "keeps kd_attempts (reconcile_external_flat_no_post now generation reviewed evidence observed until flat orders write posts)"
  "keeps kd_attempts (record_closed_metrics_once_internal ref pnl)"
  "keeps kd_attempts (confirm_exact_protection_within_deadline fingerprint size' now m)"
  "keeps kd_attempts unknown_halt_latched"
  "keeps kd_attempts (committed_attempt_verifier ref action d pd rd)"
  unfolding ledger_programs by (intro frame; simp)+

section \<open>Frames of the world\<close>

definition auth_view :: "coord_world \<Rightarrow> coord_attempt list \<times> action_authorization list \<times> transport_authorization list" where
  "auth_view w = (kd_attempts (cw_db w), cw_actions w, cw_transports w)"

lemma keeps_ledger: "keeps kd_attempts m \<Longrightarrow> keeps auth_view (on_ledger_db m)"
  by (rule keepsI) (auto simp: on_ledger_db_def run_zoom auth_view_def dest: keepsD split: prod.splits)

lemma keeps_ledger_objects: "keeps (\<lambda>w. (cw_actions w, cw_transports w)) (on_ledger_db m)"
  by (rule keepsI) (auto simp: on_ledger_db_def run_zoom split: prod.splits)

lemma keeps_answering [frame]: "keeps f m \<Longrightarrow> keeps f (answering b m)"
  unfolding answering_def by (intro frame)

lemma keeps_new_entry [frame]: "(\<And>w x. f (w\<lparr>cw_entries := x\<rparr>) = f w) \<Longrightarrow> keeps f (new_entry_authorization ref fp d)"
  unfolding new_entry_authorization_def by (intro frame; simp)

lemma keeps_preflight [frame]:
  "keeps auth_view (record_entry_preflight issuer e snapshot bundle fill bid ask digest now m)"
  unfolding record_entry_preflight_def
  by (intro frame keeps_ledger keeps_attempts; simp add: auth_view_def)

text \<open>The operations that touch neither the attempts nor the action and transport proofs.\<close>

fun coord_quiet :: "coord_op \<Rightarrow> bool" where
  "coord_quiet OpRestart = False"
| "coord_quiet (OpMarket _ _ _ _ _ _) = False"
| "coord_quiet (OpProtect _ _ _ _ _ _ _) = False"
| "coord_quiet (OpReduce _ _ _ _ _ _ _) = False"
| "coord_quiet (OpConsumeAction _ _ _ _ _ _) = False"
| "coord_quiet (OpConsumeTransport _ _ _ _) = False"
| "coord_quiet _ = True"

lemma quiet_keeps: "coord_quiet op \<Longrightarrow> keeps auth_view (coord_exec op)"
  by (cases op) (simp_all add: keeps_answering keeps_ledger keeps_attempts keeps_preflight)

section \<open>What an attempt adds\<close>

definition coord_plan_key :: "v4_plan \<Rightarrow> string \<times> v4_action" where
  "coord_plan_key p = (pl_cycle_ref p, pl_action p)"

definition coord_attempt_key :: "coord_attempt \<Rightarrow> string \<times> v4_action" where
  "coord_attempt_key q = (q_ref q, q_action q)"

text \<open>One new attempt row, for the cycle and the action of the plan, with its digest.\<close>

definition attempt_added :: "v4_plan \<Rightarrow> coord_attempt list \<Rightarrow> coord_attempt list \<Rightarrow> bool" where
  "attempt_added plan qs qs' \<longleftrightarrow> (\<exists>q. qs' = qs @ [q] \<and> coord_attempt_key q = coord_plan_key plan
     \<and> q_plan_digest q = persisted_plan_digest plan \<and> coord_attempt_key q \<notin> coord_attempt_key ` set qs)"

lemma attempt_key_row [simp]: "coord_attempt_key \<lparr>q_ref = r, q_action = a, q_attempted_at = t, q_plan_digest = d, q_reconciliation = x\<rparr> = (r, a)"
  by (simp add: coord_attempt_key_def)

lemma insert_attemptD:
  assumes "coord_insert_attempt q db = (Inr u, db')"
  shows "kd_attempts db' = kd_attempts db @ [q] \<and> coord_attempt_key q \<notin> coord_attempt_key ` set (kd_attempts db)"
proof -
  have "\<not> list_ex (\<lambda>r. coord_attempt_key r = coord_attempt_key q) (kd_attempts db)" "kd_attempts db' = kd_attempts db @ [q]"
    using assms by (auto simp: coord_insert_attempt_def coord_attempt_key_def split: if_splits)
  then show ?thesis by (auto simp: list_ex_iff)
qed

lemma mark_pending_attempts: "mark_transport_pending ref action db = (r, db') \<Longrightarrow> kd_attempts db' = kd_attempts db"
  using keepsD [OF keeps_attempts_2(4)] .

lemma update_cycles_attempts: "coord_update_cycles p g db = (r, db') \<Longrightarrow> kd_attempts db' = kd_attempts db"
  by (auto simp: coord_update_cycles_def run_progs)

lemma fix_settlement_attempts: "fix_settlement_size ref n db = (r, db') \<Longrightarrow> kd_attempts db' = kd_attempts db"
  by (auto simp: fix_settlement_size_def run_progs dest: update_cycles_attempts split: prod.splits sum.splits if_splits)

lemmas attempt_runs = run_progs mark_pending_attempts update_cycles_attempts fix_settlement_attempts

lemma market_attempt_db_adds:
  assumes "market_attempt_db ea fp plan now ts m db = (Inr ref, db')"
  shows "attempt_added plan (kd_attempts db) (kd_attempts db') \<and> coord_plan_key plan = (ref, MARKET_ENTRY)"
proof -
  have "triple (\<lambda>s. s = db) (market_attempt_db ea fp plan now ts m)
    (\<lambda>ref s. attempt_added plan (kd_attempts db) (kd_attempts s) \<and> coord_plan_key plan = (ref, MARKET_ENTRY)) (\<lambda>_ _. True)"
    unfolding triple_def market_attempt_db_def
    by (auto simp: run_progs market_plan_matches_def coord_plan_key_def attempt_added_def
        dest!: mark_pending_attempts update_cycles_attempts insert_attemptD split: prod.splits sum.splits option.splits if_splits)
  then show ?thesis using assms by (auto simp: triple_def)
qed

lemma protection_attempt_db_adds:
  assumes "protection_attempt_db fp plan protection rd ts m db = (Inr (ref, start), db')"
  shows "attempt_added plan (kd_attempts db) (kd_attempts db') \<and> coord_plan_key plan = (ref, EXACT_SIZE_OCO_PROTECTION)"
  using assms unfolding protection_attempt_db_def
  by (auto simp: run_progs protection_attempt_matches_def coord_plan_key_def attempt_added_def
      dest!: mark_pending_attempts insert_attemptD split: prod.splits sum.splits option.splits if_splits)

lemma risk_reducing_attempt_db_adds:
  assumes "risk_reducing_attempt_db fp plan snapshot bt digest now ts db = (Inr ref, db')"
  shows "attempt_added plan (kd_attempts db) (kd_attempts db') \<and> coord_plan_key plan = (ref, pl_action plan)"
  using assms unfolding risk_reducing_attempt_db_def
  by (auto simp: run_progs coord_plan_key_def attempt_added_def
      dest!: mark_pending_attempts fix_settlement_attempts insert_attemptD split: prod.splits sum.splits option.splits if_splits)

end
