(* ===== verification/V4_Coordinator_Sent.thy ===== *)
theory V4_Coordinator_Sent
  imports V4_Coordinator_Run "HOL-Library.Multiset"
begin

text \<open>
  Every proof of a transport is backed by its own attempt row: the digests of the proofs sent, of
  those not consumed yet and of the authorizations not consumed yet are, with their multiplicity,
  among the digests of the attempt rows, and no row is ever removed.
\<close>

section \<open>Attempts and consumptions as steps of the world\<close>

definition coord_attempt_step :: "coord_world \<Rightarrow> coord_world \<Rightarrow> bool" where
  "coord_attempt_step w w' \<longleftrightarrow> cw_transports w' = cw_transports w \<and>
     (auth_view w' = auth_view w
      \<or> (\<exists>plan. attempt_added plan (kd_attempts (cw_db w)) (kd_attempts (cw_db w'))
          \<and> (cw_actions w' = cw_actions w
             \<or> (\<exists>a. cw_actions w' = cw_actions w @ [a] \<and> aa_plan_digest a = persisted_plan_digest plan \<and> \<not> aa_consumed a))))"

lemma ledger_run: "on_ledger_db m w = (r, w') \<longleftrightarrow> (\<exists>db'. m (cw_db w) = (r, db') \<and> w' = w\<lparr>cw_db := db'\<rparr>)"
  by (auto simp: on_ledger_db_def run_zoom split: prod.splits)

lemma return_prepared_step:
  assumes "return_prepared_attempt plan ref action ts pd rd deadline w = (r, w')"
  shows "kd_attempts (cw_db w') = kd_attempts (cw_db w) \<and> cw_transports w' = cw_transports w
    \<and> (cw_actions w' = cw_actions w
       \<or> (\<exists>a. cw_actions w' = cw_actions w @ [a] \<and> aa_plan_digest a = persisted_plan_digest plan \<and> \<not> aa_consumed a))"
  using assms
  by (auto simp: return_prepared_attempt_def issue_persisted_action_authorization_def run_progs ledger_run
      dest: keepsD [OF keeps_attempts_3(5)] split: prod.splits sum.splits)

lemma ledger_halt [simp]: "on_ledger_db unknown_halt_latched w = (Inr (coord_halted (cw_db w)), w)"
  by (simp add: on_ledger_db_def run_zoom unknown_halt_latched_def)

text \<open>A transaction that raises leaves nothing; so a caught one ends in nothing or in its commit.\<close>

definition raises_clean :: "('s, 'a) prog \<Rightarrow> bool" where
  "raises_clean m \<longleftrightarrow> (\<forall>s e s'. m s = (Inl e, s') \<longrightarrow> s' = s)"

lemma transaction_clean: "raises_clean (transactionE m)"
  by (auto simp: raises_clean_def run_transaction split: prod.splits sum.splits)

lemma attempt_db_clean:
  "raises_clean (market_attempt_db ea fp plan now ts m)"
  "raises_clean (protection_attempt_db fp plan protection rd ts m)"
  "raises_clean (risk_reducing_attempt_db fp plan snapshot bt digest now ts)"
  unfolding market_attempt_db_def protection_attempt_db_def risk_reducing_attempt_db_def
  by (rule transaction_clean)+

lemma caught_attempt:
  assumes "catchE (on_ledger_db m) (\<lambda>e. raiseE (h e)) w = (r, w')" and "raises_clean m"
  shows "case r of Inl e \<Rightarrow> w' = w | Inr x \<Rightarrow> \<exists>db'. m (cw_db w) = (Inr x, db') \<and> w' = w\<lparr>cw_db := db'\<rparr>"
  using assms by (auto simp: run_catch ledger_run raises_clean_def split: prod.splits sum.splits)

lemmas caught_market = caught_attempt [OF _ attempt_db_clean(1)]
lemmas caught_protection = caught_attempt [OF _ attempt_db_clean(2)]
lemmas caught_reducing = caught_attempt [OF _ attempt_db_clean(3)]

lemma bind_cases:
  assumes "bindE m f w = (r, w')"
  obtains e where "m w = (Inl e, w')" "r = Inl e" | x w1 where "m w = (Inr x, w1)" "f x w1 = (r, w')"
  using assms by (auto simp: run_bind split: prod.splits sum.splits)

lemma then_cases:
  assumes "thenE m k w = (r, w')"
  obtains e where "m w = (Inl e, w')" "r = Inl e" | x w1 where "m w = (Inr x, w1)" "k w1 = (r, w')"
  using assms by (auto simp: run_then split: prod.splits sum.splits)

lemma attempt_step_refl: "auth_view w' = auth_view w \<Longrightarrow> coord_attempt_step w w'"
  by (auto simp: coord_attempt_step_def auth_view_def)

text \<open>An insertion followed by the return of the proof; consuming the entry proof in between is quiet.\<close>

lemma attempt_then_return:
  assumes "attempt_added plan (kd_attempts (cw_db w)) (kd_attempts (cw_db w1))"
    and "cw_actions w1 = cw_actions w" "cw_transports w1 = cw_transports w"
    and "return_prepared_attempt plan ref action ts pd rd deadline w1 = (r, w')"
  shows "coord_attempt_step w w'"
proof -
  note step = return_prepared_step [OF assms(4)]
  have "attempt_added plan (kd_attempts (cw_db w)) (kd_attempts (cw_db w'))" using assms(1) step by simp
  then show ?thesis using step assms(2,3) by (auto simp: coord_attempt_step_def)
qed

lemma market_attempt_step:
  assumes "record_market_attempt issuer i fp plan now m w = (r, w')"
  shows "coord_attempt_step w w'"
proof (cases "if issuer then object_at (cw_entries w) i else None")
  case None
  then show ?thesis using assms by (auto simp: record_market_attempt_def run_progs intro: attempt_step_refl split: if_splits)
next
  case (Some ea)
  show ?thesis
  proof (cases "\<not> ea_consumed ea \<and> ea_fingerprint ea = fp \<and> \<not> coord_halted (cw_db w)")
    case False
    then show ?thesis using assms Some
      by (auto simp: record_market_attempt_def run_progs intro!: attempt_step_refl
          split: if_splits)
  next
    case ok: True
    show ?thesis
    proof (cases "require_monotonic m")
      case (Inl e)
      then show ?thesis using assms Some ok
        by (auto simp: record_market_attempt_def run_progs intro!: attempt_step_refl
            split: if_splits)
    next
      case mono: (Inr x)
      show ?thesis
      proof (cases "coord_timestamp now")
        case (Inl e)
        then show ?thesis using assms Some ok mono
          by (auto simp: record_market_attempt_def run_progs intro!: attempt_step_refl
              split: if_splits)
      next
        case ts: (Inr ts)
        have run: "bindE (catchE (on_ledger_db (market_attempt_db ea fp plan now ts x))
             (\<lambda>e. raiseE (if e = SqliteIntegrityError then coord_error ''second v4 MARKET attempt refused'' else e))) (\<lambda>ref.
           thenE (consume_entry i) (return_prepared_attempt plan ref MARKET_ENTRY ts None None None)) w = (r, w')"
          using assms Some ok mono ts
          by (auto simp: record_market_attempt_def run_bind run_then split: if_splits)
        then show ?thesis
        proof (cases rule: bind_cases)
          case (1 e)
          then show ?thesis using caught_market [OF 1(1)] by (simp add: attempt_step_refl)
        next
          case (2 ref w1)
          obtain db' where db': "market_attempt_db ea fp plan now ts x (cw_db w) = (Inr ref, db')" "w1 = w\<lparr>cw_db := db'\<rparr>"
            using caught_market [OF 2(1)] by auto
          from 2(2) obtain w2 where w2: "consume_entry i w1 = (Inr (), w2)"
            "return_prepared_attempt plan ref MARKET_ENTRY ts None None None w2 = (r, w')"
            by (auto simp: run_then consume_entry_def)
          show ?thesis
            by (rule attempt_then_return [OF _ _ _ w2(2)])
              (use market_attempt_db_adds [OF db'(1)] db'(2) w2(1) in \<open>auto simp: consume_entry_def\<close>)
        qed
      qed
    qed
  qed
qed

lemma protection_attempt_step:
  assumes "record_exact_protection_attempt issuer fp plan protection rd now m w = (r, w')"
  shows "coord_attempt_step w w'"
proof (cases "issuer \<and> (\<exists>ts. coord_timestamp now = Inr ts) \<and> (\<exists>x. require_monotonic m = Inr x)")
  case False
  then show ?thesis using assms
    by (cases "coord_timestamp now"; cases "require_monotonic m")
      (auto simp: record_exact_protection_attempt_def run_bind run_then intro!: attempt_step_refl split: if_splits)
next
  case True
  then obtain ts x where ts: "issuer" "coord_timestamp now = Inr ts" "require_monotonic m = Inr x" by blast
  have run: "bindE (catchE (on_ledger_db (protection_attempt_db fp plan protection rd ts x))
        (\<lambda>e. raiseE (if e = SqliteIntegrityError then coord_error ''second v4 protection attempt refused'' else e))) (\<lambda>(ref, start).
      return_prepared_attempt plan ref EXACT_SIZE_OCO_PROTECTION ts
        (Some (''sha256:'' @ protection_plan_digest protection)) (Some rd)
        (Some (float_add start protection_window_seconds))) w = (r, w')"
    using assms ts by (simp add: record_exact_protection_attempt_def run_bind run_then)
  then show ?thesis
  proof (cases rule: bind_cases)
    case (1 e)
    then show ?thesis using caught_protection [OF 1(1)] by (simp add: attempt_step_refl)
  next
    case (2 y w1)
    obtain ref start db' where db': "protection_attempt_db fp plan protection rd ts x (cw_db w) = (Inr (ref, start), db')"
      "w1 = w\<lparr>cw_db := db'\<rparr>" "y = (ref, start)"
      using caught_protection [OF 2(1)] by (cases y) auto
    show ?thesis
      by (rule attempt_then_return [OF _ _ _ 2(2) [unfolded db'(3) prod.case]])
        (use protection_attempt_db_adds [OF db'(1)] db'(2) in auto)
  qed
qed

lemma risk_reducing_attempt_step:
  assumes "record_risk_reducing_attempt issuer fp plan snapshot bt digest now w = (r, w')"
  shows "coord_attempt_step w w'"
proof (cases "issuer \<and> is_risk_reducing (pl_action plan) \<and> sn_fresh snapshot \<and> sn_result_known snapshot
    \<and> (\<exists>ts. coord_timestamp now = Inr ts) \<and> valid_digest digest")
  case False
  then show ?thesis using assms
    by (cases "coord_timestamp now")
      (auto simp: record_risk_reducing_attempt_def run_bind run_then intro!: attempt_step_refl split: if_splits)
next
  case True
  then obtain ts where ts: "coord_timestamp now = Inr ts" by blast
  have run: "bindE (catchE (on_ledger_db (risk_reducing_attempt_db fp plan snapshot bt digest now ts))
        (\<lambda>e. raiseE (if e = SqliteIntegrityError then coord_error ''second v4 risk-reducing attempt refused'' else e))) (\<lambda>ref.
      return_prepared_attempt plan ref (pl_action plan) ts None (Some digest) None) w = (r, w')"
    using assms True ts by (simp add: record_risk_reducing_attempt_def run_bind run_then)
  then show ?thesis
  proof (cases rule: bind_cases)
    case (1 e)
    then show ?thesis using caught_reducing [OF 1(1)] by (simp add: attempt_step_refl)
  next
    case (2 ref w1)
    obtain db' where db': "risk_reducing_attempt_db fp plan snapshot bt digest now ts (cw_db w) = (Inr ref, db')" "w1 = w\<lparr>cw_db := db'\<rparr>"
      using caught_reducing [OF 2(1)] by auto
    show ?thesis
      by (rule attempt_then_return [OF _ _ _ 2(2)]) (use risk_reducing_attempt_db_adds [OF db'(1)] db'(2) in auto)
  qed
qed

section \<open>The invariant\<close>

definition open_digests :: "coord_world \<Rightarrow> string multiset" where
  "open_digests w = image_mset ta_plan_digest (filter_mset (\<lambda>t. \<not> ta_consumed t) (mset (cw_transports w)))
     + image_mset aa_plan_digest (filter_mset (\<lambda>a. \<not> aa_consumed a) (mset (cw_actions w)))"

definition attempts_ok :: "coord_attempt list \<Rightarrow> bool" where
  "attempts_ok qs \<longleftrightarrow> distinct (map coord_attempt_key qs)
     \<and> (\<forall>q \<in> set qs. \<exists>p. coord_plan_key p = coord_attempt_key q \<and> persisted_plan_digest p = q_plan_digest q)"

definition proof_ok :: "transport_authorization \<Rightarrow> bool" where
  "proof_ok t \<longleftrightarrow> (\<exists>p. coord_plan_key p = (ta_ref t, ta_action t) \<and> persisted_plan_digest p = ta_plan_digest t)"

lemma proof_ok_plan: "proof_ok \<lparr>ta_ref = pl_cycle_ref p, ta_action = pl_action p, ta_plan_digest = persisted_plan_digest p,
    ta_binding_digest = b, ta_consumed = c\<rparr>"
  unfolding proof_ok_def coord_plan_key_def by (rule exI [of _ p]) simp

definition coord_sent_inv :: "transport_authorization list \<Rightarrow> coord_world \<Rightarrow> bool" where
  "coord_sent_inv sent w \<longleftrightarrow>
     image_mset ta_plan_digest (mset sent) + open_digests w \<subseteq># image_mset q_plan_digest (mset (kd_attempts (cw_db w)))
     \<and> attempts_ok (kd_attempts (cw_db w)) \<and> (\<forall>t \<in> set sent \<union> set (cw_transports w). proof_ok t)"

lemma sent_inv_cong: "auth_view w' = auth_view w \<Longrightarrow> coord_sent_inv sent w' = coord_sent_inv sent w"
  by (simp add: auth_view_def coord_sent_inv_def open_digests_def)

lemma attempts_ok_added:
  assumes "attempts_ok qs" "attempt_added plan qs qs'"
  shows "attempts_ok qs'"
proof -
  obtain q where q: "qs' = qs @ [q]" "coord_attempt_key q = coord_plan_key plan" "q_plan_digest q = persisted_plan_digest plan"
    "coord_attempt_key q \<notin> coord_attempt_key ` set qs"
    using assms(2) by (auto simp: attempt_added_def)
  then have "\<exists>p. coord_plan_key p = coord_attempt_key q \<and> persisted_plan_digest p = q_plan_digest q" by metis
  then show ?thesis using assms(1) q(1,4) by (simp add: attempts_ok_def)
qed

lemma digests_shrink: "S + D \<subseteq># Q \<Longrightarrow> D' \<subseteq># D \<Longrightarrow> S + D' \<subseteq># (Q :: 'a multiset)"
  by (meson subset_mset.add_left_mono subset_mset.order_trans)

lemma digests_grow: "S + D \<subseteq># Q \<Longrightarrow> D' \<subseteq># D + {#x#} \<Longrightarrow> S + D' \<subseteq># (Q :: 'a multiset) + {#x#}"
proof -
  assume "S + D \<subseteq># Q" "D' \<subseteq># D + {#x#}"
  then have "S + D' \<subseteq># S + (D + {#x#})" "(S + D) + {#x#} \<subseteq># Q + {#x#}"
    by (simp_all only: subset_mset.add_left_mono subset_mset.add_right_mono)
  then show ?thesis by (metis add.assoc subset_mset.order_trans)
qed

lemma attempt_step_inv:
  assumes "coord_sent_inv sent w" "coord_attempt_step w w'"
  shows "coord_sent_inv sent w'"
proof (cases "auth_view w' = auth_view w")
  case True
  then show ?thesis using assms(1) sent_inv_cong by blast
next
  case False
  then obtain plan where added: "attempt_added plan (kd_attempts (cw_db w)) (kd_attempts (cw_db w'))"
    and actions: "cw_actions w' = cw_actions w
      \<or> (\<exists>a. cw_actions w' = cw_actions w @ [a] \<and> aa_plan_digest a = persisted_plan_digest plan \<and> \<not> aa_consumed a)"
    and transports: "cw_transports w' = cw_transports w"
    using assms(2) by (auto simp: coord_attempt_step_def)
  obtain q where q: "kd_attempts (cw_db w') = kd_attempts (cw_db w) @ [q]" "q_plan_digest q = persisted_plan_digest plan"
    using added by (auto simp: attempt_added_def)
  have "open_digests w' \<subseteq># open_digests w + {#persisted_plan_digest plan#}"
    using actions transports by (auto simp: open_digests_def add.assoc)
  then have "image_mset ta_plan_digest (mset sent) + open_digests w'
      \<subseteq># image_mset q_plan_digest (mset (kd_attempts (cw_db w'))) "
    using assms(1) q digests_grow by (fastforce simp: coord_sent_inv_def)
  then show ?thesis using assms(1) attempts_ok_added [OF _ added] transports by (simp add: coord_sent_inv_def)
qed

text \<open>Marking one element of a list as consumed takes it out of the open ones.\<close>

lemma consume_one:
  assumes "i < length xs" "\<not> c (xs ! i)" "c y"
  shows "add_mset (f (xs ! i)) (image_mset f (filter_mset (\<lambda>x. \<not> c x) (mset (xs[i := y]))))
    = image_mset f (filter_mset (\<lambda>x. \<not> c x) (mset xs))"
proof -
  have "mset (xs[i := y]) = add_mset y (mset xs - {#xs ! i#})" by (simp add: mset_update assms(1))
  moreover have "mset xs = add_mset (xs ! i) (mset xs - {#xs ! i#})" using assms(1) by simp
  ultimately show ?thesis using assms(2,3) by (metis (no_types, lifting) filter_mset_add_mset image_mset_add_mset)
qed

lemma object_at_Some: "object_at xs i = Some x \<longleftrightarrow> i < length xs \<and> x = xs ! i"
  by (auto simp: object_at_def)

lemma consume_action_inv:
  assumes "coord_sent_inv sent w" "consume_persisted_action_authorization i plan protection rd binding now w = (r, w')"
  shows "coord_sent_inv sent w'"
proof (cases "auth_view w' = auth_view w")
  case True
  then show ?thesis using assms(1) sent_inv_cong by blast
next
  case False
  obtain a where a: "i < length (cw_actions w)" "a = cw_actions w ! i" "\<not> aa_consumed a"
      "aa_plan_digest a = persisted_plan_digest plan"
    and w': "w' = w\<lparr>cw_actions := (cw_actions w)[i := a\<lparr>aa_consumed := True\<rparr>]\<rparr>
      \<or> w' = w\<lparr>cw_actions := (cw_actions w)[i := a\<lparr>aa_consumed := True\<rparr>],
           cw_transports := cw_transports w @ [\<lparr>ta_ref = pl_cycle_ref plan, ta_action = pl_action plan,
             ta_plan_digest = persisted_plan_digest plan, ta_binding_digest = binding, ta_consumed = False\<rparr>]\<rparr>"
    using assms(2) False
    by (auto simp: consume_persisted_action_authorization_def V4PersistedTransportAuthorization_def consume_action_def
        run_bind run_then object_at_Some split: option.splits if_splits)
  let ?y = "a\<lparr>aa_consumed := True\<rparr>"
  have "add_mset (aa_plan_digest a) (image_mset aa_plan_digest (filter_mset (\<lambda>x. \<not> aa_consumed x) (mset ((cw_actions w)[i := ?y]))))
      = image_mset aa_plan_digest (filter_mset (\<lambda>x. \<not> aa_consumed x) (mset (cw_actions w)))"
    unfolding a(2) by (rule consume_one) (use a in auto)
  then have "open_digests w' \<subseteq># open_digests w"
    using w' a(4) by (auto simp: open_digests_def simp flip: \<open>add_mset (aa_plan_digest a) _ = _\<close>)
  moreover have "kd_attempts (cw_db w') = kd_attempts (cw_db w)" using w' by auto
  moreover have "\<forall>t \<in> set (cw_transports w'). proof_ok t"
    using w' assms(1) by (auto simp: coord_sent_inv_def proof_ok_plan)
  ultimately show ?thesis using assms(1) digests_shrink unfolding coord_sent_inv_def by (metis UnE UnI1)
qed

lemma consume_transport_inv:
  assumes "coord_sent_inv sent w" "consume_persisted_transport_authorization i ref actions binding w = (r, w')"
  shows "coord_sent_inv (sent @ (case r of Inl e \<Rightarrow> [] | Inr x \<Rightarrow> [cw_transports w ! i])) w'"
proof (cases r)
  case (Inl e)
  then have "w' = w" using assms(2)
    by (auto simp: consume_persisted_transport_authorization_def consume_transport_def run_bind run_then
        split: option.splits if_splits)
  then show ?thesis using assms(1) Inl by simp
next
  case (Inr x)
  let ?t = "cw_transports w ! i"
  have t: "i < length (cw_transports w)" "\<not> ta_consumed ?t"
    and w': "w' = w\<lparr>cw_transports := (cw_transports w)[i := ?t\<lparr>ta_consumed := True\<rparr>]\<rparr>"
    using assms(2) Inr
    by (auto simp: consume_persisted_transport_authorization_def consume_transport_def run_bind run_then object_at_Some
        split: option.splits if_splits)
  have "add_mset (ta_plan_digest ?t) (image_mset ta_plan_digest (filter_mset (\<lambda>x. \<not> ta_consumed x) (mset (cw_transports w'))))
      = image_mset ta_plan_digest (filter_mset (\<lambda>x. \<not> ta_consumed x) (mset (cw_transports w)))"
    unfolding w' by (simp add: consume_one t)
  then have shrunk: "add_mset (ta_plan_digest ?t) (open_digests w') = open_digests w" using w' by (simp add: open_digests_def)
  have digests: "image_mset ta_plan_digest (mset (sent @ [?t])) + open_digests w' = image_mset ta_plan_digest (mset sent) + open_digests w"
    by (simp flip: shrunk)
  have proofs: "\<forall>t \<in> set (cw_transports w'). proof_ok t"
  proof
    fix u assume "u \<in> set (cw_transports w')"
    then have "u \<in> set (cw_transports w) \<or> u = ?t\<lparr>ta_consumed := True\<rparr>" using w' set_update_subset_insert by fastforce
    moreover have "proof_ok ?t" using assms(1) t by (auto simp: coord_sent_inv_def)
    ultimately show "proof_ok u" using assms(1) by (auto simp: coord_sent_inv_def proof_ok_def)
  qed
  have "proof_ok ?t" using assms(1) t(1) by (auto simp: coord_sent_inv_def)
  then have "\<forall>u \<in> set (sent @ [?t]) \<union> set (cw_transports w'). proof_ok u"
    using proofs assms(1) by (auto simp: coord_sent_inv_def)
  moreover have "kd_attempts (cw_db w') = kd_attempts (cw_db w)" using w' by simp
  ultimately have "coord_sent_inv (sent @ [?t]) w'" using assms(1) unfolding coord_sent_inv_def digests by simp
  then show ?thesis using Inr by simp
qed

lemma restart_inv:
  assumes "coord_sent_inv sent w" "kd_attempts (cw_db w') = kd_attempts (cw_db w)" "cw_actions w' = []" "cw_transports w' = []"
  shows "coord_sent_inv sent w'"
proof -
  have "open_digests w' \<subseteq># open_digests w" using assms(3,4) by (simp add: open_digests_def)
  then show ?thesis using assms digests_shrink unfolding coord_sent_inv_def by (metis UnE UnI1 empty_iff list.set(1))
qed

lemma answering_run: "answering b m w = (r, w') \<Longrightarrow> \<exists>r'. m w = (r', w') \<and> (isl r' \<longleftrightarrow> isl r)"
  by (auto simp: answering_def run_bind split: prod.splits sum.splits)

lemma coord_sent_inv_step:
  assumes "coord_sent_inv sent w" "coord_exec op w = (r, w')"
  shows "coord_sent_inv (sent @ coord_sends op w) w'"
proof (cases "coord_quiet op")
  case True
  then have "coord_sends op w = []" by (cases op) (auto simp: coord_sends_def)
  then show ?thesis
    using assms(1) sent_inv_cong [OF keepsD [OF quiet_keeps [OF True] assms(2)]] by simp
next
  case False
  then show ?thesis
  proof (cases op)
    case OpRestart
    from assms(2) OpRestart have "kd_attempts (cw_db w') = kd_attempts (cw_db w) \<and> cw_actions w' = [] \<and> cw_transports w' = []"
      by (auto dest!: answering_run keepsD [OF keeps_attempts_1(1)] simp: run_then ledger_run)
    then show ?thesis using restart_inv [OF assms(1)] OpRestart by (simp add: coord_sends_def)
  next
    case (OpMarket issuer i fp plan now m)
    with assms attempt_step_inv [OF assms(1) market_attempt_step] show ?thesis
      by (auto dest!: answering_run simp: coord_sends_def)
  next
    case (OpProtect issuer fp plan protection rd now m)
    with assms attempt_step_inv [OF assms(1) protection_attempt_step] show ?thesis
      by (auto dest!: answering_run simp: coord_sends_def)
  next
    case (OpReduce issuer fp plan snapshot bt digest now)
    with assms attempt_step_inv [OF assms(1) risk_reducing_attempt_step] show ?thesis
      by (auto dest!: answering_run simp: coord_sends_def)
  next
    case (OpConsumeAction i plan protection rd binding now)
    with assms consume_action_inv [OF assms(1)] show ?thesis
      by (auto dest!: answering_run simp: coord_sends_def)
  next
    case (OpConsumeTransport i ref actions binding)
    then obtain r' where r': "consume_persisted_transport_authorization i ref actions binding w = (r', w')" "isl r' \<longleftrightarrow> isl r"
      using assms(2) by (auto dest!: answering_run)
    show ?thesis using consume_transport_inv [OF assms(1) r'(1)] OpConsumeTransport assms(2) r'(2)
      by (cases r; cases r') (simp_all add: coord_sends_def)
  qed simp_all
qed

lemma coord_reach_sent_inv: "coord_reach sent w \<Longrightarrow> coord_sent_inv sent w"
proof (induction rule: coord_reach.induct)
  case (coord_new latch r db)
  then have "kd_attempts db = []" using keepsD [OF keeps_attempts_1(1) coord_new] by (simp add: coord_empty_db_def)
  then show ?case by (simp add: coord_sent_inv_def open_digests_def attempts_ok_def)
next
  case (coord_step sent w op r w')
  then show ?case by (rule_tac coord_sent_inv_step)
qed

end
