(* ===== verification/V4_Coordinator_Cycles.thy ===== *)
theory V4_Coordinator_Cycles
  imports V4_Coordinator_Sent
begin

text \<open>
  The rows of the cycles: references and fingerprints stay unique, and there is at most one
  unresolved cycle, or two when the marker of an external flat reconciliation names one of them.
\<close>

section \<open>Frames\<close>

definition cycle_key :: "coord_cycle \<Rightarrow> string \<times> string \<times> int option" where
  "cycle_key c = (k_ref c, k_fingerprint c, k_pnl c)"

definition cycle_keys :: "coord_db \<Rightarrow> (string \<times> string \<times> int option) list" where
  "cycle_keys db = map cycle_key (kd_cycles db)"

lemma keeps_keys_update: "(\<And>c. cycle_key (g c) = cycle_key c) \<Longrightarrow> keeps cycle_keys (coord_update_cycles p g)"
  by (rule keepsI) (auto simp: coord_update_cycles_def run_progs cycle_keys_def map_update_rows_key)

lemma keys_meta [simp]: "cycle_keys (db\<lparr>kd_metadata := x\<rparr>) = cycle_keys db"
  "cycle_keys (db\<lparr>kd_attempts := x'\<rparr>) = cycle_keys db"
  by (simp_all add: cycle_keys_def)

lemmas key_frames = frame keeps_keys_update

lemma keeps_keys_mark: "keeps cycle_keys (mark_transport_pending ref action)"
  unfolding mark_transport_pending_def by (intro frame; simp)

lemma keeps_keys_1:
  "keeps cycle_keys (coord_initialize latch)"
  "keeps cycle_keys (coord_bind_generation g)"
  "keeps cycle_keys (initialize_inherited_market_attempt_baseline_once source target day n)"
  "keeps cycle_keys (evaluate_entry_intent g signal policy atr now)"
  "keeps cycle_keys (record_transport_outcome issuer ref action label)"
  "keeps cycle_keys (record_kill_rehearsal_pending_no_transport ref)"
  "keeps cycle_keys (resolve_pending_transport issuer ref snapshot bt digest now)"
  "keeps cycle_keys engage_unknown_halt"
  "keeps cycle_keys (reconcile_external_flat_no_post now generation reviewed evidence observed until flat orders write posts)"
  unfolding ledger_programs by (intro frame; simp)+

lemma keeps_keys_2:
  "keeps cycle_keys (entry_preflight_db e snapshot bundle fill b a digest now timestamp m)"
  "keeps cycle_keys (persist_exact_protection_plan issuer fingerprint price n now m')"
  "keeps cycle_keys (confirm_exact_protection_within_deadline fingerprint size' now m')"
  "keeps cycle_keys (market_attempt_db ea fp plan now ts m)"
  "keeps cycle_keys (protection_attempt_db fp plan protection rd ts m)"
  "keeps cycle_keys (risk_reducing_attempt_db fp plan snapshot bt digest now ts)"
  unfolding ledger_programs market_attempt_db_def protection_attempt_db_def risk_reducing_attempt_db_def fix_settlement_size_def
  by (intro key_frames; simp add: cycle_key_def)+

section \<open>Metadata of other keys\<close>

lemma keeps_meta_insert:
  assumes "k \<notin> fst ` set kvs"
  shows "keeps (meta_at k) (insert_meta kvs)"
proof (rule keepsI)
  fix db r db' assume "insert_meta kvs db = (r, db')"
  moreover have "map_of kvs k = None" using assms by (simp add: map_of_eq_None_iff)
  ultimately show "meta_at k db' = meta_at k db"
    by (auto simp: insert_meta_def meta_at_def map_add_def split: if_splits option.splits)
qed

lemma keeps_meta_upsert: "k \<noteq> k' \<Longrightarrow> keeps (meta_at k) (upsert_meta k' v)"
  by (rule keepsI) (auto simp: upsert_meta_def meta_at_def update_conv')

lemma keeps_meta_delete: "k \<noteq> k' \<Longrightarrow> keeps (meta_at k) (delete_meta k')"
  by (rule keepsI) (auto simp: delete_meta_def meta_at_def map_of_filter_key [of "\<lambda>x. x \<noteq> k'", simplified case_prod_unfold])

lemma meta_rows [simp]: "meta_at k (db\<lparr>kd_cycles := x\<rparr>) = meta_at k db" "meta_at k (db\<lparr>kd_attempts := x'\<rparr>) = meta_at k db"
  by (simp_all add: meta_at_def)

lemmas meta_frames = keeps_simple keeps_modify keeps_bind keeps_then keeps_catch keeps_try_except keeps_transaction keeps_if
  keeps_option keeps_sum keeps_prod keeps_bool keeps_meta_insert keeps_meta_upsert keeps_meta_delete
  keeps_update_cycles keeps_coord_insert keeps_insert_attempt

abbreviation marker_key :: string where
  "marker_key \<equiv> ''external_flat_reconciliation''"

lemma keeps_marker_1:
  "keeps (meta_at marker_key) (coord_initialize latch)"
  "keeps (meta_at marker_key) (coord_bind_generation g)"
  "keeps (meta_at marker_key) (initialize_inherited_market_attempt_baseline_once source target day n)"
  "keeps (meta_at marker_key) (evaluate_entry_intent g signal policy atr now)"
  "keeps (meta_at marker_key) (prepare_entry_intent g signal policy atr now)"
  "keeps (meta_at marker_key) (release_unattempted_reservation ref)"
  "keeps (meta_at marker_key) (record_transport_outcome issuer ref action label)"
  "keeps (meta_at marker_key) (record_kill_rehearsal_pending_no_transport ref)"
  "keeps (meta_at marker_key) (resolve_pending_transport issuer ref snapshot bt digest now)"
  "keeps (meta_at marker_key) engage_unknown_halt"
  unfolding ledger_programs by (intro meta_frames; simp add: generation_rows_def baseline_key_def)+

lemma keeps_marker_2:
  "keeps (meta_at marker_key) (entry_preflight_db e snapshot bundle fill b a digest now timestamp m)"
  "keeps (meta_at marker_key) (persist_exact_protection_plan issuer fingerprint price n now m')"
  "keeps (meta_at marker_key) (confirm_exact_protection_within_deadline fingerprint size' now m')"
  "keeps (meta_at marker_key) (record_closed_metrics_once_internal ref pnl)"
  "keeps (meta_at marker_key) (market_attempt_db ea fp plan now ts m)"
  "keeps (meta_at marker_key) (protection_attempt_db fp plan protection rd ts m)"
  "keeps (meta_at marker_key) (risk_reducing_attempt_db fp plan snapshot bt digest now ts)"
  unfolding ledger_programs market_attempt_db_def protection_attempt_db_def risk_reducing_attempt_db_def fix_settlement_size_def
  by (intro meta_frames; simp)+

section \<open>Operations of the world\<close>

lemma keeps_world: "keeps f m \<Longrightarrow> keeps (\<lambda>w. f (cw_db w)) (on_ledger_db m)"
  by (rule keepsI) (auto simp: ledger_run dest: keepsD)

lemma keeps_verifier: "keeps f (committed_attempt_verifier ref action d pd rd)"
  unfolding committed_attempt_verifier_def by (intro frame)

lemma keeps_prepared: "keeps (\<lambda>w. f (cw_db w)) (return_prepared_attempt plan ref action ts pd rd deadline)"
  unfolding return_prepared_attempt_def issue_persisted_action_authorization_def
  by (intro frame keeps_world keeps_verifier; simp)

lemma keeps_halt_read: "keeps f unknown_halt_latched"
  unfolding unknown_halt_latched_def by (intro frame)

lemma keeps_world_market:
  assumes "\<And>ea ts m. keeps f (market_attempt_db ea fp plan now ts m)"
  shows "keeps (\<lambda>w. f (cw_db w)) (record_market_attempt issuer i fp plan now m')"
  unfolding record_market_attempt_def consume_entry_def
  by (intro frame keeps_world keeps_prepared keeps_halt_read assms; simp)

lemma keeps_world_protection:
  assumes "\<And>ts m. keeps f (protection_attempt_db fp plan protection rd ts m)"
  shows "keeps (\<lambda>w. f (cw_db w)) (record_exact_protection_attempt issuer fp plan protection rd now m')"
  unfolding record_exact_protection_attempt_def by (intro frame keeps_world keeps_prepared assms)

lemma keeps_world_reducing:
  assumes "\<And>ts. keeps f (risk_reducing_attempt_db fp plan snapshot bt digest now ts)"
  shows "keeps (\<lambda>w. f (cw_db w)) (record_risk_reducing_attempt issuer fp plan snapshot bt digest now)"
  unfolding record_risk_reducing_attempt_def by (intro frame keeps_world keeps_prepared assms)

lemma keeps_world_preflight:
  assumes "\<And>b a ts m. keeps f (entry_preflight_db e snapshot bundle fill b a digest now ts m)"
  shows "keeps (\<lambda>w. f (cw_db w)) (record_entry_preflight issuer e snapshot bundle fill bid ask digest now m')"
  unfolding record_entry_preflight_def new_entry_authorization_def by (intro frame keeps_world assms; simp)

lemma keeps_world_consume:
  "keeps (\<lambda>w. f (cw_db w)) (consume_persisted_action_authorization i plan protection rd binding now)"
  "keeps (\<lambda>w. f (cw_db w)) (consume_persisted_transport_authorization i ref actions binding)"
  unfolding consume_persisted_action_authorization_def consume_persisted_transport_authorization_def
    V4PersistedTransportAuthorization_def consume_action_def consume_transport_def
  by (intro frame; simp)+

lemma keeps_world_restart:
  "keeps f (coord_initialize True) \<Longrightarrow> keeps (\<lambda>w. f (cw_db w)) (coord_exec OpRestart)"
  by (simp, intro keeps_answering keeps_then keeps_modify keeps_world) simp_all

fun changes_keys :: "coord_op \<Rightarrow> bool" where
  "changes_keys (OpReserve _ _ _ _ _) = True"
| "changes_keys (OpRelease _) = True"
| "changes_keys (OpClosed _ _) = True"
| "changes_keys _ = False"

lemma exec_keeps_keys: "\<not> changes_keys op \<Longrightarrow> keeps (\<lambda>w. cycle_keys (cw_db w)) (coord_exec op)"
  by (cases op)
    (simp_all add: keeps_answering keeps_world keeps_keys_1 keeps_keys_2 keeps_world_market keeps_world_protection
      keeps_world_reducing keeps_world_preflight keeps_world_consume keeps_world_restart [simplified])

lemma exec_keeps_marker:
  assumes "\<nexists>now generation reviewed evidence observed until flat orders write posts.
    op = OpReconcile now generation reviewed evidence observed until flat orders write posts"
  shows "keeps (\<lambda>w. meta_at marker_key (cw_db w)) (coord_exec op)"
  using assms by (cases op)
    (simp_all add: keeps_answering keeps_world keeps_marker_1 keeps_marker_2 keeps_world_market keeps_world_protection
      keeps_world_reducing keeps_world_preflight keeps_world_consume keeps_world_restart [simplified])

section \<open>The invariant\<close>

text \<open>The cycle the marker names.\<close>

definition marker_cycle :: "string option \<Rightarrow> string option" where
  "marker_cycle row = (case decode_external_flat_marker row of None \<Rightarrow> None
     | Some p \<Rightarrow> (case map_of p ''cycle_ref'' of Some (JStr ref) \<Rightarrow> Some ref | _ \<Rightarrow> None))"

definition open_refs :: "(string \<times> string \<times> int option) list \<Rightarrow> string list" where
  "open_refs ks = map fst (filter (\<lambda>k. snd (snd k) = None) ks)"

definition cycles_inv :: "(string \<times> string \<times> int option) list \<Rightarrow> string option \<Rightarrow> bool" where
  "cycles_inv ks marker \<longleftrightarrow> distinct (map fst ks) \<and> distinct (map (fst \<circ> snd) ks)
     \<and> (length (open_refs ks) \<le> 1
        \<or> length (open_refs ks) = 2 \<and> (\<exists>ref \<in> set (open_refs ks). marker_cycle marker = Some ref))"

definition coord_cycles_inv :: "coord_db \<Rightarrow> bool" where
  "coord_cycles_inv db \<longleftrightarrow> cycles_inv (cycle_keys db) (meta_at marker_key db)"

lemma open_refs_unresolved: "open_refs (cycle_keys db) = map k_ref (unresolved_cycles db)"
  by (simp add: open_refs_def cycle_keys_def unresolved_cycles_def cycle_key_def filter_map o_def)

lemma matches_marker_cycle:
  "external_flat_reconciliation_matches (decode_external_flat_marker row) ref generation now \<Longrightarrow> marker_cycle row = Some ref"
  by (cases "decode_external_flat_marker row") (simp_all add: external_flat_reconciliation_matches_def marker_cycle_def)

lemma distinct_open_refs: "distinct (map fst ks) \<Longrightarrow> distinct (open_refs ks)"
  by (simp add: open_refs_def distinct_map_filter)

text \<open>A list of distinct elements that are all the same has at most one.\<close>

lemma distinct_all_same: "distinct xs \<Longrightarrow> (\<forall>x \<in> set xs. x = a) \<Longrightarrow> length xs \<le> 1"
  by (cases xs; cases "tl xs") auto

lemma cycles_inv_filter:
  assumes "cycles_inv ks marker" and "map fst ks' = map fst (filter P ks)" "map (fst \<circ> snd) ks' = map (fst \<circ> snd) (filter P ks)"
    and "open_refs ks' = filter Q (open_refs ks)"
  shows "cycles_inv ks' marker"
proof -
  have "distinct (map fst ks')" "distinct (map (fst \<circ> snd) ks')"
    using assms(1-3) by (simp_all add: cycles_inv_def distinct_map_filter)
  moreover have "length (open_refs ks') \<le> 1
      \<or> length (open_refs ks') = 2 \<and> (\<exists>ref \<in> set (open_refs ks'). marker_cycle marker = Some ref)"
  proof (cases "length (filter Q (open_refs ks)) = length (open_refs ks)")
    case True
    then have "filter Q (open_refs ks) = open_refs ks"
      by (metis filter_id_conv length_filter_less less_irrefl)
    then show ?thesis using assms(1,4) by (simp add: cycles_inv_def)
  next
    case False
    then have "length (filter Q (open_refs ks)) < length (open_refs ks)"
      using length_filter_le [of Q "open_refs ks"] by linarith
    then show ?thesis using assms(1,4) by (auto simp: cycles_inv_def)
  qed
  ultimately show ?thesis by (simp add: cycles_inv_def)
qed

lemma reserve_db_inv: "stays coord_cycles_inv (reserve_cycle_db ref g signal policy risk day ts now)"
proof (rule staysI)
  fix db r db' assume inv: "coord_cycles_inv db" and run: "reserve_cycle_db ref g signal policy risk day ts now db = (r, db')"
  show "coord_cycles_inv db'"
  proof (cases "db' = db")
    case False
    from run False obtain c where c: "db' = db\<lparr>kd_cycles := kd_cycles db @ [c]\<rparr>" "k_pnl c = None"
      and new: "\<forall>r \<in> set (kd_cycles db). k_ref r \<noteq> k_ref c \<and> k_fingerprint r \<noteq> k_fingerprint c"
      and covered: "\<forall>c \<in> set (unresolved_cycles db). external_flat_reconciliation_matches
         (decode_external_flat_marker (meta_at marker_key db)) (k_ref c) (gen_digest g) now"
      unfolding reserve_cycle_db_def
      by (auto simp: run_progs coord_insert_cycle_def coord_new_cycle_def list_ex_iff list_all_iff
          split: if_splits prod.splits sum.splits)
    have named: "\<forall>ref \<in> set (open_refs (cycle_keys db)). marker_cycle (meta_at marker_key db) = Some ref"
      using covered matches_marker_cycle by (auto simp: open_refs_unresolved)
    have dist: "distinct (open_refs (cycle_keys db))" using inv distinct_open_refs by (simp add: coord_cycles_inv_def cycles_inv_def)
    have "length (open_refs (cycle_keys db)) \<le> 1"
      using distinct_all_same [OF dist, of "the (marker_cycle (meta_at marker_key db))"] named by force
    moreover have "open_refs (cycle_keys db') = open_refs (cycle_keys db) @ [k_ref c]"
      using c by (simp add: open_refs_def cycle_keys_def cycle_key_def)
    moreover have "distinct (map fst (cycle_keys db'))" "distinct (map (fst \<circ> snd) (cycle_keys db'))"
      using inv new c(1) by (auto simp: coord_cycles_inv_def cycles_inv_def cycle_keys_def cycle_key_def)
    moreover have "meta_at marker_key db' = meta_at marker_key db" using c(1) by simp
    ultimately show ?thesis using named unfolding coord_cycles_inv_def cycles_inv_def
      by (cases "open_refs (cycle_keys db)") auto
  qed (use inv in simp)
qed

lemma keeps_keys_evaluate: "keeps cycle_keys (validate_and_price_entry g signal policy atr now)"
  "keeps (meta_at marker_key) (validate_and_price_entry g signal policy atr now)"
  using keeps_keys_1(4) keeps_marker_1(4) by (simp_all add: evaluate_entry_intent_def)

lemma stays_views: "keeps f m \<Longrightarrow> keeps g m \<Longrightarrow> stays (\<lambda>s. P (f s) (g s)) m"
  by (rule staysI) (metis keepsD)

lemma stays_both: "keeps cycle_keys m \<Longrightarrow> keeps (meta_at marker_key) m \<Longrightarrow> stays coord_cycles_inv m"
  using stays_views [of cycle_keys m "meta_at marker_key" cycles_inv] by (simp add: coord_cycles_inv_def [abs_def])

lemma stays_reserve: "stays coord_cycles_inv (prepare_entry_intent g signal policy atr now)"
  unfolding prepare_entry_intent_def reserve_entry_cycle_def Let_def
  by (intro stay stays_both keeps_keys_evaluate reserve_db_inv)

lemma filtered_keys:
  "map fst (map cycle_key (filter P cs)) = map k_ref (filter P cs)"
  by (simp add: cycle_key_def)

lemma stays_release: "stays coord_cycles_inv (release_unattempted_reservation ref)"
proof (rule staysI)
  fix db r db' assume inv: "coord_cycles_inv db" and run: "release_unattempted_reservation ref db = (r, db')"
  define gone :: "coord_cycle \<Rightarrow> bool" where "gone = (\<lambda>c. k_ref c = ref \<and> k_attempted_at c = None \<and> k_pnl c = None)"
  have "db' = db \<or> db' = db\<lparr>kd_cycles := filter (\<lambda>c. \<not> gone c) (kd_cycles db)\<rparr>"
    using run by (auto simp: release_unattempted_reservation_def gone_def run_progs Let_def split: if_splits)
  then show "coord_cycles_inv db'"
  proof
    assume db': "db' = db\<lparr>kd_cycles := filter (\<lambda>c. \<not> gone c) (kd_cycles db)\<rparr>"
    show ?thesis
    proof (cases "\<exists>c \<in> set (kd_cycles db). gone c")
      case False
      then have "filter (\<lambda>c. \<not> gone c) (kd_cycles db) = kd_cycles db" by (simp add: filter_id_conv)
      then show ?thesis using inv db' by simp
    next
      case True
      then obtain g where g: "g \<in> set (kd_cycles db)" "gone g" by blast
      have uniq: "c = g" if "c \<in> set (kd_cycles db)" "k_ref c = ref" for c
        using inv that g by (auto simp: coord_cycles_inv_def cycles_inv_def cycle_keys_def cycle_key_def o_def gone_def
            distinct_map inj_on_def)
      have "gone c \<longleftrightarrow> k_ref c = ref" if "c \<in> set (kd_cycles db)" for c
        using uniq [OF that] g(2) by (auto simp: gone_def)
      then have only: "filter (\<lambda>c. \<not> gone c) (kd_cycles db) = filter (\<lambda>c. k_ref c \<noteq> ref) (kd_cycles db)"
        by (auto intro: filter_cong)
      have keys: "cycle_keys db' = filter (\<lambda>k. fst k \<noteq> ref) (cycle_keys db)"
        using db' only by (simp add: cycle_keys_def filter_map o_def cycle_key_def)
      have refs: "open_refs (cycle_keys db') = filter (\<lambda>x. x \<noteq> ref) (open_refs (cycle_keys db))"
        by (simp add: keys open_refs_def filter_map o_def conj_commute)
      have "cycles_inv (cycle_keys db') (meta_at marker_key db)"
        by (rule cycles_inv_filter [OF _ _ _ refs, of _ "\<lambda>k. fst k \<noteq> ref"])
          (use inv in \<open>simp_all add: coord_cycles_inv_def keys\<close>)
      then show ?thesis by (simp add: coord_cycles_inv_def db')
    qed
  qed (use inv in simp)
qed

lemma stays_closed: "stays coord_cycles_inv (record_closed_metrics_once_internal ref pnl)"
proof (rule staysI)
  fix db r db' assume inv: "coord_cycles_inv db" and run: "record_closed_metrics_once_internal ref pnl db = (r, db')"
  have "db' = db \<or> (\<exists>n net won. db' = db\<lparr>kd_cycles := update_rows (\<lambda>d. k_ref d = ref \<and> k_pnl d = None)
      (\<lambda>d. d\<lparr>k_pnl := Some n, k_net_pips := net, k_won := won\<rparr>) (kd_cycles db)\<rparr>)"
    using run by (auto simp: record_closed_metrics_once_internal_def coord_update_cycles_def run_progs Let_def
        split: option.splits sum.splits if_splits prod.splits)
  then show "coord_cycles_inv db'"
  proof
    assume "\<exists>n net won. db' = db\<lparr>kd_cycles := update_rows (\<lambda>d. k_ref d = ref \<and> k_pnl d = None)
      (\<lambda>d. d\<lparr>k_pnl := Some n, k_net_pips := net, k_won := won\<rparr>) (kd_cycles db)\<rparr>"
    then obtain n net won where db': "db' = db\<lparr>kd_cycles := update_rows (\<lambda>d. k_ref d = ref \<and> k_pnl d = None)
      (\<lambda>d. d\<lparr>k_pnl := Some n, k_net_pips := net, k_won := won\<rparr>) (kd_cycles db)\<rparr>" by blast
    have maps: "map fst (cycle_keys db') = map fst (cycle_keys db)" "map (fst \<circ> snd) (cycle_keys db') = map (fst \<circ> snd) (cycle_keys db)"
      by (simp_all add: db' cycle_keys_def cycle_key_def update_rows_def o_def)
    have "open_refs (map cycle_key (update_rows (\<lambda>d. k_ref d = ref \<and> k_pnl d = None)
        (\<lambda>d. d\<lparr>k_pnl := Some n, k_net_pips := net, k_won := won\<rparr>) cs))
      = filter (\<lambda>x. x \<noteq> ref) (open_refs (map cycle_key cs))" for cs :: "coord_cycle list"
      by (induction cs) (simp_all add: cycle_key_def open_refs_def update_rows_def)
    then have refs: "open_refs (cycle_keys db') = filter (\<lambda>x. x \<noteq> ref) (open_refs (cycle_keys db))"
      by (simp add: db' cycle_keys_def)
    show ?thesis
      using cycles_inv_filter [of "cycle_keys db" "meta_at marker_key db" "cycle_keys db'" "\<lambda>k. True", OF _ _ _ refs] inv maps
      by (simp add: coord_cycles_inv_def db')
  qed (use inv in simp)
qed

lemma stays_external_flat:
  "stays coord_cycles_inv (reconcile_external_flat_no_post now generation reviewed evidence observed until flat orders write posts)"
proof (rule staysI)
  fix db r db' assume inv: "coord_cycles_inv db"
    and run: "reconcile_external_flat_no_post now generation reviewed evidence observed until flat orders write posts db = (r, db')"
  have keys: "cycle_keys db' = cycle_keys db" using keepsD [OF keeps_keys_1(9) run] .
  have "db' = db \<or> length (unresolved_cycles db) = 1"
    using run by (auto simp: reconcile_external_flat_no_post_def run_progs upsert_meta_def Let_def split: option.splits if_splits)
  then show "coord_cycles_inv db'"
  proof
    assume "length (unresolved_cycles db) = 1"
    then have "length (open_refs (cycle_keys db)) = 1" by (simp add: open_refs_unresolved)
    then show ?thesis using inv keys by (simp add: coord_cycles_inv_def cycles_inv_def)
  qed (use inv in simp)
qed

lemma stays_world: "stays P m \<Longrightarrow> stays (\<lambda>w. P (cw_db w)) (on_ledger_db m)"
  by (rule staysI) (auto simp: ledger_run dest: staysD)

lemma stays_answering [stay]: "stays P m \<Longrightarrow> stays P (answering b m)"
  unfolding answering_def by (intro stay)

lemma exec_stays_cycles: "stays (\<lambda>w. coord_cycles_inv (cw_db w)) (coord_exec op)"
proof (cases "changes_keys op \<or> (\<exists>now generation reviewed evidence observed until flat orders write posts.
    op = OpReconcile now generation reviewed evidence observed until flat orders write posts)")
  case True
  then show ?thesis
    by (cases op) (simp_all add: stays_answering stays_world stays_reserve stays_release stays_closed stays_external_flat)
next
  case False
  then have "keeps (\<lambda>w. cycle_keys (cw_db w)) (coord_exec op)" "keeps (\<lambda>w. meta_at marker_key (cw_db w)) (coord_exec op)"
    using exec_keeps_keys exec_keeps_marker by blast+
  from stays_views [OF this, of cycles_inv] show ?thesis by (simp add: coord_cycles_inv_def)
qed

lemma coord_reach_cycles_inv: "coord_reach sent w \<Longrightarrow> coord_cycles_inv (cw_db w)"
proof (induction rule: coord_reach.induct)
  case (coord_new latch r db)
  then have "cycle_keys db = []" using keepsD [OF keeps_keys_1(1) coord_new] by (simp add: coord_empty_db_def cycle_keys_def)
  then show ?case by (simp add: coord_cycles_inv_def cycles_inv_def open_refs_def)
next
  case (coord_step sent w op r w')
  then show ?case using staysD [OF exec_stays_cycles coord_step(2)] by simp
qed

end
