(* ===== verification/V4_Coordinator_Halt.thy ===== *)
theory V4_Coordinator_Halt
  imports V4_Coordinator_Cycles
begin

text \<open>
  The unknown halt: what a latched halt refuses, that nothing but an external flat reconciliation
  releases it, and that no entry happens while it is latched.
\<close>

section \<open>The halt stays latched\<close>

abbreviation halt_key :: string where
  "halt_key \<equiv> ''unknown_halt_latched''"

lemma keeps_halt_1:
  "keeps (meta_at halt_key) (coord_bind_generation g)"
  "keeps (meta_at halt_key) (initialize_inherited_market_attempt_baseline_once source target day n)"
  "keeps (meta_at halt_key) (evaluate_entry_intent g signal policy atr now)"
  "keeps (meta_at halt_key) (prepare_entry_intent g signal policy atr now)"
  "keeps (meta_at halt_key) (release_unattempted_reservation ref)"
  "keeps (meta_at halt_key) (record_kill_rehearsal_pending_no_transport ref)"
  "keeps (meta_at halt_key) (resolve_pending_transport issuer ref snapshot bt digest now)"
  "keeps (meta_at halt_key) (record_closed_metrics_once_internal ref pnl)"
  unfolding ledger_programs by (intro meta_frames; simp add: generation_rows_def baseline_key_def)+

lemma keeps_halt_2:
  "keeps (meta_at halt_key) (entry_preflight_db e snapshot bundle fill b a digest now timestamp m)"
  "keeps (meta_at halt_key) (persist_exact_protection_plan issuer fingerprint price n now m')"
  "keeps (meta_at halt_key) (confirm_exact_protection_within_deadline fingerprint size' now m')"
  "keeps (meta_at halt_key) (market_attempt_db ea fp plan now ts m)"
  "keeps (meta_at halt_key) (protection_attempt_db fp plan protection rd ts m)"
  "keeps (meta_at halt_key) (risk_reducing_attempt_db fp plan snapshot bt digest now ts)"
  unfolding ledger_programs market_attempt_db_def protection_attempt_db_def risk_reducing_attempt_db_def fix_settlement_size_def
  by (intro meta_frames; simp)+

lemma stays_halt_meta:
  "stays coord_halted (insert_meta kvs)" "stays coord_halted (upsert_meta halt_key ''true'')"
  "k \<noteq> halt_key \<Longrightarrow> stays coord_halted (delete_meta k)"
  by (auto intro!: staysI simp: insert_meta_def upsert_meta_def delete_meta_def coord_halted_def meta_at_def update_conv'
      map_of_filter_key [of "\<lambda>x. x \<noteq> k", simplified case_prod_unfold] split: if_splits option.splits)

lemma stays_transaction [stay]: "stays P m \<Longrightarrow> stays P (transactionE m)"
  by (rule staysI) (auto simp: run_transaction dest: staysD split: prod.splits sum.splits)

lemma stays_halt_latching:
  "stays coord_halted (coord_initialize latch)"
  "stays coord_halted (record_transport_outcome issuer ref action label)"
  "stays coord_halted engage_unknown_halt"
  unfolding ledger_programs by (intro stay stays_halt_meta; simp)+

text \<open>The arguments with which a reconciliation can release the halt.\<close>

fun coord_releasing :: "coord_op \<Rightarrow> bool" where
  "coord_releasing (OpReconcile now generation reviewed evidence observed until flat orders write posts) \<longleftrightarrow>
     is_true flat \<and> is_true orders \<and> is_false write \<and> is_int_eq 0 posts
     \<and> external_flat_window_ok (to_utc observed) now (to_utc until)"
| "coord_releasing _ = False"

lemma refused_reconcile:
  assumes "\<not> coord_releasing (OpReconcile now generation reviewed evidence observed until flat orders write posts)"
  shows "reconcile_external_flat_no_post now generation reviewed evidence observed until flat orders write posts db = (Inr False, db)"
  using assms
  by (auto simp: reconcile_external_flat_no_post_def external_flat_request_ok_def run_progs Let_def split: option.splits)

lemma stays_halted_keeps: "keeps (meta_at halt_key) m \<Longrightarrow> stays coord_halted m"
  unfolding coord_halted_def by (rule stays_keeps)

lemma stays_halted_world_keeps: "keeps (\<lambda>w. meta_at halt_key (cw_db w)) m \<Longrightarrow> stays (\<lambda>w. coord_halted (cw_db w)) m"
  unfolding coord_halted_def by (rule stays_keeps)

lemma stays_refused:
  "\<not> coord_releasing (OpReconcile now generation reviewed evidence observed until flat orders write posts)
    \<Longrightarrow> stays P (reconcile_external_flat_no_post now generation reviewed evidence observed until flat orders write posts)"
  by (rule staysI) (simp add: refused_reconcile)

lemma exec_stays_halted: "\<not> coord_releasing op \<Longrightarrow> stays (\<lambda>w. coord_halted (cw_db w)) (coord_exec op)"
proof (cases op)
  case OpRestart
  then show ?thesis
    by (simp, intro stays_answering stays_then stays_world stays_halt_latching)
      (rule stays_halted_world_keeps, intro frame, simp)
qed (simp_all add: stays_answering stays_world stays_halted_keeps stays_halt_latching keeps_halt_1 keeps_halt_2 stays_refused
    stays_halted_world_keeps keeps_world_market keeps_world_protection keeps_world_reducing keeps_world_preflight
    keeps_world_consume del: coord_releasing.simps)

section \<open>What a latched halt refuses\<close>

lemma halted_after: "keeps (meta_at halt_key) m \<Longrightarrow> m db = (r, db') \<Longrightarrow> coord_halted db' = coord_halted db"
  by (auto simp: coord_halted_def dest: keepsD)

lemma halted_validate:
  assumes "coord_halted db"
  shows "\<exists>e. validate_and_price_entry g signal policy atr now db = (Inl e, snd (coord_bind_generation g db))"
  using assms halted_after [OF keeps_halt_1(1) [of g], of db]
  by (auto simp: validate_and_price_entry_def run_bind run_then unknown_halt_latched_def split: prod.splits sum.splits)

lemma halted_reserve:
  assumes "coord_halted db"
  shows "\<exists>e db'. prepare_entry_intent g signal policy atr now db = (Inl e, db') \<and> (db' = db \<or> db' = snd (coord_bind_generation g db))"
  using halted_validate [OF assms, of g signal policy atr now]
  by (auto simp: prepare_entry_intent_def reserve_entry_cycle_def run_bind run_then split: if_splits)

lemma halted_release: "coord_halted db \<Longrightarrow> release_unattempted_reservation ref db = (Inr False, db)"
  by (simp add: release_unattempted_reservation_def run_progs)

lemma halted_market:
  "coord_halted (cw_db w) \<Longrightarrow> \<exists>e. record_market_attempt issuer i fp plan now m w = (Inl e, w)"
  by (auto simp: record_market_attempt_def run_bind run_then split: option.splits if_splits)

lemma halted_consume:
  assumes "coord_halted (cw_db w)" "object_at (cw_actions w) i = Some a" "vf_action (aa_verifier a) = MARKET_ENTRY"
  shows "\<exists>e. consume_persisted_action_authorization i plan protection rd binding now w = (Inl e, w)"
proof -
  have "\<not> verify_committed (aa_verifier a) (cw_db w)"
    using assms by (auto simp: verify_committed_def Let_def split: option.splits)
  then show ?thesis using assms(2)
    by (auto simp: consume_persisted_action_authorization_def run_bind run_then split: if_splits)
qed

section \<open>No entry while halted\<close>

definition cycle_refs :: "coord_db \<Rightarrow> string list" where
  "cycle_refs db = map k_ref (kd_cycles db)"

definition market_rows :: "coord_db \<Rightarrow> coord_attempt list" where
  "market_rows db = filter (\<lambda>q. q_action q = MARKET_ENTRY) (kd_attempts db)"

lemma cycle_refs_keys: "cycle_refs db = map fst (cycle_keys db)"
  by (simp add: cycle_refs_def cycle_keys_def cycle_key_def)

lemma rows_meta [simp]: "market_rows (db\<lparr>kd_metadata := x\<rparr>) = market_rows db" "market_rows (db\<lparr>kd_cycles := y\<rparr>) = market_rows db"
  by (simp_all add: market_rows_def)

lemma keeps_rows_attempts: "keeps kd_attempts m \<Longrightarrow> keeps market_rows m"
  unfolding market_rows_def keeps_def by simp

lemma keeps_rows_insert: "q_action q \<noteq> MARKET_ENTRY \<Longrightarrow> keeps market_rows (coord_insert_attempt q)"
  by (rule keepsI) (auto simp: coord_insert_attempt_def market_rows_def split: if_splits)

lemmas row_frames = keeps_simple keeps_modify keeps_bind keeps_then keeps_catch keeps_try_except keeps_transaction keeps_if
  keeps_option keeps_sum keeps_prod keeps_bool keeps_rows_insert keeps_update_cycles keeps_rows_attempts [OF keeps_attempts_2(4)]

lemma keeps_rows_protection: "keeps market_rows (protection_attempt_db fp plan protection rd ts m)"
  unfolding protection_attempt_db_def by (intro row_frames; simp)

lemma keeps_rows_reducing: "pl_action plan \<noteq> MARKET_ENTRY \<Longrightarrow> keeps market_rows (risk_reducing_attempt_db fp plan snapshot bt digest now ts)"
  unfolding risk_reducing_attempt_db_def fix_settlement_size_def by (intro row_frames; simp)

lemma keeps_rows_reduce: "keeps (\<lambda>w. market_rows (cw_db w)) (record_risk_reducing_attempt issuer fp plan snapshot bt digest now)"
proof (cases "pl_action plan = MARKET_ENTRY")
  case True
  then show ?thesis
    by (intro keepsI) (auto simp: record_risk_reducing_attempt_def is_risk_reducing_def run_then split: if_splits)
next
  case False
  then show ?thesis by (rule keeps_world_reducing [OF keeps_rows_reducing])
qed

lemma exec_keeps_rows: "(\<nexists>issuer i fp plan now m. op = OpMarket issuer i fp plan now m) \<Longrightarrow> keeps (\<lambda>w. market_rows (cw_db w)) (coord_exec op)"
  by (cases op)
    (simp_all add: keeps_answering keeps_world keeps_rows_attempts keeps_attempts keeps_world_protection keeps_rows_protection
      keeps_rows_reduce keeps_world_preflight keeps_world_consume keeps_world_restart [simplified])

lemma keeps_refs_closed: "keeps cycle_refs (record_closed_metrics_once_internal ref pnl)"
  unfolding record_closed_metrics_once_internal_def Let_def
  by (intro frame keepsI) (auto simp: coord_update_cycles_def run_progs cycle_refs_def map_update_rows_key)

lemma exec_keeps_refs: "(\<nexists>g signal policy atr now. op = OpReserve g signal policy atr now) \<Longrightarrow> (\<nexists>ref. op = OpRelease ref)
    \<Longrightarrow> keeps (\<lambda>w. cycle_refs (cw_db w)) (coord_exec op)"
proof (cases "changes_keys op")
  case True
  moreover assume "\<nexists>g signal policy atr now. op = OpReserve g signal policy atr now" "\<nexists>ref. op = OpRelease ref"
  ultimately show ?thesis by (cases op) (simp_all add: keeps_answering keeps_world keeps_refs_closed)
next
  case False
  then show ?thesis using exec_keeps_keys [OF False] by (simp add: keeps_def cycle_refs_keys)
qed

definition halted_inv :: "string list \<Rightarrow> coord_attempt list \<Rightarrow> coord_world \<Rightarrow> bool" where
  "halted_inv refs rows w \<longleftrightarrow> coord_halted (cw_db w) \<and> cycle_refs (cw_db w) = refs \<and> market_rows (cw_db w) = rows"

lemma halted_step:
  assumes "halted_inv refs rows w" "coord_exec op w = (r, w')" "\<not> coord_releasing op"
  shows "halted_inv refs rows w'"
proof -
  have halted: "coord_halted (cw_db w)" using assms(1) by (simp add: halted_inv_def)
  have "coord_halted (cw_db w')" using staysD [OF exec_stays_halted [OF assms(3)] assms(2)] halted by simp
  moreover have "cycle_refs (cw_db w') = cycle_refs (cw_db w)"
  proof (cases "(\<exists>g signal policy atr now. op = OpReserve g signal policy atr now) \<or> (\<exists>ref. op = OpRelease ref)")
    case True
    then show ?thesis
    proof
      assume "\<exists>g signal policy atr now. op = OpReserve g signal policy atr now"
      then obtain g signal policy atr now where op: "op = OpReserve g signal policy atr now" by blast
      obtain e db' where db': "prepare_entry_intent g signal policy atr now (cw_db w) = (Inl e, db')"
        "db' = cw_db w \<or> db' = snd (coord_bind_generation g (cw_db w))"
        using halted_reserve [OF halted] by blast
      have "cycle_refs (snd (coord_bind_generation g (cw_db w))) = cycle_refs (cw_db w)"
        using keeps_keys_1(2) [of g] by (simp add: keeps_def cycle_refs_keys)
      then show ?thesis using assms(2) op db' by (auto simp: answering_def run_bind on_ledger_db_def run_zoom)
    next
      assume "\<exists>ref. op = OpRelease ref"
      then show ?thesis using assms(2) halted_release [OF halted]
        by (auto simp: answering_def run_bind on_ledger_db_def run_zoom)
    qed
  qed (use keepsD [OF exec_keeps_refs assms(2)] in blast)
  moreover have "market_rows (cw_db w') = market_rows (cw_db w)"
  proof (cases "\<exists>issuer i fp plan now m. op = OpMarket issuer i fp plan now m")
    case True
    then obtain issuer i fp plan now m where op: "op = OpMarket issuer i fp plan now m" by blast
    then show ?thesis using halted_market [OF halted, of issuer i fp plan now m] assms(2) by (auto simp: answering_def run_bind)
  qed (use keepsD [OF exec_keeps_rows assms(2)] in blast)
  ultimately show ?thesis using assms(1) by (simp add: halted_inv_def)
qed

fun coord_run :: "coord_op list \<Rightarrow> coord_world \<Rightarrow> coord_world" where
  "coord_run [] w = w"
| "coord_run (op # ops) w = coord_run ops (snd (coord_exec op w))"

lemma halted_run:
  "halted_inv refs rows w \<Longrightarrow> \<forall>op \<in> set ops. \<not> coord_releasing op \<Longrightarrow> halted_inv refs rows (coord_run ops w)"
proof (induction ops arbitrary: w)
  case (Cons op ops)
  have "halted_inv refs rows (snd (coord_exec op w))"
    using halted_step [OF Cons.prems(1), of op "fst (coord_exec op w)"] Cons.prems(2) by simp
  then show ?case using Cons.IH Cons.prems(2) by simp
qed simp

lemma coord_run_reach: "coord_reach sent w \<Longrightarrow> \<exists>sent'. coord_reach sent' (coord_run ops w)"
proof (induction ops arbitrary: sent w)
  case (Cons op ops)
  have "coord_reach (sent @ coord_sends op w) (snd (coord_exec op w))"
    by (rule coord_step [OF Cons.prems]) (rule prod.collapse [symmetric])
  then show ?case using Cons.IH by simp
qed auto

end
