(* ===== verification/V4_Coordinator_Loss.thy ===== *)
theory V4_Coordinator_Loss
  imports V4_Coordinator
begin

text \<open>
  The planned loss the coordinator freezes with a signal, against the stop \<open>V4_Protection\<close> computes
  for the fill: closing the position at the stop, even with the allowed adverse slippage, loses at
  most the planned amount.
\<close>

section \<open>The planned loss as a number\<close>

lemma fits_lits:
  "dec_fits 1 1 (dec_lit 15 (- 1))" "dval (dec_lit 15 (- 1)) = 3 / 2"
  "dec_fits 0 1 (dec_lit 1 (- 1))" "dval (dec_lit 1 (- 1)) = 1 / 10"
  "dec_fits 0 2 (dec_lit 1 (- 2))" "dval (dec_lit 1 (- 2)) = 1 / 100"
  "dec_fits 4 0 (dec_of_int 1000)" "dval (dec_of_int 1000) = 1000"
  by (simp_all add: dec_fits_def dec_lit_def dec_of_int_def dval_def signed_coeff_def pow10_def)

lemma planned_loss_fits:
  assumes "dec_fits 4 12 atr" "dec_fits 4 12 slip"
  shows "\<exists>z. planned_loss_decimal atr 1000 slip = Inr z \<and> dec_fits 13 15 z
    \<and> dval z = 1500 * dval atr + 1 + 10 * dval slip"
proof -
  obtain w where w: "dec_mul atr (dec_lit 15 (- 1)) = Inr w" "dval w = 3 / 2 * dval atr" "dec_fits 5 13 w"
    using dec_mul_fits [OF assms(1) fits_lits(1)] fits_lits(2) by auto
  obtain stop where stop: "dec_div w (dec_lit 1 (- 2)) = Inr stop" "dval stop = 150 * dval atr" "dec_fits 7 13 stop"
    using dec_div_fits [OF w(3), of 2] w(2) by (auto simp: dec_lit_def)
  obtain yen where times: "dec_mul (dec_of_int 1000) (dec_lit 1 (- 2)) = Inr yen"
    "dval yen = dval (dec_of_int 1000) * dval (dec_lit 1 (- 2))" "dec_fits (4 + 0) (0 + 2) yen"
    using dec_mul_fits [OF fits_lits(7,5)] by auto
  have yen: "dval yen = 10" "dec_fits 4 2 yen" using times(2,3) unfolding fits_lits(6,8) by (simp_all add: numeral_2_eq_2)
  have "dec_fits 7 13 (dec_lit 1 (- 1))" "dec_fits 8 13 slip"
    using fits_lits(3) assms(2) by (auto intro: fits_mono)
  then obtain x where x: "dec_add stop (dec_lit 1 (- 1)) = Inr x" "dval x = 150 * dval atr + 1 / 10" "dec_fits 8 13 x"
    using dec_add_fits [OF stop(3)] stop(2) fits_lits(4) by fastforce
  obtain y where y: "dec_add x slip = Inr y" "dval y = 150 * dval atr + 1 / 10 + dval slip" "dec_fits 9 13 y"
    using dec_add_fits [OF x(3) \<open>dec_fits 8 13 slip\<close>] x(2) by auto
  show ?thesis
    using dec_mul_fits [OF y(3) yen(2)] y yen times(1) w(1) stop(1) x(1)
    by (auto simp: planned_loss_decimal_def algebra_simps)
qed

lemma to_int_fits:
  assumes "dec_fits a 0 z" "dval z = of_int n"
  shows "dec_to_int z = Inr n"
proof -
  obtain s c e where z: "z = DFin s c e" "0 \<le> e" using assms(1) by (auto elim: dec_fitsE)
  have "(of_int (signed_coeff s c * 10 ^ nat e) :: rat) = of_int n"
    using assms(2) z by (simp add: dval_def pow10_def)
  then have "signed_coeff s c * 10 ^ nat e = n" by (simp only: of_int_eq_iff)
  moreover have "signed_coeff s (c * 10 ^ nat e) = signed_coeff s c * 10 ^ nat e" by (simp add: signed_coeff_def)
  ultimately show ?thesis using z by (simp add: dec_to_int_def)
qed

lemma canonical_fits:
  assumes "dec_fits 4 12 x"
  shows "\<exists>t. canonical_decimal x = Inr t"
proof -
  obtain s c e where x: "x = DFin s c e" "- int 12 \<le> e" "e \<le> int 4" "\<bar>dval x\<bar> < 10 ^ 4"
    using assms by (rule dec_fitsE)
  then have "dec_fix s c e = Inr (DFin s c e)" using fix_fits(1) [of s c e 4 12] by simp
  then show ?thesis by (simp add: canonical_decimal_def x(1) split: prod.splits)
qed

lemma planned_loss_levels:
  assumes "dec_fits 4 12 atr" "dec_fits 4 12 slip"
  shows "(\<exists>risk. calculate_v4_planned_loss fp atr quantity slip = Inr risk) \<longleftrightarrow>
      length fp = 64 \<and> 0 < dval atr \<and> quantity = 1000 \<and> 0 \<le> dval slip"
    and "calculate_v4_planned_loss fp atr quantity slip = Inr risk \<Longrightarrow>
      fr_planned_loss risk = \<lceil>1500 * dval atr + 1 + 10 * dval slip\<rceil> \<and> fr_fingerprint risk = fp"
proof -
  obtain z where z: "planned_loss_decimal atr 1000 slip = Inr z" "dec_fits 13 15 z"
    "dval z = 1500 * dval atr + 1 + 10 * dval slip" using planned_loss_fits [OF assms] by auto
  have "dec_to_int (dec_ceiling z) = Inr \<lceil>dval z\<rceil>"
    using to_int_fits [OF conjunct2 conjunct1, OF dec_to_integral_fits dec_to_integral_fits, OF z(2) z(2), of True] by simp
  moreover obtain s t where "canonical_decimal atr = Inr s" "canonical_decimal slip = Inr t"
    using canonical_fits assms by blast
  moreover have "dec_leR atr dec_zero = Inr (dval atr \<le> 0)" "dec_ltR slip dec_zero = Inr (dval slip < 0)"
    using dec_leR_fits [OF assms(1) fits_zero(1)] dec_leR_fits [OF assms(2) fits_zero(1)] by (simp_all add: fits_zero)
  ultimately show "(\<exists>risk. calculate_v4_planned_loss fp atr quantity slip = Inr risk) \<longleftrightarrow>
      length fp = 64 \<and> 0 < dval atr \<and> quantity = 1000 \<and> 0 \<le> dval slip"
    "calculate_v4_planned_loss fp atr quantity slip = Inr risk \<Longrightarrow>
      fr_planned_loss risk = \<lceil>1500 * dval atr + 1 + 10 * dval slip\<rceil> \<and> fr_fingerprint risk = fp"
    using z(1,3) by (auto simp: calculate_v4_planned_loss_def frozen_risk_input_bad_def guardR_def split: if_splits)
qed

section \<open>Property\<close>

text \<open>
  C39. For prices below ten thousand with at most twelve decimals: closing the protected position at
  its stop, with at most the allowed adverse slippage beyond it, loses at most the planned amount;
  that amount is less than two yen above one and a half ATR plus the allowance on a full position,
  and it only exists for a fingerprint of 64 characters, a positive ATR and an allowance that is not
  negative.
\<close>

definition loss_at_stop :: "v4_protection_plan \<Rightarrow> rat \<Rightarrow> rat \<Rightarrow> rat" where
  "loss_at_stop p fill slippage_pips =
     (\<bar>fill - dval (pp_stop_loss_price p)\<bar> + slippage_pips / 100) * of_int (pp_exact_filled_size p)"

theorem planned_loss_covers_stop:
  assumes "dec_fits 4 12 fill" "dec_fits 4 12 atr" "dec_fits 4 12 slip"
    and "calculate_v4_planned_loss fp atr quantity slip = Inr risk"
    and "build_exact_fill_oco_plan_no_post side fill atr filled_size = Inr p"
    and "0 \<le> exit_slippage" "exit_slippage \<le> dval slip"
  shows "loss_at_stop p (dval fill) exit_slippage \<le> of_int (fr_planned_loss risk)
    \<and> of_int (fr_planned_loss risk) < 1000 * (3 / 2 * dval atr + dval slip / 100) + 2
    \<and> length (fr_fingerprint risk) = 64 \<and> 0 < dval atr \<and> 0 \<le> dval slip"
proof -
  have pre: "length fp = 64" "0 < dval atr" "quantity = 1000" "0 \<le> dval slip"
    using planned_loss_levels(1) [OF assms(2,3), of fp quantity] assms(4) by auto
  have planned: "fr_planned_loss risk = \<lceil>1500 * dval atr + 1 + 10 * dval slip\<rceil>" "fr_fingerprint risk = fp"
    using planned_loss_levels(2) [OF assms(2,3,4)] by auto
  obtain stop target where levels: "(stop, target) = protection_levels side (dval fill) (dval atr)" by (metis surj_pair)
  have plan: "dval (pp_stop_loss_price p) = stop" "as_int filled_size = Some (pp_exact_filled_size p)"
    and n: "0 < pp_exact_filled_size p" "pp_exact_filled_size p \<le> 1000"
    using protection_plan_levels [OF assms(1,2) levels, of filled_size] assms(5) by auto
  have "\<bar>dval fill - stop\<bar> \<le> 3 / 2 * dval atr + 1 / 1000"
    using levels tick_bounds [of "dval fill - 3 / 2 * dval atr"] tick_bounds [of "dval fill + 3 / 2 * dval atr"] pre(2)
    by (auto simp: protection_levels_def abs_if split: if_splits)
  then have distance: "\<bar>dval fill - stop\<bar> + exit_slippage / 100 \<le> 3 / 2 * dval atr + 1 / 1000 + dval slip / 100"
    using assms(7) by linarith
  define x where "x = 1500 * dval atr + 1 + 10 * dval slip"
  have bounds: "x \<le> of_int \<lceil>x\<rceil>" "of_int \<lceil>x\<rceil> < x + 1" using ceiling_correct [of x] by simp_all
  have units: "(0 :: rat) \<le> of_int (pp_exact_filled_size p)" "(of_int (pp_exact_filled_size p) :: rat) \<le> 1000"
    using n of_int_le_iff [of "pp_exact_filled_size p" 1000, where ?'a = rat] by simp_all
  have "loss_at_stop p (dval fill) exit_slippage \<le> (3 / 2 * dval atr + 1 / 1000 + dval slip / 100) * 1000"
    unfolding loss_at_stop_def plan(1)
    using distance pre assms(6) units by (intro mult_mono) simp_all
  also have "\<dots> \<le> of_int (fr_planned_loss risk)" unfolding planned(1) x_def [symmetric] using bounds by (simp add: x_def algebra_simps)
  finally have "loss_at_stop p (dval fill) exit_slippage \<le> of_int (fr_planned_loss risk)" .
  moreover have "of_int (fr_planned_loss risk) < 1000 * (3 / 2 * dval atr + dval slip / 100) + 2"
    unfolding planned(1) x_def [symmetric] using bounds by (simp add: x_def algebra_simps)
  ultimately show ?thesis using pre planned(2) by simp
qed

lemma planned_loss_covers_stop_witness:
  "\<exists>risk p. calculate_v4_planned_loss (replicate 64 CHR ''a'') (DFin False 8 (- 2)) 1000 (DFin False 10 (- 1)) = Inr risk
    \<and> build_exact_fill_oco_plan_no_post BUY (DFin False 150123 (- 3)) (DFin False 8 (- 2)) (PyInt 1000) = Inr p
    \<and> loss_at_stop p (150123 / 1000) 1 \<le> of_int (fr_planned_loss risk) \<and> fr_planned_loss risk = 131"
proof -
  let ?fill = "DFin False 150123 (- 3)" and ?atr = "DFin False 8 (- 2)" and ?slip = "DFin False 10 (- 1)"
  have vals: "dval ?fill = 150123 / 1000" "dval ?atr = 8 / 100" "dval ?slip = 1"
    by (simp_all add: dval_def signed_coeff_def pow10_def)
  have fits: "dec_fits 4 12 ?fill" "dec_fits 4 12 ?atr" "dec_fits 4 12 ?slip" by (simp_all add: dec_fits_def vals)
  obtain risk where risk: "calculate_v4_planned_loss (replicate 64 CHR ''a'') ?atr 1000 ?slip = Inr risk"
    using planned_loss_levels(1) [OF fits(2,3), of "replicate 64 CHR ''a''" 1000] by (auto simp: vals)
  have levels: "(150003 / 1000, 150303 / 1000) = protection_levels BUY (dval ?fill) (dval ?atr)"
    by (simp add: protection_levels_def vals tick_down_def tick_up_def)
  obtain p where p: "build_exact_fill_oco_plan_no_post BUY ?fill ?atr (PyInt 1000) = Inr p"
    using protection_plan_levels [OF fits(1,2) levels, of "PyInt 1000"] by (auto simp: vals)
  have "fr_planned_loss risk = 131" using planned_loss_levels(2) [OF fits(2,3) risk] by (simp add: vals)
  then show ?thesis
    using planned_loss_covers_stop [OF fits risk p, of 1] risk p by (auto simp: vals)
qed

end
