(* ===== verification/V4_Coordinator_Samples.thy ===== *)
theory V4_Coordinator_Samples
  imports V4_Coordinator_Halt V4_Coordinator_Loss V4_Runtime_Samples
begin

text \<open>
  A sample run of the coordinator: the ledger is opened, a signal reserved, its preflight and its
  market attempt persisted, both proofs consumed and the outcome left open.
\<close>

section \<open>The sample generation and its cycle\<close>

definition coord_gen :: coord_generation where
  "coord_gen = \<lparr>gen_digest = ''sha256:g'', gen_canonical_json = ''{}'', gen_implementation_digest = ''i'',
     gen_operator_selection_digest = ''o'', gen_policy_config_hash = v4_config_hash sample_policy,
     gen_risk_policy_digest = ''r'', gen_dead_man_policy_digest = ''d'', gen_entry_disabled = False,
     gen_adverse_slippage_allowance_pips = ''1.0''\<rparr>"

definition coord_fingerprint :: string where
  "coord_fingerprint = signal_fingerprint sample_signal"

definition coord_ref :: string where
  "coord_ref = coord_cycle_ref ''sha256:g'' coord_fingerprint"

definition coord_atr :: decimal where
  "coord_atr = DFin False 8 (- 2)"

definition coord_risk :: frozen_signal_risk where
  "coord_risk = projr (calculate_v4_planned_loss coord_fingerprint coord_atr 1000 (DFin False 10 (- 1)))"

definition coord_probability :: string where
  "coord_probability = projr (canonical_decimal (DFin False 61 (- 2)))"

definition coord_stamp :: string where
  "coord_stamp = dt_isoformat (to_utc sample_now)"

definition coord_cycle0 :: coord_cycle where
  "coord_cycle0 = coord_new_cycle coord_ref sample_signal sample_policy coord_risk (jst_day sample_now)
     coord_probability (dt_isoformat (to_utc (s_valid_until sample_signal))) coord_stamp"

definition coord_rows :: "(string \<times> string) list" where
  "coord_rows = [(''schema_version'', V4_GMO_ACTUAL_COORDINATOR_SCHEMA), (''actual_post_allowed'', ''false'')] @ generation_rows coord_gen"

definition coord_db1 :: coord_db where
  "coord_db1 = \<lparr>kd_metadata = coord_rows, kd_cycles = [coord_cycle0], kd_attempts = []\<rparr>"

definition coord_world0 :: coord_world where
  "coord_world0 = \<lparr>cw_db = \<lparr>kd_metadata = [(''schema_version'', V4_GMO_ACTUAL_COORDINATOR_SCHEMA), (''actual_post_allowed'', ''false'')],
     kd_cycles = [], kd_attempts = []\<rparr>, cw_entries = [], cw_actions = [], cw_transports = []\<rparr>"

lemma coord_world0: "coord_reach [] coord_world0"
proof -
  have "coord_initialize False coord_empty_db = (Inr (), cw_db coord_world0)"
    by (simp add: coord_initialize_def coord_empty_db_def coord_world0_def run_progs meta_at_def insert_meta_def)
  from coord_new [OF this] show ?thesis by (simp add: coord_world0_def)
qed

lemma coord_risk:
  "calculate_v4_planned_loss coord_fingerprint coord_atr 1000 (DFin False 10 (- 1)) = Inr coord_risk"
  "fr_planned_loss coord_risk = 131"
proof -
  have vals: "dval coord_atr = 8 / 100" "dval (DFin False 10 (- 1)) = 1"
    by (simp_all add: coord_atr_def dval_def signed_coeff_def pow10_def)
  then have fits: "dec_fits 4 12 coord_atr" "dec_fits 4 12 (DFin False 10 (- 1))" by (simp_all add: coord_atr_def dec_fits_def)
  have "length coord_fingerprint = 64" by (simp add: coord_fingerprint_def signal_fingerprint_def)
  then show run: "calculate_v4_planned_loss coord_fingerprint coord_atr 1000 (DFin False 10 (- 1)) = Inr coord_risk"
    using planned_loss_levels(1) [OF fits, of coord_fingerprint 1000] by (auto simp: vals coord_risk_def)
  show "fr_planned_loss coord_risk = 131" using planned_loss_levels(2) [OF fits run] by (simp add: vals)
qed

lemma coord_loss_allowed: "131 \<le> v_max_loss_per_trade_yen sample_policy"
proof -
  have "\<exists>p. V4GmoExecutionPolicy sample_policy_args = Inr p \<and> v_max_loss_per_trade_yen p = 5000"
    using nonblank_samples
    by (simp add: V4GmoExecutionPolicy_def sample_policy_args_def v4_policy_defaults_def v4_immutable_requirements_def
        is_int_eq_def is_int_between_def is_int_tuple_def is_true_def is_false_def MAXIMUM_ENTRIES_PER_DAY_CEILING_def)
  then show ?thesis using sample_policy(1) by auto
qed

lemma coord_probability: "canonical_decimal (s_probability_up sample_signal) = Inr coord_probability"
proof -
  have "dec_fits 4 12 (DFin False 61 (- 2))" by (simp add: dec_fits_def dval_def signed_coeff_def pow10_def)
  then obtain t where "canonical_decimal (DFin False 61 (- 2)) = Inr t" using canonical_fits by blast
  then show ?thesis by (simp add: coord_probability_def sample_signal_def)
qed

lemma coord_times:
  "coord_timestamp sample_now = Inr coord_stamp"
  "coord_read_timestamp (dt_isoformat (to_utc (s_valid_until sample_signal))) = Inr (s_valid_until sample_signal)"
  "dt_less (to_utc sample_now) (s_valid_until sample_signal)"
  "dt_leq (s_valid_until sample_signal) sample_now \<longleftrightarrow> False"
  "v4_gmo_trading_day_jst sample_now = Inr (jst_day sample_now)"
  "coord_timestamp (s_valid_until sample_signal) = Inr (dt_isoformat (to_utc (s_valid_until sample_signal)))"
proof -
  have "to_utc (s_valid_until sample_signal) = s_valid_until sample_signal" by (simp add: to_utc_def dt_astimezone_def dt_utc_def)
  moreover have "dt_in_range (s_valid_until sample_signal)" by (simp add: dt_in_range_def) code_simp
  ultimately show "coord_read_timestamp (dt_isoformat (to_utc (s_valid_until sample_signal))) = Inr (s_valid_until sample_signal)"
    by (simp add: coord_read_timestamp_def dt_round_trip dt_aware_def)
qed (simp_all add: coord_timestamp_def coord_stamp_def v4_gmo_trading_day_jst_def dt_aware_def sample_now_def dt_less_def dt_leq_def
    to_utc_def dt_astimezone_def dt_utc_def)

lemmas coord_clock = coord_times coord_times [unfolded sample_signal_fields]

section \<open>The reservation\<close>

lemma coord_reserved:
  "prepare_entry_intent coord_gen sample_signal sample_policy coord_atr sample_now (cw_db coord_world0) = (Inr coord_risk, coord_db1)"
proof -
  have slip: "decimal_of_text ''1.0'' = Inr (DFin False 10 (- 1))"
    by (simp add: decimal_of_text_def) code_simp
  have bind: "coord_bind_generation coord_gen (cw_db coord_world0) = (Inr (), \<lparr>kd_metadata = coord_rows, kd_cycles = [], kd_attempts = []\<rparr>)"
    by (simp add: coord_bind_generation_def Let_def run_progs coord_world0_def generation_rows_def meta_at_def insert_meta_def coord_rows_def)
  have fresh: "coord_halted \<lparr>kd_metadata = coord_rows, kd_cycles = [], kd_attempts = []\<rparr> \<longleftrightarrow> False"
    "meta_at ''external_flat_reconciliation'' \<lparr>kd_metadata = coord_rows, kd_cycles = [], kd_attempts = []\<rparr> = None"
    by (simp_all add: coord_halted_def meta_at_def coord_rows_def generation_rows_def)
  have price: "validate_and_price_entry coord_gen sample_signal sample_policy coord_atr sample_now (cw_db coord_world0)
      = (Inr coord_risk, \<lparr>kd_metadata = coord_rows, kd_cycles = [], kd_attempts = []\<rparr>)"
    by (simp add: validate_and_price_entry_def run_bind run_then bind unknown_halt_latched_def fresh coord_clock sample_accepts
        coord_risk coord_loss_allowed slip sample_policy coord_fingerprint_def [symmetric]) (simp add: coord_gen_def run_then slip coord_risk coord_loss_allowed coord_clock)
  show ?thesis
    by (simp add: prepare_entry_intent_def reserve_entry_cycle_def run_bind run_then price coord_clock)
      (simp add: reserve_cycle_db_def run_progs fresh coord_probability coord_clock unresolved_cycles_def coord_insert_cycle_def coord_db1_def coord_cycle0_def
        coord_new_cycle_def coord_gen_def coord_ref_def coord_fingerprint_def)
qed

section \<open>Preflight and market attempt\<close>

definition coord_binding :: string where
  "coord_binding = ''sha256:'' @ replicate 64 CHR ''0''"

definition coord_evidence :: entry_evidence where
  "coord_evidence = \<lparr>ev_generation_digest = ''sha256:g'', ev_ref = coord_ref, ev_fingerprint = coord_fingerprint,
     ev_clock_status = V4_CLOCK_STATUS_REQUIRED, ev_notification_status = V4_NOTIFICATION_STATUS_REQUIRED,
     ev_account_exclusivity = V4_ACCOUNT_EXCLUSIVITY_REQUIRED, ev_unowned_positions = 0, ev_active_orders = 0,
     ev_unowned_active_orders = 0\<rparr>"

definition coord_price_text :: string where
  "coord_price_text = projr (canonical_decimal (DFin False 150 0))"

definition coord_preflight :: string where
  "coord_preflight = preflight_payload coord_evidence sample_flat coord_price_text coord_price_text coord_binding"

definition coord_preflight_digest :: string where
  "coord_preflight_digest = ''sha256:'' @ sha256_hex coord_preflight"

definition coord_cycle1 :: coord_cycle where
  "coord_cycle1 = coord_cycle0\<lparr>k_preflight_json := Some coord_preflight, k_preflight_digest := Some coord_preflight_digest,
     k_preflight_at := Some coord_stamp, k_preflight_monotonic := Some 0,
     k_bid := Some coord_price_text, k_ask := Some coord_price_text\<rparr>"

definition coord_plan :: v4_plan where
  "coord_plan = \<lparr>pl_cycle_ref = coord_ref, pl_action = MARKET_ENTRY, pl_side = BUY, pl_requested_size = 1000,
     pl_protection_hash = None, pl_route = ''R'', pl_actual_post_allowed = False, pl_credential_read_allowed = False,
     pl_network_access_allowed = False\<rparr>"

definition coord_attempt0 :: coord_attempt where
  "coord_attempt0 = \<lparr>q_ref = coord_ref, q_action = MARKET_ENTRY, q_attempted_at = coord_stamp,
     q_plan_digest = persisted_plan_digest coord_plan, q_reconciliation = None\<rparr>"

definition coord_cycle2 :: coord_cycle where
  "coord_cycle2 = coord_cycle1\<lparr>k_attempted_at := Some coord_stamp, k_attempted_monotonic := Some 0\<rparr>"

definition coord_db2 :: coord_db where
  "coord_db2 = \<lparr>kd_metadata = coord_rows @ [(''pending_transport_attempt'', pending_payload coord_ref MARKET_ENTRY)],
     kd_cycles = [coord_cycle2], kd_attempts = [coord_attempt0]\<rparr>"

definition coord_entry :: entry_authorization where
  "coord_entry = \<lparr>ea_ref = coord_ref, ea_fingerprint = coord_fingerprint, ea_preflight_digest = coord_preflight_digest,
     ea_consumed = False\<rparr>"

definition coord_action :: action_authorization where
  "coord_action = \<lparr>aa_plan_digest = persisted_plan_digest coord_plan, aa_protection_digest = None, aa_reconciliation_digest = None,
     aa_deadline = None, aa_verifier = \<lparr>vf_ref = coord_ref, vf_action = MARKET_ENTRY,
       vf_plan_digest = persisted_plan_digest coord_plan, vf_protection_digest = None, vf_reconciliation_digest = None,
       vf_generation_digest = ''sha256:g''\<rparr>, aa_consumed = False\<rparr>"

definition coord_proof :: transport_authorization where
  "coord_proof = \<lparr>ta_ref = coord_ref, ta_action = MARKET_ENTRY, ta_plan_digest = persisted_plan_digest coord_plan,
     ta_binding_digest = coord_binding, ta_consumed = False\<rparr>"

definition coord_world1 :: coord_world where
  "coord_world1 = \<lparr>cw_db = coord_db1\<lparr>kd_cycles := [coord_cycle1]\<rparr>, cw_entries = [coord_entry], cw_actions = [], cw_transports = []\<rparr>"

definition coord_world2 :: coord_world where
  "coord_world2 = \<lparr>cw_db = coord_db2, cw_entries = [coord_entry\<lparr>ea_consumed := True\<rparr>], cw_actions = [coord_action], cw_transports = []\<rparr>"

definition coord_world3 :: coord_world where
  "coord_world3 = coord_world2\<lparr>cw_actions := [coord_action\<lparr>aa_consumed := True\<rparr>], cw_transports := [coord_proof]\<rparr>"

lemma coord_meta:
  "meta_at ''generation_digest'' \<lparr>kd_metadata = coord_rows, kd_cycles = x, kd_attempts = y\<rparr> = Some ''sha256:g''"
  "meta_at ''pending_transport_attempt'' \<lparr>kd_metadata = coord_rows, kd_cycles = x, kd_attempts = y\<rparr> = None"
  "meta_at ''unknown_halt_latched'' \<lparr>kd_metadata = coord_rows, kd_cycles = x, kd_attempts = y\<rparr> = None"
  "meta_at ''generation_digest'' coord_db2 = Some ''sha256:g''"
  "meta_at ''pending_transport_attempt'' coord_db2 = Some (pending_payload coord_ref MARKET_ENTRY)"
  "meta_at ''unknown_halt_latched'' coord_db2 = None"
  "\<not> coord_halted \<lparr>kd_metadata = coord_rows, kd_cycles = x, kd_attempts = y\<rparr>" "\<not> coord_halted coord_db2"
  by (simp_all add: coord_halted_def meta_at_def coord_rows_def generation_rows_def coord_gen_def coord_db2_def)

lemma coord_cycle0_fields:
  "k_ref coord_cycle0 = coord_ref" "k_fingerprint coord_cycle0 = coord_fingerprint" "k_side coord_cycle0 = BUY"
  "k_requested_size coord_cycle0 = 1000" "k_valid_until coord_cycle0 = dt_isoformat (to_utc (s_valid_until sample_signal))"
  "k_preflight_digest coord_cycle0 = None" "k_attempted_at coord_cycle0 = None"
  by (simp_all add: coord_cycle0_def coord_new_cycle_def coord_fingerprint_def sample_policy)

lemma coord_cycle1_fields:
  "k_ref coord_cycle1 = coord_ref" "k_fingerprint coord_cycle1 = coord_fingerprint" "k_side coord_cycle1 = BUY"
  "k_requested_size coord_cycle1 = 1000" "k_valid_until coord_cycle1 = dt_isoformat (to_utc (s_valid_until sample_signal))"
  "k_preflight_digest coord_cycle1 = Some coord_preflight_digest" "k_preflight_monotonic coord_cycle1 = Some 0"
  by (simp_all add: coord_cycle1_def coord_cycle0_fields)

lemma coord_cycle2_fields:
  "k_ref coord_cycle2 = coord_ref" "k_fingerprint coord_cycle2 = coord_fingerprint" "k_side coord_cycle2 = BUY"
  "k_preflight_digest coord_cycle2 = Some coord_preflight_digest"
  by (simp_all add: coord_cycle2_def coord_cycle1_fields)

lemma coord_price: "canonical_decimal (DFin False 150 0) = Inr coord_price_text"
proof -
  have "dec_fits 4 12 (DFin False 150 0)" by (simp add: dec_fits_def dval_def signed_coeff_def pow10_def)
  then obtain t where "canonical_decimal (DFin False 150 0) = Inr t" using canonical_fits by blast
  then show ?thesis by (simp add: coord_price_text_def)
qed

lemma coord_binding: "valid_digest coord_binding"
  unfolding coord_binding_def by code_simp

lemma coord_preflight_run:
  "record_entry_preflight True coord_evidence sample_flat False False (PyDecimal (DFin False 150 0)) (PyDecimal (DFin False 150 0))
     coord_binding sample_now (Some 0) (coord_world0\<lparr>cw_db := coord_db1\<rparr>) = (Inr 0, coord_world1)"
proof -
  have quote: "reference_quote_ok (PyDecimal (DFin False 150 0)) (PyDecimal (DFin False 150 0)) = Some (DFin False 150 0, DFin False 150 0)"
    by code_simp
  have valid: "preflight_valid coord_evidence sample_flat False False coord_binding sample_now (Some ''sha256:g'') (Some coord_cycle0) = Inr True"
    by (simp add: preflight_valid_def coord_cycle0_fields coord_evidence_def coord_clock preflight_facts_ok_def sample_flat_def coord_binding)
  have "entry_preflight_db coord_evidence sample_flat False False (DFin False 150 0) (DFin False 150 0) coord_binding sample_now coord_stamp 0 coord_db1
      = (Inr coord_preflight_digest, coord_db1\<lparr>kd_cycles := [coord_cycle1]\<rparr>)"
    by (simp add: entry_preflight_db_def run_progs Let_def coord_db1_def coord_meta coord_find_def select_one_def coord_cycle0_fields
        valid coord_price coord_update_cycles_def count_rows_def update_rows_def coord_cycle1_def coord_preflight_def coord_preflight_digest_def)
      (simp add: coord_evidence_def coord_cycle0_fields valid)
  then show ?thesis
    by (simp add: record_entry_preflight_def require_monotonic_def run_progs quote coord_clock on_ledger_db_def new_entry_authorization_def
        coord_world0_def coord_world1_def coord_entry_def) (simp add: coord_evidence_def)
qed

lemma coord_market_run:
  "\<exists>prepared. record_market_attempt True 0 coord_fingerprint coord_plan sample_now (Some 0) coord_world1 = (Inr prepared, coord_world2)"
proof -
  have elapsed: "elapsed_within V4_ENTRY_PREFLIGHT_MAX_AGE_SECONDS 0 0"
    by (simp add: elapsed_within_def float_sub_def float_round_def V4_ENTRY_PREFLIGHT_MAX_AGE_SECONDS_def)
  have "market_plan_matches coord_entry coord_plan sample_now (s_valid_until sample_signal) 0 coord_cycle1"
    unfolding market_plan_matches_def coord_cycle1_fields by (simp add: coord_plan_def coord_entry_def coord_clock elapsed)
  then have plan: "market_plan_matches coord_entry coord_plan sample_now \<lparr>dt_local = 63900001800000000, dt_offset = Some 0\<rparr> 0 coord_cycle1"
    by simp
  have "market_attempt_db coord_entry coord_fingerprint coord_plan sample_now coord_stamp 0 (coord_db1\<lparr>kd_cycles := [coord_cycle1]\<rparr>)
      = (Inr coord_ref, coord_db2)"
    by (simp add: market_attempt_db_def run_progs coord_find_signal_def coord_db1_def select_one_def coord_cycle1_fields coord_clock plan
        coord_insert_attempt_def mark_transport_pending_def coord_meta insert_meta_def coord_update_cycles_def update_rows_def)
      (simp add: coord_db2_def coord_cycle2_def coord_attempt0_def coord_meta meta_at_def)
  then show ?thesis
    by (simp add: record_market_attempt_def run_progs coord_world1_def object_at_def coord_entry_def unknown_halt_latched_def
        coord_db1_def coord_meta require_monotonic_def coord_clock)
      (simp add: on_ledger_db_def run_progs consume_entry_def return_prepared_attempt_def committed_attempt_verifier_def coord_meta
        issue_persisted_action_authorization_def coord_world2_def coord_action_def coord_entry_def)
qed

lemma coord_find_db2: "coord_find_attempt coord_ref MARKET_ENTRY coord_db2 = Some coord_attempt0"
    "coord_find coord_ref coord_db2 = Some coord_cycle2"
  by (simp_all add: coord_find_attempt_def coord_find_def select_one_def coord_db2_def coord_attempt0_def coord_cycle2_fields)

lemma coord_consume_run:
  "consume_persisted_action_authorization 0 coord_plan None None coord_binding (Some 0) coord_world2 = (Inr 0, coord_world3)"
proof -
  have "verify_committed (aa_verifier coord_action) coord_db2"
    using coord_find_db2 by (simp add: verify_committed_def coord_action_def coord_meta coord_attempt0_def coord_cycle2_fields)
  moreover have "cw_db coord_world2 = coord_db2" "cw_actions coord_world2 = [coord_action]" "cw_transports coord_world2 = []"
    by (simp_all add: coord_world2_def)
  moreover have "\<not> aa_consumed coord_action" "aa_plan_digest coord_action = persisted_plan_digest coord_plan"
    "aa_reconciliation_digest coord_action = None" "aa_protection_digest coord_action = None"
    by (simp_all add: coord_action_def)
  moreover have "pl_action coord_plan = MARKET_ENTRY" "pl_cycle_ref coord_plan = coord_ref" by (simp_all add: coord_plan_def)
  ultimately show ?thesis
    by (simp add: consume_persisted_action_authorization_def run_progs object_at_def coord_binding valid_monotonic_def
        V4PersistedTransportAuthorization_def consume_action_def coord_world3_def coord_proof_def)
qed

lemma coord_send_run:
  "\<exists>w. consume_persisted_transport_authorization 0 coord_ref [MARKET_ENTRY] coord_binding coord_world3 = (Inr (), w)
    \<and> cw_db w = coord_db2"
  by (simp add: consume_persisted_transport_authorization_def run_progs coord_world3_def coord_world2_def object_at_def coord_proof_def
      consume_transport_def)

section \<open>Runs\<close>

lemma coord_reach_world3: "coord_reach [] coord_world3"
proof -
  have "coord_reach [] (coord_world0\<lparr>cw_db := coord_db1\<rparr>)"
    using coord_step [OF coord_world0, of "OpReserve coord_gen sample_signal sample_policy coord_atr sample_now"] coord_reserved
    by (simp add: coord_sends_def answering_def on_ledger_db_def run_progs)
  from coord_step [OF this, of "OpPreflight True coord_evidence sample_flat False False (PyDecimal (DFin False 150 0))
      (PyDecimal (DFin False 150 0)) coord_binding sample_now (Some 0)"]
  have "coord_reach [] coord_world1" by (simp add: coord_sends_def answering_def run_progs coord_preflight_run)
  from coord_step [OF this, of "OpMarket True 0 coord_fingerprint coord_plan sample_now (Some 0)"]
  have "coord_reach [] coord_world2" using coord_market_run by (auto simp: coord_sends_def answering_def run_progs)
  from coord_step [OF this, of "OpConsumeAction 0 coord_plan None None coord_binding (Some 0)"]
  show ?thesis by (simp add: coord_sends_def answering_def run_progs coord_consume_run)
qed

lemma coord_reach_sent: "\<exists>w. coord_reach [coord_proof] w \<and> cw_db w = coord_db2"
proof -
  obtain w where w: "consume_persisted_transport_authorization 0 coord_ref [MARKET_ENTRY] coord_binding coord_world3 = (Inr (), w)"
    "cw_db w = coord_db2" using coord_send_run by blast
  have "coord_exec (OpConsumeTransport 0 coord_ref [MARKET_ENTRY] coord_binding) coord_world3 = (Inr False, w)"
    by (simp add: answering_def run_progs w(1))
  from coord_step [OF coord_reach_world3 this] show ?thesis using w
    by (auto simp: coord_sends_def answering_def run_progs coord_world3_def)
qed

end
