(* ===== verification/V4_Coordinator_Properties.thy ===== *)
theory V4_Coordinator_Properties
  imports V4_Coordinator_Samples
begin

text \<open>
  The properties of the coordinator over every sequence of operations and restarts, and of the
  recovery of a crashed transport.
\<close>

section \<open>Plans and their digests\<close>

lemma action_value_inject: "action_value a = action_value b \<longleftrightarrow> a = b"
  by (cases a; cases b) simp_all

lemma persisted_plan_text_key:
  assumes "json_dumps (persisted_plan_json p) = json_dumps (persisted_plan_json p')"
  shows "coord_plan_key p = coord_plan_key p'"
proof -
  let ?kvs = "\<lambda>p. case persisted_plan_json p of JObj kvs \<Rightarrow> kvs | _ \<Rightarrow> []"
  have "map_of (?kvs p) = map_of (?kvs p')"
    by (rule json_object_inj) (use assms in \<open>auto simp: persisted_plan_json_def split: option.splits\<close>)
  then have "map_of (?kvs p) k = map_of (?kvs p') k" for k by simp
  from this [of "''action''"] this [of "''cycle_ref''"] show ?thesis
    by (simp add: persisted_plan_json_def coord_plan_key_def action_value_inject)
qed

text \<open>
  Two different plan texts with one SHA-256 digest: that of a proof that was sent and that of an
  attempt of another cycle or action.
\<close>

definition plan_collision :: "transport_authorization list \<Rightarrow> coord_db \<Rightarrow> bool" where
  "plan_collision sent db \<longleftrightarrow> (\<exists>p p'. \<exists>t \<in> set sent. \<exists>q \<in> set (kd_attempts db).
     coord_plan_key p = (ta_ref t, ta_action t) \<and> persisted_plan_digest p = ta_plan_digest t
     \<and> coord_plan_key p' = coord_attempt_key q \<and> persisted_plan_digest p' = q_plan_digest q
     \<and> json_dumps (persisted_plan_json p) \<noteq> json_dumps (persisted_plan_json p')
     \<and> persisted_plan_digest p = persisted_plan_digest p')"

text \<open>Two sends of one cycle and action need two attempt rows, one of them of another key.\<close>

lemma repeated_element:
  "\<not> distinct (map f xs) \<Longrightarrow> \<exists>x y. {#x, y#} \<subseteq># mset xs \<and> f x = f y"
proof (induction xs)
  case (Cons x xs)
  show ?case
  proof (cases "distinct (map f xs)")
    case True
    then obtain y where y: "y \<in> set xs" "f x = f y" using Cons.prems by auto
    then have "{#y#} \<subseteq># mset xs" by simp
    then have "{#x, y#} \<subseteq># mset (x # xs)" by (simp add: add_mset_commute [of x])
    then show ?thesis using y(2) by blast
  next
    case False
    then obtain y z where yz: "{#y, z#} \<subseteq># mset xs" "f y = f z" using Cons.IH by blast
    have "mset xs \<subseteq># mset (x # xs)" by simp
    then have "{#y, z#} \<subseteq># mset (x # xs)" by (rule subset_mset.order_trans [OF yz(1)])
    then show ?thesis using yz(2) by blast
  qed
qed simp

text \<open>Rows of distinct keys hold two digests only if a row of another key holds one of them.\<close>

lemma two_rows:
  assumes "{#d, d'#} \<subseteq># image_mset g (mset rows)" and "distinct (map f rows)"
  obtains q where "q \<in> set rows" "g q \<in> {d, d'}" "f q \<noteq> k"
proof -
  let ?both = "filter (\<lambda>q. g q \<in> {d, d'}) rows"
  have "{#d, d'#} \<subseteq># image_mset g (mset ?both)"
    using multiset_filter_mono [OF assms(1), of "\<lambda>x. x \<in> {d, d'}"]
    by (simp add: filter_mset_image_mset)
  then have "size {#d, d'#} \<le> size (image_mset g (mset ?both))" by (rule size_mset_mono)
  then have "2 \<le> length (map f ?both)" by (simp only: size_image_mset size_mset length_map) simp
  moreover have "distinct (map f ?both)" using assms(2) by (rule distinct_map_filter)
  ultimately have "\<not> (\<forall>x \<in> set (map f ?both). x = k)" using distinct_all_same [of "map f ?both" k] by fastforce
  then show thesis using that by auto
qed

lemma two_sends_collide:
  assumes inv: "coord_sent_inv sent w" and twice: "\<not> distinct (map (\<lambda>t. (ta_ref t, ta_action t)) sent)"
  shows "plan_collision sent (cw_db w)"
proof -
  let ?rows = "kd_attempts (cw_db w)"
  obtain t u where tu: "{#t, u#} \<subseteq># mset sent" and same: "(ta_ref t, ta_action t) = (ta_ref u, ta_action u)"
    using repeated_element [OF twice] by blast
  have "image_mset ta_plan_digest (mset sent) \<subseteq># image_mset q_plan_digest (mset ?rows)"
    using inv unfolding coord_sent_inv_def by (meson mset_subset_eq_add_left subset_mset.order_trans)
  then have two: "{#ta_plan_digest t, ta_plan_digest u#} \<subseteq># image_mset q_plan_digest (mset ?rows)"
    using image_mset_subseteq_mono [OF tu, of ta_plan_digest] by (auto intro: subset_mset.order_trans)
  have rows: "distinct (map coord_attempt_key ?rows)" using inv by (simp add: coord_sent_inv_def attempts_ok_def)
  obtain q where q: "q \<in> set ?rows" "q_plan_digest q \<in> {ta_plan_digest t, ta_plan_digest u}"
    and other: "coord_attempt_key q \<noteq> (ta_ref t, ta_action t)"
    using two_rows [OF two rows] by blast
  obtain v where v: "v \<in> {t, u}" "q_plan_digest q = ta_plan_digest v" using q(2) by blast
  then have key: "(ta_ref v, ta_action v) = (ta_ref t, ta_action t)" using same by auto
  have sent: "v \<in> set sent" using v(1) tu by (auto dest: mset_subset_eqD)
  obtain p where p: "coord_plan_key p = (ta_ref v, ta_action v)" "persisted_plan_digest p = ta_plan_digest v"
    using inv sent by (auto simp: coord_sent_inv_def proof_ok_def)
  obtain p' where p': "coord_plan_key p' = coord_attempt_key q" "persisted_plan_digest p' = q_plan_digest q"
    using inv q(1) by (auto simp: coord_sent_inv_def attempts_ok_def)
  have "json_dumps (persisted_plan_json p) \<noteq> json_dumps (persisted_plan_json p')"
    using persisted_plan_text_key [of p p'] p(1) p'(1) key other by metis
  moreover have "persisted_plan_digest p = persisted_plan_digest p'" using p(2) p'(2) v(2) by simp
  ultimately show ?thesis unfolding plan_collision_def using p p' q(1) sent by blast
qed

section \<open>Recovery\<close>

lemma resolution_loads:
  "recovery_value_allows_action (resolution_payload classification ref generation previous digest timestamp) ref' action
    \<longleftrightarrow> ref' = ref \<and> action \<in> set (recovery_actions classification)"
proof -
  let ?kvs = "[(''classification'', JStr classification), (''cycle_ref'', JStr ref), (''generation_digest'', JStr generation),
     (''previous_action'', JStr previous), (''reconciliation_digest'', JStr digest), (''resolved_at_utc'', JStr timestamp)]"
  have "json_loads (json_dumps (JObj ?kvs)) = Some (JObj (sort_key fst ?kvs))"
    by (rule json_object_round_trip) simp_all
  moreover have "map_of (sort_key fst ?kvs) = map_of ?kvs" by (rule map_of_sort_key) simp
  ultimately show ?thesis
    by (auto simp: recovery_value_allows_action_def resolution_payload_def simp del: sort_key_simps)
qed

text \<open>
  What a crashed transport may be followed by, read off the broker snapshot: nothing but a cancel
  of the rest of a market order that is still filling, and nothing but protecting or closing a
  position that is owned and filled.
\<close>

definition recovery_reference :: "string \<Rightarrow> signal_decision \<Rightarrow> v4_snapshot \<Rightarrow> int option \<Rightarrow> v4_action \<Rightarrow> bool" where
  "recovery_reference previous side s bt action =
    (let open_position = (ownership_exact side s bt \<and> sn_entry_status s = ENTRY_FILLED \<and> sn_pending_entry_size s = 0);
         bare = (open_position \<and> sn_protection_size s = 0 \<and> sn_protection_status s = PROT_NONE);
         exact = (open_position \<and> sn_protection_size s = sn_filled_size s \<and> sn_protection_status s = PROT_EXACT_MATCH);
         mismatched = (open_position \<and> 0 < sn_protection_size s \<and> sn_protection_status s \<in> {PROT_UNDERSIZED, PROT_OVERSIZED})
     in case action of
          MARKET_ENTRY \<Rightarrow> False
        | CANCEL_ENTRY_REMAINDER \<Rightarrow> market_partial_pending previous side s bt
        | EXACT_SIZE_OCO_PROTECTION \<Rightarrow> bare
        | CANCEL_MISMATCHED_PROTECTION \<Rightarrow> mismatched
        | CANCEL_EXACT_PROTECTION_FOR_TIME_EXIT \<Rightarrow> exact
        | POSITION_SPECIFIC_EMERGENCY_EXIT \<Rightarrow> bare \<or> mismatched
        | POSITION_SPECIFIC_TIME_EXIT \<Rightarrow> bare)"

lemma classified_actions:
  assumes "classify_pending_transport_recovery previous side s bt = Some classification"
  shows "action \<in> set (recovery_actions classification) \<longleftrightarrow> recovery_reference previous side s bt action"
  using assms
  by (cases action)
    (auto simp: classify_pending_transport_recovery_def recovery_actions_def recovery_reference_def Let_def
      snapshot_shows_flat_def ownership_exact_def market_partial_pending_def split: if_splits)

lemma resolved_run:
  assumes "resolve_pending_transport issuer ref snapshot bt digest now db = (Inr recovery, db')"
  obtains c previous classification generation timestamp where
    "coord_find ref db = Some c" "coord_halted db"
    "classify_pending_transport_recovery previous (k_side c) snapshot bt = Some classification"
    "recovery = \<lparr>pr_ref = ref, pr_previous_action = previous, pr_classification = classification,
        pr_reconciliation_digest = digest, pr_pending_marker_cleared = True, pr_unknown_halt_remains_latched = True\<rparr>"
    "db' = db\<lparr>kd_metadata := filter (\<lambda>kv. fst kv \<noteq> ''pending_transport_attempt'')
        (AList.update ''pending_transport_resolution''
          (resolution_payload classification ref generation previous digest timestamp) (kd_metadata db))\<rparr>"
  using assms
  by (auto simp: resolve_pending_transport_def run_bind run_then run_transaction metadata_value_def upsert_meta_def delete_meta_def
      split: if_splits sum.splits option.splits prod.splits bool.splits)

lemma pending_action_payload: "pending_action (pending_payload ref action) ref = Inr (action_value action)"
proof -
  let ?kvs = "[(''action'', JStr (action_value action)), (''cycle_ref'', JStr ref)]"
  have "json_loads (json_dumps (JObj ?kvs)) = Some (JObj (sort_key fst ?kvs))"
    by (rule json_object_round_trip) simp_all
  moreover have "map_of (sort_key fst ?kvs) = map_of ?kvs" by (rule map_of_sort_key) simp
  moreover have "action_value action \<in> set (map action_value v4_all_actions)" by (cases action) (simp_all add: v4_all_actions_def)
  ultimately show ?thesis
    by (simp add: pending_action_def pending_payload_def del: sort_key_simps)
qed

section \<open>Properties\<close>

text \<open>
  C36. Over every sequence of operations and restarts: the proofs handed to the transport are, with
  their multiplicity, digests of attempt rows that are still in the ledger, no two rows are of the
  same cycle and action, and so no cycle and action is handed over twice, unless two different
  plan texts with one SHA-256 digest have been found.
\<close>

theorem coord_sent_once:
  assumes "coord_reach sent w"
  shows "image_mset ta_plan_digest (mset sent) \<subseteq># image_mset q_plan_digest (mset (kd_attempts (cw_db w)))
    \<and> distinct (map (\<lambda>q. (q_ref q, q_action q)) (kd_attempts (cw_db w)))
    \<and> (distinct (map (\<lambda>t. (ta_ref t, ta_action t)) sent) \<or> plan_collision sent (cw_db w))"
proof -
  have inv: "coord_sent_inv sent w" using assms by (rule coord_reach_sent_inv)
  have "image_mset ta_plan_digest (mset sent) \<subseteq># image_mset q_plan_digest (mset (kd_attempts (cw_db w)))"
    using inv unfolding coord_sent_inv_def by (meson mset_subset_eq_add_left subset_mset.order_trans)
  moreover have "distinct (map (\<lambda>q. (q_ref q, q_action q)) (kd_attempts (cw_db w)))"
    using inv by (simp add: coord_sent_inv_def attempts_ok_def coord_attempt_key_def [abs_def])
  ultimately show ?thesis using two_sends_collide [OF inv] by blast
qed

lemma coord_sent_once_witness:
  "\<exists>w. coord_reach [coord_proof] w \<and> {#persisted_plan_digest coord_plan#} \<subseteq># image_mset q_plan_digest (mset (kd_attempts (cw_db w)))
    \<and> map q_ref (kd_attempts (cw_db w)) = [coord_ref]"
proof -
  obtain w where w: "coord_reach [coord_proof] w" "cw_db w = coord_db2" using coord_reach_sent by blast
  show ?thesis using coord_sent_once [OF w(1)] w by (auto simp: coord_proof_def coord_db2_def coord_attempt0_def)
qed

text \<open>
  C37. Over every sequence of operations and restarts: no two cycles have the same reference or the
  same signal, and at most one cycle is unresolved, or two of which one is the cycle that the marker
  of the external flat reconciliation names.
\<close>

theorem coord_one_unresolved_cycle:
  assumes "coord_reach sent w"
  shows "distinct (map k_ref (kd_cycles (cw_db w))) \<and> distinct (map k_fingerprint (kd_cycles (cw_db w)))
    \<and> (length (unresolved_cycles (cw_db w)) \<le> 1
       \<or> length (unresolved_cycles (cw_db w)) = 2
         \<and> (\<exists>c \<in> set (unresolved_cycles (cw_db w)). marker_cycle (meta_at ''external_flat_reconciliation'' (cw_db w)) = Some (k_ref c)))"
proof -
  have keys: "map fst (cycle_keys (cw_db w)) = map k_ref (kd_cycles (cw_db w))"
    "map (fst \<circ> snd) (cycle_keys (cw_db w)) = map k_fingerprint (kd_cycles (cw_db w))"
    by (simp_all add: cycle_keys_def cycle_key_def o_def)
  show ?thesis
    using coord_reach_cycles_inv [OF assms] unfolding coord_cycles_inv_def cycles_inv_def open_refs_unresolved keys by auto
qed

lemma coord_one_unresolved_cycle_witness:
  "length (unresolved_cycles (cw_db coord_world3)) = 1 \<and> distinct (map k_ref (kd_cycles (cw_db coord_world3)))"
  using coord_one_unresolved_cycle [OF coord_reach_world3]
  by (simp add: coord_world3_def coord_world2_def coord_db2_def unresolved_cycles_def coord_cycle2_def coord_cycle1_def coord_cycle0_def
      coord_new_cycle_def)

text \<open>
  C38. While the unknown halt is latched and no reconciliation is called with the arguments that can
  release it, whatever else is called in whatever order, restarts included: the halt stays latched,
  no cycle appears or disappears, no market attempt is recorded, and in the state reached a
  reservation, a market attempt and the use of a proof of a market attempt raise.
\<close>

theorem coord_halt_blocks_entries:
  assumes "coord_halted (cw_db w)" "\<forall>op \<in> set ops. \<not> coord_releasing op" "w' = coord_run ops w"
  shows "coord_halted (cw_db w') \<and> cycle_refs (cw_db w') = cycle_refs (cw_db w) \<and> market_rows (cw_db w') = market_rows (cw_db w)
    \<and> (\<exists>e. fst (evaluate_entry_intent g signal policy atr now (cw_db w')) = Inl e)
    \<and> (\<exists>e. fst (prepare_entry_intent g signal policy atr now (cw_db w')) = Inl e)
    \<and> (\<exists>e. record_market_attempt issuer i fp plan now m w' = (Inl e, w'))
    \<and> (object_at (cw_actions w') j = Some a \<and> vf_action (aa_verifier a) = MARKET_ENTRY
       \<longrightarrow> (\<exists>e. consume_persisted_action_authorization j plan protection rd binding m w' = (Inl e, w')))"
proof -
  have inv: "halted_inv (cycle_refs (cw_db w)) (market_rows (cw_db w)) w'"
    unfolding assms(3) using assms(1,2) by (intro halted_run) (simp_all add: halted_inv_def)
  then have halted: "coord_halted (cw_db w')" by (simp add: halted_inv_def)
  show ?thesis
    using inv halted_validate [OF halted, of g signal policy atr now] halted_reserve [OF halted, of g signal policy atr now]
      halted_market [OF halted, of issuer i fp plan now m]
      halted_consume [OF halted, of j a plan protection rd binding m]
    by (auto simp: halted_inv_def evaluate_entry_intent_def)
qed

definition coord_halted_world :: coord_world where
  "coord_halted_world = snd (coord_exec OpEngageHalt coord_world2)"

lemma coord_halted_world: "coord_halted (cw_db coord_halted_world)" "cw_actions coord_halted_world = [coord_action]"
  by (simp_all add: coord_halted_world_def answering_def run_progs on_ledger_db_def engage_unknown_halt_def upsert_meta_def
      coord_halted_def meta_at_def update_conv' coord_world2_def)

lemma coord_halt_blocks_entries_witness:
  "coord_halted (cw_db coord_halted_world)
    \<and> (\<exists>e. fst (prepare_entry_intent coord_gen sample_signal sample_policy coord_atr sample_now
         (cw_db (coord_run [OpRelease coord_ref, OpClosed coord_ref (PyInt 5)] coord_halted_world))) = Inl e)
    \<and> (\<exists>e. consume_persisted_action_authorization 0 coord_plan None None coord_binding (Some 0) coord_halted_world = (Inl e, coord_halted_world))"
proof -
  have none: "\<forall>op \<in> set [OpRelease coord_ref, OpClosed coord_ref (PyInt 5)]. \<not> coord_releasing op" by simp
  have proof_held: "object_at (cw_actions coord_halted_world) 0 = Some coord_action \<and> vf_action (aa_verifier coord_action) = MARKET_ENTRY"
    by (simp add: coord_halted_world object_at_def coord_action_def)
  have "\<exists>e. consume_persisted_action_authorization 0 coord_plan None None coord_binding (Some 0) coord_halted_world
      = (Inl e, coord_halted_world)"
    using coord_halt_blocks_entries [OF coord_halted_world(1), of "[]" coord_halted_world] proof_held by fastforce
  moreover note coord_halt_blocks_entries [OF coord_halted_world(1) none refl, of coord_gen sample_signal sample_policy coord_atr sample_now]
  ultimately show ?thesis using coord_halted_world(1) by blast
qed

text \<open>
  C40. A crashed transport that is resolved: the halt stays latched, the pending marker is gone, the
  cycles and attempts are as they were, and what may then be sent under the halt is exactly what the
  broker snapshot supports: nothing for another cycle, never a market entry, a cancel of the rest of
  a market order that is still filling, and for a position that is owned and filled its protection,
  the cancel of the protection, or its close, as the protection is missing, mismatched or exact.
\<close>

theorem pending_transport_recovery:
  assumes "resolve_pending_transport issuer ref snapshot bt digest now db = (Inr recovery, db')"
  shows "coord_halted db' \<and> meta_at ''pending_transport_attempt'' db' = None
    \<and> kd_cycles db' = kd_cycles db \<and> kd_attempts db' = kd_attempts db
    \<and> (\<exists>c. coord_find ref db = Some c
        \<and> (\<forall>r action. recovery_allows_action r action db' \<longleftrightarrow>
             r = ref \<and> recovery_reference (pr_previous_action recovery) (k_side c) snapshot bt action))"
proof -
  obtain c previous classification generation timestamp where run:
    "coord_find ref db = Some c" "coord_halted db"
    "classify_pending_transport_recovery previous (k_side c) snapshot bt = Some classification"
    "recovery = \<lparr>pr_ref = ref, pr_previous_action = previous, pr_classification = classification,
        pr_reconciliation_digest = digest, pr_pending_marker_cleared = True, pr_unknown_halt_remains_latched = True\<rparr>"
    "db' = db\<lparr>kd_metadata := filter (\<lambda>kv. fst kv \<noteq> ''pending_transport_attempt'')
        (AList.update ''pending_transport_resolution''
          (resolution_payload classification ref generation previous digest timestamp) (kd_metadata db))\<rparr>"
    by (rule resolved_run [OF assms])
  have kept: "map_of (filter (\<lambda>kv. fst kv \<noteq> ''pending_transport_attempt'') kvs) k
      = (if k = ''pending_transport_attempt'' then None else map_of kvs k)" for k and kvs :: "(string \<times> string) list"
    by (induction kvs) auto
  have metas: "meta_at k db' = (if k = ''pending_transport_attempt'' then None
      else if k = ''pending_transport_resolution'' then Some (resolution_payload classification ref generation previous digest timestamp)
      else meta_at k db)" for k
    by (simp add: meta_at_def run(5) kept update_conv')
  have "recovery_allows_action r action db' \<longleftrightarrow> r = ref \<and> recovery_reference previous (k_side c) snapshot bt action" for r action
    by (simp add: recovery_allows_action_def metas resolution_loads classified_actions [OF run(3)])
  moreover have "kd_cycles db' = kd_cycles db" "kd_attempts db' = kd_attempts db" by (simp_all add: run(5))
  ultimately show ?thesis using run(1,2) by (simp add: coord_halted_def metas run(4))
qed

lemma pending_transport_recovery_witness:
  "\<exists>recovery db'. resolve_pending_transport True coord_ref sample_filled (Some 1000) coord_binding sample_now (cw_db coord_halted_world)
      = (Inr recovery, db')
    \<and> recovery_allows_action coord_ref EXACT_SIZE_OCO_PROTECTION db' \<and> \<not> recovery_allows_action coord_ref MARKET_ENTRY db'"
proof -
  let ?db = "cw_db coord_halted_world"
  have db: "coord_find coord_ref ?db = Some coord_cycle2" "meta_at ''generation_digest'' ?db = Some ''sha256:g''"
    "meta_at ''pending_transport_attempt'' ?db = Some (pending_payload coord_ref MARKET_ENTRY)"
    using coord_meta(4,5) coord_find_db2(2)
    by (simp_all add: coord_halted_world_def answering_def run_progs on_ledger_db_def engage_unknown_halt_def upsert_meta_def
        meta_at_def update_conv' coord_world2_def coord_find_def)
  have classified: "classify_pending_transport_recovery (action_value MARKET_ENTRY) (k_side coord_cycle2) sample_filled (Some 1000)
      = Some ''FILLED_UNPROTECTED''"
    by (simp add: classify_pending_transport_recovery_def Let_def ownership_exact_def market_partial_pending_def
        snapshot_shows_flat_def sample_filled_def coord_cycle2_fields)
  have facts: "sn_fresh sample_filled" "sn_result_known sample_filled" by (simp_all add: sample_filled_def)
  obtain recovery db' where run: "resolve_pending_transport True coord_ref sample_filled (Some 1000) coord_binding sample_now ?db
      = (Inr recovery, db')" "pr_previous_action recovery = action_value MARKET_ENTRY"
    using db classified coord_halted_world(1)
    by (simp add: resolve_pending_transport_def run_progs facts coord_binding coord_clock pending_action_payload metadata_value_def
        upsert_meta_def delete_meta_def del: action_value.simps)
  have supported: "recovery_reference (action_value MARKET_ENTRY) (k_side coord_cycle2) sample_filled (Some 1000) EXACT_SIZE_OCO_PROTECTION"
    "\<not> recovery_reference (action_value MARKET_ENTRY) (k_side coord_cycle2) sample_filled (Some 1000) MARKET_ENTRY"
    by (simp_all add: recovery_reference_def Let_def ownership_exact_def sample_filled_def coord_cycle2_fields)
  show ?thesis
    using pending_transport_recovery [OF run(1)] run supported db(1) by (auto simp del: action_value.simps)
qed

end
