(* ===== verification/Paper_Runner.thy ===== *)
theory Paper_Runner
  imports Auto_Generation Runtime_Safety Risk_Ledger V4_Runtime Py_Numbers
begin

text \<open>
  \<open>run_bounded_paper_signals_no_post\<close> of \<open>backend/app/h11_auto/paper_runner.py\<close>: the bounded loop
  that drives the Phase A engine over a list of signals, with the process lock, the run
  generation, the risk ledger, the dead man and the heartbeat notifications around it.

  The world is that of the engine and the files around it; the engine and its two fake senders are
  made anew by every call, over the store and the notifier the call was given; what was handed to
  the senders of earlier engines is kept as history in \<open>pw_sent\<close> and \<open>pw_exits\<close>.  The two clocks of
  the caller are sequences of readings.  A stop of the process can hit before every write to the
  store, a sender, the notifier or a file.  The loading of the JSONL file is not modelled.
\<close>

section \<open>The world of the runner\<close>

record paper_world =
  pw_auto :: auto_world
  pw_risk :: json_path
  pw_dead_man :: json_path
  pw_lock :: lock_file
  pw_now :: "nat \<Rightarrow> datetime"
  pw_now_calls :: nat
  pw_monotonic :: "nat \<Rightarrow> py_float"
  pw_monotonic_calls :: nat
  pw_sent :: "string list"
  pw_exits :: "string list"

definition paper_engine :: "(auto_world, 'a) prog \<Rightarrow> (paper_world, 'a) prog" where
  "paper_engine m = zoomE pw_auto (\<lambda>w r. r\<lparr>pw_auto := w\<rparr>) m"

definition paper_risk_file :: "(json_path, 'a) prog \<Rightarrow> (paper_world, 'a) prog" where
  "paper_risk_file m = thenE (paper_engine auto_checkpoint) (zoomE pw_risk (\<lambda>f r. r\<lparr>pw_risk := f\<rparr>) m)"

definition paper_dead_man_file :: "(json_path, 'a) prog \<Rightarrow> (paper_world, 'a) prog" where
  "paper_dead_man_file m = thenE (paper_engine auto_checkpoint) (zoomE pw_dead_man (\<lambda>f r. r\<lparr>pw_dead_man := f\<rparr>) m)"

definition paper_lock :: "(lock_file, 'a) prog \<Rightarrow> (paper_world, 'a) prog" where
  "paper_lock m = zoomE pw_lock (\<lambda>f r. r\<lparr>pw_lock := f\<rparr>) m"

text \<open>\<open>now()\<close> and \<open>monotonic()\<close>\<close>

definition paper_now :: "(paper_world, datetime) prog" where
  "paper_now = bindE (getE (\<lambda>r. pw_now r (pw_now_calls r))) (\<lambda>t.
     thenE (modifyE (\<lambda>r. r\<lparr>pw_now_calls := pw_now_calls r + 1\<rparr>)) (returnE t))"

definition paper_monotonic :: "(paper_world, py_float) prog" where
  "paper_monotonic = bindE (getE (\<lambda>r. pw_monotonic r (pw_monotonic_calls r))) (\<lambda>t.
     thenE (modifyE (\<lambda>r. r\<lparr>pw_monotonic_calls := pw_monotonic_calls r + 1\<rparr>)) (returnE t))"

text \<open>An operation on the ledger object of the call: its answer and the new object.\<close>

definition paper_ledger :: "(risk_state, 'a) prog \<Rightarrow> risk_state \<Rightarrow> (paper_world, 'a \<times> risk_state) prog" where
  "paper_ledger m s = (case m s of (Inl e, s') \<Rightarrow> raiseE e | (Inr x, s') \<Rightarrow> returnE (x, s'))"

section \<open>Configuration and report\<close>

text \<open>The wall-clock bound as the caller passes it; a float is \<open>None\<close> when it is not finite.\<close>

datatype wall_seconds = WallInt int | WallFloat "py_float option" | WallOther

record paper_limits =
  bl_maximum_signal_records :: int
  bl_maximum_wall_seconds :: rat
  bl_synthetic_auto_flat :: bool

text \<open>\<open>math.isfinite\<close> of an integer converts it to a float first.\<close>

definition wall_value :: "wall_seconds \<Rightarrow> rat option result" where
  "wall_value w = (case w of
     WallOther \<Rightarrow> Inr None
   | WallFloat x \<Rightarrow> Inr x
   | WallInt n \<Rightarrow> if 2 ^ 1024 - 2 ^ 970 \<le> \<bar>n\<bar> then Inl PyOverflowError else Inr (Some (of_int n)))"

definition BoundedPaperRunConfig :: "pyval \<Rightarrow> wall_seconds \<Rightarrow> pyval \<Rightarrow> paper_limits result" where
  "BoundedPaperRunConfig records wall auto_flat =
     bindR (guardR (case as_int records of None \<Rightarrow> False | Some n \<Rightarrow> 1 \<le> n \<and> n \<le> 10000)
       (H11AutoPaperRunnerError ''signal record bound is invalid'')) (\<lambda>_.
     bindR (wall_value wall) (\<lambda>seconds.
     bindR (guardR (case seconds of None \<Rightarrow> False | Some x \<Rightarrow> float_round (1 / 10) \<le> x \<and> x \<le> 3600)
       (H11AutoPaperRunnerError ''wall-clock bound is invalid'')) (\<lambda>_.
     bindR (guardR (as_bool auto_flat \<noteq> None) (H11AutoPaperRunnerError ''synthetic auto-flat flag is invalid'')) (\<lambda>_.
     Inr \<lparr>bl_maximum_signal_records = the (as_int records), bl_maximum_wall_seconds = the seconds,
       bl_synthetic_auto_flat = the (as_bool auto_flat)\<rparr>))))"

record paper_config =
  pc_limits :: paper_limits
  pc_policy :: phase_a_policy
  pc_state_path :: string
  pc_lock_path :: string
  pc_risk_store_policy :: risk_policy
  pc_risk_policy :: risk_policy
  pc_dead_man_policy :: dead_man_policy
  pc_generation_label :: pyval
  pc_lock_object :: nat

datatype paper_status = COMPLETED_FAKE_ONLY | POSITION_PROTECTED_STOPPED | PAPER_HALTED_SAFE | BOUNDED_LIMIT_REACHED

record paper_counts =
  ct_seen :: int
  ct_stay :: int
  ct_blocked :: int
  ct_entry :: int
  ct_exit :: int
  ct_protected :: int
  ct_flat :: int
  ct_halt :: int

record paper_report =
  pr_status :: paper_status
  pr_counts :: paper_counts
  pr_process_lock_acquired :: bool
  pr_journal_valid :: bool
  pr_runtime_safety_bound :: bool
  pr_risk_stop_state :: json
  pr_dead_man_alive :: bool
  pr_notification_heartbeat_count :: nat
  pr_external_notification_send_performed :: bool
  pr_actual_post_count :: int
  pr_broker_read_performed :: bool
  pr_broker_write_performed :: bool
  pr_network_access_performed :: bool
  pr_credential_read_performed :: bool
  pr_resident_process :: bool
  pr_cron :: bool
  pr_actual_activation_ready :: bool

definition paper_zero_counts :: paper_counts where
  "paper_zero_counts = \<lparr>ct_seen = 0, ct_stay = 0, ct_blocked = 0, ct_entry = 0, ct_exit = 0, ct_protected = 0,
     ct_flat = 0, ct_halt = 0\<rparr>"

section \<open>One signal\<close>

text \<open>What the body of the loop leaves: the counts, the ledger object and, after a \<open>break\<close>, the status.\<close>

type_synonym paper_local = "paper_counts \<times> risk_state \<times> paper_status option"

definition count_halt :: "paper_counts \<Rightarrow> risk_state \<Rightarrow> paper_local" where
  "count_halt c risk = (c\<lparr>ct_halt := ct_halt c + 1\<rparr>, risk, Some PAPER_HALTED_SAFE)"

definition paper_dead_man_now :: "paper_config \<Rightarrow> datetime \<Rightarrow> (paper_world, dead_man_result) prog" where
  "paper_dead_man_now cfg now = paper_dead_man_file (\<lambda>f. (dead_man_evaluate (pc_dead_man_policy cfg) f now, f))"

text \<open>The snapshot of the runner, from the lock and the store.\<close>

definition paper_safety :: "paper_config \<Rightarrow> datetime \<Rightarrow> (paper_world, safety_snapshot) prog" where
  "paper_safety cfg now =
     bindE (getE (\<lambda>r. lock_held (pc_lock_object cfg) (pw_lock r))) (\<lambda>held.
     bindE (paper_engine (getE (\<lambda>w. auto_active_intent_count (aw_store w)))) (\<lambda>active.
     bindE (paper_engine (zoomE aw_store (\<lambda>s w. w\<lparr>aw_store := s\<rparr>) (auto_entry_attempts_on_jst_day now))) (\<lambda>today.
     bindE (paper_engine (getE (\<lambda>w. auto_halt_latched (aw_store w)))) (\<lambda>halted.
     liftE (PhaseASafetySnapshot \<lparr>
       sfa_boot_reconciled = PyBool True, sfa_process_lock_held = PyBool held, sfa_data_fresh = PyBool True,
       sfa_clock_synchronized = PyBool True, sfa_notification_path_ready = PyBool True,
       sfa_local_position_count = PyInt 0, sfa_active_intent_count = PyInt (int active),
       sfa_entries_today = PyInt (int today), sfa_external_position = PyBool False,
       sfa_order_conflict = PyBool False, sfa_kill_requested = PyBool halted\<rparr>)))))"

text \<open>
  The risk gate of a directional signal: \<open>None\<close> when it blocks, the ledger otherwise; the entry is
  recorded and the file saved only when the gate of the engine is open as well.
\<close>

definition paper_admit ::
    "paper_config \<Rightarrow> formal_signal \<Rightarrow> safety_snapshot \<Rightarrow> datetime \<Rightarrow> risk_state \<Rightarrow> (paper_world, bool \<times> risk_state) prog" where
  "paper_admit cfg signal safety now risk =
    (let day = jst_day now in
     bindE (paper_ledger (evaluate_risk_before_entry (pc_risk_policy cfg) day) risk) (\<lambda>(gate, risk).
     if \<not> rg_allowed gate then returnE (False, risk)
     else
       bindE (liftE (evaluate_phase_a_entry_gate signal (pc_policy cfg) safety now)) (\<lambda>phase_gate.
       if eg_fake_cycle_allowed phase_gate then
         bindE (paper_ledger (record_risk_entry_attempt (pc_risk_policy cfg) day) risk) (\<lambda>(_, risk).
         thenE (paper_risk_file (risk_save (pc_risk_store_policy cfg) risk))
         (returnE (True, risk)))
       else returnE (True, risk))))"

text \<open>\<open>entry_sender.calls[-1]\<close>\<close>

definition last_sent :: "(auto_world, string) prog" where
  "last_sent = bindE (getE (\<lambda>w. x_calls (aw_sender w))) (\<lambda>calls.
     thenE (guardE (calls \<noteq> []) PyIndexError) (returnE (last calls)))"

definition paper_after_run ::
    "paper_config \<Rightarrow> datetime \<Rightarrow> risk_state \<Rightarrow> paper_counts \<Rightarrow> fake_cycle_result \<Rightarrow> (paper_world, paper_local) prog" where
  "paper_after_run cfg now risk c result =
    (let c = c\<lparr>ct_entry := ct_entry c + fr_attempt_count result\<rparr>
     in case fr_status result of
       FC_NO_ACTION_STAY \<Rightarrow> returnE (c\<lparr>ct_stay := ct_stay c + 1\<rparr>, risk, None)
     | FC_BLOCKED_SAFE \<Rightarrow> returnE (c\<lparr>ct_blocked := ct_blocked c + 1\<rparr>, risk, None)
     | FC_HALTED_SAFE \<Rightarrow> returnE (count_halt c risk)
     | FC_POSITION_PROTECTED_SYNTHETIC \<Rightarrow>
         (let c = c\<lparr>ct_protected := ct_protected c + 1\<rparr>
          in if \<not> bl_synthetic_auto_flat (pc_limits cfg) then returnE (c, risk, Some POSITION_PROTECTED_STOPPED)
             else
               bindE (paper_engine last_sent) (\<lambda>intent_id.
               bindE (paper_engine (auto_complete_exit_once_synthetic intent_id now)) (\<lambda>exit_result.
               let c = c\<lparr>ct_exit := ct_exit c + fr_exit_attempt_count exit_result\<rparr>
               in if fr_status exit_result = FC_FLAT_RECONCILED_SYNTHETIC
                  then returnE (c\<lparr>ct_flat := ct_flat c + 1\<rparr>, risk, None)
                  else returnE (count_halt c risk))))
     | FC_FLAT_RECONCILED_SYNTHETIC \<Rightarrow> returnE (c, risk, None))"

definition paper_signal ::
    "paper_config \<Rightarrow> formal_signal \<Rightarrow> risk_state \<Rightarrow> paper_counts \<Rightarrow> (paper_world, paper_local) prog" where
  "paper_signal cfg signal risk c =
    (let c = c\<lparr>ct_seen := ct_seen c + 1\<rparr> in
     bindE paper_now (\<lambda>now.
     bindE (paper_engine (at_notifier (notify HEARTBEAT))) (\<lambda>notified.
     if \<not> notified then returnE (count_halt c risk)
     else
       thenE (paper_dead_man_file (dead_man_heartbeat (pc_dead_man_policy cfg) now))
       (bindE (paper_dead_man_now cfg now) (\<lambda>dead_man.
        if \<not> dr_alive dead_man then returnE (count_halt c risk)
        else
          bindE (paper_safety cfg now) (\<lambda>safety.
          bindE (if s_decision signal \<noteq> STAY then paper_admit cfg signal safety now risk else returnE (True, risk))
            (\<lambda>(admitted, risk).
          if \<not> admitted then returnE (count_halt (c\<lparr>ct_blocked := ct_blocked c + 1\<rparr>) risk)
          else
            bindE (paper_engine (auto_run_signal_once_synthetic signal (pc_policy cfg) safety now)) (\<lambda>result.
            paper_after_run cfg now risk c result))))))))"

section \<open>The loop\<close>

primrec paper_loop ::
    "paper_config \<Rightarrow> py_float \<Rightarrow> formal_signal list \<Rightarrow> risk_state \<Rightarrow> paper_counts
     \<Rightarrow> (paper_world, paper_counts \<times> risk_state \<times> paper_status) prog" where
  "paper_loop cfg start [] risk c = returnE (c, risk, COMPLETED_FAKE_ONLY)"
| "paper_loop cfg start (signal # signals) risk c =
    (if bl_maximum_signal_records (pc_limits cfg) \<le> ct_seen c then returnE (c, risk, BOUNDED_LIMIT_REACHED)
     else
       bindE paper_monotonic (\<lambda>t.
       if bl_maximum_wall_seconds (pc_limits cfg) \<le> float_sub t start then returnE (c, risk, BOUNDED_LIMIT_REACHED)
       else
         bindE (paper_signal cfg signal risk c) (\<lambda>(c, risk, ended).
         case ended of Some status \<Rightarrow> returnE (c, risk, status)
         | None \<Rightarrow> paper_loop cfg start signals risk c)))"

section \<open>The run\<close>

definition paper_bind :: "paper_config \<Rightarrow> (paper_world, run_binding) prog" where
  "paper_bind cfg = paper_engine (at_store (auto_bind_run_generation (pc_generation_label cfg) (pc_policy cfg)
     (PyStr (rp_label (pc_risk_policy cfg))) (PyStr (risk_policy_digest (pc_risk_policy cfg)))
     (PyStr (dm_label (pc_dead_man_policy cfg))) (PyStr (dead_man_digest (pc_dead_man_policy cfg)))))"

text \<open>The two senders and \<open>H11AutoPhaseAEngine(store=..., sender=..., exit_sender=..., notifier=...)\<close>\<close>

definition paper_new_engine :: "(paper_world, unit) prog" where
  "paper_new_engine = (\<lambda>r. let w = pw_auto r in
     case H11AutoPhaseAEngine (aw_store w) (Some (Exactly (FakeProtectedEntrySender ACCEPTED_AND_PROTECTED)))
        (Some (Exactly (FakePositionExitSender ACCEPTED_AND_FLAT))) (Some (Exactly (aw_notifier w))) (aw_interrupt w) of
       Inl e \<Rightarrow> (Inl e, r)
     | Inr w' \<Rightarrow> (Inr (), r\<lparr>pw_auto := w', pw_sent := pw_sent r @ x_calls (aw_sender w),
         pw_exits := pw_exits r @ x_calls (aw_exit_sender w)\<rparr>))"

text \<open>The \<open>try\<close> block: the counts, the ledger object, the status, and the two last readings.\<close>

definition paper_locked ::
    "paper_config \<Rightarrow> py_float \<Rightarrow> formal_signal list
     \<Rightarrow> (paper_world, (paper_counts \<times> risk_state \<times> paper_status) \<times> bool \<times> bool) prog" where
  "paper_locked cfg start signals =
     bindE (paper_engine (getE (\<lambda>w. n_external_send_performed (aw_notifier w)))) (\<lambda>sent.
     thenE (guardE (\<not> sent) (H11AutoPaperRunnerError ''paper notifier must remain fake-only''))
     (thenE (paper_bind cfg)
     (bindE (paper_risk_file (\<lambda>f. (risk_load (pc_risk_store_policy cfg) f, f))) (\<lambda>risk.
      bindE paper_now (\<lambda>initial_now.
      thenE (paper_dead_man_file (dead_man_heartbeat (pc_dead_man_policy cfg) initial_now))
     (thenE paper_new_engine
     (bindE (paper_loop cfg start signals risk paper_zero_counts) (\<lambda>ended.
      bindE (paper_engine (at_store (\<lambda>db. (auto_verify_journal db, db)))) (\<lambda>journal.
      bindE paper_now (\<lambda>final_now.
      bindE (paper_dead_man_now cfg final_now) (\<lambda>dead_man.
      returnE (ended, ajs_valid journal, dr_alive dead_man))))))))))))"

text \<open>\<open>BoundedPaperRunReport(...)\<close>, after the release of the lock.\<close>

definition paper_report_of ::
    "paper_counts \<times> risk_state \<times> paper_status \<Rightarrow> bool \<Rightarrow> bool \<Rightarrow> (paper_world, paper_report) prog" where
  "paper_report_of ended journal_valid alive = (case ended of (c, risk, status) \<Rightarrow>
     getE (\<lambda>r. \<lparr>pr_status = status, pr_counts = c, pr_process_lock_acquired = True, pr_journal_valid = journal_valid,
        pr_runtime_safety_bound = True, pr_risk_stop_state = rs_stop_state risk, pr_dead_man_alive = alive,
        pr_notification_heartbeat_count = count_list (n_events (aw_notifier (pw_auto r))) HEARTBEAT,
        pr_external_notification_send_performed = n_external_send_performed (aw_notifier (pw_auto r)),
        pr_actual_post_count = 0, pr_broker_read_performed = False, pr_broker_write_performed = False,
        pr_network_access_performed = False, pr_credential_read_performed = False, pr_resident_process = False,
        pr_cron = False, pr_actual_activation_ready = False\<rparr>))"

definition run_bounded_paper_signals_no_post ::
    "paper_config \<Rightarrow> formal_signal list \<Rightarrow> (paper_world, paper_report) prog" where
  "run_bounded_paper_signals_no_post cfg signals =
     thenE (guardE (pc_state_path cfg \<noteq> pc_lock_path cfg)
       (H11AutoPaperRunnerError ''state and lock paths must be separate''))
     (bindE paper_monotonic (\<lambda>start.
      thenE (paper_engine (at_store auto_initialize))
     (bindE (paper_lock (lock_acquire (pc_lock_object cfg))) (\<lambda>ok.
      thenE (guardE ok (H11AutoPaperRunnerError ''auto process lock is already held''))
     (bindE (finallyE (paper_locked cfg start signals) (paper_lock (lock_release (pc_lock_object cfg))))
        (\<lambda>(ended, journal_valid, alive). paper_report_of ended journal_valid alive))))))"

end
