(* ===== verification/Paper_Runner_Ledger.thy ===== *)
theory Paper_Runner_Ledger
  imports Paper_Runner_Safety Risk_Properties
begin

text \<open>
  A run of the paper runner hands an intent to the sender only when the ledger file holds an admitted
  entry of the JST day of one of the clock's readings; and the counts of its report add up.
\<close>

section \<open>What is handed to the sender\<close>

lemma auto_calls_frames:
  "keeps (\<lambda>w. x_calls (aw_sender w)) auto_checkpoint"
  "keeps (\<lambda>w. x_calls (aw_sender w)) (at_store m)"
  "keeps (\<lambda>w. x_calls (aw_sender w)) (at_exit_sender m')"
  "keeps (\<lambda>w. x_calls (aw_sender w)) (at_notifier m'')"
proof -
  show c: "keeps (\<lambda>w. x_calls (aw_sender w)) auto_checkpoint"
    by (rule keepsI) (auto simp: auto_checkpoint_def split: option.splits nat.splits)
  show "keeps (\<lambda>w. x_calls (aw_sender w)) (at_store m)"
    "keeps (\<lambda>w. x_calls (aw_sender w)) (at_exit_sender m')"
    "keeps (\<lambda>w. x_calls (aw_sender w)) (at_notifier m'')"
    unfolding at_store_def at_exit_sender_def at_notifier_def by (intro keeps_then c keeps_zoom_other; simp)+
qed

lemma keeps_calls_exit: "keeps (\<lambda>w. x_calls (aw_sender w)) (auto_complete_exit_once_synthetic i now)"
  unfolding auto_complete_exit_once_synthetic_def auto_halt_after_reason_def auto_result_def
  by (intro frame auto_calls_frames)

text \<open>The gate of the runner and the gate of the engine see the same store, the engine's the tighter one.\<close>

definition paper_gate_open :: "formal_signal \<Rightarrow> phase_a_policy \<Rightarrow> safety_snapshot \<Rightarrow> datetime \<Rightarrow> bool" where
  "paper_gate_open signal policy safety now \<longleftrightarrow> s_decision signal \<noteq> STAY
     \<and> (\<exists>g. evaluate_phase_a_entry_gate signal policy safety now = Inr g \<and> eg_fake_cycle_allowed g)"

lemma gate_of_tightened:
  assumes "evaluate_phase_a_entry_gate signal policy (auto_tightened safety active today halted) now = Inr g"
    and "eg_fake_cycle_allowed g" and "safety_ok safety"
  shows "paper_gate_open signal policy safety now"
  using entry_gate_open [THEN iffD1, OF conjI, OF assms(1,2)] assms(3)
  unfolding paper_gate_open_def entry_gate_open
  by (auto simp: auto_tightened_def safety_ok_def max_def split: if_splits)

lemma closed_gate_sends_nothing:
  assumes "\<not> paper_gate_open signal policy safety now" "safety_ok safety"
  shows "keeps (\<lambda>w. x_calls (aw_sender w)) (auto_run_signal_once_synthetic signal policy safety now)"
proof -
  have "\<not> eg_fake_cycle_allowed g"
    if "evaluate_phase_a_entry_gate signal policy (auto_tightened safety active today halted) now = Inr g"
    for active today halted g
    using gate_of_tightened [OF that _ assms(2)] assms(1) by blast
  then have gate: "keeps (\<lambda>w. x_calls (aw_sender w))
      (bindE (liftE (evaluate_phase_a_entry_gate signal policy (auto_tightened safety active today halted) now)) (\<lambda>gate.
       if \<not> eg_fake_cycle_allowed gate then auto_blocked gate
       else bindE (at_store (auto_create_intent signal policy now)) (\<lambda>cycle. auto_enter cycle now)))"
    for active today halted
    by (cases "evaluate_phase_a_entry_gate signal policy (auto_tightened safety active today halted) now")
      (auto simp: keeps_def run_bind auto_blocked_def)
  show ?thesis
    unfolding auto_run_signal_once_synthetic_def
    by (intro frame gate keeps_zoom_other; simp)
qed

section \<open>The entry on disk\<close>

text \<open>The ledger file holds an admitted entry of the day of one of the clock's readings.\<close>

definition paper_entry_saved :: "paper_config \<Rightarrow> (nat \<Rightarrow> datetime) \<Rightarrow> json_path \<Rightarrow> bool" where
  "paper_entry_saved cfg clock path \<longleftrightarrow> (\<exists>n s. jp_file path = FileDocument (JObj (risk_state_fields s))
     \<and> validate_risk_state (pc_risk_store_policy cfg) s = Inr () \<and> risk_stop_of s = ACTIVE
     \<and> rs_current_day s = JStr (jst_day (clock n))
     \<and> 1 \<le> json_int (rs_entries_today s) \<and> json_int (rs_entries_today s) \<le> rp_max_entries (pc_risk_policy cfg))"

text \<open>What holds throughout a run that starts with \<open>calls\<close> handed over.\<close>

definition paper_admitted :: "paper_config \<Rightarrow> (nat \<Rightarrow> datetime) \<Rightarrow> string list \<Rightarrow> paper_world \<Rightarrow> bool" where
  "paper_admitted cfg clock calls r \<longleftrightarrow> pw_now r = clock
     \<and> (paper_sends r = calls \<or> paper_entry_saved cfg clock (pw_risk r))"

definition paper_view :: "paper_world \<Rightarrow> (nat \<Rightarrow> datetime) \<times> string list \<times> json_path" where
  "paper_view r = (pw_now r, paper_sends r, pw_risk r)"

lemma stays_view: "keeps paper_view m \<Longrightarrow> stays (paper_admitted cfg clock calls) m"
  by (rule stays_keeps [where f = paper_view
        and P = "\<lambda>(now, sends, risk). now = clock \<and> (sends = calls \<or> paper_entry_saved cfg clock risk)", THEN iffD1 [rotated]])
    (auto simp: paper_admitted_def paper_view_def stays_def)

lemma view_engine:
  assumes "keeps (\<lambda>w. x_calls (aw_sender w)) m" shows "keeps paper_view (paper_engine m)"
  unfolding paper_engine_def
  by (rule keepsI) (auto simp: run_zoom paper_view_def paper_sends_def dest: keepsD [OF assms] split: prod.splits)

lemma view_store:
  "keeps paper_view (paper_engine (at_store m))" "keeps paper_view (paper_engine (at_notifier k))"
  "keeps paper_view (paper_engine (getE g))" "keeps paper_view (paper_engine auto_checkpoint)"
  "keeps paper_view (paper_engine (zoomE aw_store (\<lambda>s w. w\<lparr>aw_store := s\<rparr>) q))"
  "keeps paper_view (paper_engine last_sent)"
  "keeps paper_view (paper_engine (auto_complete_exit_once_synthetic i now))"
  unfolding last_sent_def
  by (intro view_engine frame auto_calls_frames keeps_calls_exit keeps_zoom_other; simp)+

lemma view_files: "keeps paper_view (paper_dead_man_file m)" "keeps paper_view (paper_lock l)"
    "keeps paper_view paper_now" "keeps paper_view paper_monotonic"
  unfolding paper_dead_man_file_def paper_lock_def paper_now_def paper_monotonic_def
  by (intro frame view_store keeps_zoom_other; simp add: paper_view_def paper_sends_def)+

lemma view_risk_read: "keeps paper_view (paper_risk_file (\<lambda>f. (g f, f)))"
proof -
  have "keeps paper_view (zoomE pw_risk (\<lambda>f r. r\<lparr>pw_risk := f\<rparr>) (\<lambda>f. (g f, f)))"
    by (simp add: keeps_def run_zoom)
  then show ?thesis unfolding paper_risk_file_def by (intro frame view_store)
qed

lemma view_new_engine: "keeps paper_view paper_new_engine"
  by (rule keepsI) (auto simp: paper_new_engine_def Let_def paper_view_def paper_sends_def
      H11AutoPhaseAEngine_def bindR_Inr_iff exact_or_refused_def or_default_def FakeProtectedEntrySender_def
      fresh_sender_def split: sum.splits if_splits)

lemmas view_frames = frame view_store view_files view_risk_read view_new_engine

lemma view_safety: "keeps paper_view (paper_safety cfg now)"
  unfolding paper_safety_def by (intro view_frames)

lemma view_after_run: "keeps paper_view (paper_after_run cfg now risk c result)"
  by (cases "fr_status result")
    (simp_all add: paper_after_run_def Let_def keeps_simple keeps_if keeps_bind view_store)

lemma stays_run_signal:
  assumes "safety_ok safety"
    and "\<And>r. P r \<Longrightarrow> paper_admitted cfg clock calls r"
    and "\<And>r. P r \<Longrightarrow> paper_gate_open signal policy safety now \<Longrightarrow> paper_entry_saved cfg clock (pw_risk r)"
  shows "triple P (paper_engine (auto_run_signal_once_synthetic signal policy safety now))
    (\<lambda>_. paper_admitted cfg clock calls) (\<lambda>_. paper_admitted cfg clock calls)"
proof (cases "paper_gate_open signal policy safety now")
  case True
  have "pw_now r' = pw_now r \<and> pw_risk r' = pw_risk r"
    if "paper_engine (auto_run_signal_once_synthetic signal policy safety now) r = (x, r')" for r x r'
    using that by (auto simp: paper_engine_def run_zoom split: prod.splits)
  then show ?thesis
    using assms(2,3) True by (intro tripleI) (fastforce simp: paper_admitted_def)+
next
  case False
  have "stays (paper_admitted cfg clock calls) (paper_engine (auto_run_signal_once_synthetic signal policy safety now))"
    by (rule stays_view, rule view_engine, rule closed_gate_sends_nothing [OF False assms(1)])
  then show ?thesis using assms(2) by (auto simp: stays_triple intro: triple_pre)
qed

lemma risk_save_raises: "risk_save p s path = (Inl e, path') \<Longrightarrow> path' = path"
  by (auto simp: risk_save_def run_progs split: sum.splits if_splits)

lemma record_saved:
  assumes day: "dt_in_range (to_jst (clock n))"
  shows "triple (paper_admitted cfg clock calls)
    (bindE (paper_ledger (record_risk_entry_attempt (pc_risk_policy cfg) (jst_day (clock n))) risk) (\<lambda>(_, risk).
       thenE (paper_risk_file (risk_save (pc_risk_store_policy cfg) risk)) (returnE (True, risk))))
    (\<lambda>_ r. paper_admitted cfg clock calls r \<and> paper_entry_saved cfg clock (pw_risk r)) (\<lambda>_. paper_admitted cfg clock calls)"
    (is "triple ?P _ (\<lambda>_. ?Q) ?E")
proof (cases "record_risk_entry_attempt (pc_risk_policy cfg) (jst_day (clock n)) risk")
  case (Pair x s)
  show ?thesis
  proof (cases x)
    case (Inl e)
    then show ?thesis by (simp add: paper_ledger_def Pair triple_def run_bind)
  next
    case (Inr u)
    let ?save = "zoomE pw_risk (\<lambda>f r. r\<lparr>pw_risk := f\<rparr>) (risk_save (pc_risk_store_policy cfg) s)"
    have entry: "risk_stop_of s = ACTIVE \<and> rs_current_day s = JStr (jst_day (clock n))
        \<and> 1 \<le> json_int (rs_entries_today s) \<and> json_int (rs_entries_today s) \<le> rp_max_entries (pc_risk_policy cfg)"
      using recorded_entry [OF _ jst_day_validates [OF day]] Pair Inr by (simp add: jst_day_def date_isoformat_ordinal)
    have save: "triple ?P ?save (\<lambda>_. ?Q) ?E"
    proof (rule tripleI)
      fix r v r' assume r: "?P r" "?save r = (Inr v, r')"
      then obtain path where path: "risk_save (pc_risk_store_policy cfg) s (pw_risk r) = (Inr v, path)" "r' = r\<lparr>pw_risk := path\<rparr>"
        by (auto simp: run_zoom split: prod.splits)
      have "paper_entry_saved cfg clock path"
        unfolding paper_entry_saved_def using path(1) entry by (auto simp: run_risk_save)
      then show "?Q r'" using r(1) path(2) by (simp add: paper_admitted_def)
    next
      fix r e r' assume "?P r" "?save r = (Inl e, r')"
      then show "?E e r'" by (auto simp: run_zoom dest: risk_save_raises split: prod.splits)
    qed
    have check: "triple ?P (paper_engine auto_checkpoint) (\<lambda>_. ?P) ?E"
      using stays_view [OF view_store(4)] by (simp add: stays_triple)
    have "triple ?P (thenE (paper_risk_file (risk_save (pc_risk_store_policy cfg) s)) (returnE (True, s))) (\<lambda>_. ?Q) ?E"
      unfolding paper_risk_file_def
      by (rule triple_then [OF triple_then [OF check save]]) (auto intro: triple_return)
    then show ?thesis by (simp add: paper_ledger_def Pair Inr triple_def run_bind)
  qed
qed

text \<open>An open gate is passed only with the entry on disk.\<close>

lemma admit_triple:
  assumes day: "dt_in_range (to_jst (clock n))" and dir: "s_decision signal \<noteq> STAY"
  shows "triple (paper_admitted cfg clock calls) (paper_admit cfg signal safety (clock n) risk)
    (\<lambda>x r. paper_admitted cfg clock calls r
       \<and> (fst x \<longrightarrow> paper_gate_open signal (pc_policy cfg) safety (clock n) \<longrightarrow> paper_entry_saved cfg clock (pw_risk r)))
    (\<lambda>_. paper_admitted cfg clock calls)"
  unfolding paper_admit_def Let_def
proof (rule triple_bind [where R = "\<lambda>_. paper_admitted cfg clock calls"], goal_cases)
  case 1
  have "keeps paper_view (paper_ledger (evaluate_risk_before_entry (pc_risk_policy cfg) (jst_day (clock n))) risk)"
    by (intro frame keeps_paper_ledger)
  then show ?case using stays_view stays_triple by blast
next
  case (2 x)
  obtain gate risk where x: "x = (gate, risk)" by (cases x)
  have "triple (paper_admitted cfg clock calls)
     (bindE (liftE (evaluate_phase_a_entry_gate signal (pc_policy cfg) safety (clock n))) (\<lambda>phase_gate.
       if eg_fake_cycle_allowed phase_gate then
         bindE (paper_ledger (record_risk_entry_attempt (pc_risk_policy cfg) (jst_day (clock n))) risk) (\<lambda>(_, risk).
         thenE (paper_risk_file (risk_save (pc_risk_store_policy cfg) risk))
         (returnE (True, risk)))
       else returnE (True, risk)))
    (\<lambda>x r. paper_admitted cfg clock calls r
       \<and> (fst x \<longrightarrow> paper_gate_open signal (pc_policy cfg) safety (clock n) \<longrightarrow> paper_entry_saved cfg clock (pw_risk r)))
    (\<lambda>_. paper_admitted cfg clock calls)"
    by (intro triple_bind_lift triple_if triple_return triple_weaken [OF record_saved [where clock = clock and n = n, OF day]])
      (auto simp: paper_gate_open_def)
  then show ?case unfolding x by (auto intro!: triple_if triple_return)
qed

lemma now_triple:
  "triple (paper_admitted cfg clock calls) paper_now (\<lambda>t r. (\<exists>n. t = clock n) \<and> paper_admitted cfg clock calls r)
     (\<lambda>_. paper_admitted cfg clock calls)"
proof (rule tripleI)
  fix r t r' assume r: "paper_admitted cfg clock calls r" "paper_now r = (Inr t, r')"
  then have "t = clock (pw_now_calls r)" "r' = r\<lparr>pw_now_calls := pw_now_calls r + 1\<rparr>"
    by (auto simp: paper_now_def run_progs paper_admitted_def)
  then show "(\<exists>n. t = clock n) \<and> paper_admitted cfg clock calls r'"
    using r(1) by (auto simp: paper_admitted_def paper_sends_def)
qed (auto simp: paper_now_def run_progs)

lemma stays_then_triple: "stays P m \<Longrightarrow> triple P k Q (\<lambda>_. P) \<Longrightarrow> triple P (thenE m k) Q (\<lambda>_. P)"
  by (rule triple_then [where R = P]) (simp_all add: stays_triple)

lemma stays_bind_triple: "stays P m \<Longrightarrow> (\<And>x. triple P (k x) Q (\<lambda>_. P)) \<Longrightarrow> triple P (bindE m k) Q (\<lambda>_. P)"
  by (rule triple_bind [where R = "\<lambda>_. P"]) (simp_all add: stays_triple)

lemma safety_triple:
  "triple (paper_admitted cfg clock calls) (paper_safety cfg now)
     (\<lambda>safety r. safety_ok safety \<and> paper_admitted cfg clock calls r) (\<lambda>_. paper_admitted cfg clock calls)"
  unfolding paper_safety_def
  by (intro stays_bind_triple stays_simple stays_view view_frames)
    (auto simp: triple_def split: sum.splits dest: PhaseASafetySnapshot_ok)

lemma stays_admitted_signal:
  assumes "\<And>n. dt_in_range (to_jst (clock n))"
  shows "stays (paper_admitted cfg clock calls) (paper_signal cfg signal risk c)"
proof -
  have run: "triple (\<lambda>r. paper_admitted cfg clock calls r
       \<and> (fst x \<longrightarrow> paper_gate_open signal (pc_policy cfg) safety now \<longrightarrow> paper_entry_saved cfg clock (pw_risk r)))
     (case x of (admitted, risk) \<Rightarrow>
          if \<not> admitted then returnE (count_halt c' risk)
          else
            bindE (paper_engine (auto_run_signal_once_synthetic signal (pc_policy cfg) safety now)) (\<lambda>result.
            paper_after_run cfg now risk c result))
     (\<lambda>_. paper_admitted cfg clock calls) (\<lambda>_. paper_admitted cfg clock calls)"
    if "safety_ok safety" for x safety now c c'
  proof (cases x)
    case (Pair admitted risk)
    have after: "triple (paper_admitted cfg clock calls) (paper_after_run cfg now risk c result)
        (\<lambda>_. paper_admitted cfg clock calls) (\<lambda>_. paper_admitted cfg clock calls)" for result
      using stays_view [OF view_after_run] by (simp add: stays_triple)
    show ?thesis
    proof (cases admitted)
      case True
      have "triple (\<lambda>r. paper_admitted cfg clock calls r
           \<and> (paper_gate_open signal (pc_policy cfg) safety now \<longrightarrow> paper_entry_saved cfg clock (pw_risk r)))
         (paper_engine (auto_run_signal_once_synthetic signal (pc_policy cfg) safety now))
         (\<lambda>_. paper_admitted cfg clock calls) (\<lambda>_. paper_admitted cfg clock calls)"
        by (rule stays_run_signal [OF that]) auto
      from triple_bind [OF this after] show ?thesis by (simp add: Pair True)
    next
      case False
      then show ?thesis by (auto simp: Pair intro: triple_return)
    qed
  qed
  have cycle: "triple (paper_admitted cfg clock calls)
     (bindE (paper_safety cfg now) (\<lambda>safety.
          bindE (if s_decision signal \<noteq> STAY then paper_admit cfg signal safety now risk else returnE (True, risk))
            (\<lambda>(admitted, risk).
          if \<not> admitted then returnE (count_halt (c'\<lparr>ct_blocked := ct_blocked c' + 1\<rparr>) risk)
          else
            bindE (paper_engine (auto_run_signal_once_synthetic signal (pc_policy cfg) safety now)) (\<lambda>result.
            paper_after_run cfg now risk c' result))))
     (\<lambda>_. paper_admitted cfg clock calls) (\<lambda>_. paper_admitted cfg clock calls)"
    if "now = clock n" for now n c'
  proof (rule triple_bind [OF safety_triple], rule triple_pure, rule triple_bind [OF _ run], goal_cases)
    case (1 safety)
    show ?case
      using admit_triple [where clock = clock and n = n, OF assms] that
      by (auto intro!: triple_if triple_return simp: paper_gate_open_def)
  qed assumption
  have "triple (paper_admitted cfg clock calls) (paper_signal cfg signal risk c)
     (\<lambda>_. paper_admitted cfg clock calls) (\<lambda>_. paper_admitted cfg clock calls)"
    unfolding paper_signal_def Let_def paper_dead_man_now_def
  proof (rule triple_bind [OF now_triple], rule triple_pure, elim exE, goal_cases)
    case (1 now n)
    show ?case
      by (intro stays_bind_triple stays_then_triple triple_if stays_view view_frames cycle [OF 1])
        (simp_all add: triple_return)
  qed
  then show ?thesis by (simp add: stays_triple)
qed

lemma stays_admitted_run:
  assumes "\<And>n. dt_in_range (to_jst (clock n))"
  shows "stays (paper_admitted cfg clock calls) (run_bounded_paper_signals_no_post cfg signals)"
proof -
  have "stays (paper_admitted cfg clock calls) (paper_loop cfg start signals risk c)" for start risk c
    by (induction signals arbitrary: risk c)
      (auto intro!: stay stays_admitted_signal [OF assms] stays_view [OF view_files(4)])
  then show ?thesis
    unfolding run_bounded_paper_signals_no_post_def paper_locked_def paper_bind_def paper_dead_man_now_def
      paper_report_of_def
    by (intro stay stays_finally) (auto intro!: stays_view view_frames)
qed

lemma paper_sends_admitted:
  assumes "\<And>n. dt_in_range (to_jst (pw_now r n))" and "run_bounded_paper_signals_no_post cfg signals r = (x, r')"
    and "paper_sends r' \<noteq> paper_sends r"
  shows "paper_entry_saved cfg (pw_now r) (pw_risk r')"
  using staysD [OF stays_admitted_run [where clock = "pw_now r" and calls = "paper_sends r", OF assms(1)] assms(2)] assms(3)
  by (auto simp: paper_admitted_def)

end
