(* ===== verification/Paper_Runner_Counts.thy ===== *)
theory Paper_Runner_Counts
  imports Paper_Runner_Ledger
begin

text \<open>
  The counts of the paper runner's report: every signal that was seen is one that stayed, was blocked,
  went flat again, or ended the loop; and every protected position was handed to the sender.
\<close>

section \<open>What a run of the engine returns and hands over\<close>

lemma attempt_keeps_id:
  "triple (\<lambda>w. x_calls (aw_sender w) = cs) (at_store (auto_record_attempt_started i now))
     (\<lambda>c w. ac_intent_id c = i \<and> x_calls (aw_sender w) = cs) (\<lambda>_ _. True)"
proof (rule tripleI)
  fix w c w' assume w: "x_calls (aw_sender w) = cs" "at_store (auto_record_attempt_started i now) w = (Inr c, w')"
  obtain a v where "auto_checkpoint w = (a, v)" by (cases "auto_checkpoint w")
  with w(2) obtain db where "auto_record_attempt_started i now (aw_store v) = (Inr c, db)"
    by (auto simp: at_store_def run_then run_zoom split: sum.splits prod.splits)
  then have "ac_intent_id c = i"
    by (auto simp: auto_record_attempt_started_def auto_load_cycle_def run_progs dest: auto_find_Some
        split: sum.splits option.splits prod.splits)
  then show "ac_intent_id c = i \<and> x_calls (aw_sender w') = cs" using keepsD [OF auto_calls_frames(2) w(2)] w(1) by simp
qed simp

lemma halt_status:
  "triple P (auto_halt_after_reason c reason now) (\<lambda>r _. fr_status r = FC_HALTED_SAFE) (\<lambda>_ _. True)"
  unfolding auto_halt_after_reason_def auto_result_def
  by (rule triple_bind [where R = "\<lambda>_ _. True"], simp add: triple_def split: prod.splits sum.splits,
      rule triple_bind [where R = "\<lambda>_ _. True"], simp add: triple_def split: prod.splits sum.splits)
     (auto simp: triple_def)

text \<open>What the result says of the calls of the sender, which were \<open>cs\<close>.\<close>

definition run_reported :: "string list \<Rightarrow> string \<Rightarrow> fake_cycle_result \<Rightarrow> auto_world \<Rightarrow> bool" where
  "run_reported cs i r w \<longleftrightarrow> fr_status r \<noteq> FC_FLAT_RECONCILED_SYNTHETIC
     \<and> (if fr_status r = FC_POSITION_PROTECTED_SYNTHETIC then x_calls (aw_sender w) = cs @ [i]
        else length cs \<le> length (x_calls (aw_sender w)))"

lemma enter_reported:
  "triple (\<lambda>w. x_calls (aw_sender w) = cs) (auto_enter c now) (run_reported cs (ac_intent_id c)) (\<lambda>_ _. True)"
proof -
  have halt: "triple (\<lambda>w. x_calls (aw_sender w) = ds) (auto_halt_after_reason c' reason now) (run_reported cs j) (\<lambda>_ _. True)"
    if "ds = cs \<or> (\<exists>i. ds = cs @ [i])" for ds c' reason j
  proof (rule tripleI)
    fix w r w' assume w: "x_calls (aw_sender w) = ds" "auto_halt_after_reason c' reason now w = (Inr r, w')"
    have "keeps (\<lambda>w. x_calls (aw_sender w)) (auto_halt_after_reason c' reason now)"
      unfolding auto_halt_after_reason_def auto_result_def by (intro frame auto_calls_frames)
    then have "x_calls (aw_sender w') = ds" using keepsD w by metis
    moreover have "fr_status r = FC_HALTED_SAFE" using tripleD_return [OF halt_status [where P = "\<lambda>_. True"] _ w(2)] by simp
    ultimately show "run_reported cs j r w'" using that by (auto simp: run_reported_def)
  qed simp
  have keep: "triple (\<lambda>w. x_calls (aw_sender w) = ds) m (\<lambda>_ w. x_calls (aw_sender w) = ds) (\<lambda>_ _. True)"
    if "keeps (\<lambda>w. x_calls (aw_sender w)) m" for m :: "(auto_world, 'x) prog" and ds
    using keepsD [OF that] by (auto simp: triple_def split: prod.splits sum.splits)
  have send: "triple (\<lambda>w. x_calls (aw_sender w) = cs) (at_sender (entry_send_once_synthetic i))
      (\<lambda>_ w. x_calls (aw_sender w) = cs @ [i]) (\<lambda>_ w. x_calls (aw_sender w) = cs)" for i
  proof -
    have "case at_sender (entry_send_once_synthetic i) w of (Inr _, w') \<Rightarrow> x_calls (aw_sender w') = x_calls (aw_sender w) @ [i]
        | (Inl _, w') \<Rightarrow> x_calls (aw_sender w') = x_calls (aw_sender w)" for w
      by (cases w; cases "aw_interrupt w" rule: option.exhaust)
        (auto simp: at_sender_def auto_checkpoint_def entry_send_once_synthetic_def send_once_def run_progs
          split: option.splits nat.splits sum.splits prod.splits)
    then show ?thesis by (fastforce simp: triple_def split: prod.splits sum.splits)
  qed
  have protected: "triple (\<lambda>w. x_calls (aw_sender w) = cs @ [i]) (auto_result FC_POSITION_PROTECTED_SYNTHETIC c' [])
      (run_reported cs i) (\<lambda>_ _. True)" for c' i
    by (auto simp: auto_result_def run_reported_def triple_def)
  note frames = keep [OF auto_calls_frames(2)] keep [OF auto_calls_frames(4)]
  have accepted: "triple (\<lambda>w. x_calls (aw_sender w) = cs @ [i])
      (if outcome = ACCEPTED_AND_PROTECTED
       then
         bindE (at_store (auto_transition (ac_intent_id c') AUTO_POSITION_PROTECTED
           ''POSITION_PROTECTED_SYNTHETIC'' now None)) (\<lambda>cycle.
         bindE (at_notifier (notify NOTIFY_POSITION_PROTECTED)) (\<lambda>notified.
         if \<not> notified then auto_halt_after_reason cycle ''SYNTHETIC_PROTECTED_NOTIFICATION_FAILED'' now
         else auto_result FC_POSITION_PROTECTED_SYNTHETIC cycle []))
       else auto_halt_after_outcome c' outcome now) (run_reported cs i) (\<lambda>_ _. True)" for outcome c' i
    unfolding auto_halt_after_outcome_def
    by (intro triple_if triple_bind [OF frames(1)] triple_bind [OF frames(2)] halt protected) auto
  show ?thesis
    unfolding auto_enter_def auto_halt_before_attempt_def [folded auto_halt_after_reason_def]
  proof (rule triple_bind [OF frames(2)], rule triple_if, goal_cases)
    case (2 recorded)
    show ?case
    proof (rule triple_bind [OF attempt_keeps_id], rule triple_pure, goal_cases)
      case (1 cycle)
      show ?case
      proof (rule triple_try_except [where H = "\<lambda>w. x_calls (aw_sender w) = cs"
              and R = "\<lambda>_ w. x_calls (aw_sender w) = cs @ [ac_intent_id cycle]"], goal_cases)
        case 1
        show ?case by (rule triple_weaken [OF send]) auto
      qed (simp add: halt, fold 1, rule accepted)
    qed
  qed (simp add: halt)
qed

lemma create_builds_id:
  assumes "at_store (auto_create_intent signal policy now) w = (Inr c, w')"
  shows "build_intent_id signal policy = Inr (ac_intent_id c)"
proof -
  obtain a v where "auto_checkpoint w = (a, v)" by (cases "auto_checkpoint w")
  with assms obtain db where "auto_create_intent signal policy now (aw_store v) = (Inr c, db)"
    by (auto simp: at_store_def run_then run_zoom split: sum.splits prod.splits)
  then show ?thesis
    by (auto simp: auto_create_intent_def auto_load_cycle_def run_progs dest: auto_find_Some
        split: sum.splits option.splits prod.splits)
qed

lemma run_reports:
  assumes "auto_run_signal_once_synthetic signal policy safety now w = (Inr r, w')"
  shows "\<exists>i. run_reported (x_calls (aw_sender w)) i r w'
    \<and> (fr_status r = FC_POSITION_PROTECTED_SYNTHETIC \<longrightarrow> build_intent_id signal policy = Inr i)"
proof -
  have idle: "run_reported (x_calls (aw_sender v)) [] (auto_empty_result FC_NO_ACTION_STAY reasons) v"
    "run_reported (x_calls (aw_sender v)) [] (auto_empty_result FC_BLOCKED_SAFE reasons) v" for v reasons
    by (simp_all add: run_reported_def auto_empty_result_def)
  have entered: "\<exists>i. run_reported (x_calls (aw_sender w)) i r w' \<and> build_intent_id signal policy = Inr i"
    if enter: "bindE (at_store (auto_create_intent signal policy now)) (\<lambda>cycle. auto_enter cycle now) w = (Inr r, w')"
  proof -
    obtain c v where c: "at_store (auto_create_intent signal policy now) w = (Inr c, v)" "auto_enter c now v = (Inr r, w')"
      using enter by (cases "at_store (auto_create_intent signal policy now) w") (auto simp: run_bind split: sum.splits)
    have "x_calls (aw_sender v) = x_calls (aw_sender w)" by (rule keepsD [OF auto_calls_frames(2) c(1)])
    then show ?thesis using tripleD_return [OF enter_reported _ c(2)] create_builds_id [OF c(1)] by auto
  qed
  have "(w' = w \<and> (\<exists>reasons. r = auto_empty_result FC_NO_ACTION_STAY reasons \<or> r = auto_empty_result FC_BLOCKED_SAFE reasons))
      \<or> bindE (at_store (auto_create_intent signal policy now)) (\<lambda>cycle. auto_enter cycle now) w = (Inr r, w')"
    using assms
    by (auto simp: auto_run_signal_once_synthetic_def run_progs auto_blocked_def auto_entry_attempts_on_jst_day_def
        split: if_splits sum.splits)
  moreover have "fr_status (auto_empty_result status reasons) = status" for status reasons by (simp add: auto_empty_result_def)
  ultimately show ?thesis using idle entered by fastforce
qed

section \<open>The counts\<close>

text \<open>Every signal seen so far stayed, was blocked or is flat again.\<close>

definition counts_balanced :: "paper_counts \<Rightarrow> bool" where
  "counts_balanced c \<longleftrightarrow> ct_seen c = ct_stay c + ct_blocked c + ct_flat c \<and> ct_protected c = ct_flat c \<and> ct_halt c = 0"

text \<open>What the counts are when the loop has ended with a status before the end of the signals.\<close>

definition counts_stopped :: "paper_config \<Rightarrow> paper_counts \<Rightarrow> paper_status \<Rightarrow> bool" where
  "counts_stopped cfg c status \<longleftrightarrow>
     (status = POSITION_PROTECTED_STOPPED \<and> \<not> bl_synthetic_auto_flat (pc_limits cfg) \<and> ct_halt c = 0
        \<and> ct_protected c = ct_flat c + 1 \<and> ct_seen c = ct_stay c + ct_blocked c + ct_protected c)
     \<or> (status = PAPER_HALTED_SAFE \<and> ct_halt c = 1 \<and> ct_protected c \<in> {ct_flat c, ct_flat c + 1}
        \<and> ct_stay c + ct_blocked c + ct_protected c \<in> {ct_seen c - 1, ct_seen c})"

definition paper_handed :: "int \<Rightarrow> paper_counts \<Rightarrow> paper_world \<Rightarrow> bool" where
  "paper_handed base c r \<longleftrightarrow> base + ct_protected c \<le> int (length (paper_sends r))"

text \<open>The counts of one signal, \<open>c\<close> before it.\<close>

definition signal_counted :: "paper_config \<Rightarrow> int \<Rightarrow> paper_counts \<Rightarrow> paper_local \<Rightarrow> paper_world \<Rightarrow> bool" where
  "signal_counted cfg base c x r \<longleftrightarrow> (case x of (c', risk, ended) \<Rightarrow>
     paper_handed base c' r \<and> ct_seen c' = ct_seen c + 1
     \<and> (case ended of None \<Rightarrow> counts_balanced c' | Some status \<Rightarrow> counts_stopped cfg c' status))"

lemma handed_view: "keeps paper_view m \<Longrightarrow> triple (paper_handed base c) m (\<lambda>_. paper_handed base c) (\<lambda>_ _. True)"
  by (auto simp: triple_def paper_handed_def paper_view_def split: prod.splits sum.splits dest: keepsD)

lemma after_run_counted:
  assumes "counts_balanced c" "fr_status result \<noteq> FC_FLAT_RECONCILED_SYNTHETIC"
    and "c1 = c\<lparr>ct_seen := ct_seen c + 1\<rparr>"
  shows "triple (paper_handed (base + (if fr_status result = FC_POSITION_PROTECTED_SYNTHETIC then 1 else 0)) c)
    (paper_after_run cfg now risk c1 result) (signal_counted cfg base c) (\<lambda>_ _. True)"
proof -
  have exit: "triple (paper_handed (base + 1) c)
     (bindE (paper_engine last_sent) (\<lambda>intent_id.
               bindE (paper_engine (auto_complete_exit_once_synthetic intent_id now)) (\<lambda>exit_result.
               if fr_status exit_result = FC_FLAT_RECONCILED_SYNTHETIC
                  then returnE (c2\<lparr>ct_exit := ct_exit c2 + fr_exit_attempt_count exit_result,
                    ct_flat := ct_flat (c2\<lparr>ct_exit := ct_exit c2 + fr_exit_attempt_count exit_result\<rparr>) + 1\<rparr>, risk, None)
                  else returnE (count_halt (c2\<lparr>ct_exit := ct_exit c2 + fr_exit_attempt_count exit_result\<rparr>) risk))))
     (signal_counted cfg base c) (\<lambda>_ _. True)"
    if "ct_seen c2 = ct_seen c + 1" "ct_stay c2 = ct_stay c" "ct_blocked c2 = ct_blocked c" "ct_flat c2 = ct_flat c"
      "ct_halt c2 = ct_halt c" "ct_protected c2 = ct_protected c + 1" for c2
    by (intro triple_bind [OF handed_view [OF view_store(6)]] triple_bind [OF handed_view [OF view_store(7)]] triple_if triple_return)
      (use assms(1) that in \<open>auto simp: signal_counted_def paper_handed_def count_halt_def counts_balanced_def counts_stopped_def\<close>)
  note counted = signal_counted_def paper_handed_def count_halt_def counts_balanced_def counts_stopped_def
  show ?thesis
  proof (cases "fr_status result")
    case FC_POSITION_PROTECTED_SYNTHETIC
    show ?thesis
      unfolding paper_after_run_def Let_def FC_POSITION_PROTECTED_SYNTHETIC fake_cycle_status.case if_P [OF refl]
      by (intro triple_if exit triple_return) (use assms in \<open>auto simp: counted\<close>)
  qed (use assms in \<open>auto simp: paper_after_run_def Let_def counted triple_def\<close>)
qed

lemma run_handed:
  "triple (paper_handed base c) (paper_engine (auto_run_signal_once_synthetic signal policy safety now))
     (\<lambda>result r. fr_status result \<noteq> FC_FLAT_RECONCILED_SYNTHETIC
        \<and> paper_handed (base + (if fr_status result = FC_POSITION_PROTECTED_SYNTHETIC then 1 else 0)) c r) (\<lambda>_ _. True)"
proof (rule tripleI)
  fix r result r' assume pre: "paper_handed base c r"
    and "paper_engine (auto_run_signal_once_synthetic signal policy safety now) r = (Inr result, r')"
  then obtain w where w: "auto_run_signal_once_synthetic signal policy safety now (pw_auto r) = (Inr result, w)"
      "r' = r\<lparr>pw_auto := w\<rparr>"
    by (auto simp: paper_engine_def run_zoom split: prod.splits)
  show "fr_status result \<noteq> FC_FLAT_RECONCILED_SYNTHETIC
        \<and> paper_handed (base + (if fr_status result = FC_POSITION_PROTECTED_SYNTHETIC then 1 else 0)) c r'"
    using run_reports [OF w(1)] pre w(2) by (auto simp: run_reported_def paper_handed_def paper_sends_def split: if_splits)
qed simp

lemma handed_read: "keeps paper_view m \<Longrightarrow> (\<And>x. triple (paper_handed base c) (k x) Q (\<lambda>_ _. True))
    \<Longrightarrow> triple (paper_handed base c) (bindE m k) Q (\<lambda>_ _. True)"
  by (rule triple_bind [OF handed_view])

lemma handed_sends: "keeps paper_sends m \<Longrightarrow> (\<And>x. triple (paper_handed base c) (k x) Q (\<lambda>_ _. True))
    \<Longrightarrow> triple (paper_handed base c) (bindE m k) Q (\<lambda>_ _. True)"
  by (rule triple_bind [where R = "\<lambda>_. paper_handed base c"])
    (auto simp: triple_def paper_handed_def split: prod.splits sum.splits dest: keepsD)

lemma sends_admit: "keeps paper_sends (paper_admit cfg signal safety now risk)"
proof -
  have "keeps paper_sends (paper_risk_file m)" for m :: "(json_path, unit) prog"
  proof -
    have "keeps paper_sends (paper_engine auto_checkpoint)"
      using view_store(4) by (auto simp: keeps_def paper_view_def)
    then show ?thesis unfolding paper_risk_file_def by (intro frame keeps_zoom_other) (simp_all add: paper_sends_def)
  qed
  then show ?thesis unfolding paper_admit_def Let_def by (intro frame keeps_paper_ledger)
qed

lemma signal_counted_triple:
  assumes "counts_balanced c"
  shows "triple (paper_handed base c) (paper_signal cfg signal risk c) (signal_counted cfg base c) (\<lambda>_ _. True)"
proof -
  have halted: "triple (paper_handed base c) (returnE (count_halt (c\<lparr>ct_seen := ct_seen c + 1\<rparr>) risk))
      (signal_counted cfg base c) (\<lambda>_ _. True)"
    "triple (paper_handed base c) (returnE (count_halt (c\<lparr>ct_seen := ct_seen c + 1, ct_blocked := ct_blocked c + 1\<rparr>) risk))
      (signal_counted cfg base c) (\<lambda>_ _. True)" for risk
    using assms by (auto intro!: triple_return simp: signal_counted_def paper_handed_def count_halt_def counts_balanced_def counts_stopped_def)
  have run: "triple (paper_handed base c)
     (bindE (paper_engine (auto_run_signal_once_synthetic signal (pc_policy cfg) safety now)) (\<lambda>result.
        paper_after_run cfg now risk (c\<lparr>ct_seen := ct_seen c + 1\<rparr>) result)) (signal_counted cfg base c) (\<lambda>_ _. True)"
    for safety now risk
    by (rule triple_bind [OF run_handed], rule triple_pure, rule after_run_counted [OF assms _ refl])
  have admit: "keeps paper_sends (if b then paper_admit cfg signal safety now risk else returnE (True, risk))" for b safety now risk
    by (intro frame sends_admit)
  show ?thesis
    unfolding paper_signal_def Let_def paper_dead_man_now_def thenE_def
    using halted(2) by (intro handed_read view_frames view_safety handed_sends [OF admit] triple_if halted run)
      (auto intro!: triple_if halted run)
qed

text \<open>The counts at the end of the loop over \<open>n\<close> signals.\<close>

definition loop_counted :: "paper_config \<Rightarrow> int \<Rightarrow> int \<Rightarrow> paper_counts \<Rightarrow> paper_status \<Rightarrow> bool" where
  "loop_counted cfg limit n c status \<longleftrightarrow> ct_seen c \<le> limit \<and> ct_seen c \<le> n
     \<and> (case status of
          COMPLETED_FAKE_ONLY \<Rightarrow> counts_balanced c \<and> ct_seen c = n
        | BOUNDED_LIMIT_REACHED \<Rightarrow> counts_balanced c \<and> ct_seen c < n
        | _ \<Rightarrow> counts_stopped cfg c status)"

lemma loop_counted_triple:
  assumes "counts_balanced c" "ct_seen c \<le> bl_maximum_signal_records (pc_limits cfg)"
  shows "triple (paper_handed base c) (paper_loop cfg start signals risk c)
    (\<lambda>(c', risk', status) r. paper_handed base c' r
       \<and> loop_counted cfg (bl_maximum_signal_records (pc_limits cfg)) (ct_seen c + int (length signals)) c' status) (\<lambda>_ _. True)"
  using assms
proof (induction signals arbitrary: risk c)
  case Nil
  then show ?case unfolding paper_loop.simps by (intro triple_return) (simp add: loop_counted_def)
next
  case (Cons signal signals)
  let ?max = "bl_maximum_signal_records (pc_limits cfg)"
  let ?Q = "\<lambda>(c', risk', status) r. paper_handed base c' r \<and> loop_counted cfg ?max (ct_seen c + int (length (signal # signals))) c' status"
  have bounded: "triple (paper_handed base c) (returnE (c, risk, BOUNDED_LIMIT_REACHED)) ?Q (\<lambda>_ _. True)"
    using Cons.prems by (auto intro!: triple_return simp: loop_counted_def)
  have rest: "triple (signal_counted cfg base c x)
      (case x of (c, risk, ended) \<Rightarrow> case ended of Some status \<Rightarrow> returnE (c, risk, status)
         | None \<Rightarrow> paper_loop cfg start signals risk c) ?Q (\<lambda>_ _. True)" if "ct_seen c < ?max" for x
  proof -
    obtain c' risk' ended where x: "x = (c', risk', ended)" by (cases x)
    show ?thesis
    proof (cases ended)
      case None
      show ?thesis
      proof (cases "counts_balanced c' \<and> ct_seen c' = ct_seen c + 1")
        case True
        then show ?thesis
          using Cons.IH [of c' risk'] that
          by (auto simp: x None signal_counted_def triple_def algebra_simps split: prod.splits sum.splits)
      qed (auto simp: x None signal_counted_def triple_def)
    next
      case (Some status)
      then show ?thesis
        using that by (auto intro!: triple_return simp: x signal_counted_def loop_counted_def counts_stopped_def)
    qed
  qed
  show ?case
    unfolding paper_loop.simps
    by (intro triple_if bounded handed_read view_files(4) triple_bind [OF signal_counted_triple [OF Cons.prems(1)]] rest) auto
qed

section \<open>The report\<close>

lemma triple_finally:
  "triple P m Q (\<lambda>_ _. True) \<Longrightarrow> (\<And>x. triple (Q x) k (\<lambda>_. Q x) (\<lambda>_ _. True)) \<Longrightarrow> triple P (finallyE m k) Q (\<lambda>_ _. True)"
  by (fastforce simp: triple_def finallyE_def split: prod.splits sum.splits)

definition locked_counted :: "paper_config \<Rightarrow> int \<Rightarrow> int \<Rightarrow> paper_counts \<times> risk_state \<times> paper_status \<Rightarrow> paper_world \<Rightarrow> bool" where
  "locked_counted cfg base n x r \<longleftrightarrow> (case x of (c, risk, status) \<Rightarrow>
     paper_handed base c r \<and> loop_counted cfg (bl_maximum_signal_records (pc_limits cfg)) n c status)"

lemma locked_view: "keeps paper_view m \<Longrightarrow> triple (locked_counted cfg base n x) m (\<lambda>_. locked_counted cfg base n x) (\<lambda>_ _. True)"
  by (auto simp: triple_def locked_counted_def paper_handed_def paper_view_def split: prod.splits sum.splits dest: keepsD)

lemma report_counted_triple:
  assumes "0 \<le> bl_maximum_signal_records (pc_limits cfg)"
  shows "triple (\<lambda>r. base = int (length (paper_sends r))) (run_bounded_paper_signals_no_post cfg signals)
    (\<lambda>report r. paper_handed base (pr_counts report) r
      \<and> loop_counted cfg (bl_maximum_signal_records (pc_limits cfg)) (int (length signals)) (pr_counts report) (pr_status report))
    (\<lambda>_ _. True)"
proof -
  have zero: "counts_balanced paper_zero_counts" "ct_seen paper_zero_counts = 0"
    by (simp_all add: counts_balanced_def paper_zero_counts_def)
  have loop: "triple (paper_handed base paper_zero_counts) (paper_loop cfg start signals risk paper_zero_counts)
      (locked_counted cfg base (int (length signals))) (\<lambda>_ _. True)" for start risk
    by (rule triple_weaken [OF loop_counted_triple [OF zero(1)]]) (use assms zero in \<open>auto simp: locked_counted_def split: prod.splits\<close>)
  have locked: "triple (paper_handed base paper_zero_counts) (paper_locked cfg start signals)
      (\<lambda>x. locked_counted cfg base (int (length signals)) (fst x)) (\<lambda>_ _. True)" for start
    unfolding paper_locked_def thenE_def paper_bind_def paper_dead_man_now_def
    by (intro handed_read view_frames triple_bind [OF loop] triple_bind [OF locked_view] triple_return) simp
  have report: "triple (locked_counted cfg base n (fst x)) (case x of (ended, journal_valid, alive) \<Rightarrow> paper_report_of ended journal_valid alive)
      (\<lambda>report r. paper_handed base (pr_counts report) r
        \<and> loop_counted cfg (bl_maximum_signal_records (pc_limits cfg)) n (pr_counts report) (pr_status report)) (\<lambda>_ _. True)"
    for n and x :: "(paper_counts \<times> risk_state \<times> paper_status) \<times> bool \<times> bool"
    by (cases x) (auto simp: paper_report_of_def locked_counted_def triple_def split: prod.splits)
  have start: "triple (paper_handed base paper_zero_counts) (run_bounded_paper_signals_no_post cfg signals)
    (\<lambda>report r. paper_handed base (pr_counts report) r
      \<and> loop_counted cfg (bl_maximum_signal_records (pc_limits cfg)) (int (length signals)) (pr_counts report) (pr_status report))
    (\<lambda>_ _. True)"
    unfolding run_bounded_paper_signals_no_post_def thenE_def
    by (intro handed_read view_frames triple_bind [OF triple_finally [OF locked locked_view]] report)
  show ?thesis
    by (rule triple_pre [OF start]) (simp add: paper_handed_def paper_zero_counts_def)
qed

end
