(* ===== verification/Paper_Samples.thy ===== *)
theory Paper_Samples
  imports Paper_Runner_Counts V4_Runtime_Samples
begin

text \<open>
  A run of the paper runner over one directional signal from nothing: the entry is admitted and saved,
  handed over, protected, closed and reconciled.
\<close>

definition paper_sample_config :: paper_config where
  "paper_sample_config = \<lparr>pc_limits = \<lparr>bl_maximum_signal_records = 100, bl_maximum_wall_seconds = 300,
       bl_synthetic_auto_flat = True\<rparr>,
     pc_policy = auto_sample_policy, pc_state_path = ''state'', pc_lock_path = ''lock'',
     pc_risk_store_policy = sample_risk_policy, pc_risk_policy = sample_risk_policy,
     pc_dead_man_policy = sample_dead_man, pc_generation_label = PyStr ''G1'', pc_lock_object = 1\<rparr>"

definition paper_sample_world :: paper_world where
  "paper_sample_world = \<lparr>pw_auto = auto_sample_world, pw_risk = \<lparr>jp_file = FileMissing, jp_tmp_symlink = False\<rparr>,
     pw_dead_man = \<lparr>jp_file = FileMissing, jp_tmp_symlink = False\<rparr>,
     pw_lock = \<lparr>lf_kind = LockAbsent, lf_holder = None\<rparr>, pw_now = (\<lambda>_. sample_now), pw_now_calls = 0,
     pw_monotonic = (\<lambda>_. 0), pw_monotonic_calls = 0, pw_sent = [], pw_exits = []\<rparr>"

lemma paper_sample_limits:
  "BoundedPaperRunConfig (PyInt 100) (WallInt 300) (PyBool True) = Inr (pc_limits paper_sample_config)"
  unfolding paper_sample_config_def by code_simp

lemma nonblank_digest: "nonblank_str (PyStr (sha256_hex s))"
proof -
  have "\<not> py_isspace c" if "c \<in> set (sha256_hex s)" for c
    using that set_sha256_hex [of s] by (auto simp: hex_chars_def digit_chars_def py_isspace_def)
  then have "dropWhile py_isspace (sha256_hex s) = sha256_hex s" "dropWhile py_isspace (rev (sha256_hex s)) = rev (sha256_hex s)"
    using hd_in_set [of "sha256_hex s"] hd_in_set [of "rev (sha256_hex s)"] by (auto simp: dropWhile_eq_self_iff)
  then show ?thesis by (simp add: nonblank_str_def py_strip_def)
qed

text \<open>The database after its opening and its binding.\<close>

definition paper_opened_db :: auto_db where
  "paper_opened_db = auto_empty_db\<lparr>adb_metadata := [(''schema_version'', PHASE_A_SCHEMA_VERSION)]\<rparr>"

lemma paper_sample_opened: "auto_initialize auto_empty_db = (Inr (), paper_opened_db)"
  by (simp add: auto_initialize_def run_progs auto_insert_metadata_def auto_empty_db_def paper_opened_db_def)

lemma paper_sample_bound:
  "\<exists>b m. paper_bind paper_sample_config = paper_engine (at_store (auto_bind_run_generation (PyStr ''G1'') auto_sample_policy
      (PyStr ''RISK'') (PyStr (risk_policy_digest sample_risk_policy)) (PyStr ''DEAD'') (PyStr (dead_man_digest sample_dead_man))))
    \<and> auto_bind_run_generation (PyStr ''G1'') auto_sample_policy (PyStr ''RISK'') (PyStr (risk_policy_digest sample_risk_policy))
        (PyStr ''DEAD'') (PyStr (dead_man_digest sample_dead_man)) paper_opened_db = (Inr b, auto_empty_db\<lparr>adb_metadata := m\<rparr>)"
proof -
  let ?b = "\<lparr>rb_generation_label = ''G1'', rb_strategy_version = ''V3'', rb_selected_horizon = ''30m'',
     rb_risk_policy_label = ''RISK'', rb_dead_man_policy_label = ''DEAD''\<rparr>"
  let ?m = "run_manifest ?b ''cfg'' (risk_policy_digest sample_risk_policy) (dead_man_digest sample_dead_man)"
  have eq: "auto_bind_run_generation (PyStr ''G1'') auto_sample_policy (PyStr ''RISK'') (PyStr (risk_policy_digest sample_risk_policy))
        (PyStr ''DEAD'') (PyStr (dead_man_digest sample_dead_man)) = thenE (auto_bind_rows ?b ?m (sha256_hex ?m)) (returnE ?b)"
  proof (rule bind_eq)
    show "list_all auto_safe_label [PyStr ''G1'', PyStr (p_strategy_version auto_sample_policy),
        PyHorizon (p_horizon auto_sample_policy), PyStr ''RISK'', PyStr ''DEAD'']" by code_simp
    have "nonblank_str (PyStr (p_config_hash auto_sample_policy))" by code_simp
    then show "list_all nonblank_str [PyStr (p_config_hash auto_sample_policy), PyStr (risk_policy_digest sample_risk_policy),
        PyStr (dead_man_digest sample_dead_man)]"
      using nonblank_digest by (simp add: risk_policy_digest_def dead_man_digest_def)
  qed (simp_all add: auto_sample_policy_def)
  have "auto_bind_rows ?b m x paper_opened_db = (Inr (), auto_empty_db\<lparr>adb_metadata := adb_metadata paper_opened_db @ run_labels ?b
      @ [(''run_generation_manifest'', m), (''run_generation_digest'', x)]\<rparr>)" for m x
    by (simp add: auto_bind_rows_def run_progs auto_insert_metadata_def auto_empty_db_def run_labels_def paper_opened_db_def
        PHASE_A_SCHEMA_VERSION_def)
  then have "\<exists>m. thenE (auto_bind_rows ?b ?m (sha256_hex ?m)) (returnE ?b) paper_opened_db =
      (Inr ?b, auto_empty_db\<lparr>adb_metadata := m\<rparr>)"
    by (auto simp: run_then)
  moreover have "rp_label sample_risk_policy = ''RISK''" "dm_label sample_dead_man = ''DEAD''"
    by (simp_all add: sample_risk_policy_def sample_dead_man_def)
  ultimately show ?thesis
    unfolding eq by (simp add: paper_bind_def paper_sample_config_def eq) blast
qed

lemma paper_sample_beat:
  "\<exists>path result. dead_man_heartbeat sample_dead_man sample_now \<lparr>jp_file = FileMissing, jp_tmp_symlink = False\<rparr> = (Inr (), path)
    \<and> dead_man_heartbeat sample_dead_man sample_now path = (Inr (), path)
    \<and> dead_man_evaluate sample_dead_man path sample_now = Inr result \<and> dr_alive result"
proof -
  obtain path result where beat: "dead_man_heartbeat sample_dead_man sample_now \<lparr>jp_file = FileMissing, jp_tmp_symlink = False\<rparr> = (Inr (), path)"
    "dead_man_evaluate sample_dead_man path sample_now = Inr result" "dr_alive result"
    using sample_beat_run by blast
  have "dt_in_range (to_utc sample_now)"
    by (simp add: dt_in_range_def to_utc_def dt_astimezone_def dt_utc_def sample_now_def dt_ordinal_def us_defs max_ordinal_def)
  from dead_man_heartbeat_round_trip [OF beat(1) this, of sample_now sample_now]
  have "fst (dead_man_heartbeat sample_dead_man sample_now path) = Inr ()" by simp
  moreover have "snd (dead_man_heartbeat sample_dead_man sample_now path) = path"
    using beat(1) calculation by (auto simp: dead_man_heartbeat_def run_progs split: if_splits sum.splits)
  ultimately show ?thesis using beat by (metis prod.collapse)
qed

text \<open>The engine over the bound database, after the heartbeat.\<close>

definition paper_sample_engine :: "(string \<times> string) list \<Rightarrow> notification list \<Rightarrow> auto_world" where
  "paper_sample_engine m es = \<lparr>aw_store = auto_empty_db\<lparr>adb_metadata := m\<rparr>,
     aw_sender = FakeProtectedEntrySender ACCEPTED_AND_PROTECTED,
     aw_exit_sender = FakePositionExitSender ACCEPTED_AND_FLAT,
     aw_notifier = FakeNotifier\<lparr>n_events := es\<rparr>, aw_interrupt = None\<rparr>"

lemma paper_sample_engine_fields [simp]:
  "aw_store (paper_sample_engine m es) = auto_empty_db\<lparr>adb_metadata := m\<rparr>" "aw_interrupt (paper_sample_engine m es) = None"
  "aw_notifier (paper_sample_engine m es) = FakeNotifier\<lparr>n_events := es\<rparr>"
  "(paper_sample_engine m es)\<lparr>aw_store := auto_empty_db\<lparr>adb_metadata := m'\<rparr>\<rparr> = paper_sample_engine m' es"
  "(paper_sample_engine m es)\<lparr>aw_notifier := FakeNotifier\<lparr>n_events := es'\<rparr>\<rparr> = paper_sample_engine m es'"
  "x_calls (aw_sender (paper_sample_engine m es)) = []" "x_calls (aw_exit_sender (paper_sample_engine m es)) = []"
  "x_outcome (aw_sender (paper_sample_engine m es)) = Some ACCEPTED_AND_PROTECTED"
  "x_outcome (aw_exit_sender (paper_sample_engine m es)) = Some ACCEPTED_AND_FLAT"
  by (simp_all add: paper_sample_engine_def FakeProtectedEntrySender_def FakePositionExitSender_def fresh_sender_def)

lemma paper_sample_cycle:
  assumes reach: "auto_world_reach [] [] (paper_sample_engine m es)"
  shows "\<exists>w1 w2 c. auto_run_signal_once_synthetic sample_signal auto_sample_policy auto_sample_safety sample_now
       (paper_sample_engine m es) = (Inr (auto_report FC_POSITION_PROTECTED_SYNTHETIC auto_sample_row []), w1)
    \<and> x_calls (aw_sender w1) = [auto_sample_id]
    \<and> auto_complete_exit_once_synthetic auto_sample_id sample_now w1 = (Inr (auto_report FC_FLAT_RECONCILED_SYNTHETIC c []), w2)
    \<and> ac_exit_attempt_count c = 1 \<and> auto_world_reach [] [] w2 \<and> aw_interrupt w2 = None \<and> x_calls (aw_sender w2) = [auto_sample_id]"
proof -
  let ?w = "paper_sample_engine m es"
  have accepts: "n_accepts (FakeNotifier\<lparr>n_events := es\<rparr>) k" for k by (simp add: n_accepts_def FakeNotifier_def)
  have spec: "auto_entry_spec (auto_env_of True [] [] ?w) (auto_new_cycle sample_signal auto_sample_id sample_now) sample_now =
      (FC_POSITION_PROTECTED_SYNTHETIC, auto_sample_row, [])"
    by (simp add: auto_entry_spec_def auto_sample_row_def Let_def accepts del: n_accepts_events)
  have empty: "auto_active_intent_count (aw_store ?w) = 0" "\<not> auto_halt_latched (aw_store ?w)"
    "count_rows p (adb_cycles (aw_store ?w)) = 0" "\<not> auto_duplicate signal i (aw_store ?w)" for p signal i
    by (simp_all add: auto_active_intent_count_def auto_empty_db_def auto_halt_latched_def select_one_def
        auto_duplicate_def auto_find_def)
  obtain gate where gate: "evaluate_phase_a_entry_gate sample_signal auto_sample_policy
      (auto_tightened auto_sample_safety 0 0 False) sample_now = Inr gate" "eg_fake_cycle_allowed gate"
    using auto_sample_gate by blast
  obtain w1 where run: "auto_run_signal_once_synthetic sample_signal auto_sample_policy auto_sample_safety sample_now ?w =
      (Inr (auto_report FC_POSITION_PROTECTED_SYNTHETIC auto_sample_row []), w1)"
    and found: "auto_find auto_sample_id (aw_store w1) = Some auto_sample_row"
    and inv: "auto_world_inv (auto_env_of True [] [] ?w) w1"
    using auto_run_full [OF reach _ auto_sample_policy sample_FormalSignal, of sample_now auto_sample_safety gate]
      gate empty spec auto_sample_id by auto
  have w1: "auto_world_reach [] [] w1" "aw_interrupt w1 = None"
    using auto_run [OF reach auto_sample_policy sample_FormalSignal run] inv
    by (simp_all add: auto_world_inv_def auto_senders_ok_def)
  have calls: "x_calls (aw_sender w1) = [auto_sample_id]"
    using run_reports [OF run] auto_sample_id by (auto simp: run_reported_def auto_report_def)
  have row: "ac_state auto_sample_row = AUTO_POSITION_PROTECTED" by (simp add: auto_sample_row_def)
  obtain c where c: "auto_exit_spec (auto_env_of True [] [] w1) auto_sample_row sample_now = (FC_FLAT_RECONCILED_SYNTHETIC, c, [])"
      "ac_exit_attempt_count c = 1"
    using inv accepts by (simp add: auto_exit_spec_def Let_def auto_world_inv_def auto_senders_ok_def del: n_accepts_events)
  obtain w2 where exit: "auto_complete_exit_once_synthetic auto_sample_id sample_now w1 =
      (Inr (auto_report FC_FLAT_RECONCILED_SYNTHETIC c []), w2)"
    and inv2: "auto_world_inv (auto_env_of True [] [] w1) w2"
    using auto_exit_full [OF w1, of auto_sample_id sample_now] found row c by auto
  have "auto_world_reach [] [] w2" "aw_interrupt w2 = None" "x_calls (aw_sender w2) = [auto_sample_id]"
    using auto_exit [OF w1(1) exit] inv2 keepsD [OF keeps_calls_exit exit] calls
    by (simp_all add: auto_world_inv_def auto_senders_ok_def)
  then show ?thesis using run calls exit c(2) by blast
qed

lemma journal_of_reach: "auto_world_reach sent exits w \<Longrightarrow> \<exists>s. auto_verify_journal (aw_store w) = Inr s \<and> ajs_valid s"
proof -
  assume "auto_world_reach sent exits w"
  then have "auto_store_inv (aw_store w)" by (rule auto_reach_store)
  then show ?thesis using auto_events_in_order_chain by (auto simp: auto_verify_journal_eq auto_store_inv_def)
qed

section \<open>The run\<close>

definition paper_sample_report :: paper_report where
  "paper_sample_report = (case fst (run_bounded_paper_signals_no_post paper_sample_config [sample_signal] paper_sample_world) of
     Inr report \<Rightarrow> report)"

lemma paper_sample_run:
  "\<exists>r. run_bounded_paper_signals_no_post paper_sample_config [sample_signal] paper_sample_world = (Inr paper_sample_report, r)
    \<and> paper_sends r = [auto_sample_id] \<and> pr_status paper_sample_report = COMPLETED_FAKE_ONLY
    \<and> pr_counts paper_sample_report = \<lparr>ct_seen = 1, ct_stay = 0, ct_blocked = 0, ct_entry = 1, ct_exit = 1, ct_protected = 1,
         ct_flat = 1, ct_halt = 0\<rparr>
    \<and> pr_journal_valid paper_sample_report \<and> lf_holder (pw_lock r) = None"
proof -
  let ?missing = "\<lparr>jp_file = FileMissing, jp_tmp_symlink = False\<rparr>"
  let ?r = "\<lambda>w risk dead n m. \<lparr>pw_auto = w, pw_risk = risk, pw_dead_man = dead, pw_lock = \<lparr>lf_kind = LockRegular, lf_holder = Some (Suc 0)\<rparr>,
     pw_now = (\<lambda>_. sample_now), pw_now_calls = n, pw_monotonic = (\<lambda>_. 0), pw_monotonic_calls = m, pw_sent = [], pw_exits = []\<rparr>"
  obtain b m where bound: "paper_bind paper_sample_config = paper_engine (at_store (auto_bind_run_generation (PyStr ''G1'') auto_sample_policy
      (PyStr ''RISK'') (PyStr (risk_policy_digest sample_risk_policy)) (PyStr ''DEAD'') (PyStr (dead_man_digest sample_dead_man))))"
    and bind: "auto_bind_run_generation (PyStr ''G1'') auto_sample_policy (PyStr ''RISK'') (PyStr (risk_policy_digest sample_risk_policy))
        (PyStr ''DEAD'') (PyStr (dead_man_digest sample_dead_man)) paper_opened_db = (Inr b, auto_empty_db\<lparr>adb_metadata := m\<rparr>)"
    using paper_sample_bound by blast
  obtain beat result where beat: "dead_man_heartbeat sample_dead_man sample_now ?missing = (Inr (), beat)"
    "dead_man_heartbeat sample_dead_man sample_now beat = (Inr (), beat)"
    "dead_man_evaluate sample_dead_man beat sample_now = Inr result" "dr_alive result"
    using paper_sample_beat by blast
  let ?E = "paper_sample_engine" and ?cfg = "paper_sample_config"
  have start: "auto_sample_world = ?E [] []"
    by (simp add: auto_sample_world_def paper_sample_engine_def FakeNotifier_def auto_empty_db_def)
  have db0: "auto_empty_db = auto_empty_db\<lparr>adb_metadata := []\<rparr>" by (simp add: auto_empty_db_def)
  let ?opened = "?E [(''schema_version'', PHASE_A_SCHEMA_VERSION)]"
  have init: "auto_initialize (auto_empty_db\<lparr>adb_metadata := []\<rparr>) = (Inr (), paper_opened_db)"
    using paper_sample_opened db0 by simp
  have reach: "auto_world_reach [] [] (?E m [])"
  proof -
    have "auto_world_reach [] [] ((?E [] [])\<lparr>aw_store := paper_opened_db\<rparr>)"
      using auto_reopen [OF auto_sample_world_reach [unfolded start]] init by simp
    from auto_bind [OF this, of "PyStr ''G1''" auto_sample_policy] bind show ?thesis
      by (fastforce simp: paper_opened_db_def)
  qed
  have notified: "notify HEARTBEAT (FakeNotifier\<lparr>n_events := []\<rparr>) = (Inr True, FakeNotifier\<lparr>n_events := [HEARTBEAT]\<rparr>)"
    by (simp add: notify_def run_progs FakeNotifier_def)
  then have "notify HEARTBEAT (aw_notifier (?E m [])) = (Inr True, FakeNotifier\<lparr>n_events := [HEARTBEAT]\<rparr>)" by simp
  from auto_notified [OF reach this] have beaten: "auto_world_reach [] [] (?E m [HEARTBEAT])"
    unfolding paper_sample_engine_fields(5) .
  obtain w1 w2 c where run: "auto_run_signal_once_synthetic sample_signal auto_sample_policy auto_sample_safety sample_now
       (?E m [HEARTBEAT]) = (Inr (auto_report FC_POSITION_PROTECTED_SYNTHETIC auto_sample_row []), w1)"
    and calls: "x_calls (aw_sender w1) = [auto_sample_id]"
    and exit: "auto_complete_exit_once_synthetic auto_sample_id sample_now w1 = (Inr (auto_report FC_FLAT_RECONCILED_SYNTHETIC c []), w2)"
      "ac_exit_attempt_count c = 1"
    and w2: "auto_world_reach [] [] w2" "aw_interrupt w2 = None" "x_calls (aw_sender w2) = [auto_sample_id]"
    using paper_sample_cycle [OF beaten] by blast
  obtain journal where journal: "auto_verify_journal (aw_store w2) = Inr journal" "ajs_valid journal"
    using journal_of_reach [OF w2(1)] by blast
  have cfg: "pc_policy ?cfg = auto_sample_policy" "pc_risk_store_policy ?cfg = sample_risk_policy" "pc_risk_policy ?cfg = sample_risk_policy"
    "pc_dead_man_policy ?cfg = sample_dead_man" "pc_lock_object ?cfg = 1" "pc_state_path ?cfg \<noteq> pc_lock_path ?cfg"
    "bl_synthetic_auto_flat (pc_limits ?cfg)" "bl_maximum_signal_records (pc_limits ?cfg) = 100"
    "bl_maximum_wall_seconds (pc_limits ?cfg) = 300"
    by (simp_all add: paper_sample_config_def)
  note engine = paper_engine_def at_store_def auto_checkpoint_def run_progs cfg
  let ?saved = "\<lparr>jp_file = FileDocument (JObj (risk_state_fields sample_risk2)), jp_tmp_symlink = False\<rparr>"
  let ?counts = "\<lparr>ct_seen = 1, ct_stay = 0, ct_blocked = 0, ct_entry = 1, ct_exit = 1, ct_protected = 1, ct_flat = 1, ct_halt = 0\<rparr>"
  have safety: "paper_safety ?cfg sample_now (?r (?E m es) f g n k) = (Inr auto_sample_safety, ?r (?E m es) f g n k)" for es f g n k
    by (simp add: paper_safety_def engine lock_held_def auto_active_intent_count_def auto_empty_db_def auto_halt_latched_def
        select_one_def auto_entry_attempts_on_jst_day_def auto_timestamp_def PhaseASafetySnapshot_def is_count_def auto_sample_safety_def)
  obtain gate where gate: "evaluate_phase_a_entry_gate sample_signal auto_sample_policy auto_sample_safety sample_now = Inr gate"
      "eg_fake_cycle_allowed gate"
    using auto_sample_gate by (auto simp: auto_tightened_def auto_sample_safety_def)
  have allowed: "rg_allowed (risk_gate_of sample_risk_policy sample_risk1)"
    by (simp add: risk_gate_of_def sample_reasons)
  have admit: "paper_admit ?cfg sample_signal auto_sample_safety sample_now (risk_fresh sample_risk_policy)
      (?r (?E m es) ?missing g n k) = (Inr (True, sample_risk2), ?r (?E m es) ?saved g n k)" for es g n k
    by (simp add: paper_admit_def Let_def paper_ledger_def engine sample_evaluate allowed gate sample_record paper_risk_file_def sample_save)
  have "paper_after_run ?cfg sample_now sample_risk2 (paper_zero_counts\<lparr>ct_seen := 1\<rparr>)
       (auto_report FC_POSITION_PROTECTED_SYNTHETIC auto_sample_row []) (?r w1 f g n k) = (Inr (?counts, sample_risk2, None), ?r w2 f g n k)"
    for f g n k
    using exit(2) by (simp add: paper_after_run_def Let_def auto_report_def cfg engine last_sent_def calls exit(1) [unfolded auto_report_def]
        auto_sample_row_def paper_zero_counts_def)
  moreover have "ct_seen paper_zero_counts = 0" by (simp add: paper_zero_counts_def)
  ultimately have signal: "paper_signal ?cfg sample_signal (risk_fresh sample_risk_policy) paper_zero_counts (?r (?E m []) ?missing beat n k) =
      (Inr (?counts, sample_risk2, None), ?r w2 ?saved beat (n + 1) k)" for n k
    by (simp add: paper_signal_def Let_def paper_now_def engine at_notifier_def notified paper_dead_man_file_def beat paper_dead_man_now_def
        safety admit run)
  have loop: "paper_loop ?cfg 0 [sample_signal] (risk_fresh sample_risk_policy) paper_zero_counts (?r (?E m []) ?missing beat n k) =
      (Inr (?counts, sample_risk2, COMPLETED_FAKE_ONLY), ?r w2 ?saved beat (n + 1) (k + 1))" for n k
    using signal by (simp add: cfg run_progs paper_monotonic_def float_sub_def float_round_def paper_zero_counts_def)
  have fresh: "paper_new_engine (?r (?E m []) f g n k) = (Inr (), ?r (?E m []) f g n k)" for f g n k
    by (simp add: paper_new_engine_def H11AutoPhaseAEngine_def exact_or_refused_def or_default_def paper_sample_engine_def
        FakeProtectedEntrySender_def FakePositionExitSender_def fresh_sender_def FakeNotifier_def)
  have unsent: "\<not> n_external_send_performed (FakeNotifier\<lparr>n_events := es\<rparr>)" for es by (simp add: FakeNotifier_def)
  have locked: "paper_locked ?cfg 0 [sample_signal] (?r (?opened []) ?missing ?missing 0 1) =
      (Inr ((?counts, sample_risk2, COMPLETED_FAKE_ONLY), True, True), ?r w2 ?saved beat 3 2)"
    using bind [unfolded paper_opened_db_def]
    by (simp add: paper_locked_def bound engine unsent paper_risk_file_def risk_load_def paper_now_def paper_dead_man_file_def
        beat fresh loop w2(2) journal paper_dead_man_now_def del: paper_loop.simps flip: risk_fresh_def)
  let ?s = "\<lambda>w k. \<lparr>pw_auto = w, pw_risk = ?missing, pw_dead_man = ?missing, pw_lock = \<lparr>lf_kind = LockAbsent, lf_holder = None\<rparr>,
     pw_now = (\<lambda>_. sample_now), pw_now_calls = 0, pw_monotonic = (\<lambda>_. 0), pw_monotonic_calls = k, pw_sent = [], pw_exits = []\<rparr>"
  have world: "paper_sample_world = ?s (?E [] []) 0" by (simp add: paper_sample_world_def start)
  have opened: "paper_engine (at_store auto_initialize) (?s (?E [] []) k) = (Inr (), ?s (?opened []) k)" for k
    by (simp add: engine init paper_opened_db_def)
  have first: "paper_monotonic (?s w 0) = (Inr 0, ?s w 1)" for w by (simp add: paper_monotonic_def run_progs)
  have acquired: "paper_lock (lock_acquire 1) (?s w 1) = (Inr True, ?r w ?missing ?missing 0 1)" for w
    by (simp add: paper_lock_def run_zoom run_lock_acquire lock_held_def)
  have "\<exists>r report. run_bounded_paper_signals_no_post ?cfg [sample_signal] paper_sample_world = (Inr report, r)
    \<and> paper_sends r = [auto_sample_id] \<and> pr_status report = COMPLETED_FAKE_ONLY \<and> pr_counts report = ?counts
    \<and> pr_journal_valid report \<and> lf_holder (pw_lock r) = None"
    unfolding run_bounded_paper_signals_no_post_def world run_then run_bind guardE_def if_P [OF cfg(6)] returnE_def prod.case
      sum.case first opened acquired if_P [OF TrueI] cfg(5) finallyE_def locked
    using w2(3) by (simp add: paper_lock_def run_zoom run_lock_release lock_held_def paper_report_of_def paper_sends_def)
  then show ?thesis by (auto simp: paper_sample_report_def)
qed

end
