(* ===== verification/Paper_Properties.thy ===== *)
theory Paper_Properties
  imports Paper_Samples
begin

text \<open>
  The properties of the paper runner: it refines the engine's world and hands nothing over twice, it
  lets no entry past an unsaved ledger, and its report counts what happened.
\<close>

section \<open>Sequences of runs\<close>

definition paper_exits :: "paper_world \<Rightarrow> string list" where
  "paper_exits r = pw_exits r @ x_calls (aw_exit_sender (pw_auto r))"

text \<open>
  Runs with any configuration and any signals, restarts of the process with unused senders (the
  operating system frees the lock), and changes of the files and the clocks by anybody else.
\<close>

inductive paper_reach :: "paper_world \<Rightarrow> bool" where
  paper_begin: "auto_unused sender \<Longrightarrow> auto_unused exit_sender \<Longrightarrow>
    H11AutoPhaseAEngine auto_empty_db sender exit_sender notifier interrupt = Inr (pw_auto r) \<Longrightarrow>
    pw_sent r = [] \<Longrightarrow> pw_exits r = [] \<Longrightarrow> paper_reach r"
| paper_run: "paper_reach r \<Longrightarrow> PhaseAExecutionPolicy args = Inr (pc_policy cfg) \<Longrightarrow>
    \<forall>signal \<in> set signals. \<exists>sargs. FormalSignal sargs = Inr signal \<Longrightarrow>
    run_bounded_paper_signals_no_post cfg signals r = (x, r') \<Longrightarrow> paper_reach r'"
| paper_restart: "paper_reach r \<Longrightarrow> auto_unused sender \<Longrightarrow> auto_unused exit_sender \<Longrightarrow>
    H11AutoPhaseAEngine (aw_store (pw_auto r)) sender exit_sender notifier interrupt = Inr w \<Longrightarrow>
    paper_reach (r\<lparr>pw_auto := w, pw_sent := paper_sends r, pw_exits := paper_exits r,
      pw_lock := (pw_lock r)\<lparr>lf_holder := None\<rparr>\<rparr>)"
| paper_files: "paper_reach r \<Longrightarrow>
    paper_reach (r\<lparr>pw_risk := f, pw_dead_man := g, pw_lock := l, pw_now := clock, pw_now_calls := i,
      pw_monotonic := ticks, pw_monotonic_calls := j\<rparr>)"

lemma paper_sample_reach: "paper_reach paper_sample_world"
  by (rule paper_begin [where sender = "Some (Exactly (FakeProtectedEntrySender ACCEPTED_AND_PROTECTED))"
        and exit_sender = "Some (Exactly (FakePositionExitSender ACCEPTED_AND_FLAT))" and notifier = None
        and interrupt = None])
     (simp_all add: auto_unused_def H11AutoPhaseAEngine_def or_default_def exact_or_refused_def
       FakeProtectedEntrySender_def FakePositionExitSender_def fresh_sender_def auto_sample_world_def paper_sample_world_def)

lemma paper_reach_ok: "paper_reach r \<Longrightarrow> paper_ok r"
proof (induction rule: paper_reach.induct)
  case (paper_begin sender exit_sender notifier interrupt r)
  then show ?case by (simp add: paper_ok_def auto_start)
next
  case (paper_run r args cfg signals x r')
  then show ?case using staysD [OF stays_paper_run] by blast
next
  case (paper_restart r sender exit_sender notifier interrupt w)
  then show ?case by (simp add: paper_ok_def paper_sends_def paper_exits_def auto_restart)
qed (simp add: paper_ok_def)

lemma paper_sample_run_reach:
  "\<exists>r. run_bounded_paper_signals_no_post paper_sample_config [sample_signal] paper_sample_world = (Inr paper_sample_report, r)
    \<and> paper_sends r = [auto_sample_id] \<and> paper_reach r"
proof -
  have "PhaseAExecutionPolicy auto_sample_args = Inr (pc_policy paper_sample_config)"
    by (simp add: auto_sample_policy paper_sample_config_def)
  moreover have "\<forall>signal \<in> set [sample_signal]. \<exists>sargs. FormalSignal sargs = Inr signal" using sample_FormalSignal by auto
  ultimately show ?thesis using paper_sample_run paper_run [OF paper_sample_reach] by meson
qed

lemma paper_limits_positive: "BoundedPaperRunConfig records wall auto_flat = Inr limits \<Longrightarrow> 1 \<le> bl_maximum_signal_records limits"
  by (auto simp: BoundedPaperRunConfig_def bindR_Inr_iff guardR_def split: option.splits if_splits)

section \<open>Properties\<close>

text \<open>
  C19. Whatever sequence of runs, restarts and changes around it, the paper runner only ever takes
  the store and the senders through worlds the engine's own reachability allows, so every guarantee
  about those holds for it; and over all its engines no intent is handed to an entry sender twice
  nor to an exit sender twice.
\<close>

theorem paper_runs_refine_engine:
  assumes "paper_reach r"
  shows "auto_world_reach (pw_sent r) (pw_exits r) (pw_auto r)
    \<and> distinct (paper_sends r) \<and> distinct (paper_exits r)"
proof -
  have "auto_world_reach (pw_sent r) (pw_exits r) (pw_auto r)" using paper_reach_ok [OF assms] by (simp add: paper_ok_def)
  then show ?thesis
    using auto_reach_inv by (simp add: auto_world_inv_def auto_ledger_ok_def auto_sent_ok_def paper_sends_def paper_exits_def)
qed

lemma paper_runs_refine_engine_witness:
  "\<exists>r. snd (run_bounded_paper_signals_no_post paper_sample_config [sample_signal] paper_sample_world) = r
    \<and> paper_sends r = [auto_sample_id] \<and> auto_world_reach (pw_sent r) (pw_exits r) (pw_auto r)"
  using paper_sample_run_reach paper_runs_refine_engine by fastforce

text \<open>
  C34. A run that hands anything to the sender has the entry in the ledger file: saved for the JST
  day of one of the readings of its clock, with no stop in force and at most the entries the risk
  policy allows.
\<close>

theorem paper_entry_needs_ledger:
  assumes "\<And>n. dt_in_range (to_jst (pw_now r n))" and "run_bounded_paper_signals_no_post cfg signals r = (x, r')"
    and "paper_sends r' \<noteq> paper_sends r"
  shows "\<exists>n s. jp_file (pw_risk r') = FileDocument (JObj (risk_state_fields s))
     \<and> validate_risk_state (pc_risk_store_policy cfg) s = Inr () \<and> risk_stop_of s = ACTIVE
     \<and> rs_current_day s = JStr (jst_day (pw_now r n))
     \<and> 1 \<le> json_int (rs_entries_today s) \<and> json_int (rs_entries_today s) \<le> rp_max_entries (pc_risk_policy cfg)"
  using paper_sends_admitted [OF assms] by (simp add: paper_entry_saved_def)

lemma paper_entry_needs_ledger_witness:
  "\<exists>s. jp_file (pw_risk (snd (run_bounded_paper_signals_no_post paper_sample_config [sample_signal] paper_sample_world))) =
      FileDocument (JObj (risk_state_fields s))
    \<and> rs_current_day s = JStr (jst_day sample_now) \<and> 1 \<le> json_int (rs_entries_today s)"
proof -
  obtain r where run: "run_bounded_paper_signals_no_post paper_sample_config [sample_signal] paper_sample_world = (Inr paper_sample_report, r)"
    and sends: "paper_sends r = [auto_sample_id]"
    using paper_sample_run by blast
  have clock: "pw_now paper_sample_world n = sample_now" for n by (simp add: paper_sample_world_def)
  have "paper_sends paper_sample_world = []"
    by (simp add: paper_sends_def paper_sample_world_def auto_sample_world_def FakeProtectedEntrySender_def fresh_sender_def)
  then have "paper_sends r \<noteq> paper_sends paper_sample_world" using sends by simp
  from paper_entry_needs_ledger [OF _ run this] show ?thesis using sample_day(1) run by (auto simp: clock)
qed

text \<open>
  C29. The report counts every signal: within both limits, a run over all signals or up to a bound has
  every signal it saw stayed, blocked or flat again and no halt; a run that stops with a protected
  position has exactly that one more and no automatic exit; a run that halts counts one halt and has
  at most the last signal uncounted.  Every protected position of the report was handed to the sender.
\<close>

theorem paper_report_counts:
  assumes "BoundedPaperRunConfig records wall auto_flat = Inr (pc_limits cfg)"
    and "run_bounded_paper_signals_no_post cfg signals r = (Inr report, r')"
  shows "let c = pr_counts report in
    ct_seen c \<le> bl_maximum_signal_records (pc_limits cfg) \<and> ct_seen c \<le> int (length signals)
    \<and> int (length (paper_sends r)) + ct_protected c \<le> int (length (paper_sends r'))
    \<and> (case pr_status report of
         COMPLETED_FAKE_ONLY \<Rightarrow> ct_seen c = int (length signals) \<and> ct_seen c = ct_stay c + ct_blocked c + ct_flat c
           \<and> ct_protected c = ct_flat c \<and> ct_halt c = 0
       | BOUNDED_LIMIT_REACHED \<Rightarrow> ct_seen c < int (length signals) \<and> ct_seen c = ct_stay c + ct_blocked c + ct_flat c
           \<and> ct_protected c = ct_flat c \<and> ct_halt c = 0
       | POSITION_PROTECTED_STOPPED \<Rightarrow> \<not> bl_synthetic_auto_flat (pc_limits cfg)
           \<and> ct_seen c = ct_stay c + ct_blocked c + ct_protected c \<and> ct_protected c = ct_flat c + 1 \<and> ct_halt c = 0
       | PAPER_HALTED_SAFE \<Rightarrow> ct_stay c + ct_blocked c + ct_protected c \<in> {ct_seen c - 1, ct_seen c}
           \<and> ct_protected c \<in> {ct_flat c, ct_flat c + 1} \<and> ct_halt c = 1)"
proof -
  have "0 \<le> bl_maximum_signal_records (pc_limits cfg)" using paper_limits_positive [OF assms(1)] by simp
  from tripleD_return [OF report_counted_triple [OF this] refl assms(2)] show ?thesis
    by (cases "pr_status report")
      (auto simp: Let_def loop_counted_def counts_balanced_def counts_stopped_def paper_handed_def)
qed

lemma paper_report_counts_witness:
  "pr_status paper_sample_report = COMPLETED_FAKE_ONLY
    \<and> ct_seen (pr_counts paper_sample_report) = ct_stay (pr_counts paper_sample_report)
        + ct_blocked (pr_counts paper_sample_report) + ct_flat (pr_counts paper_sample_report)
    \<and> ct_flat (pr_counts paper_sample_report) = 1"
proof -
  obtain r where run: "run_bounded_paper_signals_no_post paper_sample_config [sample_signal] paper_sample_world = (Inr paper_sample_report, r)"
    and report: "pr_status paper_sample_report = COMPLETED_FAKE_ONLY" "ct_flat (pr_counts paper_sample_report) = 1"
    using paper_sample_run by auto
  show ?thesis using paper_report_counts [OF paper_sample_limits run] report by (simp add: Let_def)
qed

end
