(* ===== verification/Paper_Fill.thy ===== *)
theory Paper_Fill
  imports V4_Protection Auto_Contracts
begin

text \<open>
  \<open>backend/app/h11_auto/paper.py\<close>: quotes, costs and the profit and loss of a paper round trip.
  The arithmetic is that of \<open>Decimal\<close>; for numbers that fit the 28 digits it is exact.
\<close>

section \<open>Quotes and costs\<close>

definition USD_JPY_PIP_SIZE :: decimal where
  "USD_JPY_PIP_SIZE = DFin False 1 (- 2)"

definition GMO_API_EXECUTION_FEE_RATE :: decimal where
  "GMO_API_EXECUTION_FEE_RATE = DFin False 2 (- 5)"

text \<open>\<open>_finite_decimal\<close>\<close>

definition finite_decimal :: "pyval \<Rightarrow> bool" where
  "finite_decimal v = (case as_decimal v of None \<Rightarrow> False | Some d \<Rightarrow> dec_is_finite d)"

record paper_quote =
  q_bid :: decimal
  q_ask :: decimal

definition PaperQuote :: "pyval \<Rightarrow> pyval \<Rightarrow> paper_quote result" where
  "PaperQuote bid ask =
    (if \<not> finite_decimal bid \<or> \<not> finite_decimal ask
       \<or> dec_le (the (as_decimal bid)) dec_zero \<or> dec_le (the (as_decimal ask)) dec_zero
       \<or> dec_lt (the (as_decimal ask)) (the (as_decimal bid))
     then Inl (H11AutoPaperError ''paper quote must have positive bid <= ask'')
     else Inr \<lparr>q_bid = the (as_decimal bid), q_ask = the (as_decimal ask)\<rparr>)"

record paper_costs =
  co_size :: decimal
  co_slippage_pips_per_side :: decimal
  co_api_execution_fee_rate :: decimal
  co_holding_cost_jpy :: decimal

definition PaperCostModel :: "pyval \<Rightarrow> pyval \<Rightarrow> pyval \<Rightarrow> pyval \<Rightarrow> paper_costs result" where
  "PaperCostModel units slippage rate holding =
    bindR (guardR (list_all finite_decimal [units, slippage, rate, holding])
      (H11AutoPaperError ''paper cost input must be finite decimals'')) (\<lambda>_.
    bindR (guardR (\<not> dec_le (the (as_decimal units)) dec_zero)
      (H11AutoPaperError ''paper size must be positive'')) (\<lambda>_.
    bindR (guardR (\<not> dec_lt (the (as_decimal slippage)) dec_zero)
      (H11AutoPaperError ''paper slippage cannot be negative'')) (\<lambda>_.
    bindR (guardR (\<not> dec_lt (the (as_decimal rate)) dec_zero)
      (H11AutoPaperError ''paper API fee cannot be negative'')) (\<lambda>_.
    bindR (guardR (\<not> dec_lt (the (as_decimal holding)) dec_zero)
      (H11AutoPaperError ''paper holding cost cannot be negative'')) (\<lambda>_.
    Inr \<lparr>co_size = the (as_decimal units), co_slippage_pips_per_side = the (as_decimal slippage),
      co_api_execution_fee_rate = the (as_decimal rate), co_holding_cost_jpy = the (as_decimal holding)\<rparr>)))))"

section \<open>The round trip\<close>

record paper_round_trip =
  rt_direction :: signal_decision
  rt_gross_pnl_jpy :: decimal
  rt_api_fee_jpy :: decimal
  rt_holding_cost_jpy :: decimal
  rt_net_pnl_jpy :: decimal
  rt_spread_pips_at_entry :: decimal
  rt_spread_pips_at_exit :: decimal
  rt_actual_post_count :: int
  rt_broker_write_performed :: bool
  rt_network_access_performed :: bool

text \<open>The two fills and the gross result, in the order the code computes them.\<close>

definition paper_fills :: "signal_decision \<Rightarrow> paper_quote \<Rightarrow> paper_quote \<Rightarrow> decimal \<Rightarrow> decimal
    \<Rightarrow> (decimal \<times> decimal \<times> decimal) result" where
  "paper_fills direction entry exit slippage units =
    (if direction = BUY then
       bindR (dec_add (q_ask entry) slippage) (\<lambda>entry_fill.
       bindR (dec_sub (q_bid exit) slippage) (\<lambda>exit_fill.
       bindR (bindR (dec_sub exit_fill entry_fill) (\<lambda>move. dec_mul move units)) (\<lambda>gross.
       Inr (entry_fill, exit_fill, gross))))
     else
       bindR (dec_sub (q_bid entry) slippage) (\<lambda>entry_fill.
       bindR (dec_add (q_ask exit) slippage) (\<lambda>exit_fill.
       bindR (bindR (dec_sub entry_fill exit_fill) (\<lambda>move. dec_mul move units)) (\<lambda>gross.
       Inr (entry_fill, exit_fill, gross)))))"

definition paper_fee :: "decimal \<Rightarrow> decimal \<Rightarrow> decimal \<Rightarrow> decimal \<Rightarrow> decimal result" where
  "paper_fee entry_fill exit_fill units rate =
     bindR (dec_mul entry_fill units) (\<lambda>opened.
     bindR (dec_mul exit_fill units) (\<lambda>closed.
     bindR (dec_add opened closed) (\<lambda>notional. dec_mul notional rate)))"

definition quote_spread_pips :: "paper_quote \<Rightarrow> decimal result" where
  "quote_spread_pips q = bindR (dec_sub (q_ask q) (q_bid q)) (\<lambda>spread. dec_div spread USD_JPY_PIP_SIZE)"

definition evaluate_paper_round_trip :: "pyval \<Rightarrow> paper_quote \<Rightarrow> paper_quote \<Rightarrow> paper_costs \<Rightarrow> paper_round_trip result" where
  "evaluate_paper_round_trip direction entry exit costs =
    (case as_decision direction of
      None \<Rightarrow> Inl (H11AutoPaperError ''paper direction is invalid'')
    | Some side \<Rightarrow>
      if side = STAY then Inl (H11AutoPaperError ''Stay has no paper round trip'')
      else
        bindR (dec_mul (co_slippage_pips_per_side costs) USD_JPY_PIP_SIZE) (\<lambda>slippage.
        bindR (paper_fills side entry exit slippage (co_size costs)) (\<lambda>(entry_fill, exit_fill, gross).
        bindR (bindR (dec_nonpositiveR entry_fill) (\<lambda>bad. if bad then Inr True else dec_nonpositiveR exit_fill)) (\<lambda>bad.
        bindR (guardR (\<not> bad) (H11AutoPaperError ''paper fill became non-positive'')) (\<lambda>_.
        bindR (paper_fee entry_fill exit_fill (co_size costs) (co_api_execution_fee_rate costs)) (\<lambda>fee.
        bindR (bindR (dec_sub gross fee) (\<lambda>x. dec_sub x (co_holding_cost_jpy costs))) (\<lambda>net.
        bindR (quote_spread_pips entry) (\<lambda>entry_spread.
        bindR (quote_spread_pips exit) (\<lambda>exit_spread.
        Inr \<lparr>rt_direction = side, rt_gross_pnl_jpy = gross, rt_api_fee_jpy = fee,
          rt_holding_cost_jpy = co_holding_cost_jpy costs, rt_net_pnl_jpy = net,
          rt_spread_pips_at_entry = entry_spread, rt_spread_pips_at_exit = exit_spread,
          rt_actual_post_count = 0, rt_broker_write_performed = False,
          rt_network_access_performed = False\<rparr>)))))))))"

section \<open>Exact costs\<close>

text \<open>What the constructors guarantee.\<close>

lemma PaperQuote_ok:
  assumes "PaperQuote bid ask = Inr q"
  shows "dec_is_finite (q_bid q)" "dec_is_finite (q_ask q)" "0 < dval (q_bid q)" "dval (q_bid q) \<le> dval (q_ask q)"
proof -
  obtain b a where ba: "as_decimal bid = Some b" "as_decimal ask = Some a" "dec_is_finite b" "dec_is_finite a"
    using assms by (auto simp: PaperQuote_def finite_decimal_def split: if_splits option.splits)
  have z: "dec_is_finite dec_zero" "dval dec_zero = 0" by (simp_all add: dec_is_finite_def dec_zero_def)
  show "dec_is_finite (q_bid q)" "dec_is_finite (q_ask q)" "0 < dval (q_bid q)" "dval (q_bid q) \<le> dval (q_ask q)"
    using assms ba z by (auto simp: PaperQuote_def dec_le_dval dec_lt_dval split: if_splits)
qed

lemma PaperCostModel_ok:
  assumes "PaperCostModel units slippage rate holding = Inr c"
  shows "0 < dval (co_size c)" "0 \<le> dval (co_slippage_pips_per_side c)" "0 \<le> dval (co_api_execution_fee_rate c)"
    "0 \<le> dval (co_holding_cost_jpy c)"
proof -
  have z: "dec_is_finite dec_zero" "dval dec_zero = 0" by (simp_all add: dec_is_finite_def dec_zero_def)
  have num: "dec_is_finite (the (as_decimal v))" if "finite_decimal v" for v
    using that by (auto simp: finite_decimal_def split: option.splits)
  show "0 < dval (co_size c)" "0 \<le> dval (co_slippage_pips_per_side c)" "0 \<le> dval (co_api_execution_fee_rate c)"
    "0 \<le> dval (co_holding_cost_jpy c)"
    using assms z by (auto simp: PaperCostModel_def bindR_Inr_iff dec_le_dval dec_lt_dval num)
qed

lemma fits_pip: "dec_fits 0 2 USD_JPY_PIP_SIZE" "dval USD_JPY_PIP_SIZE = 1 / 100"
  by (simp_all add: dec_fits_def USD_JPY_PIP_SIZE_def dval_def signed_coeff_def pow10_def)

lemma over_pip:
  assumes "dec_fits a k x" and "a + 2 + k \<le> 28"
  shows "\<exists>z. dec_div x USD_JPY_PIP_SIZE = Inr z \<and> dval z = dval x * 100 \<and> dec_fits (a + 2) k z"
  using dec_div_fits [OF assms(1), of 2] assms(2) by (simp add: USD_JPY_PIP_SIZE_def)

text \<open>The exact fills and result of a round trip.\<close>

definition exact_fills :: "signal_decision \<Rightarrow> paper_quote \<Rightarrow> paper_quote \<Rightarrow> rat \<Rightarrow> rat \<times> rat" where
  "exact_fills side entry exit pips =
    (if side = BUY then (dval (q_ask entry) + pips / 100, dval (q_bid exit) - pips / 100)
     else (dval (q_bid entry) - pips / 100, dval (q_ask exit) + pips / 100))"

definition directed :: "signal_decision \<Rightarrow> rat \<Rightarrow> rat \<Rightarrow> rat" where
  "directed side x y = (if side = BUY then y - x else x - y)"

definition quote_fits :: "paper_quote \<Rightarrow> bool" where
  "quote_fits q \<longleftrightarrow> dec_fits 4 3 (q_bid q) \<and> dec_fits 4 3 (q_ask q)"

definition costs_fit :: "paper_costs \<Rightarrow> bool" where
  "costs_fit c \<longleftrightarrow> dec_fits 7 0 (co_size c) \<and> dec_fits 2 2 (co_slippage_pips_per_side c)
     \<and> dec_fits 0 8 (co_api_execution_fee_rate c) \<and> dec_fits 7 2 (co_holding_cost_jpy c)"

lemma spread_exact:
  assumes "quote_fits q"
  shows "\<exists>z. quote_spread_pips q = Inr z \<and> dval z = (dval (q_ask q) - dval (q_bid q)) * 100"
proof -
  obtain d where d: "dec_sub (q_ask q) (q_bid q) = Inr d" "dval d = dval (q_ask q) - dval (q_bid q)" "dec_fits 5 3 d"
    using dec_sub_fits [of 4 3 "q_ask q" "q_bid q"] assms by (auto simp: quote_fits_def)
  show ?thesis using over_pip [OF d(3)] d(1,2) by (auto simp: quote_spread_pips_def)
qed

lemma fills_exact:
  assumes "quote_fits entry" "quote_fits exit" "dec_fits 2 4 slippage" "dec_fits 7 0 units"
    and "(x, y) = exact_fills side entry exit (dval slippage * 100)"
  shows "\<exists>e f gross. paper_fills side entry exit slippage units = Inr (e, f, gross)
    \<and> dval e = x \<and> dval f = y \<and> dec_fits 5 4 e \<and> dec_fits 5 4 f
    \<and> dval gross = directed side x y * dval units \<and> dec_fits 13 4 gross"
proof -
  have slip: "dec_fits 4 4 slippage" using assms(3) by (rule fits_mono) simp_all
  have price: "dec_fits 4 4 z" if "dec_fits 4 3 z" for z using that by (rule fits_mono) simp_all
  have plus: "\<exists>z. dec_add w slippage = Inr z \<and> dval z = dval w + dval slippage \<and> dec_fits 5 4 z" if "dec_fits 4 3 w" for w
    using dec_add_fits [OF price [OF that] slip] by simp
  have minus: "\<exists>z. dec_sub w slippage = Inr z \<and> dval z = dval w - dval slippage \<and> dec_fits 5 4 z" if "dec_fits 4 3 w" for w
    using dec_sub_fits [OF price [OF that] slip] by simp
  have gross: "\<exists>z. bindR (dec_sub u v) (\<lambda>move. dec_mul move units) = Inr z
      \<and> dval z = (dval u - dval v) * dval units \<and> dec_fits 13 4 z" if "dec_fits 5 4 u" "dec_fits 5 4 v" for u v
    using dec_sub_fits [OF that] dec_mul_fits [of 6 4 _ 7 0 units] assms(4) by fastforce
  show ?thesis
  proof (cases "side = BUY")
    case True
    obtain e where e: "dec_add (q_ask entry) slippage = Inr e" "dval e = dval (q_ask entry) + dval slippage" "dec_fits 5 4 e"
      using plus assms(1) by (auto simp: quote_fits_def)
    obtain f where f: "dec_sub (q_bid exit) slippage = Inr f" "dval f = dval (q_bid exit) - dval slippage" "dec_fits 5 4 f"
      using minus assms(2) by (auto simp: quote_fits_def)
    show ?thesis using gross [OF f(3) e(3)] e f True assms(5)
      by (auto simp: paper_fills_def exact_fills_def directed_def)
  next
    case False
    obtain e where e: "dec_sub (q_bid entry) slippage = Inr e" "dval e = dval (q_bid entry) - dval slippage" "dec_fits 5 4 e"
      using minus assms(1) by (auto simp: quote_fits_def)
    obtain f where f: "dec_add (q_ask exit) slippage = Inr f" "dval f = dval (q_ask exit) + dval slippage" "dec_fits 5 4 f"
      using plus assms(2) by (auto simp: quote_fits_def)
    show ?thesis using gross [OF e(3) f(3)] e f False assms(5)
      by (auto simp: paper_fills_def exact_fills_def directed_def)
  qed
qed

lemma fee_exact:
  assumes "dec_fits 5 4 e" "dec_fits 5 4 f" "dec_fits 7 0 units" "dec_fits 0 8 rate"
  shows "\<exists>fee. paper_fee e f units rate = Inr fee \<and> dval fee = (dval e + dval f) * dval units * dval rate
    \<and> dec_fits 13 12 fee"
proof -
  obtain u where u: "dec_mul e units = Inr u" "dval u = dval e * dval units" "dec_fits 12 4 u"
    using dec_mul_fits [OF assms(1,3)] by auto
  obtain v where v: "dec_mul f units = Inr v" "dval v = dval f * dval units" "dec_fits 12 4 v"
    using dec_mul_fits [OF assms(2,3)] by auto
  obtain n where n: "dec_add u v = Inr n" "dval n = dval u + dval v" "dec_fits 13 4 n"
    using dec_add_fits [OF u(3) v(3)] by auto
  show ?thesis using dec_mul_fits [OF n(3) assms(4)] u v n by (auto simp: paper_fee_def distrib_right)
qed

lemma net_exact:
  assumes "dec_fits 13 4 gross" "dec_fits 13 12 fee" "dec_fits 7 2 holding"
  shows "\<exists>net. bindR (dec_sub gross fee) (\<lambda>x. dec_sub x holding) = Inr net \<and> dval net = dval gross - dval fee - dval holding"
proof -
  have g: "dec_fits 13 12 gross" and h: "dec_fits 14 12 holding" using assms(1,3) by (auto elim: fits_mono)
  obtain x where "dec_sub gross fee = Inr x" "dval x = dval gross - dval fee" "dec_fits 14 12 x"
    using dec_sub_fits [OF g assms(2)] by auto
  then show ?thesis using dec_sub_fits [of 14 12 x holding] h by auto
qed

lemma round_trip_exact:
  assumes "quote_fits entry" "quote_fits exit" "costs_fit costs"
    and "(x, y) = exact_fills side entry exit (dval (co_slippage_pips_per_side costs))"
  shows "((\<exists>r. evaluate_paper_round_trip (PyDecision side) entry exit costs = Inr r) \<longleftrightarrow> side \<noteq> STAY \<and> 0 < x \<and> 0 < y)
    \<and> (\<forall>r. evaluate_paper_round_trip (PyDecision side) entry exit costs = Inr r \<longrightarrow>
      dval (rt_gross_pnl_jpy r) = directed side x y * dval (co_size costs)
      \<and> dval (rt_api_fee_jpy r) = (x + y) * dval (co_size costs) * dval (co_api_execution_fee_rate costs)
      \<and> dval (rt_net_pnl_jpy r) = dval (rt_gross_pnl_jpy r) - dval (rt_api_fee_jpy r) - dval (co_holding_cost_jpy costs)
      \<and> dval (rt_spread_pips_at_entry r) = (dval (q_ask entry) - dval (q_bid entry)) * 100)"
proof -
  note c = assms(3) [unfolded costs_fit_def]
  obtain s where s: "dec_mul (co_slippage_pips_per_side costs) USD_JPY_PIP_SIZE = Inr s"
      "dval s * 100 = dval (co_slippage_pips_per_side costs)" "dec_fits 2 4 s"
    using dec_mul_fits [of 2 2 "co_slippage_pips_per_side costs" 0 2 USD_JPY_PIP_SIZE] fits_pip c by auto
  have xy: "(x, y) = exact_fills side entry exit (dval s * 100)" using assms(4) s(2) by simp
  obtain e f gross where fills: "paper_fills side entry exit s (co_size costs) = Inr (e, f, gross)"
      "dval e = x" "dval f = y" "dec_fits 5 4 e" "dec_fits 5 4 f"
      "dval gross = directed side x y * dval (co_size costs)" "dec_fits 13 4 gross"
    using fills_exact [OF assms(1,2) s(3) _ xy] c by blast
  obtain fee where fee: "paper_fee e f (co_size costs) (co_api_execution_fee_rate costs) = Inr fee"
      "dval fee = (x + y) * dval (co_size costs) * dval (co_api_execution_fee_rate costs)" "dec_fits 13 12 fee"
    using fee_exact [OF fills(4,5)] fills(2,3) c by blast
  obtain net where net: "bindR (dec_sub gross fee) (\<lambda>x. dec_sub x (co_holding_cost_jpy costs)) = Inr net"
      "dval net = dval gross - dval fee - dval (co_holding_cost_jpy costs)"
    using net_exact [OF fills(7) fee(3)] c by blast
  obtain u where u: "quote_spread_pips entry = Inr u" "dval u = (dval (q_ask entry) - dval (q_bid entry)) * 100"
    using spread_exact [OF assms(1)] by blast
  obtain v where v: "quote_spread_pips exit = Inr v" using spread_exact [OF assms(2)] by blast
  note run = evaluate_paper_round_trip_def s(1) fills(1) fee(1) net(1) u(1) v nonpositive_fits [OF fills(4)]
    nonpositive_fits [OF fills(5)] fills(2,3) guardR_def
  show ?thesis by (auto simp: run fills(6) fee(2) net(2) u(2))
qed

end
