(* ===== verification/Py_Float_Round.thy ===== *)
theory Py_Float_Round
  imports Py_Numbers
begin

text \<open>
  How far a double is from the number it rounds.  Durations that fit 32 bits of seconds keep
  their order with whole seconds, so a comparison of \<open>total_seconds()\<close> with an integer is a
  comparison of microseconds.
\<close>

lemma pow2_pos [simp]: "0 < pow2 e"
  by (simp add: pow2_def)

lemma pow2_signs [simp]: "0 \<le> pow2 e" "pow2 e \<noteq> 0" "\<not> pow2 e < 0"
  using pow2_pos [of e] by linarith+

lemma pow2_nat: "pow2 (int k) = 2 ^ k" "pow2 (- int k) = 1 / 2 ^ k"
  by (auto simp: pow2_def)

lemma pow2_step: "pow2 (a + int k) = pow2 a * 2 ^ k"
proof (induction k)
  case (Suc k)
  have "pow2 (b + 1) = pow2 b * 2" for b
  proof (cases "0 \<le> b")
    case True
    then show ?thesis by (simp add: pow2_def nat_add_distrib)
  next
    case False
    then have "nat (- b) = Suc (nat (- b - 1))" by simp
    then show ?thesis using False by (simp add: pow2_def)
  qed
  from this [of "a + int k"] Suc show ?case by (simp add: algebra_simps)
qed (simp add: pow2_def)

lemma pow2_diff: "pow2 (int a - int b) = 2 ^ a / 2 ^ b"
  using pow2_step [of "int a - int b" b] by (simp add: pow2_nat field_simps)

lemma pow2_mono: "a \<le> b \<Longrightarrow> pow2 a \<le> pow2 b"
  using pow2_step [of a "nat (b - a)"] by (simp add: mult_le_cancel_left1)

text \<open>The leading bit does not exceed the number.\<close>

lemma leading_bit_le:
  assumes "0 < x"
  shows "pow2 (leading_bit x) \<le> x"
proof -
  obtain p q where pq: "quotient_of x = (p, q)" by (cases "quotient_of x")
  have q: "0 < q" using quotient_of_denom_pos [OF pq] .
  have x: "x = of_int p / of_int q" using quotient_of_div [OF pq] .
  with assms q have p: "0 < p" by (simp add: zero_less_divide_iff)
  let ?a = "floorlog 2 (nat p)" and ?b = "floorlog 2 (nat q)"
  have "2 ^ (?a - 1) \<le> nat p" using p by (intro floorlog_bounds [THEN conjunct1]) auto
  then have "(2::int) ^ (?a - 1) \<le> p" using p by (simp add: le_nat_iff)
  then have low: "(2::rat) ^ (?a - 1) \<le> of_int p" by (metis of_int_le_iff of_int_power of_int_numeral)
  have "nat q < 2 ^ ?b" using q by (intro floorlog_bounds [THEN conjunct2]) auto
  then have "q < (2::int) ^ ?b" using q by (simp add: nat_less_iff)
  then have high: "(of_int q :: rat) \<le> 2 ^ ?b" by (metis of_int_le_iff of_int_power of_int_numeral less_imp_le)
  have "1 \<le> ?a" using p by (simp add: floorlog_def)
  then have "int ?a - int ?b - 1 = int (?a - 1) - int ?b" by simp
  then have "pow2 (int ?a - int ?b - 1) = 2 ^ (?a - 1) / 2 ^ ?b" by (metis pow2_diff)
  also have "\<dots> \<le> of_int p / of_int q" using low high q p by (intro frac_le) auto
  finally show ?thesis by (simp add: leading_bit_def pq Let_def flip: x)
qed

text \<open>Half a unit in the last place, and no error for a whole number of them.\<close>

lemma float_round_error:
  assumes "0 < x" and "- 1022 \<le> leading_bit x"
  shows "\<bar>float_round x - x\<bar> \<le> x / 2 ^ 53"
proof -
  let ?e = "leading_bit x - 52"
  define y where "y = x / pow2 ?e"
  define m where "m = (if y - of_int \<lfloor>y\<rfloor> < 1 / 2 \<or> (y - of_int \<lfloor>y\<rfloor> = 1 / 2 \<and> even \<lfloor>y\<rfloor>) then \<lfloor>y\<rfloor> else \<lfloor>y\<rfloor> + 1)"
  have "\<bar>of_int m - y\<bar> \<le> 1 / 2" unfolding m_def by (auto simp: abs_if) linarith+
  then have "\<bar>of_int m - y\<bar> * pow2 ?e \<le> pow2 ?e / 2" by (simp add: mult_le_cancel_right field_simps)
  moreover have "of_int m * pow2 ?e - x = (of_int m - y) * pow2 ?e" by (simp add: y_def field_simps)
  then have "\<bar>of_int m * pow2 ?e - x\<bar> = \<bar>of_int m - y\<bar> * pow2 ?e"
    by (metis abs_mult abs_of_pos pow2_pos)
  moreover have "float_round x = of_int m * pow2 ?e"
    using assms by (simp add: float_round_def Let_def y_def m_def max_def)
  moreover have "pow2 ?e * 2 ^ 52 \<le> x"
    using leading_bit_le [OF assms(1)] pow2_step [of ?e 52] by simp
  then have "pow2 ?e / 2 \<le> x / 2 ^ 53" by simp
  ultimately show ?thesis by linarith
qed

text \<open>One more bit exceeds it.\<close>

lemma leading_bit_less:
  assumes "0 < x"
  shows "x < pow2 (leading_bit x + 1)"
proof -
  obtain p q where pq: "quotient_of x = (p, q)" by (cases "quotient_of x")
  have q: "0 < q" using quotient_of_denom_pos [OF pq] .
  have x: "x = of_int p / of_int q" using quotient_of_div [OF pq] .
  with assms q have p: "0 < p" by (simp add: zero_less_divide_iff)
  let ?a = "floorlog 2 (nat p)" and ?b = "floorlog 2 (nat q)"
  have "nat p < 2 ^ ?a" using p by (intro floorlog_bounds [THEN conjunct2]) auto
  then have "p < (2::int) ^ ?a" using p by (simp add: nat_less_iff)
  then have high: "(of_int p :: rat) < 2 ^ ?a" by (metis of_int_less_iff of_int_power of_int_numeral)
  have "2 ^ (?b - 1) \<le> nat q" using q by (intro floorlog_bounds [THEN conjunct1]) auto
  then have "(2::int) ^ (?b - 1) \<le> q" using q by (simp add: le_nat_iff)
  then have low: "(2::rat) ^ (?b - 1) \<le> of_int q" by (metis of_int_le_iff of_int_power of_int_numeral)
  have "1 \<le> ?b" using q by (simp add: floorlog_def)
  then have k: "int ?a - int ?b + 1 = int ?a - int (?b - 1)" by simp
  have "x < 2 ^ ?a / 2 ^ (?b - 1)" unfolding x using low high p by (intro frac_less) auto
  also have "\<dots> = pow2 (int ?a - int ?b + 1)" by (metis k pow2_diff)
  finally show ?thesis by (simp add: leading_bit_def pq Let_def)
qed

lemma leading_bit_bounds:
  assumes "0 < x"
  shows "x < pow2 b \<Longrightarrow> leading_bit x < b" "pow2 b \<le> x \<Longrightarrow> b \<le> leading_bit x"
proof -
  show "leading_bit x < b" if "x < pow2 b"
    using that leading_bit_le [OF assms] pow2_mono [of b "leading_bit x"] by (cases "leading_bit x < b") auto
  show "b \<le> leading_bit x" if "pow2 b \<le> x"
    using that leading_bit_less [OF assms] pow2_mono [of "leading_bit x + 1" b] by (cases "b \<le> leading_bit x") auto
qed

lemma float_round_int:
  assumes "0 < n" "n < 2 ^ 32"
  shows "float_round (of_int n) = of_int n"
proof -
  let ?x = "of_int n :: rat"
  have pos: "0 < ?x" using assms(1) by simp
  have "?x < pow2 32" using assms(2) by (simp add: pow2_def of_int_less_numeral_iff)
  then have "leading_bit ?x < 32" using leading_bit_bounds(1) [OF pos] by simp
  moreover have "0 \<le> leading_bit ?x" using leading_bit_bounds(2) [OF pos, of 0] assms(1) by (simp add: pow2_def)
  ultimately obtain k where k: "leading_bit ?x - 52 = - int k" and lb: "- 1022 \<le> leading_bit ?x"
    using that [of "nat (52 - leading_bit ?x)"] by simp
  have y: "?x / pow2 (leading_bit ?x - 52) = of_int (n * 2 ^ k)" by (simp add: k pow2_nat)
  have "float_round ?x = of_int (n * 2 ^ k) * pow2 (leading_bit ?x - 52)"
    unfolding float_round_def Let_def using pos lb y by (simp add: max_def)
  then show ?thesis by (simp add: k pow2_nat)
qed

section \<open>Durations\<close>

text \<open>\<open>delta.total_seconds()\<close> of a \<open>timedelta\<close> in microseconds.\<close>

definition total_seconds :: "int \<Rightarrow> py_float" where
  "total_seconds us = float_round (of_int us / 1000000)"

lemma total_seconds_whole:
  assumes "0 \<le> us" "us < 2 ^ 32 * us_per_second"
  shows "of_int n \<le> total_seconds us \<longleftrightarrow> n * us_per_second \<le> us"
proof (cases "us = 0")
  case True
  then show ?thesis by (simp add: total_seconds_def float_round_def us_per_second_def mult_le_0_iff)
next
  case False
  let ?x = "of_int us / 1000000 :: rat"
  have pos: "0 < ?x" using assms(1) False by simp
  have "pow2 (- 20) \<le> ?x" using assms(1) False by (simp add: pow2_def field_simps)
  then have "- 20 \<le> leading_bit ?x" using leading_bit_bounds(2) [OF pos] by blast
  then have err: "\<bar>float_round ?x - ?x\<bar> \<le> ?x / 2 ^ 53" using float_round_error [OF pos] by simp
  have "(of_int us :: rat) < of_int (2 ^ 32 * us_per_second)" using assms(2) by (simp only: of_int_less_iff)
  then have "?x / 2 ^ 53 < 1 / 1000000" by (simp add: us_per_second_def)
  with err have close: "\<bar>float_round ?x - ?x\<bar> < 1 / 1000000" by linarith
  consider "n * us_per_second < us" | "n * us_per_second = us" | "us < n * us_per_second" by linarith
  then show ?thesis
  proof cases
    case 1
    then have "(of_int (n * us_per_second + 1) :: rat) \<le> of_int us" by (simp only: of_int_le_iff)
    then have "of_int n + 1 / 1000000 \<le> ?x" by (simp add: us_per_second_def field_simps)
    then have "of_int n \<le> float_round ?x" using close by linarith
    then show ?thesis using 1 by (simp add: total_seconds_def)
  next
    case 2
    then have "?x = of_int n" by (auto simp: us_per_second_def)
    moreover have "0 < n" "n < 2 ^ 32" using 2 assms False by (auto simp: us_per_second_def)
    ultimately show ?thesis using 2 float_round_int [of n] by (simp add: total_seconds_def)
  next
    case 3
    then have "(of_int (us + 1) :: rat) \<le> of_int (n * us_per_second)" by (simp only: of_int_le_iff)
    then have "?x + 1 / 1000000 \<le> of_int n" by (simp add: us_per_second_def field_simps)
    then have "\<not> of_int n \<le> float_round ?x" using close by linarith
    then show ?thesis using 3 by (simp add: total_seconds_def)
  qed
qed

end
