(* ===== verification/Exit_Policy.thy ===== *)
theory Exit_Policy
  imports Paper_Fill Py_Float_Round
begin

text \<open>
  \<open>backend/app/h11_auto/exit_policy.py\<close>: the exit decision for one protected position.  A
  position is kept, closed by its own identifier, or the cycle halts under the protection the
  server already holds.
\<close>

section \<open>Policy and position\<close>

datatype exit_action = HOLD_PROTECTED_POSITION | EXIT_POSITION_SPECIFIC | HALT_KEEP_SERVER_PROTECTION

datatype exit_reason = NO_REASON | HARD_STOP_REACHED | TAKE_PROFIT_REACHED | MAX_HOLD_REACHED | FORMAL_EDGE_LOST
  | PROTECTION_NOT_CONFIRMED | MARKET_DATA_NOT_FRESH | CLOCK_INVALID

record exit_policy =
  ep_stop_loss_pips :: decimal
  ep_take_profit_pips :: decimal
  ep_max_hold_seconds :: int
  ep_formal_edge_exit_enabled :: bool
  ep_position_specific_exit_required :: bool
  ep_opposite_entry_as_exit_allowed :: bool

definition FrozenExitPolicy :: "pyval \<Rightarrow> pyval \<Rightarrow> pyval \<Rightarrow> pyval \<Rightarrow> pyval \<Rightarrow> pyval \<Rightarrow> exit_policy result" where
  "FrozenExitPolicy stop profit hold edge specific opposite =
    bindR (guardR (finite_decimal stop \<and> finite_decimal profit \<and> as_int hold \<noteq> None
        \<and> \<not> dec_le (the (as_decimal stop)) dec_zero \<and> \<not> dec_le (the (as_decimal profit)) dec_zero
        \<and> 0 < the (as_int hold))
      (H11AutoExitError ''exit thresholds must be positive'')) (\<lambda>_.
    bindR (guardR (as_bool edge \<noteq> None \<and> as_bool specific \<noteq> None \<and> as_bool opposite \<noteq> None)
      (H11AutoExitError ''exit policy flags are invalid'')) (\<lambda>_.
    bindR (guardR (is_true specific) (H11AutoExitError ''position-specific exit must remain required'')) (\<lambda>_.
    bindR (guardR (is_false opposite) (H11AutoExitError ''opposite entry cannot be used as exit'')) (\<lambda>_.
    Inr \<lparr>ep_stop_loss_pips = the (as_decimal stop), ep_take_profit_pips = the (as_decimal profit),
      ep_max_hold_seconds = the (as_int hold), ep_formal_edge_exit_enabled = the (as_bool edge),
      ep_position_specific_exit_required = True, ep_opposite_entry_as_exit_allowed = False\<rparr>))))"

record protected_position =
  po_direction :: signal_decision
  po_entry_price :: decimal
  po_opened_at_utc :: datetime
  po_protection_confirmed :: bool

definition SyntheticProtectedPosition :: "pyval \<Rightarrow> pyval \<Rightarrow> pyval \<Rightarrow> pyval \<Rightarrow> protected_position result" where
  "SyntheticProtectedPosition direction price opened confirmed =
    (case as_decision direction of
      None \<Rightarrow> Inl (H11AutoExitError ''position direction is invalid'')
    | Some side \<Rightarrow>
      if side = STAY then Inl (H11AutoExitError ''Stay cannot create a position'')
      else if \<not> finite_decimal price \<or> dec_le (the (as_decimal price)) dec_zero then Inl (H11AutoExitError ''position input is invalid'')
      else (case (as_datetime opened, as_bool confirmed) of
          (Some at_utc, Some ok) \<Rightarrow>
            if \<not> dt_aware at_utc then Inl (H11AutoExitError ''position input is invalid'')
            else Inr \<lparr>po_direction = side, po_entry_price = the (as_decimal price), po_opened_at_utc = at_utc,
              po_protection_confirmed = ok\<rparr>
        | _ \<Rightarrow> Inl (H11AutoExitError ''position input is invalid'')))"

section \<open>The decision\<close>

record exit_decision =
  ed_action :: exit_action
  ed_reason :: exit_reason
  ed_unrealized_pips :: "decimal option"
  ed_position_specific :: bool
  ed_generic_close_allowed :: bool
  ed_opposite_entry_allowed :: bool
  ed_actual_post_allowed :: bool

definition ExitDecision :: "exit_action \<Rightarrow> exit_reason \<Rightarrow> decimal option \<Rightarrow> exit_decision" where
  "ExitDecision action reason pips = \<lparr>ed_action = action, ed_reason = reason, ed_unrealized_pips = pips,
     ed_position_specific = True, ed_generic_close_allowed = False, ed_opposite_entry_allowed = False,
     ed_actual_post_allowed = False\<rparr>"

text \<open>\<open>_exit\<close> and \<open>_halt\<close>\<close>

definition exit_with :: "exit_reason \<Rightarrow> decimal \<Rightarrow> exit_decision" where
  "exit_with reason pips = ExitDecision EXIT_POSITION_SPECIFIC reason (Some pips)"

definition halt_with :: "exit_reason \<Rightarrow> exit_decision" where
  "halt_with reason = ExitDecision HALT_KEEP_SERVER_PROTECTION reason None"

text \<open>The mark is the price the position can be closed at.\<close>

definition signed_move :: "protected_position \<Rightarrow> paper_quote \<Rightarrow> decimal result" where
  "signed_move position quote =
    (if po_direction position = BUY then dec_sub (q_bid quote) (po_entry_price position)
     else dec_sub (po_entry_price position) (q_ask quote))"

definition evaluate_exit_decision ::
    "protected_position \<Rightarrow> paper_quote \<Rightarrow> pyval \<Rightarrow> exit_policy \<Rightarrow> pyval \<Rightarrow> pyval \<Rightarrow> exit_decision result" where
  "evaluate_exit_decision position quote now policy latest fresh =
    (case as_datetime now of
      None \<Rightarrow> Inr (halt_with CLOCK_INVALID)
    | Some at_utc \<Rightarrow>
      if \<not> dt_aware at_utc \<or> dt_less at_utc (po_opened_at_utc position) then Inr (halt_with CLOCK_INVALID)
      else if \<not> po_protection_confirmed position then Inr (halt_with PROTECTION_NOT_CONFIRMED)
      else if fresh \<noteq> PyBool True then Inr (halt_with MARKET_DATA_NOT_FRESH)
      else
        bindR (bindR (signed_move position quote) (\<lambda>move. dec_div move USD_JPY_PIP_SIZE)) (\<lambda>pips.
        bindR (bindR (dec_neg (ep_stop_loss_pips policy)) (\<lambda>stop. dec_leR pips stop)) (\<lambda>stopped.
        if stopped then Inr (exit_with HARD_STOP_REACHED pips)
        else
        bindR (dec_leR (ep_take_profit_pips policy) pips) (\<lambda>reached.
        if reached then Inr (exit_with TAKE_PROFIT_REACHED pips)
        else
        bindR (dt_sub at_utc (po_opened_at_utc position)) (\<lambda>held.
        if of_int (ep_max_hold_seconds policy) \<le> total_seconds held then Inr (exit_with MAX_HOLD_REACHED pips)
        else if ep_formal_edge_exit_enabled policy \<and> latest \<noteq> PyNone \<and> latest \<noteq> PyDecision (po_direction position)
        then Inr (exit_with FORMAL_EDGE_LOST pips)
        else Inr (ExitDecision HOLD_PROTECTED_POSITION NO_REASON (Some pips)))))))"

section \<open>The decision on exact numbers\<close>

text \<open>
  The reference: the safety conditions first, then the stop before the target, the time limit and
  the lost edge, over the move in pips and the time held in microseconds.
\<close>

definition exit_reference ::
    "bool \<Rightarrow> bool \<Rightarrow> bool \<Rightarrow> rat \<Rightarrow> rat \<Rightarrow> rat \<Rightarrow> int \<Rightarrow> int \<Rightarrow> bool \<Rightarrow> exit_action \<times> exit_reason" where
  "exit_reference clock protected fresh pips stop profit held limit edge_lost =
    (if \<not> clock then (HALT_KEEP_SERVER_PROTECTION, CLOCK_INVALID)
     else if \<not> protected then (HALT_KEEP_SERVER_PROTECTION, PROTECTION_NOT_CONFIRMED)
     else if \<not> fresh then (HALT_KEEP_SERVER_PROTECTION, MARKET_DATA_NOT_FRESH)
     else if pips \<le> - stop then (EXIT_POSITION_SPECIFIC, HARD_STOP_REACHED)
     else if profit \<le> pips then (EXIT_POSITION_SPECIFIC, TAKE_PROFIT_REACHED)
     else if limit * us_per_second \<le> held then (EXIT_POSITION_SPECIFIC, MAX_HOLD_REACHED)
     else if edge_lost then (EXIT_POSITION_SPECIFIC, FORMAL_EDGE_LOST)
     else (HOLD_PROTECTED_POSITION, NO_REASON))"

definition pips_moved :: "protected_position \<Rightarrow> paper_quote \<Rightarrow> rat" where
  "pips_moved position quote = 100 *
    (if po_direction position = BUY then dval (q_bid quote) - dval (po_entry_price position)
     else dval (po_entry_price position) - dval (q_ask quote))"

lemma pips_exact:
  assumes "quote_fits quote" "dec_fits 4 12 (po_entry_price position)"
  shows "\<exists>z. bindR (signed_move position quote) (\<lambda>move. dec_div move USD_JPY_PIP_SIZE) = Inr z
    \<and> dval z = pips_moved position quote \<and> dec_fits 7 12 z"
proof -
  have q: "dec_fits 4 12 (q_bid quote)" "dec_fits 4 12 (q_ask quote)"
    using assms(1) by (auto simp: quote_fits_def elim: fits_mono)
  show ?thesis
  proof (cases "po_direction position = BUY")
    case True
    then show ?thesis
      using dec_sub_fits [OF q(1) assms(2)] over_pip [of 5 12] by (fastforce simp: signed_move_def pips_moved_def)
  next
    case False
    then show ?thesis
      using dec_sub_fits [OF assms(2) q(2)] over_pip [of 5 12] by (fastforce simp: signed_move_def pips_moved_def)
  qed
qed

lemma dec_neg_fits:
  assumes "dec_fits a k x" and "a + k \<le> 28"
  shows "\<exists>z. dec_neg x = Inr z \<and> dval z = - dval x \<and> dec_fits a k z"
proof -
  obtain s c e where x: "x = DFin s c e" "- int k \<le> e" "e \<le> int a" "\<bar>dval x\<bar> < 10 ^ a"
    using assms(1) by (rule dec_fitsE)
  have sign: "dval (DFin (c \<noteq> 0 \<and> \<not> s) c e) = - dval x"
    by (cases "c = 0") (simp_all add: x(1) dval_def signed_coeff_def)
  then have "\<bar>dval (DFin (c \<noteq> 0 \<and> \<not> s) c e)\<bar> < 10 ^ a" using x(4) by simp
  then show ?thesis using fix_fits [OF _ x(2,3) assms(2), of "c \<noteq> 0 \<and> \<not> s"] sign x(1) by auto
qed

lemma exit_decision_exact:
  assumes "quote_fits quote" "dec_fits 4 12 (po_entry_price position)" "dt_aware (po_opened_at_utc position)"
    and "dec_fits 7 12 (ep_stop_loss_pips policy)" "dec_fits 7 12 (ep_take_profit_pips policy)"
    and "clock = (\<exists>t. now = PyDatetime t \<and> dt_aware t \<and> dt_utc (po_opened_at_utc position) \<le> dt_utc t)"
    and "\<And>t. now = PyDatetime t \<Longrightarrow> held = dt_utc t - dt_utc (po_opened_at_utc position)" "held < 2 ^ 32 * us_per_second"
    and "lost = (ep_formal_edge_exit_enabled policy \<and> latest \<notin> {PyNone, PyDecision (po_direction position)})"
  shows "\<exists>d. evaluate_exit_decision position quote now policy latest fresh = Inr d
    \<and> (ed_action d, ed_reason d) = exit_reference clock (po_protection_confirmed position) (fresh = PyBool True)
        (pips_moved position quote) (dval (ep_stop_loss_pips policy)) (dval (ep_take_profit_pips policy))
        held (ep_max_hold_seconds policy) lost
    \<and> map_option dval (ed_unrealized_pips d) =
        (if ed_action d = HALT_KEEP_SERVER_PROTECTION then None else Some (pips_moved position quote))
    \<and> ed_position_specific d \<and> \<not> ed_generic_close_allowed d \<and> \<not> ed_opposite_entry_allowed d \<and> \<not> ed_actual_post_allowed d"
proof -
  obtain pips where pips: "bindR (signed_move position quote) (\<lambda>move. dec_div move USD_JPY_PIP_SIZE) = Inr pips"
      "dval pips = pips_moved position quote" "dec_fits 7 12 pips"
    using pips_exact [OF assms(1,2)] by blast
  obtain stop where stop: "dec_neg (ep_stop_loss_pips policy) = Inr stop" "dval stop = - dval (ep_stop_loss_pips policy)" "dec_fits 7 12 stop"
    using dec_neg_fits [OF assms(4)] by auto
  note run = evaluate_exit_decision_def pips(1) stop(1) dec_leR_fits(1) [OF pips(3) stop(3)] dec_leR_fits(1) [OF assms(5) pips(3)]
    halt_with_def exit_with_def ExitDecision_def exit_reference_def
  show ?thesis
  proof (cases clock)
    case False
    then show ?thesis using assms(6)
      by (cases now) (auto simp: run dt_less_def)
  next
    case True
    with assms(6) obtain t where at: "now = PyDatetime t" "dt_aware t" "dt_utc (po_opened_at_utc position) \<le> dt_utc t" by auto
    have h: "held = dt_utc t - dt_utc (po_opened_at_utc position)" using assms(7) [OF at(1)] .
    with at(3) have "0 \<le> held" by simp
    note whole = total_seconds_whole [OF this assms(8)]
    have sub: "dt_sub t (po_opened_at_utc position) = Inr held" using dt_sub_aware [OF at(2) assms(3)] h by simp
    show ?thesis using True at by (auto simp: run sub whole pips(2) stop(2) assms(9) dt_less_def)
  qed
qed

end
