(* ===== verification/G019_Exit.thy ===== *)
theory G019_Exit
  imports V4_Protection
begin

text \<open>
  \<open>backend/app/h11_auto/v4_gmo_g019_exit_policy.py\<close>, the exit of one trade: over thirty completed
  one-minute bars the first bar that touches the stop or the target closes the trade, the stop
  winning inside one bar, and the thirtieth close ends it otherwise.
\<close>

section \<open>Bars and results\<close>

datatype g019_reason = STOP_LOSS | TAKE_PROFIT | TIME_LIMIT_30M

record bid_ask_bar =
  bar_bid_high :: decimal
  bar_bid_low :: decimal
  bar_bid_close :: decimal
  bar_ask_high :: decimal
  bar_ask_low :: decimal
  bar_ask_close :: decimal

record g019_exit =
  ge_exit_reason :: g019_reason
  ge_exit_price :: decimal
  ge_gross_pips :: decimal
  ge_bars_held :: int

definition G019_HOLD_MINUTES :: nat where
  "G019_HOLD_MINUTES = 30"

definition G019_STOP_ATR_MULTIPLE :: decimal where
  "G019_STOP_ATR_MULTIPLE = DFin False 150 (- 2)"

definition G019_TAKE_PROFIT_R_MULTIPLE :: decimal where
  "G019_TAKE_PROFIT_R_MULTIPLE = DFin False 150 (- 2)"

text \<open>\<open>_exit_result\<close>\<close>

definition g019_exit_result :: "string \<Rightarrow> decimal \<Rightarrow> decimal \<Rightarrow> g019_reason \<Rightarrow> int \<Rightarrow> g019_exit result" where
  "g019_exit_result side fill price reason bars_held =
    bindR (if side = ''BUY'' then dec_sub price fill else dec_sub fill price) (\<lambda>delta.
    bindR (dec_mul delta (DFin False 100 0)) (\<lambda>pips.
    Inr \<lparr>ge_exit_reason = reason, ge_exit_price = price, ge_gross_pips = pips, ge_bars_held = bars_held\<rparr>))"

text \<open>Both comparisons of a bar are made before either is looked at.\<close>

definition g019_touches :: "string \<Rightarrow> decimal \<Rightarrow> decimal \<Rightarrow> bid_ask_bar \<Rightarrow> (bool \<times> bool) result" where
  "g019_touches side stop target bar =
    (if side = ''BUY'' then
       bindR (dec_leR (bar_bid_low bar) stop) (\<lambda>stop_hit.
       bindR (dec_leR target (bar_bid_high bar)) (\<lambda>target_hit. Inr (stop_hit, target_hit)))
     else
       bindR (dec_leR stop (bar_ask_high bar)) (\<lambda>stop_hit.
       bindR (dec_leR (bar_ask_low bar) target) (\<lambda>target_hit. Inr (stop_hit, target_hit))))"

text \<open>The loop over the bars; \<open>None\<close> when no bar closed the trade.\<close>

fun g019_scan :: "string \<Rightarrow> decimal \<Rightarrow> decimal \<Rightarrow> decimal \<Rightarrow> int \<Rightarrow> bid_ask_bar list \<Rightarrow> g019_exit option result" where
  "g019_scan side fill stop target index [] = Inr None"
| "g019_scan side fill stop target index (bar # bars) =
    bindR (g019_touches side stop target bar) (\<lambda>(stop_hit, target_hit).
    if stop_hit then bindR (g019_exit_result side fill stop STOP_LOSS index) (\<lambda>r. Inr (Some r))
    else if target_hit then bindR (g019_exit_result side fill target TAKE_PROFIT index) (\<lambda>r. Inr (Some r))
    else g019_scan side fill stop target (index + 1) bars)"

definition evaluate_g019_exit :: "string \<Rightarrow> decimal \<Rightarrow> decimal \<Rightarrow> bid_ask_bar list \<Rightarrow> g019_exit result" where
  "evaluate_g019_exit side fill atr bars =
    bindR (guardR (side \<in> {''BUY'', ''SELL''}) (PyValueError ''G019_EXIT_SIDE_INVALID'')) (\<lambda>_.
    bindR (bindR (dec_nonpositiveR fill) (\<lambda>bad. if bad then Inr True else dec_nonpositiveR atr)) (\<lambda>bad.
    bindR (guardR (\<not> bad) (PyValueError ''G019_EXIT_INPUT_INVALID'')) (\<lambda>_.
    bindR (guardR (length bars = G019_HOLD_MINUTES)
      (PyValueError ''G019_EXIT_REQUIRES_EXACT_30_COMPLETED_M1_BARS'')) (\<lambda>_.
    bindR (dec_mul atr G019_STOP_ATR_MULTIPLE) (\<lambda>stop_distance.
    bindR (dec_mul stop_distance G019_TAKE_PROFIT_R_MULTIPLE) (\<lambda>target_distance.
    bindR (if side = ''BUY'' then dec_sub fill stop_distance else dec_add fill stop_distance) (\<lambda>stop.
    bindR (if side = ''BUY'' then dec_add fill target_distance else dec_sub fill target_distance) (\<lambda>target.
    bindR (g019_scan side fill stop target 1 bars) (\<lambda>closed.
    case closed of
      Some r \<Rightarrow> Inr r
    | None \<Rightarrow> g019_exit_result side fill
        (if side = ''BUY'' then bar_bid_close (last bars) else bar_ask_close (last bars))
        TIME_LIMIT_30M (int G019_HOLD_MINUTES))))))))))"

section \<open>The exit on exact prices\<close>

definition bar_fits :: "bid_ask_bar \<Rightarrow> bool" where
  "bar_fits b \<longleftrightarrow> list_all (dec_fits 4 12) [bar_bid_high b, bar_bid_low b, bar_bid_close b, bar_ask_high b, bar_ask_low b, bar_ask_close b]"

text \<open>Which prices a position of the side can be closed at: the bid of a long, the ask of a short.\<close>

definition worst_price :: "string \<Rightarrow> bid_ask_bar \<Rightarrow> rat" where
  "worst_price side b = (if side = ''BUY'' then dval (bar_bid_low b) else dval (bar_ask_high b))"

definition best_price :: "string \<Rightarrow> bid_ask_bar \<Rightarrow> rat" where
  "best_price side b = (if side = ''BUY'' then dval (bar_bid_high b) else dval (bar_ask_low b))"

definition close_price :: "string \<Rightarrow> bid_ask_bar \<Rightarrow> rat" where
  "close_price side b = (if side = ''BUY'' then dval (bar_bid_close b) else dval (bar_ask_close b))"

text \<open>How far a price is in favour of the position.\<close>

definition favour :: "string \<Rightarrow> rat \<Rightarrow> rat \<Rightarrow> rat" where
  "favour side fill price = (if side = ''BUY'' then price - fill else fill - price)"

definition stop_touched :: "string \<Rightarrow> rat \<Rightarrow> rat \<Rightarrow> bid_ask_bar \<Rightarrow> bool" where
  "stop_touched side fill atr b \<longleftrightarrow> favour side fill (worst_price side b) \<le> - (3 / 2 * atr)"

definition target_touched :: "string \<Rightarrow> rat \<Rightarrow> rat \<Rightarrow> bid_ask_bar \<Rightarrow> bool" where
  "target_touched side fill atr b \<longleftrightarrow> 9 / 4 * atr \<le> favour side fill (best_price side b)"

text \<open>The reference: the first bar that touches anything, counted from one.\<close>

definition g019_reference :: "string \<Rightarrow> rat \<Rightarrow> rat \<Rightarrow> bid_ask_bar list \<Rightarrow> g019_reason \<times> rat \<times> int" where
  "g019_reference side fill atr bars =
    (let quiet = takeWhile (\<lambda>b. \<not> stop_touched side fill atr b \<and> \<not> target_touched side fill atr b) bars in
     if length quiet = length bars then (TIME_LIMIT_30M, favour side fill (close_price side (last bars)), int (length bars))
     else if stop_touched side fill atr (bars ! length quiet) then (STOP_LOSS, - (3 / 2 * atr), int (length quiet) + 1)
     else (TAKE_PROFIT, 9 / 4 * atr, int (length quiet) + 1))"

lemma fits_g019_multiples:
  "dec_fits 1 2 G019_STOP_ATR_MULTIPLE" "dval G019_STOP_ATR_MULTIPLE = 3 / 2"
  "dec_fits 1 2 G019_TAKE_PROFIT_R_MULTIPLE" "dval G019_TAKE_PROFIT_R_MULTIPLE = 3 / 2"
  by (simp_all add: dec_fits_def G019_STOP_ATR_MULTIPLE_def G019_TAKE_PROFIT_R_MULTIPLE_def dval_def signed_coeff_def pow10_def)

lemma exit_result_exact:
  assumes "dec_fits 7 16 fill" "dec_fits 7 16 price"
  shows "\<exists>r. g019_exit_result side fill price reason n = Inr r
    \<and> (ge_exit_reason r, ge_exit_price r, dval (ge_gross_pips r), ge_bars_held r) = (reason, price, 100 * favour side (dval fill) (dval price), n)"
proof -
  have hundred: "dec_fits 3 0 (DFin False 100 0)" "dval (DFin False 100 0) = 100"
    by (simp_all add: dec_fits_def dval_def signed_coeff_def)
  show ?thesis
    using dec_sub_fits [OF assms(2,1)] dec_sub_fits [OF assms] dec_mul_fits [of 8 16 _ 3 0 "DFin False 100 0"] hundred
    by (cases "side = ''BUY''") (fastforce simp: g019_exit_result_def favour_def)+
qed

lemma touches_exact:
  assumes "side \<in> {''BUY'', ''SELL''}" "bar_fits b" "dec_fits 7 16 stop" "dec_fits 7 16 target"
    and "favour side fill (dval stop) = - (3 / 2 * atr)" "favour side fill (dval target) = 9 / 4 * atr"
  shows "g019_touches side stop target b = Inr (stop_touched side fill atr b, target_touched side fill atr b)"
  using assms by (auto simp: g019_touches_def bar_fits_def dec_leR_fits(1) stop_touched_def target_touched_def
      favour_def worst_price_def best_price_def)

lemma scan_exact:
  assumes "side \<in> {''BUY'', ''SELL''}" "\<forall>b \<in> set bars. bar_fits b" "dec_fits 7 16 fill" "dec_fits 7 16 stop" "dec_fits 7 16 target"
    and "favour side (dval fill) (dval stop) = - (3 / 2 * atr)" "favour side (dval fill) (dval target) = 9 / 4 * atr"
    and "quiet = takeWhile (\<lambda>b. \<not> stop_touched side (dval fill) atr b \<and> \<not> target_touched side (dval fill) atr b) bars"
  shows "if length quiet = length bars then g019_scan side fill stop target n bars = Inr None
    else \<exists>r. g019_scan side fill stop target n bars = Inr (Some r) \<and> ge_bars_held r = n + int (length quiet)
      \<and> (if stop_touched side (dval fill) atr (bars ! length quiet)
         then (ge_exit_reason r, ge_exit_price r, dval (ge_gross_pips r)) = (STOP_LOSS, stop, 100 * - (3 / 2 * atr))
         else (ge_exit_reason r, ge_exit_price r, dval (ge_gross_pips r)) = (TAKE_PROFIT, target, 100 * (9 / 4 * atr)))"
  using assms(2,8)
proof (induction bars arbitrary: n quiet)
  case Nil
  then show ?case by simp
next
  case (Cons b bars)
  have b: "bar_fits b" using Cons.prems(1) by simp
  note touch = touches_exact [OF assms(1) b assms(4,5,6,7)]
  note stopped = exit_result_exact [OF assms(3,4), of side STOP_LOSS n] and won = exit_result_exact [OF assms(3,5), of side TAKE_PROFIT n]
  consider "stop_touched side (dval fill) atr b" | "\<not> stop_touched side (dval fill) atr b" "target_touched side (dval fill) atr b"
    | "\<not> stop_touched side (dval fill) atr b" "\<not> target_touched side (dval fill) atr b" by blast
  then show ?case
  proof cases
    case 1
    then show ?thesis using touch stopped Cons.prems(2) assms(6) by auto
  next
    case 2
    then show ?thesis using touch won Cons.prems(2) assms(7) by auto
  next
    case 3
    then show ?thesis using touch Cons.IH [OF _ refl, of "n + 1"] Cons.prems by (auto simp: algebra_simps split: if_splits)
  qed
qed

lemma g019_exit_exact:
  assumes "dec_fits 4 12 fill" "dec_fits 4 12 atr" "\<forall>b \<in> set bars. bar_fits b"
  shows "((\<exists>r. evaluate_g019_exit side fill atr bars = Inr r) \<longleftrightarrow>
      side \<in> {''BUY'', ''SELL''} \<and> 0 < dval fill \<and> 0 < dval atr \<and> length bars = 30)
    \<and> (\<forall>r. evaluate_g019_exit side fill atr bars = Inr r \<longrightarrow>
      (ge_exit_reason r, favour side (dval fill) (dval (ge_exit_price r)), ge_bars_held r) = g019_reference side (dval fill) (dval atr) bars
      \<and> dval (ge_gross_pips r) = 100 * favour side (dval fill) (dval (ge_exit_price r)))"
proof (cases "side \<in> {''BUY'', ''SELL''} \<and> 0 < dval fill \<and> 0 < dval atr \<and> length bars = 30")
  case False
  then show ?thesis
    using nonpositive_fits [OF assms(1)] nonpositive_fits [OF assms(2)]
    by (auto simp: evaluate_g019_exit_def guardR_def G019_HOLD_MINUTES_def)
next
  case True
  obtain sd where sd: "dec_mul atr G019_STOP_ATR_MULTIPLE = Inr sd" "dval sd = 3 / 2 * dval atr" "dec_fits 5 14 sd"
    using dec_mul_fits [OF assms(2) fits_g019_multiples(1)] fits_g019_multiples(2) by auto
  obtain td where td: "dec_mul sd G019_TAKE_PROFIT_R_MULTIPLE = Inr td" "dval td = 9 / 4 * dval atr" "dec_fits 6 16 td"
    using dec_mul_fits [OF sd(3) fits_g019_multiples(3)] fits_g019_multiples(4) sd(2) by auto
  have wide: "dec_fits 6 16 fill" "dec_fits 6 16 sd" using assms(1) sd(3) by (auto elim: fits_mono)
  obtain stop where stop: "(if side = ''BUY'' then dec_sub fill sd else dec_add fill sd) = Inr stop"
      "favour side (dval fill) (dval stop) = - (3 / 2 * dval atr)" "dec_fits 7 16 stop"
    using dec_sub_fits [OF wide] dec_add_fits [OF wide] sd(2) by (cases "side = ''BUY''") (auto simp: favour_def)
  obtain target where target: "(if side = ''BUY'' then dec_add fill td else dec_sub fill td) = Inr target"
      "favour side (dval fill) (dval target) = 9 / 4 * dval atr" "dec_fits 7 16 target"
    using dec_sub_fits [OF wide(1) td(3)] dec_add_fits [OF wide(1) td(3)] td(2) by (cases "side = ''BUY''") (auto simp: favour_def)
  have fill: "dec_fits 7 16 fill" using assms(1) by (rule fits_mono) simp_all
  define price where "price = (if side = ''BUY'' then bar_bid_close (last bars) else bar_ask_close (last bars))"
  have "bar_fits (last bars)" using assms(3) True by (cases bars) auto
  then have "dec_fits 4 12 price" by (simp add: price_def bar_fits_def)
  then have "dec_fits 7 16 price" by (rule fits_mono) simp_all
  note timed = exit_result_exact [OF fill this, of side TIME_LIMIT_30M 30]
  have close: "close_price side (last bars) = dval price" by (simp add: close_price_def price_def)
  have run: "evaluate_g019_exit side fill atr bars = bindR (g019_scan side fill stop target 1 bars) (\<lambda>closed. case closed of
      Some r \<Rightarrow> Inr r | None \<Rightarrow> g019_exit_result side fill price TIME_LIMIT_30M 30)"
    unfolding price_def
    using True nonpositive_fits [OF assms(1)] nonpositive_fits [OF assms(2)] sd(1) td(1) stop(1) target(1)
    by (simp add: evaluate_g019_exit_def guardR_def G019_HOLD_MINUTES_def)
  note scan = scan_exact [OF conjunct1 [OF True] assms(3) fill stop(3) target(3) stop(2) target(2) refl, of 1]
  let ?quiet = "takeWhile (\<lambda>b. \<not> stop_touched side (dval fill) (dval atr) b \<and> \<not> target_touched side (dval fill) (dval atr) b) bars"
  show ?thesis
  proof (cases "length ?quiet = length bars")
    case same: True
    then show ?thesis using scan timed True close by (auto simp: run g019_reference_def)
  next
    case other: False
    with scan obtain r where r: "g019_scan side fill stop target 1 bars = Inr (Some r)" "ge_bars_held r = 1 + int (length ?quiet)"
        "if stop_touched side (dval fill) (dval atr) (bars ! length ?quiet)
         then (ge_exit_reason r, ge_exit_price r, dval (ge_gross_pips r)) = (STOP_LOSS, stop, 100 * - (3 / 2 * dval atr))
         else (ge_exit_reason r, ge_exit_price r, dval (ge_gross_pips r)) = (TAKE_PROFIT, target, 100 * (9 / 4 * dval atr))"
      by auto
    show ?thesis using r other True stop(2) target(2) by (auto simp: run g019_reference_def split: if_splits)
  qed
qed

end
