(* ===== verification/G019_Layer2.thy ===== *)
theory G019_Layer2
  imports Auto_Contracts
begin

text \<open>
  \<open>backend/app/h11_auto/v4_gmo_g019_exit_policy.py\<close>, the portfolio limits: thirty entries and ten
  thousand yen of loss a day, fifty thousand yen of loss a month and five losses in a row.
\<close>

section \<open>Dates and trades\<close>

text \<open>A \<open>date\<close> is its year, month and day, compared in that order.\<close>

datatype trade_date = TradeDate (d_year: int) (d_month: int) (d_day: int)

definition date_month :: "trade_date \<Rightarrow> int \<times> int" where
  "date_month d = (d_year d, d_month d)"

instantiation trade_date :: linorder
begin

definition less_eq_trade_date :: "trade_date \<Rightarrow> trade_date \<Rightarrow> bool" where
  "less_eq_trade_date a b \<longleftrightarrow> d_year a < d_year b \<or> (d_year a = d_year b \<and>
     (d_month a < d_month b \<or> (d_month a = d_month b \<and> d_day a \<le> d_day b)))"

definition less_trade_date :: "trade_date \<Rightarrow> trade_date \<Rightarrow> bool" where
  "less_trade_date a b \<longleftrightarrow> a \<le> b \<and> \<not> b \<le> (a :: trade_date)"

instance
  by standard (auto simp: less_eq_trade_date_def less_trade_date_def intro: trade_date.expand)

end

record layer2_trade =
  lt_trading_day :: trade_date
  lt_realized_pnl_jpy :: int

record layer2_result =
  lr_accepted_trade_count :: int
  lr_rejected_trade_count :: int
  lr_realized_pnl_jpy :: int
  lr_daily_loss_halt_count :: int
  lr_monthly_loss_halt :: bool
  lr_consecutive_loss_halt_count :: int
  lr_broker_post_authorized :: bool
  lr_broker_write :: bool
  lr_actual_post_count :: int

definition G019_MAX_ENTRIES_PER_DAY :: int where "G019_MAX_ENTRIES_PER_DAY = 30"
definition G019_DAILY_LOSS_LIMIT_JPY :: int where "G019_DAILY_LOSS_LIMIT_JPY = 10000"
definition G019_MONTHLY_LOSS_LIMIT_JPY :: int where "G019_MONTHLY_LOSS_LIMIT_JPY = 50000"
definition G019_CONSECUTIVE_LOSS_LIMIT :: int where "G019_CONSECUTIVE_LOSS_LIMIT = 5"

lemmas g019_limits = G019_MAX_ENTRIES_PER_DAY_def G019_DAILY_LOSS_LIMIT_JPY_def G019_MONTHLY_LOSS_LIMIT_JPY_def
  G019_CONSECUTIVE_LOSS_LIMIT_def

section \<open>The loop\<close>

record layer2_state =
  l2_accepted :: int
  l2_rejected :: int
  l2_total_pnl :: int
  l2_monthly_pnl :: int
  l2_daily_loss_halts :: "trade_date set"
  l2_consecutive_loss_halt :: bool
  l2_monthly_halt :: bool
  l2_monthly_halt_observed :: bool
  l2_current_month :: "(int \<times> int) option"
  l2_current_day :: "trade_date option"
  l2_daily_count :: int
  l2_daily_pnl :: int
  l2_consecutive_losses :: int

definition layer2_start :: layer2_state where
  "layer2_start = \<lparr>l2_accepted = 0, l2_rejected = 0, l2_total_pnl = 0, l2_monthly_pnl = 0, l2_daily_loss_halts = {},
     l2_consecutive_loss_halt = False, l2_monthly_halt = False, l2_monthly_halt_observed = False,
     l2_current_month = None, l2_current_day = None, l2_daily_count = 0, l2_daily_pnl = 0, l2_consecutive_losses = 0\<rparr>"

text \<open>A new month and a new day start from zero.\<close>

definition layer2_roll :: "trade_date \<Rightarrow> layer2_state \<Rightarrow> layer2_state" where
  "layer2_roll day s =
    (let s = (if l2_current_month s = Some (date_month day) then s
              else s\<lparr>l2_current_month := Some (date_month day), l2_monthly_pnl := 0, l2_monthly_halt := False\<rparr>)
     in if l2_current_day s = Some day then s
        else s\<lparr>l2_current_day := Some day, l2_daily_count := 0, l2_daily_pnl := 0\<rparr>)"

definition layer2_blocked :: "trade_date \<Rightarrow> layer2_state \<Rightarrow> bool" where
  "layer2_blocked day s \<longleftrightarrow> l2_monthly_halt s \<or> G019_MAX_ENTRIES_PER_DAY \<le> l2_daily_count s
     \<or> day \<in> l2_daily_loss_halts s \<or> l2_consecutive_loss_halt s"

definition layer2_book :: "layer2_trade \<Rightarrow> layer2_state \<Rightarrow> layer2_state" where
  "layer2_book t s =
    (let pnl = lt_realized_pnl_jpy t;
         s = s\<lparr>l2_accepted := l2_accepted s + 1, l2_daily_count := l2_daily_count s + 1,
               l2_daily_pnl := l2_daily_pnl s + pnl, l2_monthly_pnl := l2_monthly_pnl s + pnl,
               l2_total_pnl := l2_total_pnl s + pnl,
               l2_consecutive_losses := (if pnl < 0 then l2_consecutive_losses s + 1 else 0)\<rparr>;
         s = (if l2_daily_pnl s \<le> - G019_DAILY_LOSS_LIMIT_JPY
              then s\<lparr>l2_daily_loss_halts := insert (lt_trading_day t) (l2_daily_loss_halts s)\<rparr> else s);
         s = (if G019_CONSECUTIVE_LOSS_LIMIT \<le> l2_consecutive_losses s then s\<lparr>l2_consecutive_loss_halt := True\<rparr> else s)
     in if l2_monthly_pnl s \<le> - G019_MONTHLY_LOSS_LIMIT_JPY
        then s\<lparr>l2_monthly_halt := True, l2_monthly_halt_observed := True\<rparr> else s)"

definition layer2_step :: "layer2_trade \<Rightarrow> layer2_state \<Rightarrow> layer2_state" where
  "layer2_step t s =
    (let s = layer2_roll (lt_trading_day t) s in
     if layer2_blocked (lt_trading_day t) s then s\<lparr>l2_rejected := l2_rejected s + 1\<rparr> else layer2_book t s)"

definition layer2_report :: "layer2_state \<Rightarrow> layer2_result" where
  "layer2_report s = \<lparr>lr_accepted_trade_count = l2_accepted s, lr_rejected_trade_count = l2_rejected s,
     lr_realized_pnl_jpy = l2_total_pnl s, lr_daily_loss_halt_count = int (card (l2_daily_loss_halts s)),
     lr_monthly_loss_halt = l2_monthly_halt_observed s,
     lr_consecutive_loss_halt_count = (if l2_consecutive_loss_halt s then 1 else 0),
     lr_broker_post_authorized = False, lr_broker_write = False, lr_actual_post_count = 0\<rparr>"

definition evaluate_g019_layer2 :: "layer2_trade list \<Rightarrow> layer2_result" where
  "evaluate_g019_layer2 trades = layer2_report (fold layer2_step trades layer2_start)"

section \<open>The reference: a rule over the history\<close>

text \<open>What the trades accepted so far add up to on a day, in a month, and the losses at their end.\<close>

definition day_entries :: "layer2_trade list \<Rightarrow> trade_date \<Rightarrow> int" where
  "day_entries acc d = int (length (filter (\<lambda>t. lt_trading_day t = d) acc))"

definition day_pnl :: "layer2_trade list \<Rightarrow> trade_date \<Rightarrow> int" where
  "day_pnl acc d = (\<Sum>t \<leftarrow> filter (\<lambda>t. lt_trading_day t = d) acc. lt_realized_pnl_jpy t)"

definition month_pnl :: "layer2_trade list \<Rightarrow> int \<times> int \<Rightarrow> int" where
  "month_pnl acc m = (\<Sum>t \<leftarrow> filter (\<lambda>t. date_month (lt_trading_day t) = m) acc. lt_realized_pnl_jpy t)"

definition loss_streak :: "layer2_trade list \<Rightarrow> int" where
  "loss_streak acc = int (length (takeWhile (\<lambda>t. lt_realized_pnl_jpy t < 0) (rev acc)))"

definition admits :: "layer2_trade list \<Rightarrow> trade_date \<Rightarrow> bool" where
  "admits acc d \<longleftrightarrow> day_entries acc d < 30 \<and> - 10000 < day_pnl acc d \<and> - 50000 < month_pnl acc (date_month d)
     \<and> loss_streak acc < 5"

definition admit :: "layer2_trade \<Rightarrow> layer2_trade list \<Rightarrow> layer2_trade list" where
  "admit t acc = (if admits acc (lt_trading_day t) then acc @ [t] else acc)"

definition g019_accepted :: "layer2_trade list \<Rightarrow> layer2_trade list" where
  "g019_accepted trades = fold admit trades []"

definition reference_result :: "layer2_trade list \<Rightarrow> layer2_trade list \<Rightarrow> layer2_result" where
  "reference_result trades acc = \<lparr>lr_accepted_trade_count = int (length acc),
     lr_rejected_trade_count = int (length trades) - int (length acc),
     lr_realized_pnl_jpy = (\<Sum>t \<leftarrow> acc. lt_realized_pnl_jpy t),
     lr_daily_loss_halt_count = int (card {d \<in> lt_trading_day ` set acc. day_pnl acc d \<le> - 10000}),
     lr_monthly_loss_halt = list_ex (\<lambda>t. month_pnl acc (date_month (lt_trading_day t)) \<le> - 50000) acc,
     lr_consecutive_loss_halt_count = (if 5 \<le> loss_streak acc then 1 else 0),
     lr_broker_post_authorized = False, lr_broker_write = False, lr_actual_post_count = 0\<rparr>"

lemma history_snoc [simp]:
  "day_entries (acc @ [t]) d = day_entries acc d + (if lt_trading_day t = d then 1 else 0)"
  "day_pnl (acc @ [t]) d = day_pnl acc d + (if lt_trading_day t = d then lt_realized_pnl_jpy t else 0)"
  "month_pnl (acc @ [t]) m = month_pnl acc m + (if date_month (lt_trading_day t) = m then lt_realized_pnl_jpy t else 0)"
  "loss_streak (acc @ [t]) = (if lt_realized_pnl_jpy t < 0 then loss_streak acc + 1 else 0)"
  by (simp_all add: day_entries_def day_pnl_def month_pnl_def loss_streak_def)

lemma history_Nil [simp]: "day_entries [] d = 0" "day_pnl [] d = 0" "month_pnl [] m = 0" "loss_streak [] = 0"
  by (simp_all add: day_entries_def day_pnl_def month_pnl_def loss_streak_def)

lemma date_month_mono: "a \<le> b \<Longrightarrow> date_month a = date_month c \<Longrightarrow> b \<le> c \<Longrightarrow> date_month b = date_month (c :: trade_date)"
  unfolding less_eq_trade_date_def date_month_def prod.inject by presburger

text \<open>A day after all the accepted ones has no history, and neither has its month unless the last day is in it.\<close>

lemma history_later:
  assumes "\<forall>t \<in> set acc. lt_trading_day t \<le> d" "d < e"
  shows "day_entries acc e = 0" "day_pnl acc e = 0"
    "date_month d \<noteq> date_month e \<Longrightarrow> month_pnl acc (date_month e) = 0"
proof -
  have days: "filter (\<lambda>t. lt_trading_day t = e) acc = []" using assms by (auto simp: filter_empty_conv)
  then show "day_entries acc e = 0" "day_pnl acc e = 0" by (simp_all add: day_entries_def day_pnl_def)
  assume "date_month d \<noteq> date_month e"
  then have "filter (\<lambda>t. date_month (lt_trading_day t) = date_month e) acc = []"
    using assms(1) date_month_mono [of _ d e, OF _ _ less_imp_le [OF assms(2)]] by (auto simp: filter_empty_conv)
  then show "month_pnl acc (date_month e) = 0" by (simp add: month_pnl_def)
qed

text \<open>The state of the loop, read from the history.\<close>

definition layer2_inv :: "layer2_trade list \<Rightarrow> layer2_trade list \<Rightarrow> layer2_state \<Rightarrow> bool" where
  "layer2_inv seen acc s \<longleftrightarrow>
     l2_accepted s = int (length acc) \<and> l2_rejected s = int (length seen) - int (length acc)
     \<and> l2_total_pnl s = (\<Sum>t \<leftarrow> acc. lt_realized_pnl_jpy t)
     \<and> l2_daily_loss_halts s = {d. day_pnl acc d \<le> - 10000}
     \<and> l2_consecutive_losses s = loss_streak acc \<and> (l2_consecutive_loss_halt s \<longleftrightarrow> 5 \<le> loss_streak acc)
     \<and> (l2_monthly_halt_observed s \<longleftrightarrow> (\<exists>m. month_pnl acc m \<le> - 50000))
     \<and> (case l2_current_day s of
          None \<Rightarrow> acc = [] \<and> l2_current_month s = None
        | Some d \<Rightarrow> l2_current_month s = Some (date_month d) \<and> (\<forall>t \<in> set acc. lt_trading_day t \<le> d)
            \<and> l2_daily_count s = day_entries acc d \<and> l2_daily_pnl s = day_pnl acc d
            \<and> l2_monthly_pnl s = month_pnl acc (date_month d) \<and> (l2_monthly_halt s \<longleftrightarrow> month_pnl acc (date_month d) \<le> - 50000))"

lemma layer2_roll_inv:
  assumes "layer2_inv seen acc s" and "\<And>d. l2_current_day s = Some d \<Longrightarrow> d \<le> day"
  shows "layer2_inv seen acc (layer2_roll day s) \<and> l2_current_day (layer2_roll day s) = Some day"
proof (cases "l2_current_day s")
  case None
  then show ?thesis using assms(1) by (auto simp: layer2_inv_def layer2_roll_def Let_def)
next
  case (Some d)
  with assms(2) have le: "d \<le> day" by simp
  show ?thesis
  proof (cases "d = day")
    case True
    then show ?thesis using assms(1) Some by (auto simp: layer2_inv_def layer2_roll_def Let_def)
  next
    case False
    with le have "d < day" by simp
    moreover have acc: "\<forall>t \<in> set acc. lt_trading_day t \<le> d" using assms(1) Some by (simp add: layer2_inv_def)
    ultimately have "day_entries acc day = 0" "day_pnl acc day = 0"
        "date_month d \<noteq> date_month day \<Longrightarrow> month_pnl acc (date_month day) = 0"
      using history_later by blast+
    moreover have "\<forall>t \<in> set acc. lt_trading_day t \<le> day" using acc le by auto
    ultimately show ?thesis using assms(1) Some False by (auto simp: layer2_inv_def layer2_roll_def Let_def)
  qed
qed

lemma layer2_blocked_admits:
  assumes "layer2_inv seen acc s" "l2_current_day s = Some day"
  shows "layer2_blocked day s \<longleftrightarrow> \<not> admits acc day"
  using assms by (auto simp: layer2_inv_def layer2_blocked_def admits_def g019_limits)

lemma layer2_book_inv:
  assumes inv: "layer2_inv seen acc s" and day: "l2_current_day s = Some (lt_trading_day t)" and ok: "admits acc (lt_trading_day t)"
  shows "layer2_inv (seen @ [t]) (acc @ [t]) (layer2_book t s) \<and> l2_current_day (layer2_book t s) = Some (lt_trading_day t)"
proof -
  let ?d = "lt_trading_day t" and ?m = "date_month (lt_trading_day t)" and ?p = "lt_realized_pnl_jpy t"
  have days: "{d. day_pnl (acc @ [t]) d \<le> - 10000} = (if day_pnl acc ?d + ?p \<le> - 10000 then insert ?d {d. day_pnl acc d \<le> - 10000}
      else {d. day_pnl acc d \<le> - 10000})"
    using ok by (auto simp: admits_def)
  have months: "(\<exists>m. month_pnl (acc @ [t]) m \<le> - 50000) \<longleftrightarrow> (\<exists>m. month_pnl acc m \<le> - 50000) \<or> month_pnl acc ?m + ?p \<le> - 50000"
  proof -
    have other: "m \<noteq> ?m" if "month_pnl acc m \<le> - 50000" for m using ok that by (auto simp: admits_def)
    have "month_pnl (acc @ [t]) m \<le> - 50000 \<longleftrightarrow> month_pnl acc m \<le> - 50000 \<or> (m = ?m \<and> month_pnl acc ?m + ?p \<le> - 50000)" for m
      using other [of m] by (cases "m = ?m") auto
    then show ?thesis by blast
  qed
  have streak: "5 \<le> loss_streak (acc @ [t]) \<longleftrightarrow> ?p < 0 \<and> 5 \<le> loss_streak acc + 1"
    by simp
  have open': "\<not> l2_monthly_halt s" "\<not> l2_consecutive_loss_halt s" using inv day ok by (auto simp: layer2_inv_def admits_def)
  show ?thesis
    unfolding layer2_inv_def days months streak
    using inv day open' by (auto simp: layer2_inv_def layer2_book_def Let_def g019_limits)
qed

lemma layer2_step_inv:
  assumes "layer2_inv seen acc s" and "\<And>d. l2_current_day s = Some d \<Longrightarrow> d \<le> lt_trading_day t"
  shows "layer2_inv (seen @ [t]) (admit t acc) (layer2_step t s) \<and> l2_current_day (layer2_step t s) = Some (lt_trading_day t)"
proof -
  let ?s = "layer2_roll (lt_trading_day t) s"
  have rolled: "layer2_inv seen acc ?s" "l2_current_day ?s = Some (lt_trading_day t)"
    using layer2_roll_inv [OF assms] by auto
  note blocked = layer2_blocked_admits [OF rolled]
  show ?thesis
  proof (cases "admits acc (lt_trading_day t)")
    case True
    then show ?thesis using layer2_book_inv [OF rolled True] blocked by (simp add: layer2_step_def admit_def)
  next
    case False
    have "layer2_inv (seen @ [t]) acc (?s\<lparr>l2_rejected := l2_rejected ?s + 1\<rparr>)"
      using rolled unfolding layer2_inv_def by simp
    then show ?thesis using False blocked rolled(2) by (simp add: layer2_step_def admit_def Let_def)
  qed
qed

lemma layer2_fold_inv:
  assumes "layer2_inv seen acc s" "sorted (map lt_trading_day trades)"
    and "\<And>d t. l2_current_day s = Some d \<Longrightarrow> t \<in> set trades \<Longrightarrow> d \<le> lt_trading_day t"
  shows "layer2_inv (seen @ trades) (fold admit trades acc) (fold layer2_step trades s)"
  using assms
proof (induction trades arbitrary: seen acc s)
  case Nil
  then show ?case by simp
next
  case (Cons t trades)
  have "layer2_inv (seen @ [t]) (admit t acc) (layer2_step t s)" "l2_current_day (layer2_step t s) = Some (lt_trading_day t)"
    using layer2_step_inv [OF Cons.prems(1), of t] Cons.prems(3) by auto
  then show ?case using Cons.IH [of "seen @ [t]" "admit t acc" "layer2_step t s"] Cons.prems(2) by auto
qed

lemma layer2_start_inv: "layer2_inv [] [] layer2_start"
  by (simp add: layer2_inv_def layer2_start_def)

text \<open>Days and months without a trade have neither reached a limit.\<close>

lemma day_pnl_used: "day_pnl acc d \<noteq> 0 \<Longrightarrow> d \<in> lt_trading_day ` set acc"
  by (induction acc) (auto simp: day_pnl_def split: if_splits)

lemma month_pnl_used: "month_pnl acc m \<noteq> 0 \<Longrightarrow> m \<in> (\<lambda>t. date_month (lt_trading_day t)) ` set acc"
  by (induction acc) (auto simp: month_pnl_def split: if_splits)

lemma layer2_reference:
  assumes "sorted (map lt_trading_day trades)"
  shows "evaluate_g019_layer2 trades = reference_result trades (g019_accepted trades)"
proof -
  let ?acc = "g019_accepted trades"
  have inv: "layer2_inv trades ?acc (fold layer2_step trades layer2_start)"
    using layer2_fold_inv [OF layer2_start_inv assms] by (simp add: layer2_start_def g019_accepted_def)
  have days: "{d. day_pnl ?acc d \<le> - 10000} = {d \<in> lt_trading_day ` set ?acc. day_pnl ?acc d \<le> - 10000}"
    using day_pnl_used [of ?acc] by fastforce
  have months: "(\<exists>m. month_pnl ?acc m \<le> - 50000) \<longleftrightarrow> list_ex (\<lambda>t. month_pnl ?acc (date_month (lt_trading_day t)) \<le> - 50000) ?acc"
  proof -
    have "m \<in> (\<lambda>t. date_month (lt_trading_day t)) ` set ?acc" if "month_pnl ?acc m \<le> - 50000" for m
      using month_pnl_used [of ?acc m] that by linarith
    then show ?thesis unfolding list_ex_iff by blast
  qed
  show ?thesis
    using inv unfolding layer2_inv_def days months
    by (simp add: evaluate_g019_layer2_def layer2_report_def reference_result_def)
qed

section \<open>The limits\<close>

definition within_limits :: "int \<Rightarrow> layer2_trade list \<Rightarrow> bool" where
  "within_limits worst acc \<longleftrightarrow> (\<forall>d. day_entries acc d \<le> 30 \<and> - 10000 - worst < day_pnl acc d)
     \<and> (\<forall>m. - 50000 - worst < month_pnl acc m) \<and> loss_streak acc \<le> 5"

lemma within_admit:
  assumes "within_limits worst acc" "- worst \<le> lt_realized_pnl_jpy t" "0 \<le> worst"
  shows "within_limits worst (admit t acc)"
  using assms by (auto simp: within_limits_def admit_def admits_def)

lemma within_fold:
  assumes "within_limits worst acc" "\<forall>t \<in> set trades. - worst \<le> lt_realized_pnl_jpy t" "0 \<le> worst"
  shows "within_limits worst (fold admit trades acc)"
  using assms by (induction trades arbitrary: acc) (auto simp: within_admit)

lemma accepted_within:
  assumes "\<forall>t \<in> set trades. - worst \<le> lt_realized_pnl_jpy t" "0 \<le> worst"
  shows "within_limits worst (g019_accepted trades)"
  unfolding g019_accepted_def using within_fold [OF _ assms, of "[]"] assms(2) by (simp add: within_limits_def)

end
