(* ===== verification/Exit_Properties.thy ===== *)
theory Exit_Properties
  imports Exit_Policy G019_Exit G019_Layer2 "HOL-Library.Sublist"
begin

text \<open>
  The exit rules: what the exit decision of a protected position is, what it books in the paper
  account, and what the G019 exit and its portfolio limits do.
\<close>

section \<open>The exit decision\<close>

definition held_since :: "datetime \<Rightarrow> pyval \<Rightarrow> int" where
  "held_since opened now = (case as_datetime now of None \<Rightarrow> 0 | Some t \<Rightarrow> dt_utc t - dt_utc opened)"

definition clock_valid :: "datetime \<Rightarrow> pyval \<Rightarrow> bool" where
  "clock_valid opened now = (case as_datetime now of None \<Rightarrow> False | Some t \<Rightarrow> dt_aware t \<and> dt_utc opened \<le> dt_utc t)"

lemma as_datetime_Some: "as_datetime v = Some t \<longleftrightarrow> v = PyDatetime t"
  by (cases v) auto

lemma position_aware: "SyntheticProtectedPosition direction price opened confirmed = Inr position \<Longrightarrow> dt_aware (po_opened_at_utc position)"
  by (auto simp: SyntheticProtectedPosition_def split: option.splits if_splits)

text \<open>
  C27. The exit decision is the reference decision on exact numbers.  For prices below ten thousand
  and a position held for less than 136 years the code always decides: an unusable clock, a
  missing protection and stale data halt under the server's protection, in this order; then the
  stop is looked at before the target, the time limit and the lost edge, against the move in pips
  of the price the position can be closed at and the microseconds it was held, although the code
  compares a float; the reported pips are exact; and only the position's own close is ever
  allowed, never a generic close, an opposite entry or a POST.
\<close>

theorem exit_decision_is_reference:
  assumes "SyntheticProtectedPosition direction price opened confirmed = Inr position" "dec_fits 4 12 (po_entry_price position)"
    and "quote_fits quote" "dec_fits 7 12 (ep_stop_loss_pips policy)" "dec_fits 7 12 (ep_take_profit_pips policy)"
    and "held_since (po_opened_at_utc position) now < 2 ^ 32 * us_per_second"
  shows "\<exists>d. evaluate_exit_decision position quote now policy latest fresh = Inr d
    \<and> (ed_action d, ed_reason d) = exit_reference (clock_valid (po_opened_at_utc position) now)
        (po_protection_confirmed position) (fresh = PyBool True)
        (pips_moved position quote) (dval (ep_stop_loss_pips policy)) (dval (ep_take_profit_pips policy))
        (held_since (po_opened_at_utc position) now) (ep_max_hold_seconds policy)
        (ep_formal_edge_exit_enabled policy \<and> latest \<notin> {PyNone, PyDecision (po_direction position)})
    \<and> map_option dval (ed_unrealized_pips d) =
        (if ed_action d = HALT_KEEP_SERVER_PROTECTION then None else Some (pips_moved position quote))
    \<and> ed_position_specific d \<and> \<not> ed_generic_close_allowed d \<and> \<not> ed_opposite_entry_allowed d \<and> \<not> ed_actual_post_allowed d"
  by (rule exit_decision_exact [OF assms(3,2) position_aware [OF assms(1)] assms(4,5) _ _ assms(6) refl])
    (auto simp: clock_valid_def held_since_def as_datetime_Some split: option.splits)

definition sample_position :: protected_position where
  "sample_position = \<lparr>po_direction = BUY, po_entry_price = DFin False 150123 (- 3),
     po_opened_at_utc = \<lparr>dt_local = 0, dt_offset = Some 0\<rparr>, po_protection_confirmed = True\<rparr>"

definition sample_exit_policy :: exit_policy where
  "sample_exit_policy = \<lparr>ep_stop_loss_pips = DFin False 12 0, ep_take_profit_pips = DFin False 18 0, ep_max_hold_seconds = 1800,
     ep_formal_edge_exit_enabled = True, ep_position_specific_exit_required = True, ep_opposite_entry_as_exit_allowed = False\<rparr>"

definition sample_exit_quote :: paper_quote where
  "sample_exit_quote = \<lparr>q_bid = DFin False 150303 (- 3), q_ask = DFin False 150305 (- 3)\<rparr>"

lemma sample_exit_facts:
  "SyntheticProtectedPosition (PyDecision BUY) (PyDecimal (DFin False 150123 (- 3))) (PyDatetime \<lparr>dt_local = 0, dt_offset = Some 0\<rparr>)
     (PyBool True) = Inr sample_position"
  "dec_fits 4 12 (po_entry_price sample_position)" "quote_fits sample_exit_quote"
  "dec_fits 7 12 (ep_stop_loss_pips sample_exit_policy)" "dec_fits 7 12 (ep_take_profit_pips sample_exit_policy)"
  "pips_moved sample_position sample_exit_quote = 18"
  by (simp_all add: SyntheticProtectedPosition_def finite_decimal_def dec_is_finite_def dec_le_dval dval_def signed_coeff_def pow10_def
      dec_zero_def dt_aware_def sample_position_def sample_exit_quote_def sample_exit_policy_def quote_fits_def dec_fits_def pips_moved_def)

text \<open>A target that is touched exactly when the time is up counts as the target.\<close>

lemma exit_decision_is_reference_witness:
  "\<exists>d. evaluate_exit_decision sample_position sample_exit_quote (PyDatetime \<lparr>dt_local = 1800 * us_per_second, dt_offset = Some 0\<rparr>)
     sample_exit_policy PyNone (PyBool True) = Inr d \<and> ed_action d = EXIT_POSITION_SPECIFIC \<and> ed_reason d = TAKE_PROFIT_REACHED"
proof -
  let ?now = "PyDatetime \<lparr>dt_local = 1800 * us_per_second, dt_offset = Some 0\<rparr>"
  have "held_since (po_opened_at_utc sample_position) ?now < 2 ^ 32 * us_per_second"
    by (simp add: held_since_def sample_position_def dt_utc_def us_per_second_def)
  from exit_decision_is_reference [OF sample_exit_facts(1-5) this, of PyNone "PyBool True"]
  show ?thesis
    unfolding sample_exit_facts(6)
    by (auto simp: exit_reference_def clock_valid_def sample_position_def sample_exit_policy_def dt_aware_def dt_utc_def
        us_per_second_def dval_def signed_coeff_def)
qed

section \<open>What the decision books\<close>

text \<open>
  C20. The paper account books what the exit decision saw.  For a position opened at the fill of its
  entry quote and closed on the quote of the decision, the gross result is the decided pips less
  the slippage of the exit, times the size; the net result takes off a fee and a holding cost that
  are not negative.  So a stop that was reached is a net loss of at least its pips, a profit that
  was reached brings at least its pips less the exit slippage before costs, and a market that has
  not moved costs at least the spread and the slippage of both sides.
\<close>

theorem exit_decision_is_booked:
  assumes "PaperQuote entry_bid entry_ask = Inr entry" "PaperQuote exit_bid exit_ask = Inr exit"
    and "PaperCostModel units slippage rate holding = Inr costs"
    and "quote_fits entry" "quote_fits exit" "costs_fit costs" "dec_fits 4 12 (po_entry_price position)"
    and "dec_fits 7 12 (ep_stop_loss_pips policy)" "dec_fits 7 12 (ep_take_profit_pips policy)"
    and "SyntheticProtectedPosition direction price opened confirmed = Inr position"
    and "held_since (po_opened_at_utc position) now < 2 ^ 32 * us_per_second"
    and "dval (po_entry_price position) = fst (exact_fills (po_direction position) entry exit (dval (co_slippage_pips_per_side costs)))"
    and "evaluate_exit_decision position exit now policy latest fresh = Inr d" "ed_unrealized_pips d = Some pips"
    and "evaluate_paper_round_trip (PyDecision (po_direction position)) entry exit costs = Inr r"
  shows "dval (rt_gross_pnl_jpy r) = (dval pips - dval (co_slippage_pips_per_side costs)) / 100 * dval (co_size costs)
    \<and> dval (rt_net_pnl_jpy r) \<le> dval (rt_gross_pnl_jpy r)
    \<and> (ed_reason d = HARD_STOP_REACHED \<longrightarrow> dval (rt_net_pnl_jpy r) \<le> - (dval (ep_stop_loss_pips policy) / 100 * dval (co_size costs)))
    \<and> (ed_reason d = TAKE_PROFIT_REACHED \<longrightarrow>
        (dval (ep_take_profit_pips policy) - dval (co_slippage_pips_per_side costs)) / 100 * dval (co_size costs) \<le> dval (rt_gross_pnl_jpy r))
    \<and> (exit = entry \<longrightarrow> dval (rt_net_pnl_jpy r) \<le>
        - ((dval (q_ask entry) - dval (q_bid entry)) + 2 * dval (co_slippage_pips_per_side costs) / 100) * dval (co_size costs))"
proof -
  let ?side = "po_direction position" and ?slip = "dval (co_slippage_pips_per_side costs)" and ?size = "dval (co_size costs)"
  obtain x y where xy: "(x, y) = exact_fills ?side entry exit ?slip" by (metis surj_pair)
  note trip = round_trip_exact [OF assms(4,5,6) xy]
  have pos: "0 < x" "0 < y" using trip assms(15) by blast+
  have gross: "dval (rt_gross_pnl_jpy r) = directed ?side x y * ?size"
    and fee: "dval (rt_api_fee_jpy r) = (x + y) * ?size * dval (co_api_execution_fee_rate costs)"
    and net: "dval (rt_net_pnl_jpy r) = dval (rt_gross_pnl_jpy r) - dval (rt_api_fee_jpy r) - dval (co_holding_cost_jpy costs)"
    using trip assms(15) by blast+
  note cost = PaperCostModel_ok [OF assms(3)]
  have "0 \<le> dval (rt_api_fee_jpy r)" unfolding fee using pos cost by (intro mult_nonneg_nonneg) auto
  with net cost(4) have less: "dval (rt_net_pnl_jpy r) \<le> dval (rt_gross_pnl_jpy r)" by linarith
  have "x = dval (po_entry_price position)" using assms(12) xy by (metis fst_conv)
  then have moved: "directed ?side x y = (pips_moved position exit - ?slip) / 100"
    using xy by (auto simp: exact_fills_def directed_def pips_moved_def split: if_splits)
  have decided: "dval pips = pips_moved position exit
      \<and> (ed_reason d = HARD_STOP_REACHED \<longrightarrow> dval pips \<le> - dval (ep_stop_loss_pips policy))
      \<and> (ed_reason d = TAKE_PROFIT_REACHED \<longrightarrow> dval (ep_take_profit_pips policy) \<le> dval pips)"
    using exit_decision_exact [OF assms(5,7) position_aware [OF assms(10)] assms(8,9), of _ now _ _ latest fresh, OF refl _ assms(11) refl]
      assms(13,14) by (auto simp: held_since_def exit_reference_def as_datetime_Some split: if_splits)
  have size: "a * ?size \<le> b * ?size" if "a \<le> b" for a b using that cost(1) by (simp add: mult_right_mono)
  have still: "directed ?side x y = - ((dval (q_ask entry) - dval (q_bid entry)) + 2 * ?slip / 100)" if "exit = entry"
    using xy that by (auto simp: exact_fills_def directed_def split: if_splits)
  have booked: "dval (rt_gross_pnl_jpy r) = (dval pips - ?slip) / 100 * ?size" using gross moved decided by simp
  have stop: "dval (rt_gross_pnl_jpy r) \<le> - (dval (ep_stop_loss_pips policy) / 100 * ?size)" if "ed_reason d = HARD_STOP_REACHED"
    using size [of "(dval pips - ?slip) / 100" "- (dval (ep_stop_loss_pips policy) / 100)"] decided that cost(2) booked by simp
  have target: "(dval (ep_take_profit_pips policy) - ?slip) / 100 * ?size \<le> dval (rt_gross_pnl_jpy r)" if "ed_reason d = TAKE_PROFIT_REACHED"
    unfolding booked using size [of "(dval (ep_take_profit_pips policy) - ?slip) / 100" "(dval pips - ?slip) / 100"] decided that by simp
  have unmoved: "dval (rt_gross_pnl_jpy r) = - ((dval (q_ask entry) - dval (q_bid entry)) + 2 * ?slip / 100) * ?size" if "exit = entry"
    unfolding gross still [OF that] ..
  show ?thesis
    using booked less order.trans [OF less stop] target order.trans [OF less eq_refl [OF unmoved]] by blast
qed

text \<open>A long that reaches its target of eighteen pips with one pip of slippage on each side.\<close>

lemma exit_decision_is_booked_witness:
  "\<exists>entry costs d r. PaperQuote (PyDecimal (DFin False 150111 (- 3))) (PyDecimal (DFin False 150113 (- 3))) = Inr entry
    \<and> PaperCostModel (PyDecimal (DFin False 1000 0)) (PyDecimal (DFin False 1 0)) (PyDecimal (DFin False 2 (- 5))) (PyDecimal (DFin False 0 0)) = Inr costs
    \<and> evaluate_exit_decision sample_position sample_exit_quote (PyDatetime \<lparr>dt_local = 60, dt_offset = Some 0\<rparr>)
        sample_exit_policy PyNone (PyBool True) = Inr d
    \<and> evaluate_paper_round_trip (PyDecision BUY) entry sample_exit_quote costs = Inr r
    \<and> dval (rt_gross_pnl_jpy r) = 170 \<and> dval (rt_net_pnl_jpy r) \<le> 170"
proof -
  let ?now = "PyDatetime \<lparr>dt_local = 60, dt_offset = Some 0\<rparr>" and ?bid = "DFin False 150111 (- 3)" and ?ask = "DFin False 150113 (- 3)"
  define entry where "entry = \<lparr>q_bid = ?bid, q_ask = ?ask\<rparr>"
  define costs where "costs = \<lparr>co_size = DFin False 1000 0, co_slippage_pips_per_side = DFin False 1 0,
    co_api_execution_fee_rate = DFin False 2 (- 5), co_holding_cost_jpy = DFin False 0 0\<rparr>"
  note nums = finite_decimal_def dec_is_finite_def dec_le_dval dec_lt_dval dval_def signed_coeff_def pow10_def dec_zero_def
  have entry: "PaperQuote (PyDecimal ?bid) (PyDecimal ?ask) = Inr entry" by (simp add: PaperQuote_def nums entry_def)
  have exit: "PaperQuote (PyDecimal (DFin False 150303 (- 3))) (PyDecimal (DFin False 150305 (- 3))) = Inr sample_exit_quote"
    by (simp add: PaperQuote_def nums sample_exit_quote_def)
  have costs: "PaperCostModel (PyDecimal (DFin False 1000 0)) (PyDecimal (DFin False 1 0)) (PyDecimal (DFin False 2 (- 5))) (PyDecimal (DFin False 0 0)) = Inr costs"
    by (simp add: PaperCostModel_def guardR_def nums costs_def)
  have fits: "quote_fits entry" "costs_fit costs"
    by (simp_all add: quote_fits_def costs_fit_def dec_fits_def entry_def costs_def dval_def signed_coeff_def pow10_def)
  have fill: "dval (po_entry_price sample_position) = fst (exact_fills (po_direction sample_position) entry sample_exit_quote (dval (co_slippage_pips_per_side costs)))"
    by (simp add: exact_fills_def sample_position_def entry_def costs_def dval_def signed_coeff_def pow10_def)
  have held: "held_since (po_opened_at_utc sample_position) ?now < 2 ^ 32 * us_per_second"
    by (simp add: held_since_def sample_position_def dt_utc_def us_per_second_def)
  have known: "po_protection_confirmed sample_position" "clock_valid (po_opened_at_utc sample_position) ?now"
    by (simp_all add: sample_position_def clock_valid_def dt_aware_def dt_utc_def)
  obtain d where d: "evaluate_exit_decision sample_position sample_exit_quote ?now sample_exit_policy PyNone (PyBool True) = Inr d"
      "map_option dval (ed_unrealized_pips d) = Some 18"
    using exit_decision_exact [OF sample_exit_facts(3,2) position_aware [OF sample_exit_facts(1)] sample_exit_facts(4,5), of "True" ?now _ _ PyNone "PyBool True", OF _ _ held refl]
      known unfolding sample_exit_facts(6)
    by (auto simp: clock_valid_def held_since_def exit_reference_def split: if_splits)
  then obtain pips where pips: "ed_unrealized_pips d = Some pips" "dval pips = 18" by auto
  obtain x y where xy: "(x, y) = exact_fills BUY entry sample_exit_quote (dval (co_slippage_pips_per_side costs))" by (metis surj_pair)
  then have "0 < x" "0 < y"
    by (simp_all add: exact_fills_def entry_def sample_exit_quote_def costs_def dval_def signed_coeff_def pow10_def)
  then obtain r where r: "evaluate_paper_round_trip (PyDecision BUY) entry sample_exit_quote costs = Inr r"
    using round_trip_exact [OF fits(1) sample_exit_facts(3) fits(2) xy] by auto
  have buy: "po_direction sample_position = BUY" by (simp add: sample_position_def)
  have cost: "dval (co_size costs) = 1000" "dval (co_slippage_pips_per_side costs) = 1"
    by (simp_all add: costs_def dval_def signed_coeff_def)
  have "dval (rt_gross_pnl_jpy r) = 170 \<and> dval (rt_net_pnl_jpy r) \<le> 170"
    using exit_decision_is_booked [OF entry exit costs fits(1) sample_exit_facts(3) fits(2) sample_exit_facts(2,4,5,1) held fill d(1) pips(1), unfolded buy, OF r]
    unfolding pips(2) cost by simp
  then show ?thesis using entry costs d(1) r by blast
qed

section \<open>The G019 exit\<close>

text \<open>
  C28. The G019 exit is the first touch.  For prices below ten thousand with at most twelve decimals
  a result exists precisely for a side, a positive fill and ATR and thirty bars.  It is the
  reference: the bars before the reported one touch neither level of the price the position can be
  closed at, the bid of a long and the ask of a short; the stop wins when a bar touches both; the
  loss at a stop is exactly one and a half ATR and the gain at a target two and a quarter; without
  a touch the thirtieth close ends the trade.  The reported pips are a hundred times the move.
\<close>

theorem g019_exit_is_first_touch:
  assumes "dec_fits 4 12 fill" "dec_fits 4 12 atr" "\<forall>b \<in> set bars. bar_fits b"
  shows "((\<exists>r. evaluate_g019_exit side fill atr bars = Inr r) \<longleftrightarrow>
      side \<in> {''BUY'', ''SELL''} \<and> 0 < dval fill \<and> 0 < dval atr \<and> length bars = 30)
    \<and> (\<forall>r. evaluate_g019_exit side fill atr bars = Inr r \<longrightarrow>
      (ge_exit_reason r, favour side (dval fill) (dval (ge_exit_price r)), ge_bars_held r) = g019_reference side (dval fill) (dval atr) bars
      \<and> dval (ge_gross_pips r) = 100 * favour side (dval fill) (dval (ge_exit_price r)))"
  by (rule g019_exit_exact [OF assms])

definition sample_bar :: "nat \<Rightarrow> nat \<Rightarrow> bid_ask_bar" where
  "sample_bar low high = \<lparr>bar_bid_high = DFin False high (- 3), bar_bid_low = DFin False low (- 3), bar_bid_close = DFin False high (- 3),
     bar_ask_high = DFin False high (- 3), bar_ask_low = DFin False low (- 3), bar_ask_close = DFin False high (- 3)\<rparr>"

text \<open>The second bar touches the stop and the target: the trade is stopped.\<close>

lemma g019_exit_is_first_touch_witness:
  "\<exists>r. evaluate_g019_exit ''BUY'' (DFin False 150123 (- 3)) (DFin False 8 (- 2)) (sample_bar 150100 150150 # replicate 29 (sample_bar 149000 151000)) = Inr r
    \<and> ge_exit_reason r = STOP_LOSS \<and> ge_bars_held r = 2 \<and> dval (ge_gross_pips r) = - 12"
proof -
  let ?fill = "DFin False 150123 (- 3)" and ?atr = "DFin False 8 (- 2)"
  let ?bars = "sample_bar 150100 150150 # replicate 29 (sample_bar 149000 151000)"
  have vals: "dval ?fill = 150123 / 1000" "dval ?atr = 8 / 100" by (simp_all add: dval_def signed_coeff_def pow10_def)
  have bar: "dval (DFin False n (- 3)) = of_nat n / 1000" for n by (simp add: dval_def signed_coeff_def pow10_def)
  have fits: "dec_fits 4 12 ?fill" "dec_fits 4 12 ?atr" "\<forall>b \<in> set ?bars. bar_fits b"
    by (auto simp: dec_fits_def vals bar_fits_def sample_bar_def bar)
  have "g019_reference ''BUY'' (dval ?fill) (dval ?atr) ?bars = (STOP_LOSS, - (3 / 2 * (8 / 100)), 2)"
    unfolding vals
    by (simp add: g019_reference_def Let_def stop_touched_def target_touched_def favour_def worst_price_def best_price_def sample_bar_def bar
        takeWhile_replicate)
  then show ?thesis using g019_exit_is_first_touch [OF fits, of "''BUY''"] by (auto simp: vals)
qed

section \<open>The portfolio limits\<close>

lemma subseq_admit: "subseq acc seen \<Longrightarrow> subseq (admit t acc) (seen @ [t])"
  by (simp add: admit_def subseq_rev_drop_many)

lemma subseq_accepted: "subseq acc seen \<Longrightarrow> subseq (fold admit trades acc) (seen @ trades)"
proof (induction trades arbitrary: acc seen)
  case (Cons t trades)
  then show ?case using Cons.IH [OF subseq_admit [OF Cons.prems, of t]] by simp
qed simp

text \<open>
  C17. The portfolio limits hold.  On trades in the order of their days the code accepts exactly the
  trades the history rule admits and reports their number, their sum, how many days and whether a
  month reached its loss limit; no day has more than thirty entries; with no trade losing more
  than a given amount no day loses ten thousand yen and no month fifty thousand yen by more than
  one such trade; and after five losses in a row nothing more is accepted.
\<close>

theorem g019_limits_hold:
  assumes "sorted (map lt_trading_day trades)"
  shows "evaluate_g019_layer2 trades = reference_result trades (g019_accepted trades)
    \<and> subseq (g019_accepted trades) trades
    \<and> (\<forall>worst \<ge> 0. (\<forall>t \<in> set trades. - worst \<le> lt_realized_pnl_jpy t) \<longrightarrow> within_limits worst (g019_accepted trades))"
  using layer2_reference [OF assms] subseq_accepted [of "[]" "[]" trades] accepted_within
  by (auto simp: g019_accepted_def)

definition sample_trades :: "layer2_trade list" where
  "sample_trades = [\<lparr>lt_trading_day = TradeDate 2026 7 1, lt_realized_pnl_jpy = - 9000\<rparr>,
     \<lparr>lt_trading_day = TradeDate 2026 7 1, lt_realized_pnl_jpy = - 1000\<rparr>,
     \<lparr>lt_trading_day = TradeDate 2026 7 1, lt_realized_pnl_jpy = 500\<rparr>,
     \<lparr>lt_trading_day = TradeDate 2026 7 2, lt_realized_pnl_jpy = 200\<rparr>]"

text \<open>The third trade of the day comes after its loss limit; the next day starts anew.\<close>

lemma g019_limits_hold_witness:
  "lr_accepted_trade_count (evaluate_g019_layer2 sample_trades) = 3 \<and> lr_rejected_trade_count (evaluate_g019_layer2 sample_trades) = 1
    \<and> lr_realized_pnl_jpy (evaluate_g019_layer2 sample_trades) = - 9800 \<and> within_limits 9000 (g019_accepted sample_trades)"
proof -
  have order: "sorted (map lt_trading_day sample_trades)" by (simp add: sample_trades_def less_eq_trade_date_def)
  have acc: "g019_accepted sample_trades = [sample_trades ! 0, sample_trades ! 1, sample_trades ! 3]"
    by (simp add: g019_accepted_def sample_trades_def admit_def admits_def day_entries_def day_pnl_def month_pnl_def loss_streak_def date_month_def)
  have "\<forall>t \<in> set sample_trades. - 9000 \<le> lt_realized_pnl_jpy t" by (simp add: sample_trades_def)
  then show ?thesis
    using g019_limits_hold [OF order] by (simp add: acc reference_result_def) (simp add: sample_trades_def)
qed

end
