(* ===== verification/Py_Calendar.thy ===== *)
theory Py_Calendar
  imports Py_Iso
begin

text \<open>
  The order of the calendar: days that lie between two days of one month are in that month, and
  every date that \<open>date.fromisoformat\<close> reads is in the range of \<open>datetime\<close>.
\<close>

definition days_in_front :: "int \<Rightarrow> int \<Rightarrow> int" where
  "days_in_front y m = days_before_month m + (if 2 < m \<and> is_leap y then 1 else 0)"

lemma ymd2ord_front: "ymd2ord y m d = days_before_year y + days_in_front y m + d"
  by (simp add: ymd2ord_def days_in_front_def)

lemma twelve_months:
  "1 \<le> m \<Longrightarrow> m \<le> 12 \<Longrightarrow> m = 1 \<or> m = 2 \<or> m = 3 \<or> m = 4 \<or> m = 5 \<or> m = 6 \<or> m = 7 \<or> m = 8 \<or> m = 9 \<or> m = 10
    \<or> m = 11 \<or> m = (12 :: int)"
  by presburger

lemma month_table:
  assumes "1 \<le> m" "m \<le> 12"
  shows "0 \<le> days_in_front y m"
    "m < 12 \<Longrightarrow> days_in_front y m + month_length y m = days_in_front y (m + 1)"
    "days_in_front y 12 + month_length y 12 = (if is_leap y then 366 else 365)" "0 < month_length y m"
proof -
  note table = days_in_front_def month_length_def days_before_month_def days_in_month_def nth_Cons'
  show "0 \<le> days_in_front y m" using twelve_months [OF assms] by (elim disjE) (simp_all add: table)
  show "days_in_front y m + month_length y m = days_in_front y (m + 1)" if "m < 12"
    using twelve_months [OF assms] that by (elim disjE) (simp_all add: table)
  show "days_in_front y 12 + month_length y 12 = (if is_leap y then 366 else 365)" by (simp add: table)
  show "0 < month_length y m" using twelve_months [OF assms] by (elim disjE) (simp_all add: table)
qed

lemma front_mono:
  assumes "1 \<le> m" "m < m'" "m' \<le> 12"
  shows "days_in_front y m + month_length y m \<le> days_in_front y m'"
  using assms(2,3)
proof (induction m' rule: int_gr_induct)
  case base
  then show ?case using month_table(2) [of m y] assms(1) by simp
next
  case (step i)
  then show ?case using month_table(2,4) [of i y] assms(1) by simp
qed

lemma year_step: "days_before_year (y + 1) = days_before_year y + (if is_leap y then 366 else 365)"
proof -
  have d: "y div k = (y - 1) div k + (if y mod k = 0 then 1 else 0)" if "0 < k" for k :: int
  proof (cases "y mod k = 0")
    case True
    then obtain q where "y = k * q" by (metis mod_0_imp_dvd dvdE)
    moreover have "(k * q - 1) div k = q - 1"
      using that by (intro int_div_pos_eq [of _ _ _ "k - 1"]) (auto simp: algebra_simps)
    ultimately show ?thesis using True that by simp
  next
    case False
    then have "1 \<le> y mod k" using that by (smt (verit) pos_mod_sign)
    then have "(y - 1) div k = y div k"
      using that mult_div_mod_eq [of k y] pos_mod_bound [OF that, of y]
      by (intro int_div_pos_eq [of _ _ _ "y mod k - 1"]) (auto simp: algebra_simps)
    then show ?thesis using False by simp
  qed
  have mods: "y mod 400 = 0 \<longrightarrow> y mod 100 = 0" "y mod 100 = 0 \<longrightarrow> y mod 4 = 0" by presburger+
  define p where "p k = (y - 1) div k" for k
  define q where "q k = y div k" for k
  have years: "days_before_year (y + 1) = y * 365 + q 4 - q 100 + q 400"
    "days_before_year y = (y - 1) * 365 + p 4 - p 100 + p 400"
    by (simp_all add: days_before_year_def p_def q_def)
  have one: "q k = p k + 1" if "y mod k = 0" "0 < k" for k using d [OF that(2)] that(1) by (simp add: p_def q_def)
  have none: "q k = p k" if "y mod k \<noteq> 0" "0 < k" for k using d [OF that(2)] that(1) by (simp add: p_def q_def)
  consider "y mod 4 \<noteq> 0" "y mod 100 \<noteq> 0" "y mod 400 \<noteq> 0" "\<not> is_leap y"
    | "y mod 4 = 0" "y mod 100 \<noteq> 0" "y mod 400 \<noteq> 0" "is_leap y"
    | "y mod 4 = 0" "y mod 100 = 0" "y mod 400 \<noteq> 0" "\<not> is_leap y"
    | "y mod 4 = 0" "y mod 100 = 0" "y mod 400 = 0" "is_leap y"
    using mods unfolding is_leap_def by metis
  then show ?thesis
  proof cases
    case 1
    then have "is_leap y = False" by simp
    then show ?thesis using years none [OF 1(1)] none [OF 1(2)] none [OF 1(3)] by simp
  next
    case 2
    then have "is_leap y = True" by simp
    then show ?thesis using years one [OF 2(1)] none [OF 2(2)] none [OF 2(3)] by simp
  next
    case 3
    then have "is_leap y = False" by simp
    then show ?thesis using years one [OF 3(1)] one [OF 3(2)] none [OF 3(3)] by simp
  next
    case 4
    then have "is_leap y = True" by simp
    then show ?thesis using years one [OF 4(1)] one [OF 4(2)] one [OF 4(3)] by simp
  qed
qed

lemma year_mono: "y \<le> y' \<Longrightarrow> days_before_year y \<le> days_before_year y'"
proof (induction y' rule: int_ge_induct)
  case (step i)
  then show ?case using year_step [of i] by auto
qed simp

definition date_ok :: "int \<Rightarrow> int \<Rightarrow> int \<Rightarrow> bool" where
  "date_ok y m d \<longleftrightarrow> 1 \<le> m \<and> m \<le> 12 \<and> 1 \<le> d \<and> d \<le> month_length y m"

lemma ymd2ord_year:
  assumes "date_ok y m d"
  shows "days_before_year y < ymd2ord y m d" "ymd2ord y m d \<le> days_before_year (y + 1)"
proof -
  have m: "1 \<le> m" "m \<le> 12" "1 \<le> d" "d \<le> month_length y m" using assms by (auto simp: date_ok_def)
  show "days_before_year y < ymd2ord y m d" using month_table(1) [OF m(1,2), of y] m(3) by (simp add: ymd2ord_front)
  have "days_in_front y m + month_length y m \<le> (if is_leap y then 366 else 365)"
    using front_mono [of m 12 y] month_table(3,4) [of 12 y] m(1,2) by (cases "m = 12") auto
  then show "ymd2ord y m d \<le> days_before_year (y + 1)" using m(4) unfolding ymd2ord_front year_step by linarith
qed

lemma ymd2ord_less:
  assumes "date_ok y m d" "date_ok y' m' d'" "y < y' \<or> (y = y' \<and> m < m')"
  shows "ymd2ord y m d < ymd2ord y' m' d'"
proof (cases "y < y'")
  case True
  then show ?thesis
    using ymd2ord_year [OF assms(1)] ymd2ord_year [OF assms(2)] year_mono [of "y + 1" y'] by simp
next
  case False
  then show ?thesis
    using assms front_mono [of m m' y] by (auto simp: ymd2ord_front date_ok_def)
qed

lemma parsed_in_range:
  assumes "date_fromisoformat s = Some n"
  shows "1 \<le> n \<and> n \<le> max_ordinal"
proof -
  have py: "1 \<le> n \<and> n \<le> max_ordinal" if "py_date y m d = Some n" for y m d
  proof -
    have ok: "date_ok y m d" "1 \<le> y" "y \<le> 9999" "n = ymd2ord y m d"
      using that by (auto simp: py_date_def date_ok_def split: if_splits)
    have "days_before_year 1 = 0" "days_before_year 10000 = max_ordinal"
      by (simp_all add: days_before_year_def max_ordinal_def)
    then show ?thesis
      using ymd2ord_year [OF ok(1)] year_mono [OF ok(2)] year_mono [of "y + 1" 10000] ok(3,4) by simp
  qed
  have week: "1 \<le> n \<and> n \<le> max_ordinal" if "iso_week_date y w d = Some n" for y w d
    using that by (auto simp: iso_week_date_def Let_def split: if_splits)
  show ?thesis
    using assms by (auto simp: date_fromisoformat_def parse_isoformat_date_def Let_def split: if_splits option.splits
        dest!: py week)
qed

text \<open>A month is an interval of days.\<close>

lemma ordinal_month_between:
  assumes "1 \<le> a" "a \<le> b" "b \<le> c" "c \<le> max_ordinal" "ordinal_month a = ordinal_month c"
  shows "ordinal_month b = ordinal_month c"
proof -
  obtain y m d where a: "ord2ymd a = (y, m, d)" by (cases "ord2ymd a")
  obtain y' m' d' where b: "ord2ymd b = (y', m', d')" by (cases "ord2ymd b")
  obtain z k e where c: "ord2ymd c = (z, k, e)" by (cases "ord2ymd c")
  have oa: "date_ok y m d" "ymd2ord y m d = a" "1 \<le> y" "y \<le> 9999"
    using ord2ymd_correct [of a] assms a by (auto simp: date_ok_def)
  have ob: "date_ok y' m' d'" "ymd2ord y' m' d' = b"
    using ord2ymd_correct [of b] assms b by (auto simp: date_ok_def)
  have oc: "date_ok z k e" "ymd2ord z k e = c" "1 \<le> z" "z \<le> 9999"
    using ord2ymd_correct [of c] assms c by (auto simp: date_ok_def)
  have "zero_pad 4 (nat y) @ ''-'' @ zero_pad 2 (nat m) = zero_pad 4 (nat z) @ ''-'' @ zero_pad 2 (nat k)"
    using assms(5) by (simp add: ordinal_month_def a c)
  moreover have "length (zero_pad 4 (nat y)) = length (zero_pad 4 (nat z))"
    using oa(4) oc(4) by (simp add: length_zero_pad)
  ultimately have "zero_pad 4 (nat y) = zero_pad 4 (nat z)" "zero_pad 2 (nat m) = zero_pad 2 (nat k)" by simp_all
  then have "nat y = nat z" "nat m = nat k" by (metis digits_value_pad)+
  then have ac: "y = z" "m = k" using oa oc by (auto simp: date_ok_def)
  have "\<not> (y' < y \<or> (y' = y \<and> m' < m))" using ymd2ord_less [OF ob(1) oa(1)] oa(2) ob(2) assms(2) by auto
  moreover have "\<not> (z < y' \<or> (z = y' \<and> k < m'))" using ymd2ord_less [OF oc(1) ob(1)] oc(2) ob(2) assms(3) by auto
  ultimately have "y' = z" "m' = k" using ac by auto
  then show ?thesis by (simp add: ordinal_month_def b c)
qed

end
