(* ===== verification/Risk_History.thy ===== *)
theory Risk_History
  imports Risk_Properties Py_Calendar
begin

text \<open>
  The risk ledger against its own history.  A fact is an admitted entry or a booked result with
  its day; the counters the gate compares are what the facts of the day, of the month and of the
  losing streak add up to, over any operations whose days do not go back.
\<close>

section \<open>Facts\<close>

datatype risk_fact = Entered (fact_day: int) | Booked (fact_day: int) (fact_loss: int)

fun loss_of :: "risk_fact \<Rightarrow> int" where
  "loss_of (Entered n) = 0"
| "loss_of (Booked n loss) = loss"

fun is_entry :: "risk_fact \<Rightarrow> bool" where
  "is_entry (Entered n) = True"
| "is_entry (Booked n loss) = False"

definition entries_on :: "risk_fact list \<Rightarrow> int \<Rightarrow> int" where
  "entries_on h n = int (length (filter (\<lambda>f. is_entry f \<and> fact_day f = n) h))"

definition loss_on :: "risk_fact list \<Rightarrow> int \<Rightarrow> int" where
  "loss_on h n = (\<Sum>f \<leftarrow> filter (\<lambda>f. fact_day f = n) h. loss_of f)"

definition loss_in :: "risk_fact list \<Rightarrow> string \<Rightarrow> int" where
  "loss_in h month = (\<Sum>f \<leftarrow> filter (\<lambda>f. ordinal_month (fact_day f) = month) h. loss_of f)"

definition losing_streak :: "risk_fact list \<Rightarrow> int" where
  "losing_streak h = int (length (takeWhile (\<lambda>f. 0 < loss_of f) (rev (filter (\<lambda>f. \<not> is_entry f) h))))"

text \<open>What a closed result adds: nothing when it breaks the bound of a trade, which kills the ledger.\<close>

definition booked_fact :: "risk_policy \<Rightarrow> int \<Rightarrow> int \<Rightarrow> risk_fact list" where
  "booked_fact p n pnl = (if rp_per_trade_loss p < max 0 (- pnl) then [] else [Booked n (max 0 (- pnl))])"

definition not_before :: "int \<Rightarrow> string \<Rightarrow> bool" where
  "not_before m day = (case validate_day day of Inl e \<Rightarrow> True | Inr n \<Rightarrow> m \<le> n)"

definition later_of :: "int \<Rightarrow> string \<Rightarrow> int" where
  "later_of m day = (case validate_day day of Inl e \<Rightarrow> m | Inr n \<Rightarrow> n)"

text \<open>
  \<open>risk_history p h m s\<close>: operations of policy \<open>p\<close> that return or raise, with days that do not go
  back and are at most \<open>m\<close>, lead from a fresh ledger to \<open>s\<close> with the facts \<open>h\<close>.
\<close>

inductive risk_history :: "risk_policy \<Rightarrow> risk_fact list \<Rightarrow> int \<Rightarrow> risk_state \<Rightarrow> bool" for p where
  history_fresh: "risk_history p [] m (risk_fresh p)"
| history_evaluate: "risk_history p h m s \<Longrightarrow> not_before m day \<Longrightarrow> evaluate_risk_before_entry p day s = (g, s')
    \<Longrightarrow> risk_history p h (later_of m day) s'"
| history_entered: "risk_history p h m s \<Longrightarrow> not_before m day \<Longrightarrow> record_risk_entry_attempt p day s = (Inr u, s')
    \<Longrightarrow> risk_history p (h @ [Entered (later_of m day)]) (later_of m day) s'"
| history_refused: "risk_history p h m s \<Longrightarrow> not_before m day \<Longrightarrow> record_risk_entry_attempt p day s = (Inl e, s')
    \<Longrightarrow> risk_history p h (later_of m day) s'"
| history_closed: "risk_history p h m s \<Longrightarrow> not_before m day \<Longrightarrow> record_closed_result p day (PyInt pnl) s = (Inr stop, s')
    \<Longrightarrow> risk_history p (h @ booked_fact p (later_of m day) pnl) (later_of m day) s'"
| history_not_closed: "risk_history p h m s \<Longrightarrow> not_before m day \<Longrightarrow> record_closed_result p day v s = (Inl e, s')
    \<Longrightarrow> risk_history p h (later_of m day) s'"
| history_once: "risk_history p h m s \<Longrightarrow> not_before m day
    \<Longrightarrow> record_closed_result_once p day ref (PyInt pnl) s = (Inr (stop, True), s')
    \<Longrightarrow> risk_history p (h @ booked_fact p (later_of m day) pnl) (later_of m day) s'"
| history_seen: "risk_history p h m s \<Longrightarrow> record_closed_result_once p day ref v s = (Inr (stop, False), s')
    \<Longrightarrow> risk_history p h m s'"
| history_not_once: "risk_history p h m s \<Longrightarrow> not_before m day \<Longrightarrow> record_closed_result_once p day ref v s = (Inl e, s')
    \<Longrightarrow> risk_history p h (later_of m day) s'"
| history_kill: "risk_history p h m s \<Longrightarrow> engage_risk_kill day s = (u, s') \<Longrightarrow> risk_history p h m s'"
| history_reload: "risk_history p h m s \<Longrightarrow> risk_save p s path = (Inr u, path') \<Longrightarrow> risk_load p path' = Inr s'
    \<Longrightarrow> risk_history p h m s'"

lemma facts_snoc [simp]:
  "entries_on (h @ [f]) n = entries_on h n + (if is_entry f \<and> fact_day f = n then 1 else 0)"
  "loss_on (h @ [f]) n = loss_on h n + (if fact_day f = n then loss_of f else 0)"
  "loss_in (h @ [f]) month = loss_in h month + (if ordinal_month (fact_day f) = month then loss_of f else 0)"
  "losing_streak (h @ [f]) = (if is_entry f then losing_streak h else if 0 < loss_of f then losing_streak h + 1 else 0)"
  by (simp_all add: entries_on_def loss_on_def loss_in_def losing_streak_def)

lemma facts_empty [simp]: "entries_on [] n = 0" "loss_on [] n = 0" "loss_in [] month = 0" "losing_streak [] = 0"
  by (simp_all add: entries_on_def loss_on_def loss_in_def losing_streak_def)

text \<open>A later day has no facts, and a later month has none.\<close>

lemma facts_later:
  assumes "\<forall>f \<in> set h. 1 \<le> fact_day f \<and> fact_day f \<le> c" "c < n" "n \<le> max_ordinal"
  shows "entries_on h n = 0" "loss_on h n = 0" "ordinal_month c \<noteq> ordinal_month n \<Longrightarrow> loss_in h (ordinal_month n) = 0"
proof -
  have "filter (\<lambda>f. fact_day f = n) h = []" "filter (\<lambda>f. is_entry f \<and> fact_day f = n) h = []"
    using assms(1,2) by (auto simp: filter_empty_conv)
  then show "entries_on h n = 0" "loss_on h n = 0" by (simp_all add: entries_on_def loss_on_def)
  assume "ordinal_month c \<noteq> ordinal_month n"
  then have "filter (\<lambda>f. ordinal_month (fact_day f) = ordinal_month n) h = []"
    using assms ordinal_month_between [of _ c n] by (fastforce simp: filter_empty_conv)
  then show "loss_in h (ordinal_month n) = 0" by (simp add: loss_in_def)
qed

section \<open>The counters are the history\<close>

text \<open>The ledger stands on day \<open>c\<close>.\<close>

definition counts_at :: "risk_policy \<Rightarrow> risk_fact list \<Rightarrow> int \<Rightarrow> risk_state \<Rightarrow> bool" where
  "counts_at p h c s \<longleftrightarrow> 1 \<le> c \<and> c \<le> max_ordinal
     \<and> rs_current_day s = JStr (ordinal_isoformat c) \<and> rs_current_month s = JStr (ordinal_month c)
     \<and> (\<forall>f \<in> set h. 1 \<le> fact_day f \<and> fact_day f \<le> c)
     \<and> json_int (rs_entries_today s) = entries_on h c \<and> json_int (rs_daily_loss s) = loss_on h c
     \<and> (risk_stop_of s \<in> {ACTIVE, STOPPED_DAILY_BUDGET} \<longrightarrow> json_int (rs_monthly_loss s) = loss_in h (ordinal_month c))
     \<and> (risk_stop_of s = STOPPED_DAILY_BUDGET \<longrightarrow> rp_daily_loss p \<le> json_int (rs_daily_loss s))"

text \<open>No day yet: only a kill can have happened.\<close>

definition counts_none :: "risk_fact list \<Rightarrow> risk_state \<Rightarrow> bool" where
  "counts_none h s \<longleftrightarrow> h = [] \<and> rs_current_day s = JNull \<and> rs_current_month s = JNull
     \<and> json_int (rs_monthly_loss s) = 0 \<and> risk_stop_of s \<noteq> STOPPED_DAILY_BUDGET"

definition history_base :: "risk_policy \<Rightarrow> risk_fact list \<Rightarrow> risk_state \<Rightarrow> bool" where
  "history_base p h s \<longleftrightarrow> risk_ok p s \<and> json_int (rs_consecutive s) = losing_streak h
     \<and> (\<forall>d. entries_on h d \<le> max 0 (rp_max_entries p))"

definition history_inv :: "risk_policy \<Rightarrow> risk_fact list \<Rightarrow> int \<Rightarrow> risk_state \<Rightarrow> bool" where
  "history_inv p h m s \<longleftrightarrow> history_base p h s \<and> (counts_none h s \<or> (\<exists>c \<le> m. counts_at p h c s))"

lemma roll_month_loss: "rs_monthly_loss (roll_calendar n s) =
    (if rs_current_month s \<noteq> JStr (ordinal_month n) \<and> rs_stop_state (roll_calendar n s) = JStr (risk_stop_value ACTIVE)
     then JInt 0 else rs_monthly_loss s)"
  by (simp add: roll_calendar_def roll_month_def Let_def)

lemma active_stop: "risk_ok p s \<Longrightarrow> rs_stop_state s = JStr (risk_stop_value stop) \<longleftrightarrow> risk_stop_of s = stop"
  unfolding risk_ok_iff risk_ok_stop_def by (metis json.inject(1) risk_stop_value_inj)

lemma roll_history:
  assumes "history_inv p h m s" "m \<le> n" "1 \<le> n" "n \<le> max_ordinal"
  shows "history_base p h (roll_calendar n s) \<and> counts_at p h n (roll_calendar n s)"
proof -
  let ?t = "roll_calendar n s"
  have ok: "risk_ok p s" using assms(1) by (simp add: history_inv_def history_base_def)
  note okt = risk_ok_roll [OF ok, of n]
  note stop = roll_stop [OF ok, of n] active_stop [OF okt]
  have base: "history_base p h ?t"
    using assms(1) okt by (simp add: history_inv_def history_base_def roll_calendar_fields)
  have "counts_at p h n ?t"
  proof (cases "counts_none h s")
    case True
    then show ?thesis using assms(3,4) stop
      by (auto simp: counts_none_def counts_at_def roll_calendar_fields roll_month_loss)
  next
    case False
    then obtain c where c: "c \<le> m" "counts_at p h c s" using assms(1) by (auto simp: history_inv_def)
    then have le: "c \<le> n" "1 \<le> c" "c \<le> max_ordinal" using assms(2) by (auto simp: counts_at_def)
    have same: "rs_current_day s = JStr (ordinal_isoformat n) \<longleftrightarrow> c = n"
      using c(2) ordinal_isoformat_inj [OF le(2,3) assms(3,4)] by (simp add: counts_at_def)
    show ?thesis
    proof (cases "c = n")
      case True
      then have "?t = s" using c(2) by (intro roll_same_day) (simp_all add: counts_at_def)
      then show ?thesis using c(2) True by simp
    next
      case False
      with le have "c < n" by simp
      note later = facts_later [of h c, OF _ this assms(4)]
      have days: "\<forall>f \<in> set h. 1 \<le> fact_day f \<and> fact_day f \<le> c" using c(2) by (simp add: counts_at_def)
      have "\<forall>f \<in> set h. 1 \<le> fact_day f \<and> fact_day f \<le> n" using days le by auto
      moreover have "risk_stop_of ?t \<in> {ACTIVE, STOPPED_DAILY_BUDGET} \<longrightarrow> json_int (rs_monthly_loss ?t) = loss_in h (ordinal_month n)"
        "risk_stop_of ?t \<noteq> STOPPED_DAILY_BUDGET"
        using stop False same c(2) later(3) [OF days] by (auto simp: counts_at_def roll_month_loss)
      ultimately show ?thesis
        using False same later(1,2) [OF days] assms(3,4) by (auto simp: counts_at_def roll_calendar_fields)
    qed
  qed
  with base show ?thesis by blast
qed

lemma day_in_range: "validate_day day = Inr n \<Longrightarrow> 1 \<le> n \<and> n \<le> max_ordinal"
  by (auto simp: validate_day_def dest: parsed_in_range split: option.splits)

text \<open>Each update of the ledger with its fact.\<close>

lemma counted_entry:
  assumes "history_base p h t" "counts_at p h n t" "risk_reasons p t = []"
  shows "history_inv p (h @ [Entered n]) n (t\<lparr>rs_entries_today := JInt (json_int (rs_entries_today t) + 1)\<rparr>)"
proof -
  have less: "entries_on h n < rp_max_entries p" using assms(2,3) by (auto simp: risk_reasons_def counts_at_def split: if_splits)
  then have "entries_on (h @ [Entered n]) d \<le> max 0 (rp_max_entries p)" for d
    using assms(1) by (auto simp: history_base_def)
  then show ?thesis
    using assms(1,2) risk_ok_entry [of p t] by (auto simp: history_inv_def history_base_def counts_at_def)
qed

lemma counted_loss:
  assumes "history_base p h t" "counts_at p h n t" "0 \<le> loss"
  shows "history_base p (h @ [Booked n loss]) (risk_count_loss loss t) \<and> counts_at p (h @ [Booked n loss]) n (risk_count_loss loss t)"
  using assms risk_ok_count_loss [of p t loss]
  by (auto simp: history_base_def counts_at_def risk_count_loss_def)

lemma stopped_history:
  assumes "history_base p h t" "counts_at p h n t" "stop = STOPPED_DAILY_BUDGET \<longrightarrow> rp_daily_loss p \<le> json_int (rs_daily_loss t)"
    "risk_stop_of t = ACTIVE \<or> stop = KILLED"
  shows "history_base p h (risk_stop_at stop day t) \<and> counts_at p h n (risk_stop_at stop day t)"
  using assms risk_ok_stop_at [of p t stop day] by (auto simp: history_base_def counts_at_def risk_stop_at_def)

lemma closed_history:
  assumes "history_inv p h m s" "m \<le> n" "1 \<le> n" "n \<le> max_ordinal"
  shows "history_inv p (h @ booked_fact p n pnl) n (snd (risk_closed p day n pnl s))"
proof -
  let ?t = "roll_calendar n s" and ?loss = "max 0 (- pnl)"
  have ok: "risk_ok p s" using assms(1) by (simp add: history_inv_def history_base_def)
  have t: "history_base p h ?t" "counts_at p h n ?t" using roll_history [OF assms] by auto
  have settled: "history_inv p g n u" if "history_base p g u \<and> counts_at p g n u" for g u
    using that by (auto simp: history_inv_def)
  show ?thesis
  proof (cases "rp_per_trade_loss p < ?loss")
    case True
    let ?v = "?t\<lparr>rs_violations := JInt (json_int (rs_violations ?t) + 1)\<rparr>"
    have "history_base p h ?v" "counts_at p h n ?v"
      using t risk_ok_violation [of p ?t] by (auto simp: history_base_def counts_at_def)
    then have "history_inv p h n (risk_stop_at KILLED day ?v)" by (intro settled stopped_history) auto
    then show ?thesis using True by (simp add: risk_closed_def Let_def booked_fact_def)
  next
    case False
    let ?u = "risk_count_loss ?loss ?t" and ?h = "h @ [Booked n ?loss]"
    have u: "history_base p ?h ?u" "counts_at p ?h n ?u" using counted_loss [OF t, of ?loss] by auto
    have "history_inv p ?h n (risk_stop_on_limits p day ?u)" if "risk_stop_of s = ACTIVE"
    proof -
      have "risk_stop_of ?u = ACTIVE" using roll_stop [OF ok, of n] that by simp
      then show ?thesis
        using stopped_history [OF u] settled [of ?h ?u] u by (auto simp: risk_stop_on_limits_def intro!: settled stopped_history [OF u])
    qed
    then show ?thesis using False settled [of ?h ?u] u by (auto simp: risk_closed_def Let_def booked_fact_def)
  qed
qed

lemma killed_history: "history_inv p h m s \<Longrightarrow> history_inv p h m (risk_stop_at KILLED day s)"
  using risk_ok_stop_at [of p s KILLED day]
  by (auto simp: history_inv_def history_base_def counts_none_def counts_at_def risk_stop_at_def)

lemma ref_history:
  assumes "history_inv p h m s" "cycle_ref_ok ref" "JStr ref \<notin> set (json_elements (rs_closed_refs s))"
  shows "history_inv p h m (s\<lparr>rs_closed_refs := JList (json_elements (rs_closed_refs s) @ [JStr ref])\<rparr>)"
  using assms risk_ok_ref by (auto simp: history_inv_def history_base_def counts_none_def counts_at_def)

lemma later_history:
  assumes "history_inv p h m s" "m \<le> n"
  shows "history_inv p h n s"
  using assms by (auto simp: history_inv_def intro: order.trans)

text \<open>Each operation that may roll the calendar, with the fact it adds.\<close>

lemma history_kept:
  assumes "history_inv p h m s" "not_before m day"
  shows "history_inv p h (later_of m day) s"
  using later_history [OF assms(1)] assms by (auto simp: not_before_def later_of_def split: sum.splits)

lemma history_rolled:
  assumes "history_inv p h m s" "not_before m day" "validate_day day = Inr n"
  shows "later_of m day = n" "m \<le> n" "1 \<le> n" "n \<le> max_ordinal"
    "history_base p h (roll_calendar n s)" "counts_at p h n (roll_calendar n s)" "history_inv p h n (roll_calendar n s)"
proof -
  show n: "later_of m day = n" "m \<le> n" "1 \<le> n" "n \<le> max_ordinal"
    using assms(2,3) day_in_range by (auto simp: not_before_def later_of_def)
  show "history_base p h (roll_calendar n s)" "counts_at p h n (roll_calendar n s)" "history_inv p h n (roll_calendar n s)"
    using roll_history [OF assms(1) n(2-4)] by (auto simp: history_inv_def)
qed

lemma history_result:
  assumes inv: "history_inv p h m s" and day: "not_before m day" and run: "record_closed_result p day v s = (r, s')"
  shows "case r of Inl e \<Rightarrow> history_inv p h (later_of m day) s'
    | Inr stop \<Rightarrow> \<exists>pnl. v = PyInt pnl \<and> history_inv p (h @ booked_fact p (later_of m day) pnl) (later_of m day) s'"
proof -
  have ok: "risk_ok p s" using inv by (simp add: history_inv_def history_base_def)
  note kept = history_kept [OF inv day]
  show ?thesis
  proof (cases "as_int v")
    case None
    then show ?thesis using run kept by (auto simp: run_closed_result)
  next
    case (Some pnl)
    then have v: "v = PyInt pnl" by (cases v) auto
    show ?thesis
    proof (cases "validate_day day")
      case (Inl e)
      then show ?thesis using run kept ok v by (auto simp: run_closed_result)
    next
      case (Inr n)
      note n = history_rolled(1-4) [OF inv day Inr]
      have "history_inv p (h @ booked_fact p n pnl) n (snd (risk_closed p day n pnl s))"
        by (rule closed_history [OF inv n(2-4)])
      then show ?thesis using run ok v Inr n(1) by (auto simp: run_closed_result split: prod.splits)
    qed
  qed
qed

lemma history_result_once:
  assumes inv: "history_inv p h m s" and day: "not_before m day" and run: "record_closed_result_once p day ref v s = (r, s')"
  shows "case r of Inl e \<Rightarrow> history_inv p h (later_of m day) s'
    | Inr (stop, booked) \<Rightarrow> if booked
        then \<exists>pnl. v = PyInt pnl \<and> history_inv p (h @ booked_fact p (later_of m day) pnl) (later_of m day) s'
        else s' = s"
proof -
  have ok: "risk_ok p s" using inv by (simp add: history_inv_def history_base_def)
  obtain x t where x: "record_closed_result p day v s = (x, t)" by (cases "record_closed_result p day v s")
  have refs: "rs_closed_refs t = rs_closed_refs s" if "x = Inr stop" for stop
    using x closed_refs that by (auto simp: run_closed_result split: option.splits sum.splits prod.splits) (metis snd_conv)
  show ?thesis
    using run history_result [OF inv day x] history_kept [OF inv day] ok x refs ref_history [of p _ _ t ref]
    by (auto simp: run_closed_once split: if_splits sum.splits)
qed

lemma history_sound: "risk_history p h m s \<Longrightarrow> history_inv p h m s"
proof (induction rule: risk_history.induct)
  case (history_fresh m)
  then show ?case
    using fresh_ok [of p] by (simp add: history_inv_def history_base_def counts_none_def)
      (simp add: risk_fresh_def PhaseBRiskState_def)
next
  case (history_evaluate h m s day g s')
  show ?case
  proof (cases "validate_day day")
    case (Inl e)
    then show ?thesis using history_evaluate history_kept by (auto simp: run_evaluate_risk split: sum.splits)
  next
    case (Inr n)
    note n = history_rolled [OF history_evaluate.IH history_evaluate.hyps(2) Inr]
    show ?thesis using history_evaluate.hyps(3) Inr n(1,7) history_kept [OF history_evaluate.IH history_evaluate.hyps(2)]
      by (auto simp: run_evaluate_risk split: sum.splits)
  qed
next
  case (history_entered h m s day u s')
  then obtain n where n: "validate_day day = Inr n" by (auto simp: run_risk_entry split: sum.splits)
  note r = history_rolled [OF history_entered.IH history_entered.hyps(2) n]
  show ?case using history_entered.hyps(3) n r(1) counted_entry [OF r(5,6)]
    by (auto simp: run_risk_entry Let_def split: sum.splits if_splits)
next
  case (history_refused h m s day e s')
  note kept = history_kept [OF history_refused.IH history_refused.hyps(2)]
  show ?case
  proof (cases "validate_day day")
    case (Inl e)
    then show ?thesis using history_refused.hyps(3) kept by (auto simp: run_risk_entry split: sum.splits)
  next
    case (Inr n)
    note r = history_rolled [OF history_refused.IH history_refused.hyps(2) Inr]
    show ?thesis using history_refused.hyps(3) Inr r(1,7) kept
      by (auto simp: run_risk_entry Let_def split: sum.splits if_splits)
  qed
next
  case (history_closed h m s day pnl stop s')
  then show ?case using history_result [OF history_closed.IH history_closed.hyps(2,3)] by auto
next
  case (history_not_closed h m s day v e s')
  then show ?case using history_result [OF history_not_closed.IH history_not_closed.hyps(2,3)] by auto
next
  case (history_once h m s day ref pnl stop s')
  then show ?case using history_result_once [OF history_once.IH history_once.hyps(2,3)] by auto
next
  case (history_seen h m s day ref v stop s')
  then show ?case by (auto simp: run_closed_once split: if_splits sum.splits prod.splits)
next
  case (history_not_once h m s day ref v e s')
  then show ?case using history_result_once [OF history_not_once.IH history_not_once.hyps(2,3)] by auto
next
  case (history_kill h m s day u s')
  then show ?case using killed_history by (auto simp: run_risk_kill split: sum.splits)
next
  case (history_reload h m s path u path' s')
  then show ?case using risk_save_load by fastforce
qed

section \<open>Property\<close>

text \<open>
  C23. Whether an entry is admitted is decided by the history.  After any operations whose days do
  not go back, an entry of the current or a later day is recorded exactly when no kill, monthly
  or losing-streak stop is in force and the entries admitted on that very day, the losses booked
  on it, the losses booked in its month and the current losing streak are all below the limits of
  the policy; and on no day are ever more entries admitted than the policy allows.
\<close>

theorem risk_entry_admitted_by_history:
  assumes "PhaseBRiskPolicy label a b c d e = Inr p" "risk_history p h m s" "validate_day day = Inr n" "m \<le> n"
  shows "((\<exists>s'. record_risk_entry_attempt p day s = (Inr (), s')) \<longleftrightarrow>
      risk_stop_of s \<in> {ACTIVE, STOPPED_DAILY_BUDGET} \<and> entries_on h n < rp_max_entries p
      \<and> loss_on h n < rp_daily_loss p \<and> loss_in h (ordinal_month n) < rp_monthly_loss p
      \<and> losing_streak h < rp_max_consecutive p)
    \<and> (\<forall>k. entries_on h k \<le> rp_max_entries p)"
proof -
  have inv: "history_inv p h m s" using history_sound [OF assms(2)] .
  then have ok: "risk_ok p s" and bound: "entries_on h k \<le> max 0 (rp_max_entries p)" for k
    by (auto simp: history_inv_def history_base_def)
  have pos: "1 \<le> rp_max_entries p" using assms(1) by (auto simp: PhaseBRiskPolicy_def Let_def split: if_splits)
  have day: "not_before m day" using assms(3,4) by (simp add: not_before_def)
  let ?t = "roll_calendar n s"
  note at = history_rolled(5,6) [OF inv day assms(3), unfolded history_base_def counts_at_def]
  have admitted: "(\<exists>s'. record_risk_entry_attempt p day s = (Inr (), s')) \<longleftrightarrow> risk_reasons p ?t = []"
    using ok assms(3) by (auto simp: run_risk_entry Let_def)
  have stop: "risk_stop_of ?t = ACTIVE \<and> loss_on h n < rp_daily_loss p
      \<longleftrightarrow> risk_stop_of s \<in> {ACTIVE, STOPPED_DAILY_BUDGET} \<and> loss_on h n < rp_daily_loss p"
    using at roll_stop [OF ok, of n] by (auto split: if_splits)
  have "risk_reasons p ?t = [] \<longleftrightarrow> (risk_stop_of ?t = ACTIVE \<and> loss_on h n < rp_daily_loss p)
      \<and> entries_on h n < rp_max_entries p \<and> loss_in h (ordinal_month n) < rp_monthly_loss p
      \<and> losing_streak h < rp_max_consecutive p"
    using at by (auto simp: risk_reasons_def)
  then show ?thesis unfolding admitted stop using bound pos by (auto simp: max_def)
qed

text \<open>One entry on a day; the next day starts from zero.\<close>

lemma risk_entry_admitted_by_history_witness:
  "\<exists>s s'. risk_history sample_risk_policy [Entered 739621] 739621 s
    \<and> record_risk_entry_attempt sample_risk_policy ''2026-01-06'' s = (Inr (), s')"
proof -
  let ?s = "snd (record_risk_entry_attempt sample_risk_policy ''2026-01-05'' (risk_fresh sample_risk_policy))"
  have day: "not_before 0 ''2026-01-05''" "later_of 0 ''2026-01-05'' = 739621"
    by (simp_all add: not_before_def later_of_def sample_days)
  have run: "record_risk_entry_attempt sample_risk_policy ''2026-01-05'' (risk_fresh sample_risk_policy) = (Inr (), ?s)"
    using fresh_ok [of sample_risk_policy]
    by (simp add: run_risk_entry sample_days Let_def risk_reasons_def roll_calendar_fields roll_stop)
      (simp add: risk_fresh_def PhaseBRiskState_def sample_risk_policy_def roll_calendar_def roll_day_def roll_month_def)
  have h: "risk_history sample_risk_policy [Entered 739621] 739621 ?s"
    using history_entered [OF history_fresh day(1) run] by (simp add: day(2))
  have active: "risk_stop_of ?s = ACTIVE" using recorded_entry [OF run sample_days(1)] by blast
  have counts: "entries_on [Entered 739621] 739622 = 0" "loss_on [Entered 739621] 739622 = 0"
    "loss_in [Entered 739621] month = 0" "losing_streak [Entered 739621] = 0" for month
    by (simp_all add: entries_on_def loss_on_def loss_in_def losing_streak_def)
  have "\<exists>s'. record_risk_entry_attempt sample_risk_policy ''2026-01-06'' ?s = (Inr (), s')"
    using risk_entry_admitted_by_history [OF sample_risk_policy h sample_days(2)]
    by (simp add: active counts) (simp add: sample_risk_policy_def)
  then show ?thesis using h by blast
qed

end
