(* ===== verification/Spec2Isabelle.thy ===== *)
theory Spec2Isabelle
  imports V4_Daily V4_Generation Auto_Properties V4_Runtime_Properties V4_Reload V4_Protection V4_Coordinator_Properties Paper_Properties Exit_Properties
    Risk_History
begin

text \<open>
  A verification development for the H-11 automatic execution core of the FX strategy laboratory
  (\<open>src/backend/app/h11_auto\<close>), the part of the program that decides whether an order may be
  sent, sends it at most once, protects the position and stops itself.

  \<^bold>\<open>The program.\<close>  A formal signal (\<open>contracts.py\<close>, \<open>v4_gmo_contracts.py\<close>) is accepted by a frozen
  policy and turned into one cycle in a SQLite store (\<open>persistence.py\<close>, \<open>v4_gmo_persistence.py\<close>);
  an engine (\<open>engine.py\<close>, \<open>v4_gmo_engine.py\<close>) persists every attempt before it hands the action to a
  sender or broker (\<open>boundary.py\<close>, \<open>v4_gmo_boundary.py\<close>), reconciles the answer with a broker
  snapshot, and halts for the operator on anything unexpected.  The runtime (\<open>v4_gmo_runtime.py\<close>)
  surrounds one run of the v4 engine with the process lock, the generation binding, the risk
  ledger and the dead-man heartbeat (\<open>runtime_safety.py\<close>) and the boot reconciliation.
  \<open>v4_gmo_protection.py\<close> computes the stop and the target of a filled position.
  The coordinator of the actual path (\<open>v4_gmo_actual_coordinator.py\<close>) keeps its own ledger: it
  freezes the planned loss of a signal, reserves one cycle, persists the entry preflight and every
  attempt before it issues a one-use proof (\<open>v4_gmo_persisted_authorization.py\<close>), latches an
  unknown halt when a transport is left open, and says what a recovery may still send.
  The paper runner (\<open>paper_runner.py\<close>) drives the Phase A engine over a bounded list of signals, with
  the lock, the run generation, the risk ledger and the heartbeat around it; \<open>paper.py\<close> books a paper
  round trip, \<open>exit_policy.py\<close> decides when a protected position is closed, and
  \<open>v4_gmo_g019_exit_policy.py\<close> evaluates the G019 exit and its portfolio limits.

  \<^bold>\<open>Theories.\<close>
  \<^item> \<open>H11_Prelude\<close>: exceptions, the error-and-state monad in which every method is written
    (\<open>transactionE\<close> is \<open>with connection\<close>: commit or roll back), the triples \<open>triple\<close>, \<open>keeps\<close> and
    \<open>stays\<close> with the rule collections \<open>wp\<close>, \<open>frame\<close> and \<open>stay\<close>, and tables as row lists.
  \<^item> \<open>Py_Runtime\<close>, \<open>Py_Json\<close>, \<open>Py_Iso\<close>, \<open>Py_Decimal\<close>, \<open>Py_Decimal_Arith\<close>, \<open>Py_Numbers\<close>, \<open>Py_Sha256\<close>:
    what the modules use of Python's library (\<open>json\<close>, \<open>datetime\<close>, \<open>decimal\<close>, \<open>float\<close>, \<open>hashlib\<close>),
    with the round trips of \<open>json\<close> and of \<open>isoformat\<close>.
  \<^item> \<open>Auto_Contracts\<close>, \<open>Auto_State\<close>, \<open>Auto_Boundary\<close>, \<open>Auto_Store\<close>, \<open>Auto_Engine\<close>: Phase A
    (\<open>contracts.py\<close>, \<open>state_machine.py\<close>, \<open>risk.py\<close>, \<open>boundary.py\<close>, \<open>persistence.py\<close>, \<open>engine.py\<close>,
    \<open>recovery.py\<close>); \<open>Auto_Store_Inv\<close>, \<open>Auto_Engine_Proof\<close>, \<open>Auto_Engine_Safety\<close>, \<open>Auto_Generation\<close> and
    \<open>Auto_Properties\<close> hold its invariants and properties.
  \<^item> \<open>V4_Contracts\<close>, \<open>V4_Cycle\<close>, \<open>V4_Broker\<close>, \<open>V4_Store\<close>, \<open>V4_Engine\<close>: the v4 profile; \<open>V4_Store_Inv\<close>,
    \<open>V4_Store_Run\<close>, \<open>V4_Engine_Inv\<close>, \<open>V4_Engine_Proof\<close>, \<open>V4_Engine_Safety\<close>, \<open>V4_Journal\<close>, \<open>V4_Daily\<close>
    and \<open>V4_Generation\<close> hold its invariants, one triple per method, and what runs, crashes and
    restarts can reach.
  \<^item> \<open>Hash_Journal\<close>: the hash-linked journal both stores keep, as the locale \<open>hash_journal\<close>.
  \<^item> \<open>Runtime_Safety\<close>, \<open>Risk_Ledger\<close>, \<open>Risk_Properties\<close>: the risk ledger and the heartbeat, its
    invariants as interpretations of the locale \<open>risk_invariant\<close>; \<open>Risk_History\<close> relates its counters to
    the history of admitted entries and booked results, over the order of days in \<open>Py_Calendar\<close>.
  \<^item> \<open>Process_Lock\<close>, \<open>V4_Runtime\<close>, \<open>V4_Runtime_Inv\<close>, \<open>V4_Runtime_Safety\<close>, \<open>V4_Runtime_Properties\<close>,
    \<open>V4_Reload\<close>: the lock and the runtime.
  \<^item> \<open>V4_Protection\<close>: the exact-fill protection in decimal arithmetic.
  \<^item> \<open>V4_Coordinator\<close>, \<open>V4_Coordinator_Attempts\<close>, \<open>V4_Coordinator_Recovery\<close>: the coordinator ledger in
    the order of its module; \<open>V4_Coordinator_Run\<close> makes its methods the operations of a step
    relation (\<open>coord_reach\<close>, with restarts that lose the proofs of a process);
    \<open>V4_Coordinator_Sent\<close>, \<open>V4_Coordinator_Cycles\<close>, \<open>V4_Coordinator_Halt\<close> hold its invariants,
    \<open>V4_Coordinator_Loss\<close> the planned loss, \<open>V4_Coordinator_Samples\<close> a sample run and
    \<open>V4_Coordinator_Properties\<close> the properties.
  \<^item> \<open>Paper_Runner\<close>: the bounded paper run; \<open>Paper_Runner_Safety\<close> follows the engine's world through it
    and the lock, \<open>Paper_Runner_Ledger\<close> the entry on disk, \<open>Paper_Runner_Counts\<close> the counts of its report,
    and \<open>Paper_Properties\<close> sequences of runs (\<open>paper_reach\<close>) and the properties; \<open>Paper_Samples\<close> is one run in full.
  \<^item> \<open>Paper_Fill\<close>, \<open>Exit_Policy\<close>, \<open>G019_Exit\<close>, \<open>G019_Layer2\<close>: the exit rules, each with its reference;
    \<open>Py_Float_Round\<close> shows when the float of \<open>total_seconds()\<close> keeps the order of the microseconds, and
    \<open>Exit_Properties\<close> holds the properties.
  \<^item> \<open>Samples\<close>, \<open>V4_Samples\<close>, \<open>V4_Runtime_Samples\<close>: concrete inputs for the witnesses.

  \<^bold>\<open>How state and code correspond.\<close>  A database is a record of its tables, each the list of its rows
  in insertion order, and the constraints of the tables raise \<open>SqliteIntegrityError\<close>.  A method is
  a program over that record or over a world around it (store, senders, broker, clock); its guards,
  their order and their messages are those of the code.  Every exception of the code is a
  constructor of \<open>py_exn\<close>.  A crash is a \<open>KeyboardInterrupt\<close> before any store, broker or clock
  call of the engines; the reachable worlds (\<open>v4_world_reach\<close>, \<open>auto_world_reach\<close>, \<open>v4_runtime_reach\<close>,
  \<open>coord_reach\<close>, \<open>paper_reach\<close>) contain every number of engines, stops and restarts.

  \<^bold>\<open>What the properties show.\<close>  No action is sent twice, and nothing is sent that was not recorded
  (C1 and its Phase A counterpart); a protected position is exactly protected and in time; a run
  returns or refuses, and a blocked run changes nothing; at most one active cycle and one entry a
  day; the journal always verifies and shows tampering; a halt is final until a flat reload; a
  generation is read back as bound; the risk ledger stays typed and bounded, it
  admits an entry exactly when its history leaves room, its stops hold and results are booked once; the runtime refines the engine, needs the ledger for an entry
  and releases its lock; the paper runner refines the engine, needs the ledger for an entry and its
  report accounts for every signal; the stop and target bracket the fill; the exit decision and the
  G019 exit are their references on exact numbers, a decided exit books what it saw, and the
  portfolio limits hold.  Of the
  coordinator: every proof handed to the transport has its own attempt row that is never removed;
  at most one cycle is unresolved beside one reconciled as externally flat; no entry happens under
  the unknown halt; the planned loss covers the stop; a recovery allows exactly what the broker
  snapshot supports.

  \<^bold>\<open>Bounds and fuel.\<close>  \<open>_reconcile_entry\<close> and \<open>_attempt_cancel_remainder\<close> call each other; the model
  counts these calls with \<open>entry_fuel = 2\<close>, enough because the second reconciliation finds the
  cancel attempted; the triples of \<open>V4_Engine_Proof\<close> prove that \<open>FuelExhausted\<close>
  never occurs.  The JSON reader has \<open>2 * length + 2\<close> steps, each nested value or member consumes a
  character, and the round-trip theorem shows that it reads whatever \<open>json.dumps\<close> wrote.  Decimal
  arithmetic is that of the default context with its exponent limits; exactness lemmas
  (\<open>dec_fits\<close>) say when nothing is rounded.

  \<^bold>\<open>Not modelled.\<close>  Disk errors, SQLite locking, symbolic links of database files, non-ASCII text,
  signalling NaNs and the year range of \<open>datetime\<close>.  Of the repository: the modules that only read
  files, render reports or start processes (reports, soak drivers, launchd files, routers, command
  lines, models and schemas); the network, credential and notification adapters of \<open>services\<close>,
  \<open>brokers\<close> and \<open>private_api\<close>; \<open>live_verification\<close>, \<open>shadow\<close> and \<open>h11_manual\<close>, whose modules build and
  check one-off approval artifacts around the core above; the strategies and the backtest; the
  frontend, the scripts and the tests.
\<close>

section \<open>The v4 engine across crashes and restarts\<close>

text \<open>
  C1. Whatever the engines, brokers, clocks and stops, no action of a cycle is ever handed to a
  broker twice; every plan handed over was recorded as an attempt before, is for the side of its
  cycle, enables no transport, has exactly the intended size for the market entry, and otherwise
  (the cancel of a foreign protection apart) a positive size of at most the intended one.
\<close>

theorem v4_actions_sent_once:
  assumes "v4_world_reach sent w"
  shows "distinct (map (\<lambda>p. (pl_cycle_ref p, pl_action p)) (sent @ b_calls (w_broker w)))
    \<and> (\<forall>p \<in> set (sent @ b_calls (w_broker w)).
         v4_action_attempted (pl_cycle_ref p) (pl_action p) (w_store w)
         \<and> \<not> pl_actual_post_allowed p \<and> \<not> pl_credential_read_allowed p \<and> \<not> pl_network_access_allowed p
         \<and> (\<exists>c. v4_find (pl_cycle_ref p) (w_store w) = Some c \<and> pl_side p = c_side c
             \<and> 0 < pl_requested_size p
             \<and> (pl_action p = MARKET_ENTRY \<longrightarrow> pl_requested_size p = c_requested_size c)
             \<and> (pl_action p \<noteq> CANCEL_MISMATCHED_PROTECTION \<longrightarrow> pl_requested_size p \<le> c_requested_size c)))"
proof -
  have calls: "v4_calls_inv (sent @ b_calls (w_broker w)) (w_store w)"
    using world_reach_inv [OF assms] by (simp add: v4_world_inv_def)
  have key: "plan_key = (\<lambda>p. (pl_cycle_ref p, pl_action p))" by (rule ext) (simp add: plan_key_def)
  have tried: "v4_action_attempted r a (w_store w) \<longleftrightarrow> find_attempt r a (w_store w) \<noteq> None" for r a
    by (simp add: v4_action_attempted_def find_attempt_def)
  show ?thesis
    using calls unfolding v4_calls_inv_def v4_plan_ok_def key tried by blast
qed

lemma v4_actions_sent_once_witness:
  "map pl_action (b_calls (w_broker sample_world1)) = [MARKET_ENTRY, EXACT_SIZE_OCO_PROTECTION]
   \<and> distinct (map (\<lambda>p. (pl_cycle_ref p, pl_action p)) ([] @ b_calls (w_broker sample_world1)))"
  using v4_actions_sent_once [OF sample_world1_reach] sample_world1 by blast

text \<open>
  C2. In every reachable database, a cycle in \<open>POSITION_PROTECTED\<close> holds a position of positive
  size, at most the intended one, with a protection of exactly that size, confirmed no earlier
  than the start of the unprotected window and at most 15 seconds after it; a cycle that is flat
  or cleared holds no size at all.
\<close>

theorem v4_protected_exactly_and_in_time:
  assumes "v4_world_reach sent w" and "v4_find ref (w_store w) = Some c"
  shows "(c_state c = POSITION_PROTECTED \<longrightarrow>
      0 < c_filled_size c \<and> c_filled_size c \<le> c_requested_size c \<and> c_protected_size c = c_filled_size c
      \<and> (\<exists>d. c_unprotected_since c = Some d \<and> dt_utc d \<le> dt_utc (c_updated_at c)
           \<and> dt_utc (c_updated_at c) - dt_utc d \<le> 15 * us_per_second))
    \<and> (c_state c \<in> {FLAT_RECONCILED, OPERATOR_RELOAD_CLEARED} \<longrightarrow> c_filled_size c = 0 \<and> c_protected_size c = 0)"
proof -
  have "v4_row_inv c"
    using world_reach_inv [OF assms(1)] v4_find_ref [OF assms(2)] by (simp add: v4_world_inv_def)
  then show ?thesis by (auto simp: v4_row_inv_def v4_unfilled_states_def v4_deadline_us_def)
qed

lemma v4_protected_exactly_and_in_time_witness:
  "\<exists>c. v4_find sample_ref (w_store sample_world1) = Some c \<and> c_state c = POSITION_PROTECTED
    \<and> c_protected_size c = 1000 \<and> 0 < c_filled_size c"
proof -
  obtain db where w: "sample_world1 = sample_world\<lparr>w_store := db, w_broker := w_broker sample_world1\<rparr>"
    and c: "v4_find sample_ref db = Some (sample_row POSITION_PROTECTED 1000 1000)"
    using sample_world1 by blast
  have "w_store sample_world1 = db" by (subst w) simp
  with c have c': "v4_find sample_ref (w_store sample_world1) = Some (sample_row POSITION_PROTECTED 1000 1000)"
    by simp
  from v4_protected_exactly_and_in_time [OF sample_world1_reach c'] c' show ?thesis by auto
qed

text \<open>
  C3. Recovery: from every reachable database, also one a stopped process left behind, resuming a
  known cycle with its own policy, an aware \<open>now_utc\<close>, a sound clock and no further stop returns
  a result (it raises nothing); the cycle then is protected, flat, halted or cleared, and the
  result reports its state and sizes and no activity of a real broker.
\<close>

theorem v4_resume_always_settles:
  assumes reach: "v4_world_reach sent w" and env: "v4_sound_environment w" and now: "dt_aware now"
    and policy: "V4GmoExecutionPolicy args = Inr policy"
    and cycle: "v4_find ref (w_store w) = Some c" and hash: "c_config_hash c = v4_config_hash policy"
  shows "\<exists>r w' c'. v4_resume_synthetic ref policy now w = (Inr r, w')
    \<and> v4_find ref (w_store w') = Some c'
    \<and> r_final_state r = Some (c_state c') \<and> r_filled_size r = c_filled_size c'
    \<and> r_protected_size r = c_protected_size c' \<and> r_actual_post_count r = 0
    \<and> (r_status r = POSITION_PROTECTED_SYNTHETIC \<and> c_state c' = POSITION_PROTECTED
       \<or> r_status r = FLAT_RECONCILED_SYNTHETIC \<and> c_state c' = FLAT_RECONCILED
       \<or> r_status r = STATUS_HALTED_OPERATOR_REVIEW_REQUIRED
         \<and> c_state c' \<in> {HALTED_OPERATOR_REVIEW_REQUIRED, OPERATOR_RELOAD_CLEARED})"
proof -
  have ref: "c_ref c = ref" using v4_find_ref [OF cycle] by simp
  have h: "v4_holds (True, sent) c w"
    using world_reach_sound [OF reach env] cycle ref by (simp add: v4_holds_def)
  have T: "triple (v4_holds (True, sent) c) (v4_resume_synthetic ref policy now)
      (v4_done (True, sent) ref) (v4_exc (True, sent) now)"
    using resume_triple [of c policy "(True, sent)" now] hash V4GmoExecutionPolicy_ok [OF policy] ref by simp
  obtain r w' where run: "v4_resume_synthetic ref policy now w = (r, w')" by fastforce
  obtain x where r: "r = Inr x"
    using tripleD_raise [OF T h] run now by (cases r) (auto simp: v4_expected_def)
  have "v4_done (True, sent) ref x w'" using tripleD_return [OF T h] run r by simp
  then show ?thesis using run r by (auto simp: v4_done_def v4_result_ok_def v4_holds_def)
qed

lemma v4_resume_always_settles_witness:
  "\<exists>r w'. v4_resume_synthetic sample_ref sample_policy sample_now sample_world1 = (Inr r, w')
    \<and> r_status r \<in> {POSITION_PROTECTED_SYNTHETIC, FLAT_RECONCILED_SYNTHETIC,
        STATUS_HALTED_OPERATOR_REVIEW_REQUIRED}"
proof -
  obtain db where w: "sample_world1 = sample_world\<lparr>w_store := db, w_broker := w_broker sample_world1\<rparr>"
    and c: "v4_find sample_ref db = Some (sample_row POSITION_PROTECTED 1000 1000)"
    using sample_world1 by blast
  have "w_store sample_world1 = db" by (subst w) simp
  with c have c': "v4_find sample_ref (w_store sample_world1) = Some (sample_row POSITION_PROTECTED 1000 1000)"
    by simp
  have "w_interrupt sample_world1 = None" "w_clock sample_world1 = None"
    by (subst w; simp add: sample_world_def)+
  then have env: "v4_sound_environment sample_world1" by (simp add: v4_sound_environment_def)
  have hash: "c_config_hash (sample_row POSITION_PROTECTED 1000 1000) = v4_config_hash sample_policy"
    by (simp add: sample_row_def sample_attempted_def v4_attempt_row_def sample_cycle_def v4_new_cycle_def)
  show ?thesis
    using v4_resume_always_settles [OF sample_world1_reach env sample_now_aware sample_policy(1) c' hash] by auto
qed

text \<open>
  C4. Running a signal from a reachable database in a sound environment (no process stop, and no
  clock or one that only gives instants with a time zone) returns a result or one of the two
  refusals of \<open>create_cycle\<close> (a second entry on the day, a second cycle for the signal); it never
  ends in another exception, and no result reports real activity.
\<close>

theorem v4_run_returns_or_refuses:
  assumes reach: "v4_world_reach sent w" and env: "v4_sound_environment w"
    and policy: "V4GmoExecutionPolicy args = Inr policy" and signal: "FormalSignal sargs = Inr signal"
    and run: "v4_run_signal_once_synthetic signal policy preflight now w = (x, w')"
  shows "(\<exists>r. x = Inr r \<and> r_actual_post_count r = 0
      \<and> (r_status r \<in> {NO_ACTION_STAY, BLOCKED_SAFE} \<or> r_final_state r \<in>
          Some ` {POSITION_PROTECTED, FLAT_RECONCILED, HALTED_OPERATOR_REVIEW_REQUIRED, OPERATOR_RELOAD_CLEARED}))
    \<or> (\<exists>e. x = Inl e \<and> e \<in> {V4GmoPersistenceError ''v4 GMO daily entry attempt already exists'',
          V4GmoPersistenceError ''duplicate v4 GMO cycle refused''})"
proof (cases "dt_aware now")
  case True
  have sig: "dt_aware (s_valid_until signal)" using FormalSignal_signal_ok [OF signal] by (simp add: signal_ok_def)
  note T = run_triple [OF V4GmoExecutionPolicy_ok [OF policy] sig, of "(True, sent)" preflight now]
  show ?thesis
    using tripleD_return [OF T world_reach_sound [OF reach env]] tripleD_raise [OF T world_reach_sound [OF reach env]]
      run True
    by (cases x) (auto simp: v4_run_done_def v4_done_def v4_result_ok_def v4_expected_def v4_creation_refused_def)
next
  case False
  with run have "x = Inr (v4_empty_result BLOCKED_SAFE (preflight_blocked_reasons preflight
      @ [''SIGNAL_EXPIRED_OR_CLOCK_INVALID''] @ (if s_decision signal = STAY
        then if s_strategy_version signal \<noteq> v_strategy_version policy
              \<or> s_config_hash signal \<noteq> v_signal_config_hash policy \<or> s_horizon signal \<noteq> v_horizon policy
             then [''SIGNAL_POLICY_MISMATCH''] else []
        else (if \<not> v4_accepts policy signal then [''SIGNAL_POLICY_MISMATCH''] else [])
          @ (if v4_active_cycle_count (w_store w) \<noteq> 0 then [''ACTIVE_V4_CYCLE_EXISTS''] else [])
          @ (if v4_halt_latched (w_store w) then [''OPERATOR_HALT_LATCHED''] else []))))"
    by (auto simp: v4_run_signal_once_synthetic_def run_progs Let_def split: if_splits)
  then show ?thesis by (auto simp: v4_empty_result_def)
qed

lemma v4_run_returns_or_refuses_witness:
  "\<exists>r. v4_run_signal_once_synthetic sample_signal sample_policy sample_preflight sample_now sample_world
      = (Inr r, sample_world1) \<and> r_status r = POSITION_PROTECTED_SYNTHETIC \<and> r_actual_post_count r = 0"
proof -
  have env: "v4_sound_environment sample_world" by (simp add: v4_sound_environment_def sample_world_def)
  obtain r where r: "fst (v4_run_signal_once_synthetic sample_signal sample_policy sample_preflight
      sample_now sample_world) = Inr r" "r_status r = POSITION_PROTECTED_SYNTHETIC"
    using sample_world1 by blast
  then have run: "v4_run_signal_once_synthetic sample_signal sample_policy sample_preflight sample_now
      sample_world = (Inr r, sample_world1)"
    by (simp add: sample_world1_def prod_eq_iff)
  from v4_run_returns_or_refuses [OF sample_world_reach env sample_policy(1) sample_FormalSignal run] run r(2)
  show ?thesis by auto
qed

text \<open>
  C5. A run that must not start leaves everything as it was: with any preflight failure, an expired
  or naive instant, a signal of another policy, an active cycle or a latched halt, a directional
  signal is reported blocked, and neither the database nor the broker has changed.
\<close>

theorem v4_blocked_run_changes_nothing:
  assumes "s_decision signal \<noteq> STAY" and "dt_aware (s_valid_until signal)"
    and "preflight_blocked_reasons preflight \<noteq> [] \<or> \<not> dt_aware now \<or> dt_leq (s_valid_until signal) now
      \<or> \<not> v4_accepts policy signal \<or> 0 < v4_active_cycle_count (w_store w) \<or> v4_halt_latched (w_store w)"
  shows "\<exists>reasons. reasons \<noteq> [] \<and> v4_run_signal_once_synthetic signal policy preflight now w =
    (Inr (v4_empty_result BLOCKED_SAFE reasons), w)"
  using assms by (auto simp: v4_run_signal_once_synthetic_def run_progs Let_def dt_comparable_def)

lemma v4_blocked_run_changes_nothing_witness:
  "\<exists>reasons. v4_run_signal_once_synthetic sample_signal sample_policy sample_preflight sample_now
      (sample_world\<lparr>w_store := v4_add_cycle sample_cycle v4_empty_db\<rparr>) =
    (Inr (v4_empty_result BLOCKED_SAFE reasons), sample_world\<lparr>w_store := v4_add_cycle sample_cycle v4_empty_db\<rparr>)"
proof -
  have "0 < v4_active_cycle_count (w_store (sample_world\<lparr>w_store := v4_add_cycle sample_cycle v4_empty_db\<rparr>))"
    by (simp add: v4_active_cycle_count_def v4_empty_db_def count_rows_def v4_active_def)
  then show ?thesis
    using v4_blocked_run_changes_nothing [of sample_signal sample_preflight sample_now sample_policy
        "sample_world\<lparr>w_store := v4_add_cycle sample_cycle v4_empty_db\<rparr>"]
    by (auto simp: dt_aware_def)
qed

text \<open>
  C6. The daily limit and the single cycle: in every reachable database at most one cycle is
  active, and two cycles with the same JST entry day never both have a recorded market entry.
\<close>

theorem v4_one_cycle_one_entry_per_day:
  assumes "v4_world_reach sent w"
  shows "v4_active_cycle_count (w_store w) \<le> 1
    \<and> (\<forall>c \<in> set (db_cycles (w_store w)). \<forall>d \<in> set (db_cycles (w_store w)).
         c_entry_day c = c_entry_day d \<and> v4_action_attempted (c_ref c) MARKET_ENTRY (w_store w)
         \<and> v4_action_attempted (c_ref d) MARKET_ENTRY (w_store w) \<longrightarrow> c = d)"
proof (intro conjI ballI impI)
  have inv: "v4_store_inv (w_store w)" by (rule world_reach_store [OF assms])
  then show "v4_active_cycle_count (w_store w) \<le> 1" by (simp add: v4_store_inv_def inv_one_active_def)
  fix c d assume c: "c \<in> set (db_cycles (w_store w))" and d: "d \<in> set (db_cycles (w_store w))"
    and both: "c_entry_day c = c_entry_day d \<and> v4_action_attempted (c_ref c) MARKET_ENTRY (w_store w)
      \<and> v4_action_attempted (c_ref d) MARKET_ENTRY (w_store w)"
  have "daily_inv (w_store w)"
    using reach_daily world_inv_reach [OF world_reach_inv [OF assms]] by blast
  moreover have "v4_entered (w_store w) x \<longleftrightarrow> v4_action_attempted (c_ref x) MARKET_ENTRY (w_store w)" for x
    by (simp add: v4_entered_def v4_action_attempted_def find_attempt_def)
  ultimately have "c_ref c = c_ref d"
    using c d both unfolding daily_inv_def by blast
  have cyc: "inv_cycles (w_store w)" using inv by (simp add: v4_store_inv_def)
  from v4_find_member [OF cyc c] v4_find_member [OF cyc d] show "c = d"
    unfolding \<open>c_ref c = c_ref d\<close> by simp
qed

lemma v4_one_cycle_one_entry_per_day_witness: "v4_active_cycle_count (w_store sample_world1) \<le> 1"
  using v4_one_cycle_one_entry_per_day [OF sample_world1_reach] by blast

section \<open>The v4 journal\<close>

text \<open>
  C7. The journal of every reachable database verifies, with as many events and attempts as the
  tables have: no run, restart, exception or stop leaves the journal and the tables at odds.
\<close>

theorem v4_journal_always_verifies:
  assumes "v4_world_reach sent w"
  shows "\<exists>s. v4_verify_journal (w_store w) = Inr s \<and> js_valid s
    \<and> js_event_count s = length (db_events (w_store w))
    \<and> js_action_attempt_count s = length (db_attempts (w_store w))"
  using store_inv_verifies [OF world_reach_store [OF assms]] by (simp add: v4_summary_def)

lemma v4_journal_always_verifies_witness:
  "\<exists>s. v4_verify_journal (w_store sample_world1) = Inr s \<and> js_valid s"
  using v4_journal_always_verifies [OF sample_world1_reach] by blast

text \<open>
  C8. Tamper evidence: a database, however it came about, that passes \<open>verify_journal\<close> and whose
  last event carries the digest of the last event of a reachable database has the same events, the
  same cycles in the same states and the same action attempts with the same outcomes, or two of
  the strings hashed in the two journals are a SHA-256 collision.
\<close>

theorem v4_journal_tamper_evident:
  assumes reach: "v4_reach db" and ok: "v4_verify_journal db' = Inr s"
    and keys: "distinct (map (\<lambda>t. (t_cycle_ref t, t_action t)) (db_attempts db'))"
    and last: "last_digest e_digest (events_in_order db') = last_digest e_digest (events_in_order db)"
  shows "(events_in_order db' = events_in_order db
      \<and> (\<lambda>c. (c_ref c, c_state c)) ` set (db_cycles db') = (\<lambda>c. (c_ref c, c_state c)) ` set (db_cycles db)
      \<and> (\<lambda>t. ((t_cycle_ref t, t_action t), t_outcome t)) ` set (db_attempts db')
        = (\<lambda>t. ((t_cycle_ref t, t_action t), t_outcome t)) ` set (db_attempts db))
    \<or> (\<exists>e \<in> set (db_events db). \<exists>e' \<in> set (events_in_order db').
         v4_canonical e \<noteq> v4_canonical e' \<and> sha256_hex (v4_canonical e) = sha256_hex (v4_canonical e'))"
proof (cases "sha256_collision (db_events db) (events_in_order db')")
  case True
  then show ?thesis by (auto simp: sha256_collision_def)
next
  case False
  have inv: "v4_store_inv db" by (rule reach_inv [OF reach])
  have order: "events_in_order db = db_events db"
    using inv by (intro events_in_order_chain) (simp add: v4_store_inv_def)
  have chain: "v4_chain (events_in_order db')" using ok by (simp add: verify_journal_Inr)
  have same: "events_in_order db' = db_events db"
    by (rule journal_determined [OF inv chain _ False]) (use last order in simp)
  have "cycle_states db' = cycle_states db"
    using verified_cycle_states [OF ok] verified_cycle_states [OF store_inv_verifies [OF inv]] same order by simp
  moreover have "attempt_outcomes db' = attempt_outcomes db"
    by (rule outcomes_determined [OF inv ok _ same]) (use keys in \<open>simp add: attempt_key_def [abs_def]\<close>)
  ultimately show ?thesis
    using same order by (simp add: cycle_states_def attempt_outcomes_def attempt_key_def)
qed

lemma v4_journal_tamper_evident_witness:
  "\<exists>s db. v4_verify_journal db = Inr s \<and> db_events db \<noteq> []
     \<and> (events_in_order db = events_in_order db
       \<or> (\<exists>e \<in> set (db_events db). \<exists>e' \<in> set (events_in_order db).
         v4_canonical e \<noteq> v4_canonical e' \<and> sha256_hex (v4_canonical e) = sha256_hex (v4_canonical e')))"
proof -
  let ?db = "v4_add_cycle sample_cycle v4_empty_db"
  have reach: "v4_reach ?db" by (rule reach_create [OF reach_empty sample_create])
  have "v4_verify_journal ?db = Inr (v4_summary ?db)" by (rule store_inv_verifies [OF reach_inv [OF reach]])
  moreover have "db_events ?db \<noteq> []" by simp
  moreover have "distinct (map (\<lambda>t. (t_cycle_ref t, t_action t)) (db_attempts ?db))"
    by (simp add: v4_empty_db_def)
  ultimately show ?thesis using v4_journal_tamper_evident [OF reach, of ?db] by blast
qed

end
